(* ===== verification/Prelude.thy ===== *)
theory Prelude
  imports Main "HOL-Library.Char_ord" "HOL-Library.List_Lexorder" "HOL-Library.Sublist"
    "HOL-Library.Multiset"
begin

section \<open>Prelude: Go strings, Go maps, collections of facts\<close>

text \<open>
  What every component shares. A Go \<open>string\<close> is a sequence of bytes, so it is an Isabelle
  \<open>string\<close> (a list of 8-bit characters); its order is the byte-wise lexicographic one, which
  is the order the class instances of \<open>Char_ord\<close> and \<open>List_Lexorder\<close> give. The functions
  of Go's package \<open>strings\<close> that kluster calls are defined here, with the laws (split/join,
  split of an append, trims) the text-editing components rest on. White space is the six ASCII
  white-space bytes and case is ASCII case: the code points above 127 that Go also treats as
  white space are not modelled.

  A Go \<open>map\<close> whose iteration order matters is an association list with distinct keys, and
  one that is only looked up is a partial function. Errors are values of a sum type, the error
  on the left.
\<close>

named_theorems str_simps \<open>laws of the string functions used as rewrite rules\<close>

type_synonym ('e, 'a) result = "'e + 'a"

abbreviation NL :: char where "NL \<equiv> CHR 0x0A"

subsection \<open>Package strings: cutting and joining\<close>

definition is_space :: "char \<Rightarrow> bool" where
  "is_space c \<longleftrightarrow>
     c \<in> set [CHR 0x09, CHR 0x0A, CHR 0x0B, CHR 0x0C, CHR 0x0D, CHR 0x20]"

definition trim_left :: "(char \<Rightarrow> bool) \<Rightarrow> string \<Rightarrow> string" where
  "trim_left P s = dropWhile P s"

definition trim_right :: "(char \<Rightarrow> bool) \<Rightarrow> string \<Rightarrow> string" where
  "trim_right P s = rev (dropWhile P (rev s))"

definition trim_space :: "string \<Rightarrow> string" where
  "trim_space s = trim_right is_space (trim_left is_space s)"

fun split_by :: "(char \<Rightarrow> bool) \<Rightarrow> string \<Rightarrow> string list" where
  "split_by P [] = [[]]"
| "split_by P (x # xs) =
     (if P x then [] # split_by P xs
      else (case split_by P xs of [] \<Rightarrow> [[x]] | y # ys \<Rightarrow> (x # y) # ys))"

abbreviation split_on :: "char \<Rightarrow> string \<Rightarrow> string list" where
  "split_on c \<equiv> split_by (\<lambda>x. x = c)"

definition str_fields :: "string \<Rightarrow> string list" where
  "str_fields s = filter (\<lambda>w. w \<noteq> []) (split_by is_space s)"

fun join_str :: "string \<Rightarrow> string list \<Rightarrow> string" where
  "join_str sep [] = []"
| "join_str sep [x] = x"
| "join_str sep (x # y # ys) = x @ sep @ join_str sep (y # ys)"

fun cut_on :: "char \<Rightarrow> string \<Rightarrow> (string \<times> string) option" where
  "cut_on c [] = None"
| "cut_on c (x # xs) =
     (if x = c then Some ([], xs)
      else map_option (\<lambda>(a, b). (x # a, b)) (cut_on c xs))"

definition lower_char :: "char \<Rightarrow> char" where
  "lower_char c =
     (if CHR ''A'' \<le> c \<and> c \<le> CHR ''Z'' then char_of (of_char c + 32 :: nat) else c)"

definition to_lower :: "string \<Rightarrow> string" where
  "to_lower s = map lower_char s"

text \<open>\<open>path.Base\<close>\<close>

definition path_base :: "string \<Rightarrow> string" where
  "path_base p =
     (if p = [] then ''.'' else
      let q = trim_right (\<lambda>c. c = CHR ''/'') p in
      if q = [] then ''/'' else last (split_on CHR ''/'' q))"

fun string_of_nat :: "nat \<Rightarrow> string" where
  "string_of_nat n =
     (if n < 10 then [char_of (48 + n)]
      else string_of_nat (n div 10) @ [char_of (48 + n mod 10)])"

declare string_of_nat.simps [simp del]

text \<open>\<open>strings.Count\<close>, \<open>strings.Replace(s, sep, new, 1)\<close>, \<open>strings.ReplaceAll\<close> (for a non-empty \<open>sep\<close>; the number
  is what is left to skip of an occurrence) and \<open>strings.CutPrefix\<close>.\<close>

fun count_sub :: "string \<Rightarrow> nat \<Rightarrow> string \<Rightarrow> nat" where
  "count_sub sep skip [] = 0"
| "count_sub sep (Suc skip) (x # xs) = count_sub sep skip xs"
| "count_sub sep 0 (x # xs) =
     (if take (length sep) (x # xs) = sep then Suc (count_sub sep (length sep - 1) xs)
      else count_sub sep 0 xs)"

fun replace_first :: "string \<Rightarrow> string \<Rightarrow> string \<Rightarrow> string" where
  "replace_first sep new [] = []"
| "replace_first sep new (x # xs) =
     (if take (length sep) (x # xs) = sep then new @ drop (length sep) (x # xs)
      else x # replace_first sep new xs)"

fun replace_all :: "string \<Rightarrow> string \<Rightarrow> nat \<Rightarrow> string \<Rightarrow> string" where
  "replace_all sep new skip [] = []"
| "replace_all sep new (Suc skip) (x # xs) = replace_all sep new skip xs"
| "replace_all sep new 0 (x # xs) =
     (if take (length sep) (x # xs) = sep then new @ replace_all sep new (length sep - 1) xs
      else x # replace_all sep new 0 xs)"

definition cut_prefix :: "string \<Rightarrow> string \<Rightarrow> string option" where
  "cut_prefix p s = (if take (length p) s = p then Some (drop (length p) s) else None)"

lemma cut_prefix_Some: "cut_prefix p s = Some r \<longleftrightarrow> s = p @ r"
  by (auto simp: cut_prefix_def) (metis append_take_drop_id)

subsection \<open>Laws of the string functions\<close>

lemma split_by_nonempty [simp]: "split_by P s \<noteq> []"
  by (induction s) (auto split: list.splits)

lemma split_by_Cons_ex: "\<exists>y ys. split_by P s = y # ys"
  using split_by_nonempty [of P s] by (cases "split_by P s") auto

lemma split_by_no_sep [str_simps]: "(\<And>x. x \<in> set s \<Longrightarrow> \<not> P x) \<Longrightarrow> split_by P s = [s]"
  by (induction s) auto

lemma split_by_append_sep [str_simps]:
  "P c \<Longrightarrow> split_by P (xs @ c # ys) = split_by P xs @ split_by P ys"
proof (induction xs)
  case (Cons x xs)
  then show ?case
    using split_by_Cons_ex [of P xs] by (auto split: list.splits)
qed simp

lemma split_by_parts: "w \<in> set (split_by P s) \<Longrightarrow> x \<in> set w \<Longrightarrow> x \<in> set s \<and> \<not> P x"
proof (induction s arbitrary: w)
  case (Cons a s)
  obtain y ys where "split_by P s = y # ys"
    using split_by_Cons_ex by blast
  with Cons show ?case by (fastforce split: if_splits)
qed simp

lemma join_split [simp]: "join_str [c] (split_on c s) = s"
proof (induction s)
  case (Cons x s)
  obtain y ys where "split_on c s = y # ys"
    using split_by_Cons_ex by blast
  with Cons show ?case by (cases ys) auto
qed simp

lemma join_append [str_simps]:
  "xs \<noteq> [] \<Longrightarrow> ys \<noteq> [] \<Longrightarrow> join_str sep (xs @ ys) = join_str sep xs @ sep @ join_str sep ys"
proof (induction sep xs rule: join_str.induct)
  case (2 sep x)
  then show ?case by (cases ys) auto
qed auto

lemma split_join:
  assumes "ls \<noteq> []" and "\<And>l. l \<in> set ls \<Longrightarrow> c \<notin> set l"
  shows "split_on c (join_str [c] ls) = ls"
  using assms
proof (induction "[c]" ls rule: join_str.induct)
  case (2 x)
  then show ?case by (auto intro!: split_by_no_sep)
next
  case (3 x y ys)
  have "split_on c x = [x]"
    using "3.prems"(2) [of x] by (auto intro!: split_by_no_sep)
  moreover have "split_on c (join_str [c] (y # ys)) = y # ys"
    using "3.hyps" "3.prems"(2) by auto
  ultimately show ?case
    using split_by_append_sep [of "\<lambda>z. z = c" c x "join_str [c] (y # ys)"] by simp
qed simp

lemma str_fields_nonempty: "w \<in> set (str_fields s) \<Longrightarrow> w \<noteq> []"
  by (simp add: str_fields_def)

lemma str_fields_no_space: "w \<in> set (str_fields s) \<Longrightarrow> x \<in> set w \<Longrightarrow> \<not> is_space x"
  by (auto simp: str_fields_def dest: split_by_parts)

lemma cut_on_Some: "cut_on c s = Some (a, b) \<Longrightarrow> s = a @ c # b \<and> c \<notin> set a"
  by (induction s arbitrary: a) (auto split: if_splits)

lemma cut_on_append [str_simps]: "c \<notin> set a \<Longrightarrow> cut_on c (a @ c # b) = Some (a, b)"
  by (induction a) auto

lemma cut_on_None: "cut_on c s = None \<longleftrightarrow> c \<notin> set s"
  by (induction s) auto

lemma trim_left_id: "(s = [] \<or> \<not> P (hd s)) \<Longrightarrow> trim_left P s = s"
  by (cases s) (auto simp: trim_left_def)

lemma trim_right_id: "(s = [] \<or> \<not> P (last s)) \<Longrightarrow> trim_right P s = s"
  by (cases s rule: rev_cases) (auto simp: trim_right_def)

text \<open>A string with no white space at either end, which \<open>TrimSpace\<close> leaves as it is.\<close>

definition trimmed :: "string \<Rightarrow> bool" where
  "trimmed s \<longleftrightarrow> s = [] \<or> \<not> is_space (hd s) \<and> \<not> is_space (last s)"

lemma trim_space_id [str_simps]: "trimmed s \<Longrightarrow> trim_space s = s"
  by (auto simp: trimmed_def trim_space_def trim_left_id trim_right_id)

lemma trim_space_Cons_space [simp]: "is_space c \<Longrightarrow> trim_space (c # s) = trim_space s"
  by (simp add: trim_space_def trim_left_def)

lemma trim_space_Nil [simp]: "trim_space [] = []"
  by (simp add: trim_space_def trim_left_def trim_right_def)

lemma trim_right_Cons: "\<not> P c \<Longrightarrow> trim_right P (c # s) = c # trim_right P s"
  by (simp add: trim_right_def dropWhile_append)

lemma trim_space_Cons: "\<not> is_space c \<Longrightarrow> trim_space (c # s) = c # trim_right is_space s"
  by (simp add: trim_space_def trim_left_def trim_right_Cons)

lemma hd_trim_space: "trim_space s \<noteq> [] \<Longrightarrow> \<not> is_space (hd (trim_space s))"
proof -
  assume "trim_space s \<noteq> []"
  then obtain c t where ct: "trim_left is_space s = c # t"
    by (cases "trim_left is_space s") (auto simp: trim_space_def trim_right_def)
  then have "\<not> is_space c"
    using hd_dropWhile [of is_space s] by (auto simp: trim_left_def)
  with ct show ?thesis by (simp add: trim_space_def trim_right_Cons)
qed

lemma trim_right_append_all:
  assumes "\<And>x. x \<in> set t \<Longrightarrow> P x"
  shows "trim_right P (s @ t) = trim_right P s"
  using assms by (simp add: trim_right_def dropWhile_append)

lemma trim_right_decomp: "\<exists>t. s = trim_right P s @ t \<and> (\<forall>x \<in> set t. P x)"
proof -
  have "rev s = takeWhile P (rev s) @ dropWhile P (rev s)"
    by simp
  then have "s = rev (dropWhile P (rev s)) @ rev (takeWhile P (rev s))"
    by (metis rev_append rev_rev_ident)
  moreover have "\<forall>x \<in> set (rev (takeWhile P (rev s))). P x"
    by (auto dest: set_takeWhileD)
  ultimately show ?thesis
    unfolding trim_right_def by blast
qed

lemma trim_right_last: "trim_right P s \<noteq> [] \<Longrightarrow> \<not> P (last (trim_right P s))"
  by (simp add: trim_right_def last_rev hd_dropWhile)

lemma is_space_simps [simp]:
  "is_space NL" "is_space CHR '' ''" "\<not> is_space CHR ''#''" "\<not> is_space CHR ''[''"
  "\<not> is_space CHR '']''" "\<not> is_space CHR ''=''"
  by (simp_all add: is_space_def)

subsection \<open>Decimal numbers\<close>

definition is_digit :: "char \<Rightarrow> bool" where
  "is_digit c \<longleftrightarrow> 48 \<le> (of_char c :: nat) \<and> (of_char c :: nat) \<le> 57"

definition digit_value :: "char \<Rightarrow> nat" where
  "digit_value c = of_char c - 48"

definition nat_of_digits :: "string \<Rightarrow> nat" where
  "nat_of_digits s = foldl (\<lambda>n c. 10 * n + digit_value c) 0 s"

lemma digit_char [simp]:
  "d < 10 \<Longrightarrow> is_digit (char_of (48 + d))"
  "d < 10 \<Longrightarrow> digit_value (char_of (48 + d)) = d"
  by (simp_all add: is_digit_def digit_value_def)

lemma nat_of_digits_snoc [simp]:
  "nat_of_digits (s @ [c]) = 10 * nat_of_digits s + digit_value c"
  by (simp add: nat_of_digits_def)

lemma nat_of_digits_single [simp]: "nat_of_digits [c] = digit_value c"
  by (simp add: nat_of_digits_def)

lemma nat_of_string_of_nat [simp]: "nat_of_digits (string_of_nat n) = n"
proof (induction n rule: string_of_nat.induct)
  case (1 n)
  show ?case
  proof (cases "n < 10")
    case True
    then show ?thesis by (simp add: string_of_nat.simps [of n])
  next
    case False
    then have "nat_of_digits (string_of_nat n) = 10 * (n div 10) + n mod 10"
      using 1 by (simp add: string_of_nat.simps [of n])
    then show ?thesis by simp
  qed
qed

lemma string_of_nat_digits: "\<forall>c \<in> set (string_of_nat n). is_digit c"
proof (induction n rule: string_of_nat.induct)
  case (1 n)
  then show ?case by (cases "n < 10") (auto simp: string_of_nat.simps [of n])
qed

lemma string_of_nat_inj [simp]: "string_of_nat m = string_of_nat n \<longleftrightarrow> m = n"
  by (metis nat_of_string_of_nat)

lemma string_of_nat_nonempty [simp]: "string_of_nat n \<noteq> []"
  by (simp add: string_of_nat.simps [of n])

lemma hd_string_of_nat: "0 < n \<Longrightarrow> hd (string_of_nat n) \<noteq> CHR ''0''"
proof (induction n rule: string_of_nat.induct)
  case (1 n)
  show ?case
  proof (cases "n < 10")
    case True
    have "digit_value (char_of (48 + n)) \<noteq> digit_value CHR ''0''"
      using True 1 by (simp add: digit_value_def)
    then have "char_of (48 + n) \<noteq> CHR ''0''"
      by metis
    then show ?thesis using True by (simp add: string_of_nat.simps [of n])
  next
    case False
    with 1 show ?thesis by (simp add: string_of_nat.simps [of n])
  qed
qed

lemma char_of_48 [simp]: "char_of (48::nat) = CHR ''0''"
  by code_simp

lemma string_of_nat_of_digits:
  assumes "s \<noteq> []" and "hd s \<noteq> CHR ''0''" and "\<forall>c \<in> set s. is_digit c"
  shows "string_of_nat (nat_of_digits s) = s"
  using assms
proof (induction s rule: rev_induct)
  case (snoc c s)
  have c: "char_of (48 + digit_value c) = c" "digit_value c < 10"
    using snoc.prems(3) by (auto simp: is_digit_def digit_value_def)
  show ?case
  proof (cases "s = []")
    case True
    with c show ?thesis by (simp add: string_of_nat.simps [of "digit_value c"])
  next
    case False
    then have IH: "string_of_nat (nat_of_digits s) = s" using snoc by simp
    have "nat_of_digits s \<noteq> 0"
    proof
      assume "nat_of_digits s = 0"
      with IH have "s = string_of_nat 0" by simp
      then show False using snoc.prems(2) False by (simp add: string_of_nat.simps)
    qed
    then show ?thesis
      using c IH by (simp add: string_of_nat.simps [of "10 * nat_of_digits s + digit_value c"] div_mult_self1)
  qed
qed simp

subsection \<open>Go maps as association lists\<close>

text \<open>\<open>slices.Sorted(maps.Keys(m))\<close>: the keys in order.\<close>

definition sorted_keys :: "('k::linorder \<times> 'v) list \<Rightarrow> 'k list" where
  "sorted_keys m = sort (map fst m)"

lemma set_sorted_keys [simp]: "set (sorted_keys m) = fst ` set m"
  by (simp add: sorted_keys_def)

lemma sorted_sorted_keys [simp]: "sorted (sorted_keys m)"
  by (simp add: sorted_keys_def)

lemma distinct_sorted_keys [simp]: "distinct (sorted_keys m) = distinct (map fst m)"
  by (simp add: sorted_keys_def)

text \<open>\<open>maps.EqualFunc\<close>: as many entries, and every entry of the first in the second.\<close>

definition same_map :: "('v \<Rightarrow> 'v \<Rightarrow> bool) \<Rightarrow> ('k \<times> 'v) list \<Rightarrow> ('k \<times> 'v) list \<Rightarrow> bool" where
  "same_map eq a b \<longleftrightarrow>
     length a = length b \<and> list_all (\<lambda>(k, v). case map_of b k of None \<Rightarrow> False | Some v' \<Rightarrow> eq v v') a"

lemma same_map_lookup:
  assumes "same_map eq a b" and "distinct (map fst a)" and "distinct (map fst b)"
  shows "rel_option eq (map_of a n) (map_of b n)"
proof -
  have sub: "fst ` set a \<subseteq> fst ` set b"
    using assms(1) by (force simp: same_map_def list_all_iff map_of_eq_None_iff split: option.splits)
  moreover have "card (fst ` set a) = card (fst ` set b)"
    using assms by (metis distinct_card length_map list.set_map same_map_def)
  ultimately have keys: "fst ` set a = fst ` set b"
    by (simp add: card_subset_eq)
  show ?thesis
  proof (cases "map_of a n")
    case None
    then have "map_of b n = None" using keys by (simp add: map_of_eq_None_iff)
    with None show ?thesis by simp
  next
    case (Some v)
    then have "(n, v) \<in> set a" by (rule map_of_SomeD)
    with assms(1) Some show ?thesis by (auto simp: same_map_def list_all_iff split: option.splits)
  qed
qed

lemma map_of_filter_keys: "map_of (filter (\<lambda>x. fst x \<noteq> k) m) n = (if n = k then None else map_of m n)"
  by (induction m) auto

text \<open>\<open>m[k] = v\<close>.\<close>

fun map_put :: "'k \<Rightarrow> 'v \<Rightarrow> ('k \<times> 'v) list \<Rightarrow> ('k \<times> 'v) list" where
  "map_put k v [] = [(k, v)]"
| "map_put k v ((x, y) # m) = (if x = k then (k, v) # m else (x, y) # map_put k v m)"

lemma map_of_map_put [simp]: "map_of (map_put k v m) = (map_of m)(k \<mapsto> v)"
  by (induction k v m rule: map_put.induct) auto

lemma keys_map_put [simp]: "fst ` set (map_put k v m) = insert k (fst ` set m)"
  by (induction k v m rule: map_put.induct) (auto simp: image_iff)

lemma distinct_map_put [simp]: "distinct (map fst (map_put k v m)) = distinct (map fst m)"
proof (induction k v m rule: map_put.induct)
  case (2 k v x y m)
  then show ?case using keys_map_put [of k v m] by (auto simp del: keys_map_put)
qed simp

lemma map_of_eq_imp_set_eq:
  assumes "map_of a = map_of b" and "distinct (map fst a)" and "distinct (map fst b)"
  shows "set a = set b"
proof (rule set_eqI)
  fix x
  show "x \<in> set a \<longleftrightarrow> x \<in> set b"
    using map_of_eq_Some_iff [OF assms(2), of "fst x" "snd x"] map_of_eq_Some_iff [OF assms(3), of "fst x" "snd x"]
    unfolding assms(1) by simp
qed

lemma same_map_eq:
  assumes "distinct (map fst a)" and "distinct (map fst b)"
  shows "same_map (=) a b \<longleftrightarrow> map_of a = map_of b"
proof
  assume "same_map (=) a b"
  then show "map_of a = map_of b" by (intro ext) (use same_map_lookup [OF _ assms, of "(=)"] in \<open>simp add: option.rel_eq\<close>)
next
  assume eq: "map_of a = map_of b"
  then have "set a = set b" by (rule map_of_eq_imp_set_eq) (rule assms)+
  then have "length a = length b" using distinct_card [of "map fst a"] distinct_card [of "map fst b"] assms by simp
  moreover have "list_all (\<lambda>(k, v). case map_of b k of None \<Rightarrow> False | Some v' \<Rightarrow> v = v') a"
    using assms(2) by (auto simp: list_all_iff \<open>set a = set b\<close>)
  ultimately show "same_map (=) a b" by (simp add: same_map_def)
qed

text \<open>A loop inside a loop is one loop over the pairs.\<close>

lemma fold_nested:
  "fold (\<lambda>x. fold (f x) (g x)) xs = fold (\<lambda>(x, y). f x y) (concat (map (\<lambda>x. map (Pair x) (g x)) xs))"
  by (induction xs) (simp_all add: fold_map comp_def)

subsection \<open>Results\<close>

fun is_ok :: "'e + 'a \<Rightarrow> bool" where
  "is_ok (Inl _) = False"
| "is_ok (Inr _) = True"

definition result_bind :: "'e + 'a \<Rightarrow> ('a \<Rightarrow> 'e + 'b) \<Rightarrow> 'e + 'b" where
  "result_bind r f = (case r of Inl e \<Rightarrow> Inl e | Inr a \<Rightarrow> f a)"

lemma result_bind_simps [simp]:
  "result_bind (Inl e) f = Inl e" "result_bind (Inr a) f = f a"
  by (simp_all add: result_bind_def)

lemma result_bind_Inr: "result_bind r f = Inr b \<longleftrightarrow> (\<exists>a. r = Inr a \<and> f a = Inr b)"
  by (cases r) auto

text \<open>A loop that stops at the first error and collects the results.\<close>

fun map_result :: "('a \<Rightarrow> 'e + 'b) \<Rightarrow> 'a list \<Rightarrow> 'e + 'b list" where
  "map_result f [] = Inr []"
| "map_result f (x # xs) =
     result_bind (f x) (\<lambda>y. result_bind (map_result f xs) (\<lambda>ys. Inr (y # ys)))"

lemma map_result_Inr:
  "map_result f xs = Inr ys \<longleftrightarrow> list_all2 (\<lambda>x y. f x = Inr y) xs ys"
  by (induction xs arbitrary: ys) (auto simp: result_bind_Inr list_all2_Cons1)

lemma list_all2_maps:
  "list_all2 P xs ys \<Longrightarrow> (\<And>x y. P x y \<Longrightarrow> f x = g y) \<Longrightarrow> map f xs = map g ys"
  by (induction rule: list_all2_induct) auto

lemma list_all2_mono_in:
  assumes "list_all2 P xs ys" and "\<And>x y. x \<in> set xs \<Longrightarrow> P x y \<Longrightarrow> Q x y"
  shows "list_all2 Q xs ys"
  using assms by (induction rule: list_all2_induct) auto

lemma list_all2_right:
  "list_all2 P xs ys \<Longrightarrow> y \<in> set ys \<Longrightarrow> \<exists>x \<in> set xs. P x y"
  by (induction rule: list_all2_induct) auto

end
