(* ===== verification/Intent.thy ===== *)
theory Intent
  imports Prelude
begin

section \<open>Package intent: a plan checked against what a command declares\<close>

text \<open>
  \<open>internal/intent/intent.go\<close>. A Terraform plan is reduced to its changes (\<open>changes\<close>), an
  \<open>intent\<close> is a list of expectations, and \<open>check\<close> returns every disagreement. The action
  predicates of \<open>tfjson.Actions\<close> (\<open>NoOp\<close>, \<open>Read\<close>, \<open>Create\<close>, ...) belong to a third-party
  package: they are the parameter \<open>actions_api\<close>. Addresses are matched against patterns in
  which \<open>*\<close> stands for any run of characters without a newline, as the regular expression
  \<open>.*\<close> the code builds does; every other character stands for itself, because the code quotes
  the pattern first.
\<close>

subsection \<open>Data\<close>

datatype action = Create | Update | Delete | Replace

record change =
  ch_address :: string
  ch_action :: action

record expectation =
  ex_address :: string
  ex_actions :: "action list"
  ex_required :: bool

record intent =
  in_description :: string
  in_expectations :: "expectation list"

record mismatch =
  mm_address :: string
  mm_planned :: "action option"
  mm_allowed :: "action list"

record 'a actions_api =
  is_noop :: "'a \<Rightarrow> bool"
  is_read :: "'a \<Rightarrow> bool"
  is_create :: "'a \<Rightarrow> bool"
  is_update :: "'a \<Rightarrow> bool"
  is_delete :: "'a \<Rightarrow> bool"
  is_replace :: "'a \<Rightarrow> bool"

text \<open>One entry of the plan's \<open>ResourceChanges\<close>; \<open>Change\<close> is a pointer that may be nil.\<close>

record 'a resource_change =
  rc_address :: string
  rc_change :: "'a option"

datatype 'a intent_error = UnknownActions string 'a

subsection \<open>Operations\<close>

definition classify :: "'a actions_api \<Rightarrow> 'a \<Rightarrow> 'a + action option" where
  "classify api a =
     (if is_noop api a \<or> is_read api a then Inr None
      else if is_create api a then Inr (Some Create)
      else if is_update api a then Inr (Some Update)
      else if is_delete api a then Inr (Some Delete)
      else if is_replace api a then Inr (Some Replace)
      else Inl a)"

text \<open>
  The loop of \<open>Changes\<close>, then its sort by address. \<open>sort.Slice\<close> does not fix the order of two
  changes of one address; the model keeps the plan's order for them, and no property below
  depends on it.
\<close>

fun collect_changes :: "'a actions_api \<Rightarrow> 'a resource_change list \<Rightarrow> 'a intent_error + change list" where
  "collect_changes api [] = Inr []"
| "collect_changes api (rc # rcs) =
     (case rc_change rc of
        None \<Rightarrow> collect_changes api rcs
      | Some a \<Rightarrow>
          (case classify api a of
             Inl bad \<Rightarrow> Inl (UnknownActions (rc_address rc) bad)
           | Inr None \<Rightarrow> collect_changes api rcs
           | Inr (Some act) \<Rightarrow>
               result_bind (collect_changes api rcs)
                 (\<lambda>out. Inr (\<lparr>ch_address = rc_address rc, ch_action = act\<rparr> # out))))"

definition changes :: "'a actions_api \<Rightarrow> 'a resource_change list \<Rightarrow> 'a intent_error + change list" where
  "changes api rcs = result_bind (collect_changes api rcs) (\<lambda>out. Inr (sort_key ch_address out))"

fun address_match :: "string \<Rightarrow> string \<Rightarrow> bool" where
  "address_match [] s = (s = [])"
| "address_match (p # ps) [] = (p = CHR ''*'' \<and> address_match ps [])"
| "address_match (p # ps) (c # cs) =
     (if p = CHR ''*''
      then address_match ps (c # cs) \<or> (c \<noteq> NL \<and> address_match (p # ps) cs)
      else p = c \<and> address_match ps cs)"

text \<open>
  The inner loop of \<open>Check\<close> over the expectations for one change: whether one allows it, the
  actions of those whose address matches, and the \<open>met\<close> flags after it.
\<close>

fun scan_expectations ::
  "change \<Rightarrow> expectation list \<Rightarrow> bool list \<Rightarrow> bool \<times> action list \<times> bool list" where
  "scan_expectations c (e # es) (m # ms) =
     (let (matched, allowed, ms') = scan_expectations c es ms in
      if \<not> address_match (ex_address e) (ch_address c) then (matched, allowed, m # ms')
      else if ch_action c \<in> set (ex_actions e)
      then (True, ex_actions e @ allowed, True # ms')
      else (matched, ex_actions e @ allowed, m # ms'))"
| "scan_expectations c _ ms = (False, [], ms)"

fun check_changes ::
  "expectation list \<Rightarrow> change list \<Rightarrow> bool list \<Rightarrow> mismatch list \<times> bool list" where
  "check_changes es [] met = ([], met)"
| "check_changes es (c # cs) met =
     (let (matched, allowed, met') = scan_expectations c es met;
          (out, met'') = check_changes es cs met'
      in (if matched then out
          else \<lparr>mm_address = ch_address c, mm_planned = Some (ch_action c), mm_allowed = allowed\<rparr> # out,
          met''))"

fun unmet_required :: "expectation list \<Rightarrow> bool list \<Rightarrow> mismatch list" where
  "unmet_required (e # es) (m # ms) =
     (if ex_required e \<and> \<not> m
      then \<lparr>mm_address = ex_address e, mm_planned = None, mm_allowed = ex_actions e\<rparr> # unmet_required es ms
      else unmet_required es ms)"
| "unmet_required _ _ = []"

definition check :: "intent \<Rightarrow> change list \<Rightarrow> mismatch list" where
  "check i cs =
     (let es = in_expectations i;
          (out, met) = check_changes es cs (replicate (length es) False)
      in out @ unmet_required es met)"

subsection \<open>Specification\<close>

definition allows :: "expectation \<Rightarrow> change \<Rightarrow> bool" where
  "allows e c \<longleftrightarrow> address_match (ex_address e) (ch_address c) \<and> ch_action c \<in> set (ex_actions e)"

text \<open>The actions named by every expectation whose address matches the change.\<close>

definition allowed_actions :: "expectation list \<Rightarrow> change \<Rightarrow> action list" where
  "allowed_actions es c =
     concat (map ex_actions (filter (\<lambda>e. address_match (ex_address e) (ch_address c)) es))"

definition unexpected :: "expectation list \<Rightarrow> change \<Rightarrow> mismatch" where
  "unexpected es c =
     \<lparr>mm_address = ch_address c, mm_planned = Some (ch_action c), mm_allowed = allowed_actions es c\<rparr>"

definition missing :: "expectation \<Rightarrow> mismatch" where
  "missing e = \<lparr>mm_address = ex_address e, mm_planned = None, mm_allowed = ex_actions e\<rparr>"

text \<open>The plan is exactly what the command declared.\<close>

definition as_intended :: "intent \<Rightarrow> change list \<Rightarrow> bool" where
  "as_intended i cs \<longleftrightarrow>
     list_all (\<lambda>c. list_ex (\<lambda>e. allows e c) (in_expectations i)) cs \<and>
     list_all (\<lambda>e. ex_required e \<longrightarrow> list_ex (allows e) cs) (in_expectations i)"

subsection \<open>The loops compute the specification\<close>

lemma scan_expectations_eq:
  "length ms = length es \<Longrightarrow>
     scan_expectations c es ms =
       (list_ex (\<lambda>e. allows e c) es, allowed_actions es c,
        map2 (\<lambda>e m. m \<or> allows e c) es ms)"
proof (induction es arbitrary: ms)
  case (Cons e es)
  then obtain m ms' where "ms = m # ms'" "length ms' = length es"
    by (cases ms) auto
  with Cons.IH show ?case
    by (auto simp: allows_def allowed_actions_def)
qed (simp add: allowed_actions_def)

lemma check_changes_eq:
  "length met = length es \<Longrightarrow>
     check_changes es cs met =
       (map (unexpected es) (filter (\<lambda>c. \<not> list_ex (\<lambda>e. allows e c) es) cs),
        map2 (\<lambda>e m. m \<or> list_ex (allows e) cs) es met)"
proof (induction cs arbitrary: met)
  case Nil
  then show ?case by (simp add: list_eq_iff_nth_eq)
next
  case (Cons c cs)
  let ?met = "map2 (\<lambda>e m. m \<or> allows e c) es met"
  have "check_changes es cs ?met =
      (map (unexpected es) (filter (\<lambda>c. \<not> list_ex (\<lambda>e. allows e c) es) cs),
       map2 (\<lambda>e m. m \<or> list_ex (allows e) cs) es ?met)"
    by (rule Cons.IH) (simp add: Cons.prems)
  moreover have "map2 (\<lambda>e m. m \<or> list_ex (allows e) cs) es ?met =
      map2 (\<lambda>e m. m \<or> list_ex (allows e) (c # cs)) es met"
    using Cons.prems by (auto simp: list_eq_iff_nth_eq)
  ultimately show ?case
    using Cons.prems by (simp add: scan_expectations_eq unexpected_def)
qed

lemma unmet_required_eq:
  "unmet_required es (map2 (\<lambda>e m. m \<or> P e) es (replicate (length es) False)) =
     map missing (filter (\<lambda>e. ex_required e \<and> \<not> P e) es)"
  by (induction es) (auto simp: missing_def)

lemma check_eq:
  "check i cs =
     map (unexpected (in_expectations i))
       (filter (\<lambda>c. \<not> list_ex (\<lambda>e. allows e c) (in_expectations i)) cs) @
     map missing
       (filter (\<lambda>e. ex_required e \<and> \<not> list_ex (allows e) cs) (in_expectations i))"
  by (simp add: check_def check_changes_eq unmet_required_eq Let_def)

lemma check_empty_iff: "check i cs = [] \<longleftrightarrow> as_intended i cs"
  by (auto simp: check_eq as_intended_def filter_empty_conv list_all_iff)

subsection \<open>Collecting the changes of a plan\<close>

text \<open>The entry is a real change: not a no-op, not a read.\<close>

definition real_change :: "'a actions_api \<Rightarrow> 'a resource_change \<Rightarrow> bool" where
  "real_change api rc \<longleftrightarrow>
     (case rc_change rc of None \<Rightarrow> False | Some a \<Rightarrow> \<not> (is_noop api a \<or> is_read api a))"

lemma classify_cases:
  "(classify api a = Inl a \<and> \<not> is_noop api a \<and> \<not> is_read api a) \<or>
   (classify api a = Inr None \<and> (is_noop api a \<or> is_read api a)) \<or>
   (\<exists>act. classify api a = Inr (Some act) \<and> \<not> is_noop api a \<and> \<not> is_read api a)"
  by (simp add: classify_def)

lemma collect_changes_addresses:
  "collect_changes api rcs = Inr out \<Longrightarrow>
     map ch_address out = map rc_address (filter (real_change api) rcs)"
proof (induction rcs arbitrary: out)
  case (Cons rc rcs)
  show ?case
  proof (cases "rc_change rc")
    case None
    with Cons show ?thesis by (simp add: real_change_def)
  next
    case (Some a)
    with Cons show ?thesis
      using classify_cases [of api a]
      by (auto simp: real_change_def result_bind_Inr split: option.splits)
  qed
qed simp

lemma collect_changes_action:
  "collect_changes api rcs = Inr out \<Longrightarrow> c \<in> set out \<Longrightarrow>
     \<exists>rc a. rc \<in> set rcs \<and> rc_address rc = ch_address c \<and> rc_change rc = Some a \<and>
       classify api a = Inr (Some (ch_action c))"
proof (induction rcs arbitrary: out)
  case (Cons rc rcs)
  show ?case
  proof (cases "rc_change rc")
    case None
    with Cons show ?thesis by fastforce
  next
    case (Some a)
    with Cons show ?thesis
      by (fastforce simp: result_bind_Inr split: sum.splits option.splits)
  qed
qed simp

lemma changes_Inr:
  "changes api rcs = Inr out \<longleftrightarrow>
     (\<exists>cs. collect_changes api rcs = Inr cs \<and> out = sort_key ch_address cs)"
  by (auto simp: changes_def result_bind_Inr)

lemma mset_changes:
  assumes "changes api rcs = Inr out"
  shows "mset (map ch_address out) = mset (map rc_address (filter (real_change api) rcs))"
proof -
  obtain cs where "collect_changes api rcs = Inr cs" and "out = sort_key ch_address cs"
    using assms by (auto simp: changes_Inr)
  then show ?thesis
    by (simp only: mset_map mset_sort flip: collect_changes_addresses)
qed

subsection \<open>Address patterns\<close>

lemma address_match_literal:
  "CHR ''*'' \<notin> set p \<Longrightarrow> address_match p s \<longleftrightarrow> s = p"
  by (induction p s rule: address_match.induct) auto

lemma run_Cons_iff:
  "(\<exists>m t. c # s = m @ t \<and> NL \<notin> set m \<and> P t) \<longleftrightarrow>
     P (c # s) \<or> (c \<noteq> NL \<and> (\<exists>m t. s = m @ t \<and> NL \<notin> set m \<and> P t))"
  (is "?L \<longleftrightarrow> ?R")
proof
  assume ?L
  then obtain m t where mt: "c # s = m @ t" "NL \<notin> set m" "P t" by blast
  then show ?R by (cases m) auto
next
  assume ?R
  then show ?L
  proof
    assume "P (c # s)"
    then show ?L by (intro exI [of _ "[]"] exI [of _ "c # s"]) simp
  next
    assume "c \<noteq> NL \<and> (\<exists>m t. s = m @ t \<and> NL \<notin> set m \<and> P t)"
    then obtain m t where "c \<noteq> NL" "s = m @ t" "NL \<notin> set m" "P t" by blast
    then show ?L by (intro exI [of _ "c # m"] exI [of _ t]) auto
  qed
qed

lemma address_match_star:
  "address_match (CHR ''*'' # p) s \<longleftrightarrow> (\<exists>m t. s = m @ t \<and> NL \<notin> set m \<and> address_match p t)"
proof (induction s)
  case (Cons c s)
  then show ?case by (simp add: run_Cons_iff)
qed simp

lemma address_match_append:
  "CHR ''*'' \<notin> set p \<Longrightarrow> address_match (p @ q) s \<longleftrightarrow> (\<exists>t. s = p @ t \<and> address_match q t)"
proof (induction p arbitrary: s)
  case (Cons x p)
  then show ?case by (cases s) auto
qed simp

lemmas address_match_laws = address_match_literal address_match_star address_match_append

subsection \<open>Properties\<close>

text \<open>
  C4 The Intent Assertion is sound and complete: \<open>Check\<close> returns no mismatch exactly when every
  change of the plan is allowed by some expectation (address and action) and every required
  expectation is met by some change.
\<close>

theorem check_sound_complete:
  "check i cs = [] \<longleftrightarrow>
     (\<forall>c \<in> set cs. \<exists>e \<in> set (in_expectations i).
        address_match (ex_address e) (ch_address c) \<and> ch_action c \<in> set (ex_actions e)) \<and>
     (\<forall>e \<in> set (in_expectations i). ex_required e \<longrightarrow>
        (\<exists>c \<in> set cs.
           address_match (ex_address e) (ch_address c) \<and> ch_action c \<in> set (ex_actions e)))"
  by (auto simp: check_empty_iff as_intended_def allows_def list_all_iff list_ex_iff)

theorem check_sound_complete_witness:
  "check \<lparr>in_description = ''create one'', in_expectations =
      [\<lparr>ex_address = ''hcloud_server.workers[*]'', ex_actions = [Create], ex_required = True\<rparr>]\<rparr>
     [\<lparr>ch_address = ''hcloud_server.workers[k8swk1]'', ch_action = Create\<rparr>] = []"
  by (subst check_sound_complete) (simp add: numeral_eq_Suc)

text \<open>
  What \<open>Check\<close> reports: first, in the plan's order, one mismatch for each change no expectation
  allows, with the actions of every expectation that names its address; then one for each required
  expectation that no change meets. Nothing else, and nothing twice.
\<close>

theorem check_reports:
  "check i cs =
     map (\<lambda>c. \<lparr>mm_address = ch_address c, mm_planned = Some (ch_action c),
                mm_allowed = concat (map ex_actions
                  (filter (\<lambda>e. address_match (ex_address e) (ch_address c)) (in_expectations i)))\<rparr>)
       (filter (\<lambda>c. \<not> list_ex (\<lambda>e. address_match (ex_address e) (ch_address c) \<and>
                                 ch_action c \<in> set (ex_actions e)) (in_expectations i)) cs) @
     map (\<lambda>e. \<lparr>mm_address = ex_address e, mm_planned = None, mm_allowed = ex_actions e\<rparr>)
       (filter (\<lambda>e. ex_required e \<and>
                   \<not> list_ex (\<lambda>c. address_match (ex_address e) (ch_address c) \<and>
                               ch_action c \<in> set (ex_actions e)) cs) (in_expectations i))"
  unfolding check_eq unexpected_def missing_def allowed_actions_def allows_def ..

text \<open>
  \<open>Changes\<close> loses no planned change and invents none: when it returns, the addresses are, with
  multiplicity, those of the plan entries that are neither nil nor no-op nor read, they are sorted,
  and each action is the classification of an entry of that address.
\<close>

theorem changes_faithful:
  assumes "changes api rcs = Inr out"
  shows "mset (map ch_address out) = mset (map rc_address (filter (real_change api) rcs)) \<and>
         sorted (map ch_address out) \<and>
         (\<forall>c \<in> set out. \<exists>rc \<in> set rcs. \<exists>a. rc_address rc = ch_address c \<and>
           rc_change rc = Some a \<and> classify api a = Inr (Some (ch_action c)))"
proof (intro conjI ballI)
  obtain cs where cs: "collect_changes api rcs = Inr cs" and out: "out = sort_key ch_address cs"
    using assms by (auto simp: changes_Inr)
  show "mset (map ch_address out) = mset (map rc_address (filter (real_change api) rcs))"
    using assms by (rule mset_changes)
  show "sorted (map ch_address out)"
    by (simp add: out)
  fix c assume "c \<in> set out"
  then have "c \<in> set cs"
    by (simp add: out)
  then show "\<exists>rc \<in> set rcs. \<exists>a. rc_address rc = ch_address c \<and> rc_change rc = Some a \<and>
      classify api a = Inr (Some (ch_action c))"
    using collect_changes_action [OF cs] by blast
qed

text \<open>\<open>tfjson.Actions\<close> is a list of action names; these are its documented predicates.\<close>

definition tfjson_actions :: "string list actions_api" where
  "tfjson_actions =
     \<lparr>is_noop = (\<lambda>a. a = [''no-op'']), is_read = (\<lambda>a. a = [''read'']),
      is_create = (\<lambda>a. a = [''create'']), is_update = (\<lambda>a. a = [''update'']),
      is_delete = (\<lambda>a. a = [''delete'']),
      is_replace = (\<lambda>a. a = [''delete'', ''create''] \<or> a = [''create'', ''delete''])\<rparr>"

theorem changes_faithful_witness:
  "sorted (map ch_address
     [\<lparr>ch_address = ''a'', ch_action = Replace\<rparr>, \<lparr>ch_address = ''b'', ch_action = Create\<rparr>])"
  using changes_faithful [of tfjson_actions
      "[\<lparr>rc_address = ''b'', rc_change = Some [''create'']\<rparr>,
        \<lparr>rc_address = ''c'', rc_change = Some [''no-op'']\<rparr>,
        \<lparr>rc_address = ''a'', rc_change = Some [''delete'', ''create'']\<rparr>]"
      "[\<lparr>ch_address = ''a'', ch_action = Replace\<rparr>, \<lparr>ch_address = ''b'', ch_action = Create\<rparr>]"]
  by (simp add: changes_def classify_def tfjson_actions_def)

end
