(* ===== verification/Io.thy ===== *)
theory Io
  imports Prelude
begin

section \<open>Effects: a world, an output log and early return\<close>

text \<open>
  kluster's operations read and change something outside the process (the Hetzner API, a
  Terraform state, a host over SSH, a bucket) and write lines to an \<open>io.Writer\<close>. Such an
  operation is a function of the outside world \<open>'w\<close> and of the lines written so far; it
  returns an error or a value, the world after it and the log after it. \<open>io_bind\<close> is the
  Go statement \<open>x, err := f(); if err != nil { return err }\<close>.

  \<open>wp m Q E s\<close> says what a run of \<open>m\<close> from state \<open>s\<close> ends in: \<open>Q\<close> of the value and the state when
  it returns a value, \<open>E\<close> of the error and the state when it returns an error. Its equations, one
  per construct, are collected in \<open>wp_simps\<close>: rewriting with them turns a statement about an
  operation into one about the calls it makes, to which the laws of the callee apply.
\<close>

named_theorems wp_simps \<open>one equation per construct for wp\<close>

type_synonym ('w, 'o) sys = "'w \<times> 'o list"
type_synonym ('w, 'o, 'e, 'a) io = "('w, 'o) sys \<Rightarrow> ('e + 'a) \<times> ('w, 'o) sys"

text \<open>A call of the outside world: no output of its own.\<close>

type_synonym ('w, 'e, 'a) call = "'w \<Rightarrow> ('e + 'a) \<times> 'w"

definition io_return :: "'a \<Rightarrow> ('w, 'o, 'e, 'a) io" where
  "io_return a = (\<lambda>s. (Inr a, s))"

definition io_fail :: "'e \<Rightarrow> ('w, 'o, 'e, 'a) io" where
  "io_fail e = (\<lambda>s. (Inl e, s))"

definition io_say :: "'o \<Rightarrow> ('w, 'o, 'e, unit) io" where
  "io_say x = (\<lambda>(w, out). (Inr (), w, out @ [x]))"

definition io_call :: "('w, 'e, 'a) call \<Rightarrow> ('w, 'o, 'e, 'a) io" where
  "io_call f = (\<lambda>(w, out). let (r, w') = f w in (r, w', out))"

definition io_bind :: "('w, 'o, 'e, 'a) io \<Rightarrow> ('a \<Rightarrow> ('w, 'o, 'e, 'b) io) \<Rightarrow> ('w, 'o, 'e, 'b) io" where
  "io_bind m f = (\<lambda>s. case m s of (Inl e, s') \<Rightarrow> (Inl e, s') | (Inr a, s') \<Rightarrow> f a s')"

text \<open>A result that needs no call.\<close>

definition io_result :: "'e + 'a \<Rightarrow> ('w, 'o, 'e, 'a) io" where
  "io_result r = (case r of Inl e \<Rightarrow> io_fail e | Inr a \<Rightarrow> io_return a)"

text \<open>The same call with its error wrapped, \<open>fmt.Errorf("...: %w", err)\<close>.\<close>

definition io_map_err :: "('e \<Rightarrow> 'f) \<Rightarrow> ('w, 'o, 'e, 'a) io \<Rightarrow> ('w, 'o, 'f, 'a) io" where
  "io_map_err g m = (\<lambda>s. case m s of (Inl e, s') \<Rightarrow> (Inl (g e), s') | (Inr a, s') \<Rightarrow> (Inr a, s'))"

text \<open>\<open>defer c()\<close>: \<open>c\<close> runs whatever \<open>m\<close> returns, and its error is dropped. And a call made only on the way
  out with an error.\<close>

definition io_finally :: "('w, 'o, 'e, 'a) io \<Rightarrow> ('w, 'o, 'f, 'b) io \<Rightarrow> ('w, 'o, 'e, 'a) io" where
  "io_finally m c = (\<lambda>s. let (r, s') = m s in (r, snd (c s')))"

definition io_on_error :: "('w, 'o, 'e, 'a) io \<Rightarrow> ('w, 'o, 'f, 'b) io \<Rightarrow> ('w, 'o, 'e, 'a) io" where
  "io_on_error m c = (\<lambda>s. case m s of (Inl e, s') \<Rightarrow> (Inl e, snd (c s')) | (Inr a, s') \<Rightarrow> (Inr a, s'))"

text \<open>A call whose error the caller keeps: \<open>err := f()\<close>.\<close>

definition try_io :: "('w, 'o, 'e, 'a) io \<Rightarrow> ('w, 'o, 'f, 'e + 'a) io" where
  "try_io m = (\<lambda>s. case m s of (r, s') \<Rightarrow> (Inr r, s'))"

fun io_each :: "('a \<Rightarrow> ('w, 'o, 'e, unit) io) \<Rightarrow> 'a list \<Rightarrow> ('w, 'o, 'e, unit) io" where
  "io_each f [] = io_return ()"
| "io_each f (x # xs) = io_bind (f x) (\<lambda>_. io_each f xs)"

text \<open>A loop over a list that carries a value from one iteration to the next.\<close>

fun io_fold :: "('a \<Rightarrow> 'b \<Rightarrow> ('w, 'o, 'e, 'b) io) \<Rightarrow> 'a list \<Rightarrow> 'b \<Rightarrow> ('w, 'o, 'e, 'b) io" where
  "io_fold f [] b = io_return b"
| "io_fold f (x # xs) b = io_bind (f x b) (\<lambda>b'. io_fold f xs b')"

lemmas io_defs = io_return_def io_fail_def io_say_def io_call_def io_bind_def io_map_err_def

lemma io_bind_return: "io_bind (io_return a) f = f a"
  by (simp add: io_bind_def io_return_def)

text \<open>A call that leaves what \<open>view\<close> shows of the world.\<close>

definition quiet :: "('w \<Rightarrow> 'v) \<Rightarrow> ('w, 'e, 'a) call \<Rightarrow> bool" where
  "quiet view f \<longleftrightarrow> (\<forall>w r w'. f w = (r, w') \<longrightarrow> view w' = view w)"

lemma quietD: "quiet view f \<Longrightarrow> f w = (r, w') \<Longrightarrow> view w' = view w"
  unfolding quiet_def by blast

subsection \<open>Weakest preconditions\<close>

definition wp ::
  "('w, 'o, 'e, 'a) io \<Rightarrow> ('a \<Rightarrow> 'w \<Rightarrow> 'o list \<Rightarrow> bool) \<Rightarrow> ('e \<Rightarrow> 'w \<Rightarrow> 'o list \<Rightarrow> bool) \<Rightarrow>
     'w \<Rightarrow> 'o list \<Rightarrow> bool" where
  "wp m Q E w out \<longleftrightarrow>
     (case m (w, out) of (Inl e, w', out') \<Rightarrow> E e w' out' | (Inr a, w', out') \<Rightarrow> Q a w' out')"

lemma wp_ok: "wp m Q E w out \<Longrightarrow> m (w, out) = (Inr a, w', out') \<Longrightarrow> Q a w' out'"
  by (simp add: wp_def)

lemma wp_err: "wp m Q E w out \<Longrightarrow> m (w, out) = (Inl e, w', out') \<Longrightarrow> E e w' out'"
  by (simp add: wp_def)

lemma wpI:
  assumes "\<And>a w' out'. m (w, out) = (Inr a, w', out') \<Longrightarrow> Q a w' out'"
    and "\<And>e w' out'. m (w, out) = (Inl e, w', out') \<Longrightarrow> E e w' out'"
  shows "wp m Q E w out"
  using assms by (auto simp: wp_def split: prod.split sum.split)

lemma wp_return [wp_simps]: "wp (io_return a) Q E w out \<longleftrightarrow> Q a w out"
  by (simp add: wp_def io_return_def)

lemma wp_fail [wp_simps]: "wp (io_fail e) Q E w out \<longleftrightarrow> E e w out"
  by (simp add: wp_def io_fail_def)

lemma wp_result [wp_simps]: "wp (io_result r) Q E w out \<longleftrightarrow> (case r of Inl e \<Rightarrow> E e w out | Inr a \<Rightarrow> Q a w out)"
  by (simp add: io_result_def wp_fail wp_return split: sum.split)

lemma wp_say [wp_simps]: "wp (io_say x) Q E w out \<longleftrightarrow> Q () w (out @ [x])"
  by (simp add: wp_def io_say_def)

lemma wp_bind [wp_simps]: "wp (io_bind m f) Q E w out \<longleftrightarrow> wp m (\<lambda>a. wp (f a) Q E) E w out"
  by (auto simp: wp_def io_bind_def split: prod.split sum.split)

lemma wp_bind_fun: "wp (io_bind m f) Q E = wp m (\<lambda>a. wp (f a) Q E) E"
  by (intro ext) (rule wp_bind)

lemma wp_map_err [wp_simps]: "wp (io_map_err g m) Q E w out \<longleftrightarrow> wp m Q (\<lambda>e. E (g e)) w out"
  by (auto simp: wp_def io_map_err_def split: prod.split sum.split)

lemma wp_if [wp_simps]: "wp (if b then m else m') Q E w out \<longleftrightarrow> (if b then wp m Q E w out else wp m' Q E w out)"
  by simp

lemma wp_call [wp_simps]:
  "wp (io_call f) Q E w out \<longleftrightarrow>
     (\<forall>a w'. f w = (Inr a, w') \<longrightarrow> Q a w' out) \<and> (\<forall>e w'. f w = (Inl e, w') \<longrightarrow> E e w' out)"
  by (auto simp: wp_def io_call_def split: prod.split sum.split)

lemma wp_finally [wp_simps]:
  "wp (io_finally m c) Q E w out \<longleftrightarrow>
     wp m (\<lambda>a. wp c (\<lambda>_. Q a) (\<lambda>_. Q a)) (\<lambda>e. wp c (\<lambda>_. E e) (\<lambda>_. E e)) w out"
  by (auto simp: wp_def io_finally_def split: prod.split sum.split)

lemma wp_on_error [wp_simps]:
  "wp (io_on_error m c) Q E w out \<longleftrightarrow> wp m Q (\<lambda>e. wp c (\<lambda>_. E e) (\<lambda>_. E e)) w out"
  by (auto simp: wp_def io_on_error_def split: prod.split sum.split)

lemma wp_try [wp_simps]: "wp (try_io m) Q E w out \<longleftrightarrow> wp m (\<lambda>a. Q (Inr a)) (\<lambda>e. Q (Inl e)) w out"
  by (auto simp: wp_def try_io_def split: prod.split sum.split)

lemma wp_mono:
  assumes "wp m Q E w out" and "\<And>a w out. Q a w out \<Longrightarrow> Q' a w out" and "\<And>e w out. E e w out \<Longrightarrow> E' e w out"
  shows "wp m Q' E' w out"
  using assms by (auto simp: wp_def split: prod.splits sum.splits)

lemma wp_seq:
  assumes "wp m R E' w out" and "\<And>a w out. R a w out \<Longrightarrow> wp (f a) Q E w out" and "\<And>e w out. E' e w out \<Longrightarrow> E e w out"
  shows "wp (io_bind m f) Q E w out"
  unfolding wp_bind by (rule wp_mono [OF assms(1)]) (fact assms)+

lemma wp_conj:
  assumes "wp m Q E w out" and "wp m Q' E' w out"
  shows "wp m (\<lambda>a w out. Q a w out \<and> Q' a w out) (\<lambda>e w out. E e w out \<and> E' e w out) w out"
  using assms by (auto simp: wp_def split: prod.splits sum.splits)

lemma wp_each:
  assumes "I w out" and "\<And>x w out. x \<in> set xs \<Longrightarrow> I w out \<Longrightarrow> wp (f x) (\<lambda>_. I) E w out"
  shows "wp (io_each f xs) (\<lambda>_. I) E w out"
  using assms
proof (induction xs arbitrary: w out)
  case (Cons x xs)
  have "wp (f x) (\<lambda>_. I) E w out"
    using Cons.prems by simp
  then have "wp (f x) (\<lambda>_. wp (io_each f xs) (\<lambda>_. I) E) E w out"
  proof (rule wp_mono)
    fix w out assume "I w out"
    then show "wp (io_each f xs) (\<lambda>_. I) E w out"
      by (rule Cons.IH) (rule Cons.prems(2), simp)
  qed
  then show ?case by (simp add: wp_simps)
qed (simp add: wp_simps)

lemma wp_fold:
  assumes "I b w out" and "\<And>x b w out. x \<in> set xs \<Longrightarrow> I b w out \<Longrightarrow> wp (f x b) I E w out"
  shows "wp (io_fold f xs b) I E w out"
  using assms
proof (induction xs arbitrary: b w out)
  case (Cons x xs)
  have "wp (f x b) I E w out"
    using Cons.prems by simp
  then have "wp (f x b) (\<lambda>b'. wp (io_fold f xs b') I E) E w out"
  proof (rule wp_mono)
    fix b w out assume "I b w out"
    then show "wp (io_fold f xs b) I E w out"
      by (rule Cons.IH) (rule Cons.prems(2), simp)
  qed
  then show ?case by (simp add: wp_simps)
qed (simp add: wp_simps)

text \<open>The same with an invariant that knows which elements the loop has seen.\<close>

lemma wp_fold_seen:
  assumes "I S b w out"
    and "\<And>x S b w out. I S b w out \<Longrightarrow> wp (f x b) (I (insert x S)) E w out"
  shows "wp (io_fold f xs b) (I (S \<union> set xs)) E w out"
  using assms(1)
proof (induction xs arbitrary: S b w out)
  case (Cons x xs)
  have "wp (f x b) (I (insert x S)) E w out"
    by (rule assms(2)) (rule Cons.prems)
  then have "wp (f x b) (\<lambda>b'. wp (io_fold f xs b') (I (S \<union> set (x # xs))) E) E w out"
  proof (rule wp_mono)
    fix b w out assume "I (insert x S) b w out"
    then have "wp (io_fold f xs b) (I (insert x S \<union> set xs)) E w out"
      by (rule Cons.IH)
    then show "wp (io_fold f xs b) (I (S \<union> set (x # xs))) E w out"
      by simp
  qed
  then show ?case by (simp add: wp_simps)
qed (simp add: wp_simps)

text \<open>The same with an invariant over the prefix of the list the loop has done.\<close>

lemma wp_fold_prefix_from:
  assumes "I pre b w out"
    and "\<And>pre x post b w out. zs = pre @ x # post \<Longrightarrow> I pre b w out \<Longrightarrow> wp (f x b) (I (pre @ [x])) E w out"
    and "zs = pre @ xs"
  shows "wp (io_fold f xs b) (I zs) E w out"
  using assms(1,3)
proof (induction xs arbitrary: pre b w out)
  case (Cons x xs)
  have "wp (f x b) (I (pre @ [x])) E w out"
    by (rule assms(2)) (use Cons.prems in simp_all)
  then have "wp (f x b) (\<lambda>b'. wp (io_fold f xs b') (I zs) E) E w out"
  proof (rule wp_mono)
    fix b w out assume "I (pre @ [x]) b w out"
    then show "wp (io_fold f xs b) (I zs) E w out"
      using Cons.prems by (intro Cons.IH [where pre = "pre @ [x]"]) simp_all
  qed
  then show ?case by (simp add: wp_simps)
qed (simp add: wp_simps)

lemma wp_fold_prefix:
  assumes "I [] b w out"
    and "\<And>pre x post b w out. xs = pre @ x # post \<Longrightarrow> I pre b w out \<Longrightarrow> wp (f x b) (I (pre @ [x])) E w out"
  shows "wp (io_fold f xs b) (I xs) E w out"
  by (rule wp_fold_prefix_from [where pre = "[]"]) (use assms in simp_all)

end
