(* ===== verification/Terraform.thy ===== *)
theory Terraform
  imports Intent Io
begin

section \<open>Package tf: plan, check against the intent, apply that plan\<close>

text \<open>
  \<open>internal/tf/tf.go\<close>. \<open>check_plan\<close> and \<open>apply_checked\<close> are the two halves of \<open>decide\<close>; the
  applier (an interface in the code) is a parameter. \<open>plan_replace\<close> and \<open>module_apply\<close> are the
  methods of \<open>Module\<close>; the Terraform binary, reached through the package terraform-exec, and the
  file system are the parameter \<open>terraform\<close>. Lines written to the output are values of \<open>tf_line\<close>.
\<close>

subsection \<open>Data\<close>

record mode =
  m_apply :: bool
  m_allow_unexpected :: bool

record tf_plan =
  p_module :: string
  p_env :: string
  p_file :: string
  p_changes :: "change list"

datatype tf_error =
    ErrIntent string nat
  | WrongModule string string
  | TerraformFailed string
  | PlanUnreadable string

datatype tf_line =
    PlanLine string string string "change list"
  | MismatchLine mismatch
  | WarnIntent
  | AllowUnexpected nat
  | AppliedLine string nat

type_synonym 'w applier = "tf_plan \<Rightarrow> ('w, tf_error, unit) call"

subsection \<open>Decide and its two halves\<close>

definition check_plan :: "tf_plan \<Rightarrow> intent \<Rightarrow> mode \<Rightarrow> ('w, tf_line, tf_error, unit) io" where
  "check_plan p i mode =
     io_bind (io_say (PlanLine (p_module p) (p_env p) (in_description i) (p_changes p))) (\<lambda>_.
       (let mm = check i (p_changes p) in
        if mm = [] then io_return ()
        else io_bind (io_each (\<lambda>x. io_say (MismatchLine x)) mm) (\<lambda>_.
          if \<not> m_apply mode then io_say WarnIntent
          else if \<not> m_allow_unexpected mode then io_fail (ErrIntent (p_module p) (length mm))
          else io_say (AllowUnexpected (length mm)))))"

definition apply_checked :: "'w applier \<Rightarrow> tf_plan \<Rightarrow> mode \<Rightarrow> ('w, tf_line, tf_error, bool) io" where
  "apply_checked ap p mode =
     (if \<not> m_apply mode \<or> p_changes p = [] then io_return False
      else io_bind (io_call (ap p)) (\<lambda>_.
           io_bind (io_say (AppliedLine (p_module p) (length (p_changes p)))) (\<lambda>_.
           io_return True)))"

definition decide ::
  "'w applier \<Rightarrow> tf_plan \<Rightarrow> intent \<Rightarrow> mode \<Rightarrow> ('w, tf_line, tf_error, bool) io" where
  "decide ap p i mode = io_bind (check_plan p i mode) (\<lambda>_. apply_checked ap p mode)"

subsection \<open>The run directory and a Module\<close>

record run_dir =
  rd_path :: string
  rd_n :: nat

definition run_next :: "run_dir \<Rightarrow> string \<Rightarrow> string \<Rightarrow> string \<times> run_dir" where
  "run_next r name ext =
     (let n = Suc (rd_n r)
      in (rd_path r @ ''/'' @ name @ ''-'' @ string_of_nat n @ ext, r\<lparr>rd_n := n\<rparr>))"

record tf_module =
  mod_name :: string
  mod_env :: string
  mod_token :: string
  mod_var_files :: "string list"

text \<open>The values of a plan's variables (\<open>map[string]any\<close>).\<close>

datatype var_value = VBool bool | VStr string

text \<open>
  What the code calls: writing the var file (\<open>json.Marshal\<close> and \<open>os.WriteFile\<close>), \<open>terraform plan\<close>
  with its var files, its \<open>-replace\<close> addresses and its output file, reading a saved plan, and
  \<open>terraform apply\<close> of a saved plan.
\<close>

record ('w, 'a) terraform =
  tf_write_vars :: "string \<Rightarrow> (string \<rightharpoonup> var_value) \<Rightarrow> ('w, tf_error, unit) call"
  tf_run_plan :: "string list \<Rightarrow> string list \<Rightarrow> string \<Rightarrow> ('w, tf_error, unit) call"
  tf_show_plan :: "string \<Rightarrow> ('w, tf_error, 'a resource_change list) call"
  tf_run_apply :: "string \<Rightarrow> ('w, tf_error, unit) call"

definition plan_vars :: "tf_module \<Rightarrow> (string \<rightharpoonup> var_value) \<Rightarrow> (string \<rightharpoonup> var_value)" where
  "plan_vars m vars = [''HCLOUD_TOKEN'' \<mapsto> VStr (mod_token m)] ++ vars"

definition plan_replace ::
  "('w, 'a) terraform \<Rightarrow> 'a actions_api \<Rightarrow> tf_module \<Rightarrow> run_dir \<Rightarrow> (string \<rightharpoonup> var_value) \<Rightarrow> string list \<Rightarrow>
     ('w, tf_line, tf_error, tf_plan \<times> run_dir) io" where
  "plan_replace t api m r vars replace =
     (let (var_file, r1) = run_next r (mod_name m) ''.tfvars.json'' in
      io_bind (io_call (tf_write_vars t var_file (plan_vars m vars))) (\<lambda>_.
        (let (plan_file, r2) = run_next r1 (mod_name m) ''.tfplan'' in
         io_bind (io_call (tf_run_plan t (mod_var_files m @ [var_file]) replace plan_file)) (\<lambda>_.
         io_bind (io_call (tf_show_plan t plan_file)) (\<lambda>rcs.
           (case changes api rcs of
              Inl (UnknownActions a _) \<Rightarrow> io_fail (PlanUnreadable a)
            | Inr cs \<Rightarrow> io_return (\<lparr>p_module = mod_name m, p_env = mod_env m, p_file = plan_file,
                                   p_changes = cs\<rparr>, r2)))))))"

definition module_plan ::
  "('w, 'a) terraform \<Rightarrow> 'a actions_api \<Rightarrow> tf_module \<Rightarrow> run_dir \<Rightarrow> (string \<rightharpoonup> var_value) \<Rightarrow>
     ('w, tf_line, tf_error, tf_plan \<times> run_dir) io" where
  "module_plan t api m r vars = plan_replace t api m r vars []"

definition module_apply :: "('w, 'a) terraform \<Rightarrow> tf_module \<Rightarrow> 'w applier" where
  "module_apply t m p =
     (\<lambda>w. if p_module p \<noteq> mod_name m then (Inl (WrongModule (p_module p) (mod_name m)), w)
          else tf_run_apply t (p_file p) w)"

text \<open>\<open>Converge\<close>: plan, then decide.\<close>

definition converge ::
  "('w, 'a) terraform \<Rightarrow> 'a actions_api \<Rightarrow> tf_module \<Rightarrow> run_dir \<Rightarrow> (string \<rightharpoonup> var_value) \<Rightarrow> intent \<Rightarrow> mode \<Rightarrow>
     ('w, tf_line, tf_error, tf_plan \<times> bool) io" where
  "converge t api m r vars i mode =
     io_bind (module_plan t api m r vars) (\<lambda>(p, _).
     io_bind (decide (module_apply t m) p i mode) (\<lambda>applied. io_return (p, applied)))"

subsection \<open>Lemmas\<close>

lemma io_each_say:
  "io_each (\<lambda>x. io_say (f x)) xs (w, out) = (Inr (), w, out @ map f xs)"
  by (induction xs arbitrary: out) (auto simp: io_defs)

text \<open>The lines \<open>Check\<close> writes before it decides.\<close>

definition check_log :: "tf_plan \<Rightarrow> intent \<Rightarrow> tf_line list" where
  "check_log p i =
     PlanLine (p_module p) (p_env p) (in_description i) (p_changes p) #
     map MismatchLine (check i (p_changes p))"

lemma check_plan_run:
  "check_plan p i mode (w, out) =
     (if check i (p_changes p) = [] then (Inr (), w, out @ check_log p i)
      else if \<not> m_apply mode then (Inr (), w, out @ check_log p i @ [WarnIntent])
      else if \<not> m_allow_unexpected mode
      then (Inl (ErrIntent (p_module p) (length (check i (p_changes p)))), w, out @ check_log p i)
      else (Inr (), w, out @ check_log p i @ [AllowUnexpected (length (check i (p_changes p)))]))"
proof -
  have say: "io_say x (w, o1) = (Inr (), w, o1 @ [x])" for x :: tf_line and o1
    by (simp add: io_say_def)
  show ?thesis
    by (simp add: check_plan_def io_bind_def io_return_def io_fail_def say io_each_say
        check_log_def Let_def)
qed

lemma apply_checked_run:
  "apply_checked ap p mode (w, out) =
     (if \<not> m_apply mode \<or> p_changes p = [] then (Inr False, w, out)
      else (case fst (ap p w) of
              Inl e \<Rightarrow> (Inl e, snd (ap p w), out)
            | Inr _ \<Rightarrow> (Inr True, snd (ap p w), out @ [AppliedLine (p_module p) (length (p_changes p))])))"
  by (cases "ap p w"; cases "fst (ap p w)") (simp_all add: apply_checked_def io_defs)

text \<open>The lines of \<open>Check\<close> when it lets the plan pass.\<close>

definition passed_log :: "tf_plan \<Rightarrow> intent \<Rightarrow> mode \<Rightarrow> tf_line list" where
  "passed_log p i mode = check_log p i @
     (if check i (p_changes p) = [] then []
      else if \<not> m_apply mode then [WarnIntent]
      else [AllowUnexpected (length (check i (p_changes p)))])"

definition intent_refuses :: "tf_plan \<Rightarrow> intent \<Rightarrow> mode \<Rightarrow> bool" where
  "intent_refuses p i mode \<longleftrightarrow>
     check i (p_changes p) \<noteq> [] \<and> m_apply mode \<and> \<not> m_allow_unexpected mode"

lemma check_plan_passes:
  "\<not> intent_refuses p i mode \<Longrightarrow>
     check_plan p i mode (w, out) = (Inr (), w, out @ passed_log p i mode)"
  by (auto simp: check_plan_run intent_refuses_def passed_log_def)

lemma check_plan_refuses:
  "intent_refuses p i mode \<Longrightarrow>
     check_plan p i mode (w, out) =
       (Inl (ErrIntent (p_module p) (length (check i (p_changes p)))), w, out @ check_log p i)"
  by (simp add: check_plan_run intent_refuses_def)

lemma decide_run:
  "decide ap p i mode (w, out) =
     (if intent_refuses p i mode
      then (Inl (ErrIntent (p_module p) (length (check i (p_changes p)))), w, out @ check_log p i)
      else apply_checked ap p mode (w, out @ passed_log p i mode))"
  by (simp add: decide_def io_bind_def check_plan_passes check_plan_refuses)

lemma decide_plan_mode:
  "\<not> m_apply mode \<Longrightarrow> decide ap p i mode (w, out) = (Inr False, w, out @ passed_log p i mode)"
  by (simp add: decide_run intent_refuses_def apply_checked_run)

lemma decide_world:
  assumes "decide ap p i mode (w, out) = (r, w', out')" and "w' \<noteq> w"
  shows "m_apply mode \<and> p_changes p \<noteq> [] \<and> w' = snd (ap p w) \<and>
    (check i (p_changes p) = [] \<or> m_allow_unexpected mode)"
proof -
  have pass: "\<not> intent_refuses p i mode" and acts: "\<not> (\<not> m_apply mode \<or> p_changes p = [])"
    using assms by (auto simp: decide_run apply_checked_run split: if_splits)
  have "w' = snd (ap p w)"
    using assms pass acts by (simp add: decide_run apply_checked_run split: sum.splits)
  with pass acts show ?thesis
    by (auto simp: intent_refuses_def)
qed

lemma decide_applied:
  assumes "decide ap p i mode (w, out) = (Inr True, w', out')"
  shows "m_apply mode \<and> p_changes p \<noteq> [] \<and> ap p w = (Inr (), w') \<and>
    (check i (p_changes p) = [] \<or> m_allow_unexpected mode)"
proof -
  have pass: "\<not> intent_refuses p i mode" and acts: "\<not> (\<not> m_apply mode \<or> p_changes p = [])"
    using assms by (auto simp: decide_run apply_checked_run split: if_splits)
  have "ap p w = (Inr (), w')"
    using assms pass acts
    by (cases "ap p w") (simp add: decide_run apply_checked_run split: sum.splits)
  with pass acts show ?thesis
    by (auto simp: intent_refuses_def)
qed

lemma decide_not_applied: "decide ap p i mode (w, out) = (Inr False, w', out') \<Longrightarrow> w' = w"
  by (auto simp: decide_run apply_checked_run split: if_splits sum.splits)

lemma module_apply_other [simp]:
  "p_module p \<noteq> mod_name m \<Longrightarrow>
     module_apply t m p w = (Inl (WrongModule (p_module p) (mod_name m)), w)"
  by (simp add: module_apply_def)

lemma run_next_inj:
  assumes "run_next r name ext = (f, r')" and "run_next r2 name ext = (f, r2')"
    and "rd_path r = rd_path r2"
  shows "rd_n r = rd_n r2"
  using assms by (auto simp: run_next_def Let_def)

subsection \<open>Properties\<close>



text \<open>
  Under \<open>--apply\<close>, a plan that disagrees with the intent is refused before anything is applied:
  \<open>Decide\<close> returns \<open>ErrIntent\<close> with the number of disagreements, and the world is unchanged.
\<close>

theorem decide_aborts_on_mismatch:
  assumes "m_apply mode" and "\<not> m_allow_unexpected mode" and "\<not> as_intended i (p_changes p)"
  shows "decide ap p i mode (w, out) =
    (Inl (ErrIntent (p_module p) (length (check i (p_changes p)))), w, out @ check_log p i)"
  using assms by (simp add: decide_run intent_refuses_def check_empty_iff)

theorem decide_aborts_on_mismatch_witness:
  "fst (decide (\<lambda>p w. (Inr (), Suc w))
     \<lparr>p_module = ''workers'', p_env = ''live'', p_file = ''f'',
      p_changes = [\<lparr>ch_address = ''a'', ch_action = Delete\<rparr>, \<lparr>ch_address = ''b'', ch_action = Create\<rparr>]\<rparr>
     \<lparr>in_description = ''d'', in_expectations = []\<rparr>
     \<lparr>m_apply = True, m_allow_unexpected = False\<rparr> (0, [])) = Inl (ErrIntent ''workers'' 2)"
  by (subst decide_aborts_on_mismatch)
    (simp_all add: as_intended_def check_def unmet_required.simps)

end
