(* ===== verification/Cloud.thy ===== *)
theory Cloud
  imports Io
begin

section \<open>Package cloud: the Hetzner project over its API\<close>

text \<open>
  \<open>internal/cloud\<close>: the firewall checks, the rehearsal guard, the server type check, the server
  as kluster reads it. The teardown is the theory Teardown. The Hetzner API client is a third-party package: its
  calls are the fields of \<open>hcloud\<close>, over an arbitrary world \<open>'w\<close>. What the code relies on is
  stated as \<open>firewall_laws\<close>.
\<close>

subsection \<open>Data\<close>

record fw_rule =
  fr_inbound :: bool
  fr_protocol :: string
  fr_port :: "string option"
  fr_peers :: "string list"

record firewall =
  fw_id :: nat
  fw_name :: string
  fw_rules :: "fw_rule list"

record private_net =
  pn_ip :: "string option"
  pn_mac :: string

record hserver =
  hs_id :: nat
  hs_name :: string
  hs_status :: string
  hs_delete_protected :: bool
  hs_rebuild_protected :: bool
  hs_location :: "string option"
  hs_public_ip :: "string option"
  hs_private_nets :: "private_net list"
  hs_created :: nat

record resource =
  rs_id :: nat
  rs_name :: string
  rs_protected :: bool

record primary_ip =
  pi_id :: nat
  pi_name :: string
  pi_protected :: bool
  pi_ip :: "string option"

record type_location =
  tl_name :: "string option"
  tl_deprecated :: bool
  tl_available :: bool

datatype api_error = NotFound | MustBeUnassigned | ApiError string

datatype kind = KServer | KLoadBalancer | KVolume | KPrimaryIP | KFloatingIP | KFirewall
  | KNetwork | KSSHKey | KPlacementGroup | KCertificate

record 'w hcloud =
  hc_firewall :: "string \<Rightarrow> ('w, api_error, firewall option) call"
  hc_set_rules :: "firewall \<Rightarrow> fw_rule list \<Rightarrow> ('w, api_error, unit) call"
  hc_servers :: "('w, api_error, hserver list) call"
  hc_server :: "string \<Rightarrow> ('w, api_error, hserver option) call"
  hc_primary_ips :: "('w, api_error, primary_ip list) call"
  hc_server_type :: "string \<Rightarrow> ('w, api_error, type_location list option) call"
  hc_unprotect :: "kind \<Rightarrow> nat \<Rightarrow> ('w, api_error, unit) call"
  hc_delete :: "kind \<Rightarrow> nat \<Rightarrow> ('w, api_error, unit) call"
  hc_wait :: "('w, api_error, unit) call"
  hc_now :: "'w \<Rightarrow> nat"
  hc_sleep :: "nat \<Rightarrow> ('w, api_error, unit) call"

datatype cloud_error =
    ReadFailed string api_error
  | NoFirewall string
  | SetRulesFailed string api_error
  | LiveProject string string
  | NoServerType string
  | Deprecated string string
  | OutOfStock string string
  | NotOffered string string
  | DeleteFailed kind string api_error

subsection \<open>Bootstrap SSH on a firewall\<close>

definition is_ssh_rule :: "fw_rule \<Rightarrow> bool" where
  "is_ssh_rule r \<longleftrightarrow> fr_inbound r \<and> fr_protocol r = ''tcp'' \<and> fr_port r = Some ''22''"

definition without_ssh :: "fw_rule list \<Rightarrow> fw_rule list" where
  "without_ssh rules = filter (\<lambda>r. \<not> is_ssh_rule r) rules"

definition cloud_ssh_open :: "'w hcloud \<Rightarrow> string \<Rightarrow> ('w, cloud_error, bool) call" where
  "cloud_ssh_open api name =
     (\<lambda>w. case hc_firewall api name w of
            (Inl e, w') \<Rightarrow> (Inl (ReadFailed name e), w')
          | (Inr None, w') \<Rightarrow> (Inr False, w')
          | (Inr (Some fw), w') \<Rightarrow> (Inr (list_ex is_ssh_rule (fw_rules fw)), w'))"

definition cloud_firewall :: "'w hcloud \<Rightarrow> string \<Rightarrow> ('w, cloud_error, firewall) call" where
  "cloud_firewall api name =
     (\<lambda>w. case hc_firewall api name w of
            (Inl e, w') \<Rightarrow> (Inl (ReadFailed name e), w')
          | (Inr None, w') \<Rightarrow> (Inl (NoFirewall name), w')
          | (Inr (Some fw), w') \<Rightarrow> (Inr fw, w'))"

text \<open>\<open>ClearSSH\<close>: the read, \<open>SetRules\<close> and the wait for its actions.\<close>

definition cloud_clear_ssh :: "'w hcloud \<Rightarrow> string \<Rightarrow> ('w, cloud_error, unit) call" where
  "cloud_clear_ssh api name =
     (\<lambda>w. case cloud_firewall api name w of
            (Inl e, w1) \<Rightarrow> (Inl e, w1)
          | (Inr fw, w1) \<Rightarrow>
              (case hc_set_rules api fw (without_ssh (fw_rules fw)) w1 of
                 (Inl e, w2) \<Rightarrow> (Inl (SetRulesFailed name e), w2)
               | (Inr _, w2) \<Rightarrow>
                   (case hc_wait api w2 of
                      (Inl e, w3) \<Rightarrow> (Inl (SetRulesFailed name e), w3)
                    | (Inr _, w3) \<Rightarrow> (Inr (), w3))))"

subsection \<open>The rehearsal guard and the server type check\<close>

definition guard_not_project :: "'w hcloud \<Rightarrow> string \<Rightarrow> ('w, cloud_error, unit) call" where
  "guard_not_project api ip =
     (\<lambda>w. case hc_primary_ips api w of
            (Inl e, w1) \<Rightarrow> (Inl (ReadFailed ''primary IPs'' e), w1)
          | (Inr ips, w1) \<Rightarrow>
              (case find (\<lambda>p. pi_ip p = Some ip) ips of
                 Some p \<Rightarrow> (Inl (LiveProject (pi_name p) ip), w1)
               | None \<Rightarrow>
                   (case hc_servers api w1 of
                      (Inl e, w2) \<Rightarrow> (Inl (ReadFailed ''servers'' e), w2)
                    | (Inr ss, w2) \<Rightarrow>
                        (case find (\<lambda>s. hs_public_ip s = Some ip) ss of
                           Some s \<Rightarrow> (Inl (LiveProject (hs_name s) ip), w2)
                         | None \<Rightarrow> (Inr (), w2)))))"

fun type_offered :: "string \<Rightarrow> string \<Rightarrow> type_location list \<Rightarrow> cloud_error + unit" where
  "type_offered name location [] = Inl (NotOffered name location)"
| "type_offered name location (l # ls) =
     (if tl_name l \<noteq> Some location then type_offered name location ls
      else if tl_deprecated l then Inl (Deprecated name location)
      else if \<not> tl_available l then Inl (OutOfStock name location)
      else Inr ())"

definition check_server_type :: "'w hcloud \<Rightarrow> string \<Rightarrow> string \<Rightarrow> ('w, cloud_error, unit) call" where
  "check_server_type api name location =
     (\<lambda>w. case hc_server_type api name w of
            (Inl e, w') \<Rightarrow> (Inl (ReadFailed name e), w')
          | (Inr None, w') \<Rightarrow> (Inl (NoServerType name), w')
          | (Inr (Some ls), w') \<Rightarrow> (type_offered name location ls, w'))"

subsection \<open>The server as kluster reads it\<close>

record server =
  sv_id :: string
  sv_name :: string
  sv_status :: string
  sv_public_ip :: string
  sv_private_ips :: "string list"
  sv_private_mac :: string
  sv_location :: string
  sv_delete_protected :: bool
  sv_rebuild_protected :: bool
  sv_created :: nat

fun first_mac :: "private_net list \<Rightarrow> string" where
  "first_mac [] = []"
| "first_mac (n # ns) = (if pn_mac n = [] then first_mac ns else pn_mac n)"

definition to_server :: "hserver \<Rightarrow> server" where
  "to_server s =
     \<lparr>sv_id = string_of_nat (hs_id s), sv_name = hs_name s, sv_status = hs_status s,
      sv_public_ip = case_option [] id (hs_public_ip s),
      sv_private_ips = List.map_filter pn_ip (hs_private_nets s),
      sv_private_mac = first_mac (hs_private_nets s),
      sv_location = case_option [] id (hs_location s),
      sv_delete_protected = hs_delete_protected s,
      sv_rebuild_protected = hs_rebuild_protected s,
      sv_created = hs_created s\<rparr>"

definition running :: "server \<Rightarrow> bool" where
  "running s \<longleftrightarrow> sv_status s = ''running''"

definition cloud_server :: "'w hcloud \<Rightarrow> string \<Rightarrow> ('w, cloud_error, server option) call" where
  "cloud_server api name =
     (\<lambda>w. case hc_server api name w of
            (Inl e, w') \<Rightarrow> (Inl (ReadFailed name e), w')
          | (Inr s, w') \<Rightarrow> (Inr (map_option to_server s), w'))"

definition cloud_servers :: "'w hcloud \<Rightarrow> ('w, cloud_error, server list) call" where
  "cloud_servers api =
     (\<lambda>w. case hc_servers api w of
            (Inl e, w') \<Rightarrow> (Inl (ReadFailed ''servers'' e), w')
          | (Inr ss, w') \<Rightarrow> (Inr (map to_server ss), w'))"

subsection \<open>What the firewall code relies on\<close>

text \<open>
  \<open>view w n\<close> is the rules the project has for firewall \<open>n\<close> in world \<open>w\<close>, \<open>None\<close> without such a
  firewall. A read that succeeds returns that and changes no rules; \<open>SetRules\<close> that succeeds
  replaces the rules of the firewall it is given; a call that fails leaves a firewall as it was,
  or with the rules it was to get; no call touches another firewall.
\<close>

definition firewall_laws :: "'w hcloud \<Rightarrow> ('w \<Rightarrow> string \<Rightarrow> fw_rule list option) \<Rightarrow> bool" where
  "firewall_laws api view \<longleftrightarrow>
     (\<forall>n w r w'. hc_firewall api n w = (r, w') \<longrightarrow> view w' = view w) \<and>
     (\<forall>n w w'. hc_firewall api n w = (Inr None, w') \<longrightarrow> view w n = None) \<and>
     (\<forall>n w fw w'. hc_firewall api n w = (Inr (Some fw), w') \<longrightarrow>
        fw_name fw = n \<and> view w n = Some (fw_rules fw)) \<and>
     (\<forall>fw rs w r w'. hc_set_rules api fw rs w = (r, w') \<longrightarrow>
        (\<forall>m. m \<noteq> fw_name fw \<longrightarrow> view w' m = view w m) \<and>
        (view w' (fw_name fw) = Some rs \<or> (\<not> is_ok r \<and> view w' (fw_name fw) = view w (fw_name fw)))) \<and>
     (\<forall>w r w'. hc_wait api w = (r, w') \<longrightarrow> view w' = view w)"

definition admits :: "('w \<Rightarrow> string \<Rightarrow> fw_rule list option) \<Rightarrow> 'w \<Rightarrow> string \<Rightarrow> bool" where
  "admits view w n \<longleftrightarrow> (case view w n of None \<Rightarrow> False | Some rs \<Rightarrow> list_ex is_ssh_rule rs)"

lemma firewall_laws_read:
  "firewall_laws api view \<Longrightarrow> hc_firewall api n w = (r, w') \<Longrightarrow> view w' = view w"
  by (simp add: firewall_laws_def)

lemma firewall_laws_none:
  "firewall_laws api view \<Longrightarrow> hc_firewall api n w = (Inr None, w') \<Longrightarrow> view w n = None"
  unfolding firewall_laws_def by blast

lemma firewall_laws_some:
  "firewall_laws api view \<Longrightarrow> hc_firewall api n w = (Inr (Some fw), w') \<Longrightarrow>
     fw_name fw = n \<and> view w n = Some (fw_rules fw)"
  unfolding firewall_laws_def by blast

lemma firewall_laws_set:
  "firewall_laws api view \<Longrightarrow> hc_set_rules api fw rs w = (r, w') \<Longrightarrow>
     (m \<noteq> fw_name fw \<longrightarrow> view w' m = view w m) \<and>
     (view w' (fw_name fw) = Some rs \<or> (\<not> is_ok r \<and> view w' (fw_name fw) = view w (fw_name fw)))"
  unfolding firewall_laws_def by blast

lemma firewall_laws_wait:
  "firewall_laws api view \<Longrightarrow> hc_wait api w = (r, w') \<Longrightarrow> view w' = view w"
  unfolding firewall_laws_def by blast

lemma without_ssh_closed [simp]: "\<not> list_ex is_ssh_rule (without_ssh rs)"
  by (simp add: without_ssh_def list_ex_iff)

lemma without_ssh_keeps:
  "r \<in> set (without_ssh rs) \<longleftrightarrow> r \<in> set rs \<and> \<not> is_ssh_rule r"
  by (auto simp: without_ssh_def)

lemma cloud_ssh_open_reads:
  assumes "firewall_laws api view" and "cloud_ssh_open api n w = (r, w')"
  shows "view w' = view w \<and> (\<forall>b. r = Inr b \<longrightarrow> b = admits view w n)"
proof -
  obtain f w1 where f: "hc_firewall api n w = (f, w1)" by (cases "hc_firewall api n w")
  have "view w1 = view w"
    using assms(1) f by (rule firewall_laws_read)
  then show ?thesis
    using assms(2) f firewall_laws_none [OF assms(1), of n w] firewall_laws_some [OF assms(1), of n w]
    by (cases f) (auto simp: cloud_ssh_open_def admits_def split: option.splits)
qed

lemma cloud_firewall_reads:
  assumes "firewall_laws api view" and "cloud_firewall api n w = (r, w')"
  shows "view w' = view w \<and> (\<forall>fw. r = Inr fw \<longrightarrow> fw_name fw = n \<and> view w n = Some (fw_rules fw))"
proof -
  obtain f w1 where f: "hc_firewall api n w = (f, w1)" by (cases "hc_firewall api n w")
  have "view w1 = view w"
    using assms(1) f by (rule firewall_laws_read)
  then show ?thesis
    using assms(2) f firewall_laws_some [OF assms(1), of n w]
    by (cases f) (auto simp: cloud_firewall_def split: option.splits)
qed

text \<open>
  \<open>ClearSSH\<close> on one firewall: no other firewall changes, this one never gains a rule, and when it
  returns without an error its rules are the old ones minus the SSH rules.
\<close>

lemma cloud_clear_ssh_effect:
  assumes laws: "firewall_laws api view" and run: "cloud_clear_ssh api n w = (r, w')"
  shows "(\<forall>m. m \<noteq> n \<longrightarrow> view w' m = view w m) \<and>
    (view w' n = view w n \<or> view w' n = map_option without_ssh (view w n)) \<and>
    (is_ok r \<longrightarrow> view w' n = map_option without_ssh (view w n) \<and> view w n \<noteq> None)"
proof -
  obtain f w1 where f: "cloud_firewall api n w = (f, w1)" by (cases "cloud_firewall api n w")
  note read = cloud_firewall_reads [OF laws f]
  show ?thesis
  proof (cases f)
    case (Inl e)
    then show ?thesis using run f read by (auto simp: cloud_clear_ssh_def)
  next
    case (Inr fw)
    obtain r2 w2 where s: "hc_set_rules api fw (without_ssh (fw_rules fw)) w1 = (r2, w2)"
      by (cases "hc_set_rules api fw (without_ssh (fw_rules fw)) w1")
    obtain r3 w3 where wt: "hc_wait api w2 = (r3, w3)" by (cases "hc_wait api w2")
    note set = firewall_laws_set [OF laws s] and keep = firewall_laws_wait [OF laws wt]
    show ?thesis
      using run f s wt Inr read set keep
      by (cases r2; cases r3) (auto simp: cloud_clear_ssh_def)
  qed
qed

end
