(* ===== verification/SshGate.thy ===== *)
theory SshGate
  imports Terraform Cloud
begin

section \<open>Package sshgate: bootstrap SSH is opened and closed, and the close is proved\<close>

text \<open>
  \<open>internal/sshgate/sshgate.go\<close>. The gate drives the shared Module (a \<open>planner\<close>) and reads and
  clears the firewalls over the Hetzner API. What the gate needs of that API is the locale
  \<open>ssh_api\<close>; the cloud package's \<open>SSHOpen\<close> and \<open>ClearSSH\<close> are its instance. The planner is not
  trusted with anything but leaving the firewalls alone while it only plans: an apply may leave
  any rule behind, as the provider does.
\<close>

subsection \<open>Data\<close>

record gate_fw =
  gf_var :: string
  gf_name :: string
  gf_address :: string

definition control_plane_fw :: gate_fw where
  "control_plane_fw =
     \<lparr>gf_var = ''allow_public_ssh_cp'', gf_name = ''tosak-cp-firewall'',
      gf_address = ''hcloud_firewall.cp''\<rparr>"

definition worker_fw :: gate_fw where
  "worker_fw =
     \<lparr>gf_var = ''allow_public_ssh_worker'', gf_name = ''tosak-worker-firewall'',
      gf_address = ''hcloud_firewall.worker''\<rparr>"

definition all_fws :: "gate_fw list" where
  "all_fws = [control_plane_fw, worker_fw]"

record 'w planner =
  pl_plan :: "(string \<rightharpoonup> var_value) \<Rightarrow> ('w, tf_error, tf_plan) call"
  pl_apply :: "'w applier"

record 'w gate =
  g_shared :: "'w planner"
  g_ssh_open :: "string \<Rightarrow> ('w, cloud_error, bool) call"
  g_clear_ssh :: "string \<Rightarrow> ('w, cloud_error, unit) call"
  g_mode :: mode

datatype gate_error =
    GateTf tf_error
  | GateApi cloud_error
  | NotOpened string bool
  | ClearFailed string cloud_error
  | StillOpen "string list"
  | NotClean "change list"

datatype gate_line =
    GateTfLine tf_line
  | CloseLine
  | Admits string
  | AdmitsNone string
  | ApplyWouldClose string
  | ClearingOverApi string
  | NoChangesLine
  | WarnNotRead string cloud_error
  | WarnStillOpen string

type_synonym ('w, 'a) gate_io = "('w, gate_line, gate_error, 'a) io"

text \<open>The lines \<open>Decide\<close> writes go to the gate's own output.\<close>

definition lift_tf :: "('w, tf_line, tf_error, 'a) io \<Rightarrow> ('w, 'a) gate_io" where
  "lift_tf m =
     (\<lambda>(w, out). case m (w, []) of
        (Inl e, w', o') \<Rightarrow> (Inl (GateTf e), w', out @ map GateTfLine o')
      | (Inr a, w', o') \<Rightarrow> (Inr a, w', out @ map GateTfLine o'))"

definition gate_plan :: "'w gate \<Rightarrow> (string \<rightharpoonup> var_value) \<Rightarrow> ('w, tf_plan) gate_io" where
  "gate_plan g vars = io_map_err GateTf (io_call (pl_plan (g_shared g) vars))"

definition gate_read :: "'w gate \<Rightarrow> gate_fw \<Rightarrow> ('w, bool) gate_io" where
  "gate_read g fw = io_map_err GateApi (io_call (g_ssh_open g (gf_name fw)))"

subsection \<open>Open\<close>

definition open_vars :: "gate_fw list \<Rightarrow> (string \<rightharpoonup> var_value)" where
  "open_vars fws = map_of (map (\<lambda>fw. (gf_var fw, VBool True)) fws)"

definition update_expectations :: "gate_fw list \<Rightarrow> expectation list" where
  "update_expectations fws =
     map (\<lambda>fw. \<lparr>ex_address = gf_address fw, ex_actions = [Update], ex_required = False\<rparr>) fws"

definition open_intent :: "gate_fw list \<Rightarrow> intent" where
  "open_intent fws =
     \<lparr>in_description = ''open bootstrap SSH on '' @ join_str '' and '' (map gf_name fws),
      in_expectations = update_expectations fws\<rparr>"

definition read_back_open :: "'w gate \<Rightarrow> bool \<Rightarrow> gate_fw \<Rightarrow> ('w, unit) gate_io" where
  "read_back_open g applied fw =
     io_bind (gate_read g fw) (\<lambda>is_open.
       if \<not> is_open then io_fail (NotOpened (gf_name fw) applied)
       else io_say (Admits (gf_name fw)))"

definition open_ssh :: "'w gate \<Rightarrow> gate_fw list \<Rightarrow> ('w, unit) gate_io" where
  "open_ssh g fws =
     io_bind (gate_plan g (open_vars fws)) (\<lambda>p.
       if p_changes p = [] then io_each (read_back_open g False) fws
       else io_bind (lift_tf (decide (pl_apply (g_shared g)) p (open_intent fws) (g_mode g))) (\<lambda>applied.
         if \<not> applied then io_return () else io_each (read_back_open g True) fws))"

subsection \<open>Close\<close>

definition close_intent :: intent where
  "close_intent =
     \<lparr>in_description = ''close bootstrap SSH on both firewalls'',
      in_expectations = update_expectations all_fws\<rparr>"

definition gate_converge :: "'w gate \<Rightarrow> (string \<rightharpoonup> var_value) \<Rightarrow> intent \<Rightarrow> ('w, bool) gate_io" where
  "gate_converge g vars i =
     io_bind (gate_plan g vars) (\<lambda>p. lift_tf (decide (pl_apply (g_shared g)) p i (g_mode g)))"

text \<open>One iteration of the read-back loop; the accumulator is \<open>still\<close>.\<close>

definition close_one :: "'w gate \<Rightarrow> gate_fw \<Rightarrow> string list \<Rightarrow> ('w, string list) gate_io" where
  "close_one g fw still =
     io_bind (gate_read g fw) (\<lambda>is_open.
       if \<not> is_open then io_bind (io_say (AdmitsNone (gf_name fw))) (\<lambda>_. io_return still)
       else if \<not> m_apply (g_mode g)
       then io_bind (io_say (ApplyWouldClose (gf_name fw))) (\<lambda>_. io_return (still @ [gf_name fw]))
       else io_bind (io_say (ClearingOverApi (gf_name fw))) (\<lambda>_.
            io_bind (io_map_err (ClearFailed (gf_name fw)) (io_call (g_clear_ssh g (gf_name fw)))) (\<lambda>_.
            io_bind (gate_read g fw) (\<lambda>is_open'.
              if is_open' then io_return (still @ [gf_name fw])
              else io_bind (io_say (AdmitsNone (gf_name fw))) (\<lambda>_. io_return still)))))"

definition close_ssh :: "'w gate \<Rightarrow> ('w, unit) gate_io" where
  "close_ssh g =
     io_bind (io_say CloseLine) (\<lambda>_.
     io_bind (gate_converge g Map.empty close_intent) (\<lambda>_.
     io_bind (io_fold (close_one g) all_fws []) (\<lambda>still.
       if still \<noteq> [] then io_fail (StillOpen still)
       else if \<not> m_apply (g_mode g) then io_return ()
       else io_bind (gate_plan g Map.empty) (\<lambda>p.
         if p_changes p \<noteq> [] then io_fail (NotClean (p_changes p))
         else io_say NoChangesLine))))"

text \<open>\<open>WarnOpen\<close>: a warning for each firewall that is open or could not be read, never a refusal.\<close>

definition warn_open :: "'w gate \<Rightarrow> ('w, unit) gate_io" where
  "warn_open g =
     io_each (\<lambda>fw (w, out).
       (case g_ssh_open g (gf_name fw) w of
          (Inl e, w') \<Rightarrow> (Inr (), w', out @ [WarnNotRead (gf_name fw) e])
        | (Inr True, w') \<Rightarrow> (Inr (), w', out @ [WarnStillOpen (gf_name fw)])
        | (Inr False, w') \<Rightarrow> (Inr (), w', out))) all_fws"

subsection \<open>The interface the gate relies on\<close>

text \<open>
  \<open>port w n\<close>: firewall \<open>n\<close> admits port 22 in world \<open>w\<close>. The laws hold when the provider is in order
  (\<open>sound\<close>): a read changes nothing and reports the truth; a clear touches no other firewall, and
  opens none.
\<close>

locale ssh_api =
  fixes ssh_open :: "string \<Rightarrow> ('w, cloud_error, bool) call"
    and clear_ssh :: "string \<Rightarrow> ('w, cloud_error, unit) call"
    and port :: "'w \<Rightarrow> string \<Rightarrow> bool"
    and sound :: bool
  assumes open_keeps: "sound \<Longrightarrow> ssh_open n w = (rb, w') \<Longrightarrow> port w' = port w"
    and open_truth: "sound \<Longrightarrow> ssh_open n w = (Inr b, w') \<Longrightarrow> b = port w n"
    and clear_keeps: "sound \<Longrightarrow> clear_ssh n w = (ru, w') \<Longrightarrow> port w' m \<Longrightarrow> port w m"

text \<open>A planner that leaves the firewalls alone while it plans.\<close>

definition plan_read_only :: "'w planner \<Rightarrow> ('w \<Rightarrow> string \<Rightarrow> bool) \<Rightarrow> bool" where
  "plan_read_only pl port \<longleftrightarrow> (\<forall>vars w r w'. pl_plan pl vars w = (r, w') \<longrightarrow> port w' = port w)"

context ssh_api
begin

text \<open>The two calls of a gate over this interface, in the form the proofs below use.\<close>

definition wired :: "'w gate \<Rightarrow> bool" where
  "wired g \<longleftrightarrow> sound \<and> g_ssh_open g = ssh_open \<and> g_clear_ssh g = clear_ssh \<and>
     plan_read_only (g_shared g) port"

lemma wired_read:
  "wired g \<Longrightarrow> g_ssh_open g n w = (Inr b, w') \<Longrightarrow> b = port w n \<and> port w' = port w"
  by (auto simp: wired_def dest: open_truth open_keeps)

lemma wired_clear:
  "wired g \<Longrightarrow> g_clear_ssh g n w = (ru, w') \<Longrightarrow> \<not> port w m \<Longrightarrow> \<not> port w' m"
  by (auto simp: wired_def dest: clear_keeps)

lemma wired_plan:
  "wired g \<Longrightarrow> pl_plan (g_shared g) vars w = (rp, w') \<Longrightarrow> port w' = port w"
  by (auto simp: wired_def plan_read_only_def)

lemmas wired_laws = wired_read wired_clear wired_plan

text \<open>
  The loop of \<open>Close\<close>: every firewall seen so far is either named in \<open>still\<close> or closed.
\<close>

definition settled :: "gate_fw set \<Rightarrow> string list \<Rightarrow> 'w \<Rightarrow> bool" where
  "settled seen still w \<longleftrightarrow> (\<forall>fw \<in> seen. gf_name fw \<in> set still \<or> \<not> port w (gf_name fw))"

lemma settled_insert:
  "settled (insert fw seen) still w \<longleftrightarrow>
     (gf_name fw \<in> set still \<or> \<not> port w (gf_name fw)) \<and> settled seen still w"
  by (auto simp: settled_def)

lemma settled_snoc: "settled seen still w \<Longrightarrow> settled seen (still @ [n]) w"
  by (auto simp: settled_def)

lemma settled_port: "port w' = port w \<Longrightarrow> settled seen still w \<Longrightarrow> settled seen still w'"
  by (simp add: settled_def)

lemma settled_clear:
  "wired g \<Longrightarrow> g_clear_ssh g n w = (ru, w') \<Longrightarrow> settled seen still w \<Longrightarrow> settled seen still w'"
  by (auto simp: settled_def dest: wired_clear)

lemma wp_gate_read:
  assumes "wired g" and "\<And>w'. port w' = port w \<Longrightarrow> Q (port w (gf_name fw)) w' out"
  shows "wp (gate_read g fw) Q (\<lambda>_ _ _. True) w out"
  unfolding gate_read_def wp_simps
proof (intro conjI allI impI)
  fix b w' assume "g_ssh_open g (gf_name fw) w = (Inr b, w')"
  with assms(1) have "b = port w (gf_name fw)" and "port w' = port w"
    by (auto dest: wired_read)
  with assms(2) show "Q b w' out" by simp
qed simp

lemma wp_gate_plan:
  assumes "wired g" and "\<And>p w'. port w' = port w \<Longrightarrow> Q p w' out"
  shows "wp (gate_plan g vars) Q (\<lambda>_ _ _. True) w out"
  using assms by (auto simp: gate_plan_def wp_simps dest: wired_plan)

lemma wp_close_one:
  assumes g: "wired g" and inv: "settled seen still w"
  shows "wp (close_one g fw still) (\<lambda>still' w' _. settled (insert fw seen) still' w')
    (\<lambda>_ _ _. True) w out"
  unfolding close_one_def wp_bind
proof (rule wp_gate_read [OF g])
  let ?n = "gf_name fw"
  fix w1 assume "port w1 = port w"
  with inv have w1: "settled seen still w1" and pw: "port w ?n = port w1 ?n"
    by (auto intro: settled_port)
  let ?Q = "\<lambda>still' w' _. settled (insert fw seen) still' w'"
  let ?last = "\<lambda>b. if b then io_return (still @ [?n])
      else io_bind (io_say (AdmitsNone ?n)) (\<lambda>_. io_return still)"
  have again: "wp (io_bind (gate_read g fw) ?last) ?Q (\<lambda>_ _ _. True) w2 o2"
    if "settled seen still w2" for w2 o2
    unfolding wp_bind
    by (rule wp_gate_read [OF g])
      (use that in \<open>auto simp: wp_simps settled_insert intro: settled_snoc dest: settled_port\<close>)
  have cleared: "wp (io_map_err (ClearFailed ?n) (io_call (g_clear_ssh g ?n)))
      (\<lambda>_. wp (io_bind (gate_read g fw) ?last) ?Q (\<lambda>_ _ _. True)) (\<lambda>_ _ _. True) w1 o1" for o1
    unfolding wp_map_err wp_call
    by (intro conjI allI impI again) (use settled_clear [OF g _ w1] in auto)
  show "wp (if \<not> port w ?n then io_bind (io_say (AdmitsNone ?n)) (\<lambda>_. io_return still)
      else if \<not> m_apply (g_mode g)
      then io_bind (io_say (ApplyWouldClose ?n)) (\<lambda>_. io_return (still @ [?n]))
      else io_bind (io_say (ClearingOverApi ?n)) (\<lambda>_.
           io_bind (io_map_err (ClearFailed ?n) (io_call (g_clear_ssh g ?n))) (\<lambda>_.
           io_bind (gate_read g fw) ?last))) ?Q (\<lambda>_ _ _. True) w1 out"
  proof (cases "port w ?n \<and> m_apply (g_mode g)")
    case True
    have "wp (io_bind (io_say (ClearingOverApi ?n)) (\<lambda>_.
           io_bind (io_map_err (ClearFailed ?n) (io_call (g_clear_ssh g ?n))) (\<lambda>_.
           io_bind (gate_read g fw) ?last))) ?Q (\<lambda>_ _ _. True) w1 out"
      by (subst wp_bind, subst wp_say, subst wp_bind) (rule cleared)
    with True show ?thesis by simp
  next
    case False
    with w1 show ?thesis
      by (auto simp: wp_simps pw settled_insert settled_snoc)
  qed
qed

text \<open>
  \<open>Close\<close>: when it returns without an error both firewalls are closed in the world it leaves, in
  Plan Mode and under \<open>--apply\<close> alike, whatever the apply did.
\<close>

lemma wp_close:
  assumes g: "wired g"
  shows "wp (close_ssh g) (\<lambda>_ w' _. \<forall>fw \<in> set all_fws. \<not> port w' (gf_name fw)) (\<lambda>_ _ _. True) w out"
proof -
  let ?closed = "\<lambda>(_::unit) w' (_::gate_line list). \<forall>fw \<in> set all_fws. \<not> port w' (gf_name fw)"
  have loop: "wp (io_fold (close_one g) all_fws []) (\<lambda>still w' _. settled (set all_fws) still w')
      (\<lambda>_ _ _. True) w1 o1" for w1 o1
    using wp_fold_seen [of "\<lambda>S still w' _. settled S still w'" "{}" "[]" w1 o1, OF _ wp_close_one [OF g]]
    by (simp add: settled_def)
  have final: "wp (if still \<noteq> [] then io_fail (StillOpen still)
       else if \<not> m_apply (g_mode g) then io_return ()
       else io_bind (gate_plan g Map.empty) (\<lambda>p.
         if p_changes p \<noteq> [] then io_fail (NotClean (p_changes p))
         else io_say NoChangesLine)) ?closed (\<lambda>_ _ _. True) w2 o2"
    if "settled (set all_fws) still w2" for still w2 o2
  proof (cases "still = [] \<and> m_apply (g_mode g)")
    case True
    with that have now: "\<forall>fw \<in> set all_fws. \<not> port w2 (gf_name fw)"
      by (auto simp: settled_def)
    have "wp (io_bind (gate_plan g Map.empty) (\<lambda>p.
        if p_changes p \<noteq> [] then io_fail (NotClean (p_changes p)) else io_say NoChangesLine))
        ?closed (\<lambda>_ _ _. True) w2 o2"
      unfolding wp_bind by (rule wp_gate_plan [OF g]) (use now in \<open>simp add: wp_simps\<close>)
    with True show ?thesis by simp
  next
    case False
    with that show ?thesis by (auto simp: wp_simps settled_def)
  qed
  have rest: "wp (io_bind (io_fold (close_one g) all_fws []) (\<lambda>still.
       if still \<noteq> [] then io_fail (StillOpen still)
       else if \<not> m_apply (g_mode g) then io_return ()
       else io_bind (gate_plan g Map.empty) (\<lambda>p.
         if p_changes p \<noteq> [] then io_fail (NotClean (p_changes p))
         else io_say NoChangesLine))) ?closed (\<lambda>_ _ _. True) w1 o1" for w1 o1
    unfolding wp_bind [of "io_fold _ _ _"] by (rule wp_mono [OF loop]) (rule final, assumption, rule TrueI)
  show ?thesis
    unfolding close_ssh_def wp_bind [of "io_say _"] wp_say wp_bind [of "gate_converge _ _ _"]
    by (rule wpI) (use rest in simp_all)
qed

text \<open>The read back after an open: the loop returns only when every firewall admits port 22.\<close>

lemma wp_read_back_open:
  assumes g: "wired g"
  shows "wp (io_each (read_back_open g applied) fws)
    (\<lambda>_ w' _. \<forall>fw \<in> set fws. port w' (gf_name fw)) (\<lambda>_ _ _. True) w out"
proof (induction fws arbitrary: w out)
  case Nil
  then show ?case by (simp add: wp_simps)
next
  case (Cons fw fws)
  have keep: "wp (io_each (read_back_open g applied) fws) (\<lambda>_ w' _. port w' = port w1) (\<lambda>_ _ _. True) w1 o1"
    for w1 o1
    by (rule wp_each, simp, unfold read_back_open_def wp_bind, rule wp_gate_read [OF g])
      (simp add: wp_simps)
  have "wp (io_each (read_back_open g applied) fws)
      (\<lambda>_ w' _. \<forall>fw' \<in> set (fw # fws). port w' (gf_name fw')) (\<lambda>_ _ _. True) w1 o1"
    if "port w1 (gf_name fw)" for w1 o1
    using Cons.IH [of w1 o1] keep [of w1 o1] that by (auto simp: wp_def split: prod.splits sum.splits)
  then show ?case
    unfolding io_each.simps wp_bind read_back_open_def [of g applied fw]
    by (intro wp_gate_read [OF g]) (simp add: wp_simps)
qed

lemma wp_lift_tf:
  "wp (lift_tf m) Q E w out \<longleftrightarrow>
     wp m (\<lambda>a w' o'. Q a w' (out @ map GateTfLine o')) (\<lambda>e w' o'. E (GateTf e) w' (out @ map GateTfLine o')) w []"
  by (auto simp: wp_def lift_tf_def split: prod.splits sum.splits)

lemma wp_open:
  assumes g: "wired g" and ap: "m_apply (g_mode g)"
  shows "wp (open_ssh g fws) (\<lambda>_ w' _. \<forall>fw \<in> set fws. port w' (gf_name fw)) (\<lambda>_ _ _. True) w out"
  unfolding open_ssh_def wp_bind [of "gate_plan _ _"]
proof (rule wp_gate_plan [OF g])
  fix p w1
  let ?admitted = "\<lambda>_ w' _. \<forall>fw \<in> set fws. port w' (gf_name fw)"
  have "wp (lift_tf (decide (pl_apply (g_shared g)) p (open_intent fws) (g_mode g)))
      (\<lambda>applied. wp (if \<not> applied then io_return () else io_each (read_back_open g True) fws) ?admitted (\<lambda>_ _ _. True))
      (\<lambda>_ _ _. True) w1 out" if "p_changes p \<noteq> []"
    unfolding wp_lift_tf
  proof (rule wpI)
    fix applied w2 o2
    assume "decide (pl_apply (g_shared g)) p (open_intent fws) (g_mode g) (w1, []) = (Inr applied, w2, o2)"
    with that ap have "applied"
      by (auto simp: decide_run apply_checked_run split: if_splits sum.splits)
    then show "wp (if \<not> applied then io_return () else io_each (read_back_open g True) fws) ?admitted
        (\<lambda>_ _ _. True) w2 (out @ map GateTfLine o2)"
      using wp_read_back_open [OF g] by simp
  qed simp
  then show "wp (if p_changes p = [] then io_each (read_back_open g False) fws
       else io_bind (lift_tf (decide (pl_apply (g_shared g)) p (open_intent fws) (g_mode g))) (\<lambda>applied.
         if \<not> applied then io_return () else io_each (read_back_open g True) fws)) ?admitted (\<lambda>_ _ _. True) w1 out"
    using wp_read_back_open [OF g] by (simp add: wp_bind)
qed

end

subsection \<open>The cloud package provides the interface\<close>

interpretation hetzner: ssh_api "cloud_ssh_open api" "cloud_clear_ssh api" "admits view" "firewall_laws api view"
  for api view
proof unfold_locales
  fix n w rb w'
  assume "firewall_laws api view" and "cloud_ssh_open api n w = (rb, w')"
  then have "view w' = view w" by (auto dest: cloud_ssh_open_reads)
  then show "admits view w' = admits view w" by (simp add: admits_def fun_eq_iff)
next
  fix n w b w'
  assume "firewall_laws api view" and "cloud_ssh_open api n w = (Inr b, w')"
  then show "b = admits view w n" by (auto dest: cloud_ssh_open_reads)
next
  fix n w ru w' m
  assume laws: "firewall_laws api view" and run: "cloud_clear_ssh api n w = (ru, w')"
    and after: "admits view w' m"
  note effect = cloud_clear_ssh_effect [OF laws run]
  show "admits view w m"
  proof (cases "m = n")
    case True
    with effect after show ?thesis
      by (cases "view w n") (auto simp: admits_def)
  next
    case False
    with effect after show ?thesis by (simp add: admits_def)
  qed
qed

text \<open>A gate over the Hetzner API.\<close>

definition hetzner_gate :: "'w hcloud \<Rightarrow> 'w planner \<Rightarrow> mode \<Rightarrow> 'w gate" where
  "hetzner_gate api pl mode =
     \<lparr>g_shared = pl, g_ssh_open = cloud_ssh_open api, g_clear_ssh = cloud_clear_ssh api, g_mode = mode\<rparr>"

lemma hetzner_gate_wired:
  "firewall_laws api view \<Longrightarrow> plan_read_only pl (admits view) \<Longrightarrow>
     hetzner.wired api view (hetzner_gate api pl mode)"
  unfolding hetzner.wired_def hetzner_gate_def by simp

subsection \<open>Properties\<close>

text \<open>
  C1 The close is proved, not trusted: when \<open>Close\<close> returns without an error, no firewall of the
  cluster admits port 22 in the world it leaves, whatever rules the Terraform apply left behind.
  It rests on the API alone: reads report the rules, a clear opens nothing, and planning changes
  no firewall.
\<close>

theorem close_is_proved:
  assumes "firewall_laws api view" and "plan_read_only pl (admits view)"
    and "close_ssh (hetzner_gate api pl mode) (w, out) = (Inr (), w', out')"
  shows "\<forall>fw \<in> set all_fws. \<not> admits view w' (gf_name fw)"
  using wp_ok [OF hetzner.wp_close [OF hetzner_gate_wired [OF assms(1,2)]] assms(3)] .


subsection \<open>A project in which the hypotheses hold\<close>

text \<open>
  A world that is the project's firewalls, with the API calls answering from it, and a planner
  whose apply reports success and changes nothing, as the provider does when it takes a firewall
  to no rules. The plan is clean as soon as no firewall is open.
\<close>

type_synonym fw_world = "(string \<times> fw_rule list) list"

definition toy_api :: "fw_world hcloud" where
  "toy_api =
     \<lparr>hc_firewall = (\<lambda>n w. (Inr (map_option (\<lambda>rs. \<lparr>fw_id = 1, fw_name = n, fw_rules = rs\<rparr>) (map_of w n)), w)),
      hc_set_rules = (\<lambda>fw rs w. (Inr (), (fw_name fw, rs) # w)),
      hc_servers = (\<lambda>w. (Inr [], w)), hc_server = (\<lambda>_ w. (Inr None, w)),
      hc_primary_ips = (\<lambda>w. (Inr [], w)), hc_server_type = (\<lambda>_ w. (Inr None, w)),
      hc_unprotect = (\<lambda>_ _ w. (Inr (), w)), hc_delete = (\<lambda>_ _ w. (Inr (), w)),
      hc_wait = (\<lambda>w. (Inr (), w)), hc_now = (\<lambda>w. 0), hc_sleep = (\<lambda>_ w. (Inr (), w))\<rparr>"

definition toy_plan :: "fw_world \<Rightarrow> tf_plan" where
  "toy_plan w =
     \<lparr>p_module = ''shared'', p_env = ''rehearsal'', p_file = ''plan'',
      p_changes = map (\<lambda>fw. \<lparr>ch_address = gf_address fw, ch_action = Update\<rparr>)
        (filter (\<lambda>fw. admits map_of w (gf_name fw)) all_fws)\<rparr>"

definition toy_planner :: "fw_world planner" where
  "toy_planner = \<lparr>pl_plan = (\<lambda>_ w. (Inr (toy_plan w), w)), pl_apply = (\<lambda>_ w. (Inr (), w))\<rparr>"

definition ssh_rule :: fw_rule where
  "ssh_rule = \<lparr>fr_inbound = True, fr_protocol = ''tcp'', fr_port = Some ''22'', fr_peers = [''203.0.113.9/32'']\<rparr>"

definition toy_world :: fw_world where
  "toy_world = [(''tosak-cp-firewall'', [ssh_rule]), (''tosak-worker-firewall'', [])]"

lemma toy_laws: "firewall_laws toy_api map_of" "plan_read_only toy_planner (admits map_of)"
  by (auto simp: firewall_laws_def toy_api_def plan_read_only_def toy_planner_def)

definition applying :: mode where
  "applying = \<lparr>m_apply = True, m_allow_unexpected = False\<rparr>"

lemma toy_close_run:
  "fst (close_ssh (hetzner_gate toy_api toy_planner applying) (toy_world, [])) = Inr ()"
  by code_simp

theorem close_is_proved_witness:
  "admits map_of toy_world ''tosak-cp-firewall'' \<and>
   map (admits map_of (fst (snd (close_ssh (hetzner_gate toy_api toy_planner applying) (toy_world, [])))))
     (map gf_name all_fws) = [False, False]"
proof
  show "admits map_of toy_world ''tosak-cp-firewall''"
    by code_simp
  obtain r w' out' where
    run: "close_ssh (hetzner_gate toy_api toy_planner applying) (toy_world, []) = (r, w', out')"
    by (metis prod_cases3)
  with toy_close_run have "r = Inr ()" by simp
  with run show "map (admits map_of
      (fst (snd (close_ssh (hetzner_gate toy_api toy_planner applying) (toy_world, [])))))
      (map gf_name all_fws) = [False, False]"
    using close_is_proved [OF toy_laws, of applying toy_world "[]" w' out'] by (simp add: all_fws_def)
qed

lemma toy_open_run:
  "fst (open_ssh (hetzner_gate toy_api toy_planner applying) [control_plane_fw] (toy_world, [])) = Inr ()"
  by code_simp


end
