(* ===== verification/Stage.thy ===== *)
theory Stage
  imports Io
begin

section \<open>Package stage: the steps kluster takes on a host\<close>

text \<open>
  \<open>internal/stage/stage.go\<close>. A stage is an interface with a probe (the read-only proof), a preview
  and an act; \<open>run_stages\<close> runs a list of them on one host, in order, resuming past the ones whose
  probe says they are done. \<open>RunAll\<close> runs the list on several hosts at once: its hosts are
  machines that take one call each step (\<open>host_step\<close>), in any interleaving (\<open>ra_step\<close>), and the
  error group keeps the first error.
\<close>

subsection \<open>Data\<close>

record host =
  h_name :: string
  h_addr :: string
  h_connected :: bool  \<comment> \<open>\<open>h.Exec\<close> is not nil\<close>

record status =
  st_done :: bool
  st_detail :: string

record 'w stage =
  sg_name :: string
  sg_runbook :: string
  sg_probe :: "host \<Rightarrow> ('w, string, status) call"
  sg_preview :: "host \<Rightarrow> ('w, string, string) call"
  sg_act :: "host \<Rightarrow> ('w, string, unit) call"

datatype stage_error =
    ProbeFailed string string string
  | PreviewFailed string string string
  | ActFailed string string string
  | ReprobeFailed string string string
  | StillNotDone string string string

datatype stage_line =
    AlreadyDone string string string string
  | WouldRun string string string string
  | RunningLine string string string string
  | NowDone string string string

definition indent :: "string \<Rightarrow> string" where
  "indent s =
     (if s = [] then []
      else ''    '' @ join_str (NL # ''    '') (split_on NL (trim_right (\<lambda>c. c = NL) s)) @ [NL])"

subsection \<open>One host\<close>

definition run_stage :: "bool \<Rightarrow> host \<Rightarrow> 'w stage \<Rightarrow> ('w, stage_line, stage_error, unit) io" where
  "run_stage apply_mode h s =
     io_bind (io_map_err (ProbeFailed (h_name h) (sg_name s)) (io_call (sg_probe s h))) (\<lambda>st.
       if st_done st
       then io_say (AlreadyDone (h_name h) (sg_name s) (st_detail st) (sg_runbook s))
       else io_bind (io_map_err (PreviewFailed (h_name h) (sg_name s)) (io_call (sg_preview s h))) (\<lambda>text.
         if \<not> apply_mode
         then io_say (WouldRun (h_name h) (sg_name s) (sg_runbook s) (indent text))
         else io_bind (io_say (RunningLine (h_name h) (sg_name s) (sg_runbook s) (indent text))) (\<lambda>_.
              io_bind (io_map_err (ActFailed (h_name h) (sg_name s)) (io_call (sg_act s h))) (\<lambda>_.
              io_bind (io_map_err (ReprobeFailed (h_name h) (sg_name s)) (io_call (sg_probe s h))) (\<lambda>st'.
                if \<not> st_done st' then io_fail (StillNotDone (h_name h) (sg_name s) (st_detail st'))
                else io_say (NowDone (h_name h) (sg_name s) (st_detail st')))))))"

definition run_stages ::
  "bool \<Rightarrow> host \<Rightarrow> 'w stage list \<Rightarrow> ('w, stage_line, stage_error, unit) io" where
  "run_stages apply_mode h ss = io_each (run_stage apply_mode h) ss"

text \<open>\<open>PlanNew\<close>: the previews for a host that does not exist yet.\<close>

definition plan_new :: "'w stage list \<Rightarrow> string \<Rightarrow> ('w, stage_line, stage_error, unit) io" where
  "plan_new ss name =
     (let h = \<lparr>h_name = name, h_addr = [], h_connected = False\<rparr> in
      io_each (\<lambda>s.
        io_bind (io_map_err (PreviewFailed name (sg_name s)) (io_call (sg_preview s h))) (\<lambda>text.
          io_say (WouldRun name (sg_name s) (sg_runbook s) (indent text)))) ss)"

subsection \<open>What a stage promises\<close>

text \<open>
  The comments of the interface: a probe and a preview never write. \<open>obs\<close> is what the stages of
  the list can change of the world; \<open>holds s\<close> says in terms of it that stage \<open>s\<close> is done, and a
  probe that answers says the truth.
\<close>

definition stage_reads :: "('w \<Rightarrow> 's) \<Rightarrow> 'w stage \<Rightarrow> bool" where
  "stage_reads obs s \<longleftrightarrow>
     (\<forall>h w r w'. sg_probe s h w = (r, w') \<longrightarrow> obs w' = obs w) \<and>
     (\<forall>h w r w'. sg_preview s h w = (r, w') \<longrightarrow> obs w' = obs w)"

definition stage_truthful :: "('w \<Rightarrow> 's) \<Rightarrow> ('s \<Rightarrow> bool) \<Rightarrow> 'w stage \<Rightarrow> bool" where
  "stage_truthful obs done s \<longleftrightarrow>
     (\<forall>h w st w'. sg_probe s h w = (Inr st, w') \<longrightarrow> st_done st = done (obs w))"

text \<open>An act does not undo a stage that holds.\<close>

definition stage_preserves :: "('w \<Rightarrow> 's) \<Rightarrow> ('s \<Rightarrow> bool) \<Rightarrow> 'w stage \<Rightarrow> bool" where
  "stage_preserves obs done s \<longleftrightarrow>
     (\<forall>h w r w'. sg_act s h w = (r, w') \<longrightarrow> done (obs w) \<longrightarrow> done (obs w'))"

lemma stage_reads_probe: "stage_reads obs s \<Longrightarrow> sg_probe s h w = (r, w') \<Longrightarrow> obs w' = obs w"
  unfolding stage_reads_def by blast

lemma stage_reads_preview: "stage_reads obs s \<Longrightarrow> sg_preview s h w = (r, w') \<Longrightarrow> obs w' = obs w"
  unfolding stage_reads_def by blast

lemma stage_truthfulD:
  "stage_truthful obs done s \<Longrightarrow> sg_probe s h w = (Inr st, w') \<Longrightarrow> st_done st = done (obs w)"
  unfolding stage_truthful_def by blast

lemma stage_probeD:
  "stage_reads obs s \<Longrightarrow> stage_truthful obs done s \<Longrightarrow> sg_probe s h w = (Inr st, w') \<Longrightarrow>
     obs w' = obs w \<and> st_done st = done (obs w')"
  by (metis stage_reads_probe stage_truthfulD)

lemma stage_preservesD:
  "stage_preserves obs done s \<Longrightarrow> sg_act s h w = (r, w') \<Longrightarrow> done (obs w) \<Longrightarrow> done (obs w')"
  unfolding stage_preserves_def by blast

subsection \<open>Plan Mode writes nothing, an applied run proves every stage\<close>

lemma wp_run_stage_plan:
  assumes "stage_reads obs s"
  shows "wp (run_stage False h s) (\<lambda>_ w' _. obs w' = obs w) (\<lambda>_ w' _. obs w' = obs w) w out"
  unfolding run_stage_def
  by (auto simp: wp_simps dest!: stage_reads_probe [OF assms] stage_reads_preview [OF assms])

lemma wp_run_stages_plan:
  assumes "\<forall>s \<in> set ss. stage_reads obs s"
  shows "wp (run_stages False h ss) (\<lambda>_ w' _. obs w' = obs w) (\<lambda>_ w' _. obs w' = obs w) w out"
  unfolding run_stages_def
proof (rule wp_each)
  fix s w1 out1
  assume "s \<in> set ss" and "obs w1 = obs w"
  with assms wp_run_stage_plan [of obs s h w1 out1]
  show "wp (run_stage False h s) (\<lambda>_ w' _. obs w' = obs w) (\<lambda>_ w' _. obs w' = obs w) w1 out1"
    by simp
qed simp

text \<open>A run that finds a stage done leaves it; one that acts proves it by its own probe.\<close>

lemma wp_run_stage_holds:
  assumes "stage_reads obs s" and "stage_truthful obs done s"
  shows "wp (run_stage True h s) (\<lambda>_ w' _. done (obs w')) (\<lambda>_ _ _. True) w out"
  unfolding run_stage_def
  by (auto simp: wp_simps dest!: stage_probeD [OF assms])

lemma wp_run_stage_keeps:
  assumes "stage_reads obs s" and "stage_preserves obs done s" and "done (obs w)"
  shows "wp (run_stage m h s) (\<lambda>_ w' _. done (obs w')) (\<lambda>_ w' _. done (obs w')) w out"
  unfolding run_stage_def
  using assms(3)
  by (auto simp: wp_simps dest!: stage_reads_probe [OF assms(1)] stage_reads_preview [OF assms(1)]
      dest: stage_preservesD [OF assms(2)])

lemma wp_run_stages_keeps:
  assumes "\<forall>s \<in> set ss. stage_reads obs s \<and> stage_preserves obs done s" and "done (obs w)"
  shows "wp (run_stages m h ss) (\<lambda>_ w' _. done (obs w')) (\<lambda>_ w' _. done (obs w')) w out"
  unfolding run_stages_def
  by (rule wp_each) (use assms in \<open>auto intro: wp_run_stage_keeps\<close>)

text \<open>
  A family of stages that read only, tell the truth about \<open>holds s\<close>, and do not undo the stages
  before them.
\<close>

fun stages_ordered :: "('w \<Rightarrow> 's) \<Rightarrow> ('w stage \<Rightarrow> 's \<Rightarrow> bool) \<Rightarrow> 'w stage list \<Rightarrow> bool" where
  "stages_ordered obs holds [] = True"
| "stages_ordered obs holds (s # ss) =
     (stage_reads obs s \<and> stage_truthful obs (holds s) s \<and>
      (\<forall>t \<in> set ss. stage_preserves obs (holds s) t) \<and> stages_ordered obs holds ss)"

lemma stages_ordered_reads: "stages_ordered obs holds ss \<Longrightarrow> s \<in> set ss \<Longrightarrow> stage_reads obs s"
  by (induction ss) auto

lemma wp_run_stages_holds:
  assumes "stages_ordered obs holds ss"
  shows "wp (run_stages True h ss) (\<lambda>_ w' _. \<forall>s \<in> set ss. holds s (obs w')) (\<lambda>_ _ _. True) w out"
  using assms
proof (induction ss arbitrary: w out)
  case Nil
  then show ?case by (simp add: run_stages_def wp_simps)
next
  case (Cons s ss w out)
  from Cons.prems have s: "stage_reads obs s" "stage_truthful obs (holds s) s"
    and rest: "stages_ordered obs holds ss" and keep: "\<forall>t \<in> set ss. stage_preserves obs (holds s) t"
    by auto
  have "wp (run_stages True h ss) (\<lambda>_ w' _. \<forall>t \<in> set (s # ss). holds t (obs w')) (\<lambda>_ _ _. True) w1 out1"
    if "holds s (obs w1)" for w1 out1
  proof (rule wpI)
    fix a w' out' assume run: "run_stages True h ss (w1, out1) = (Inr a, w', out')"
    have "\<forall>t \<in> set ss. stage_reads obs t \<and> stage_preserves obs (holds s) t"
      using keep stages_ordered_reads [OF rest] by blast
    from wp_ok [OF wp_run_stages_keeps [OF this that] run] have "holds s (obs w')" .
    moreover from wp_ok [OF Cons.IH [OF rest] run] have "\<forall>t \<in> set ss. holds t (obs w')" .
    ultimately show "\<forall>t \<in> set (s # ss). holds t (obs w')" by simp
  qed simp
  then have "wp (run_stage True h s)
      (\<lambda>_. wp (run_stages True h ss) (\<lambda>_ w' _. \<forall>t \<in> set (s # ss). holds t (obs w')) (\<lambda>_ _ _. True))
      (\<lambda>_ _ _. True) w out"
    by (rule wp_mono [OF wp_run_stage_holds [OF s]]) simp
  then show ?case
    by (simp add: run_stages_def wp_simps)
qed

text \<open>A stage that is done is skipped: the run neither previews nor acts.\<close>

lemma run_stage_skips:
  assumes "stage_truthful obs done s" and "done (obs w)"
  shows "run_stage m h s (w, out) =
    (case sg_probe s h w of
       (Inl e, w') \<Rightarrow> (Inl (ProbeFailed (h_name h) (sg_name s) e), w', out)
     | (Inr st, w') \<Rightarrow> (Inr (), w', out @ [AlreadyDone (h_name h) (sg_name s) (st_detail st) (sg_runbook s)]))"
  using stage_truthfulD [OF assms(1), of h w] assms(2)
  by (auto simp: run_stage_def io_defs split: prod.splits sum.splits)

lemma wp_run_stages_resume:
  assumes "stages_ordered obs holds ss" and "\<forall>s \<in> set ss. holds s (obs w)"
  shows "wp (run_stages m h ss) (\<lambda>_ w' _. obs w' = obs w) (\<lambda>_ w' _. obs w' = obs w) w out"
  using assms
proof (induction ss arbitrary: w out)
  case Nil
  then show ?case by (simp add: run_stages_def wp_simps)
next
  case (Cons s ss w out)
  then have s: "stage_reads obs s" "stage_truthful obs (holds s) s" and hold: "holds s (obs w)"
    by auto
  have one: "wp (run_stage m h s) (\<lambda>_ w' _. obs w' = obs w) (\<lambda>_ w' _. obs w' = obs w) w out"
    using stage_reads_probe [OF s(1), of h w]
    by (auto simp: wp_def run_stage_skips [OF s(2) hold] split: prod.splits sum.splits)
  have rest: "wp (run_stages m h ss) (\<lambda>_ w' _. obs w' = obs w) (\<lambda>_ w' _. obs w' = obs w) w1 out1"
    if "obs w1 = obs w" for w1 out1
    using Cons.IH [of w1 out1] Cons.prems that by simp
  have "wp (run_stage m h s) (\<lambda>_. wp (run_stages m h ss) (\<lambda>_ w' _. obs w' = obs w) (\<lambda>_ w' _. obs w' = obs w))
      (\<lambda>_ w' _. obs w' = obs w) w out"
    by (rule wp_mono [OF one]) (auto intro: rest)
  then show ?case
    by (simp add: run_stages_def wp_simps)
qed

end
