(* ===== verification/StageAll.thy ===== *)
theory StageAll
  imports Stage
begin

section \<open>RunAll: the stages on every host at once\<close>

text \<open>
  \<open>RunAll\<close> starts one goroutine per host and waits for all of them; the error group keeps the
  first error and cancels nobody. A host's goroutine is a machine: \<open>host_step\<close> makes its next call
  on its own host's world (\<open>run_stages\<close> cut at its calls) and \<open>ra_step\<close> lets any unfinished host
  take its next step. The locked writer keeps whole lines; a host's machine keeps its own lines.
\<close>

subsection \<open>One goroutine\<close>

datatype pc = PcProbe | PcPreview | PcAct | PcReprobe

record 'w goroutine =
  gr_todo :: "'w stage list"
  gr_pc :: pc
  gr_world :: 'w
  gr_lines :: "stage_line list"
  gr_result :: "(stage_error + unit) option"

definition gr_start :: "'w stage list \<Rightarrow> 'w \<Rightarrow> stage_line list \<Rightarrow> 'w goroutine" where
  "gr_start ss w out =
     \<lparr>gr_todo = ss, gr_pc = PcProbe, gr_world = w, gr_lines = out, gr_result = None\<rparr>"

definition gr_fail :: "'w goroutine \<Rightarrow> 'w \<Rightarrow> stage_error \<Rightarrow> 'w goroutine" where
  "gr_fail g w e = g\<lparr>gr_world := w, gr_result := Some (Inl e)\<rparr>"

definition gr_next :: "'w goroutine \<Rightarrow> 'w \<Rightarrow> stage_line \<Rightarrow> 'w goroutine" where
  "gr_next g w l =
     g\<lparr>gr_todo := tl (gr_todo g), gr_pc := PcProbe, gr_world := w, gr_lines := gr_lines g @ [l]\<rparr>"

definition host_step :: "bool \<Rightarrow> host \<Rightarrow> 'w goroutine \<Rightarrow> 'w goroutine" where
  "host_step apply_mode h g =
     (if gr_result g \<noteq> None then g
      else case gr_todo g of
        [] \<Rightarrow> g\<lparr>gr_result := Some (Inr ())\<rparr>
      | s # _ \<Rightarrow>
          (case gr_pc g of
             PcProbe \<Rightarrow>
               (case sg_probe s h (gr_world g) of
                  (Inl e, w) \<Rightarrow> gr_fail g w (ProbeFailed (h_name h) (sg_name s) e)
                | (Inr st, w) \<Rightarrow>
                    if st_done st
                    then gr_next g w (AlreadyDone (h_name h) (sg_name s) (st_detail st) (sg_runbook s))
                    else g\<lparr>gr_pc := PcPreview, gr_world := w\<rparr>)
           | PcPreview \<Rightarrow>
               (case sg_preview s h (gr_world g) of
                  (Inl e, w) \<Rightarrow> gr_fail g w (PreviewFailed (h_name h) (sg_name s) e)
                | (Inr text, w) \<Rightarrow>
                    if \<not> apply_mode
                    then gr_next g w (WouldRun (h_name h) (sg_name s) (sg_runbook s) (indent text))
                    else g\<lparr>gr_pc := PcAct, gr_world := w, gr_lines := gr_lines g @
                           [RunningLine (h_name h) (sg_name s) (sg_runbook s) (indent text)]\<rparr>)
           | PcAct \<Rightarrow>
               (case sg_act s h (gr_world g) of
                  (Inl e, w) \<Rightarrow> gr_fail g w (ActFailed (h_name h) (sg_name s) e)
                | (Inr _, w) \<Rightarrow> g\<lparr>gr_pc := PcReprobe, gr_world := w\<rparr>)
           | PcReprobe \<Rightarrow>
               (case sg_probe s h (gr_world g) of
                  (Inl e, w) \<Rightarrow> gr_fail g w (ReprobeFailed (h_name h) (sg_name s) e)
                | (Inr st, w) \<Rightarrow>
                    if \<not> st_done st
                    then gr_fail g w (StillNotDone (h_name h) (sg_name s) (st_detail st))
                    else gr_next g w (NowDone (h_name h) (sg_name s) (st_detail st)))))"

definition finished :: "'w goroutine \<Rightarrow> bool" where
  "finished g \<longleftrightarrow> gr_result g \<noteq> None"

lemma host_step_finished [simp]: "finished g \<Longrightarrow> host_step m h g = g"
  by (simp add: host_step_def finished_def)

lemma host_steps_finished: "finished g \<Longrightarrow> (host_step m h ^^ k) g = g"
  by (induction k) auto

text \<open>Every step of an unfinished goroutine brings it nearer to its end.\<close>

fun pc_left :: "pc \<Rightarrow> nat" where
  "pc_left PcProbe = 3"
| "pc_left PcPreview = 2"
| "pc_left PcAct = 1"
| "pc_left PcReprobe = 0"

definition steps_left :: "'w goroutine \<Rightarrow> nat" where
  "steps_left g =
     (if finished g then 0
      else case gr_todo g of [] \<Rightarrow> 1 | _ # ss \<Rightarrow> 2 + 4 * length ss + pc_left (gr_pc g))"

lemma host_step_progress: "\<not> finished g \<Longrightarrow> steps_left (host_step m h g) < steps_left g"
  by (cases "gr_pc g")
    (auto simp: host_step_def steps_left_def finished_def gr_fail_def gr_next_def
      split: list.splits prod.splits sum.splits)

lemma host_steps_end: "\<exists>k. finished ((host_step m h ^^ k) g)"
proof (induction "steps_left g" arbitrary: g rule: less_induct)
  case less
  show ?case
  proof (cases "finished g")
    case True
    then show ?thesis by (intro exI [of _ 0]) simp
  next
    case False
    from less.hyps [OF host_step_progress [OF this]]
    obtain k where "finished ((host_step m h ^^ k) (host_step m h g))" by blast
    then show ?thesis by (intro exI [of _ "Suc k"]) (simp add: funpow_swap1)
  qed
qed

text \<open>The end a goroutine reaches: the state after as many steps as it has left.\<close>

definition host_run :: "bool \<Rightarrow> host \<Rightarrow> 'w goroutine \<Rightarrow> 'w goroutine" where
  "host_run m h g = (host_step m h ^^ steps_left g) g"

lemma host_run_finished: "finished (host_run m h g)"
proof -
  have "steps_left g \<le> n \<Longrightarrow> finished ((host_step m h ^^ n) g)" for n
  proof (induction n arbitrary: g)
    case 0
    then show ?case
      by (auto simp: steps_left_def finished_def split: if_splits list.splits)
  next
    case (Suc n)
    show ?case
    proof (cases "finished g")
      case True
      then show ?thesis by (simp add: host_steps_finished del: funpow.simps)
    next
      case False
      from host_step_progress [OF this, of m h] Suc.prems
      have "steps_left (host_step m h g) \<le> n" by simp
      from Suc.IH [OF this] show ?thesis by (simp add: funpow_swap1)
    qed
  qed
  then show ?thesis by (simp add: host_run_def)
qed

lemma host_steps_run:
  assumes "finished ((host_step m h ^^ k) g)"
  shows "(host_step m h ^^ k) g = host_run m h g"
proof (cases "k \<le> steps_left g")
  case True
  then have "host_run m h g = (host_step m h ^^ (steps_left g - k)) ((host_step m h ^^ k) g)"
    by (simp add: host_run_def flip: funpow_add [THEN fun_cong, simplified])
  with assms show ?thesis by (simp add: host_steps_finished)
next
  case False
  then have "(host_step m h ^^ k) g = (host_step m h ^^ (k - steps_left g)) (host_run m h g)"
    by (simp add: host_run_def flip: funpow_add [THEN fun_cong, simplified])
  then show ?thesis by (simp add: host_steps_finished host_run_finished)
qed

lemma host_run_step: "host_run m h (host_step m h g) = host_run m h g"
  using host_steps_run [where k = "Suc (steps_left (host_step m h g))" and m = m and h = h and g = g]
    host_run_finished [of m h "host_step m h g"]
  by (simp add: host_run_def funpow_swap1)

subsection \<open>The goroutine runs Run\<close>

text \<open>What the sequential run ends in, as the goroutine shows it.\<close>

lemma host_run_Nil:
  "host_run m h (gr_start [] w out) = (gr_start [] w out)\<lparr>gr_result := Some (Inr ())\<rparr>"
  by (subst host_run_step [symmetric])
    (simp add: host_run_def host_step_def gr_start_def steps_left_def finished_def)

lemma gr_next_start:
  "gr_next \<lparr>gr_todo = s # ss, gr_pc = p, gr_world = w, gr_lines = out, gr_result = None\<rparr> w' l =
     gr_start ss w' (out @ [l])"
  by (simp add: gr_next_def gr_start_def)

lemma host_run_fail [simp]: "host_run m h (gr_fail g w e) = gr_fail g w e"
  by (simp add: host_run_def steps_left_def finished_def gr_fail_def)

definition outcome :: "'w goroutine \<Rightarrow> (stage_error + unit) \<times> 'w \<times> stage_line list" where
  "outcome g = (the (gr_result g), gr_world g, gr_lines g)"

lemma host_run_Cons:
  "outcome (host_run m h (gr_start (s # ss) w out)) =
     (case run_stage m h s (w, out) of
        (Inl e, w', out') \<Rightarrow> (Inl e, w', out')
      | (Inr _, w', out') \<Rightarrow> outcome (host_run m h (gr_start ss w' out')))"
proof -
  note step = host_run_step [symmetric]
  define g1 where "g1 p w out = \<lparr>gr_todo = s # ss, gr_pc = p, gr_world = w, gr_lines = out, gr_result = None\<rparr>"
    for p and w :: 'a and out
  have pre: "host_run m1 h (g1 PcReprobe w out) =
      (case sg_probe s h w of
         (Inl e, w') \<Rightarrow> gr_fail (g1 PcReprobe w out) w' (ReprobeFailed (h_name h) (sg_name s) e)
       | (Inr st, w') \<Rightarrow>
           if \<not> st_done st
           then gr_fail (g1 PcReprobe w out) w' (StillNotDone (h_name h) (sg_name s) (st_detail st))
           else host_run m1 h (gr_start ss w' (out @ [NowDone (h_name h) (sg_name s) (st_detail st)])))" for m1 w out
    by (subst step) (simp add: host_step_def g1_def gr_next_start split: prod.split sum.split)
  have act: "host_run m1 h (g1 PcAct w out) =
      (case sg_act s h w of
         (Inl e, w') \<Rightarrow> gr_fail (g1 PcAct w out) w' (ActFailed (h_name h) (sg_name s) e)
       | (Inr _, w') \<Rightarrow> host_run m1 h (g1 PcReprobe w' out))" for m1 w out
    by (subst step) (simp add: host_step_def g1_def split: prod.split sum.split)
  have prev: "host_run m1 h (g1 PcPreview w out) =
      (case sg_preview s h w of
         (Inl e, w') \<Rightarrow> gr_fail (g1 PcPreview w out) w' (PreviewFailed (h_name h) (sg_name s) e)
       | (Inr text, w') \<Rightarrow>
           if \<not> m1
           then host_run m1 h (gr_start ss w' (out @ [WouldRun (h_name h) (sg_name s) (sg_runbook s) (indent text)]))
           else host_run m1 h (g1 PcAct w' (out @ [RunningLine (h_name h) (sg_name s) (sg_runbook s) (indent text)])))"
    for m1 w out
    by (subst step) (simp add: host_step_def g1_def gr_next_start split: prod.split sum.split)
  have probe: "host_run m h (gr_start (s # ss) w out) =
      (case sg_probe s h w of
         (Inl e, w') \<Rightarrow> gr_fail (g1 PcProbe w out) w' (ProbeFailed (h_name h) (sg_name s) e)
       | (Inr st, w') \<Rightarrow>
           if st_done st
           then host_run m h (gr_start ss w' (out @ [AlreadyDone (h_name h) (sg_name s) (st_detail st) (sg_runbook s)]))
           else host_run m h (g1 PcPreview w' out))"
    by (subst step) (simp add: host_step_def g1_def gr_start_def gr_next_start [unfolded gr_start_def]
        split: prod.split sum.split)
  have failed: "outcome (gr_fail (g1 p w out) w' e) = (Inl e, w', out)" for p w out w' e
    by (simp add: outcome_def gr_fail_def g1_def)
  obtain rp w1 where p: "sg_probe s h w = (rp, w1)" by (cases "sg_probe s h w")
  obtain rv w2 where v: "sg_preview s h w1 = (rv, w2)" by (cases "sg_preview s h w1")
  obtain ra w3 where a: "sg_act s h w2 = (ra, w3)" by (cases "sg_act s h w2")
  obtain rq w4 where q: "sg_probe s h w3 = (rq, w4)" by (cases "sg_probe s h w3")
  show ?thesis
    by (cases rp; cases rv; cases ra; cases rq)
      (simp_all add: p v a q probe prev act pre failed run_stage_def io_defs)
qed

text \<open>A goroutine run to its end has the result, the world and the lines of the sequential \<open>Run\<close>.\<close>

lemma host_run_is_run_stages:
  "run_stages m h ss (w, out) = outcome (host_run m h (gr_start ss w out))"
proof (induction ss arbitrary: w out)
  case Nil
  then show ?case
    by (simp add: host_run_Nil run_stages_def io_return_def outcome_def, simp add: gr_start_def)
next
  case (Cons s ss w out)
  obtain r w' out' where r: "run_stage m h s (w, out) = (r, w', out')"
    by (metis prod_cases3)
  then show ?case
    using Cons.IH [of w' out'] by (cases r) (simp_all add: host_run_Cons run_stages_def io_bind_def)
qed

subsection \<open>The group\<close>

text \<open>
  The goroutines by host index, and the first error the group saw. A step lets one unfinished
  goroutine make its next call; the group keeps an error when it has none yet.
\<close>

record 'w group =
  gp_run :: "nat \<Rightarrow> 'w goroutine"
  gp_err :: "stage_error option"

definition group_start :: "'w stage list \<Rightarrow> (nat \<Rightarrow> 'w) \<Rightarrow> 'w group" where
  "group_start ss ws = \<lparr>gp_run = (\<lambda>i. gr_start ss (ws i) []), gp_err = None\<rparr>"

definition keep_first :: "stage_error option \<Rightarrow> (stage_error + unit) option \<Rightarrow> stage_error option" where
  "keep_first err res =
     (case err of Some e \<Rightarrow> Some e
      | None \<Rightarrow> (case res of Some (Inl e) \<Rightarrow> Some e | _ \<Rightarrow> None))"

inductive ra_step :: "bool \<Rightarrow> host list \<Rightarrow> 'w group \<Rightarrow> 'w group \<Rightarrow> bool" for m hs where
  host_moves: "i < length hs \<Longrightarrow> \<not> finished (gp_run c i) \<Longrightarrow>
     g = host_step m (hs ! i) (gp_run c i) \<Longrightarrow>
     ra_step m hs c \<lparr>gp_run = (gp_run c)(i := g), gp_err = keep_first (gp_err c) (gr_result g)\<rparr>"

inductive_cases ra_stepE: "ra_step m hs c c'"

inductive ra_reach :: "bool \<Rightarrow> host list \<Rightarrow> 'w group \<Rightarrow> 'w group \<Rightarrow> bool" for m hs c where
  ra_refl: "ra_reach m hs c c"
| ra_more: "ra_reach m hs c d \<Longrightarrow> ra_step m hs d e \<Longrightarrow> ra_reach m hs c e"

text \<open>\<open>g.Wait()\<close> returns: every goroutine has finished.\<close>

definition all_finished :: "host list \<Rightarrow> 'w group \<Rightarrow> bool" where
  "all_finished hs c \<longleftrightarrow> (\<forall>i < length hs. finished (gp_run c i))"

text \<open>
  The invariant of the group: each goroutine is somewhere on its own run, untouched by the others,
  and the group's error is the error of a finished goroutine, if there is any.
\<close>

definition group_inv :: "bool \<Rightarrow> host list \<Rightarrow> 'w stage list \<Rightarrow> (nat \<Rightarrow> 'w) \<Rightarrow> 'w group \<Rightarrow> bool" where
  "group_inv m hs ss ws c \<longleftrightarrow>
     (\<forall>i < length hs. \<exists>k. gp_run c i = (host_step m (hs ! i) ^^ k) (gr_start ss (ws i) [])) \<and>
     (\<forall>i < length hs. \<forall>e. gr_result (gp_run c i) = Some (Inl e) \<longrightarrow> gp_err c \<noteq> None) \<and>
     (\<forall>e. gp_err c = Some e \<longrightarrow> (\<exists>i < length hs. gr_result (gp_run c i) = Some (Inl e)))"

lemma group_inv_start: "group_inv m hs ss ws (group_start ss ws)"
proof -
  have "\<exists>k. gr_start ss (ws i) [] = (host_step m (hs ! i) ^^ k) (gr_start ss (ws i) [])" for i
    by (rule exI [of _ 0]) simp
  then show ?thesis
    by (simp add: group_inv_def group_start_def gr_start_def)
qed

lemma keep_first_cases:
  "keep_first err res = Some e \<longleftrightarrow> err = Some e \<or> (err = None \<and> res = Some (Inl e))"
  by (auto simp: keep_first_def split: option.splits sum.splits)

lemma group_inv_step:
  assumes "ra_step m hs c c'" and inv: "group_inv m hs ss ws c"
  shows "group_inv m hs ss ws c'"
proof -
  obtain i g where host_moves:
      "c' = \<lparr>gp_run = (gp_run c)(i := g), gp_err = keep_first (gp_err c) (gr_result g)\<rparr>"
      "i < length hs" "\<not> finished (gp_run c i)" "g = host_step m (hs ! i) (gp_run c i)"
    using assms(1) by (blast elim: ra_stepE)
  have runs: "\<exists>k. gp_run c' j = (host_step m (hs ! j) ^^ k) (gr_start ss (ws j) [])" if j: "j < length hs" for j
  proof -
    obtain k where "gp_run c j = (host_step m (hs ! j) ^^ k) (gr_start ss (ws j) [])"
      using inv j unfolding group_inv_def by blast
    then show ?thesis
      using host_moves by (cases "j = i") (auto intro: exI [of _ "Suc k"])
  qed
  have kept: "gp_err c' \<noteq> None" if "j < length hs" "gr_result (gp_run c' j) = Some (Inl e)" for j e
    using that inv host_moves
    by (cases "j = i") (fastforce simp: group_inv_def keep_first_def split: option.splits)+
  have source: "\<exists>j < length hs. gr_result (gp_run c' j) = Some (Inl e)" if err: "gp_err c' = Some e" for e
  proof (cases "gp_err c = Some e")
    case True
    then obtain j where j: "j < length hs" "gr_result (gp_run c j) = Some (Inl e)"
      using inv unfolding group_inv_def by blast
    moreover from j host_moves have "j \<noteq> i" by (auto simp: finished_def)
    ultimately show ?thesis using host_moves by (intro exI [of _ j]) simp
  next
    case False
    with err host_moves show ?thesis
      by (intro exI [of _ i]) (simp add: keep_first_cases)
  qed
  from runs kept source show ?thesis
    unfolding group_inv_def by blast
qed

lemma group_inv_reach: "ra_reach m hs c d \<Longrightarrow> group_inv m hs ss ws c \<Longrightarrow> group_inv m hs ss ws d"
  by (induction rule: ra_reach.induct) (auto intro: group_inv_step)

text \<open>The group always gets to its end: every step leaves fewer steps to make.\<close>

definition group_left :: "host list \<Rightarrow> 'w group \<Rightarrow> nat" where
  "group_left hs c = (\<Sum>i < length hs. steps_left (gp_run c i))"

lemma group_progress:
  assumes "ra_step m hs c c'"
  shows "group_left hs c' < group_left hs c"
proof -
  obtain i g where host_moves:
      "c' = \<lparr>gp_run = (gp_run c)(i := g), gp_err = keep_first (gp_err c) (gr_result g)\<rparr>"
      "i < length hs" "\<not> finished (gp_run c i)" "g = host_step m (hs ! i) (gp_run c i)"
    using assms by (blast elim: ra_stepE)
  have split_i: "group_left hs d = steps_left (gp_run d i) + (\<Sum>j \<in> {..<length hs} - {i}. steps_left (gp_run d j))"
    for d :: "'a group"
    using host_moves(2) by (simp add: group_left_def sum.remove)
  have "(\<Sum>j \<in> {..<length hs} - {i}. steps_left (gp_run c' j)) =
      (\<Sum>j \<in> {..<length hs} - {i}. steps_left (gp_run c j))"
    using host_moves(1) by (intro sum.cong) auto
  moreover have "steps_left (gp_run c' i) < steps_left (gp_run c i)"
    using host_moves host_step_progress by simp
  ultimately show ?thesis by (simp add: split_i)
qed

lemma group_stuck_iff: "(\<forall>c'. \<not> ra_step m hs c c') \<longleftrightarrow> all_finished hs c"
  by (auto simp: all_finished_def elim!: ra_stepE intro: host_moves)

lemma group_finishes: "\<exists>d. ra_reach m hs c d \<and> all_finished hs d"
proof (induction "group_left hs c" arbitrary: c rule: less_induct)
  case less
  show ?case
  proof (cases "all_finished hs c")
    case True
    then show ?thesis by (blast intro: ra_refl)
  next
    case False
    then obtain c' where step: "ra_step m hs c c'"
      using group_stuck_iff by blast
    from less.hyps [OF group_progress [OF this]]
    obtain d where "ra_reach m hs c' d" and "all_finished hs d" by blast
    moreover from this(1) step have "ra_reach m hs c d"
      by (induction rule: ra_reach.induct) (auto intro: ra_reach.intros)
    ultimately show ?thesis by blast
  qed
qed

text \<open>At the end every host is where its own sequential run leaves it.\<close>

lemma group_end:
  assumes "ra_reach m hs (group_start ss ws) d" and "all_finished hs d" and "i < length hs"
  shows "outcome (gp_run d i) = run_stages m (hs ! i) ss (ws i, [])"
proof -
  have inv: "group_inv m hs ss ws d"
    using assms(1) group_inv_start by (rule group_inv_reach)
  then obtain k where k: "gp_run d i = (host_step m (hs ! i) ^^ k) (gr_start ss (ws i) [])"
    using assms(3) unfolding group_inv_def by blast
  have "finished (gp_run d i)"
    using assms(2,3) by (simp add: all_finished_def)
  with k have "gp_run d i = host_run m (hs ! i) (gr_start ss (ws i) [])"
    using host_steps_run by metis
  then show ?thesis by (simp add: host_run_is_run_stages)
qed

lemma group_end_error:
  assumes "ra_reach m hs (group_start ss ws) d" and "all_finished hs d"
  shows "gp_err d = Some e \<Longrightarrow> \<exists>i < length hs. fst (run_stages m (hs ! i) ss (ws i, [])) = Inl e"
    and "gp_err d = None \<Longrightarrow> \<forall>i < length hs. fst (run_stages m (hs ! i) ss (ws i, [])) = Inr ()"
proof -
  have inv: "group_inv m hs ss ws d"
    using assms(1) group_inv_start by (rule group_inv_reach)
  have res: "fst (run_stages m (hs ! i) ss (ws i, [])) = the (gr_result (gp_run d i))" if "i < length hs" for i
    by (simp add: outcome_def flip: group_end [OF assms that])
  show "\<exists>i < length hs. fst (run_stages m (hs ! i) ss (ws i, [])) = Inl e" if "gp_err d = Some e"
    using inv that res unfolding group_inv_def by fastforce
  show "\<forall>i < length hs. fst (run_stages m (hs ! i) ss (ws i, [])) = Inr ()" if none: "gp_err d = None"
  proof (intro allI impI)
    fix i assume i: "i < length hs"
    with assms(2) obtain r where r: "gr_result (gp_run d i) = Some r"
      by (auto simp: all_finished_def finished_def)
    with inv none i have "r = Inr ()"
      unfolding group_inv_def by (cases r) auto
    with res [OF i] r show "fst (run_stages m (hs ! i) ss (ws i, [])) = Inr ()" by simp
  qed
qed

subsection \<open>Properties\<close>

text \<open>Stages that leave a marker on the host: the smallest ones that keep the contract.\<close>

definition marker_stage :: "string \<Rightarrow> string list stage" where
  "marker_stage n =
     \<lparr>sg_name = n, sg_runbook = ''runbook'',
      sg_probe = (\<lambda>_ w. (Inr \<lparr>st_done = (n \<in> set w), st_detail = []\<rparr>, w)),
      sg_preview = (\<lambda>_ w. (Inr ''touch'', w)),
      sg_act = (\<lambda>_ w. (Inr (), n # w))\<rparr>"

definition marked :: "string list stage \<Rightarrow> string list \<Rightarrow> bool" where
  "marked s w \<longleftrightarrow> sg_name s \<in> set w"

lemma marker_stage_contract:
  "stage_reads (\<lambda>w. w) (marker_stage n)" "stage_truthful (\<lambda>w. w) (marked (marker_stage n)) (marker_stage n)"
  "stage_preserves (\<lambda>w. w) (marked s) (marker_stage n)"
  by (auto simp: stage_reads_def stage_truthful_def stage_preserves_def marker_stage_def marked_def)

lemma marker_stages_ordered: "stages_ordered (\<lambda>w. w) marked (map marker_stage ns)"
  by (induction ns) (auto simp: marker_stage_contract)

definition one_host :: host where
  "one_host = \<lparr>h_name = ''k8swk1'', h_addr = ''10.0.2.6'', h_connected = True\<rparr>"

text \<open>
  Plan Mode only probes and previews: whatever the stages, a run without \<open>--apply\<close> leaves the
  world they act on as it found it, whether it returns or fails.
\<close>

theorem plan_mode_writes_nothing:
  assumes "\<forall>s \<in> set ss. stage_reads obs s"
    and "run_stages False h ss (w, out) = (r, w', out')"
  shows "obs w' = obs w"
  using wp_run_stages_plan [OF assms(1), of h w out] assms(2)
  by (cases r) (auto dest: wp_ok wp_err)

theorem plan_mode_writes_nothing_witness:
  "fst (snd (run_stages False one_host [marker_stage ''a'', marker_stage ''b''] ([''b''], []))) = [''b'']"
proof -
  obtain r w' out' where
    run: "run_stages False one_host [marker_stage ''a'', marker_stage ''b''] ([''b''], []) = (r, w', out')"
    by (metis prod_cases3)
  with plan_mode_writes_nothing [OF _ run, of "\<lambda>w. w"] show ?thesis
    by (simp add: marker_stage_contract)
qed

text \<open>
  C5 An applied run that returns without an error has proved every stage by the stage's own probe,
  and they all still hold at its end; running the list again then acts on nothing (a run resumes
  where it stopped, and a finished one is a no-op). Assumed of the stages: probes and previews only
  read, a probe's answer is true, and no act undoes an earlier stage.
\<close>

theorem applied_run_proves_every_stage:
  assumes "stages_ordered obs holds ss"
    and "run_stages True h ss (w, out) = (Inr (), w', out')"
  shows "(\<forall>s \<in> set ss. holds s (obs w')) \<and>
    (\<forall>m out1 r w2 out2. run_stages m h ss (w', out1) = (r, w2, out2) \<longrightarrow> obs w2 = obs w')"
proof
  show all: "\<forall>s \<in> set ss. holds s (obs w')"
    using wp_ok [OF wp_run_stages_holds [OF assms(1)] assms(2)] .
  show "\<forall>m out1 r w2 out2. run_stages m h ss (w', out1) = (r, w2, out2) \<longrightarrow> obs w2 = obs w'"
  proof (intro allI impI)
    fix m out1 r w2 out2 assume "run_stages m h ss (w', out1) = (r, w2, out2)"
    with wp_run_stages_resume [OF assms(1) all, of m h out1] show "obs w2 = obs w'"
      by (cases r) (auto dest: wp_ok wp_err)
  qed
qed

theorem applied_run_proves_every_stage_witness:
  "map (\<lambda>s. marked s (fst (snd (run_stages True one_host (map marker_stage [''a'', ''b'']) ([''b''], [])))))
     (map marker_stage [''a'', ''b'']) = [True, True]"
proof -
  have run: "run_stages True one_host (map marker_stage [''a'', ''b'']) ([''b''], []) =
     (Inr (), [''a'', ''b''], snd (snd (run_stages True one_host (map marker_stage [''a'', ''b'']) ([''b''], []))))"
    by (simp add: run_stages_def run_stage_def marker_stage_def io_defs)
  from run have "fst (snd (run_stages True one_host (map marker_stage [''a'', ''b'']) ([''b''], []))) = [''a'', ''b'']"
    by (metis fst_conv snd_conv)
  with applied_run_proves_every_stage [OF marker_stages_ordered run] show ?thesis
    by simp
qed



text \<open>
  \<open>RunAll\<close> always returns: from any state of the group some interleaving finishes it, every step
  of any interleaving leaves strictly fewer steps to make, and no state is stuck before all the
  goroutines have finished.
\<close>

theorem run_all_returns:
  "(\<exists>d. ra_reach m hs c d \<and> all_finished hs d) \<and>
   (\<forall>c'. ra_step m hs c c' \<longrightarrow> group_left hs c' < group_left hs c) \<and>
   ((\<forall>c'. \<not> ra_step m hs c c') \<longleftrightarrow> all_finished hs c)"
  using group_finishes group_progress group_stuck_iff by blast

theorem run_all_returns_witness:
  "\<exists>d. ra_reach True [one_host, one_host] (group_start [marker_stage ''a''] (\<lambda>_. [])) d \<and>
     all_finished [one_host, one_host] d \<and> \<not> (\<exists>c'. ra_step True [one_host, one_host] d c')"
proof -
  obtain d where "ra_reach True [one_host, one_host] (group_start [marker_stage ''a''] (\<lambda>_. [])) d"
      "all_finished [one_host, one_host] d"
    using run_all_returns by blast
  with run_all_returns [of True "[one_host, one_host]" d] show ?thesis by blast
qed

end
