(* ===== verification/Netip.thy ===== *)
theory Netip
  imports Prelude "HOL-Library.Word" "HOL-Library.Product_Lexorder"
begin

section \<open>Package net/netip: addresses and prefixes\<close>

unbundle bit_operations_syntax

text \<open>
  The part of Go's \<open>net/netip\<close> that kluster uses: \<open>ParseAddr\<close>, \<open>ParsePrefix\<close>,
  \<open>Contains\<close>, \<open>Less\<close>, \<open>Next\<close>, \<open>String\<close>. An address keeps its width (32 or 128 bits), so
  \<open>Next\<close> wraps, and the wrapped address is the invalid \<open>Addr{}\<close>, here \<open>None\<close>. The order of the
  instance \<open>linorder\<close> is \<open>Addr.Compare\<close>: the width first, then the number, then the zone.
\<close>

datatype addr = V4 "32 word" | V6 "128 word" string

fun addr_key :: "addr \<Rightarrow> nat \<times> nat \<times> string" where
  "addr_key (V4 w) = (32, unat w, [])"
| "addr_key (V6 w z) = (128, unat w, z)"

lemma addr_key_inj: "addr_key a = addr_key b \<longleftrightarrow> a = b"
  by (cases a; cases b) (auto simp: word_unat_eq_iff)

instantiation addr :: linorder
begin

definition less_eq_addr :: "addr \<Rightarrow> addr \<Rightarrow> bool" where
  "less_eq_addr a b \<longleftrightarrow> addr_key a \<le> addr_key b"

definition less_addr :: "addr \<Rightarrow> addr \<Rightarrow> bool" where
  "less_addr a b \<longleftrightarrow> addr_key a < addr_key b"

instance
  by standard (auto simp: less_eq_addr_def less_addr_def addr_key_inj [symmetric])

end

fun addr_next :: "addr \<Rightarrow> addr option" where
  "addr_next (V4 w) = (if w + 1 = 0 then None else Some (V4 (w + 1)))"
| "addr_next (V6 w z) = (if w + 1 = 0 then None else Some (V6 (w + 1) z))"

subsection \<open>Parsing\<close>

definition parse_octet :: "string \<Rightarrow> nat option" where
  "parse_octet s =
     (if s \<noteq> [] \<and> list_all is_digit s \<and> (length s > 1 \<longrightarrow> hd s \<noteq> CHR ''0'') \<and> nat_of_digits s \<le> 255
      then Some (nat_of_digits s) else None)"

definition parse_v4_fields :: "string \<Rightarrow> nat list option" where
  "parse_v4_fields s =
     (let fs = map parse_octet (split_on CHR ''.'' s) in
      if length fs = 4 \<and> None \<notin> set fs then Some (map the fs) else None)"

definition v4_of :: "nat list \<Rightarrow> addr" where
  "v4_of fs = V4 (foldl (\<lambda>w f. w * 256 + of_nat f) 0 fs)"

definition hex_value :: "char \<Rightarrow> nat option" where
  "hex_value c =
     (if is_digit c then Some (digit_value c)
      else if c \<in> set ''abcdef'' then Some (of_char c - 87)
      else if c \<in> set ''ABCDEF'' then Some (of_char c - 55) else None)"

definition hex_group :: "string \<Rightarrow> nat" where
  "hex_group s = foldl (\<lambda>n c. n * 16 + the (hex_value c)) 0 s"

text \<open>
  The loop of \<open>parseIPv6\<close>: the groups still to read, the rest of the text, the groups read and
  where the \<open>::\<close> was.
\<close>

fun v6_groups :: "nat \<Rightarrow> string \<Rightarrow> nat list \<Rightarrow> nat option \<Rightarrow> (nat list \<times> nat option) option" where
  "v6_groups 0 s gs e = (if s = [] then Some (gs, e) else None)"
| "v6_groups (Suc k) s gs e =
     (let h = takeWhile (\<lambda>c. hex_value c \<noteq> None) s; rest = drop (length h) s; gs' = gs @ [hex_group h] in
      if h = [] \<or> length h > 4 then None
      else (case rest of
        [] \<Rightarrow> Some (gs', e)
      | c # r \<Rightarrow>
          if c = CHR ''.'' then
            if (e = None \<and> length gs \<noteq> 6) \<or> length gs > 6 then None
            else (case parse_v4_fields s of
                Some [a, b, c, d] \<Rightarrow> Some (gs @ [a * 256 + b, c * 256 + d], e)
              | _ \<Rightarrow> None)
          else if c \<noteq> CHR '':'' \<or> r = [] then None
          else if hd r = CHR '':'' then
            if e \<noteq> None then None
            else if tl r = [] then Some (gs', Some (length gs'))
            else v6_groups k (tl r) gs' (Some (length gs'))
          else v6_groups k r gs' e))"

definition v6_expand :: "nat list \<times> nat option \<Rightarrow> nat list option" where
  "v6_expand x = (case x of (gs, e) \<Rightarrow>
     (if length gs < 8 then
        (case e of None \<Rightarrow> None
         | Some i \<Rightarrow> Some (take i gs @ replicate (8 - length gs) 0 @ drop i gs))
      else if e \<noteq> None then None else Some gs))"

definition parse_v6 :: "string \<Rightarrow> addr option" where
  "parse_v6 inp =
     (let (s, zone) = (case cut_on CHR ''%'' inp of None \<Rightarrow> (inp, Some []) | Some (s, z) \<Rightarrow>
        (s, if z = [] then None else Some z)) in
      case zone of None \<Rightarrow> None
      | Some z \<Rightarrow>
          (let gs = (if take 2 s = ''::'' then
              if drop 2 s = [] then Some ([], Some 0) else v6_groups 8 (drop 2 s) [] (Some 0)
            else v6_groups 8 s [] None) in
           case gs of None \<Rightarrow> None
           | Some x \<Rightarrow> map_option (\<lambda>l. V6 (foldl (\<lambda>w g. w * 65536 + of_nat g) 0 l) z) (v6_expand x)))"

text \<open>\<open>ParseAddr\<close> looks for the first byte that tells the two families apart.\<close>

definition parse_addr :: "string \<Rightarrow> addr option" where
  "parse_addr s =
     (case filter (\<lambda>c. c \<in> set ''.:%'') s of
        [] \<Rightarrow> None
      | c # _ \<Rightarrow>
          if c = CHR ''.'' then map_option v4_of (parse_v4_fields s)
          else if c = CHR '':'' then parse_v6 s else None)"

record pfx =
  pf_addr :: addr
  pf_bits :: nat

fun bit_len :: "addr \<Rightarrow> nat" where
  "bit_len (V4 _) = 32"
| "bit_len (V6 _ _) = 128"

fun has_zone :: "addr \<Rightarrow> bool" where
  "has_zone (V4 _) = False"
| "has_zone (V6 _ z) = (z \<noteq> [])"

definition parse_prefix :: "string \<Rightarrow> pfx option" where
  "parse_prefix s =
     (case cut_on CHR ''/'' (rev s) of
        None \<Rightarrow> None
      | Some (rb, ra) \<Rightarrow>
          (case parse_addr (rev ra) of
             None \<Rightarrow> None
           | Some a \<Rightarrow>
               (let b = rev rb in
                if has_zone a \<or> b = [] \<or> \<not> list_all is_digit b \<or> (length b > 1 \<and> hd b = CHR ''0'')
                  \<or> nat_of_digits b > bit_len a
                then None else Some \<lparr>pf_addr = a, pf_bits = nat_of_digits b\<rparr>)))"

fun prefix_contains :: "pfx \<Rightarrow> addr \<Rightarrow> bool" where
  "prefix_contains p (V4 w) = (case pf_addr p of
     V4 v \<Rightarrow> drop_bit (32 - pf_bits p) (w XOR v) = 0 | V6 _ _ \<Rightarrow> False)"
| "prefix_contains p (V6 w z) = (z = [] \<and> (case pf_addr p of
     V6 v _ \<Rightarrow> drop_bit (128 - pf_bits p) (w XOR v) = 0 | V4 _ \<Rightarrow> False))"

subsection \<open>Printing\<close>

definition v4_octets :: "32 word \<Rightarrow> nat list" where
  "v4_octets w =
     [unat w div 16777216, unat w div 65536 mod 256, unat w div 256 mod 256, unat w mod 256]"

definition v4_string :: "32 word \<Rightarrow> string" where
  "v4_string w = join_str ''.'' (map string_of_nat (v4_octets w))"

definition hex_digit :: "nat \<Rightarrow> char" where
  "hex_digit n = (if n < 10 then char_of (48 + n) else char_of (87 + n))"

fun hex_string :: "nat \<Rightarrow> string" where
  "hex_string n = (if n < 16 then [hex_digit n] else hex_string (n div 16) @ [hex_digit (n mod 16)])"

declare hex_string.simps [simp del]

definition v6_words :: "128 word \<Rightarrow> nat list" where
  "v6_words w = map (\<lambda>i. unat w div 65536 ^ (7 - i) mod 65536) [0..<8]"

text \<open>The first longest run of at least two zero groups: its start and length.\<close>

fun zero_run :: "nat \<Rightarrow> nat list \<Rightarrow> nat \<times> nat \<Rightarrow> nat \<times> nat" where
  "zero_run i [] best = best"
| "zero_run i (g # gs) best =
     (let l = length (takeWhile (\<lambda>x. x = 0) (g # gs)) in
      zero_run (Suc i) gs (if l \<ge> 2 \<and> l > snd best then (i, l) else best))"

definition v6_string :: "128 word \<Rightarrow> string" where
  "v6_string w =
     (let gs = v6_words w; (i, l) = zero_run 0 gs (8, 0); hex = join_str '':'' \<circ> map hex_string in
      if l = 0 then hex gs else hex (take i gs) @ ''::'' @ hex (drop (i + l) gs))"

fun addr_string :: "addr \<Rightarrow> string" where
  "addr_string (V4 w) = v4_string w"
| "addr_string (V6 w z) =
     (if unat w div 4294967296 = 65535 then ''::ffff:'' @ v4_string (of_nat (unat w)) else v6_string w)
     @ (if z = [] then [] else CHR ''%'' # z)"

subsection \<open>Laws\<close>

lemma addr_le_V4 [simp]: "V4 v \<le> V4 w \<longleftrightarrow> v \<le> w" "V4 v < V4 w \<longleftrightarrow> v < w"
  by (auto simp: less_eq_addr_def less_addr_def less_prod_def less_eq_prod_def word_le_nat_alt word_less_nat_alt)

lemma addr_le_V6 [simp]: "V6 v z \<le> V6 w z \<longleftrightarrow> v \<le> w" "V6 v z < V6 w z \<longleftrightarrow> v < w"
  by (auto simp: less_eq_addr_def less_addr_def less_prod_def less_eq_prod_def word_le_nat_alt word_less_nat_alt)

lemma addr_family_lt [simp]: "V4 v < V6 w z" "\<not> V6 w z < V4 v" "V4 v \<le> V6 w z" "\<not> V6 w z \<le> V4 v"
  by (simp_all add: less_eq_addr_def less_addr_def less_prod_def less_eq_prod_def)

lemma addr_next_greater: "addr_next a = Some b \<Longrightarrow> a < b"
  by (cases a) (auto split: if_splits simp: word_less_nat_alt unatSuc add.commute [of _ 1])

lemma octets_join: "a * 16777216 + b * 65536 + c * 256 + d = ((a * 256 + b) * 256 + c) * 256 + (d :: nat)"
  by simp

lemma v4_octets_value: "foldl (\<lambda>n f. n * 256 + f) 0 (v4_octets w) = unat w"
proof -
  have "n div 16777216 * 16777216 + n div 65536 mod 256 * 65536 + n div 256 mod 256 * 256 + n mod 256 = n"
    for n :: nat
  proof -
    have "n = n div 256 * 256 + n mod 256" "n div 256 = n div 65536 * 256 + n div 256 mod 256"
      "n div 65536 = n div 16777216 * 256 + n div 65536 mod 256"
      using div_mult_mod_eq [of n 256] div_mult_mod_eq [of "n div 256" 256] div_mult_mod_eq [of "n div 65536" 256]
      by (simp_all add: div_mult2_eq [symmetric])
    then show ?thesis by linarith
  qed
 then show ?thesis by (simp add: v4_octets_def octets_join)
qed

lemma v4_of_nat: "v4_of fs = V4 (of_nat (foldl (\<lambda>n f. n * 256 + f) 0 fs))"
proof -
  have "foldl (\<lambda>w f. w * 256 + of_nat f) (of_nat n) fs = (of_nat (foldl (\<lambda>n f. n * 256 + f) n fs) :: 32 word)" for n
  proof (induction fs arbitrary: n)
    case (Cons a fs)
    show ?case using Cons [of "n * 256 + a"] by simp
  qed simp
  from this [of 0] show ?thesis by (simp add: v4_of_def)
qed

lemma v4_octets_le: "\<forall>n \<in> set (v4_octets w). n \<le> 255"
proof -
  have "unat w < 2 ^ 32" using unsigned_less [of w] by simp
  then have "unat w div 16777216 < 256" by (simp add: less_mult_imp_div_less)
  then show ?thesis by (auto simp: v4_octets_def)
qed

lemma parse_octet_string: "n \<le> 255 \<Longrightarrow> parse_octet (string_of_nat n) = Some n"
proof -
  assume n: "n \<le> 255"
  have "length (string_of_nat n) > 1 \<Longrightarrow> hd (string_of_nat n) \<noteq> CHR ''0''"
    using hd_string_of_nat [of n] by (cases "n = 0") (auto simp: string_of_nat.simps)
  with n show ?thesis
    using string_of_nat_digits [of n] by (simp add: parse_octet_def list_all_iff)
qed

lemma digit_not_sep: "is_digit c \<Longrightarrow> c \<noteq> CHR ''.'' \<and> c \<noteq> CHR '':'' \<and> c \<noteq> CHR ''%'' \<and> c \<noteq> CHR ''/''"
  by (auto simp: is_digit_def)

lemma split_v4_string: "split_on CHR ''.'' (v4_string w) = map string_of_nat (v4_octets w)"
  unfolding v4_string_def
  by (rule split_join) (auto simp: v4_octets_def dest!: bspec [OF string_of_nat_digits] digit_not_sep)

text \<open>The dotted form of an IPv4 address parses back to it.\<close>

theorem parse_v4_string: "parse_addr (addr_string (V4 w)) = Some (V4 w)"
proof -
  have "map parse_octet (map string_of_nat (v4_octets w)) = map Some (v4_octets w)"
    using v4_octets_le [of w] by (simp add: parse_octet_string)
  then have fields: "parse_v4_fields (v4_string w) = Some (v4_octets w)"
    by (simp add: parse_v4_fields_def split_v4_string v4_octets_def)
  have sep: "filter (\<lambda>c. c \<in> set ''.:%'') (string_of_nat n) = []" for n
    by (auto simp: filter_empty_conv dest!: bspec [OF string_of_nat_digits] digit_not_sep)
  have "filter (\<lambda>c. c \<in> set ''.:%'') (v4_string w) = ''...''"
    unfolding v4_string_def v4_octets_def by (simp only: join_str.simps list.map filter_append sep) simp
  then show ?thesis
    by (simp add: parse_addr_def fields v4_of_nat v4_octets_value)
qed

lemma parse_addr_no_space: "is_space c \<Longrightarrow> \<not> c \<in> set (v4_string w)"
  by (auto simp: v4_string_def v4_octets_def is_space_def dest!: bspec [OF string_of_nat_digits])
     (auto simp: is_digit_def)

end
