(* ===== verification/Wgconf.thy ===== *)
theory Wgconf
  imports Netip
begin

section \<open>wgconf/wgconf.go: the WireGuard config edited in place\<close>

text \<open>
  A wg-quick config as its lines. A section is a range of line numbers, header included and end
  exclusive, found by one pass over the lines as the code does it. \<open>set_hub\<close> rewrites the two
  lines of the one peer that routes the hub; \<open>add_peer\<close> appends a section and \<open>remove_peer\<close>
  cuts one out. Prefixes are those of \<open>Netip\<close>.
\<close>

record hub_peer =
  hp_public_key :: string
  hp_endpoint :: string

record wg_section =
  sec_name :: string
  sec_start :: nat
  sec_end :: nat

record peer =
  pe_name :: string
  pe_public_key :: string
  pe_allowed_ips :: string

datatype wg_error =
    NoHubPeer addr
  | ManyHubPeers nat addr
  | NoPublicKeyLine
  | KeyHeld string string
  | AllowedIPsHeld string string
  | NoPeerWithKey string

definition is_header :: "string \<Rightarrow> bool" where
  "is_header l = (let t = trim_space l in t \<noteq> [] \<and> hd t = CHR ''['' \<and> last t = CHR '']'')"

definition header_name :: "string \<Rightarrow> string" where
  "header_name l = (let b = (\<lambda>c. c \<in> set ''[]'') in to_lower (trim_right b (trim_left b (trim_space l))))"

definition close_last :: "nat \<Rightarrow> wg_section list \<Rightarrow> wg_section list" where
  "close_last i secs = (if secs = [] then [] else butlast secs @ [(last secs)\<lparr>sec_end := i\<rparr>])"

fun scan_sections :: "nat \<Rightarrow> string list \<Rightarrow> wg_section list \<Rightarrow> wg_section list" where
  "scan_sections i [] secs = close_last i secs"
| "scan_sections i (l # ls) secs =
     scan_sections (Suc i) ls
       (if is_header l
        then close_last i secs @ [\<lparr>sec_name = header_name l, sec_start = i, sec_end = 0\<rparr>] else secs)"

definition sections :: "string list \<Rightarrow> wg_section list" where
  "sections ls = scan_sections 0 ls []"

definition key_value :: "string \<Rightarrow> (string \<times> string) option" where
  "key_value line =
     (let t = trim_space line in
      if t = [] \<or> hd t = CHR ''#'' then None
      else map_option (\<lambda>(k, v). (to_lower (trim_space k), trim_space v)) (cut_on CHR ''='' t))"

definition slice :: "'a list \<Rightarrow> nat \<Rightarrow> nat \<Rightarrow> 'a list" where
  "slice xs i j = take (j - i) (drop i xs)"

abbreviation body :: "string list \<Rightarrow> wg_section \<Rightarrow> string list" where
  "body ls s \<equiv> slice ls (sec_start s) (sec_end s)"

definition routes :: "string \<Rightarrow> addr \<Rightarrow> bool" where
  "routes allowed ip =
     list_ex (\<lambda>p. case parse_prefix (trim_space p) of None \<Rightarrow> False | Some x \<Rightarrow> prefix_contains x ip)
       (split_on CHR '','' allowed)"

definition routes_hub :: "addr \<Rightarrow> string \<Rightarrow> bool" where
  "routes_hub ip l =
     (case key_value l of Some (k, v) \<Rightarrow> k = ''allowedips'' \<and> routes v ip | None \<Rightarrow> False)"

definition hub_section :: "string list \<Rightarrow> addr \<Rightarrow> wg_error + wg_section" where
  "hub_section ls ip =
     (case filter (\<lambda>s. sec_name s = ''peer'' \<and> list_ex (routes_hub ip) (body ls s)) (sections ls) of
        [s] \<Rightarrow> Inr s
      | [] \<Rightarrow> Inl (NoHubPeer ip)
      | found \<Rightarrow> Inl (ManyHubPeers (length found) ip))"

fun read_hub :: "string list \<Rightarrow> hub_peer \<Rightarrow> hub_peer" where
  "read_hub [] h = h"
| "read_hub (l # ls) h =
     read_hub ls (case key_value l of
         Some (k, v) \<Rightarrow>
           if k = ''publickey'' then h\<lparr>hp_public_key := v\<rparr>
           else if k = ''endpoint'' then h\<lparr>hp_endpoint := v\<rparr> else h
       | None \<Rightarrow> h)"

definition hub :: "string \<Rightarrow> addr \<Rightarrow> wg_error + hub_peer" where
  "hub conf ip =
     (let ls = split_on NL conf in
      result_bind (hub_section ls ip) (\<lambda>s.
        Inr (read_hub (body ls s) \<lparr>hp_public_key = [], hp_endpoint = []\<rparr>)))"

definition has_key :: "string \<Rightarrow> string \<Rightarrow> bool" where
  "has_key k l = (case key_value l of Some (k', _) \<Rightarrow> k' = k | None \<Rightarrow> False)"

text \<open>The last line from \<open>i\<close> on with the given key.\<close>

fun last_key :: "string \<Rightarrow> nat \<Rightarrow> string list \<Rightarrow> nat option \<Rightarrow> nat option" where
  "last_key k i [] at = at"
| "last_key k i (l # ls) at = last_key k (Suc i) ls (if has_key k l then Some i else at)"

definition public_key_line :: "string \<Rightarrow> string" where
  "public_key_line v = ''PublicKey = '' @ v"

definition endpoint_line :: "string \<Rightarrow> string" where
  "endpoint_line v = ''Endpoint = '' @ v"

definition set_hub :: "string \<Rightarrow> addr \<Rightarrow> hub_peer \<Rightarrow> wg_error + string" where
  "set_hub conf ip h =
     (let ls = split_on NL conf in
      result_bind (hub_section ls ip) (\<lambda>s.
        (let key_at = last_key ''publickey'' (sec_start s) (body ls s) None;
             endpoint_at = last_key ''endpoint'' (sec_start s) (body ls s) None;
             endpoint = endpoint_line (hp_endpoint h) in
         case key_at of
           None \<Rightarrow> Inl NoPublicKeyLine
         | Some k \<Rightarrow>
             (let ls' = ls[k := public_key_line (hp_public_key h)] in
              Inr (join_str [NL] (case endpoint_at of
                  Some e \<Rightarrow> ls'[e := endpoint]
                | None \<Rightarrow> take (Suc k) ls' @ endpoint # drop (Suc k) ls'))))))"

definition rehearsal_copy :: "string \<Rightarrow> string \<Rightarrow> string" where
  "rehearsal_copy laptop_address subnet =
     join_str [NL]
       [''# kluster rehearsal stand-in for the operator's wg0.conf. Never brought up:'',
        ''# the rehearsal proves the edit here, and the hub with kluster's own peer.'',
        ''[Interface]'', ''Address = '' @ laptop_address, ''PrivateKey = (not held by kluster)'', [],
        ''[Peer]'', ''# hub'', ''PublicKey = (set by kluster cp init)'', ''AllowedIPs = '' @ subnet,
        ''PersistentKeepalive = 25'', []]"

fun read_peer :: "string list \<Rightarrow> peer \<Rightarrow> peer" where
  "read_peer [] p = p"
| "read_peer (l # ls) p =
     (let t = trim_space l in
      if pe_name p = [] \<and> t \<noteq> [] \<and> hd t = CHR ''#''
      then read_peer ls (p\<lparr>pe_name := trim_space (tl t)\<rparr>)
      else read_peer ls (case key_value l of
          Some (k, v) \<Rightarrow>
            if k = ''publickey'' then p\<lparr>pe_public_key := v\<rparr>
            else if k = ''allowedips'' then p\<lparr>pe_allowed_ips := v\<rparr> else p
        | None \<Rightarrow> p))"

definition no_peer :: peer where
  "no_peer = \<lparr>pe_name = [], pe_public_key = [], pe_allowed_ips = []\<rparr>"

definition peers :: "string \<Rightarrow> peer list" where
  "peers conf =
     (let ls = split_on NL conf in
      map (\<lambda>s. read_peer (slice ls (Suc (sec_start s)) (sec_end s)) no_peer)
        (filter (\<lambda>s. sec_name s = ''peer'') (sections ls)))"

fun peer_conflict :: "peer list \<Rightarrow> peer \<Rightarrow> wg_error option" where
  "peer_conflict [] p = None"
| "peer_conflict (q # qs) p =
     (if pe_public_key q = pe_public_key p then Some (KeyHeld (pe_public_key p) (pe_name q))
      else if pe_allowed_ips q = pe_allowed_ips p then Some (AllowedIPsHeld (pe_name q) (pe_allowed_ips p))
      else peer_conflict qs p)"

definition peer_section :: "peer \<Rightarrow> string list" where
  "peer_section p =
     [''[Peer]'', ''# '' @ pe_name p, ''PublicKey  = '' @ pe_public_key p,
      ''AllowedIPs = '' @ pe_allowed_ips p, []]"

definition add_peer :: "string \<Rightarrow> peer \<Rightarrow> wg_error + string" where
  "add_peer conf p =
     (case peer_conflict (peers conf) p of
        Some e \<Rightarrow> Inl e
      | None \<Rightarrow> Inr (trim_right (\<lambda>c. c = NL) conf @ [NL, NL] @ join_str [NL] (peer_section p)))"

definition is_blank :: "string \<Rightarrow> bool" where
  "is_blank l \<longleftrightarrow> trim_space l = []"

definition drop_blank :: "string list \<Rightarrow> string list" where
  "drop_blank ls = rev (dropWhile is_blank (rev ls))"

definition holds_key :: "string \<Rightarrow> string \<Rightarrow> bool" where
  "holds_key k l \<longleftrightarrow> key_value l = Some (''publickey'', k)"

definition remove_peer :: "string \<Rightarrow> string \<Rightarrow> wg_error + string" where
  "remove_peer conf k =
     (let ls = split_on NL conf in
      case find (\<lambda>s. sec_name s = ''peer'' \<and> list_ex (holds_key k) (body ls s)) (sections ls) of
        None \<Rightarrow> Inl (NoPeerWithKey k)
      | Some s \<Rightarrow> Inr (join_str [NL] (drop_blank (take (sec_start s) ls) @ drop (sec_end s) ls)))"

subsection \<open>The sections of the lines\<close>

text \<open>
  The lemmas read the one-pass scan as a recursion on the lines: \<open>secs_at\<close> gives the ranges and
  \<open>blocks\<close> the named lines themselves. Both split over an append at a header.
\<close>

fun secs_at :: "nat \<Rightarrow> string list \<Rightarrow> wg_section list" where
  "secs_at i [] = []"
| "secs_at i (l # ls) =
     (if is_header l
      then [\<lparr>sec_name = header_name l, sec_start = i,
             sec_end = Suc i + length (takeWhile (\<lambda>l. \<not> is_header l) ls)\<rparr>]
      else []) @ secs_at (Suc i) ls"

fun blocks :: "string list \<Rightarrow> (string \<times> string list) list" where
  "blocks [] = []"
| "blocks (l # ls) =
     (if is_header l then [(header_name l, l # takeWhile (\<lambda>l. \<not> is_header l) ls)] else []) @ blocks ls"

definition starts_section :: "string list \<Rightarrow> bool" where
  "starts_section ls \<longleftrightarrow> ls = [] \<or> is_header (hd ls)"

lemma close_last_append [simp]: "close_last i (secs @ [s]) = secs @ [s\<lparr>sec_end := i\<rparr>]"
  by (simp add: close_last_def)

lemma scan_sections_eq:
  "scan_sections i ls secs =
     close_last (i + length (takeWhile (\<lambda>l. \<not> is_header l) ls)) secs @ secs_at i ls"
  by (induction ls arbitrary: i secs) simp_all

lemma sections_eq: "sections ls = secs_at 0 ls"
  by (simp add: sections_def scan_sections_eq close_last_def)

lemma takeWhile_section:
  "starts_section c \<Longrightarrow> takeWhile (\<lambda>l. \<not> is_header l) (a @ c) = takeWhile (\<lambda>l. \<not> is_header l) a"
  by (induction a) (auto simp: starts_section_def takeWhile_eq_Nil_iff)

lemma secs_at_append:
  "starts_section c \<Longrightarrow> secs_at i (a @ c) = secs_at i a @ secs_at (i + length a) c"
  by (induction a arbitrary: i) (simp_all add: takeWhile_section)

lemma blocks_append: "starts_section c \<Longrightarrow> blocks (a @ c) = blocks a @ blocks c"
  by (induction a) (simp_all add: takeWhile_section)

lemma blocks_no_header: "\<forall>l \<in> set ls. \<not> is_header l \<Longrightarrow> blocks ls = [] \<and> secs_at i ls = []"
  by (induction ls arbitrary: i) auto

lemma blocks_section:
  "is_header h \<Longrightarrow> \<forall>l \<in> set b. \<not> is_header l \<Longrightarrow> starts_section c \<Longrightarrow>
   blocks (a @ (h # b) @ c) = blocks a @ [(header_name h, h # b)] @ blocks c"
  using blocks_append [of "h # b @ c" a] blocks_append [of c "h # b"] blocks_no_header [of b]
  by (simp add: starts_section_def takeWhile_eq_all_conv [THEN iffD2])

lemma slice_append [simp]: "slice (a @ b @ c) (length a) (length a + length b) = b"
  by (simp add: slice_def)

lemma section_bodies:
  "map (\<lambda>s. (sec_name s, slice (a @ ls) (sec_start s) (sec_end s))) (secs_at (length a) ls) = blocks ls"
proof (induction ls arbitrary: a)
  case (Cons l ls)
  have "l # ls = (l # takeWhile (\<lambda>l. \<not> is_header l) ls) @ dropWhile (\<lambda>l. \<not> is_header l) ls"
    by simp
  then have "slice (a @ l # ls) (length a) (Suc (length a + length (takeWhile (\<lambda>l. \<not> is_header l) ls))) =
      l # takeWhile (\<lambda>l. \<not> is_header l) ls"
    using slice_append [of a "l # takeWhile (\<lambda>l. \<not> is_header l) ls" "dropWhile (\<lambda>l. \<not> is_header l) ls"]
    by simp
  with Cons.IH [of "a @ [l]"] show ?case by simp
qed simp

lemma sections_bodies: "map (\<lambda>s. (sec_name s, body ls s)) (sections ls) = blocks ls"
  using section_bodies [of "[]" ls] by (simp add: sections_eq)

lemma section_split:
  assumes "secs_at i ls = xs @ s # ys"
  shows "\<exists>a h b c. ls = a @ (h # b) @ c \<and> is_header h \<and> (\<forall>l \<in> set b. \<not> is_header l) \<and>
    starts_section c \<and> s = \<lparr>sec_name = header_name h, sec_start = i + length a,
      sec_end = i + length a + length (h # b)\<rparr> \<and> xs = secs_at i a"
  using assms
proof (induction ls arbitrary: i xs)
  case (Cons l ls)
  show ?case
  proof (cases "is_header l \<and> xs = []")
    case True
    let ?b = "takeWhile (\<lambda>l. \<not> is_header l) ls" and ?c = "dropWhile (\<lambda>l. \<not> is_header l) ls"
    have "starts_section ?c"
      using hd_dropWhile [of "\<lambda>l. \<not> is_header l" ls] by (auto simp: starts_section_def)
    moreover have "\<forall>l \<in> set ?b. \<not> is_header l"
      by (auto dest: set_takeWhileD)
    moreover have "l # ls = [] @ (l # ?b) @ ?c" by simp
    ultimately show ?thesis using True Cons.prems
      by (intro exI [of _ "[]"] exI [of _ l] exI [of _ ?b] exI [of _ ?c]) simp
  next
    case False
    let ?s = "\<lparr>sec_name = header_name l, sec_start = i,
             sec_end = Suc i + length (takeWhile (\<lambda>l. \<not> is_header l) ls)\<rparr>"
    from False obtain xs' where xs': "secs_at (Suc i) ls = xs' @ s # ys"
        "xs = (if is_header l then [?s] else []) @ xs'"
      using Cons.prems by (cases xs) (auto split: if_splits)
    from Cons.IH [OF xs'(1)] obtain a h b c where IH: "ls = a @ (h # b) @ c" "is_header h"
        "\<forall>l \<in> set b. \<not> is_header l" "starts_section c" "xs' = secs_at (Suc i) a"
        "s = \<lparr>sec_name = header_name h, sec_start = Suc i + length a, sec_end = Suc i + length a + length (h # b)\<rparr>"
      by blast
    have "takeWhile (\<lambda>l. \<not> is_header l) ls = takeWhile (\<lambda>l. \<not> is_header l) a"
      using IH takeWhile_section [of "(h # b) @ c" a] by (simp add: starts_section_def)
    then have "xs = secs_at i (l # a)"
      using xs'(2) IH(5) by simp
    with IH show ?thesis
      by (intro exI [of _ "l # a"] exI [of _ h] exI [of _ b] exI [of _ c]) simp
  qed
qed simp

subsection \<open>The hub's section\<close>

definition hub_block :: "addr \<Rightarrow> string \<times> string list \<Rightarrow> bool" where
  "hub_block ip x \<longleftrightarrow> fst x = ''peer'' \<and> list_ex (routes_hub ip) (snd x)"

lemma hub_filter:
  "map (\<lambda>s. (sec_name s, body ls s))
     (filter (\<lambda>s. sec_name s = ''peer'' \<and> list_ex (routes_hub ip) (body ls s)) (sections ls)) =
   filter (hub_block ip) (blocks ls)"
  unfolding sections_bodies [symmetric] filter_map comp_def hub_block_def by simp

lemma one_found:
  "(case xs of [s] \<Rightarrow> Inr s | [] \<Rightarrow> Inl (NoHubPeer ip) | found \<Rightarrow> Inl (ManyHubPeers (length found) ip)) = Inr s
   \<longleftrightarrow> xs = [s]"
proof (cases xs)
  case (Cons y ys)
  then show ?thesis by (cases ys) simp_all
qed simp

lemma filter_eq_single: "filter P xs = [s] \<Longrightarrow> P s \<and> (\<exists>us vs. xs = us @ s # vs)"
  by (auto simp: filter_eq_Cons_iff)

lemma hub_section_split:
  assumes "hub_section ls ip = Inr s"
  obtains a h b c where "ls = a @ (h # b) @ c" "is_header h" "\<forall>l \<in> set b. \<not> is_header l"
    "starts_section c" "hub_block ip (header_name h, h # b)" "sec_start s = length a" "body ls s = h # b"
    "filter (hub_block ip) (blocks a) = []" "filter (hub_block ip) (blocks c) = []"
proof -
  let ?P = "\<lambda>s. sec_name s = ''peer'' \<and> list_ex (routes_hub ip) (body ls s)"
  from assms have f: "filter ?P (sections ls) = [s]"
    by (simp only: hub_section_def one_found)
  note single = filter_eq_single [OF f]
  from single have P: "?P s" by (rule conjunct1)
  from single obtain xs ys where "sections ls = xs @ s # ys" by (elim conjE exE)
  then obtain a h b c where ls: "ls = a @ (h # b) @ c" "is_header h" "\<forall>l \<in> set b. \<not> is_header l"
      "starts_section c" "s = \<lparr>sec_name = header_name h, sec_start = length a,
         sec_end = length a + length (h # b)\<rparr>"
    using section_split [of 0 ls xs s ys] by (auto simp: sections_eq)
  then have bd: "body ls s = h # b" using slice_append [of a "h # b" c] by simp
  with P ls have hb: "hub_block ip (header_name h, h # b)" by (simp add: hub_block_def)
  have "length (filter (hub_block ip) (blocks ls)) = 1"
    unfolding hub_filter [of ls ip, symmetric] f by simp
  then have "length (filter (hub_block ip) (blocks a)) + length (filter (hub_block ip) (blocks c)) = 0"
    unfolding ls(1) blocks_section [OF ls(2-4)] using hb by simp
  then have "filter (hub_block ip) (blocks a) = []" "filter (hub_block ip) (blocks c) = []"
    by simp_all
  with that ls bd hb show ?thesis by simp
qed

lemma hub_of_block:
  assumes "ls = split_on NL conf" and "filter (hub_block ip) (blocks ls) = [(n, b)]"
  shows "hub conf ip = Inr (read_hub b \<lparr>hp_public_key = [], hp_endpoint = []\<rparr>)"
proof -
  obtain s where "filter (\<lambda>s. sec_name s = ''peer'' \<and> list_ex (routes_hub ip) (body ls s)) (sections ls) = [s]"
      "body ls s = b"
    using hub_filter [of ls ip] assms(2) by (auto simp: map_eq_Cons_conv)
  then show ?thesis using assms(1) by (simp add: hub_def hub_section_def)
qed

subsection \<open>Lines with a key\<close>

lemma key_value_line:
  assumes "k \<noteq> []" "\<not> is_space (hd k)" "hd k \<noteq> CHR ''#''" "CHR ''='' \<notin> set k" "trimmed v"
  shows "key_value (k @ ''= '' @ v) = Some (to_lower (trim_space k), v)"
proof -
  obtain v' where t: "trim_space (k @ ''= '' @ v) = k @ CHR ''='' # v'" "trim_space v' = v"
  proof (cases "v = []")
    case True
    have "trim_space (k @ ''= '') = k @ ''=''"
      using assms(1,2) trim_right_append_all [of "'' ''" is_space "k @ ''=''"]
      by (simp add: trim_space_def trim_left_id trim_right_id)
    with True that [of "[]"] show ?thesis by (simp add: trim_space_def trim_left_def trim_right_def)
  next
    case False
    with assms have "trimmed (k @ ''= '' @ v)" by (simp add: trimmed_def)
    with that [of "CHR '' '' # v"] assms(5) show ?thesis by (simp add: trim_space_id)
  qed
  with assms show ?thesis by (simp add: key_value_def cut_on_append)
qed

lemma not_header_line: "\<not> is_space c \<Longrightarrow> c \<noteq> CHR ''['' \<Longrightarrow> \<not> is_header (c # v)"
  by (simp add: is_header_def trim_space_Cons)

lemma key_value_hd:
  assumes "key_value l = Some (k, v)"
  shows "\<exists>c t. trim_space l = c # t \<and> (c = CHR ''='' \<or> k \<noteq> [] \<and> hd k = lower_char c)"
proof -
  let ?t = "trim_space l"
  from assms obtain a b where ab: "cut_on CHR ''='' ?t = Some (a, b)" "?t \<noteq> []" "k = to_lower (trim_space a)"
    by (auto simp: key_value_def Let_def split: if_splits)
  then have t: "?t = a @ CHR ''='' # b" using cut_on_Some by blast
  show ?thesis
  proof (cases a)
    case Nil
    with t show ?thesis by simp
  next
    case (Cons c a')
    with t hd_trim_space [of l] have "\<not> is_space c" by simp
    with Cons ab(3) have "k = lower_char c # to_lower (trim_right is_space a')"
      by (simp add: trim_space_Cons to_lower_def)
    with Cons t show ?thesis by simp
  qed
qed

lemma header_has_no_key: "is_header l \<Longrightarrow> k \<noteq> [] \<Longrightarrow> hd k \<noteq> CHR ''['' \<Longrightarrow> \<not> has_key k l"
  by (auto simp: has_key_def is_header_def Let_def lower_char_def dest!: key_value_hd split: option.splits)

lemma has_key_of: "key_value l = Some (k, v) \<Longrightarrow> has_key k' l = (k' = k)"
  by (auto simp: has_key_def)

lemma has_key_unique: "has_key k l \<Longrightarrow> has_key k' l \<Longrightarrow> k = k'"
  by (auto simp: has_key_def split: option.splits)

lemma last_key_snoc: "last_key k i (ls @ [l]) at = (if has_key k l then Some (i + length ls) else last_key k i ls at)"
  by (induction ls arbitrary: i at) auto

lemma last_key_Some:
  "last_key k i ls None = Some j \<Longrightarrow>
   \<exists>n < length ls. j = i + n \<and> has_key k (ls ! n) \<and> (\<forall>m < length ls. n < m \<longrightarrow> \<not> has_key k (ls ! m))"
proof (induction ls rule: rev_induct)
  case (snoc l ls)
  show ?case
  proof (cases "has_key k l")
    case True
    with snoc.prems have "j = i + length ls" by (simp add: last_key_snoc)
    with True show ?thesis by (intro exI [of _ "length ls"]) simp
  next
    case False
    with snoc.prems have "last_key k i ls None = Some j" by (simp add: last_key_snoc)
    from snoc.IH [OF this] obtain n where "n < length ls" "j = i + n" "has_key k (ls ! n)"
        "\<forall>m < length ls. n < m \<longrightarrow> \<not> has_key k (ls ! m)" by blast
    with False show ?thesis by (intro exI [of _ n]) (auto simp: nth_append)
  qed
qed simp

lemma last_key_None: "last_key k i ls None = None \<Longrightarrow> l \<in> set ls \<Longrightarrow> \<not> has_key k l"
  by (induction ls rule: rev_induct) (auto simp: last_key_snoc split: if_splits)

lemma read_hub_append: "read_hub (x @ y) h = read_hub y (read_hub x h)"
  by (induction x arbitrary: h) simp_all

lemma read_hub_keeps:
  "\<forall>l \<in> set ls. \<not> has_key ''publickey'' l \<Longrightarrow> hp_public_key (read_hub ls h) = hp_public_key h"
  "\<forall>l \<in> set ls. \<not> has_key ''endpoint'' l \<Longrightarrow> hp_endpoint (read_hub ls h) = hp_endpoint h"
  by (induction ls arbitrary: h) (auto simp: has_key_def split: option.splits)

lemma read_hub_at:
  assumes n: "n < length ls"
  shows "key_value (ls ! n) = Some (''publickey'', v) \<Longrightarrow>
      (\<And>m. m < length ls \<Longrightarrow> n < m \<Longrightarrow> \<not> has_key ''publickey'' (ls ! m)) \<Longrightarrow> hp_public_key (read_hub ls h) = v"
    and "key_value (ls ! n) = Some (''endpoint'', v) \<Longrightarrow>
      (\<And>m. m < length ls \<Longrightarrow> n < m \<Longrightarrow> \<not> has_key ''endpoint'' (ls ! m)) \<Longrightarrow> hp_endpoint (read_hub ls h) = v"
proof -
  have ls: "read_hub ls h = read_hub (drop (Suc n) ls) (read_hub [ls ! n] (read_hub (take n ls) h))"
    by (metis id_take_nth_drop [OF n] append_Cons append_Nil read_hub_append)
  { assume "key_value (ls ! n) = Some (''publickey'', v)"
      and later: "\<And>m. m < length ls \<Longrightarrow> n < m \<Longrightarrow> \<not> has_key ''publickey'' (ls ! m)"
    moreover have "\<forall>l \<in> set (drop (Suc n) ls). \<not> has_key ''publickey'' l"
      using later by (auto simp: in_set_conv_nth)
    ultimately show "hp_public_key (read_hub ls h) = v"
      by (simp add: ls read_hub_keeps) }
  { assume "key_value (ls ! n) = Some (''endpoint'', v)"
      and later: "\<And>m. m < length ls \<Longrightarrow> n < m \<Longrightarrow> \<not> has_key ''endpoint'' (ls ! m)"
    moreover have "\<forall>l \<in> set (drop (Suc n) ls). \<not> has_key ''endpoint'' l"
      using later by (auto simp: in_set_conv_nth)
    ultimately show "hp_endpoint (read_hub ls h) = v"
      by (simp add: ls read_hub_keeps) }
qed

lemma filter_update: "n < length xs \<Longrightarrow> \<not> Q (xs ! n) \<Longrightarrow> \<not> Q v \<Longrightarrow> filter Q (xs[n := v]) = filter Q xs"
  by (subst (2) id_take_nth_drop [of n xs]) (auto simp: upd_conv_take_nth_drop)

lemma filter_insert: "\<not> Q v \<Longrightarrow> filter Q (take n xs @ v # drop n xs) = filter Q xs"
  by (metis append_take_drop_id filter.simps(2) filter_append)

subsection \<open>The edit of one section\<close>

definition edited :: "hub_peer \<Rightarrow> string list \<Rightarrow> string list \<Rightarrow> bool" where
  "edited hp b b' \<longleftrightarrow>
     b' \<noteq> [] \<and> hd b' = hd b \<and> (\<forall>l \<in> set (tl b'). \<not> is_header l) \<and>
     filter (\<lambda>l. \<not> has_key ''publickey'' l \<and> \<not> has_key ''endpoint'' l) b' =
       filter (\<lambda>l. \<not> has_key ''publickey'' l \<and> \<not> has_key ''endpoint'' l) b \<and>
     read_hub b' \<lparr>hp_public_key = [], hp_endpoint = []\<rparr> = hp"

definition value_ok :: "string \<Rightarrow> bool" where
  "value_ok v \<longleftrightarrow> trimmed v \<and> NL \<notin> set v"

lemma key_names:
  "to_lower (trim_space ''PublicKey '') = ''publickey''" "to_lower (trim_space ''PublicKey  '') = ''publickey''"
  "to_lower (trim_space ''Endpoint '') = ''endpoint''" "to_lower (trim_space ''AllowedIPs '') = ''allowedips''"
  by code_simp+

lemma hub_lines:
  assumes "value_ok v"
  shows "key_value (public_key_line v) = Some (''publickey'', v)"
    and "key_value (endpoint_line v) = Some (''endpoint'', v)"
    and "\<not> is_header (public_key_line v)" and "\<not> is_header (endpoint_line v)"
  using assms key_value_line [of "''PublicKey ''" v] key_value_line [of "''Endpoint ''" v]
    not_header_line [of "CHR ''P''" "''ublicKey = '' @ v"] not_header_line [of "CHR ''E''" "''ndpoint = '' @ v"]
  by (simp_all add: value_ok_def is_space_def key_names public_key_line_def endpoint_line_def)

lemma edit_section:
  assumes sec: "b \<noteq> []" "is_header (hd b)" "\<forall>l \<in> set (tl b). \<not> is_header l"
    and ok: "value_ok (hp_public_key hp)" "value_ok (hp_endpoint hp)"
    and k: "last_key ''publickey'' s b None = Some (s + n)"
    and e: "e = last_key ''endpoint'' s b None"
    and x: "x = b[n := public_key_line (hp_public_key hp)]"
    and b': "b' = (case e of Some m \<Rightarrow> x[m - s := endpoint_line (hp_endpoint hp)]
        | None \<Rightarrow> take (Suc n) x @ endpoint_line (hp_endpoint hp) # drop (Suc n) x)"
  shows "edited hp b b'"
proof -
  let ?K = "public_key_line (hp_public_key hp)" and ?E = "endpoint_line (hp_endpoint hp)"
  let ?Q = "\<lambda>l. \<not> has_key ''publickey'' l \<and> \<not> has_key ''endpoint'' l"
  note K = hub_lines(1) [OF ok(1)] hub_lines(3) [OF ok(1)] and E = hub_lines(2) [OF ok(2)] hub_lines(4) [OF ok(2)]
  have hK: "has_key ''publickey'' ?K" "\<not> has_key ''endpoint'' ?K"
    and hE: "has_key ''endpoint'' ?E" "\<not> has_key ''publickey'' ?E"
    using has_key_of [OF K(1)] has_key_of [OF E(1)] by simp_all
  from last_key_Some [OF k] have n: "n < length b" "has_key ''publickey'' (b ! n)"
      "\<And>m. m < length b \<Longrightarrow> n < m \<Longrightarrow> \<not> has_key ''publickey'' (b ! m)" by auto
  have hdr: "\<not> has_key ''publickey'' (b ! 0)" "\<not> has_key ''endpoint'' (b ! 0)"
    using header_has_no_key [OF sec(2)] sec(1) by (simp_all add: hd_conv_nth)
  with n(2) have n0: "n \<noteq> 0" by (cases n) auto
  have len: "length x = length b" by (simp add: x)
  have fx: "filter ?Q x = filter ?Q b"
    unfolding x using n hK by (intro filter_update) auto
  have x_sec: "x \<noteq> []" "hd x = hd b" "\<forall>l \<in> set (tl x). \<not> is_header l"
    using sec n0 K(2) unfolding x
    by (cases b; cases n; force dest!: set_update_subset_insert [THEN subsetD])+
  show ?thesis
  proof (cases e)
    case None
    have noE: "\<And>l. l \<in> set b \<Longrightarrow> \<not> has_key ''endpoint'' l"
      using last_key_None e None by metis
    have b'n: "b' = take (Suc n) x @ ?E # drop (Suc n) x"
      by (simp add: b' None)
    have dx: "drop (Suc n) x = drop (Suc n) b" by (simp add: x)
    have "\<forall>l \<in> set (drop (Suc n) b). \<not> has_key ''publickey'' l"
      using n(3) by (auto simp: in_set_conv_nth)
    moreover have "\<forall>l \<in> set (drop (Suc n) b). \<not> has_key ''endpoint'' l"
      using noE by (meson in_set_dropD)
    moreover have "take (Suc n) x = take n b @ [?K]"
      using n(1) by (simp add: x take_Suc_conv_app_nth)
    ultimately have "read_hub b' \<lparr>hp_public_key = [], hp_endpoint = []\<rparr> = hp"
      unfolding b'n dx by (simp add: read_hub_append read_hub_keeps K E)
    moreover have "filter ?Q b' = filter ?Q b"
      unfolding b'n using filter_insert [of ?Q ?E "Suc n" x] hE fx by simp
    moreover have "b' \<noteq> [] \<and> hd b' = hd b \<and> (\<forall>l \<in> set (tl b'). \<not> is_header l)"
      using x_sec E(2) unfolding b'n by (cases x) (auto dest: in_set_takeD in_set_dropD)
    ultimately show ?thesis by (simp add: edited_def)
  next
    case (Some m)
    with e last_key_Some [of "''endpoint''" s b m] obtain p where p: "m = s + p" "p < length b"
        "has_key ''endpoint'' (b ! p)" "\<And>m. m < length b \<Longrightarrow> p < m \<Longrightarrow> \<not> has_key ''endpoint'' (b ! m)"
      by metis
    have b'n: "b' = x[p := ?E]" by (simp add: b' Some p(1))
    have np: "n \<noteq> p" using n(2) p(3) has_key_unique by fastforce
    from p(3) hdr have p0: "p \<noteq> 0" by (cases p) auto
    have lb: "length b' = length b" by (simp add: b'n len)
    have at: "b' ! m = (if m = p then ?E else if m = n then ?K else b ! m)" if "m < length b" for m
      using that by (simp add: b'n len x nth_list_update)
    have "hp_public_key (read_hub b' h0) = hp_public_key hp" for h0
      by (rule read_hub_at(1) [of n]) (simp_all add: lb at n np K hE)
    moreover have "hp_endpoint (read_hub b' h0) = hp_endpoint hp" for h0
      by (rule read_hub_at(2) [of p]) (simp_all add: lb at p np E hK)
    moreover have "filter ?Q b' = filter ?Q b"
      unfolding b'n fx [symmetric]
      by (rule filter_update) (use p np hE len x in \<open>auto simp: nth_list_update\<close>)
    moreover have "b' \<noteq> [] \<and> hd b' = hd b \<and> (\<forall>l \<in> set (tl b'). \<not> is_header l)"
      using x_sec p0 E(2) unfolding b'n
      by (cases x; cases p; force dest!: set_update_subset_insert [THEN subsetD])
    ultimately show ?thesis by (simp add: edited_def)
  qed
qed

lemma split_lines_no_NL: "l \<in> set (split_on NL conf) \<Longrightarrow> NL \<notin> set l"
  using split_by_parts [of l "\<lambda>x. x = NL" conf NL] by blast

lemma edited_routes:
  assumes "edited hp b b'" and "list_ex (routes_hub ip) b"
  shows "list_ex (routes_hub ip) b'"
proof -
  let ?Q = "\<lambda>l. \<not> has_key ''publickey'' l \<and> \<not> has_key ''endpoint'' l"
  from assms(2) obtain l where l: "l \<in> set b" "routes_hub ip l" by (auto simp: list_ex_iff)
  then have "?Q l" by (auto simp: routes_hub_def has_key_def split: option.splits)
  with l have "l \<in> set (filter ?Q b)" by simp
  then have "l \<in> set (filter ?Q b')" using assms(1) by (simp add: edited_def)
  with l(2) show ?thesis by (auto simp: list_ex_iff)
qed

lemma set_hub_split:
  assumes "set_hub conf ip h = Inr conf'" and ok: "value_ok (hp_public_key h)" "value_ok (hp_endpoint h)"
  obtains a b b' c where "split_on NL conf = a @ b @ c" "split_on NL conf' = a @ b' @ c"
    "is_header (hd b)" "\<forall>l \<in> set (tl b). \<not> is_header l" "edited h b b'" "hub conf' ip = Inr h"
proof -
  let ?ls = "split_on NL conf"
  from assms(1) obtain s where s: "hub_section ?ls ip = Inr s"
    by (auto simp: set_hub_def Let_def result_bind_Inr)
  from hub_section_split [OF s] obtain a hd' tl' c where sec: "?ls = a @ (hd' # tl') @ c" "is_header hd'"
      "\<forall>l \<in> set tl'. \<not> is_header l" "starts_section c" "hub_block ip (header_name hd', hd' # tl')"
      "sec_start s = length a" "body ?ls s = hd' # tl'"
      "filter (hub_block ip) (blocks a) = []" "filter (hub_block ip) (blocks c) = []"
    by metis
  define b where "b = hd' # tl'"
  have bd: "slice ?ls (length a) (sec_end s) = b" using sec(6,7) by (simp add: b_def)
  define e where "e = last_key ''endpoint'' (length a) b None"
  from assms(1) s obtain k where k: "last_key ''publickey'' (length a) b None = Some k"
    by (auto simp: set_hub_def Let_def sec(6) bd split: option.splits)
  then obtain n where n: "k = length a + n" "n < length b" using last_key_Some by blast
  define x where "x = b[n := public_key_line (hp_public_key h)]"
  define b' where "b' = (case e of Some m \<Rightarrow> x[m - length a := endpoint_line (hp_endpoint h)]
        | None \<Rightarrow> take (Suc n) x @ endpoint_line (hp_endpoint h) # drop (Suc n) x)"
  have len: "length x = length b" by (simp add: x_def)
  have lsx: "?ls[k := public_key_line (hp_public_key h)] = a @ x @ c"
    using n by (simp add: sec(1) b_def [symmetric] x_def list_update_append)
  have ed: "edited h b b'"
    by (rule edit_section [OF _ _ _ ok _ e_def x_def b'_def]) (use sec k n in \<open>simp_all add: b_def\<close>)
  have "(case e of Some m \<Rightarrow> (a @ x @ c)[m := endpoint_line (hp_endpoint h)]
      | None \<Rightarrow> take (Suc k) (a @ x @ c) @ endpoint_line (hp_endpoint h) # drop (Suc k) (a @ x @ c)) = a @ b' @ c"
  proof (cases e)
    case None
    with n len show ?thesis by (simp add: b'_def)
  next
    case (Some m)
    with e_def last_key_Some [of "''endpoint''" "length a" b m] obtain p where "m = length a + p" "p < length b"
      by metis
    with Some len show ?thesis by (simp add: b'_def list_update_append)
  qed
  then have conf': "conf' = join_str [NL] (a @ b' @ c)"
    using assms(1) s k
    by (simp add: set_hub_def Let_def sec(6) bd e_def [symmetric] lsx)
  have noNL: "NL \<notin> set l" if "l \<in> set (a @ b' @ c)" for l
  proof -
    have "NL \<notin> set (public_key_line (hp_public_key h))" "NL \<notin> set (endpoint_line (hp_endpoint h))"
      using ok by (simp_all add: value_ok_def public_key_line_def endpoint_line_def)
    moreover have "set x \<subseteq> insert (public_key_line (hp_public_key h)) (set b)"
      unfolding x_def by (rule set_update_subset_insert)
    moreover have "set b' \<subseteq> insert (endpoint_line (hp_endpoint h)) (set x)"
      unfolding b'_def
      by (auto split: option.splits dest: in_set_takeD in_set_dropD set_update_subset_insert [THEN subsetD])
    ultimately show ?thesis
      using that split_lines_no_NL [of l conf] by (auto simp: sec(1) b_def)
  qed
  have ls': "split_on NL conf' = a @ b' @ c"
    unfolding conf' using ed noNL by (intro split_join) (auto simp: edited_def)
  from ed obtain b2 where b2: "b' = hd' # b2" "\<forall>l \<in> set b2. \<not> is_header l"
    by (cases b') (auto simp: edited_def b_def)
  have "hub_block ip (header_name hd', b')"
    using sec(5) edited_routes [OF ed, of ip] by (simp add: hub_block_def b_def)
  then have "filter (hub_block ip) (blocks (a @ b' @ c)) = [(header_name hd', b')]"
    using blocks_section [OF sec(2) b2(2) sec(4), of a] sec(8,9) by (simp add: b2(1))
  from hub_of_block [OF ls' [symmetric] this] have "hub conf' ip = Inr h"
    using ed by (simp add: edited_def)
  with that [of a b c b'] sec ls' ed show ?thesis by (simp add: b_def)
qed

subsection \<open>The peers\<close>

definition view :: "string list \<Rightarrow> peer list" where
  "view ls = map (\<lambda>x. read_peer (tl (snd x)) no_peer) (filter (\<lambda>x. fst x = ''peer'') (blocks ls))"

lemma slice_Suc: "slice xs (Suc i) j = tl (slice xs i j)"
  by (simp add: slice_def tl_take drop_Suc tl_drop)

lemma peers_view: "peers conf = view (split_on NL conf)"
  unfolding peers_def view_def Let_def sections_bodies [symmetric]
  by (simp add: filter_map comp_def slice_Suc)

lemma view_append: "starts_section c \<Longrightarrow> view (a @ c) = view a @ view c"
  by (simp add: view_def blocks_append)

lemma blank_no_header: "is_blank l \<Longrightarrow> \<not> is_header l"
  by (simp add: is_blank_def is_header_def)

lemma read_peer_blank: "\<forall>l \<in> set bs. is_blank l \<Longrightarrow> read_peer (b @ bs) p = read_peer b p"
proof (induction b p rule: read_peer.induct)
  case (1 p)
  then show ?case by (induction bs) (simp_all add: is_blank_def key_value_def)
qed (simp add: Let_def)

lemma view_blank: "\<forall>l \<in> set bs. is_blank l \<Longrightarrow> view (ls @ bs) = view ls"
proof (induction ls)
  case Nil
  then show ?case using blocks_no_header [of bs] blank_no_header by (auto simp: view_def)
next
  case (Cons l ls)
  have "takeWhile (\<lambda>l. \<not> is_header l) bs = bs" using Cons.prems blank_no_header by (simp add: takeWhile_eq_all_conv)
  then have "read_peer (takeWhile (\<lambda>l. \<not> is_header l) (ls @ bs)) no_peer =
      read_peer (takeWhile (\<lambda>l. \<not> is_header l) ls) no_peer"
    using read_peer_blank [OF Cons.prems, of ls no_peer]
    by (cases "\<exists>x \<in> set ls. is_header x") (auto simp: takeWhile_append1 takeWhile_append2 takeWhile_eq_all_conv [THEN iffD2])
  with Cons show ?case by (simp add: view_def)
qed

lemma drop_blank_split: "\<exists>bs. ls = drop_blank ls @ bs \<and> (\<forall>l \<in> set bs. is_blank l)"
proof -
  have "rev ls = takeWhile is_blank (rev ls) @ dropWhile is_blank (rev ls)" by simp
  then have "ls = rev (dropWhile is_blank (rev ls)) @ rev (takeWhile is_blank (rev ls))"
    by (metis rev_append rev_rev_ident)
  moreover have "\<forall>l \<in> set (rev (takeWhile is_blank (rev ls))). is_blank l"
    by (auto dest: set_takeWhileD)
  ultimately show ?thesis unfolding drop_blank_def by blast
qed

lemma view_drop_blank: "view (drop_blank ls) = view ls"
  using drop_blank_split [of ls] view_blank by metis

lemma split_trailing_NL: "\<forall>c \<in> set t. c = NL \<Longrightarrow> split_on NL (s @ t) = split_on NL s @ replicate (length t) []"
proof (induction t arbitrary: s)
  case (Cons c t)
  then have "split_on NL (s @ c # t) = split_on NL s @ split_on NL ([] @ t)"
    by (simp add: split_by_append_sep)
  also have "split_on NL ([] @ t) = [] # replicate (length t) []"
    using Cons.IH [of "[]"] Cons.prems by simp
  finally show ?case by simp
qed simp

lemma conf_trimmed:
  "\<exists>n. split_on NL conf = split_on NL (trim_right (\<lambda>c. c = NL) conf) @ replicate n []"
proof -
  from trim_right_decomp [of conf "\<lambda>c. c = NL"] obtain t
    where t: "conf = trim_right (\<lambda>c. c = NL) conf @ t" "\<forall>c \<in> set t. c = NL" by blast
  have "split_on NL conf = split_on NL (trim_right (\<lambda>c. c = NL) conf @ t)"
    using t(1) by (rule arg_cong)
  also note split_trailing_NL [OF t(2)]
  finally show ?thesis by (rule exI)
qed

lemma is_blank_Nil [simp]: "is_blank []"
  by (simp add: is_blank_def)

lemma view_trimmed: "view (split_on NL (trim_right (\<lambda>c. c = NL) conf)) = peers conf"
proof -
  obtain n where n: "split_on NL conf = split_on NL (trim_right (\<lambda>c. c = NL) conf) @ replicate n []"
    using conf_trimmed [of conf] by (elim exE)
  have "\<forall>l \<in> set (replicate n []). is_blank l" by simp
  from view_blank [OF this] show ?thesis unfolding peers_view n by simp
qed

definition peer_ok :: "peer \<Rightarrow> bool" where
  "peer_ok p \<longleftrightarrow> value_ok (pe_name p) \<and> value_ok (pe_public_key p) \<and> value_ok (pe_allowed_ips p)"

lemma comment_line:
  assumes "trimmed n"
  shows "trim_space (''# '' @ n) = (if n = [] then ''#'' else ''# '' @ n)"
    and "trim_space (tl (trim_space (''# '' @ n))) = n"
proof -
  show *: "trim_space (''# '' @ n) = (if n = [] then ''#'' else ''# '' @ n)"
  proof (cases "n = []")
    case True
    then show ?thesis by (simp, code_simp)
  next
    case False
    with assms have "trimmed (''# '' @ n)" by (simp add: trimmed_def)
    with False show ?thesis by (simp add: trim_space_id)
  qed
  show "trim_space (tl (trim_space (''# '' @ n))) = n"
    unfolding * using assms by (cases "n = []") (simp_all add: trim_space_id)
qed

lemma peer_header: "is_header ''[Peer]''" "header_name ''[Peer]'' = ''peer''"
  by code_simp+

lemma peer_lines:
  assumes "peer_ok p"
  shows "key_value (''PublicKey  = '' @ pe_public_key p) = Some (''publickey'', pe_public_key p)"
    and "key_value (''AllowedIPs = '' @ pe_allowed_ips p) = Some (''allowedips'', pe_allowed_ips p)"
    and "\<forall>l \<in> set (tl (peer_section p)). \<not> is_header l"
  using assms key_value_line [of "''PublicKey  ''" "pe_public_key p"] key_value_line [of "''AllowedIPs ''" "pe_allowed_ips p"]
    not_header_line [of "CHR ''P''" "''ublicKey  = '' @ pe_public_key p"]
    not_header_line [of "CHR ''A''" "''llowedIPs = '' @ pe_allowed_ips p"]
    not_header_line [of "CHR ''#''" "CHR '' '' # pe_name p"] blank_no_header [of "[]"]
  by (simp_all add: value_ok_def peer_ok_def is_space_def key_names peer_section_def is_blank_def
      trim_space_def [of "[]"] trim_left_def trim_right_def)

lemma no_comment: "\<not> is_space c \<Longrightarrow> c \<noteq> CHR ''#'' \<Longrightarrow> hd (trim_space (c # v)) \<noteq> CHR ''#''"
  by (simp add: trim_space_Cons)

lemma read_peer_section:
  assumes "peer_ok p"
  shows "read_peer (tl (peer_section p)) no_peer = p"
proof -
  have name: "trim_space (''# '' @ pe_name p) \<noteq> []" "hd (trim_space (''# '' @ pe_name p)) = CHR ''#''"
    "trim_space (tl (trim_space (''# '' @ pe_name p))) = pe_name p"
    using assms comment_line [of "pe_name p"] by (simp_all add: peer_ok_def value_ok_def)
  have "hd (trim_space (''PublicKey  = '' @ pe_public_key p)) \<noteq> CHR ''#''"
    "hd (trim_space (''AllowedIPs = '' @ pe_allowed_ips p)) \<noteq> CHR ''#''"
    using no_comment [of "CHR ''P''" "''ublicKey  = '' @ pe_public_key p"]
      no_comment [of "CHR ''A''" "''llowedIPs = '' @ pe_allowed_ips p"] by (simp_all add: is_space_def)
  with name peer_lines(1,2) [OF assms] show ?thesis
    unfolding peer_section_def list.sel no_peer_def
    by (simp only: read_peer.simps Let_def if_True if_False peer.simps simp_thms option.case prod.case)
       (simp add: key_value_def trim_space_def [of "[]"] trim_left_def trim_right_def)
qed

subsection \<open>Adding and removing a peer\<close>

lemma peer_section_lines:
  assumes "peer_ok p" and "l \<in> set (peer_section p)"
  shows "NL \<notin> set l"
  using assms by (auto simp: peer_section_def peer_ok_def value_ok_def)

lemma add_peer_lines:
  assumes "add_peer conf p = Inr conf'" and "peer_ok p"
  shows "split_on NL conf' = split_on NL (trim_right (\<lambda>c. c = NL) conf) @ [[]] @ peer_section p"
    and "\<exists>t. conf' = trim_right (\<lambda>c. c = NL) conf @ t"
    and "peer_conflict (peers conf) p = None"
proof -
  let ?t = "trim_right (\<lambda>c. c = NL) conf"
  have conf': "conf' = ?t @ NL # [] @ NL # join_str [NL] (peer_section p)"
    and free: "peer_conflict (peers conf) p = None"
    using assms(1) by (simp_all add: add_peer_def split: option.splits)
  have "split_on NL (join_str [NL] (peer_section p)) = peer_section p"
    by (rule split_join) (use peer_section_lines [OF assms(2)] in \<open>auto simp: peer_section_def\<close>)
  then show "split_on NL conf' = split_on NL ?t @ [[]] @ peer_section p"
    unfolding conf' by (simp add: split_by_append_sep)
  show "\<exists>t. conf' = ?t @ t" "peer_conflict (peers conf) p = None"
    using conf' free by blast+
qed

lemma view_peer_section: "peer_ok p \<Longrightarrow> view (peer_section p) = [p]"
proof -
  assume p: "peer_ok p"
  have "peer_section p = ''[Peer]'' # tl (peer_section p)" by (simp add: peer_section_def)
  moreover have "blocks (''[Peer]'' # tl (peer_section p)) = [(''peer'', ''[Peer]'' # tl (peer_section p))]"
    using blocks_section [of "''[Peer]''" "tl (peer_section p)" "[]" "[]"] peer_lines(3) [OF p]
    by (simp add: peer_header starts_section_def del: blocks.simps(2))
  ultimately have "blocks (peer_section p) = [(''peer'', peer_section p)]" by simp
  then show ?thesis using read_peer_section [OF p] by (simp add: view_def)
qed

lemma peer_section_starts: "starts_section (peer_section p)"
  using peer_header by (simp add: starts_section_def peer_section_def)

lemma peers_add_peer:
  assumes "add_peer conf p = Inr conf'" and "peer_ok p"
  shows "peers conf' = peers conf @ [p]"
proof -
  have "peers conf' = view (split_on NL (trim_right (\<lambda>c. c = NL) conf) @ [[]]) @ view (peer_section p)"
    unfolding peers_view add_peer_lines(1) [OF assms] append_assoc [symmetric]
    by (rule view_append [OF peer_section_starts])
  also have "view (split_on NL (trim_right (\<lambda>c. c = NL) conf) @ [[]]) = peers conf"
    using view_blank [of "[[]]"] by (simp add: view_trimmed)
  finally show ?thesis using view_peer_section [OF assms(2)] by simp
qed

lemma peer_conflict_None:
  "peer_conflict qs p = None \<longleftrightarrow>
     pe_public_key p \<notin> pe_public_key ` set qs \<and> pe_allowed_ips p \<notin> pe_allowed_ips ` set qs"
  by (induction qs) auto

definition keyed_by :: "string \<Rightarrow> string \<times> string list \<Rightarrow> bool" where
  "keyed_by k x \<longleftrightarrow> fst x = ''peer'' \<and> list_ex (holds_key k) (snd x)"

lemma blocks_length: "length (blocks ls) = length (secs_at i ls)"
  by (induction ls arbitrary: i) auto

lemma prefix_bodies:
  assumes "starts_section r"
  shows "map (\<lambda>s. (sec_name s, body (a @ r) s)) (secs_at 0 a) = blocks a"
proof -
  have "map (\<lambda>s. (sec_name s, body (a @ r) s)) (secs_at 0 a) @
      map (\<lambda>s. (sec_name s, body (a @ r) s)) (secs_at (length a) r) = blocks a @ blocks r"
    using sections_bodies [of "a @ r"] by (simp add: sections_eq secs_at_append [OF assms] blocks_append [OF assms])
  then show ?thesis using blocks_length [of a 0] by simp
qed

lemma remove_peer_split:
  assumes "remove_peer conf k = Inr conf'"
  obtains a h b c where "split_on NL conf = a @ (h # b) @ c" "is_header h" "\<forall>l \<in> set b. \<not> is_header l"
    "starts_section c" "keyed_by k (header_name h, h # b)" "filter (keyed_by k) (blocks a) = []"
    "conf' = join_str [NL] (drop_blank a @ c)"
proof -
  let ?ls = "split_on NL conf" and ?P = "\<lambda>s. sec_name s = ''peer'' \<and> list_ex (holds_key k) (body (split_on NL conf) s)"
  from assms obtain s where s: "find ?P (sections ?ls) = Some s"
      "conf' = join_str [NL] (drop_blank (take (sec_start s) ?ls) @ drop (sec_end s) ?ls)"
    by (auto simp: remove_peer_def Let_def split: option.splits)
  from s(1) obtain i where i: "i < length (sections ?ls)" "?P (sections ?ls ! i)" "s = sections ?ls ! i"
      "\<forall>j<i. \<not> ?P (sections ?ls ! j)"
    by (auto simp: find_Some_iff)
  then have "sections ?ls = take i (sections ?ls) @ s # drop (Suc i) (sections ?ls)"
    by (simp add: id_take_nth_drop)
  then obtain a h b c where ls: "?ls = a @ (h # b) @ c" "is_header h" "\<forall>l \<in> set b. \<not> is_header l"
      "starts_section c" "s = \<lparr>sec_name = header_name h, sec_start = length a, sec_end = length a + length (h # b)\<rparr>"
      "take i (sections ?ls) = secs_at 0 a"
    using section_split [of 0 ?ls "take i (sections ?ls)" s "drop (Suc i) (sections ?ls)"] by (auto simp: sections_eq)
  have bd: "body ?ls s = h # b" using slice_append [of a "h # b" c] by (simp add: ls(1,5))
  have Ps: "?P s" using i(2,3) by simp
  have key: "keyed_by k (header_name h, h # b)" using Ps unfolding bd by (simp add: keyed_by_def ls(5))
  have before: "\<not> ?P s'" if "s' \<in> set (secs_at 0 a)" for s'
    using that i(1,4) unfolding ls(6) [symmetric] by (auto simp: in_set_conv_nth)
  have "blocks a = map (\<lambda>s. (sec_name s, body ?ls s)) (secs_at 0 a)"
    unfolding ls(1) by (rule prefix_bodies [symmetric]) (use ls(2) in \<open>simp add: starts_section_def\<close>)
  then have "filter (keyed_by k) (blocks a) = []"
    using before by (auto simp: filter_empty_conv keyed_by_def)
  moreover have "take (sec_start s) ?ls = a" "drop (sec_end s) ?ls = c" by (simp_all add: ls(1,5))
  ultimately show ?thesis using that ls key s(2) by metis
qed

lemma remove_peer_first:
  assumes ls: "split_on NL conf = a @ (h # b) @ c" and h: "is_header h" "\<forall>l \<in> set b. \<not> is_header l"
    and c: "starts_section c" and key: "keyed_by k (header_name h, h # b)"
    and none: "filter (keyed_by k) (blocks a) = []"
  shows "remove_peer conf k = Inr (join_str [NL] (drop_blank a @ c))"
proof -
  let ?ls = "a @ (h # b) @ c"
  let ?P = "\<lambda>s. sec_name s = ''peer'' \<and> list_ex (holds_key k) (body ?ls s)"
  define s where "s = \<lparr>sec_name = header_name h, sec_start = length a, sec_end = length a + length (h # b)\<rparr>"
  have st: "starts_section ((h # b) @ c)" using h by (simp add: starts_section_def)
  have "secs_at (length a) ((h # b) @ c) = s # secs_at (length a + length (h # b)) c"
    using h c secs_at_append [OF c, of "length a" "h # b"] blocks_no_header [OF h(2), of "Suc (length a)"]
    by (simp add: s_def takeWhile_section [OF c] takeWhile_eq_all_conv [THEN iffD2])
  then have sec: "sections ?ls = secs_at 0 a @ s # secs_at (length a + length (h # b)) c"
    by (simp add: sections_eq secs_at_append [OF st] del: append_Cons)
  have "body ?ls s = h # b" using slice_append [of a "h # b" c] by (simp add: s_def)
  then have P: "?P s" using key by (simp add: keyed_by_def s_def)
  have "\<not> ?P s'" if "s' \<in> set (secs_at 0 a)" for s'
    using none that unfolding prefix_bodies [OF st, symmetric]
    by (auto simp: filter_empty_conv keyed_by_def)
  then have "find ?P (secs_at 0 a) = None" by (auto simp: find_None_iff)
  with P have f: "find ?P (sections ?ls) = Some s"
    unfolding sec by (auto simp: find_Some_iff find_None_iff nth_append intro!: exI [of _ "length (secs_at 0 a)"])
  show ?thesis
    unfolding remove_peer_def ls Let_def f by (simp add: s_def)
qed

lemma drop_blank_append: "\<forall>l \<in> set bs. is_blank l \<Longrightarrow> drop_blank (ls @ bs) = drop_blank ls"
  by (simp add: drop_blank_def dropWhile_append)

lemma holds_key_of_read:
  assumes "k \<noteq> []" and "\<forall>l \<in> set b. \<not> holds_key k l" and "pe_public_key p \<noteq> k"
  shows "pe_public_key (read_peer b p) \<noteq> k"
  using assms
proof (induction b p rule: read_peer.induct)
  case (2 l ls p)
  then show ?case by (auto simp: Let_def holds_key_def split: option.splits)
qed simp

lemma view_not_keyed:
  assumes "k \<noteq> []" and "filter (keyed_by k) (blocks ls) = []" and "q \<in> set (view ls)"
  shows "pe_public_key q \<noteq> k"
proof -
  from assms(3) obtain b where b: "(''peer'', b) \<in> set (blocks ls)" "q = read_peer (tl b) no_peer"
    by (auto simp: view_def)
  with assms(2) have "\<forall>l \<in> set b. \<not> holds_key k l"
    by (auto simp: filter_empty_conv keyed_by_def list_ex_iff)
  then have "\<forall>l \<in> set (tl b). \<not> holds_key k l" by (cases b) auto
  with holds_key_of_read [OF assms(1) this, of no_peer] assms(1) b(2) show ?thesis by (simp add: no_peer_def)
qed

lemma read_peer_no_key: "\<forall>l \<in> set b. \<not> has_key ''publickey'' l \<Longrightarrow> pe_public_key (read_peer b p) = pe_public_key p"
  by (induction b p rule: read_peer.induct) (auto simp: Let_def has_key_def split: option.splits)

lemma holds_key_has: "holds_key k l \<Longrightarrow> has_key ''publickey'' l"
  by (simp add: holds_key_def has_key_def)

lemma read_peer_one_key:
  assumes "length (filter (has_key ''publickey'') b) \<le> 1" and "list_ex (holds_key k) b"
  shows "pe_public_key (read_peer b p) = k"
  using assms
proof (induction b p rule: read_peer.induct)
  case (2 l ls p)
  show ?case
  proof (cases "holds_key k l")
    case True
    then have "\<not> (trim_space l \<noteq> [] \<and> hd (trim_space l) = CHR ''#'')"
      by (auto simp: holds_key_def key_value_def Let_def split: if_splits)
    moreover have "\<forall>l \<in> set ls. \<not> has_key ''publickey'' l"
      using 2(3) holds_key_has [OF True] by (simp add: filter_empty_conv)
    ultimately show ?thesis using True by (auto simp: Let_def read_peer_no_key holds_key_def)
  next
    case False
    with 2 show ?thesis by (auto simp: Let_def split: if_splits)
  qed
qed simp

lemma block_lines: "x \<in> set (blocks ls) \<Longrightarrow> set (snd x) \<subseteq> set ls"
  by (induction ls) (auto dest: set_takeWhileD split: if_splits)

subsection \<open>Properties\<close>

text \<open>
  \<open>SetHub\<close> followed by \<open>Hub\<close> gives back the key and endpoint set, and only the one peer section
  that routes the hub changes: the lines before and after it are the same, and inside it every line
  that is not a PublicKey or Endpoint line stays, in order.
\<close>

theorem set_hub_edits_one_peer:
  assumes "set_hub conf ip h = Inr conf'" and "value_ok (hp_public_key h)" and "value_ok (hp_endpoint h)"
  shows "hub conf' ip = Inr h \<and>
    (\<exists>a b b' c. split_on NL conf = a @ b @ c \<and> split_on NL conf' = a @ b' @ c \<and>
       is_header (hd b) \<and> list_all (\<lambda>l. \<not> is_header l) (tl b) \<and>
       filter (\<lambda>l. \<not> has_key ''publickey'' l \<and> \<not> has_key ''endpoint'' l) b' =
       filter (\<lambda>l. \<not> has_key ''publickey'' l \<and> \<not> has_key ''endpoint'' l) b)"
proof -
  obtain a b b' c where e: "split_on NL conf = a @ b @ c" "split_on NL conf' = a @ b' @ c"
    "is_header (hd b)" "\<forall>l \<in> set (tl b). \<not> is_header l" "edited h b b'" "hub conf' ip = Inr h"
    by (rule set_hub_split [OF assms])
  then show ?thesis by (auto simp: edited_def list_all_iff)
qed

definition sample_conf :: "string \<Rightarrow> string list \<Rightarrow> string" where
  "sample_conf key extra =
     join_str [NL] ([''[Interface]'', ''Address = 10.8.0.2/24'', [], ''[Peer]'', ''# hub'',
       ''PublicKey = '' @ key] @ extra @ [''AllowedIPs = 10.8.0.0/24'', []])"

theorem set_hub_edits_one_peer_witness:
  "hub (sample_conf ''new='' [''Endpoint = 1.2.3.4:51820'']) (V4 0x0A080001) =
     Inr \<lparr>hp_public_key = ''new='', hp_endpoint = ''1.2.3.4:51820''\<rparr>"
proof -
  have "set_hub (sample_conf ''old='' []) (V4 0x0A080001) \<lparr>hp_public_key = ''new='', hp_endpoint = ''1.2.3.4:51820''\<rparr>
      = Inr (sample_conf ''new='' [''Endpoint = 1.2.3.4:51820''])"
    by code_simp
  from set_hub_edits_one_peer [OF this] show ?thesis
    by (simp add: value_ok_def trimmed_def is_space_def)
qed

text \<open>
  \<open>AddPeer\<close> only appends: the text already there is kept up to its trailing newlines, the peers
  read afterwards are the peers before and the new one last, and keys and AllowedIPs that were
  pairwise distinct still are.
\<close>

theorem add_peer_appends:
  assumes "add_peer conf p = Inr conf'" and "peer_ok p"
  shows "peers conf' = peers conf @ [p] \<and>
    (\<exists>t. conf' = trim_right (\<lambda>c. c = NL) conf @ t) \<and>
    distinct (map pe_public_key (peers conf')) = distinct (map pe_public_key (peers conf)) \<and>
    distinct (map pe_allowed_ips (peers conf')) = distinct (map pe_allowed_ips (peers conf))"
  using peers_add_peer [OF assms] add_peer_lines(2,3) [OF assms] by (auto simp: peer_conflict_None)

definition sample_peer :: peer where
  "sample_peer = \<lparr>pe_name = ''k8swk1'', pe_public_key = ''k1='', pe_allowed_ips = ''10.8.0.11/32''\<rparr>"

lemma sample_peer_ok: "peer_ok sample_peer"
  by (simp add: peer_ok_def sample_peer_def value_ok_def trimmed_def is_space_def)

definition sample_added :: string where
  "sample_added = trim_right (\<lambda>c. c = NL) (sample_conf ''old='' []) @ [NL, NL] @ join_str [NL] (peer_section sample_peer)"

lemma sample_added: "add_peer (sample_conf ''old='' []) sample_peer = Inr sample_added"
  by code_simp

theorem add_peer_appends_witness:
  "peers sample_added = peers (sample_conf ''old='' []) @ [sample_peer]"
  using add_peer_appends [OF sample_added sample_peer_ok] by simp

text \<open>
  \<open>RemovePeer\<close> drops the first peer with the key and no other: the peers read afterwards are the
  peers before without it. (The key is not empty and no section has two PublicKey lines.)
\<close>

theorem remove_peer_drops_one:
  assumes "remove_peer conf k = Inr conf'" and "k \<noteq> []"
    and one: "\<forall>x \<in> set (blocks (split_on NL conf)). length (filter (has_key ''publickey'') (snd x)) \<le> 1"
  shows "\<exists>xs p ys. peers conf = xs @ p # ys \<and> peers conf' = xs @ ys \<and>
    pe_public_key p = k \<and> k \<notin> pe_public_key ` set xs"
proof -
  obtain a h b c where r: "split_on NL conf = a @ (h # b) @ c" "is_header h" "\<forall>l \<in> set b. \<not> is_header l"
    "starts_section c" "keyed_by k (header_name h, h # b)" "filter (keyed_by k) (blocks a) = []"
    "conf' = join_str [NL] (drop_blank a @ c)"
    by (rule remove_peer_split [OF assms(1)])
  have bl: "blocks (split_on NL conf) = blocks a @ [(header_name h, h # b)] @ blocks c"
    unfolding r(1) by (rule blocks_section [OF r(2-4)])
  have not_h: "\<not> has_key ''publickey'' h" using header_has_no_key [OF r(2)] by simp
  have "pe_public_key (read_peer b no_peer) = k"
  proof (rule read_peer_one_key)
    show "length (filter (has_key ''publickey'') b) \<le> 1" using one bl not_h by auto
    show "list_ex (holds_key k) b" using r(5) not_h holds_key_has by (auto simp: keyed_by_def)
  qed
  moreover have "peers conf = view a @ read_peer b no_peer # view c"
    using r(5) by (simp add: peers_view view_def bl keyed_by_def)
  moreover have "peers conf' = view a @ view c"
  proof (cases "drop_blank a @ c = []")
    case True
    then have "peers conf' = []" by (simp add: r(7) peers_view view_def is_header_def)
    moreover have "view a @ view c = view (drop_blank a @ c)"
      by (simp add: view_append [OF r(4)] view_drop_blank)
    ultimately show ?thesis using True by (simp add: view_def)
  next
    case False
    have "NL \<notin> set l" if "l \<in> set (drop_blank a @ c)" for l
      using that split_lines_no_NL [of l conf]
      by (auto simp: r(1) drop_blank_def dest: set_dropWhileD)
    then have "split_on NL conf' = drop_blank a @ c"
      unfolding r(7) using False by (intro split_join) auto
    then show ?thesis by (simp add: peers_view view_append [OF r(4)] view_drop_blank)
  qed
  moreover have "k \<notin> pe_public_key ` set (view a)"
    using view_not_keyed [OF assms(2) r(6)] by blast
  ultimately show ?thesis by blast
qed

theorem remove_peer_drops_one_witness:
  "\<exists>xs p ys. peers sample_added = xs @ p # ys \<and> peers (sample_conf ''old='' []) = xs @ ys @ [] \<and>
     pe_public_key p = ''k1='' \<and> ''k1='' \<notin> pe_public_key ` set xs"
proof -
  have "list_all (\<lambda>x. length (filter (has_key ''publickey'') (snd x)) \<le> 1) (blocks (split_on NL sample_added))"
    by code_simp
  moreover have "remove_peer sample_added ''k1='' = Inr (join_str [NL] (drop_blank (split_on NL (sample_conf ''old='' []))))"
    by code_simp
  moreover have "peers (join_str [NL] (drop_blank (split_on NL (sample_conf ''old='' [])))) = peers (sample_conf ''old='' [])"
    by code_simp
  ultimately show ?thesis
    using remove_peer_drops_one [of sample_added "''k1=''"] by (auto simp: list_all_iff)
qed



end
