(* ===== verification/Files.thy ===== *)
theory Files
  imports Io
begin

section \<open>Local files\<close>

text \<open>
  The file operations of the operating system, as far as kluster rests on them. \<open>file_laws fs view\<close>
  is what POSIX promises: a read that succeeds returns the file's bytes; a failed write may leave
  anything at its own path; a rename replaces the target in one step or does nothing. None of them
  touches another path, and none touches what \<open>obs\<close> observes of the rest of the world.
\<close>

type_synonym path = string

record 'w fs =
  fs_read :: "path \<Rightarrow> ('w, string, string) call"
  fs_write :: "path \<Rightarrow> string \<Rightarrow> ('w, string, unit) call"
  fs_rename :: "path \<Rightarrow> path \<Rightarrow> ('w, string, unit) call"

definition file_laws :: "'w fs \<Rightarrow> ('w \<Rightarrow> path \<Rightarrow> string option) \<Rightarrow> ('w \<Rightarrow> 'o) \<Rightarrow> bool" where
  "file_laws fs view obs \<longleftrightarrow>
     (\<forall>p w r w'. fs_read fs p w = (r, w') \<longrightarrow>
        view w' = view w \<and> obs w' = obs w \<and> (\<forall>c. r = Inr c \<longrightarrow> view w p = Some c)) \<and>
     (\<forall>p c w r w'. fs_write fs p c w = (r, w') \<longrightarrow>
        obs w' = obs w \<and> (\<forall>q. q \<noteq> p \<longrightarrow> view w' q = view w q) \<and> (is_ok r \<longrightarrow> view w' p = Some c)) \<and>
     (\<forall>p q w r w'. fs_rename fs p q w = (r, w') \<longrightarrow>
        obs w' = obs w \<and>
        (if is_ok r then view w' = (view w)(q := view w p, p := if p = q then view w p else None)
         else view w' = view w))"

lemma file_read:
  "file_laws fs view obs \<Longrightarrow> fs_read fs p w = (r, w') \<Longrightarrow>
     view w' = view w \<and> obs w' = obs w \<and> (\<forall>c. r = Inr c \<longrightarrow> view w p = Some c)"
  unfolding file_laws_def by blast

lemma file_write:
  "file_laws fs view obs \<Longrightarrow> fs_write fs p c w = (r, w') \<Longrightarrow>
     obs w' = obs w \<and> (\<forall>q. q \<noteq> p \<longrightarrow> view w' q = view w q) \<and> (is_ok r \<longrightarrow> view w' p = Some c)"
  unfolding file_laws_def by blast

lemma file_rename:
  "file_laws fs view obs \<Longrightarrow> fs_rename fs p q w = (r, w') \<Longrightarrow> p \<noteq> q \<Longrightarrow>
     obs w' = obs w \<and> (if is_ok r then view w' q = view w p \<and> (\<forall>x. x \<noteq> p \<and> x \<noteq> q \<longrightarrow> view w' x = view w x)
       else view w' = view w)"
  unfolding file_laws_def by (metis (full_types) fun_upd_other fun_upd_same)

text \<open>\<open>bufio.Scanner\<close> over a file: its lines without the newline and one carriage return before it, and an
  error when a line does not fit the scanner's 64 KiB buffer.\<close>

definition max_token :: nat where
  "max_token = 65536"

definition drop_cr :: "string \<Rightarrow> string" where
  "drop_cr l = (if l \<noteq> [] \<and> last l = CHR 0x0D then butlast l else l)"

definition raw_lines :: "string \<Rightarrow> string list" where
  "raw_lines c = (let ls = split_on NL c in if last ls = [] then butlast ls else ls)"

definition scan_lines :: "string \<Rightarrow> string list option" where
  "scan_lines c =
     (if list_ex (\<lambda>l. length l \<ge> max_token) (raw_lines c) then None else Some (map drop_cr (raw_lines c)))"

lemma concat_lines:
  "\<forall>l \<in> set ls. NL \<notin> set l \<Longrightarrow> split_on NL (concat (map (\<lambda>l. l @ [NL]) ls)) = ls @ [[]]"
proof (induction ls)
  case (Cons l ls)
  then have "split_on NL l = [l]" by (auto intro!: split_by_no_sep)
  with Cons split_by_append_sep [of "\<lambda>x. x = NL" NL l "concat (map (\<lambda>l. l @ [NL]) ls)"]
  show ?case by simp
qed simp

lemma raw_lines_concat:
  "\<forall>l \<in> set ls. NL \<notin> set l \<Longrightarrow> raw_lines (concat (map (\<lambda>l. l @ [NL]) ls)) = ls"
  by (simp add: raw_lines_def concat_lines Let_def)

lemma split_raw_lines: "split_on NL c = raw_lines c \<or> split_on NL c = raw_lines c @ [[]]"
proof -
  have "split_on NL c = butlast (split_on NL c) @ [last (split_on NL c)]" by simp
  then show ?thesis unfolding raw_lines_def Let_def by (cases "last (split_on NL c) = []") simp_all
qed

text \<open>A file system in memory, which keeps the laws.\<close>

definition mem_fs :: "(path \<rightharpoonup> string) fs" where
  "mem_fs = \<lparr>fs_read = (\<lambda>p w. (case w p of None \<Rightarrow> Inl ''no such file'' | Some c \<Rightarrow> Inr c, w)),
     fs_write = (\<lambda>p c w. (Inr (), w(p \<mapsto> c))),
     fs_rename = (\<lambda>p q w. (Inr (), w(q := w p, p := if p = q then w p else None)))\<rparr>"

lemma mem_fs_laws: "file_laws mem_fs (\<lambda>w. w) (\<lambda>_. ())"
  by (auto simp: file_laws_def mem_fs_def split: option.splits)

end
