(* ===== verification/Pins.thy ===== *)
theory Pins
  imports Files Netip
begin

section \<open>hostkey/pins.go and known.go: kluster's known_hosts file\<close>

text \<open>
  \<open>Pins\<close> is a path; its operations read the file, rewrite its text and put it back through a
  temporary file and a rename. The packages \<open>crypto/ssh\<close> and \<open>knownhosts\<close> are the record
  \<open>ssh_lib\<close>: how a host is normalised, how a key's line is printed and parsed, and the check of a
  key against a file. \<open>pinned\<close> is the abstract view: the keys of an address, in the order of the
  file.
\<close>

datatype 'k key_check = Accepted | KeyError "'k list" | OtherError string

record 'k ssh_lib =
  sl_normalize :: "string \<Rightarrow> string"
  sl_line :: "string \<Rightarrow> 'k \<Rightarrow> string"
  sl_parse :: "string \<Rightarrow> 'k option"
  sl_type :: "'k \<Rightarrow> string"
  sl_new :: "string \<Rightarrow> string + (string \<Rightarrow> 'k \<Rightarrow> 'k key_check)"

datatype pin_error =
    PinFile string
  | TokenTooLong
  | LastLine string string
  | NotAnIP string
  | KnownHosts string
  | Unexpected string
  | NoEd25519 string nat
  | ManyEd25519 string nat
  | CheckFailed string

type_synonym ('w, 'a) pin_io = "('w, unit, pin_error, 'a) io"

definition pin_read :: "'w fs \<Rightarrow> path \<Rightarrow> ('w, string) pin_io" where
  "pin_read fs p = io_map_err PinFile (io_call (fs_read fs p))"

definition line_host :: "string \<Rightarrow> string" where
  "line_host line =
     (case str_fields line of [] \<Rightarrow> [] | f # _ \<Rightarrow> if hd f = CHR ''#'' then [] else f)"

text \<open>The bytes \<open>rewrite\<close> builds, \<open>None\<close> when the scanner fails.\<close>

definition rewrite_text :: "'k ssh_lib \<Rightarrow> bool \<Rightarrow> string \<Rightarrow> 'k list \<Rightarrow> string \<Rightarrow> string option" where
  "rewrite_text lib replace host keys old =
     map_option (\<lambda>ls. concat (map (\<lambda>l. l @ [NL])
         (filter (\<lambda>l. \<not> (replace \<and> line_host l = host)) ls @ map (sl_line lib host) keys)))
       (scan_lines old)"

definition pins_rewrite ::
  "'w fs \<Rightarrow> 'k ssh_lib \<Rightarrow> path \<Rightarrow> string \<Rightarrow> 'k list \<Rightarrow> bool \<Rightarrow> ('w, unit) pin_io" where
  "pins_rewrite fs lib p addr keys replace =
     (let host = sl_normalize lib addr; tmp = p @ ''.tmp'' in
      io_bind (pin_read fs p) (\<lambda>old.
        case rewrite_text lib replace host keys old of
          None \<Rightarrow> io_fail TokenTooLong
        | Some text \<Rightarrow>
            io_bind (io_map_err PinFile (io_call (fs_write fs tmp text))) (\<lambda>_.
            io_map_err PinFile (io_call (fs_rename fs tmp p)))))"

definition pins_set :: "'w fs \<Rightarrow> 'k ssh_lib \<Rightarrow> path \<Rightarrow> string \<Rightarrow> 'k list \<Rightarrow> ('w, unit) pin_io" where
  "pins_set fs lib p addr keys = pins_rewrite fs lib p addr keys True"

definition pins_add :: "'w fs \<Rightarrow> 'k ssh_lib \<Rightarrow> path \<Rightarrow> string \<Rightarrow> 'k \<Rightarrow> ('w, unit) pin_io" where
  "pins_add fs lib p addr key = pins_rewrite fs lib p addr [key] False"

definition pins_remove :: "'w fs \<Rightarrow> 'k ssh_lib \<Rightarrow> path \<Rightarrow> string \<Rightarrow> ('w, unit) pin_io" where
  "pins_remove fs lib p addr = pins_rewrite fs lib p addr [] True"

definition pins_has :: "'w fs \<Rightarrow> 'k ssh_lib \<Rightarrow> path \<Rightarrow> string \<Rightarrow> ('w, bool) pin_io" where
  "pins_has fs lib p addr =
     io_bind (pin_read fs p) (\<lambda>data.
       let host = sl_normalize lib addr in
       io_return (list_ex (\<lambda>l. line_host l = host) (split_on NL data)))"

fun last_line :: "string \<Rightarrow> string list \<Rightarrow> string \<Rightarrow> string" where
  "last_line host [] found = found"
| "last_line host (l # ls) found = last_line host ls (if line_host l = host then l else found)"

definition line_key :: "'k ssh_lib \<Rightarrow> string \<Rightarrow> 'k option" where
  "line_key lib l = sl_parse lib (join_str '' '' (tl (str_fields l)))"

definition pins_last :: "'w fs \<Rightarrow> 'k ssh_lib \<Rightarrow> path \<Rightarrow> string \<Rightarrow> ('w, 'k option) pin_io" where
  "pins_last fs lib p addr =
     io_bind (pin_read fs p) (\<lambda>data.
       let l = last_line (sl_normalize lib addr) (split_on NL data) [] in
       if l = [] then io_return None
       else (case line_key lib l of None \<Rightarrow> io_fail (LastLine p addr) | Some k \<Rightarrow> io_return (Some k)))"

definition pins_reset :: "'w fs \<Rightarrow> path \<Rightarrow> ('w, unit) pin_io" where
  "pins_reset fs p = io_map_err PinFile (io_call (fs_write fs p []))"

subsection \<open>Looking up an address\<close>

text \<open>\<open>net.SplitHostPort\<close> accepts the address: it already has a port.\<close>

definition has_port :: "string \<Rightarrow> bool" where
  "has_port s =
     (case cut_on CHR '':'' (rev s) of None \<Rightarrow> False
      | Some (_, rhost) \<Rightarrow>
          (if hd s = CHR ''['' then
             (case cut_on CHR '']'' s of None \<Rightarrow> False
              | Some (a, b) \<Rightarrow> length a + 1 = length rhost \<and> CHR ''['' \<notin> set (tl s) \<and> CHR '']'' \<notin> set b)
           else CHR '':'' \<notin> set rhost \<and> CHR ''['' \<notin> set s \<and> CHR '']'' \<notin> set s))"

definition host_port :: "string \<Rightarrow> string" where
  "host_port addr =
     (if has_port addr then addr
      else if CHR '':'' \<in> set addr then ''['' @ addr @ '']:22'' else addr @ '':22'')"

definition lookup :: "'w fs \<Rightarrow> 'k ssh_lib \<Rightarrow> path \<Rightarrow> string \<Rightarrow> ('w, 'k \<Rightarrow> 'k key_check) pin_io" where
  "lookup fs lib p addr =
     (case parse_addr addr of None \<Rightarrow> io_fail (NotAnIP addr)
      | Some _ \<Rightarrow> io_bind (pin_read fs p) (\<lambda>data.
          case sl_new lib data of Inl e \<Rightarrow> io_fail (KnownHosts e)
          | Inr cb \<Rightarrow> io_return (cb (host_port addr))))"

text \<open>\<open>wanted\<close>: the keys a check with a fresh key fails with.\<close>

definition wanted :: "('k \<Rightarrow> 'k key_check) \<Rightarrow> string \<Rightarrow> 'k \<Rightarrow> ('w, 'k list) pin_io" where
  "wanted check addr probe =
     (case check probe of KeyError ks \<Rightarrow> io_return ks | _ \<Rightarrow> io_fail (Unexpected addr))"

definition pins_keys :: "'w fs \<Rightarrow> 'k ssh_lib \<Rightarrow> 'k \<Rightarrow> path \<Rightarrow> string \<Rightarrow> ('w, 'k list) pin_io" where
  "pins_keys fs lib probe p addr = io_bind (lookup fs lib p addr) (\<lambda>check. wanted check addr probe)"

definition from_known_hosts :: "'w fs \<Rightarrow> 'k ssh_lib \<Rightarrow> 'k \<Rightarrow> path \<Rightarrow> string \<Rightarrow> ('w, 'k) pin_io" where
  "from_known_hosts fs lib probe p addr =
     io_bind (lookup fs lib p addr) (\<lambda>check.
     io_bind (wanted check addr probe) (\<lambda>keys.
       case filter (\<lambda>k. sl_type lib k = ''ssh-ed25519'') keys of
         [k] \<Rightarrow> (case check k of Accepted \<Rightarrow> io_return k | _ \<Rightarrow> io_fail (CheckFailed p))
       | [] \<Rightarrow> io_fail (NoEd25519 addr (length keys))
       | ed \<Rightarrow> io_fail (ManyEd25519 addr (length ed))))"

text \<open>\<open>Callback\<close>: the check of one connection reads the file again each time.\<close>

definition pins_callback :: "'w fs \<Rightarrow> 'k ssh_lib \<Rightarrow> path \<Rightarrow> string \<Rightarrow> 'k \<Rightarrow> ('w, unit) pin_io" where
  "pins_callback fs lib p hostport key =
     io_bind (pin_read fs p) (\<lambda>data.
       case sl_new lib data of Inl e \<Rightarrow> io_fail (KnownHosts e)
       | Inr cb \<Rightarrow> (case cb hostport key of Accepted \<Rightarrow> io_return () | _ \<Rightarrow> io_fail (CheckFailed p)))"

subsection \<open>The keys of an address\<close>

definition pinned :: "'k ssh_lib \<Rightarrow> string \<Rightarrow> string \<Rightarrow> 'k option list" where
  "pinned lib c host = map (line_key lib) (filter (\<lambda>l. line_host l = host) (split_on NL c))"

definition host_ok :: "string \<Rightarrow> bool" where
  "host_ok h \<longleftrightarrow> h \<noteq> [] \<and> hd h \<noteq> CHR ''#'' \<and> (\<forall>c \<in> set h. \<not> is_space c) \<and> length h \<le> 1000"

text \<open>The format of the known_hosts line of one key, as \<open>knownhosts.Line\<close> documents it.\<close>

definition lib_laws :: "'k ssh_lib \<Rightarrow> bool" where
  "lib_laws lib \<longleftrightarrow>
     (\<forall>h k. host_ok h \<longrightarrow> line_host (sl_line lib h k) = h \<and> line_key lib (sl_line lib h k) = Some k \<and>
        NL \<notin> set (sl_line lib h k) \<and> length (sl_line lib h k) < max_token)"

definition text_ok :: "string \<Rightarrow> bool" where
  "text_ok c \<longleftrightarrow> (\<forall>l \<in> set (raw_lines c). length l < max_token)"

locale pin_file =
  fixes sound :: bool
    and ok :: "string \<Rightarrow> bool"
    and host :: "string \<Rightarrow> bool"
    and rewrite :: "bool \<Rightarrow> string \<Rightarrow> 'k list \<Rightarrow> string \<Rightarrow> string option"
    and keys :: "string \<Rightarrow> string \<Rightarrow> 'k option list"
  assumes rewrite_ok: "sound \<Longrightarrow> host h \<Longrightarrow> ok c \<Longrightarrow> \<exists>c'. rewrite r h ks c = Some c' \<and> ok c'"
    and rewrite_keys: "sound \<Longrightarrow> host h \<Longrightarrow> rewrite r h ks c = Some c' \<Longrightarrow>
      keys c' h = (if r then [] else keys c h) @ map Some ks"
    and rewrite_others: "sound \<Longrightarrow> host h \<Longrightarrow> host h' \<Longrightarrow> h' \<noteq> h \<Longrightarrow> rewrite r h ks c = Some c' \<Longrightarrow>
      keys c' h' = keys c h'"
begin

lemma rewrite_trusts:
  assumes "sound" "host h" "host h'" "rewrite r h ks c = Some c'" "Some k \<in> set (keys c' h')"
  shows "Some k \<in> set (keys c h') \<or> h' = h \<and> k \<in> set ks"
  using assms rewrite_keys [of h r ks c c'] rewrite_others [of h h' r ks c c']
  by (cases "h' = h") (auto split: if_splits)

text \<open>Adding a key and then setting it alone is setting it alone.\<close>

lemma add_set:
  assumes "sound" "host h" "host h'" "rewrite False h [k] c = Some c1" "rewrite True h [k] c1 = Some c2"
    and "rewrite True h [k] c = Some c3"
  shows "keys c2 h' = keys c3 h'"
  using assms rewrite_keys [of h] rewrite_others [of h h'] by (cases "h' = h") auto

end

subsection \<open>The text kluster writes keeps the contract\<close>

lemma fields_drop_cr [simp]: "str_fields (drop_cr l) = str_fields l"
proof (cases "l \<noteq> [] \<and> last l = CHR 0x0D")
  case True
  then have "l = butlast l @ CHR 0x0D # []" by (metis append_butlast_last_id)
  then have "split_by is_space l = split_by is_space (butlast l) @ [[]]"
    using split_by_append_sep [of is_space "CHR 0x0D" "butlast l" "[]"] by (simp add: is_space_def)
  with True show ?thesis by (simp add: str_fields_def drop_cr_def)
qed (auto simp: drop_cr_def)

lemma line_host_drop_cr [simp]: "line_host (drop_cr l) = line_host l"
  by (simp add: line_host_def)

lemma line_key_drop_cr [simp]: "line_key lib (drop_cr l) = line_key lib l"
  by (simp add: line_key_def)

lemma line_host_Nil [simp]: "line_host [] = []"
  by (simp add: line_host_def str_fields_def)

lemma pinned_raw: "host_ok h \<Longrightarrow> pinned lib c h = map (line_key lib) (filter (\<lambda>l. line_host l = h) (raw_lines c))"
  using split_raw_lines [of c] by (auto simp: pinned_def host_ok_def)

lemma set_drop_cr: "c \<in> set (drop_cr l) \<Longrightarrow> c \<in> set l"
  by (auto simp: drop_cr_def dest: in_set_butlastD split: if_splits)

lemma raw_lines_no_NL: "l \<in> set (raw_lines c) \<Longrightarrow> NL \<notin> set l"
  using split_raw_lines [of c] split_by_parts [of l "\<lambda>x. x = NL" c NL] by auto

lemma length_drop_cr: "length (drop_cr l) \<le> length l"
  by (simp add: drop_cr_def)

lemma rewrite_text_lines:
  assumes laws: "lib_laws lib" and h: "host_ok h" and run: "rewrite_text lib r h ks c = Some c'"
  shows "raw_lines c' = filter (\<lambda>l. \<not> (r \<and> line_host l = h)) (map drop_cr (raw_lines c)) @ map (sl_line lib h) ks"
    and "text_ok c'"
proof -
  let ?ls = "filter (\<lambda>l. \<not> (r \<and> line_host l = h)) (map drop_cr (raw_lines c)) @ map (sl_line lib h) ks"
  from run have short: "\<forall>l \<in> set (raw_lines c). length l < max_token"
      and c': "c' = concat (map (\<lambda>l. l @ [NL]) ?ls)"
    by (auto simp: rewrite_text_def scan_lines_def list_ex_iff not_le split: if_splits)
  have "NL \<notin> set l \<and> length l < max_token" if "l \<in> set ?ls" for l
    using that laws h short raw_lines_no_NL
    by (auto simp: lib_laws_def dest: set_drop_cr intro: le_less_trans [OF length_drop_cr])
  then have all: "\<forall>l \<in> set ?ls. NL \<notin> set l \<and> length l < max_token" by blast
  then show lines: "raw_lines c' = ?ls" unfolding c' by (intro raw_lines_concat) blast
  show "text_ok c'" unfolding text_ok_def lines using all by blast
qed

interpretation known_hosts: pin_file "lib_laws lib" text_ok host_ok "rewrite_text lib" "pinned lib" for lib
proof unfold_locales
  fix h c r ks
  assume a: "lib_laws lib" "host_ok h" "text_ok c"
  then have "rewrite_text lib r h ks c \<noteq> None"
    by (auto simp: rewrite_text_def scan_lines_def text_ok_def list_ex_iff)
  then show "\<exists>c'. rewrite_text lib r h ks c = Some c' \<and> text_ok c'"
    using rewrite_text_lines(2) [OF a(1,2)] by blast
next
  fix h r ks c c'
  assume a: "lib_laws lib" "host_ok h" "rewrite_text lib r h ks c = Some c'"
  then show "pinned lib c' h = (if r then [] else pinned lib c h) @ map Some ks"
    using rewrite_text_lines(1) [OF a]
    by (auto simp: pinned_raw filter_map comp_def lib_laws_def conj_commute)
next
  fix h h' r ks c c'
  assume a: "lib_laws lib" "host_ok h" "rewrite_text lib r h ks c = Some c'" and h': "host_ok h'" "h' \<noteq> h"
  have "(\<lambda>l. line_host l = h' \<and> \<not> (r \<and> line_host l = h)) = (\<lambda>l. line_host l = h')" using h' by auto
  then show "pinned lib c' h' = pinned lib c h'"
    using rewrite_text_lines(1) [OF a] a h'
    by (auto simp: pinned_raw filter_map comp_def lib_laws_def conj_commute filter_empty_conv)
qed

lemma last_line_eq:
  "last_line h ls found = (let m = filter (\<lambda>l. line_host l = h) ls in if m = [] then found else last m)"
  by (induction ls arbitrary: found) (auto simp: Let_def)

text \<open>What \<open>Last\<close> returns is the last key pinned.\<close>

lemma last_line_pinned:
  assumes "host_ok h"
  shows "(last_line h (split_on NL c) [] = [] \<longleftrightarrow> pinned lib c h = []) \<and>
    (pinned lib c h \<noteq> [] \<longrightarrow> line_key lib (last_line h (split_on NL c) []) = last (pinned lib c h))"
proof -
  let ?m = "filter (\<lambda>l. line_host l = h) (split_on NL c)"
  have "[] \<notin> set ?m" using assms by (auto simp: host_ok_def)
  then show ?thesis
    using last_in_set [of ?m] by (auto simp: last_line_eq Let_def pinned_def last_map)
qed

subsection \<open>The operations on the file\<close>

lemma tmp_path: "p @ ''.tmp'' \<noteq> p"
  by simp

lemma wp_pin_read:
  assumes "file_laws fs view obs"
    and "\<And>c w'. view w p = Some c \<Longrightarrow> view w' = view w \<Longrightarrow> obs w' = obs w \<Longrightarrow> Q c w' out"
    and "\<And>e w'. view w' = view w \<Longrightarrow> obs w' = obs w \<Longrightarrow> E e w' out"
  shows "wp (pin_read fs p) Q E w out"
  using assms(2,3) file_read [OF assms(1), of p w] unfolding pin_read_def wp_simps by blast

lemma wp_pins_rewrite:
  assumes laws: "file_laws fs view obs" and c: "view w p = Some c"
  shows "wp (pins_rewrite fs lib p addr ks r)
    (\<lambda>_ w' _. obs w' = obs w \<and> (\<exists>c'. view w' p = Some c' \<and> rewrite_text lib r (sl_normalize lib addr) ks c = Some c'))
    (\<lambda>_ w' _. obs w' = obs w \<and> view w' p = Some c) w out"
  unfolding pins_rewrite_def Let_def wp_bind [of "pin_read _ _"]
proof (rule wp_pin_read [OF laws])
  fix old w1 assume old: "view w p = Some old" "view w1 = view w" "obs w1 = obs w"
  let ?tmp = "p @ ''.tmp''"
  show "wp (case rewrite_text lib r (sl_normalize lib addr) ks old of None \<Rightarrow> io_fail TokenTooLong
        | Some text \<Rightarrow> io_bind (io_map_err PinFile (io_call (fs_write fs ?tmp text)))
            (\<lambda>_. io_map_err PinFile (io_call (fs_rename fs ?tmp p))))
     (\<lambda>_ w' _. obs w' = obs w \<and> (\<exists>c'. view w' p = Some c' \<and> rewrite_text lib r (sl_normalize lib addr) ks c = Some c'))
     (\<lambda>_ w' _. obs w' = obs w \<and> view w' p = Some c) w1 out"
  proof (cases "rewrite_text lib r (sl_normalize lib addr) ks old")
    case None
    with old c show ?thesis by (simp add: wp_simps)
  next
    case (Some new)
    have "obs w2 = obs w1 \<and> view w2 p = Some c \<and> (is_ok r2 \<longrightarrow> view w2 ?tmp = Some new)"
      if "fs_write fs ?tmp new w1 = (r2, w2)" for r2 w2
      using file_write [OF laws that] old c by auto
    moreover have "obs w3 = obs w2 \<and> view w3 p = (if is_ok r3 then view w2 ?tmp else view w2 p)"
      if "fs_rename fs ?tmp p w2 = (r3, w3)" for r3 w2 w3
      using file_rename [OF laws that tmp_path] by auto
    ultimately show ?thesis
      using Some old c by (fastforce simp: wp_simps)
  qed
qed (use c in \<open>simp_all\<close>)

subsection \<open>Properties\<close>

text \<open>
  \<open>Set\<close>, \<open>Add\<close> and \<open>Remove\<close> (the rewrite with its flag) do to the pins exactly what they say: when they
  return, the keys of the address are the given ones, after the earlier ones if these are kept, and
  every other address has the keys it had; when they fail, the file is as it was. A file kluster
  wrote stays readable.
\<close>

theorem rewrite_pins_one_address:
  assumes laws: "file_laws fs view obs" "lib_laws lib" and c: "view w p = Some c" "text_ok c"
    and h: "host_ok (sl_normalize lib addr)"
    and run: "pins_rewrite fs lib p addr ks replace (w, out) = (r, w', out')"
  shows "case r of Inl _ \<Rightarrow> view w' p = Some c
    | Inr _ \<Rightarrow> (\<exists>c'. view w' p = Some c' \<and> text_ok c' \<and>
        pinned lib c' (sl_normalize lib addr) =
          (if replace then [] else pinned lib c (sl_normalize lib addr)) @ map Some ks \<and>
        (\<forall>h. host_ok h \<and> h \<noteq> sl_normalize lib addr \<longrightarrow> pinned lib c' h = pinned lib c h))"
proof (cases r)
  case (Inl e)
  with run wp_err [OF wp_pins_rewrite [OF laws(1) c(1)], of lib addr ks replace out e w' out'] show ?thesis by simp
next
  case (Inr u)
  with run wp_ok [OF wp_pins_rewrite [OF laws(1) c(1)], of lib addr ks replace out u w' out']
  obtain c' where c': "view w' p = Some c'" "rewrite_text lib replace (sl_normalize lib addr) ks c = Some c'"
    by auto
  show ?thesis
    using Inr c' known_hosts.rewrite_ok [OF laws(2) h c(2), of replace ks]
      known_hosts.rewrite_keys [OF laws(2) h c'(2)] known_hosts.rewrite_others [OF laws(2) h _ _ c'(2)]
    by auto
qed

text \<open>A library with short keys, and one file in memory.\<close>

definition short_lib :: "bool ssh_lib" where
  "short_lib = \<lparr>sl_normalize = (\<lambda>a. a), sl_line = (\<lambda>h k. h @ '' '' @ (if k then ''T'' else ''F'')),
     sl_parse = (\<lambda>s. if s = ''T'' then Some True else if s = ''F'' then Some False else None),
     sl_type = (\<lambda>_. ''ssh-ed25519''), sl_new = (\<lambda>_. Inl [])\<rparr>"

lemma short_line:
  assumes "host_ok h"
  shows "str_fields (h @ '' '' @ [c]) = (if is_space c then [h] else [h, [c]])"
proof -
  have "split_by is_space h = [h]" using assms by (auto simp: host_ok_def intro: split_by_no_sep)
  then show ?thesis
    using assms split_by_append_sep [of is_space "CHR '' ''" h "[c]"] by (simp add: str_fields_def host_ok_def)
qed

lemma short_lib_laws: "lib_laws short_lib"
proof -
  have "length (sl_line short_lib h k) < max_token \<and> NL \<notin> set (sl_line short_lib h k)" if "host_ok h" for h k
  proof -
    have "NL \<notin> set h" using that is_space_simps(1) by (auto simp: host_ok_def)
    with that show ?thesis by (auto simp: short_lib_def max_token_def host_ok_def)
  qed
  moreover have "str_fields (sl_line short_lib h k) = [h, if k then ''T'' else ''F'']" if "host_ok h" for h k
    using short_line [OF that, of "CHR ''T''"] short_line [OF that, of "CHR ''F''"]
    by (auto simp: short_lib_def is_space_def)
  ultimately show ?thesis
    by (auto simp: lib_laws_def line_host_def line_key_def host_ok_def) (auto simp: short_lib_def)
qed

theorem rewrite_pins_one_address_witness:
  "\<exists>c'. fst (snd (pins_set mem_fs short_lib ''kh'' ''10.0.2.6'' [True]
          ([''kh'' \<mapsto> ''10.0.2.6 F'' @ [NL]], []))) ''kh'' = Some c' \<and>
     pinned short_lib c' ''10.0.2.6'' = [Some True]"
proof -
  let ?w = "[''kh'' \<mapsto> ''10.0.2.6 F'' @ [NL]]"
  obtain r w' out' where run: "pins_rewrite mem_fs short_lib ''kh'' ''10.0.2.6'' [True] True (?w, []) = (r, w', out')"
    by (metis prod_cases3)
  obtain new where t: "rewrite_text short_lib True ''10.0.2.6'' [True] (''10.0.2.6 F'' @ [NL]) = Some new"
    by (simp add: rewrite_text_def scan_lines_def raw_lines_def max_token_def Let_def)
  have n: "sl_normalize short_lib ''10.0.2.6'' = ''10.0.2.6''" by (simp add: short_lib_def)
  have "fst (pins_rewrite mem_fs short_lib ''kh'' ''10.0.2.6'' [True] True (?w, [])) = Inr ()"
    using t unfolding pins_rewrite_def n by (simp add: pin_read_def io_defs mem_fs_def Let_def)
  with run have r: "r = Inr ()" by simp
  have "text_ok (''10.0.2.6 F'' @ [NL])" by (simp add: text_ok_def raw_lines_def max_token_def)
  moreover have "host_ok (sl_normalize short_lib ''10.0.2.6'')" by (simp add: host_ok_def short_lib_def is_space_def)
  ultimately show ?thesis
    using rewrite_pins_one_address [OF mem_fs_laws short_lib_laws _ _ _ run] r run
    by (auto simp: pins_set_def short_lib_def)
qed

end
