(* ===== verification/Rotation.thy ===== *)
theory Rotation
  imports Pins Stage
begin

section \<open>stages/hostkey.go: the rotation of the seeded host key\<close>

text \<open>
  \<open>RotateHostKey\<close> replaces the host key a server booted with and keeps the pins in step. The host is
  the record \<open>rot_env\<close>: reading the marker, the two scripts, and a fresh connection that accepts one
  key. Its laws are what the scripts and \<open>sshd\<close> do: \<open>generate\<close> makes a key pair beside the served
  one and prints its public half, \<open>install\<close> makes the host serve that key (or, cut short, still the
  old one), and a connection that accepts only \<open>k\<close> comes up only when the host serves \<open>k\<close>.
\<close>

record ('w, 'k) rot_env =
  ro_installed :: "('w, string, string) call"
  ro_generate :: "('w, string, string) call"
  ro_install :: "('w, string, unit) call"
  ro_dial :: "'k \<Rightarrow> ('w, string, unit) call"

datatype rot_error =
    HostRun string
  | PinOp pin_error
  | NoNewKey
  | NotServingNewKey string
  | NoKeyPinned string
  | NotServingPinnedKey string string

type_synonym ('w, 'a) rot_io = "('w, unit, rot_error, 'a) io"

definition host_run_io :: "('w, string, 'a) call \<Rightarrow> ('w, 'a) rot_io" where
  "host_run_io f = io_map_err HostRun (io_call f)"

definition pin_op :: "('w, 'a) pin_io \<Rightarrow> ('w, 'a) rot_io" where
  "pin_op m = io_map_err PinOp m"

definition still_seeded :: string where
  "still_seeded = ''the host still serves the seeded key''"

definition rot_probe ::
  "'w fs \<Rightarrow> 'k ssh_lib \<Rightarrow> 'k \<Rightarrow> ('w, 'k) rot_env \<Rightarrow> path option \<Rightarrow> string \<Rightarrow> ('w, status) rot_io" where
  "rot_probe fs lib fresh env pins addr =
     io_bind (host_run_io (ro_installed env)) (\<lambda>rotated.
       if rotated = [] then io_return \<lparr>st_done = False, st_detail = still_seeded\<rparr>
       else (case pins of
           None \<Rightarrow> io_return \<lparr>st_done = True, st_detail = ''rotated '' @ rotated\<rparr>
         | Some p \<Rightarrow> io_bind (pin_op (pins_keys fs lib fresh p addr)) (\<lambda>keys.
             if length keys > 1
             then io_return \<lparr>st_done = False, st_detail = ''rotated '' @ rotated @ '', but '' @
               string_of_nat (length keys) @ '' keys are pinned at '' @ addr @
               '': the seeded key is not dropped yet''\<rparr>
             else io_return \<lparr>st_done = True, st_detail = ''rotated '' @ rotated\<rparr>)))"

definition finish_pin :: "'w fs \<Rightarrow> 'k ssh_lib \<Rightarrow> ('w, 'k) rot_env \<Rightarrow> path \<Rightarrow> string \<Rightarrow> ('w, unit) rot_io" where
  "finish_pin fs lib env p addr =
     io_bind (pin_op (pins_last fs lib p addr)) (\<lambda>key.
       case key of
         None \<Rightarrow> io_fail (NoKeyPinned addr)
       | Some k \<Rightarrow> io_bind (io_map_err (NotServingPinnedKey addr) (io_call (ro_dial env k))) (\<lambda>_.
           pin_op (pins_set fs lib p addr [k])))"

definition rot_act :: "'w fs \<Rightarrow> 'k ssh_lib \<Rightarrow> ('w, 'k) rot_env \<Rightarrow> path \<Rightarrow> string \<Rightarrow> ('w, unit) rot_io" where
  "rot_act fs lib env p addr =
     io_bind (host_run_io (ro_installed env)) (\<lambda>rotated.
       if rotated \<noteq> [] then finish_pin fs lib env p addr
       else io_bind (host_run_io (ro_generate env)) (\<lambda>out.
         case sl_parse lib (trim_space out) of
           None \<Rightarrow> io_fail NoNewKey
         | Some key \<Rightarrow> io_bind (pin_op (pins_add fs lib p addr key)) (\<lambda>_.
             io_bind (host_run_io (ro_install env)) (\<lambda>_.
             io_bind (io_map_err NotServingNewKey (io_call (ro_dial env key))) (\<lambda>_.
             pin_op (pins_set fs lib p addr [key]))))))"

subsection \<open>What the host and the scripts promise\<close>

definition rot_laws ::
  "'k ssh_lib \<Rightarrow> ('w, 'k) rot_env \<Rightarrow> ('w \<Rightarrow> path \<Rightarrow> string option) \<Rightarrow> ('w \<Rightarrow> 'k) \<Rightarrow> ('w \<Rightarrow> 'k) \<Rightarrow> bool" where
  "rot_laws lib env view served new_key \<longleftrightarrow>
     (\<forall>w r w'. ro_installed env w = (r, w') \<longrightarrow> view w' = view w \<and> served w' = served w) \<and>
     (\<forall>w r w'. ro_generate env w = (r, w') \<longrightarrow> view w' = view w \<and> served w' = served w \<and>
        (\<forall>out k. r = Inr out \<and> sl_parse lib (trim_space out) = Some k \<longrightarrow> new_key w' = k)) \<and>
     (\<forall>w r w'. ro_install env w = (r, w') \<longrightarrow> view w' = view w \<and>
        (served w' = new_key w \<or> served w' = served w)) \<and>
     (\<forall>k w r w'. ro_dial env k w = (r, w') \<longrightarrow> view w' = view w \<and> served w' = served w \<and>
        (is_ok r \<longrightarrow> served w = k))"

lemma rot_installedD: "rot_laws lib env view served nk \<Longrightarrow> ro_installed env w = (r, w') \<Longrightarrow>
    view w' = view w \<and> served w' = served w"
  unfolding rot_laws_def by blast

lemma rot_generateD: "rot_laws lib env view served nk \<Longrightarrow> ro_generate env w = (r, w') \<Longrightarrow>
    view w' = view w \<and> served w' = served w \<and>
    (\<forall>out k. r = Inr out \<and> sl_parse lib (trim_space out) = Some k \<longrightarrow> nk w' = k)"
  unfolding rot_laws_def by blast

lemma rot_installD: "rot_laws lib env view served nk \<Longrightarrow> ro_install env w = (r, w') \<Longrightarrow>
    view w' = view w \<and> (served w' = nk w \<or> served w' = served w)"
  unfolding rot_laws_def by blast

lemma rot_dialD: "rot_laws lib env view served nk \<Longrightarrow> ro_dial env k w = (r, w') \<Longrightarrow>
    view w' = view w \<and> served w' = served w \<and> (is_ok r \<longrightarrow> served w = k)"
  unfolding rot_laws_def by blast

subsection \<open>The invariant of every step\<close>

text \<open>
  \<open>reachable\<close>: the file is readable and the key the host serves is among the pinned ones, so the
  next login is verified. It holds at the end of every run of the action, complete or cut short.
\<close>

definition reachable ::
  "'k ssh_lib \<Rightarrow> ('w \<Rightarrow> path \<Rightarrow> string option) \<Rightarrow> ('w \<Rightarrow> 'k) \<Rightarrow> path \<Rightarrow> string \<Rightarrow> 'w \<Rightarrow> bool" where
  "reachable lib view served p addr w \<longleftrightarrow>
     (case view w p of None \<Rightarrow> False
      | Some c \<Rightarrow> text_ok c \<and> Some (served w) \<in> set (pinned lib c (sl_normalize lib addr)))"

definition pinned_alone ::
  "'k ssh_lib \<Rightarrow> ('w \<Rightarrow> path \<Rightarrow> string option) \<Rightarrow> ('w \<Rightarrow> 'k) \<Rightarrow> path \<Rightarrow> string \<Rightarrow> 'w \<Rightarrow> bool" where
  "pinned_alone lib view served p addr w \<longleftrightarrow>
     (\<exists>c. view w p = Some c \<and> pinned lib c (sl_normalize lib addr) = [Some (served w)])"

definition rot_setup ::
  "'w fs \<Rightarrow> 'k ssh_lib \<Rightarrow> ('w, 'k) rot_env \<Rightarrow> ('w \<Rightarrow> path \<Rightarrow> string option) \<Rightarrow> ('w \<Rightarrow> 'k) \<Rightarrow> ('w \<Rightarrow> 'k) \<Rightarrow>
     string \<Rightarrow> bool" where
  "rot_setup fs lib env view served nk addr \<longleftrightarrow>
     file_laws fs view (\<lambda>w. (served w, nk w)) \<and> lib_laws lib \<and> rot_laws lib env view served nk \<and>
     host_ok (sl_normalize lib addr)"

lemma reachable_same:
  "reachable lib view served p addr w \<Longrightarrow> view w' = view w \<Longrightarrow> served w' = served w \<Longrightarrow>
     reachable lib view served p addr w'"
  by (auto simp: reachable_def split: option.splits)

lemma wp_pin_op: "wp (pin_op m) Q E w out \<longleftrightarrow> wp m Q (\<lambda>e. E (PinOp e)) w out"
  by (simp add: pin_op_def wp_map_err)

lemma wp_rot_set:
  assumes st: "rot_setup fs lib env view served nk addr" and r: "reachable lib view served p addr w"
    and k: "served w = k"
  shows "wp (pin_op (pins_set fs lib p addr [k]))
    (\<lambda>_ w' _. reachable lib view served p addr w' \<and> pinned_alone lib view served p addr w')
    (\<lambda>_ w' _. reachable lib view served p addr w') w out"
proof -
  let ?h = "sl_normalize lib addr"
  from st have laws: "file_laws fs view (\<lambda>w. (served w, nk w))" "lib_laws lib" "host_ok ?h"
    by (simp_all add: rot_setup_def)
  from r obtain c where c: "view w p = Some c" "text_ok c" "Some (served w) \<in> set (pinned lib c ?h)"
    by (auto simp: reachable_def split: option.splits)
  show ?thesis
    unfolding wp_pin_op pins_set_def
  proof (rule wp_mono [OF wp_pins_rewrite [OF laws(1) c(1)]])
    fix a :: unit and w' and out' :: "unit list"
    assume "(served w', nk w') = (served w, nk w) \<and> (\<exists>c'. view w' p = Some c' \<and> rewrite_text lib True ?h [k] c = Some c')"
    then obtain c' where c': "rewrite_text lib True ?h [k] c = Some c'" "view w' p = Some c'" "served w' = served w"
      by auto
    then show "reachable lib view served p addr w' \<and> pinned_alone lib view served p addr w'"
      using known_hosts.rewrite_keys [OF laws(2,3) c'(1)] rewrite_text_lines(2) [OF laws(2,3) c'(1)] k
      by (simp add: reachable_def pinned_alone_def)
  next
    fix e w' and out' :: "unit list"
    assume "(served w', nk w') = (served w, nk w) \<and> view w' p = Some c"
    with c show "reachable lib view served p addr w'" by (simp add: reachable_def)
  qed
qed

lemma wp_rot_add:
  assumes st: "rot_setup fs lib env view served nk addr" and r: "reachable lib view served p addr w"
  shows "wp (pin_op (pins_add fs lib p addr k))
    (\<lambda>_ w' _. nk w' = nk w \<and> reachable lib view served p addr w' \<and>
       (\<exists>c. view w' p = Some c \<and> text_ok c \<and> Some k \<in> set (pinned lib c (sl_normalize lib addr))))
    (\<lambda>_ w' _. reachable lib view served p addr w') w out"
proof -
  let ?h = "sl_normalize lib addr"
  from st have laws: "file_laws fs view (\<lambda>w. (served w, nk w))" "lib_laws lib" "host_ok ?h"
    by (simp_all add: rot_setup_def)
  from r obtain c where c: "view w p = Some c" "text_ok c" "Some (served w) \<in> set (pinned lib c ?h)"
    by (auto simp: reachable_def split: option.splits)
  show ?thesis
    unfolding wp_pin_op pins_add_def
  proof (rule wp_mono [OF wp_pins_rewrite [OF laws(1) c(1)]])
    fix a :: unit and w' and out' :: "unit list"
    assume w': "(served w', nk w') = (served w, nk w) \<and> (\<exists>c'. view w' p = Some c' \<and> rewrite_text lib False ?h [k] c = Some c')"
    then obtain c' where c': "rewrite_text lib False ?h [k] c = Some c'" "view w' p = Some c'" "served w' = served w"
      by auto
    then show "nk w' = nk w \<and> reachable lib view served p addr w' \<and>
        (\<exists>c. view w' p = Some c \<and> text_ok c \<and> Some k \<in> set (pinned lib c ?h))"
      using known_hosts.rewrite_keys [OF laws(2,3) c'(1)] rewrite_text_lines(2) [OF laws(2,3) c'(1)] c(3) w'
      by (simp add: reachable_def)
  next
    fix e w' and out' :: "unit list"
    assume "(served w', nk w') = (served w, nk w) \<and> view w' p = Some c"
    with c show "reachable lib view served p addr w'" by (simp add: reachable_def)
  qed
qed

lemma wp_dial_set:
  assumes st: "rot_setup fs lib env view served nk addr" and r: "reachable lib view served p addr w"
  shows "wp (io_bind (io_map_err g (io_call (ro_dial env k))) (\<lambda>_. pin_op (pins_set fs lib p addr [k])))
    (\<lambda>_ w' _. reachable lib view served p addr w' \<and> pinned_alone lib view served p addr w')
    (\<lambda>_ w' _. reachable lib view served p addr w') w out"
proof -
  from st have laws: "rot_laws lib env view served nk" by (simp add: rot_setup_def)
  have "reachable lib view served p addr w1 \<and> (is_ok r1 \<longrightarrow> served w1 = k)" if "ro_dial env k w = (r1, w1)" for r1 w1
    using rot_dialD [OF laws that] reachable_same [OF r, of w1] by simp
  then show ?thesis
    unfolding wp_simps using wp_rot_set [OF st] by fastforce
qed

lemma wp_finish_pin:
  assumes st: "rot_setup fs lib env view served nk addr" and r: "reachable lib view served p addr w"
  shows "wp (finish_pin fs lib env p addr)
    (\<lambda>_ w' _. reachable lib view served p addr w' \<and> pinned_alone lib view served p addr w')
    (\<lambda>_ w' _. reachable lib view served p addr w') w out"
proof -
  from st have fl: "file_laws fs view (\<lambda>w. (served w, nk w))" by (simp add: rot_setup_def)
  show ?thesis
    unfolding finish_pin_def wp_bind [of "pin_op _"] wp_pin_op
      pins_last_def wp_bind [of "pin_read _ _"]
  proof (rule wp_pin_read [OF fl])
    fix c w' assume "view w p = Some c" "view w' = view w" "(served w', nk w') = (served w, nk w)"
    then have "reachable lib view served p addr w'" using reachable_same [OF r] by simp
    then show "wp (let l = last_line (sl_normalize lib addr) (split_on NL c) []
         in if l = [] then io_return None
            else case line_key lib l of None \<Rightarrow> io_fail (LastLine p addr) | Some k \<Rightarrow> io_return (Some k))
       (\<lambda>a. wp (case a of None \<Rightarrow> io_fail (NoKeyPinned addr)
              | Some k \<Rightarrow> io_bind (io_map_err (NotServingPinnedKey addr) (io_call (ro_dial env k)))
                  (\<lambda>_. pin_op (pins_set fs lib p addr [k])))
          (\<lambda>_ w' _. reachable lib view served p addr w' \<and> pinned_alone lib view served p addr w')
          (\<lambda>_ w' _. reachable lib view served p addr w'))
       (\<lambda>e w' _. reachable lib view served p addr w') w' out"
      using wp_dial_set [OF st] by (auto simp: Let_def wp_return wp_fail split: option.split)
  next
    fix e w' assume "view w' = view w" "(served w', nk w') = (served w, nk w)"
    then show "reachable lib view served p addr w'" using reachable_same [OF r] by simp
  qed
qed

lemma wp_rot_act:
  assumes st: "rot_setup fs lib env view served nk addr" and r: "reachable lib view served p addr w"
  shows "wp (rot_act fs lib env p addr)
    (\<lambda>_ w' _. reachable lib view served p addr w' \<and> pinned_alone lib view served p addr w')
    (\<lambda>_ w' _. reachable lib view served p addr w') w out"
proof -
  from st have laws: "rot_laws lib env view served nk" by (simp add: rot_setup_def)
  let ?Q = "\<lambda>_ w' (_ :: unit list). reachable lib view served p addr w' \<and> pinned_alone lib view served p addr w'"
  let ?E = "\<lambda>_ w' (_ :: unit list). reachable lib view served p addr w'"
  have install: "wp (io_bind (host_run_io (ro_install env)) (\<lambda>_.
      io_bind (io_map_err NotServingNewKey (io_call (ro_dial env k))) (\<lambda>_. pin_op (pins_set fs lib p addr [k]))))
      ?Q ?E w1 out" if "nk w1 = k" "reachable lib view served p addr w1"
      "\<exists>c. view w1 p = Some c \<and> text_ok c \<and> Some k \<in> set (pinned lib c (sl_normalize lib addr))" for k w1 out
  proof -
    have "reachable lib view served p addr w2" if "ro_install env w1 = (r2, w2)" for r2 w2
      using rot_installD [OF laws that] \<open>nk w1 = k\<close> \<open>reachable lib view served p addr w1\<close>
        \<open>\<exists>c. view w1 p = Some c \<and> text_ok c \<and> Some k \<in> set (pinned lib c (sl_normalize lib addr))\<close>
      by (auto simp: reachable_def split: option.splits)
    then show ?thesis
      unfolding host_run_io_def wp_bind [of "io_map_err HostRun _"] wp_map_err wp_call
      using wp_dial_set [OF st] by blast
  qed
  have gen: "wp (case sl_parse lib (trim_space o') of None \<Rightarrow> io_fail NoNewKey
      | Some key \<Rightarrow> io_bind (pin_op (pins_add fs lib p addr key)) (\<lambda>_.
             io_bind (host_run_io (ro_install env)) (\<lambda>_.
             io_bind (io_map_err NotServingNewKey (io_call (ro_dial env key))) (\<lambda>_.
             pin_op (pins_set fs lib p addr [key]))))) ?Q ?E w2 out"
    if "reachable lib view served p addr w2" "\<And>k. sl_parse lib (trim_space o') = Some k \<Longrightarrow> nk w2 = k" for o' w2 out
  proof (cases "sl_parse lib (trim_space o')")
    case (Some k)
    show ?thesis
      unfolding Some option.case wp_bind [of "pin_op _"]
      by (rule wp_mono [OF wp_rot_add [OF st that(1)]]) (use that(2) [OF Some] in \<open>auto intro: install\<close>)
  qed (use that in \<open>simp add: wp_fail\<close>)
  show ?thesis
    unfolding rot_act_def host_run_io_def [of "ro_installed env"] wp_bind wp_map_err wp_call wp_if
  proof (intro conjI allI impI)
    fix rotated w1 assume i: "ro_installed env w = (Inr rotated, w1)"
    have r1: "reachable lib view served p addr w1"
      using rot_installedD [OF laws i] reachable_same [OF r] by simp
    have "wp (host_run_io (ro_generate env)) (\<lambda>o'. wp (case sl_parse lib (trim_space o') of None \<Rightarrow> io_fail NoNewKey
      | Some key \<Rightarrow> io_bind (pin_op (pins_add fs lib p addr key)) (\<lambda>_.
             io_bind (host_run_io (ro_install env)) (\<lambda>_.
             io_bind (io_map_err NotServingNewKey (io_call (ro_dial env key))) (\<lambda>_.
             pin_op (pins_set fs lib p addr [key]))))) ?Q ?E) ?E w1 out"
      unfolding host_run_io_def [of "ro_generate env"] wp_map_err wp_call
      using rot_generateD [OF laws] reachable_same [OF r1] by (blast intro: gen)
    with wp_finish_pin [OF st r1]
    show "if rotated \<noteq> [] then wp (finish_pin fs lib env p addr) ?Q ?E w1 out
      else wp (host_run_io (ro_generate env)) (\<lambda>o'. wp (case sl_parse lib (trim_space o') of None \<Rightarrow> io_fail NoNewKey
      | Some key \<Rightarrow> io_bind (pin_op (pins_add fs lib p addr key)) (\<lambda>_.
             io_bind (host_run_io (ro_install env)) (\<lambda>_.
             io_bind (io_map_err NotServingNewKey (io_call (ro_dial env key))) (\<lambda>_.
             pin_op (pins_set fs lib p addr [key]))))) ?Q ?E) ?E w1 out"
      by simp
  next
    fix e w1 assume "ro_installed env w = (Inl e, w1)"
    with rot_installedD [OF laws] reachable_same [OF r] show "reachable lib view served p addr w1" by simp
  qed
qed

subsection \<open>Properties\<close>

text \<open>
  C7 However the rotation ends, complete or cut short at any call, the key the host serves is pinned
  at its address, so the next run can log in and verify it; when it returns without an error the
  served key is the only one pinned, and the seeded key, public on the metadata service, is trusted
  no more.
\<close>

theorem rotation_never_locks_out:
  assumes "rot_setup fs lib env view served nk addr" and "reachable lib view served p addr w"
    and "rot_act fs lib env p addr (w, out) = (r, w', out')"
  shows "reachable lib view served p addr w' \<and> (is_ok r \<longrightarrow> pinned_alone lib view served p addr w')"
  using wp_rot_act [OF assms(1,2), of out] assms(3) by (cases r) (auto dest: wp_ok wp_err)

type_synonym toy_host = "(path \<rightharpoonup> string) \<times> bool \<times> bool"

definition toy_fs :: "toy_host fs" where
  "toy_fs = \<lparr>fs_read = (\<lambda>p (m, x). (case m p of None \<Rightarrow> Inl ''no such file'' | Some c \<Rightarrow> Inr c, m, x)),
     fs_write = (\<lambda>p c (m, x). (Inr (), m(p \<mapsto> c), x)),
     fs_rename = (\<lambda>p q (m, x). (Inr (), m(q := m p, p := if p = q then m p else None), x))\<rparr>"

definition toy_env :: "(toy_host, bool) rot_env" where
  "toy_env = \<lparr>ro_installed = (\<lambda>w. (Inr [], w)),
     ro_generate = (\<lambda>(m, s, n). (Inr ''T'', m, s, True)),
     ro_install = (\<lambda>(m, s, n). (Inr (), m, n, n)),
     ro_dial = (\<lambda>k (m, s, n). (if k = s then Inr () else Inl ''handshake failed'', m, s, n))\<rparr>"

definition toy_start :: toy_host where
  "toy_start = ([''kh'' \<mapsto> ''10.0.2.6 F'' @ [NL]], False, False)"

lemma toy_rot_setup: "rot_setup toy_fs short_lib toy_env fst (\<lambda>w. fst (snd w)) (\<lambda>w. snd (snd w)) ''10.0.2.6''"
proof -
  have "trim_space ''T'' = ''T''" by (simp add: trim_space_id trimmed_def is_space_def)
  then have "rot_laws short_lib toy_env fst (\<lambda>w. fst (snd w)) (\<lambda>w. snd (snd w))"
    by (auto simp: rot_laws_def toy_env_def short_lib_def split: if_splits)
  moreover have "file_laws toy_fs fst (\<lambda>w. (fst (snd w), snd (snd w)))"
    by (auto simp: file_laws_def toy_fs_def split: option.splits)
  moreover have "host_ok (sl_normalize short_lib ''10.0.2.6'')"
    by (simp add: host_ok_def short_lib_def is_space_def)
  ultimately show ?thesis using short_lib_laws by (simp add: rot_setup_def)
qed

lemma toy_reachable: "reachable short_lib fst (\<lambda>w. fst (snd w)) ''kh'' ''10.0.2.6'' toy_start"
  by (simp add: reachable_def toy_start_def text_ok_def raw_lines_def max_token_def pinned_def short_lib_def
      line_host_def line_key_def str_fields_def is_space_def)

theorem rotation_never_locks_out_witness:
  "\<exists>r w' out'. rot_act toy_fs short_lib toy_env ''kh'' ''10.0.2.6'' (toy_start, []) = (r, w', out') \<and>
     reachable short_lib fst (\<lambda>w. fst (snd w)) ''kh'' ''10.0.2.6'' w'"
proof -
  obtain r w' out' where "rot_act toy_fs short_lib toy_env ''kh'' ''10.0.2.6'' (toy_start, []) = (r, w', out')"
    by (metis prod_cases3)
  with rotation_never_locks_out [OF toy_rot_setup toy_reachable this] show ?thesis by blast
qed

end
