(* ===== verification/Workerset.thy ===== *)
theory Workerset
  imports Files
begin

section \<open>workerset/workerset.go: the Worker set in its tfvars file\<close>

text \<open>
  A Worker set is the map \<open>workers\<close> of a tfvars file. It is read through the HCL packages and edited
  among the tokens of one expression. The packages are the record \<open>hcl\<close>: the value of every
  attribute of a file, the tokens of the \<open>workers\<close> expression, the file with other tokens in their
  place, and the tokens of a value. Everything the code does with values and tokens itself is
  modelled: decoding, finding the entry, cutting it out, and the proof at the end of each edit.
\<close>

datatype cty =
    CString string
  | CNull
  | CObject "(string \<times> cty) list"
  | CMap "(string \<times> cty) list"
  | COther

datatype tok_type =
    OBrace | CBrace | OBrack | CBrack | OParen | CParen | Newline | Comma | Comment
  | Ident | OQuote | QuotedLit | CQuote | TEqual | TColon | OtherTok

record token =
  tk_type :: tok_type
  tk_bytes :: string

record hcl =
  hc_attrs :: "string \<Rightarrow> string + (string \<rightharpoonup> string + cty)"
  hc_tokens :: "string \<Rightarrow> string + token list option"
  hc_render :: "string \<Rightarrow> token list \<Rightarrow> string"
  hc_value_tokens :: "cty \<Rightarrow> token list"

record worker =
  wk_name :: string
  wk_private_ip :: string
  wk_vpn_ip :: string
  wk_server_type :: string
  wk_labels :: "(string \<times> string) list"

record worker_set =
  ws_path :: path
  ws_src :: string
  ws_workers :: "(string \<times> worker) list"

datatype attr_error = NoAttr string | NotString string | LabelNotString string | LabelsPanic

datatype ws_error =
    ParseFailed string
  | NoWorkers path
  | EvalFailed string
  | NotAMap
  | BadWorker string "attr_error list"
  | AlreadyDeclared path string
  | NotDeclared path string
  | NotBraces path
  | NoEntry string
  | NoEntryEnd string
  | EditedNotParsed ws_error
  | EditedNotIntended

subsection \<open>Reading\<close>

definition string_attr :: "cty \<Rightarrow> string \<Rightarrow> attr_error + string" where
  "string_attr obj name =
     (case obj of CObject as \<Rightarrow>
        (case map_of as name of None \<Rightarrow> Inl (NoAttr name)
         | Some (CString s) \<Rightarrow> Inr s
         | Some _ \<Rightarrow> Inl (NotString name))
      | _ \<Rightarrow> Inl (NoAttr name))"

fun decode_labels :: "(string \<times> cty) list \<Rightarrow> attr_error list \<times> (string \<times> string) list" where
  "decode_labels [] = ([], [])"
| "decode_labels ((k, v) # ls) =
     (let (errs, m) = decode_labels ls in
      case v of CString s \<Rightarrow> (errs, (k, s) # m) | _ \<Rightarrow> (LabelNotString k # errs, m))"

definition labels_of :: "cty \<Rightarrow> attr_error list \<times> (string \<times> string) list" where
  "labels_of e =
     (case e of CObject as \<Rightarrow>
        (case map_of as ''labels'' of
           None \<Rightarrow> ([], [])
         | Some (CObject ls) \<Rightarrow> decode_labels ls
         | Some (CMap ls) \<Rightarrow> decode_labels ls
         | Some _ \<Rightarrow> ([LabelsPanic], []))
      | _ \<Rightarrow> ([], []))"

fun errors_of :: "('e + 'a) list \<Rightarrow> 'e list" where
  "errors_of [] = []"
| "errors_of (Inl e # rs) = e # errors_of rs"
| "errors_of (Inr _ # rs) = errors_of rs"

definition ok_or :: "'a \<Rightarrow> 'e + 'a \<Rightarrow> 'a" where
  "ok_or d r = (case r of Inl _ \<Rightarrow> d | Inr a \<Rightarrow> a)"

definition decode_worker :: "string \<Rightarrow> cty \<Rightarrow> ws_error + worker" where
  "decode_worker name e =
     (let p = string_attr e ''private_ip''; v = string_attr e ''vpn_ip''; t = string_attr e ''server_type'';
          (lerrs, labels) = labels_of e; errs = errors_of [p, v, t] @ lerrs in
      if errs \<noteq> [] then Inl (BadWorker name errs)
      else Inr \<lparr>wk_name = name, wk_private_ip = ok_or [] p, wk_vpn_ip = ok_or [] v,
                wk_server_type = ok_or [] t, wk_labels = labels\<rparr>)"

definition decode :: "cty \<Rightarrow> ws_error + (string \<times> worker) list" where
  "decode v =
     (let entries = (\<lambda>es. map_result (\<lambda>(k, e). result_bind (decode_worker k e) (\<lambda>w. Inr (k, w))) es) in
      case v of CObject es \<Rightarrow> entries es | CMap es \<Rightarrow> entries es | _ \<Rightarrow> Inl NotAMap)"

definition parse_set :: "hcl \<Rightarrow> path \<Rightarrow> string \<Rightarrow> ws_error + worker_set" where
  "parse_set lib p src =
     (case hc_attrs lib src of Inl e \<Rightarrow> Inl (ParseFailed e)
      | Inr attrs \<Rightarrow> (case attrs ''workers'' of None \<Rightarrow> Inl (NoWorkers p)
        | Some (Inl e) \<Rightarrow> Inl (EvalFailed e)
        | Some (Inr v) \<Rightarrow> result_bind (decode v) (\<lambda>ws.
            Inr \<lparr>ws_path = p, ws_src = src, ws_workers = ws\<rparr>)))"

definition load_set :: "'w fs \<Rightarrow> hcl \<Rightarrow> path \<Rightarrow> ('w, unit, ws_error, worker_set) io" where
  "load_set fs lib p =
     io_bind (io_map_err ParseFailed (io_call (fs_read fs p))) (\<lambda>src.
       case parse_set lib p src of Inl e \<Rightarrow> io_fail e | Inr s \<Rightarrow> io_return s)"

definition set_names :: "worker_set \<Rightarrow> string list" where
  "set_names s = sorted_keys (ws_workers s)"

definition get_worker :: "worker_set \<Rightarrow> string \<Rightarrow> worker option" where
  "get_worker s name = map_of (ws_workers s) name"

definition workers_sorted :: "worker_set \<Rightarrow> worker list" where
  "workers_sorted s = map (\<lambda>n. the (map_of (ws_workers s) n)) (set_names s)"

subsection \<open>Finding an entry among the tokens\<close>

definition opens :: "token \<Rightarrow> bool" where
  "opens t \<longleftrightarrow> tk_type t \<in> set [OBrace, OBrack, OParen]"

definition closes :: "token \<Rightarrow> bool" where
  "closes t \<longleftrightarrow> tk_type t \<in> set [CBrace, CBrack, CParen]"

definition ends_line :: "token \<Rightarrow> bool" where
  "ends_line t \<longleftrightarrow> tk_type t = Comment \<and> tk_bytes t \<noteq> [] \<and> last (tk_bytes t) = NL"

definition at_line_start :: "token list \<Rightarrow> nat \<Rightarrow> bool" where
  "at_line_start ts i =
     (case i of 0 \<Rightarrow> False
      | Suc j \<Rightarrow> tk_type (ts ! j) \<in> set [OBrace, Newline, Comma] \<or> ends_line (ts ! j))"

definition entry_key :: "token list \<Rightarrow> nat \<Rightarrow> string \<Rightarrow> nat option" where
  "entry_key ts i name =
     (let after = (\<lambda>j. if j < length ts \<and> tk_type (ts ! j) \<in> set [TEqual, TColon] then Some (Suc j) else None) in
      if tk_type (ts ! i) = Ident \<and> tk_bytes (ts ! i) = name then after (i + 1)
      else if tk_type (ts ! i) = OQuote \<and> i + 2 < length ts \<and> tk_type (ts ! (i + 1)) = QuotedLit \<and>
        tk_bytes (ts ! (i + 1)) = name \<and> tk_type (ts ! (i + 2)) = CQuote then after (i + 3)
      else None)"

fun comment_start :: "token list \<Rightarrow> nat \<Rightarrow> nat" where
  "comment_start ts 0 = 0"
| "comment_start ts (Suc i) =
     (if i > 0 \<and> tk_type (ts ! i) = Comment then comment_start ts i else Suc i)"

fun entry_end :: "token list \<Rightarrow> nat list \<Rightarrow> int \<Rightarrow> nat option" where
  "entry_end ts [] d = None"
| "entry_end ts (j # js) d =
     (let t = ts ! j in
      if opens t then entry_end ts js (d + 1)
      else if closes t then (if d - 1 < 0 then Some j else entry_end ts js (d - 1))
      else if tk_type t \<in> set [Newline, Comma] then (if d = 0 then Some (Suc j) else entry_end ts js d)
      else if d = 0 \<and> ends_line t then Some (Suc j)
      else entry_end ts js d)"

fun scan_entry :: "token list \<Rightarrow> string \<Rightarrow> nat list \<Rightarrow> int \<Rightarrow> ws_error + nat \<times> nat" where
  "scan_entry ts name [] depth = Inl (NoEntry name)"
| "scan_entry ts name (i # is) depth =
     (if opens (ts ! i) then scan_entry ts name is (depth + 1)
      else if closes (ts ! i) then scan_entry ts name is (depth - 1)
      else if depth \<noteq> 1 \<or> \<not> at_line_start ts i then scan_entry ts name is depth
      else (case entry_key ts i name of
          None \<Rightarrow> scan_entry ts name is depth
        | Some k \<Rightarrow> (case entry_end ts [k..<length ts] 0 of
            None \<Rightarrow> Inl (NoEntryEnd name)
          | Some e \<Rightarrow> Inr (comment_start ts i, e))))"

definition entry_span :: "token list \<Rightarrow> string \<Rightarrow> ws_error + nat \<times> nat" where
  "entry_span ts name = scan_entry ts name [0..<length ts] 0"

subsection \<open>Editing\<close>

definition newline :: token where
  "newline = \<lparr>tk_type = Newline, tk_bytes = [NL]\<rparr>"

definition set_tokens :: "hcl \<Rightarrow> worker_set \<Rightarrow> ws_error + token list" where
  "set_tokens lib s =
     (case hc_tokens lib (ws_src s) of Inl e \<Rightarrow> Inl (ParseFailed e)
      | Inr None \<Rightarrow> Inl (NoWorkers (ws_path s))
      | Inr (Some ts) \<Rightarrow>
          (if length ts < 2 \<or> tk_type (hd ts) \<noteq> OBrace \<or> tk_type (last ts) \<noteq> CBrace
           then Inl (NotBraces (ws_path s)) else Inr ts))"

definition worker_equal :: "worker \<Rightarrow> worker \<Rightarrow> bool" where
  "worker_equal a b \<longleftrightarrow>
     wk_name a = wk_name b \<and> wk_private_ip a = wk_private_ip b \<and> wk_vpn_ip a = wk_vpn_ip b \<and>
     wk_server_type a = wk_server_type b \<and> same_map (=) (wk_labels a) (wk_labels b)"

definition finish_edit :: "hcl \<Rightarrow> worker_set \<Rightarrow> token list \<Rightarrow> (string \<times> worker) list \<Rightarrow> ws_error + string" where
  "finish_edit lib s ts want =
     (let out = hc_render lib (ws_src s) ts in
      case parse_set lib (ws_path s) out of
        Inl e \<Rightarrow> Inl (EditedNotParsed e)
      | Inr got \<Rightarrow> (if \<not> same_map worker_equal (ws_workers got) want then Inl EditedNotIntended else Inr out))"

definition worker_value :: "worker \<Rightarrow> cty" where
  "worker_value w =
     CObject [(''private_ip'', CString (wk_private_ip w)), (''vpn_ip'', CString (wk_vpn_ip w)),
       (''server_type'', CString (wk_server_type w)),
       (''labels'', CObject (map (\<lambda>(k, v). (k, CString v)) (wk_labels w)))]"

definition with_worker :: "hcl \<Rightarrow> worker_set \<Rightarrow> worker \<Rightarrow> ws_error + string" where
  "with_worker lib s w =
     (if get_worker s (wk_name w) \<noteq> None then Inl (AlreadyDeclared (ws_path s) (wk_name w))
      else result_bind (set_tokens lib s) (\<lambda>ts.
        (let entry = [\<lparr>tk_type = Ident, tk_bytes = wk_name w\<rparr>, \<lparr>tk_type = TEqual, tk_bytes = ''=''\<rparr>] @
               hc_value_tokens lib (worker_value w) @ [newline];
             out = butlast ts;
             out' = (if tk_type (last out) \<noteq> Newline then out @ [newline] else out) in
         finish_edit lib s (out' @ entry @ [last ts]) (ws_workers s @ [(wk_name w, w)]))))"

definition without_worker :: "hcl \<Rightarrow> worker_set \<Rightarrow> string \<Rightarrow> ws_error + string" where
  "without_worker lib s name =
     (if get_worker s name = None then Inl (NotDeclared (ws_path s) name)
      else result_bind (set_tokens lib s) (\<lambda>ts.
        result_bind (entry_span ts name) (\<lambda>(start, fin).
          finish_edit lib s (take start ts @ drop fin ts) (filter (\<lambda>x. fst x \<noteq> name) (ws_workers s)))))"

subsection \<open>The entries of a set as tokens\<close>

text \<open>
  What an entry of the object looks like among the tokens: comment lines, the key, \<open>=\<close> or \<open>:\<close>, a
  value whose brackets match and which has no line end outside them, and the newline or comma.
\<close>

record entry =
  en_comments :: "token list"
  en_key :: "token list"
  en_name :: string
  en_sep :: token
  en_value :: "token list"
  en_fin :: token

definition key_tokens :: "token list \<Rightarrow> string \<Rightarrow> bool" where
  "key_tokens ks name \<longleftrightarrow>
     (\<exists>k. ks = [k] \<and> tk_type k = Ident \<and> tk_bytes k = name) \<or>
     (\<exists>a b c. ks = [a, b, c] \<and> tk_type a = OQuote \<and> tk_type b = QuotedLit \<and> tk_bytes b = name \<and> tk_type c = CQuote)"

text \<open>\<open>balanced d ts\<close>: from depth \<open>d\<close> inside a value, \<open>ts\<close> closes every bracket and ends at depth 0.\<close>

fun balanced :: "nat \<Rightarrow> token list \<Rightarrow> bool" where
  "balanced d [] = (d = 0)"
| "balanced d (t # ts) =
     (if opens t then balanced (Suc d) ts
      else if closes t then d > 0 \<and> balanced (d - 1) ts
      else (d > 0 \<or> tk_type t \<notin> {Newline, Comma, Comment}) \<and> balanced d ts)"

definition entry_ok :: "entry \<Rightarrow> bool" where
  "entry_ok e \<longleftrightarrow>
     (\<forall>c \<in> set (en_comments e). ends_line c) \<and> key_tokens (en_key e) (en_name e) \<and>
     tk_type (en_sep e) \<in> {TEqual, TColon} \<and> balanced 0 (en_value e) \<and>
     tk_type (en_fin e) \<in> {Newline, Comma}"

definition entry_tokens :: "entry \<Rightarrow> token list" where
  "entry_tokens e = en_comments e @ en_key e @ [en_sep e] @ en_value e @ [en_fin e]"

definition object_tokens :: "token \<Rightarrow> token list \<Rightarrow> entry list \<Rightarrow> token \<Rightarrow> token list" where
  "object_tokens ob nl es cb = ob # nl @ concat (map entry_tokens es) @ [cb]"

lemma type_cases:
  "ends_line t \<Longrightarrow> \<not> opens t \<and> \<not> closes t" "tk_type t = Newline \<Longrightarrow> \<not> opens t \<and> \<not> closes t"
  "tk_type t = Comma \<Longrightarrow> \<not> opens t \<and> \<not> closes t" "tk_type t = Ident \<Longrightarrow> \<not> opens t \<and> \<not> closes t"
  "tk_type t = TEqual \<Longrightarrow> \<not> opens t \<and> \<not> closes t" "tk_type t = TColon \<Longrightarrow> \<not> opens t \<and> \<not> closes t"
  "tk_type t = OQuote \<Longrightarrow> \<not> opens t \<and> \<not> closes t" "tk_type t = QuotedLit \<Longrightarrow> \<not> opens t \<and> \<not> closes t"
  "tk_type t = CQuote \<Longrightarrow> \<not> opens t \<and> \<not> closes t"
  by (simp_all add: opens_def closes_def ends_line_def)

text \<open>The end of an entry, found from the token after its separator.\<close>

lemma entry_end_value:
  "balanced d vs \<Longrightarrow> tk_type f \<in> {Newline, Comma} \<Longrightarrow> ts = pre @ vs @ f # post \<Longrightarrow>
   entry_end ts [length pre..<length ts] (int d) = Some (Suc (length pre + length vs))"
proof (induction d vs arbitrary: pre rule: balanced.induct)
  case (1 d)
  then have "[length pre..<length ts] = length pre # [Suc (length pre)..<length ts]" by (simp add: upt_rec)
  with 1 type_cases(2,3) [of f] show ?case by (auto simp: Let_def)
next
  case (2 d t vs)
  have u: "[length pre..<length ts] = length pre # [length (pre @ [t])..<length ts]"
    unfolding "2.prems"(3) by (simp add: upt_rec)
  have nth: "ts ! length pre = t" unfolding "2.prems"(3) by simp
  have ts: "ts = (pre @ [t]) @ vs @ f # post" unfolding "2.prems"(3) by simp
  note bal = "2.prems"(1) and f = "2.prems"(2)
  show ?case
  proof (cases "opens t")
    case True
    with bal have "balanced (Suc d) vs" by simp
    note IH = "2.IH"(1) [OF True this f ts]
    show ?thesis unfolding u entry_end.simps nth Let_def using True IH
      by (simp del: upt_Suc add: add.commute)
  next
    case nopen: False
    show ?thesis
    proof (cases "closes t")
      case True
      with nopen bal have d: "d > 0" "balanced (d - 1) vs" by simp_all
      note IH = "2.IH"(2) [OF nopen True d(2) f ts]
      show ?thesis unfolding u entry_end.simps nth Let_def using True nopen IH d(1)
        by (simp del: upt_Suc add: of_nat_diff)
    next
      case False
      with nopen bal have d: "d > 0 \<or> tk_type t \<notin> {Newline, Comma, Comment}" "balanced d vs" by simp_all
      note IH = "2.IH"(3) [OF nopen False d(2) f ts]
      show ?thesis unfolding u entry_end.simps nth Let_def using False nopen IH d(1)
        by (auto simp del: upt_Suc simp: ends_line_def)
    qed
  qed
qed

abbreviation scan_from :: "token list \<Rightarrow> string \<Rightarrow> token list \<Rightarrow> int \<Rightarrow> ws_error + nat \<times> nat" where
  "scan_from ts name pre d \<equiv> scan_entry ts name [length pre..<length ts] d"

lemma scan_step:
  assumes "ts = pre @ t # post"
  shows "scan_from ts name pre d =
    (if opens t then scan_from ts name (pre @ [t]) (d + 1)
     else if closes t then scan_from ts name (pre @ [t]) (d - 1)
     else if d \<noteq> 1 \<or> \<not> at_line_start ts (length pre) then scan_from ts name (pre @ [t]) d
     else (case entry_key ts (length pre) name of
          None \<Rightarrow> scan_from ts name (pre @ [t]) d
        | Some k \<Rightarrow> (case entry_end ts [k..<length ts] 0 of
            None \<Rightarrow> Inl (NoEntryEnd name)
          | Some e \<Rightarrow> Inr (comment_start ts (length pre), e))))"
proof -
  have u: "[length pre..<length ts] = length pre # [length (pre @ [t])..<length ts]"
    unfolding assms by (simp add: upt_rec)
  have nth: "ts ! length pre = t" unfolding assms by simp
  show ?thesis unfolding u scan_entry.simps nth ..
qed

text \<open>Tokens that are neither brackets nor the start of a key are passed over.\<close>

lemma scan_plain:
  assumes "ts = pre @ us @ post" and "\<forall>t \<in> set us. \<not> opens t \<and> \<not> closes t \<and> tk_type t \<notin> {Ident, OQuote}"
  shows "scan_from ts name pre d = scan_from ts name (pre @ us) d"
  using assms
proof (induction us arbitrary: pre)
  case (Cons t us)
  have ts: "ts = pre @ t # (us @ post)" using Cons.prems(1) by simp
  have "ts ! length pre = t" unfolding ts by simp
  then have "entry_key ts (length pre) name = None" using Cons.prems(2) by (simp add: entry_key_def Let_def)
  then have "scan_from ts name pre d = scan_from ts name (pre @ [t]) d"
    unfolding scan_step [OF ts] using Cons.prems(2) by simp
  also have "\<dots> = scan_from ts name ((pre @ [t]) @ us) d"
    by (rule Cons.IH) (use Cons.prems in simp_all)
  finally show ?case by simp
qed simp

lemma scan_value:
  assumes "balanced d vs" "ts = pre @ vs @ post" "pre \<noteq> []"
    and "d = 0 \<longrightarrow> tk_type (last pre) \<notin> {OBrace, Newline, Comma, Comment}"
  shows "scan_from ts name pre (1 + int d) = scan_from ts name (pre @ vs) 1"
  using assms
proof (induction d vs arbitrary: pre rule: balanced.induct)
  case (2 d t vs)
  have ts: "ts = pre @ t # (vs @ post)" "ts = (pre @ [t]) @ vs @ post" using "2.prems"(2) by simp_all
  note step = scan_step [OF ts(1), of name "1 + int d"]
  show ?case
  proof (cases "opens t")
    case True
    with "2.prems"(1) have "balanced (Suc d) vs" by simp
    from "2.IH"(1) [OF True this ts(2)] True step show ?thesis by (simp add: add.commute)
  next
    case nopen: False
    show ?thesis
    proof (cases "closes t")
      case True
      with nopen "2.prems"(1) have d: "d > 0" "balanced (d - 1) vs" by simp_all
      have "tk_type (last (pre @ [t])) \<notin> {OBrace, Newline, Comma, Comment}"
        using True by (auto simp: closes_def)
      with "2.IH"(2) [OF nopen True d(2) ts(2)] step nopen True d(1) show ?thesis by (simp add: of_nat_diff)
    next
      case False
      with nopen "2.prems"(1) have d: "d > 0 \<or> tk_type t \<notin> {Newline, Comma, Comment}" "balanced d vs" by simp_all
      have "d = 0 \<longrightarrow> tk_type (last (pre @ [t])) \<notin> {OBrace, Newline, Comma, Comment}"
        using d(1) nopen by (auto simp: opens_def)
      note IH = "2.IH"(3) [OF nopen False d(2) ts(2) _ this]
      have "d = 0 \<Longrightarrow> \<not> at_line_start ts (length pre)"
      proof -
        assume "d = 0"
        with "2.prems"(3,4) obtain pre' x where x: "pre = pre' @ [x]" "tk_type x \<notin> {OBrace, Newline, Comma, Comment}"
          by (cases pre rule: rev_cases) auto
        then show ?thesis unfolding ts(1) by (auto simp: at_line_start_def ends_line_def)
      qed
      then have "scan_from ts name pre (1 + int d) = scan_from ts name (pre @ [t]) (1 + int d)"
        unfolding step using nopen False by (cases "d = 0") simp_all
      with IH show ?thesis by simp
    qed
  qed
qed simp

lemma scan_key_other:
  assumes "ts = pre @ ks @ post" and "key_tokens ks n" and "n \<noteq> name"
  shows "scan_from ts name pre 1 = scan_from ts name (pre @ ks) 1"
proof -
  from assms(2) obtain k us where ks: "ks = k # us" "tk_type k \<in> {Ident, OQuote}"
      "\<forall>t \<in> set us. \<not> opens t \<and> \<not> closes t \<and> tk_type t \<notin> {Ident, OQuote}"
    by (auto simp: key_tokens_def type_cases)
  have ts: "ts = pre @ k # (us @ post)" "ts = (pre @ [k]) @ us @ post" using assms(1) ks(1) by simp_all
  have "ts ! length pre = k" unfolding ts(1) by simp
  moreover have "us \<noteq> [] \<Longrightarrow> ts ! (length pre + 1) = hd us" unfolding ts(1) by (cases us) (simp_all add: nth_append)
  ultimately have "entry_key ts (length pre) name = None"
    using assms(2,3) ks(1) by (auto simp: entry_key_def Let_def key_tokens_def)
  with ks(2) have "scan_from ts name pre 1 = scan_from ts name (pre @ [k]) 1"
    unfolding scan_step [OF ts(1)] using type_cases(4,7) [of k] by auto
  also have "\<dots> = scan_from ts name ((pre @ [k]) @ us) 1" by (rule scan_plain [OF ts(2) ks(3)])
  finally show ?thesis by (simp add: ks(1))
qed

lemma scan_entry_other:
  assumes ok: "entry_ok e" and n: "en_name e \<noteq> name" and ts: "ts = pre @ entry_tokens e @ post"
  shows "scan_from ts name pre 1 = scan_from ts name (pre @ entry_tokens e) 1"
proof -
  let ?p1 = "pre @ en_comments e" and ?p2 = "pre @ en_comments e @ en_key e"
  let ?p3 = "pre @ en_comments e @ en_key e @ [en_sep e]" and ?p4 = "pre @ en_comments e @ en_key e @ [en_sep e] @ en_value e"
  note e = ok [unfolded entry_ok_def]
  have "scan_from ts name pre 1 = scan_from ts name ?p1 1"
    by (rule scan_plain [of _ _ _ "en_key e @ [en_sep e] @ en_value e @ [en_fin e] @ post"])
       (use e ts type_cases(1) in \<open>auto simp: entry_tokens_def ends_line_def\<close>)
  also have "\<dots> = scan_from ts name (?p1 @ en_key e) 1"
    by (rule scan_key_other [of _ _ _ "[en_sep e] @ en_value e @ [en_fin e] @ post"])
       (use e ts n in \<open>auto simp: entry_tokens_def\<close>)
  also have "\<dots> = scan_from ts name ((?p1 @ en_key e) @ [en_sep e]) 1"
    by (rule scan_plain [of _ _ _ "en_value e @ [en_fin e] @ post"])
       (use e ts type_cases(5,6) [of "en_sep e"] in \<open>auto simp: entry_tokens_def\<close>)
  also have "\<dots> = scan_from ts name (((?p1 @ en_key e) @ [en_sep e]) @ en_value e) 1"
    using scan_value [of 0 "en_value e" ts "(?p1 @ en_key e) @ [en_sep e]" "[en_fin e] @ post" name] e ts
    by (auto simp: entry_tokens_def)
  also have "\<dots> = scan_from ts name ((((?p1 @ en_key e) @ [en_sep e]) @ en_value e) @ [en_fin e]) 1"
    by (rule scan_plain [of _ _ _ post])
       (use e ts type_cases(2,3) [of "en_fin e"] in \<open>auto simp: entry_tokens_def\<close>)
  finally show ?thesis by (simp add: entry_tokens_def)
qed

lemma scan_entries_other:
  assumes "\<forall>e \<in> set es. entry_ok e \<and> en_name e \<noteq> name" and "ts = pre @ concat (map entry_tokens es) @ post"
  shows "scan_from ts name pre 1 = scan_from ts name (pre @ concat (map entry_tokens es)) 1"
  using assms
proof (induction es arbitrary: pre)
  case (Cons e es)
  have "scan_from ts name pre 1 = scan_from ts name (pre @ entry_tokens e) 1"
    by (rule scan_entry_other [of _ _ _ _ "concat (map entry_tokens es) @ post"]) (use Cons.prems in auto)
  also have "\<dots> = scan_from ts name ((pre @ entry_tokens e) @ concat (map entry_tokens es)) 1"
    by (rule Cons.IH) (use Cons.prems in auto)
  finally show ?case by simp
qed simp

text \<open>At the entry of the name, the key is found and the span is the entry.\<close>

lemma comment_start_run:
  assumes "pre \<noteq> []" and "tk_type (last pre) \<noteq> Comment" and "\<forall>c \<in> set cs. tk_type c = Comment"
  shows "comment_start (pre @ cs @ post) (length pre + length cs) = length pre"
  using assms(3)
proof (induction cs arbitrary: post rule: rev_induct)
  case Nil
  from assms(1,2) obtain pre' x where "pre = pre' @ [x]" "tk_type x \<noteq> Comment" by (cases pre rule: rev_cases) auto
  then show ?case by simp
next
  case (snoc c cs)
  have "(pre @ (cs @ [c]) @ post) ! (length pre + length cs) = c" by (simp add: nth_append)
  moreover have "length pre > 0" using assms(1) by simp
  ultimately show ?case using snoc.IH [of "c # post"] snoc.prems by simp
qed

lemma entry_key_here:
  assumes "key_tokens ks name" and "tk_type sep \<in> {TEqual, TColon}"
  shows "entry_key (pre @ ks @ sep # post) (length pre) name = Some (length (pre @ ks @ [sep]))"
proof -
  have at: "(pre @ ts) ! length pre = ts ! 0" "(pre @ ts) ! (length pre + 1) = ts ! 1"
    "(pre @ ts) ! (length pre + 2) = ts ! 2" "(pre @ ts) ! (length pre + 3) = ts ! 3" for ts :: "token list"
    using nth_append_length_plus [of pre ts 0] by (simp_all only: nth_append_length_plus add_0_right)
  from assms(1) consider k where "ks = [k]" "tk_type k = Ident" "tk_bytes k = name"
    | a b c where "ks = [a, b, c]" "tk_type a = OQuote" "tk_type b = QuotedLit" "tk_bytes b = name" "tk_type c = CQuote"
    unfolding key_tokens_def by blast
  then show ?thesis
  proof cases
    case 1
    show ?thesis unfolding entry_key_def Let_def at using 1 assms(2) by simp
  next
    case 2
    show ?thesis unfolding entry_key_def Let_def at using 2 assms(2) by simp
  qed
qed

lemma scan_entry_here:
  assumes ok: "entry_ok e" and n: "en_name e = name" and ts: "ts = pre @ entry_tokens e @ post"
    and pre: "pre \<noteq> []" "tk_type (last pre) \<in> {OBrace, Newline, Comma}"
  shows "scan_from ts name pre 1 = Inr (length pre, length (pre @ entry_tokens e))"
proof -
  note e = ok [unfolded entry_ok_def]
  let ?p1 = "pre @ en_comments e"
  let ?r = "en_key e @ en_sep e # (en_value e @ en_fin e # post)"
  have ts1: "ts = ?p1 @ ?r" using ts by (simp add: entry_tokens_def)
  have "scan_from ts name pre 1 = scan_from ts name ?p1 1"
    by (rule scan_plain [of _ _ _ ?r])
       (use e ts1 type_cases(1) in \<open>auto simp: ends_line_def\<close>)
  moreover have "scan_from ts name ?p1 1 = Inr (length pre, length (pre @ entry_tokens e))"
  proof -
    from e obtain k us where ks: "en_key e = k # us" "tk_type k \<in> {Ident, OQuote}"
      by (auto simp: key_tokens_def)
    then have nb: "\<not> opens k" "\<not> closes k" using type_cases(4,7) [of k] by auto
    have tsk: "ts = ?p1 @ k # (us @ en_sep e # (en_value e @ en_fin e # post))" using ts1 ks by simp
    have "at_line_start ts (length ?p1)"
    proof -
      have "?p1 \<noteq> []" using pre by simp
      then obtain q x where q: "?p1 = q @ [x]" by (cases ?p1 rule: rev_cases) auto
      have "tk_type x \<in> {OBrace, Newline, Comma} \<or> ends_line x"
      proof (cases "en_comments e = []")
        case True
        with q pre show ?thesis by auto
      next
        case False
        have "last ?p1 = x" unfolding q by simp
        with False have "x = last (en_comments e)" by simp
        with False e show ?thesis by simp
      qed
      moreover have "ts ! length q = x" unfolding tsk q by simp
      ultimately show ?thesis unfolding q by (auto simp: at_line_start_def)
    qed
    moreover have "entry_key ts (length ?p1) name = Some (length (?p1 @ en_key e @ [en_sep e]))"
      unfolding ts1 by (rule entry_key_here) (use e n in auto)
    moreover have "entry_end ts [length (?p1 @ en_key e @ [en_sep e])..<length ts] 0 =
        Some (Suc (length (?p1 @ en_key e @ [en_sep e]) + length (en_value e)))"
      using entry_end_value [of 0 "en_value e" "en_fin e" ts "?p1 @ en_key e @ [en_sep e]" post] e ts1 by simp
    moreover have "comment_start ts (length ?p1) = length pre"
      unfolding ts1 using comment_start_run [of pre "en_comments e" ?r] pre e
      by (auto simp: ends_line_def)
    ultimately show ?thesis
      unfolding scan_step [OF tsk] using nb by (simp add: entry_tokens_def)
  qed
  ultimately show ?thesis by simp
qed

lemma entry_tokens_last: "entry_ok e \<Longrightarrow> entry_tokens e \<noteq> [] \<and> tk_type (last (entry_tokens e)) \<in> {Newline, Comma}"
  by (simp add: entry_tokens_def entry_ok_def)

lemma entries_last:
  assumes "\<forall>e \<in> set es. entry_ok e" and "pre \<noteq> []" and "tk_type (last pre) \<in> {OBrace, Newline, Comma}"
  shows "tk_type (last (pre @ concat (map entry_tokens es))) \<in> {OBrace, Newline, Comma}"
  using assms
proof (induction es arbitrary: pre)
  case (Cons e es)
  then show ?case using entry_tokens_last [of e] Cons.IH [of "pre @ entry_tokens e"] by auto
qed simp

lemma entry_span_object:
  assumes ob: "tk_type ob = OBrace" and nl: "\<forall>t \<in> set nl. tk_type t = Newline"
    and ok: "\<forall>x \<in> set (xs @ e # ys). entry_ok x" and n: "\<forall>x \<in> set xs. en_name x \<noteq> en_name e"
  shows "entry_span (object_tokens ob nl (xs @ e # ys) cb) (en_name e) =
    Inr (length (ob # nl @ concat (map entry_tokens xs)), length (ob # nl @ concat (map entry_tokens (xs @ [e]))))"
proof -
  let ?ts = "object_tokens ob nl (xs @ e # ys) cb" and ?name = "en_name e"
  let ?post = "concat (map entry_tokens ys) @ [cb]"
  have ob': "opens ob" using ob by (simp add: opens_def)
  have "entry_span ?ts ?name = scan_from ?ts ?name [] 0" by (simp add: entry_span_def)
  also have "\<dots> = scan_from ?ts ?name [ob] 1"
    using scan_step [of ?ts "[]" ob _ ?name 0] ob' by (simp add: object_tokens_def)
  also have "\<dots> = scan_from ?ts ?name ([ob] @ nl) 1"
    by (rule scan_plain) (use nl type_cases(2) in \<open>auto simp: object_tokens_def\<close>)
  also have "\<dots> = scan_from ?ts ?name (([ob] @ nl) @ concat (map entry_tokens xs)) 1"
    by (rule scan_entries_other [of _ _ _ _ "entry_tokens e @ ?post"]) (use ok n in \<open>auto simp: object_tokens_def\<close>)
  also have "\<dots> = Inr (length (([ob] @ nl) @ concat (map entry_tokens xs)),
      length ((([ob] @ nl) @ concat (map entry_tokens xs)) @ entry_tokens e))"
  proof (rule scan_entry_here [of _ _ _ _ ?post])
    have "tk_type (last ([ob] @ nl)) \<in> {OBrace, Newline, Comma}"
      using ob nl by (cases nl rule: rev_cases) auto
    then show "tk_type (last (([ob] @ nl) @ concat (map entry_tokens xs))) \<in> {OBrace, Newline, Comma}"
      using ok by (intro entries_last) auto
  qed (use ok in \<open>auto simp: object_tokens_def\<close>)
  finally show ?thesis by simp
qed

subsection \<open>What an edit proves about its result\<close>

definition distinct_keys :: "cty \<Rightarrow> bool" where
  "distinct_keys v = (case v of CObject es \<Rightarrow> distinct (map fst es) | CMap es \<Rightarrow> distinct (map fst es) | _ \<Rightarrow> True)"

text \<open>An HCL object has one value per key.\<close>

definition hcl_laws :: "hcl \<Rightarrow> bool" where
  "hcl_laws lib \<longleftrightarrow>
     (\<forall>src attrs n v. hc_attrs lib src = Inr attrs \<and> attrs n = Some (Inr v) \<longrightarrow> distinct_keys v)"

lemma decode_entries_keys:
  "map_result (\<lambda>(k, e). result_bind (decode_worker k e) (\<lambda>w. Inr (k, w))) es = Inr ws \<Longrightarrow> map fst ws = map fst es"
  by (induction es arbitrary: ws) (auto simp: result_bind_Inr)

lemma decode_distinct: "decode v = Inr ws \<Longrightarrow> distinct_keys v \<Longrightarrow> distinct (map fst ws)"
  by (auto simp: decode_def distinct_keys_def Let_def split: cty.splits dest: decode_entries_keys)

lemma parse_set_distinct: "hcl_laws lib \<Longrightarrow> parse_set lib p src = Inr s \<Longrightarrow> distinct (map fst (ws_workers s))"
  unfolding hcl_laws_def parse_set_def
  by (auto split: sum.splits option.splits simp: result_bind_Inr dest!: decode_distinct)

lemma finish_edit_Inr:
  "finish_edit lib s ts want = Inr out \<longleftrightarrow>
     out = hc_render lib (ws_src s) ts \<and>
     (\<exists>got. parse_set lib (ws_path s) out = Inr got \<and> same_map worker_equal (ws_workers got) want)"
  by (auto simp: finish_edit_def Let_def split: sum.splits)

lemma with_worker_adds:
  assumes laws: "hcl_laws lib" "distinct (map fst (ws_workers s))" and run: "with_worker lib s wk = Inr out"
  shows "\<exists>got. parse_set lib (ws_path s) out = Inr got \<and>
    (\<forall>n. rel_option worker_equal (get_worker got n) (if n = wk_name wk then Some wk else get_worker s n))"
proof -
  from run obtain ts where fresh: "get_worker s (wk_name wk) = None"
      and "finish_edit lib s ts (ws_workers s @ [(wk_name wk, wk)]) = Inr out"
    by (auto simp: with_worker_def result_bind_Inr Let_def split: if_splits)
  then obtain got where got: "parse_set lib (ws_path s) out = Inr got"
      "same_map worker_equal (ws_workers got) (ws_workers s @ [(wk_name wk, wk)])"
    by (auto simp: finish_edit_Inr)
  have "distinct (map fst (ws_workers s @ [(wk_name wk, wk)]))"
    using laws(2) fresh by (auto simp: get_worker_def map_of_eq_None_iff)
  note same_map_lookup [OF got(2) parse_set_distinct [OF laws(1) got(1)] this]
  moreover have "map_of (ws_workers s @ [(wk_name wk, wk)]) n = (if n = wk_name wk then Some wk else get_worker s n)" for n
    using fresh by (auto simp: get_worker_def map_add_def split: option.splits)
  ultimately show ?thesis using got(1) by (auto simp: get_worker_def [of got])
qed

subsection \<open>Properties\<close>

text \<open>
  C8 An edit that returns a file has proved it: parsed again, the file holds the new Worker beside
  every old one (\<open>With\<close>), or every old one but the named (\<open>Without\<close>), and nothing else. Workers are
  compared field by field and label by label.
\<close>

theorem edits_are_proved:
  assumes "hcl_laws lib" and "distinct (map fst (ws_workers s))"
  shows "(with_worker lib s w = Inr out \<longrightarrow>
      (\<exists>got. parse_set lib (ws_path s) out = Inr got \<and>
        (\<forall>n. rel_option worker_equal (get_worker got n) (if n = wk_name w then Some w else get_worker s n)))) \<and>
    (without_worker lib s name = Inr out \<longrightarrow>
      (\<exists>got. parse_set lib (ws_path s) out = Inr got \<and>
        (\<forall>n. rel_option worker_equal (get_worker got n) (if n = name then None else get_worker s n))))"
proof (intro conjI impI)
  assume "with_worker lib s w = Inr out"
  from with_worker_adds [OF assms this] show "\<exists>got. parse_set lib (ws_path s) out = Inr got \<and>
      (\<forall>n. rel_option worker_equal (get_worker got n) (if n = wk_name w then Some w else get_worker s n))" .
next
  assume "without_worker lib s name = Inr out"
  then obtain ts where "finish_edit lib s ts (filter (\<lambda>x. fst x \<noteq> name) (ws_workers s)) = Inr out"
    by (auto simp: without_worker_def result_bind_Inr split: if_splits)
  then obtain got where got: "parse_set lib (ws_path s) out = Inr got"
      "same_map worker_equal (ws_workers got) (filter (\<lambda>x. fst x \<noteq> name) (ws_workers s))"
    by (auto simp: finish_edit_Inr)
  have "distinct (map fst (filter (\<lambda>x. fst x \<noteq> name) (ws_workers s)))"
    using assms(2) by (rule distinct_map_filter)
  note same_map_lookup [OF got(2) parse_set_distinct [OF assms(1) got(1)] this]
  then show "\<exists>got. parse_set lib (ws_path s) out = Inr got \<and>
      (\<forall>n. rel_option worker_equal (get_worker got n) (if n = name then None else get_worker s n))"
    unfolding map_of_filter_keys get_worker_def using got(1) by blast
qed

text \<open>A format of one token per byte pair is not needed: a library whose files are their tokens.\<close>

definition toy_tokens :: "string list \<Rightarrow> token list" where
  "toy_tokens ns = object_tokens \<lparr>tk_type = OBrace, tk_bytes = ''{''\<rparr> [newline]
     (map (\<lambda>n. \<lparr>en_comments = [], en_key = [\<lparr>tk_type = Ident, tk_bytes = n\<rparr>], en_name = n,
        en_sep = \<lparr>tk_type = TEqual, tk_bytes = ''=''\<rparr>, en_value = [\<lparr>tk_type = OtherTok, tk_bytes = ''1''\<rparr>],
        en_fin = newline\<rparr>) ns) \<lparr>tk_type = CBrace, tk_bytes = ''}''\<rparr>"

definition toy_names :: "token list \<Rightarrow> string list" where
  "toy_names ts = map tk_bytes (filter (\<lambda>t. tk_type t = Ident) ts)"

definition toy_hcl :: hcl where
  "toy_hcl = \<lparr>
     hc_attrs = (\<lambda>src. Inr [''workers'' \<mapsto> Inr (CMap (map (\<lambda>n.
       (n, CObject [(''private_ip'', CString n), (''vpn_ip'', CString n), (''server_type'', CString n)]))
         (remdups (str_fields src))))]),
     hc_tokens = (\<lambda>src. Inr (Some (toy_tokens (str_fields src)))),
     hc_render = (\<lambda>_ ts. join_str '' '' (toy_names ts)),
     hc_value_tokens = (\<lambda>_. [\<lparr>tk_type = OtherTok, tk_bytes = ''1''\<rparr>])\<rparr>"

definition toy_worker :: "string \<Rightarrow> worker" where
  "toy_worker n = \<lparr>wk_name = n, wk_private_ip = n, wk_vpn_ip = n, wk_server_type = n, wk_labels = []\<rparr>"

definition toy_set :: worker_set where
  "toy_set = \<lparr>ws_path = ''w'', ws_src = ''a b'', ws_workers = [(''a'', toy_worker ''a''), (''b'', toy_worker ''b'')]\<rparr>"

lemma toy_hcl_laws: "hcl_laws toy_hcl"
  by (auto simp: hcl_laws_def toy_hcl_def distinct_keys_def comp_def)

theorem edits_are_proved_witness:
  "\<exists>got. parse_set toy_hcl ''w'' ''a'' = Inr got \<and> get_worker got ''b'' = None"
proof -
  have run: "without_worker toy_hcl toy_set ''b'' = Inr ''a''" by code_simp
  have "distinct (map fst (ws_workers toy_set))" by (simp add: toy_set_def)
  from conjunct2 [OF edits_are_proved [OF toy_hcl_laws this], THEN mp, OF run]
  obtain got where "parse_set toy_hcl (ws_path toy_set) ''a'' = Inr got"
      "\<forall>n. rel_option worker_equal (get_worker got n) (if n = ''b'' then None else get_worker toy_set n)"
    by (elim exE conjE)
  from this(2) have "rel_option worker_equal (get_worker got ''b'') None" by (auto dest: spec [of _ "''b''"])
  then have "get_worker got ''b'' = None" by simp
  moreover have "ws_path toy_set = ''w''" by (simp add: toy_set_def)
  ultimately show ?thesis using \<open>parse_set toy_hcl (ws_path toy_set) ''a'' = Inr got\<close> by auto
qed

text \<open>
  \<open>Without\<close> changes the tokens of that one entry and nothing else: written as an object of
  entries, the tokens it hands on are those of the same object without the entry of the name (its
  comment lines included), every other token in place.
\<close>

theorem without_cuts_one_entry:
  assumes ts: "set_tokens lib s = Inr (object_tokens ob nl es cb)"
    and obj: "tk_type ob = OBrace" "\<forall>t \<in> set nl. tk_type t = Newline" "\<forall>e \<in> set es. entry_ok e"
    and name: "name \<in> en_name ` set es" and run: "without_worker lib s name = Inr out"
  shows "\<exists>xs e ys. es = xs @ e # ys \<and> en_name e = name \<and> name \<notin> en_name ` set xs \<and>
    out = hc_render lib (ws_src s) (object_tokens ob nl (xs @ ys) cb)"
proof -
  from name obtain xs e ys where es: "es = xs @ e # ys" "en_name e = name" "\<forall>x \<in> set xs. en_name x \<noteq> name"
    using split_list_first_prop [of es "\<lambda>e. en_name e = name"] by auto
  let ?ts = "object_tokens ob nl es cb" and ?i = "length (ob # nl @ concat (map entry_tokens xs))"
  let ?j = "length (ob # nl @ concat (map entry_tokens (xs @ [e])))"
  have span: "entry_span ?ts name = Inr (?i, ?j)"
    using entry_span_object [OF obj(1,2), of xs e ys cb] obj(3) es by auto
  then have "out = hc_render lib (ws_src s) (take ?i ?ts @ drop ?j ?ts)"
    using run ts by (auto simp: without_worker_def result_bind_Inr finish_edit_Inr split: if_splits)
  moreover have "take ?i ?ts @ drop ?j ?ts = object_tokens ob nl (xs @ ys) cb"
    by (simp add: object_tokens_def es(1))
  ultimately have out: "out = hc_render lib (ws_src s) (object_tokens ob nl (xs @ ys) cb)"
    by (simp only:)
  have "name \<notin> en_name ` set xs" using es(3) by auto
  then show ?thesis
    by (intro exI [of _ xs] exI [of _ e] exI [of _ ys] conjI es(1,2) out)
qed

theorem without_cuts_one_entry_witness:
  "without_worker toy_hcl toy_set ''b'' = Inr (hc_render toy_hcl ''a b'' (toy_tokens [''a'']))"
proof -
  have run: "without_worker toy_hcl toy_set ''b'' = Inr ''a''" by code_simp
  have ts: "set_tokens toy_hcl toy_set = Inr (toy_tokens [''a'', ''b''])" by code_simp
  have "''b'' \<in> {''a'', ''b''}" by simp
  with without_cuts_one_entry [OF ts [unfolded toy_tokens_def] _ _ _ _ run]
  show ?thesis unfolding run
    by (auto simp: entry_ok_def key_tokens_def newline_def opens_def closes_def toy_tokens_def
        Cons_eq_append_conv toy_set_def)
qed

end
