(* ===== verification/Alloc.thy ===== *)
theory Alloc
  imports Workerset Netip
begin

section \<open>workerset/alloc.go and commit.go: addresses for a new Worker, and the commit gate\<close>

text \<open>
  A pool is an inclusive range of addresses. \<open>lowest\<close> walks it from its first address and stops at
  the first one not taken, at the end of the range, or when \<open>Next\<close> wraps. \<open>next_worker\<close> is the entry
  \<open>node add\<close> writes. The commit gate reads git, here the parameter \<open>git\<close>: a command's arguments to its
  trimmed output and exit status.
\<close>

record pool =
  po_first :: addr
  po_last :: addr

datatype alloc_error =
    NotFirstLast string
  | BadPoolAddress string
  | EndsBeforeStart string
  | NoFreeAddress pool
  | BadWorkerAddress string
  | PrivateAddress alloc_error
  | VpnAddress alloc_error

definition parse_pool :: "string \<Rightarrow> alloc_error + pool" where
  "parse_pool s =
     (case cut_on CHR ''-'' s of None \<Rightarrow> Inl (NotFirstLast s)
      | Some (a, b) \<Rightarrow> (case parse_addr (trim_space a) of None \<Rightarrow> Inl (BadPoolAddress s)
        | Some f \<Rightarrow> (case parse_addr (trim_space b) of None \<Rightarrow> Inl (BadPoolAddress s)
          | Some l \<Rightarrow> if l < f then Inl (EndsBeforeStart s) else Inr \<lparr>po_first = f, po_last = l\<rparr>)))"

fun addr_room :: "addr \<Rightarrow> nat" where
  "addr_room (V4 w) = 2 ^ 32 - unat w"
| "addr_room (V6 w _) = 2 ^ 128 - unat w"

lemma addr_next_room: "addr_next a = Some b \<Longrightarrow> addr_room b < addr_room a"
proof (cases a)
  case (V4 w)
  assume "addr_next a = Some b"
  with V4 have b: "b = V4 (w + 1)" "1 + w \<noteq> 0" by (auto split: if_splits simp: add.commute)
  have "unat (1 + w) < 4294967296" using unsigned_less [of "1 + w"] by simp
  with unatSuc [OF b(2)] show ?thesis by (simp add: b(1) V4 add.commute)
next
  case (V6 w z)
  assume "addr_next a = Some b"
  with V6 have b: "b = V6 (w + 1) z" "1 + w \<noteq> 0" by (auto split: if_splits simp: add.commute)
  have "unat (1 + w) < 340282366920938463463374607431768211456" using unsigned_less [of "1 + w"] by simp
  with unatSuc [OF b(2)] show ?thesis by (simp add: b(1) V6 add.commute)
qed

function lowest_from :: "addr list \<Rightarrow> addr \<Rightarrow> addr \<Rightarrow> addr option" where
  "lowest_from taken l a =
     (if l < a then None
      else if a \<notin> set taken then Some a
      else (case addr_next a of None \<Rightarrow> None | Some b \<Rightarrow> lowest_from taken l b))"
  by pat_completeness auto
termination
  by (relation "measure (\<lambda>(_, _, a). addr_room a)") (auto dest: addr_next_room)

declare lowest_from.simps [simp del]

definition lowest :: "pool \<Rightarrow> addr list \<Rightarrow> alloc_error + addr" where
  "lowest p taken =
     (case lowest_from taken (po_last p) (po_first p) of None \<Rightarrow> Inl (NoFreeAddress p) | Some a \<Rightarrow> Inr a)"

definition parse_worker_addr :: "string \<Rightarrow> string \<Rightarrow> alloc_error + addr" where
  "parse_worker_addr name s = (case parse_addr s of None \<Rightarrow> Inl (BadWorkerAddress name) | Some a \<Rightarrow> Inr a)"

definition taken_addrs :: "worker_set \<Rightarrow> alloc_error + (addr \<times> addr) list" where
  "taken_addrs s = map_result (\<lambda>(_, w).
     result_bind (parse_worker_addr (wk_name w) (wk_private_ip w)) (\<lambda>p.
     result_bind (parse_worker_addr (wk_name w) (wk_vpn_ip w)) (\<lambda>v. Inr (p, v)))) (ws_workers s)"

definition map_error :: "('e \<Rightarrow> 'f) \<Rightarrow> 'e + 'a \<Rightarrow> 'f + 'a" where
  "map_error f r = (case r of Inl e \<Rightarrow> Inl (f e) | Inr a \<Rightarrow> Inr a)"

lemma map_error_Inr: "map_error f r = Inr a \<longleftrightarrow> r = Inr a"
  by (simp add: map_error_def split: sum.split)

definition next_worker ::
  "worker_set \<Rightarrow> string \<Rightarrow> string \<Rightarrow> pool \<Rightarrow> pool \<Rightarrow> addr list \<Rightarrow> alloc_error + worker" where
  "next_worker s name server_type private vpn reserved =
     result_bind (taken_addrs s) (\<lambda>taken.
     result_bind (map_error PrivateAddress (lowest private (map fst taken))) (\<lambda>p.
     result_bind (map_error VpnAddress (lowest vpn (reserved @ map snd taken))) (\<lambda>v.
       Inr \<lparr>wk_name = name, wk_private_ip = addr_string p, wk_vpn_ip = addr_string v,
            wk_server_type = server_type, wk_labels = [(''role'', ''worker'')]\<rparr>)))"

subsection \<open>The commit gate\<close>

datatype git_status = GitOk | GitExit nat | GitFailed string

datatype commit_error = NotTracked path | StatusFailed path string | Uncommitted path string

datatype commit_line =
    NoLastCommit path
  | NoUpstream path string
  | NotShared path string
  | NotChecked path string

text \<open>\<open>filepath.Split\<close>: the directory up to and with the last slash, and the file.\<close>

definition split_path :: "path \<Rightarrow> string \<times> string" where
  "split_path p = (case cut_on CHR ''/'' (rev p) of None \<Rightarrow> ([], p) | Some (f, d) \<Rightarrow> (rev (CHR ''/'' # d), rev f))"

definition upstream_warning :: "(string list \<Rightarrow> string \<times> git_status) \<Rightarrow> path \<Rightarrow> string \<Rightarrow> commit_line option" where
  "upstream_warning git p file =
     (let (commit, e) = git [''log'', ''-1'', ''--format=%H'', ''--'', file] in
      if e \<noteq> GitOk \<or> commit = [] then Some (NoLastCommit p)
      else if snd (git [''rev-parse'', ''--abbrev-ref'', ''--symbolic-full-name'', CHR ''@'' # ''{upstream}'']) \<noteq> GitOk
      then Some (NoUpstream p (take 12 commit))
      else (case snd (git [''merge-base'', ''--is-ancestor'', commit, CHR ''@'' # ''{upstream}'']) of
          GitOk \<Rightarrow> None
        | GitExit n \<Rightarrow> Some (if n = 1 then NotShared p (take 12 commit) else NotChecked p (take 12 commit))
        | GitFailed _ \<Rightarrow> Some (NotChecked p (take 12 commit))))"

definition check_committed ::
  "(string \<Rightarrow> string list \<Rightarrow> string \<times> git_status) \<Rightarrow> path \<Rightarrow> commit_error + commit_line list" where
  "check_committed git_in p =
     (let (dir, file) = split_path p; git = git_in dir in
      if snd (git [''ls-files'', ''--error-unmatch'', ''--'', file]) \<noteq> GitOk then Inl (NotTracked p)
      else (let (status, e) = git [''status'', ''--porcelain'', ''--'', file] in
        if e \<noteq> GitOk then Inl (StatusFailed p status)
        else if status \<noteq> [] then Inl (Uncommitted p status)
        else Inr (case upstream_warning git p file of None \<Rightarrow> [] | Some l \<Rightarrow> [l])))"

subsection \<open>The lowest free address\<close>

fun same_kind :: "addr \<Rightarrow> addr \<Rightarrow> bool" where
  "same_kind (V4 _) (V4 _) = True"
| "same_kind (V6 _ z) (V6 _ z') = (z = z')"
| "same_kind _ _ = False"

lemma addr_next_least: "addr_next a = Some b \<Longrightarrow> same_kind a c \<Longrightarrow> a < c \<Longrightarrow> b \<le> c"
  by (cases a; cases c) (auto split: if_splits intro: inc_le)

lemma addr_next_none: "addr_next a = None \<Longrightarrow> same_kind a c \<Longrightarrow> c \<le> a"
proof (cases a; cases c)
  fix w v assume a: "a = V4 w" "c = V4 v" and "addr_next a = None"
  then have "w + 1 = 0" by (simp split: if_splits)
  then have "w = - 1" by (simp add: eq_neg_iff_add_eq_0)
  then show "c \<le> a" by (simp add: a)
next
  fix w z v y assume a: "a = V6 w z" "c = V6 v y" and n: "addr_next a = None" "same_kind a c"
  then have "w + 1 = 0" by (simp split: if_splits)
  then have "w = - 1" by (simp add: eq_neg_iff_add_eq_0)
  then show "c \<le> a" using n(2) by (simp add: a)
qed auto

lemma addr_next_kind: "addr_next a = Some b \<Longrightarrow> same_kind a c = same_kind b c"
  by (cases a; cases c) (auto split: if_splits)

lemma lowest_from_Some:
  "lowest_from taken l a = Some b \<Longrightarrow>
     a \<le> b \<and> b \<le> l \<and> b \<notin> set taken \<and> (\<forall>c. same_kind a c \<and> a \<le> c \<and> c < b \<longrightarrow> c \<in> set taken)"
proof (induction taken l a rule: lowest_from.induct)
  case (1 taken l a)
  show ?case
  proof (cases "l < a \<or> a \<notin> set taken")
    case True
    with 1(2) show ?thesis by (auto simp: lowest_from.simps [of taken l a] split: if_splits)
  next
    case False
    then obtain a' where n: "addr_next a = Some a'" "lowest_from taken l a' = Some b"
      using 1(2) by (auto simp: lowest_from.simps [of taken l a] split: option.splits)
    from 1(1) [OF _ _ n] False have IH: "a' \<le> b" "b \<le> l" "b \<notin> set taken"
        "\<forall>c. same_kind a' c \<and> a' \<le> c \<and> c < b \<longrightarrow> c \<in> set taken" by auto
    have "c \<in> set taken" if "same_kind a c" "a \<le> c" "c < b" for c
      using that IH(4) addr_next_least [OF n(1)] addr_next_kind [OF n(1)] False by (cases "a = c") auto
    then show ?thesis using IH addr_next_greater [OF n(1)] by auto
  qed
qed

lemma lowest_from_None:
  "lowest_from taken l a = None \<Longrightarrow> same_kind a c \<Longrightarrow> a \<le> c \<Longrightarrow> c \<le> l \<Longrightarrow> c \<in> set taken"
proof (induction taken l a rule: lowest_from.induct)
  case (1 taken l a)
  then have na: "\<not> l < a" "a \<in> set taken"
    by (auto simp: lowest_from.simps [of taken l a] split: if_splits)
  show ?case
  proof (cases "a = c")
    case False
    with "1.prems"(3) have ac: "a < c" by simp
    show ?thesis
    proof (cases "addr_next a")
      case None
      with addr_next_none [OF None "1.prems"(2)] ac show ?thesis by simp
    next
      case (Some b)
      with na 1 have "lowest_from taken l b = None" by (simp add: lowest_from.simps [of taken l a])
      with 1(1) [OF na(1) _ Some] na(2) "1.prems" addr_next_least [OF Some "1.prems"(2) ac] addr_next_kind [OF Some]
      show ?thesis by auto
    qed
  qed (use na in simp)
qed

lemma taken_addrs_parse:
  assumes "taken_addrs s = Inr taken"
  shows "a \<in> set (map fst taken) \<longleftrightarrow> (\<exists>x \<in> set (ws_workers s). parse_addr (wk_private_ip (snd x)) = Some a)"
    and "a \<in> set (map snd taken) \<longleftrightarrow> (\<exists>x \<in> set (ws_workers s). parse_addr (wk_vpn_ip (snd x)) = Some a)"
proof -
  have all: "list_all2 (\<lambda>x y. parse_addr (wk_private_ip (snd x)) = Some (fst y) \<and>
      parse_addr (wk_vpn_ip (snd x)) = Some (snd y)) (ws_workers s) taken"
    using assms unfolding taken_addrs_def map_result_Inr
    by (rule list_all2_mono) (auto simp: result_bind_Inr parse_worker_addr_def split: option.splits)
  then show "a \<in> set (map fst taken) \<longleftrightarrow> (\<exists>x \<in> set (ws_workers s). parse_addr (wk_private_ip (snd x)) = Some a)"
    by (induction rule: list_all2_induct) auto
  from all show "a \<in> set (map snd taken) \<longleftrightarrow> (\<exists>x \<in> set (ws_workers s). parse_addr (wk_vpn_ip (snd x)) = Some a)"
    by (induction rule: list_all2_induct) auto
qed

lemma lowest_V4:
  assumes "lowest p taken = Inr x" and "po_first p = V4 a" and "po_last p = V4 b"
  shows "\<exists>n. x = V4 n \<and> a \<le> n \<and> n \<le> b \<and> V4 n \<notin> set taken \<and> (\<forall>c. a \<le> c \<and> c < n \<longrightarrow> V4 c \<in> set taken)"
proof -
  from assms(1) have "lowest_from taken (po_last p) (po_first p) = Some x"
    by (auto simp: lowest_def split: option.splits)
  from lowest_from_Some [OF this] assms(2,3)
  have x: "V4 a \<le> x" "x \<le> V4 b" "x \<notin> set taken" "\<forall>c. same_kind (V4 a) c \<and> V4 a \<le> c \<and> c < x \<longrightarrow> c \<in> set taken"
    by simp_all
  then show ?thesis by (cases x) (auto dest: spec [of _ "V4 _"])
qed

subsection \<open>Properties\<close>

text \<open>
  \<open>Next\<close> gives a new Worker the lowest free address of each pool: both addresses parse back, lie in
  their pool, and no Worker of the set holds them (nor a reserved peer the VPN one), while every
  lower address of the private pool is taken. (IPv4 pools.)
\<close>

theorem next_worker_lowest_free:
  assumes run: "next_worker s name t private vpn reserved = Inr w"
    and priv: "po_first private = V4 a" "po_last private = V4 a'"
    and v: "po_first vpn = V4 b" "po_last vpn = V4 b'"
  shows "\<exists>p q. parse_addr (wk_private_ip w) = Some (V4 p) \<and> parse_addr (wk_vpn_ip w) = Some (V4 q) \<and>
    a \<le> p \<and> p \<le> a' \<and> b \<le> q \<and> q \<le> b' \<and>
    (\<forall>x \<in> set (ws_workers s). parse_addr (wk_private_ip (snd x)) \<noteq> Some (V4 p) \<and>
       parse_addr (wk_vpn_ip (snd x)) \<noteq> Some (V4 q)) \<and>
    V4 q \<notin> set reserved \<and>
    (\<forall>c. a \<le> c \<and> c < p \<longrightarrow> (\<exists>x \<in> set (ws_workers s). parse_addr (wk_private_ip (snd x)) = Some (V4 c)))"
proof -
  from run obtain taken p q where r: "taken_addrs s = Inr taken" "lowest private (map fst taken) = Inr p"
      "lowest vpn (reserved @ map snd taken) = Inr q" "wk_private_ip w = addr_string p" "wk_vpn_ip w = addr_string q"
    by (auto simp: next_worker_def result_bind_Inr map_error_Inr)
  from lowest_V4 [OF r(2) priv] obtain n where n: "p = V4 n" "a \<le> n" "n \<le> a'" "V4 n \<notin> set (map fst taken)"
      "\<forall>c. a \<le> c \<and> c < n \<longrightarrow> V4 c \<in> set (map fst taken)" by blast
  from lowest_V4 [OF r(3) v] obtain m where m: "q = V4 m" "b \<le> m" "m \<le> b'" "V4 m \<notin> set (reserved @ map snd taken)"
    by blast
  have "parse_addr (wk_private_ip w) = Some (V4 n)" "parse_addr (wk_vpn_ip w) = Some (V4 m)"
    using parse_v4_string by (simp_all only: r n m)
  moreover have "\<forall>x \<in> set (ws_workers s). parse_addr (wk_private_ip (snd x)) \<noteq> Some (V4 n) \<and>
      parse_addr (wk_vpn_ip (snd x)) \<noteq> Some (V4 m)"
    using n(4) m(4) taken_addrs_parse [OF r(1)] by auto
  ultimately show ?thesis
    using n m taken_addrs_parse(1) [OF r(1)] by (intro exI [of _ n] exI [of _ m]) auto
qed

definition sample_workers :: worker_set where
  "sample_workers = \<lparr>ws_path = ''w'', ws_src = [], ws_workers =
     [(''k8swk1'', \<lparr>wk_name = ''k8swk1'', wk_private_ip = ''10.0.2.10'', wk_vpn_ip = ''10.8.0.10'',
        wk_server_type = ''cx22'', wk_labels = []\<rparr>)]\<rparr>"

theorem next_worker_lowest_free_witness:
  "\<exists>w. next_worker sample_workers ''k8swk2'' ''cx22''
      \<lparr>po_first = V4 0x0A00020A, po_last = V4 0x0A00020C\<rparr> \<lparr>po_first = V4 0x0A08000A, po_last = V4 0x0A08000C\<rparr>
      [V4 0x0A08000B] = Inr w \<and> wk_private_ip w = ''10.0.2.11'' \<and> wk_vpn_ip w = ''10.8.0.12'' \<and>
    (\<exists>p. parse_addr (wk_private_ip w) = Some (V4 p) \<and> 0x0A00020A \<le> p)"
proof -
  let ?w = "\<lparr>wk_name = ''k8swk2'', wk_private_ip = ''10.0.2.11'', wk_vpn_ip = ''10.8.0.12'',
    wk_server_type = ''cx22'', wk_labels = [(''role'', ''worker'')]\<rparr>"
  have p: "parse_addr ''10.0.2.10'' = Some (V4 0x0A00020A)" "parse_addr ''10.8.0.10'' = Some (V4 0x0A08000A)"
    by code_simp+
  have st: "addr_string (V4 0x0A00020B) = ''10.0.2.11''" "addr_string (V4 0x0A08000C) = ''10.8.0.12''"
    by (simp_all add: v4_string_def v4_octets_def string_of_nat.simps) (code_simp+)
  have run: "next_worker sample_workers ''k8swk2'' ''cx22''
      \<lparr>po_first = V4 0x0A00020A, po_last = V4 0x0A00020C\<rparr> \<lparr>po_first = V4 0x0A08000A, po_last = V4 0x0A08000C\<rparr>
      [V4 0x0A08000B] = Inr ?w"
    by (simp add: next_worker_def taken_addrs_def sample_workers_def parse_worker_addr_def p lowest_def
        lowest_from.simps map_error_def st [unfolded addr_string.simps])
  from next_worker_lowest_free [OF run] run show ?thesis by fastforce
qed

end
