(* ===== verification/Nodelist.thy ===== *)
theory Nodelist
  imports Workerset Cloud
begin

section \<open>nodelist/nodelist.go: the three records of a Worker side by side\<close>

text \<open>
  \<open>compare\<close> builds one row per name from the Worker set, the Hetzner servers and the Kubernetes Nodes
  and lists where they disagree. The rows are a Go map, here an association list with distinct keys.
\<close>

record node =
  nd_name :: string
  nd_ready :: bool
  nd_internal_ip :: string
  nd_kubelet :: string
  nd_control_plane :: bool

datatype drift =
    NoServer
  | ServerNotInSet
  | ServerPrivateIPs "string list" string
  | ServerStatus string
  | NotJoined
  | NodeWithoutServer
  | NotReady
  | NodeInternalIP string string

record row =
  ro_name :: string
  ro_set :: "worker option"
  ro_server :: "server option"
  ro_node :: "node option"
  ro_drift :: "drift list"

record input =
  in_set :: "worker list"
  in_servers :: "server list"
  in_nodes :: "node list"
  in_nodes_read :: bool
  in_control_plane :: string

definition empty_row :: "string \<Rightarrow> row" where
  "empty_row n = \<lparr>ro_name = n, ro_set = None, ro_server = None, ro_node = None, ro_drift = []\<rparr>"

text \<open>\<open>row(name).Field = v\<close>: the row is made when the map has none.\<close>

fun set_row :: "string \<Rightarrow> (row \<Rightarrow> row) \<Rightarrow> (string \<times> row) list \<Rightarrow> (string \<times> row) list" where
  "set_row n f [] = [(n, f (empty_row n))]"
| "set_row n f ((k, r) # m) = (if k = n then (k, f r) # m else (k, r) # set_row n f m)"

definition drift_of :: "row \<Rightarrow> bool \<Rightarrow> drift list" where
  "drift_of r nodes_read =
     (case (ro_set r, ro_server r) of
        (Some _, None) \<Rightarrow> [NoServer]
      | (None, Some _) \<Rightarrow> [ServerNotInSet]
      | (Some w, Some s) \<Rightarrow>
          (if sv_private_ips s \<noteq> [wk_private_ip w] then [ServerPrivateIPs (sv_private_ips s) (wk_private_ip w)] else []) @
          (if \<not> running s then [ServerStatus (sv_status s)] else [])
      | (None, None) \<Rightarrow> []) @
     (if \<not> nodes_read then [] else
        (case (ro_node r, ro_server r) of
           (None, Some _) \<Rightarrow> [NotJoined]
         | (Some _, None) \<Rightarrow> [NodeWithoutServer]
         | _ \<Rightarrow> []) @
        (case ro_node r of None \<Rightarrow> []
         | Some n \<Rightarrow> (if \<not> nd_ready n then [NotReady] else []) @
             (case ro_set r of None \<Rightarrow> []
              | Some w \<Rightarrow> if nd_internal_ip n \<noteq> wk_private_ip w
                  then [NodeInternalIP (nd_internal_ip n) (wk_private_ip w)] else [])))"

definition own_servers :: "input \<Rightarrow> server list" where
  "own_servers inp = filter (\<lambda>s. sv_name s \<noteq> in_control_plane inp) (in_servers inp)"

definition own_nodes :: "input \<Rightarrow> node list" where
  "own_nodes inp = filter (\<lambda>n. nd_name n \<noteq> in_control_plane inp \<and> \<not> nd_control_plane n) (in_nodes inp)"

definition collect_rows :: "input \<Rightarrow> (string \<times> row) list" where
  "collect_rows inp =
     (let m1 = fold (\<lambda>w. set_row (wk_name w) (ro_set_update (\<lambda>_. Some w))) (in_set inp) [];
          m2 = fold (\<lambda>s. set_row (sv_name s) (ro_server_update (\<lambda>_. Some s))) (own_servers inp) m1 in
      fold (\<lambda>n. set_row (nd_name n) (ro_node_update (\<lambda>_. Some n))) (own_nodes inp) m2)"

definition compare :: "input \<Rightarrow> row list" where
  "compare inp =
     (let rows = collect_rows inp in
      map (\<lambda>n. let r = the (map_of rows n) in r\<lparr>ro_drift := drift_of r (in_nodes_read inp)\<rparr>) (sorted_keys rows))"

definition has_drift :: "row list \<Rightarrow> bool" where
  "has_drift rows = list_ex (\<lambda>r. ro_drift r \<noteq> []) rows"

subsection \<open>The cells of the table\<close>

definition row_cells :: "row \<Rightarrow> bool \<Rightarrow> string list" where
  "row_cells r nodes_read =
     [ro_name r,
      (case ro_set r of None \<Rightarrow> ''-'' | Some w \<Rightarrow> wk_private_ip w @ '', '' @ wk_vpn_ip w),
      (case ro_server r of None \<Rightarrow> ''-'' | Some s \<Rightarrow> sv_status s @ '', '' @ join_str '' '' (sv_private_ips s)),
      (if \<not> nodes_read then ''?''
       else (case ro_node r of None \<Rightarrow> ''-''
             | Some n \<Rightarrow> (if nd_ready n then ''Ready '' else ''NotReady '') @ nd_kubelet n))]"

subsection \<open>The rows\<close>

text \<open>The last element of a record with a given name, which is the one the row keeps.\<close>

definition last_named :: "('a \<Rightarrow> string) \<Rightarrow> 'a list \<Rightarrow> string \<Rightarrow> 'a option" where
  "last_named nm xs n = map_of (map (\<lambda>x. (nm x, x)) (rev xs)) n"

lemma set_row_keys: "fst ` set (set_row n f m) = insert n (fst ` set m)"
  by (induction n f m rule: set_row.induct) (simp_all add: insert_commute)

lemma set_row_distinct: "distinct (map fst m) \<Longrightarrow> distinct (map fst (set_row n f m))"
  by (induction n f m rule: set_row.induct) (auto simp: set_row_keys)

lemma set_row_lookup:
  "map_of (set_row n f m) k =
     (if k = n then Some (f (case map_of m n of None \<Rightarrow> empty_row n | Some r \<Rightarrow> r)) else map_of m k)"
  by (induction m) auto

lemma fold_rows:
  assumes "distinct (map fst m)"
  shows "distinct (map fst (fold (\<lambda>x. set_row (nm x) (upd x)) xs m))"
    and "fst ` set (fold (\<lambda>x. set_row (nm x) (upd x)) xs m) = fst ` set m \<union> nm ` set xs"
  using assms by (induction xs arbitrary: m) (auto simp: set_row_keys set_row_distinct)

lemma fold_rows_lookup:
  assumes "\<And>x y r. upd x (upd y r) = upd x r"
  shows "map_of (fold (\<lambda>x. set_row (nm x) (upd x)) xs m) n =
    (case last_named nm xs n of None \<Rightarrow> map_of m n
     | Some x \<Rightarrow> Some (upd x (case map_of m n of None \<Rightarrow> empty_row n | Some r \<Rightarrow> r)))"
proof (induction xs rule: rev_induct)
  case (snoc x xs)
  then show ?case
    by (auto simp: set_row_lookup last_named_def assms split: option.splits)
qed (simp add: last_named_def)

definition row_of :: "input \<Rightarrow> string \<Rightarrow> row" where
  "row_of inp n = \<lparr>ro_name = n, ro_set = last_named wk_name (in_set inp) n,
     ro_server = last_named sv_name (own_servers inp) n,
     ro_node = last_named nd_name (own_nodes inp) n, ro_drift = []\<rparr>"

definition known_names :: "input \<Rightarrow> string set" where
  "known_names inp = wk_name ` set (in_set inp) \<union> sv_name ` set (own_servers inp) \<union> nd_name ` set (own_nodes inp)"

lemma collect_rows_keys:
  "distinct (map fst (collect_rows inp))" "fst ` set (collect_rows inp) = known_names inp"
  by (simp_all add: collect_rows_def Let_def fold_rows known_names_def)

lemma last_named_None: "last_named nm xs n = None \<longleftrightarrow> n \<notin> nm ` set xs"
  by (simp add: last_named_def map_of_eq_None_iff image_image)

lemma known_names_iff:
  "n \<in> known_names inp \<longleftrightarrow> last_named wk_name (in_set inp) n \<noteq> None \<or>
     last_named sv_name (own_servers inp) n \<noteq> None \<or> last_named nd_name (own_nodes inp) n \<noteq> None"
  by (simp add: known_names_def last_named_None)

lemma last_named_Some: "last_named nm xs n = Some x \<Longrightarrow> x \<in> set xs \<and> nm x = n"
  by (auto simp: last_named_def dest!: map_of_SomeD)

lemma collect_rows_lookup:
  "n \<in> known_names inp \<Longrightarrow> map_of (collect_rows inp) n = Some (row_of inp n)"
  unfolding collect_rows_def Let_def
  by (subst fold_rows_lookup, simp)+
    (auto simp: row_of_def empty_row_def known_names_iff split: option.splits)

lemma compare_rows:
  "compare inp = map (\<lambda>n. (row_of inp n)\<lparr>ro_drift := drift_of (row_of inp n) (in_nodes_read inp)\<rparr>)
     (sorted_keys (collect_rows inp))"
  by (auto simp: compare_def Let_def collect_rows_lookup collect_rows_keys(2) [symmetric])

subsection \<open>Properties\<close>

text \<open>The three records agree on a name: each has it or none has, and the addresses match.\<close>

definition agree :: "input \<Rightarrow> string \<Rightarrow> bool" where
  "agree inp n \<longleftrightarrow>
     (case (last_named wk_name (in_set inp) n, last_named sv_name (own_servers inp) n) of
        (Some w, Some s) \<Rightarrow> sv_private_ips s = [wk_private_ip w] \<and> running s \<and>
          (in_nodes_read inp \<longrightarrow> (case last_named nd_name (own_nodes inp) n of
             None \<Rightarrow> False | Some d \<Rightarrow> nd_ready d \<and> nd_internal_ip d = wk_private_ip w))
      | (None, None) \<Rightarrow> in_nodes_read inp \<longrightarrow> last_named nd_name (own_nodes inp) n = None
      | _ \<Rightarrow> False)"

lemma drift_empty_iff: "drift_of (row_of inp n) (in_nodes_read inp) = [] \<longleftrightarrow> agree inp n"
  by (auto simp: drift_of_def agree_def row_of_def split: option.splits)

text \<open>
  \<open>Compare\<close> has one row per Worker name that any of the three records holds (the Control Plane left
  out), sorted and each once, and \<open>HasDrift\<close> is false exactly when the records agree on every name:
  a server with just the set's private address and running, and, when the Nodes could be read, a
  Ready Node at that address.
\<close>

theorem compare_finds_all_drift:
  "sorted (map ro_name (compare inp)) \<and> distinct (map ro_name (compare inp)) \<and>
   set (map ro_name (compare inp)) = known_names inp \<and>
   (has_drift (compare inp) \<longleftrightarrow> (\<exists>n. n \<in> known_names inp \<and> \<not> agree inp n))"
proof -
  have names: "map ro_name (compare inp) = sorted_keys (collect_rows inp)"
    by (simp add: compare_rows comp_def row_of_def)
  moreover have "has_drift (compare inp) \<longleftrightarrow> (\<exists>n. n \<in> known_names inp \<and> \<not> agree inp n)"
    by (auto simp: has_drift_def compare_rows list_ex_iff drift_empty_iff collect_rows_keys)
  ultimately show ?thesis by (simp add: collect_rows_keys)
qed

end
