(* ===== verification/Catalog.thy ===== *)
theory Catalog
  imports Files
begin

section \<open>catalog/catalog.go and key.go: the Secret Catalog\<close>

text \<open>
  The catalog is read by the YAML package (the parameter \<open>decode\<close>: entry names with their fields, an
  entry or a key possibly nil) and validated here: names, files, the fields each kind may set, and,
  once every entry is known, that a copy names a generated or issued key of the catalog. A raw entry
  is \<open>key option secret\<close> (keys may be nil); a validated one is \<open>key secret\<close>.
\<close>

datatype key_kind = Generated | Issued | Copy | Literal | OtherKind string

record ref =
  rf_namespace :: string
  rf_name :: string

record key_ref =
  kr_secret :: ref
  kr_key :: string

record key =
  ky_kind :: key_kind
  ky_note :: string
  ky_length :: int
  ky_item :: string
  ky_field :: string
  ky_attachment :: string
  ky_rehearsal_item :: string
  ky_from :: string
  ky_format :: string
  ky_value :: string
  ky_source :: key_ref

record 'k secret =
  sc_ref :: ref
  sc_file :: string
  sc_type :: string
  sc_labels :: "(string \<times> string) list"
  sc_note :: string
  sc_keys :: "(string \<times> 'k) list"
  sc_rehearsal :: string

record catalog =
  ct_secrets :: "key secret list"
  ct_root :: path

datatype key_error =
    UnknownKind key_kind
  | HasNoField key_kind string
  | LengthOutside int
  | NoItem
  | FieldOrAttachment
  | RehearsalItemIsLive
  | BadFrom string
  | BadFormat
  | NoLiteralValue

datatype cat_error =
    BadRef string
  | BadKeyRef string
  | EmptyEntry string
  | FileRequired ref
  | FileNotClean ref string
  | FileName ref string
  | FileTwice ref string ref
  | BadRehearsal ref string
  | NoKeys ref
  | BadKeyName ref string
  | EmptyKey ref string
  | BadKey ref string key_error
  | CopyOfNothing ref string key_ref
  | CopyNotCopyable ref string key_ref key_kind
  | YamlError string

definition zero_key_ref :: key_ref where
  "zero_key_ref = \<lparr>kr_secret = \<lparr>rf_namespace = [], rf_name = []\<rparr>, kr_key = []\<rparr>"

definition ref_string :: "ref \<Rightarrow> string" where
  "ref_string r = rf_namespace r @ ''/'' @ rf_name r"

definition key_ref_string :: "key_ref \<Rightarrow> string" where
  "key_ref_string k = ref_string (kr_secret k) @ ''.'' @ kr_key k"

definition key_names :: "'k secret \<Rightarrow> string list" where
  "key_names s = sorted_keys (sc_keys s)"

definition secret_key :: "'k secret \<Rightarrow> string \<Rightarrow> 'k option" where
  "secret_key s n = map_of (sc_keys s) n"

subsection \<open>Names\<close>

definition lower_alnum :: "char \<Rightarrow> bool" where
  "lower_alnum c \<longleftrightarrow> CHR ''a'' \<le> c \<and> c \<le> CHR ''z'' \<or> is_digit c"

definition name_within :: "char set \<Rightarrow> nat \<Rightarrow> string \<Rightarrow> bool" where
  "name_within extra n s \<longleftrightarrow>
     s \<noteq> [] \<and> length s \<le> n \<and> lower_alnum (hd s) \<and> lower_alnum (last s) \<and>
     list_all (\<lambda>c. lower_alnum c \<or> c \<in> extra) s"

definition dns_label :: "string \<Rightarrow> bool" where
  "dns_label s = name_within {CHR ''-''} 63 s"

definition dns_subdomain :: "string \<Rightarrow> bool" where
  "dns_subdomain s = name_within {CHR ''-'', CHR ''.''} 253 s"

definition key_name :: "string \<Rightarrow> bool" where
  "key_name s \<longleftrightarrow> s \<noteq> [] \<and>
     list_all (\<lambda>c. c \<in> set ''-._'' \<or> lower_alnum c \<or> (CHR ''A'' \<le> c \<and> c \<le> CHR ''Z'')) s"

definition parse_ref :: "string \<Rightarrow> cat_error + ref" where
  "parse_ref s =
     (case cut_on CHR ''/'' s of None \<Rightarrow> Inl (BadRef s)
      | Some (ns, name) \<Rightarrow>
          if \<not> dns_label ns \<or> \<not> dns_subdomain name then Inl (BadRef s)
          else Inr \<lparr>rf_namespace = ns, rf_name = name\<rparr>)"

definition parse_key_ref :: "string \<Rightarrow> cat_error + key_ref" where
  "parse_key_ref s =
     (case cut_on CHR ''.'' (rev s) of None \<Rightarrow> Inl (BadKeyRef s)
      | Some (rk, rr) \<Rightarrow> (case parse_ref (rev rr) of Inl _ \<Rightarrow> Inl (BadKeyRef s)
        | Inr r \<Rightarrow> if \<not> key_name (rev rk) then Inl (BadKeyRef s)
            else Inr \<lparr>kr_secret = r, kr_key = rev rk\<rparr>))"

subsection \<open>One key\<close>

definition value_placeholder :: string where
  "value_placeholder = ''{value}''"

definition render_copy :: "key \<Rightarrow> string \<Rightarrow> string" where
  "render_copy k source =
     (if ky_format k = [] then source else replace_first value_placeholder source (ky_format k))"

definition in_rehearsal :: "key \<Rightarrow> bool" where
  "in_rehearsal k \<longleftrightarrow> ky_kind k \<noteq> Issued \<or> ky_rehearsal_item k \<noteq> []"

definition for_rehearsal :: "key \<Rightarrow> key" where
  "for_rehearsal k =
     (if ky_kind k = Issued then k\<lparr>ky_item := ky_rehearsal_item k, ky_rehearsal_item := []\<rparr> else k)"

fun kind_fields :: "key_kind \<Rightarrow> string list" where
  "kind_fields Generated = [''length'']"
| "kind_fields Issued = [''item'', ''field'', ''attachment'', ''rehearsalItem'']"
| "kind_fields Copy = [''from'', ''format'']"
| "kind_fields Literal = [''value'']"
| "kind_fields (OtherKind _) = []"

fun copyable :: "key_kind \<Rightarrow> bool" where
  "copyable Generated = True"
| "copyable Issued = True"
| "copyable _ = False"

definition default_length :: int where "default_length = 40"
definition min_length :: int where "min_length = 32"
definition max_length :: int where "max_length = 256"

fun check_kind :: "key_kind \<Rightarrow> key \<Rightarrow> key_error + key" where
  "check_kind Generated k =
     (let k' = (if ky_length k = 0 then k\<lparr>ky_length := default_length\<rparr> else k) in
      if ky_length k' < min_length \<or> ky_length k' > max_length then Inl (LengthOutside (ky_length k')) else Inr k')"
| "check_kind Issued k =
     (if ky_item k = [] then Inl NoItem
      else if (ky_field k = []) = (ky_attachment k = []) then Inl FieldOrAttachment
      else if ky_rehearsal_item k = ky_item k then Inl RehearsalItemIsLive
      else Inr k)"
| "check_kind Copy k =
     (case parse_key_ref (ky_from k) of Inl _ \<Rightarrow> Inl (BadFrom (ky_from k))
      | Inr src \<Rightarrow>
          if ky_format k \<noteq> [] \<and> count_sub value_placeholder 0 (ky_format k) \<noteq> 1 then Inl BadFormat
          else Inr (k\<lparr>ky_source := src\<rparr>))"
| "check_kind Literal k = (if ky_value k = [] then Inl NoLiteralValue else Inr k)"
| "check_kind (OtherKind s) k = Inl (UnknownKind (OtherKind s))"

definition set_fields :: "key \<Rightarrow> (string \<times> bool) list" where
  "set_fields k =
     [(''length'', ky_length k \<noteq> 0), (''item'', ky_item k \<noteq> []), (''field'', ky_field k \<noteq> []),
      (''attachment'', ky_attachment k \<noteq> []), (''rehearsalItem'', ky_rehearsal_item k \<noteq> []),
      (''from'', ky_from k \<noteq> []), (''format'', ky_format k \<noteq> []), (''value'', ky_value k \<noteq> [])]"

definition validate_key :: "key \<Rightarrow> key_error + key" where
  "validate_key k =
     (case ky_kind k of OtherKind s \<Rightarrow> Inl (UnknownKind (OtherKind s))
      | kind \<Rightarrow> (case find (\<lambda>(n, b). b \<and> n \<notin> set (kind_fields kind)) (set_fields k) of
          Some (n, _) \<Rightarrow> Inl (HasNoField kind n)
        | None \<Rightarrow> check_kind kind k))"

subsection \<open>Paths\<close>

text \<open>\<open>path.Clean\<close> of a relative path, and \<open>path.Base\<close>.\<close>

fun clean_parts :: "string list \<Rightarrow> string list \<Rightarrow> string list" where
  "clean_parts [] st = rev st"
| "clean_parts (p # ps) st =
     (if p = [] \<or> p = ''.'' then clean_parts ps st
      else if p = ''..'' \<and> st \<noteq> [] \<and> hd st \<noteq> ''..'' then clean_parts ps (tl st)
      else clean_parts ps (p # st))"

definition clean_rel :: "string \<Rightarrow> string" where
  "clean_rel p = (let ps = clean_parts (split_on CHR ''/'' p) [] in
     if ps = [] then ''.'' else join_str ''/'' ps)"

definition enc_suffix :: string where "enc_suffix = ''.enc.yaml''"

subsection \<open>The whole catalog\<close>

definition file_errors :: "'k secret \<Rightarrow> cat_error list" where
  "file_errors s =
     (let f = sc_file s; r = sc_ref s in
      if f = [] then [FileRequired r]
      else if hd f = CHR ''/'' \<or> clean_rel f \<noteq> f \<or> take 3 f = ''../'' then [FileNotClean r f]
      else if path_base f \<noteq> rf_name r @ enc_suffix then [FileName r f] else [])"

definition check_key :: "ref \<Rightarrow> string \<Rightarrow> key option \<Rightarrow> cat_error list \<times> key option" where
  "check_key r n ok =
     (if \<not> key_name n then ([BadKeyName r n], ok)
      else (case ok of None \<Rightarrow> ([EmptyKey r n], None)
        | Some k \<Rightarrow> (case validate_key k of
            Inl e \<Rightarrow> ([BadKey r n e], ok)
          | Inr k' \<Rightarrow> ([], Some k'))))"

definition validate_keys :: "key option secret \<Rightarrow> cat_error list \<times> (string \<times> key option) list" where
  "validate_keys s =
     (let checked = map (\<lambda>n. (n, check_key (sc_ref s) n (the (secret_key s n)))) (key_names s) in
      (concat (map (fst \<circ> snd) checked), map (\<lambda>(n, c). (n, snd c)) checked))"

text \<open>One entry of the first loop; \<open>files\<close> is the map from file to the entry that has it.\<close>

definition validate_entry ::
  "(string \<rightharpoonup> ref) \<Rightarrow> key option secret \<Rightarrow> cat_error list \<times> (string \<rightharpoonup> ref) \<times> key option secret" where
  "validate_entry files s =
     (let (kerrs, keys) = validate_keys s in
      (file_errors s @
       (case files (sc_file s) of None \<Rightarrow> [] | Some other \<Rightarrow> [FileTwice (sc_ref s) (sc_file s) other]) @
       (if sc_rehearsal s \<noteq> [] \<and> sc_rehearsal s \<noteq> ''omit'' then [BadRehearsal (sc_ref s) (sc_rehearsal s)] else []) @
       (if sc_keys s = [] then [NoKeys (sc_ref s)] else []) @ kerrs,
       files(sc_file s \<mapsto> sc_ref s), s\<lparr>sc_keys := keys\<rparr>))"

fun validate_entries ::
  "(string \<rightharpoonup> ref) \<Rightarrow> key option secret list \<Rightarrow> cat_error list \<times> key option secret list" where
  "validate_entries files [] = ([], [])"
| "validate_entries files (s # ss) =
     (let (errs, files', s') = validate_entry files s; (errs', ss') = validate_entries files' ss in
      (errs @ errs', s' # ss'))"

definition raw_by_ref :: "'k secret list \<Rightarrow> ref \<Rightarrow> 'k secret option" where
  "raw_by_ref ss r = find (\<lambda>s. sc_ref s = r) ss"

definition copy_errors :: "key option secret list \<Rightarrow> cat_error list" where
  "copy_errors ss = concat (map (\<lambda>s. concat (map (\<lambda>n.
     case the (secret_key s n) of
       None \<Rightarrow> []
     | Some k \<Rightarrow>
         if ky_kind k \<noteq> Copy \<or> ky_source k = zero_key_ref then []
         else (case Option.bind (raw_by_ref ss (kr_secret (ky_source k))) (\<lambda>t.
               Option.bind (secret_key t (kr_key (ky_source k))) (\<lambda>x. x)) of
             None \<Rightarrow> [CopyOfNothing (sc_ref s) n (ky_source k)]
           | Some sk \<Rightarrow>
               if \<not> copyable (ky_kind sk)
               then [CopyNotCopyable (sc_ref s) n (ky_source k) (ky_kind sk)] else []))
     (key_names s))) ss)"

fun read_entries ::
  "(string \<times> key option secret option) list \<Rightarrow> cat_error list \<times> key option secret list" where
  "read_entries [] = ([], [])"
| "read_entries ((nm, s) # es) =
     (let (errs, ss) = read_entries es in
      case parse_ref nm of
        Inl e \<Rightarrow> (e # errs, ss)
      | Inr r \<Rightarrow> (case s of
          None \<Rightarrow> (EmptyEntry nm # errs, ss)
        | Some s \<Rightarrow> (errs,
            s\<lparr>sc_ref := r, sc_type := (if sc_type s = [] then ''Opaque'' else sc_type s)\<rparr> # ss)))"

definition strip_keys :: "key option secret \<Rightarrow> key secret" where
  "strip_keys s = \<lparr>sc_ref = sc_ref s, sc_file = sc_file s, sc_type = sc_type s, sc_labels = sc_labels s,
     sc_note = sc_note s, sc_keys = map (\<lambda>(n, k). (n, the k)) (sc_keys s), sc_rehearsal = sc_rehearsal s\<rparr>"

definition parse_catalog ::
  "(string \<Rightarrow> string + (string \<times> key option secret option) list) \<Rightarrow> string \<Rightarrow> path \<Rightarrow>
     cat_error list + catalog" where
  "parse_catalog decode data root =
     (case decode data of Inl e \<Rightarrow> Inl [YamlError e]
      | Inr doc \<Rightarrow>
          (let (errs, raw) = read_entries doc; ss = sort_key (\<lambda>s. ref_string (sc_ref s)) raw in
           if errs \<noteq> [] then Inl errs
           else (let (verrs, vs) = validate_entries Map.empty ss; all = verrs @ copy_errors vs in
             if all \<noteq> [] then Inl all
             else Inr \<lparr>ct_secrets = map strip_keys vs, ct_root = root\<rparr>)))"

definition catalog_secret :: "catalog \<Rightarrow> ref \<Rightarrow> key secret option" where
  "catalog_secret c r = raw_by_ref (ct_secrets c) r"

definition by_file :: "catalog \<Rightarrow> string \<Rightarrow> key secret option" where
  "by_file c rel = find (\<lambda>s. sc_file s = rel) (ct_secrets c)"

definition copies_of :: "catalog \<Rightarrow> key_ref \<Rightarrow> key_ref list" where
  "copies_of c src = concat (map (\<lambda>s. map (\<lambda>n. \<lparr>kr_secret = sc_ref s, kr_key = n\<rparr>)
     (filter (\<lambda>n. let k = the (secret_key s n) in ky_kind k = Copy \<and> ky_source k = src) (key_names s)))
     (ct_secrets c))"

definition secret_path :: "catalog \<Rightarrow> 'k secret \<Rightarrow> path" where
  "secret_path c s = (if ct_root c = ''/'' then [] else ct_root c) @ ''/'' @ sc_file s"

subsection \<open>What a validated catalog is\<close>

definition key_ok :: "key \<Rightarrow> bool" where
  "key_ok k \<longleftrightarrow>
     (case ky_kind k of
        Generated \<Rightarrow> min_length \<le> ky_length k \<and> ky_length k \<le> max_length
      | Issued \<Rightarrow> ky_item k \<noteq> [] \<and> (ky_field k = []) \<noteq> (ky_attachment k = []) \<and>
          ky_rehearsal_item k \<noteq> ky_item k
      | Copy \<Rightarrow> parse_key_ref (ky_from k) = Inr (ky_source k) \<and>
          (ky_format k = [] \<or> count_sub value_placeholder 0 (ky_format k) = 1)
      | Literal \<Rightarrow> ky_value k \<noteq> []
      | OtherKind _ \<Rightarrow> False)"

definition secret_ok :: "key secret \<Rightarrow> bool" where
  "secret_ok s \<longleftrightarrow> file_errors s = [] \<and> sc_type s \<noteq> [] \<and> distinct (map fst (sc_labels s)) \<and>
     sc_keys s \<noteq> [] \<and> distinct (map fst (sc_keys s)) \<and>
     (\<forall>(n, k) \<in> set (sc_keys s). key_name n \<and> key_ok k)"

definition copies_ok :: "key secret list \<Rightarrow> bool" where
  "copies_ok ss \<longleftrightarrow> (\<forall>s \<in> set ss. \<forall>(n, k) \<in> set (sc_keys s). ky_kind k = Copy \<longrightarrow>
     (\<exists>t sk. raw_by_ref ss (kr_secret (ky_source k)) = Some t \<and>
        secret_key t (kr_key (ky_source k)) = Some sk \<and> copyable (ky_kind sk)))"

definition catalog_ok :: "catalog \<Rightarrow> bool" where
  "catalog_ok c \<longleftrightarrow>
     distinct (map sc_ref (ct_secrets c)) \<and> sorted (map (ref_string \<circ> sc_ref) (ct_secrets c)) \<and>
     distinct (map sc_file (ct_secrets c)) \<and> (\<forall>s \<in> set (ct_secrets c). secret_ok s) \<and>
     copies_ok (ct_secrets c)"

lemma validate_key_ok:
  "validate_key k = Inr k' \<Longrightarrow> key_ok k' \<and> ky_kind k' = ky_kind k"
  by (cases "ky_kind k")
    (auto simp: validate_key_def key_ok_def Let_def default_length_def min_length_def max_length_def
      split: option.splits if_splits sum.splits)

definition entry_checked :: "key option secret \<Rightarrow> key option secret \<Rightarrow> bool" where
  "entry_checked s v \<longleftrightarrow>
     sc_ref v = sc_ref s \<and> sc_file v = sc_file s \<and> sc_type v = sc_type s \<and> sc_labels v = sc_labels s \<and> file_errors v = [] \<and> sc_keys v \<noteq> [] \<and>
     map fst (sc_keys v) = key_names s \<and>
     (\<forall>(n, ok) \<in> set (sc_keys v). key_name n \<and> (\<exists>k. ok = Some k \<and> key_ok k))"

lemma check_key_ok:
  "fst (check_key r n ok) = [] \<Longrightarrow> key_name n \<and> (\<exists>k. snd (check_key r n ok) = Some k \<and> key_ok k)"
  using validate_key_ok by (auto simp: check_key_def split: if_splits option.splits sum.splits)

lemma validate_keys_checked:
  assumes "validate_keys s = ([], ks)"
  shows "map fst ks = key_names s" and "\<forall>(n, ok) \<in> set ks. key_name n \<and> (\<exists>k. ok = Some k \<and> key_ok k)"
proof -
  from assms have ks: "ks = map (\<lambda>n. (n, snd (check_key (sc_ref s) n (the (secret_key s n))))) (key_names s)"
    and errs: "\<forall>n \<in> set (key_names s). fst (check_key (sc_ref s) n (the (secret_key s n))) = []"
    by (auto simp: validate_keys_def Let_def comp_def)
  show "map fst ks = key_names s" by (simp add: ks comp_def)
  show "\<forall>(n, ok) \<in> set ks. key_name n \<and> (\<exists>k. ok = Some k \<and> key_ok k)"
    using errs check_key_ok by (auto simp: ks)
qed

lemma validate_entry_checked:
  assumes "validate_entry files s = ([], files', v)"
  shows "entry_checked s v \<and> files (sc_file s) = None \<and> files' = files(sc_file s \<mapsto> sc_ref s)"
proof -
  obtain kerrs ks where k: "validate_keys s = (kerrs, ks)" by (cases "validate_keys s")
  from assms k have e: "kerrs = []" "file_errors s = []" "sc_keys s \<noteq> []" "files (sc_file s) = None"
      "files' = files(sc_file s \<mapsto> sc_ref s)" "v = s\<lparr>sc_keys := ks\<rparr>"
    by (auto simp: validate_entry_def split: option.splits if_splits)
  note c = validate_keys_checked [OF k [unfolded e(1)]]
  have "length (key_names s) \<noteq> 0" using e(3) by (simp add: key_names_def sorted_keys_def)
  then have "ks \<noteq> []" using c(1) by auto
  then show ?thesis using e c by (simp add: entry_checked_def file_errors_def Let_def)
qed

lemma validate_entries_checked:
  assumes "validate_entries files ss = ([], vs)"
  shows "list_all2 entry_checked ss vs \<and> distinct (map sc_file ss) \<and> (\<forall>s \<in> set ss. files (sc_file s) = None)"
  using assms
proof (induction ss arbitrary: files vs)
  case (Cons s ss)
  obtain errs files' v where v: "validate_entry files s = (errs, files', v)" by (cases "validate_entry files s")
  obtain errs' vs' where vs: "validate_entries files' ss = (errs', vs')" by (cases "validate_entries files' ss")
  from Cons.prems v vs have e: "errs = []" "errs' = []" "vs = v # vs'" by simp_all
  note one = validate_entry_checked [OF v [unfolded e(1)]]
  from Cons.IH [OF vs [unfolded e(2)]] one show ?case by (auto simp: e(3) split: if_splits)
qed simp

lemma read_entries_ok:
  assumes "read_entries es = ([], ss)"
  shows "list_all2 (\<lambda>x s. parse_ref (fst x) = Inr (sc_ref s) \<and> sc_type s \<noteq> [] \<and>
     (\<exists>r. snd x = Some r \<and> sc_keys s = sc_keys r \<and> sc_labels s = sc_labels r)) es ss"
  using assms
proof (induction es arbitrary: ss)
  case (Cons e es)
  obtain errs ss' where r: "read_entries es = (errs, ss')" by (cases "read_entries es")
  from Cons.prems r have "errs = []" by (cases e) (auto split: sum.splits option.splits)
  from Cons.IH [OF r [unfolded this]] Cons.prems r show ?case
    by (cases e) (auto split: sum.splits option.splits if_splits)
qed simp

lemma parse_ref_string: "parse_ref s = Inr r \<Longrightarrow> s = ref_string r"
  by (auto simp: parse_ref_def ref_string_def split: option.splits if_splits dest!: cut_on_Some)

lemma sorted_key_names: "distinct (map fst (sc_keys s)) \<Longrightarrow> distinct (key_names s)"
  by (simp add: key_names_def)

lemma strip_keys_simps [simp]:
  "sc_ref (strip_keys s) = sc_ref s" "sc_file (strip_keys s) = sc_file s"
  "sc_type (strip_keys s) = sc_type s" "sc_labels (strip_keys s) = sc_labels s"
  "map fst (sc_keys (strip_keys s)) = map fst (sc_keys s)" "sc_keys (strip_keys s) = [] \<longleftrightarrow> sc_keys s = []" "file_errors (strip_keys s) = file_errors s"
  by (simp_all add: strip_keys_def comp_def case_prod_beta file_errors_def)

lemma entry_checked_ok:
  assumes "entry_checked s v" and "distinct (map fst (sc_keys s))"
    and "sc_type s \<noteq> []" and "distinct (map fst (sc_labels s))"
  shows "secret_ok (strip_keys v)"
proof -
  have "distinct (map fst (sc_keys (strip_keys v)))" "sc_type (strip_keys v) \<noteq> []"
      "distinct (map fst (sc_labels (strip_keys v)))" "file_errors (strip_keys v) = []" "sc_keys (strip_keys v) \<noteq> []"
    using assms sorted_key_names [OF assms(2)] by (simp_all add: entry_checked_def)
  moreover have "\<forall>(n, k) \<in> set (sc_keys (strip_keys v)). key_name n \<and> key_ok k"
    using assms(1) by (fastforce simp: entry_checked_def strip_keys_def)
  ultimately show ?thesis by (simp add: secret_ok_def)
qed

lemma strip_lookup:
  "secret_key s n = Some (Some k) \<Longrightarrow> secret_key (strip_keys s) n = Some k"
  by (simp add: secret_key_def strip_keys_def map_of_map)

lemma raw_by_ref_strip: "raw_by_ref (map strip_keys vs) r = map_option strip_keys (raw_by_ref vs r)"
  by (induction vs) (simp_all add: raw_by_ref_def)

lemma copies_checked:
  assumes none: "copy_errors vs = []" and all: "\<forall>v \<in> set vs. distinct (map fst (sc_keys v)) \<and>
      (\<forall>(n, ok) \<in> set (sc_keys v). \<exists>k. ok = Some k \<and> key_ok k)"
  shows "copies_ok (map strip_keys vs)"
  unfolding copies_ok_def
proof (intro ballI, clarify)
  fix s n k assume s: "s \<in> set (map strip_keys vs)" and nk: "(n, k) \<in> set (sc_keys s)" and copy: "ky_kind k = Copy"
  then obtain v where v: "v \<in> set vs" "s = strip_keys v" by auto
  from nk v all obtain "(n, Some k) \<in> set (sc_keys v)" "key_ok k" by (fastforce simp: strip_keys_def)
  then have look: "secret_key v n = Some (Some k)" and n: "n \<in> set (key_names v)"
    using all v by (force simp: secret_key_def key_names_def intro: map_of_is_SomeI)+
  have "ky_source k \<noteq> zero_key_ref"
  proof
    assume "ky_source k = zero_key_ref"
    with \<open>key_ok k\<close> copy have "parse_key_ref (ky_from k) = Inr zero_key_ref" by (simp add: key_ok_def)
    then show False
      by (auto simp: parse_key_ref_def zero_key_ref_def key_name_def split: option.splits sum.splits if_splits)
  qed
  moreover from none v n have "(case the (secret_key v n) of
       None \<Rightarrow> []
     | Some k \<Rightarrow>
         if ky_kind k \<noteq> Copy \<or> ky_source k = zero_key_ref then []
         else (case Option.bind (raw_by_ref vs (kr_secret (ky_source k))) (\<lambda>t.
               Option.bind (secret_key t (kr_key (ky_source k))) (\<lambda>x. x)) of
             None \<Rightarrow> [CopyOfNothing (sc_ref v) n (ky_source k)]
           | Some sk \<Rightarrow>
               if \<not> copyable (ky_kind sk)
               then [CopyNotCopyable (sc_ref v) n (ky_source k) (ky_kind sk)] else [])) = []"
    by (simp add: copy_errors_def)
  ultimately obtain t sk where t: "raw_by_ref vs (kr_secret (ky_source k)) = Some t"
      "secret_key t (kr_key (ky_source k)) = Some (Some sk)" "copyable (ky_kind sk)"
    using look copy by (auto split: option.splits if_splits simp: bind_eq_Some_conv)
  then show "\<exists>t sk. raw_by_ref (map strip_keys vs) (kr_secret (ky_source k)) = Some t \<and>
        secret_key t (kr_key (ky_source k)) = Some sk \<and> copyable (ky_kind sk)"
    using strip_lookup by (auto simp: raw_by_ref_strip)
qed

text \<open>A YAML mapping has each key once.\<close>

definition decode_laws :: "(string \<Rightarrow> string + (string \<times> key option secret option) list) \<Rightarrow> bool" where
  "decode_laws decode \<longleftrightarrow> (\<forall>data doc. decode data = Inr doc \<longrightarrow>
     distinct (map fst doc) \<and> (\<forall>s. Some s \<in> snd ` set doc \<longrightarrow>
       distinct (map fst (sc_keys s)) \<and> distinct (map fst (sc_labels s))))"

lemma parse_catalog_ok:
  assumes laws: "decode_laws decode" and run: "parse_catalog decode data root = Inr c"
  shows "catalog_ok c"
proof -
  from run obtain doc where doc: "decode data = Inr doc" by (auto simp: parse_catalog_def split: sum.splits)
  obtain errs raw where raw: "read_entries doc = (errs, raw)" by (cases "read_entries doc")
  define ss where "ss = sort_key (\<lambda>s. ref_string (sc_ref s)) raw"
  obtain verrs vs where vs: "validate_entries Map.empty ss = (verrs, vs)" by (cases "validate_entries Map.empty ss")
  from run doc raw vs have e: "errs = []" "verrs = []" "copy_errors vs = []" "ct_secrets c = map strip_keys vs"
    by (auto simp: parse_catalog_def ss_def Let_def split: if_splits)
  from laws doc have dist: "distinct (map fst doc)" "\<And>s. Some s \<in> snd ` set doc \<Longrightarrow>
      distinct (map fst (sc_keys s)) \<and> distinct (map fst (sc_labels s))"
    by (auto simp: decode_laws_def)
  note rd = read_entries_ok [OF raw [unfolded e(1)]]
  have "map fst doc = map (ref_string \<circ> sc_ref) raw"
    using list_all2_maps [OF rd, of fst "ref_string \<circ> sc_ref"] by (auto dest: parse_ref_string)
  then have "distinct (map (ref_string \<circ> sc_ref) raw)" using dist(1) by simp
  then have "distinct (map sc_ref raw)" by (auto simp: distinct_map inj_on_def)
  moreover have ssraw: "mset ss = mset raw" by (simp add: ss_def)
  then have "mset (map sc_ref ss) = mset (map sc_ref raw)" by simp
  ultimately have refs: "distinct (map sc_ref ss)" using mset_eq_imp_distinct_iff by blast
  have keys: "distinct (map fst (sc_keys s)) \<and> distinct (map fst (sc_labels s)) \<and> sc_type s \<noteq> []" if "s \<in> set ss" for s
  proof -
    have "set ss = set raw" using ssraw by (rule mset_eq_setD)
    with that list_all2_right [OF rd, of s] obtain x r where "x \<in> set doc" "snd x = Some r"
        "sc_keys s = sc_keys r" "sc_labels s = sc_labels r" "sc_type s \<noteq> []"
      by auto
    then show ?thesis using dist(2) by (metis image_eqI)
  qed
  from validate_entries_checked [OF vs [unfolded e(2)]]
  have va: "list_all2 entry_checked ss vs" "distinct (map sc_file ss)" by auto
  have vref: "map sc_ref ss = map sc_ref vs" "map sc_file ss = map sc_file vs"
    by (rule list_all2_maps [OF va(1)], simp add: entry_checked_def)+
  have each: "secret_ok (strip_keys v) \<and> distinct (map fst (sc_keys v)) \<and>
      (\<forall>(n, ok) \<in> set (sc_keys v). \<exists>k. ok = Some k \<and> key_ok k)" if v: "v \<in> set vs" for v
  proof -
    from list_all2_right [OF va(1) v] obtain s where s: "s \<in> set ss" "entry_checked s v" by blast
    have "distinct (map fst (sc_keys v))"
      using s(2) sorted_key_names [of s] keys [OF s(1)] by (simp add: entry_checked_def)
    moreover have "\<forall>(n, ok) \<in> set (sc_keys v). \<exists>k. ok = Some k \<and> key_ok k"
      using s(2) by (auto simp: entry_checked_def)
    ultimately show ?thesis using entry_checked_ok [OF s(2)] keys [OF s(1)] by blast
  qed
  have "sorted (map (ref_string \<circ> sc_ref) ss)" by (simp add: ss_def comp_def)
  moreover have "map (ref_string \<circ> sc_ref) vs = map ref_string (map sc_ref ss)" by (simp add: vref(1))
  ultimately have "sorted (map (ref_string \<circ> sc_ref) vs)" by simp
  then show ?thesis
    using refs va(2) vref each copies_checked [OF e(3)] by (simp add: catalog_ok_def e(4) comp_def)
qed

lemma slash_not_in_name: "dns_label s \<Longrightarrow> CHR ''/'' \<notin> set s"
  by (auto simp: dns_label_def name_within_def list_all_iff lower_alnum_def is_digit_def)

lemma parse_ref_of_string:
  "dns_label (rf_namespace r) \<Longrightarrow> dns_subdomain (rf_name r) \<Longrightarrow> parse_ref (ref_string r) = Inr r"
  using cut_on_append [OF slash_not_in_name, of "rf_namespace r" "rf_name r"]
  by (simp add: parse_ref_def ref_string_def)

subsection \<open>Properties\<close>

text \<open>
  C10 A catalog that loads is well formed: names unique and sorted, one clean file per Secret named after
  it and shared with no other, every key of a known kind with just the fields of its kind in range,
  and every copy copies a generated or issued key the catalog holds, so no copy hides another copy
  and none dangles.
\<close>

theorem loaded_catalog_is_well_formed:
  assumes "decode_laws decode" and "parse_catalog decode data root = Inr c"
  shows "catalog_ok c"
  by (rule parse_catalog_ok [OF assms])

definition blank_key :: key where
  "blank_key = \<lparr>ky_kind = Generated, ky_note = [], ky_length = 0, ky_item = [], ky_field = [], ky_attachment = [],
     ky_rehearsal_item = [], ky_from = [], ky_format = [], ky_value = [], ky_source = zero_key_ref\<rparr>"

definition sample_doc :: "(string \<times> key option secret option) list" where
  "sample_doc = [(''pg/db'', Some \<lparr>sc_ref = \<lparr>rf_namespace = [], rf_name = []\<rparr>, sc_file = ''core/db.enc.yaml'',
       sc_type = [], sc_labels = [], sc_note = [], sc_keys = [(''url'', Some (blank_key\<lparr>ky_kind := Copy,
         ky_from := ''pg/db.pw'', ky_format := ''pg://u:{value}@h''\<rparr>)), (''pw'', Some blank_key)], sc_rehearsal = []\<rparr>)]"

definition sample_catalog :: catalog where
  "sample_catalog = \<lparr>ct_secrets = [\<lparr>sc_ref = \<lparr>rf_namespace = ''pg'', rf_name = ''db''\<rparr>,
       sc_file = ''core/db.enc.yaml'', sc_type = ''Opaque'', sc_labels = [], sc_note = [],
       sc_keys = [(''pw'', blank_key\<lparr>ky_length := 40\<rparr>), (''url'', blank_key\<lparr>ky_kind := Copy,
         ky_from := ''pg/db.pw'', ky_format := ''pg://u:{value}@h'',
         ky_source := \<lparr>kr_secret = \<lparr>rf_namespace = ''pg'', rf_name = ''db''\<rparr>, kr_key = ''pw''\<rparr>\<rparr>)],
       sc_rehearsal = []\<rparr>], ct_root = ''/r''\<rparr>"

theorem loaded_catalog_is_well_formed_witness: "catalog_ok sample_catalog"
proof -
  have "decode_laws (\<lambda>_. Inr sample_doc)" by (auto simp: decode_laws_def sample_doc_def)
  moreover have "parse_catalog (\<lambda>_. Inr sample_doc) [] ''/r'' = Inr sample_catalog"
    by code_simp
  ultimately show ?thesis by (rule loaded_catalog_is_well_formed)
qed

text \<open>
  The names of entries and keys print and parse back: \<open>ParseRef\<close> undoes \<open>Ref.String\<close>, and
  \<open>ParseKeyRef\<close> undoes \<open>KeyRef.String\<close> exactly for the keys without a dot. A key name with a dot,
  which the validation accepts (\<open>tls.crt\<close>), cannot be named by any reference.
\<close>

theorem references_round_trip:
  assumes "dns_label (rf_namespace r)" and "dns_subdomain (rf_name r)" and "key_name k"
  shows "parse_ref (ref_string r) = Inr r \<and>
    (parse_key_ref (key_ref_string \<lparr>kr_secret = r, kr_key = k\<rparr>) = Inr \<lparr>kr_secret = r, kr_key = k\<rparr> \<longleftrightarrow>
     CHR ''.'' \<notin> set k) \<and>
    (CHR ''.'' \<in> set k \<longrightarrow> (\<forall>s. parse_key_ref s \<noteq> Inr \<lparr>kr_secret = r, kr_key = k\<rparr>))"
proof -
  have dotted: "parse_key_ref s \<noteq> Inr \<lparr>kr_secret = r, kr_key = k\<rparr>" if "CHR ''.'' \<in> set k" for s
  proof
    assume "parse_key_ref s = Inr \<lparr>kr_secret = r, kr_key = k\<rparr>"
    then obtain rk rr where "cut_on CHR ''.'' (rev s) = Some (rk, rr)" "k = rev rk"
      by (auto simp: parse_key_ref_def split: option.splits sum.splits if_splits)
    with cut_on_Some [of "CHR ''.''" "rev s" rk rr] that show False by auto
  qed
  have plain: "parse_key_ref (key_ref_string \<lparr>kr_secret = r, kr_key = k\<rparr>) = Inr \<lparr>kr_secret = r, kr_key = k\<rparr>"
    if "CHR ''.'' \<notin> set k"
  proof -
    have "cut_on CHR ''.'' (rev k @ CHR ''.'' # rev (ref_string r)) = Some (rev k, rev (ref_string r))"
      using that by (intro cut_on_append) simp
    then show ?thesis
      using parse_ref_of_string [OF assms(1,2)] assms(3) by (simp add: parse_key_ref_def key_ref_string_def)
  qed
  show ?thesis using parse_ref_of_string [OF assms(1,2)] dotted plain by blast
qed

theorem references_round_trip_witness:
  "parse_key_ref ''pg/db.pw'' = Inr \<lparr>kr_secret = \<lparr>rf_namespace = ''pg'', rf_name = ''db''\<rparr>, kr_key = ''pw''\<rparr> \<and>
   parse_key_ref ''pg/db.tls.crt'' \<noteq> Inr \<lparr>kr_secret = \<lparr>rf_namespace = ''pg'', rf_name = ''db''\<rparr>, kr_key = ''tls.crt''\<rparr>"
proof -
  have n: "dns_label (rf_namespace \<lparr>rf_namespace = ''pg'', rf_name = ''db''\<rparr>)"
      "dns_subdomain (rf_name \<lparr>rf_namespace = ''pg'', rf_name = ''db''\<rparr>)" "key_name ''pw''" "key_name ''tls.crt''"
    by code_simp+
  from references_round_trip [OF n(1,2,3)] references_round_trip [OF n(1,2,4)] show ?thesis
    by (simp add: key_ref_string_def ref_string_def)
qed

end
