(* ===== verification/Values.thy ===== *)
theory Values
  imports Catalog
begin

section \<open>secrets/manifest.go: the values of a Secret and its manifest\<close>

text \<open>
  A Secret's values are a Go map from key to bytes: an association list. \<open>render\<close> writes them as a
  Kubernetes manifest, base64-encoded under \<open>data\<close>, and \<open>parse\<close> reads one back; the YAML package is
  the parameter \<open>yaml\<close>. Base64 is Go's \<open>base64.StdEncoding\<close>, which skips line breaks, asks for the
  padding and does not look at the bits after the last byte.
\<close>

type_synonym vals = "(string \<times> string) list"

definition val_keys :: "vals \<Rightarrow> string list" where
  "val_keys v = sorted_keys v"

subsection \<open>Base64\<close>

definition b64_digit :: "nat \<Rightarrow> char" where
  "b64_digit n = char_of
     (if n < 26 then n + 65 else if n < 52 then n + 71 else if n < 62 then n - 4 else if n = 62 then 43 else 47)"

definition b64_value :: "char \<Rightarrow> nat option" where
  "b64_value c = (let n = of_char c in
     if 65 \<le> n \<and> n \<le> 90 then Some (n - 65)
     else if 97 \<le> n \<and> n \<le> 122 then Some (n - 71)
     else if 48 \<le> n \<and> n \<le> 57 then Some (n + 4)
     else if n = 43 then Some 62 else if n = 47 then Some 63 else None)"

fun b64_groups :: "nat list \<Rightarrow> string" where
  "b64_groups [] = []"
| "b64_groups [a] = [b64_digit (a div 4), b64_digit (a mod 4 * 16), CHR ''='', CHR ''='']"
| "b64_groups [a, b] =
     [b64_digit (a div 4), b64_digit (a mod 4 * 16 + b div 16), b64_digit (b mod 16 * 4), CHR ''='']"
| "b64_groups (a # b # c # bs) =
     b64_digit (a div 4) # b64_digit (a mod 4 * 16 + b div 16) # b64_digit (b mod 16 * 4 + c div 64) #
     b64_digit (c mod 64) # b64_groups bs"

definition b64_encode :: "string \<Rightarrow> string" where
  "b64_encode s = b64_groups (map of_char s)"

definition b64_first :: "nat \<Rightarrow> nat \<Rightarrow> nat" where "b64_first v w = v * 4 + w div 16"
definition b64_second :: "nat \<Rightarrow> nat \<Rightarrow> nat" where "b64_second w x = w mod 16 * 16 + x div 4"
definition b64_third :: "nat \<Rightarrow> nat \<Rightarrow> nat" where "b64_third x y = x mod 4 * 64 + y"

fun b64_quads :: "string \<Rightarrow> nat list option" where
  "b64_quads [] = Some []"
| "b64_quads (p # q # r # t # cs) =
     Option.bind (b64_value p) (\<lambda>v. Option.bind (b64_value q) (\<lambda>w.
       if r = CHR ''='' then (if t = CHR ''='' \<and> cs = [] then Some [b64_first v w] else None)
       else Option.bind (b64_value r) (\<lambda>x.
         if t = CHR ''='' then (if cs = [] then Some [b64_first v w, b64_second w x] else None)
         else Option.bind (b64_value t) (\<lambda>y.
           map_option (\<lambda>bs. b64_first v w # b64_second w x # b64_third x y # bs) (b64_quads cs)))))"
| "b64_quads _ = None"

definition breaks :: "char \<Rightarrow> bool" where
  "breaks c \<longleftrightarrow> c \<in> {CHR 0x0A, CHR 0x0D}"

definition b64_decode :: "string \<Rightarrow> string option" where
  "b64_decode s = map_option (map char_of) (b64_quads (filter (\<lambda>c. \<not> breaks c) s))"

lemma b64_value_digit [simp]: "n < 64 \<Longrightarrow> b64_value (b64_digit n) = Some n"
  by (auto simp: b64_value_def b64_digit_def Let_def)

lemma b64_digit_ordinary: "n < 64 \<Longrightarrow> b64_digit n \<notin> {CHR ''='', CHR 0x0A, CHR 0x0D}"
proof -
  assume "n < 64"
  then have "b64_value (b64_digit n) = Some n" by simp
  moreover have "b64_value CHR ''='' = None" "b64_value CHR 0x0A = None" "b64_value CHR 0x0D = None"
    by (simp_all add: b64_value_def)
  ultimately show ?thesis by auto
qed

lemma b64_small [simp]:
  "(a::nat) < 256 \<Longrightarrow> a div 4 < 64" "(a::nat) < 256 \<Longrightarrow> a div 16 < 16" "(a::nat) < 256 \<Longrightarrow> a div 64 < 4"
  by (simp_all add: less_mult_imp_div_less)

lemma b64_sextets [simp]:
  "r < 16 \<Longrightarrow> a mod 4 * 16 + r < (64::nat)" "r < 4 \<Longrightarrow> b mod 16 * 4 + r < (64::nat)"
  "a mod 4 * 16 < (64::nat)" "b mod 16 * 4 < (64::nat)"
proof -
  have "a mod 4 \<le> 3" "b mod 16 \<le> 15" by (simp_all add: less_Suc_eq_le [symmetric])
  then show "r < 16 \<Longrightarrow> a mod 4 * 16 + r < (64::nat)" "r < 4 \<Longrightarrow> b mod 16 * 4 + r < (64::nat)"
    "a mod 4 * 16 < (64::nat)" "b mod 16 * 4 < (64::nat)" by linarith+
qed

lemma b64_bytes [simp]:
  "r < 16 \<Longrightarrow> b64_first (a div 4) (a mod 4 * 16 + r) = a" "b64_first (a div 4) (a mod 4 * 16) = a"
  "b < 256 \<Longrightarrow> r < 4 \<Longrightarrow> b64_second (a mod 4 * 16 + b div 16) (b mod 16 * 4 + r) = b"
  "b < 256 \<Longrightarrow> b64_second (a mod 4 * 16 + b div 16) (b mod 16 * 4) = b"
  "c < 256 \<Longrightarrow> b64_third (b mod 16 * 4 + c div 64) (c mod 64) = c"
  by (simp_all add: b64_first_def b64_second_def b64_third_def)

lemma b64_digit_breaks [simp]: "n < 64 \<Longrightarrow> \<not> breaks (b64_digit n)" "\<not> breaks CHR ''=''"
  using b64_digit_ordinary [of n] by (auto simp: breaks_def)

lemma b64_digit_pad [simp]: "n < 64 \<Longrightarrow> b64_digit n \<noteq> CHR ''=''"
  using b64_digit_ordinary [of n] by auto

lemma b64_groups_ordinary:
  "\<forall>b \<in> set bs. b < 256 \<Longrightarrow> filter (\<lambda>c. \<not> breaks c) (b64_groups bs) = b64_groups bs"
  by (induction bs rule: b64_groups.induct) simp_all

lemma b64_quads_groups:
  "\<forall>b \<in> set bs. b < 256 \<Longrightarrow> b64_quads (b64_groups bs) = Some bs"
  by (induction bs rule: b64_groups.induct) simp_all

lemma b64_round_trip [simp]: "b64_decode (b64_encode s) = Some s"
proof -
  have "\<forall>b \<in> set (map of_char s). (b::nat) < 256" by simp
  then show ?thesis
    by (simp only: b64_decode_def b64_encode_def b64_groups_ordinary b64_quads_groups) (simp add: comp_def)
qed

subsection \<open>The manifest\<close>

record manifest =
  mf_api :: string
  mf_kind :: string
  mf_name :: string
  mf_namespace :: string
  mf_labels :: "(string \<times> string) list"
  mf_type :: string
  mf_data :: "(string \<times> string) list"
  mf_string_data :: "(string \<times> string) list"

record yaml =
  ya_encode :: "manifest \<Rightarrow> string + string"
  ya_decode :: "string \<Rightarrow> string + manifest"

datatype parse_error =
    NotManifest string
  | WrongKind string
  | NotBase64 string
  | UnderBoth string

record shape =
  sh_ref :: ref
  sh_type :: string
  sh_labels :: "(string \<times> string) list"

definition manifest_of :: "'k secret \<Rightarrow> vals \<Rightarrow> manifest" where
  "manifest_of s v = \<lparr>mf_api = ''v1'', mf_kind = ''Secret'', mf_name = rf_name (sc_ref s),
     mf_namespace = rf_namespace (sc_ref s), mf_labels = sc_labels s, mf_type = sc_type s,
     mf_data = map (\<lambda>(k, b). (k, b64_encode b)) v, mf_string_data = []\<rparr>"

definition render :: "yaml \<Rightarrow> 'k secret \<Rightarrow> vals \<Rightarrow> string + string" where
  "render y s v = ya_encode y (manifest_of s v)"

fun decode_data :: "(string \<times> string) list \<Rightarrow> vals \<Rightarrow> parse_error + vals" where
  "decode_data [] v = Inr v"
| "decode_data ((k, s) # m) v =
     (case b64_decode s of None \<Rightarrow> Inl (NotBase64 k) | Some b \<Rightarrow> decode_data m (map_put k b v))"

fun add_string_data :: "(string \<times> string) list \<Rightarrow> vals \<Rightarrow> parse_error + vals" where
  "add_string_data [] v = Inr v"
| "add_string_data ((k, s) # m) v =
     (if map_of v k \<noteq> None then Inl (UnderBoth k) else add_string_data m (map_put k s v))"

definition parse :: "yaml \<Rightarrow> string \<Rightarrow> parse_error + shape \<times> vals" where
  "parse y plain =
     (case ya_decode y plain of Inl e \<Rightarrow> Inl (NotManifest e)
      | Inr m \<Rightarrow>
          if mf_kind m \<noteq> ''Secret'' then Inl (WrongKind (mf_kind m))
          else result_bind (decode_data (mf_data m) []) (\<lambda>v.
            result_bind (add_string_data (mf_string_data m) v) (\<lambda>v.
              Inr (\<lparr>sh_ref = \<lparr>rf_namespace = mf_namespace m, rf_name = mf_name m\<rparr>,
                 sh_type = (if mf_type m = [] then ''Opaque'' else mf_type m), sh_labels = mf_labels m\<rparr>, v))))"

definition shape_matches :: "shape \<Rightarrow> 'k secret \<Rightarrow> bool" where
  "shape_matches sh s \<longleftrightarrow>
     sh_ref sh = sc_ref s \<and> sh_type sh = sc_type s \<and> same_map (=) (sh_labels sh) (sc_labels s)"

text \<open>What the YAML package promises: an encoded manifest decodes to the same one up to the order of its
  maps, and a decoded map has each key once.\<close>

definition manifest_maps :: "manifest \<Rightarrow> bool" where
  "manifest_maps m \<longleftrightarrow> distinct (map fst (mf_labels m)) \<and> distinct (map fst (mf_data m)) \<and>
     distinct (map fst (mf_string_data m))"

definition same_manifest :: "manifest \<Rightarrow> manifest \<Rightarrow> bool" where
  "same_manifest m m' \<longleftrightarrow>
     mf_api m' = mf_api m \<and> mf_kind m' = mf_kind m \<and> mf_name m' = mf_name m \<and> mf_namespace m' = mf_namespace m \<and>
     mf_type m' = mf_type m \<and> map_of (mf_labels m') = map_of (mf_labels m) \<and>
     map_of (mf_data m') = map_of (mf_data m) \<and> map_of (mf_string_data m') = map_of (mf_string_data m)"

definition yaml_laws :: "yaml \<Rightarrow> bool" where
  "yaml_laws y \<longleftrightarrow>
     (\<forall>t m. ya_decode y t = Inr m \<longrightarrow> manifest_maps m) \<and>
     (\<forall>m t. manifest_maps m \<longrightarrow> ya_encode y m = Inr t \<longrightarrow> (\<exists>m'. ya_decode y t = Inr m' \<and> same_manifest m m'))"

lemma decode_data_Inr:
  assumes "decode_data m v = Inr v'" and "distinct (map fst m)" and "distinct (map fst v)"
  shows "distinct (map fst v')"
    and "map_of v' k = (case map_of m k of None \<Rightarrow> map_of v k | Some s \<Rightarrow> b64_decode s)"
  using assms
proof (induction m v rule: decode_data.induct)
  case (2 k' s m v)
  {
    case 1
    with 2 show ?case by (auto split: option.splits)
  next
    case 2
    with "2.IH" obtain b where b: "b64_decode s = Some b" "map_of v' k =
        (case map_of m k of None \<Rightarrow> map_of (map_put k' b v) k | Some s \<Rightarrow> b64_decode s)"
      by (auto split: option.splits)
    from 2 have "map_of m k' = None" by (simp add: map_of_eq_None_iff)
    with b show ?case by (simp split: option.splits)
  }
qed simp_all

lemma decode_data_total:
  "\<forall>k s. (k, s) \<in> set m \<longrightarrow> b64_decode s \<noteq> None \<Longrightarrow> \<exists>v'. decode_data m v = Inr v'"
  by (induction m v rule: decode_data.induct) (auto simp: imp_conjR all_conj_distrib)

lemma map_of_encoded: "map_of (map (\<lambda>(k, b). (k, b64_encode b)) v) k = map_option b64_encode (map_of v k)"
  by (induction v) auto

lemma map_of_empty_iff: "map_of m = Map.empty \<longleftrightarrow> m = []"
  by (cases m) auto

lemma add_string_data_distinct:
  "add_string_data m v = Inr v' \<Longrightarrow> distinct (map fst v) \<Longrightarrow> distinct (map fst v')"
  by (induction m v rule: add_string_data.induct) (auto split: if_splits)

lemma parse_distinct:
  "yaml_laws y \<Longrightarrow> parse y t = Inr (sh, v) \<Longrightarrow> distinct (map fst v) \<and> distinct (map fst (sh_labels sh))"
  using add_string_data_distinct decode_data_Inr
  by (fastforce simp: parse_def yaml_laws_def manifest_maps_def result_bind_Inr split: sum.splits if_splits)

lemma render_parse:
  assumes y: "yaml_laws y" and v: "distinct (map fst v)" and s: "distinct (map fst (sc_labels s))" "sc_type s \<noteq> []"
    and r: "render y s v = Inr t"
  shows "\<exists>sh v'. parse y t = Inr (sh, v') \<and> map_of v' = map_of v \<and> shape_matches sh s"
proof -
  have "manifest_maps (manifest_of s v)"
    using v s by (simp add: manifest_maps_def manifest_of_def comp_def case_prod_beta)
  with y r obtain m where m: "ya_decode y t = Inr m" "same_manifest (manifest_of s v) m"
    unfolding yaml_laws_def render_def by blast
  from y m(1) have mm: "manifest_maps m" unfolding yaml_laws_def by blast
  from m(2) have d: "map_of (mf_data m) k = map_option b64_encode (map_of v k)" for k
    by (simp add: same_manifest_def manifest_of_def map_of_encoded)
  have "\<forall>k x. (k, x) \<in> set (mf_data m) \<longrightarrow> b64_decode x \<noteq> None"
  proof (intro allI impI notI)
    fix k x assume "(k, x) \<in> set (mf_data m)" and none: "b64_decode x = None"
    then have "map_of (mf_data m) k = Some x" using mm by (simp add: manifest_maps_def)
    with d [of k] have "map_option b64_encode (map_of v k) = Some x" by simp
    with none show False by auto
  qed
  then obtain v' where v': "decode_data (mf_data m) [] = Inr v'" using decode_data_total by blast
  have "map_of v' k = map_of v k" for k
    using decode_data_Inr(2) [OF v', of k] mm unfolding d [of k]
    by (simp add: manifest_maps_def option.case_eq_if option.map_sel split: if_splits)
  moreover have "mf_string_data m = []" "mf_kind m = ''Secret''" "mf_name m = rf_name (sc_ref s)"
      "mf_namespace m = rf_namespace (sc_ref s)" "mf_type m = sc_type s" "map_of (mf_labels m) = map_of (sc_labels s)"
    using m(2) by (simp_all add: same_manifest_def manifest_of_def map_of_empty_iff)
  moreover have "same_map (=) (mf_labels m) (sc_labels s)"
    using mm s(1) calculation by (simp add: same_map_eq manifest_maps_def)
  ultimately show ?thesis
    using m(1) v' s(2) by (auto simp: parse_def shape_matches_def)
qed

end
