(* ===== verification/Sops.thy ===== *)
theory Sops
  imports Prelude
begin

section \<open>sops/check.go: is a file safe to commit\<close>

text \<open>
  \<open>CheckEncrypted\<close> reads a file as a YAML node tree (the YAML package is the parameter of the callers;
  here its result) and decides, without trusting the SOPS metadata, whether every value is an
  encrypted token. A mapping is its list of key and value nodes, as \<open>yaml.Node.Content\<close> has them,
  duplicates included.
\<close>

datatype ynode =
    YScalar string
  | YMapping "(ynode \<times> ynode) list"
  | YSequence "ynode list"
  | YAlias string

fun node_value :: "ynode \<Rightarrow> string" where
  "node_value (YScalar s) = s"
| "node_value (YAlias s) = s"
| "node_value _ = []"

datatype sops_error =
    NotYaml string
  | NotMapping
  | NeverEncrypted
  | NoMac
  | NoRecipient
  | SectionNotMapping string
  | NotEncrypted string string
  | NoValue

subsection \<open>The token\<close>

definition b64_char :: "char \<Rightarrow> bool" where
  "b64_char c \<longleftrightarrow> CHR ''A'' \<le> c \<and> c \<le> CHR ''Z'' \<or> CHR ''a'' \<le> c \<and> c \<le> CHR ''z'' \<or> is_digit c \<or> c \<in> set ''+/=''"

text \<open>The regular expression \<open>encToken\<close>: a literal, then a run of a class, and so on; no class holds the
  comma or bracket that ends its run, so matching is deterministic.\<close>

definition after_lit :: "string \<Rightarrow> string \<Rightarrow> string option" where
  "after_lit p s = (if take (length p) s = p then Some (drop (length p) s) else None)"

definition after_run :: "(char \<Rightarrow> bool) \<Rightarrow> nat \<Rightarrow> string \<Rightarrow> string option" where
  "after_run P n s = (if length (takeWhile P s) \<ge> n then Some (dropWhile P s) else None)"

definition lower_letter :: "char \<Rightarrow> bool" where
  "lower_letter c \<longleftrightarrow> CHR ''a'' \<le> c \<and> c \<le> CHR ''z''"

definition enc_token :: "string \<Rightarrow> bool" where
  "enc_token s =
     (Option.bind (after_lit ''ENC[AES256_GCM,data:'' s) (\<lambda>s.
      Option.bind (after_run b64_char 0 s) (\<lambda>s.
      Option.bind (after_lit '',iv:'' s) (\<lambda>s.
      Option.bind (after_run b64_char 1 s) (\<lambda>s.
      Option.bind (after_lit '',tag:'' s) (\<lambda>s.
      Option.bind (after_run b64_char 1 s) (\<lambda>s.
      Option.bind (after_lit '',type:'' s) (\<lambda>s.
      after_run lower_letter 1 s))))))) = Some '']'')"

subsection \<open>The check\<close>

definition node_lookup :: "(ynode \<times> ynode) list \<Rightarrow> string \<Rightarrow> ynode option" where
  "node_lookup m k = map_option snd (find (\<lambda>(x, _). node_value x = k) m)"

definition recipient_kinds :: "string list" where
  "recipient_kinds = [''age'', ''pgp'', ''kms'', ''gcp_kms'', ''azure_kv'', ''hc_vault'', ''hckms'']"

definition has_recipient :: "(ynode \<times> ynode) list \<Rightarrow> bool" where
  "has_recipient m = list_ex (\<lambda>k. case node_lookup m k of Some (YSequence (_ # _)) \<Rightarrow> True | _ \<Rightarrow> False) recipient_kinds"

definition is_token :: "ynode \<Rightarrow> bool" where
  "is_token v = (case v of YScalar s \<Rightarrow> enc_token s | _ \<Rightarrow> False)"

text \<open>One value section: how many values it has and which are not encrypted.\<close>

definition check_section :: "(ynode \<times> ynode) list \<Rightarrow> string \<Rightarrow> nat \<times> sops_error list" where
  "check_section root name =
     (case node_lookup root name of
        None \<Rightarrow> (0, [])
      | Some (YMapping kvs) \<Rightarrow>
          (length kvs, map (\<lambda>(k, _). NotEncrypted name (node_value k)) (filter (\<lambda>(_, v). \<not> is_token v) kvs))
      | Some _ \<Rightarrow> (0, [SectionNotMapping name]))"

definition check_encrypted :: "string + ynode \<Rightarrow> sops_error list" where
  "check_encrypted doc =
     (case doc of Inl e \<Rightarrow> [NotYaml e]
      | Inr (YMapping root) \<Rightarrow>
          (case node_lookup root ''sops'' of
             Some (YMapping meta) \<Rightarrow>
               (let (n, errs) = check_section root ''data''; (n', errs') = check_section root ''stringData'' in
                (case node_lookup meta ''mac'' of None \<Rightarrow> [NoMac]
                 | Some v \<Rightarrow> if enc_token (node_value v) then [] else [NoMac]) @
                (if has_recipient meta then [] else [NoRecipient]) @
                errs @ errs' @ (if n + n' = 0 then [NoValue] else []))
           | _ \<Rightarrow> [NeverEncrypted])
      | Inr _ \<Rightarrow> [NotMapping])"

subsection \<open>What the check guarantees\<close>

definition section_values :: "(ynode \<times> ynode) list \<Rightarrow> string \<Rightarrow> ynode list" where
  "section_values root name =
     concat (map (\<lambda>(_, v). case v of YMapping kvs \<Rightarrow> map snd kvs | x \<Rightarrow> [x])
       (filter (\<lambda>(k, _). node_value k = name) root))"

definition once :: "(ynode \<times> ynode) list \<Rightarrow> string \<Rightarrow> bool" where
  "once m k \<longleftrightarrow> length (filter (\<lambda>(x, _). node_value x = k) m) \<le> 1"

lemma once_lookup:
  "once m k \<Longrightarrow> filter (\<lambda>(x, _). node_value x = k) m =
     (case find (\<lambda>(x, _). node_value x = k) m of None \<Rightarrow> [] | Some p \<Rightarrow> [p])"
proof (induction m)
  case (Cons p m)
  show ?case
  proof (cases "case p of (x, _) \<Rightarrow> node_value x = k")
    case True
    with Cons.prems have "filter (\<lambda>(x, _). node_value x = k) m = []" by (auto simp: once_def)
    with True show ?thesis by simp
  next
    case False
    with Cons show ?thesis by (auto simp: once_def split: option.splits)
  qed
qed simp

lemma check_section_ok:
  assumes "once root name"
  shows "snd (check_section root name) = [] \<longleftrightarrow>
      (node_lookup root name = None \<or> (\<exists>kvs. node_lookup root name = Some (YMapping kvs))) \<and>
      (\<forall>v \<in> set (section_values root name). is_token v)"
    and "snd (check_section root name) = [] \<Longrightarrow> fst (check_section root name) = length (section_values root name)"
proof -
  have sv: "section_values root name = (case node_lookup root name of None \<Rightarrow> []
      | Some (YMapping kvs) \<Rightarrow> map snd kvs | Some x \<Rightarrow> [x])"
    unfolding section_values_def once_lookup [OF assms] node_lookup_def
    by (auto split: option.splits ynode.splits)
  show "snd (check_section root name) = [] \<longleftrightarrow>
      (node_lookup root name = None \<or> (\<exists>kvs. node_lookup root name = Some (YMapping kvs))) \<and>
      (\<forall>v \<in> set (section_values root name). is_token v)"
    unfolding sv by (auto simp: check_section_def filter_empty_conv split: option.splits ynode.splits)
  show "snd (check_section root name) = [] \<Longrightarrow> fst (check_section root name) = length (section_values root name)"
    unfolding sv by (auto simp: check_section_def split: option.splits ynode.splits)
qed


definition sample_token :: string where
  "sample_token = ''ENC[AES256_GCM,data:Tm8=,iv:aXY=,tag:dGc=,type:str]''"

definition sample_file :: "(ynode \<times> ynode) list" where
  "sample_file = [(YScalar ''kind'', YScalar ''Secret''),
     (YScalar ''data'', YMapping [(YScalar ''pw'', YScalar sample_token)]),
     (YScalar ''sops'', YMapping [(YScalar ''age'', YSequence [YScalar ''age1'']), (YScalar ''mac'', YScalar sample_token)])]"


text \<open>The condition is needed: the check does not see a second \<open>data\<close> section.\<close>

lemma second_section_unseen:
  "check_encrypted (Inr (YMapping (sample_file @ [(YScalar ''data'', YMapping [(YScalar ''pw'', YScalar ''plain'')])]))) = []"
  by code_simp

end
