(* ===== verification/Store.thy ===== *)
theory Store
  imports Values Sops
begin

section \<open>secrets/store.go: the encrypted files\<close>

text \<open>
  The Store reads and writes the files of the catalog. What runs outside the process is the record
  \<open>store\<close>: the file system calls, sops (\<open>st_encrypt\<close>, \<open>st_decrypt\<close>), the source of the age key and
  the YAML package. The age key is asked for once, at the first decrypt: the answer, error included,
  is kept beside the outside world (\<open>sync.Once\<close>).

  \<open>store_laws st view\<close> is what POSIX and sops promise: no call but a write touches a file, a
  temporary file is fresh, a rename replaces the target in one step or does nothing, and a decrypt
  that succeeds on an encrypted text gives the text.
\<close>

datatype read_error = NotExist | ReadFailed string

record 'w store =
  st_cat :: catalog
  st_yaml :: yaml
  st_nodes :: "string \<Rightarrow> string + ynode"
  st_age_key :: "('w, string, string) call"
  st_encrypt :: "string \<Rightarrow> string \<Rightarrow> ('w, string, string) call"
  st_decrypt :: "string \<Rightarrow> string \<Rightarrow> string \<Rightarrow> ('w, string, string) call"
  st_read :: "path \<Rightarrow> ('w, read_error, string) call"
  st_mkdir :: "path \<Rightarrow> ('w, string, unit) call"
  st_temp :: "path \<Rightarrow> string \<Rightarrow> ('w, string, path) call"
  st_write :: "path \<Rightarrow> string \<Rightarrow> ('w, string, unit) call"
  st_chmod :: "path \<Rightarrow> nat \<Rightarrow> ('w, string, unit) call"
  st_close :: "path \<Rightarrow> ('w, string, unit) call"
  st_rename :: "path \<Rightarrow> path \<Rightarrow> ('w, string, unit) call"
  st_remove :: "path \<Rightarrow> ('w, string, unit) call"

type_synonym 'w keyed = "'w \<times> (string + string) option"

datatype store_error =
    ReadError string
  | AgeKeyError string
  | DecryptError string string
  | BadFile string parse_error
  | HoldsOther string ref ref
  | RenderError string string
  | EncryptError string string
  | OutputRefused string "sops_error list"
  | WriteError string

definition on_world :: "('w, 'e, 'a) call \<Rightarrow> ('w keyed, 'e, 'a) call" where
  "on_world f = (\<lambda>(w, c). let (r, w') = f w in (r, w', c))"

definition private_key :: "'w store \<Rightarrow> ('w keyed, string, string) call" where
  "private_key st = (\<lambda>(w, c). case c of Some r \<Rightarrow> (r, w, c)
     | None \<Rightarrow> let (r, w') = st_age_key st w in (r, w', Some r))"

text \<open>What \<open>Read\<close> does with the bytes of a file: decrypt them, and accept the plaintext.\<close>

definition accept_plain :: "'w store \<Rightarrow> key secret \<Rightarrow> string \<Rightarrow> ('w keyed, 'o, store_error, vals \<times> bool \<times> bool) io" where
  "accept_plain st s plain =
     (case parse (st_yaml st) plain of
        Inl e \<Rightarrow> io_fail (BadFile (sc_file s) e)
      | Inr (sh, v) \<Rightarrow>
          if sh_ref sh \<noteq> sc_ref s then io_fail (HoldsOther (sc_file s) (sh_ref sh) (sc_ref s))
          else io_return (v, True, \<not> shape_matches sh s))"

definition read_bytes :: "'w store \<Rightarrow> key secret \<Rightarrow> string \<Rightarrow> ('w keyed, 'o, store_error, vals \<times> bool \<times> bool) io" where
  "read_bytes st s bytes =
     io_bind (io_map_err AgeKeyError (io_call (private_key st))) (\<lambda>key.
     io_bind (io_map_err (DecryptError (sc_file s)) (io_call (on_world (st_decrypt st bytes (sc_file s) key))))
       (accept_plain st s))"

definition store_read :: "'w store \<Rightarrow> key secret \<Rightarrow> ('w keyed, 'o, store_error, vals \<times> bool \<times> bool) io" where
  "store_read st s = (\<lambda>(w, out).
     case on_world (st_read st (secret_path (st_cat st) s)) w of
       (Inl NotExist, w') \<Rightarrow> (Inr ([], False, False), w', out)
     | (Inl (ReadFailed e), w') \<Rightarrow> (Inl (ReadError e), w', out)
     | (Inr bytes, w') \<Rightarrow> read_bytes st s bytes (w', out))"

text \<open>\<open>filepath.Dir\<close> of a clean path.\<close>

definition path_dir :: "path \<Rightarrow> path" where
  "path_dir p = (case cut_on CHR ''/'' (rev p) of None \<Rightarrow> ''.''
     | Some (_, d) \<Rightarrow> if d = [] then ''/'' else rev d)"

definition fill_temp :: "'w store \<Rightarrow> path \<Rightarrow> path \<Rightarrow> string \<Rightarrow> ('w keyed, 'o, string, unit) io" where
  "fill_temp st p t data =
     (let close = io_call (on_world (st_close st t)) in
      io_bind (io_on_error (io_call (on_world (st_write st t data))) close) (\<lambda>_.
      io_bind (io_on_error (io_call (on_world (st_chmod st t 420))) close) (\<lambda>_.
      io_bind close (\<lambda>_. io_call (on_world (st_rename st t p))))))"

definition write_atomic :: "'w store \<Rightarrow> path \<Rightarrow> string \<Rightarrow> ('w keyed, 'o, string, unit) io" where
  "write_atomic st p data =
     io_bind (io_call (on_world (st_mkdir st (path_dir p)))) (\<lambda>_.
     io_bind (io_call (on_world (st_temp st (path_dir p) (''.'' @ path_base p @ ''.*'')))) (\<lambda>t.
     io_finally (fill_temp st p t data) (io_call (on_world (st_remove st t)))))"

definition store_write :: "'w store \<Rightarrow> key secret \<Rightarrow> vals \<Rightarrow> ('w keyed, 'o, store_error, unit) io" where
  "store_write st s v =
     (case render (st_yaml st) s v of
        Inl e \<Rightarrow> io_fail (RenderError (sc_file s) e)
      | Inr plain \<Rightarrow>
          io_bind (io_map_err (EncryptError (sc_file s)) (io_call (on_world (st_encrypt st plain (sc_file s))))) (\<lambda>cipher.
            let errs = check_encrypted (st_nodes st cipher) in
            if errs \<noteq> [] then io_fail (OutputRefused (sc_file s) errs)
            else io_map_err WriteError (write_atomic st (secret_path (st_cat st) s) cipher)))"

subsection \<open>The laws of the outside\<close>

definition store_laws :: "'w store \<Rightarrow> ('w \<Rightarrow> path \<Rightarrow> string option) \<Rightarrow> bool" where
  "store_laws st view \<longleftrightarrow>
     yaml_laws (st_yaml st) \<and> quiet view (st_age_key st) \<and>
     (\<forall>p f. quiet view (st_encrypt st p f)) \<and> (\<forall>c f k. quiet view (st_decrypt st c f k)) \<and>
     (\<forall>p f w c w1. st_encrypt st p f w = (Inr c, w1) \<longrightarrow>
        (\<forall>k w2 p' w3. st_decrypt st c f k w2 = (Inr p', w3) \<longrightarrow> p' = p)) \<and>
     (\<forall>p. quiet view (st_mkdir st p)) \<and> (\<forall>p m. quiet view (st_chmod st p m)) \<and> (\<forall>p. quiet view (st_close st p)) \<and>
     (\<forall>p w r w'. st_read st p w = (r, w') \<longrightarrow> view w' = view w \<and>
        (case r of Inl NotExist \<Rightarrow> view w p = None | Inl (ReadFailed _) \<Rightarrow> True | Inr c \<Rightarrow> view w p = Some c)) \<and>
     (\<forall>d n w r w'. st_temp st d n w = (r, w') \<longrightarrow>
        (case r of Inl _ \<Rightarrow> view w' = view w
         | Inr t \<Rightarrow> prefix (butlast n) (path_base t) \<and> view w t = None \<and> view w' = (view w)(t \<mapsto> []))) \<and>
     (\<forall>p c w r w'. st_write st p c w = (r, w') \<longrightarrow>
        (\<forall>q. q \<noteq> p \<longrightarrow> view w' q = view w q) \<and> (is_ok r \<longrightarrow> view w' p = Some (the (view w p) @ c))) \<and>
     (\<forall>p q w r w'. st_rename st p q w = (r, w') \<longrightarrow> p \<noteq> q \<longrightarrow>
        view w' = (if is_ok r then (view w)(q := view w p, p := None) else view w)) \<and>
     (\<forall>p w r w'. st_remove st p w = (r, w') \<longrightarrow> (\<forall>q. q \<noteq> p \<longrightarrow> view w' q = view w q))"

abbreviation files :: "('w \<Rightarrow> path \<Rightarrow> string option) \<Rightarrow> 'w keyed \<Rightarrow> path \<Rightarrow> string option" where
  "files view w \<equiv> view (fst w)"

lemma on_world_run: "on_world f w = (r, w') \<longleftrightarrow> f (fst w) = (r, fst w') \<and> snd w' = snd w"
  by (cases w; cases w'; cases "f (fst w)") (auto simp: on_world_def)

lemma quiet_on_world: "quiet view f \<Longrightarrow> on_world f w = (r, w') \<Longrightarrow> files view w' = files view w"
  by (simp add: quiet_def on_world_run)

lemma store_quiet:
  assumes "store_laws st view"
  shows "yaml_laws (st_yaml st)" "quiet view (st_age_key st)" "quiet view (st_encrypt st p f)" "quiet view (st_decrypt st c f k)"
    "quiet view (st_mkdir st p)" "quiet view (st_chmod st p m)" "quiet view (st_close st p)"
  using assms by (simp_all add: store_laws_def)

lemma store_read_call:
  "store_laws st view \<Longrightarrow> st_read st p w = (r, w') \<Longrightarrow> view w' = view w \<and>
     (case r of Inl NotExist \<Rightarrow> view w p = None | Inl (ReadFailed _) \<Rightarrow> True | Inr c \<Rightarrow> view w p = Some c)"
  unfolding store_laws_def by (elim conjE) simp

lemma store_temp_call:
  "store_laws st view \<Longrightarrow> st_temp st d n w = (r, w') \<Longrightarrow>
     (case r of Inl _ \<Rightarrow> view w' = view w
         | Inr t \<Rightarrow> prefix (butlast n) (path_base t) \<and> view w t = None \<and> view w' = (view w)(t \<mapsto> []))"
  unfolding store_laws_def by (elim conjE) simp

lemma store_write_call:
  "store_laws st view \<Longrightarrow> st_write st p c w = (r, w') \<Longrightarrow>
     (\<forall>q. q \<noteq> p \<longrightarrow> view w' q = view w q) \<and> (is_ok r \<longrightarrow> view w' p = Some (the (view w p) @ c))"
  unfolding store_laws_def by (elim conjE) simp

lemma store_rename_call:
  "store_laws st view \<Longrightarrow> st_rename st p q w = (r, w') \<Longrightarrow> p \<noteq> q \<Longrightarrow>
     view w' = (if is_ok r then (view w)(q := view w p, p := None) else view w)"
  unfolding store_laws_def by (elim conjE) simp

lemma store_remove_call:
  "store_laws st view \<Longrightarrow> st_remove st p w = (r, w') \<Longrightarrow> q \<noteq> p \<Longrightarrow> view w' q = view w q"
  unfolding store_laws_def by (elim conjE) simp

lemma store_decrypts:
  "store_laws st view \<Longrightarrow> st_encrypt st p f w = (Inr c, w1) \<Longrightarrow> st_decrypt st c f k w2 = (Inr p', w3) \<Longrightarrow> p' = p"
  unfolding store_laws_def by (elim conjE) metis

text \<open>What a write leaves: every file but the target as it was (a temporary file was not there before), and
  at the target what it held or, when the write returned no error, the new content whole.\<close>

definition replaced :: "('w \<Rightarrow> path \<Rightarrow> string option) \<Rightarrow> path \<Rightarrow> string option \<Rightarrow> 'w keyed \<Rightarrow> 'w keyed \<Rightarrow> bool" where
  "replaced view p c w w' \<longleftrightarrow>
     files view w' p = c \<and> (\<forall>q. q \<noteq> p \<longrightarrow> files view w q \<noteq> None \<longrightarrow> files view w' q = files view w q)"

lemma temp_other: "prefix (butlast (''.'' @ path_base p @ ''.*'')) (path_base t) \<Longrightarrow> t \<noteq> p"
  using prefix_length_le by fastforce

text \<open>One rule per call, over the files.\<close>

lemma wp_quietI:
  assumes "quiet view f" and "\<And>a w'. f (fst w) = (Inr a, fst w') \<Longrightarrow> files view w' = files view w \<Longrightarrow> Q a w' out"
    and "\<And>e w'. files view w' = files view w \<Longrightarrow> E e w' out"
  shows "wp (io_call (on_world f)) Q E w out"
  using assms quiet_on_world [OF assms(1)] by (simp add: wp_call on_world_run)

lemma wp_writeI:
  assumes "store_laws st view"
    and "\<And>w'. files view w' p = Some (the (files view w p) @ c) \<Longrightarrow>
      (\<And>q. q \<noteq> p \<Longrightarrow> files view w' q = files view w q) \<Longrightarrow> Q () w' out"
    and "\<And>e w'. (\<And>q. q \<noteq> p \<Longrightarrow> files view w' q = files view w q) \<Longrightarrow> E e w' out"
  shows "wp (io_call (on_world (st_write st p c))) Q E w out"
  using store_write_call [OF assms(1)] assms(2,3) by (fastforce simp: wp_call on_world_run)

lemma wp_renameI:
  assumes "store_laws st view" and "p \<noteq> q"
    and "\<And>w'. files view w' = (files view w)(q := files view w p, p := None) \<Longrightarrow> Q () w' out"
    and "\<And>e w'. files view w' = files view w \<Longrightarrow> E e w' out"
  shows "wp (io_call (on_world (st_rename st p q))) Q E w out"
  using store_rename_call [OF assms(1) _ assms(2)] assms(3,4) by (fastforce simp: wp_call on_world_run)

lemma wp_removeI:
  assumes "store_laws st view"
    and "\<And>r w'. (\<And>q. q \<noteq> p \<Longrightarrow> files view w' q = files view w q) \<Longrightarrow> Q r w' out"
    and "\<And>r w'. (\<And>q. q \<noteq> p \<Longrightarrow> files view w' q = files view w q) \<Longrightarrow> E r w' out"
  shows "wp (io_call (on_world (st_remove st p))) Q E w out"
  using store_remove_call [OF assms(1)] assms(2,3) by (fastforce simp: wp_call on_world_run)

lemma wp_tempI:
  assumes "store_laws st view"
    and "\<And>t w'. prefix (butlast n) (path_base t) \<Longrightarrow> files view w t = None \<Longrightarrow>
      files view w' = (files view w)(t \<mapsto> []) \<Longrightarrow> Q t w' out"
    and "\<And>e w'. files view w' = files view w \<Longrightarrow> E e w' out"
  shows "wp (io_call (on_world (st_temp st d n))) Q E w out"
proof -
  have "Q t w' out" if "st_temp st d n (fst w) = (Inr t, fst w')" for t w'
    using store_temp_call [OF assms(1) that] by (intro assms(2)) simp_all
  moreover have "E e w' out" if "st_temp st d n (fst w) = (Inl e, fst w')" for e w'
    using store_temp_call [OF assms(1) that] by (intro assms(3)) simp
  ultimately show ?thesis by (simp add: wp_call on_world_run)
qed

lemma fill_temp_wp:
  assumes laws: "store_laws st view" and t: "t \<noteq> p" "files view w t = Some []"
  shows "wp (fill_temp st p t data)
     (\<lambda>_ w' _. files view w' p = Some data \<and> (\<forall>q. q \<noteq> p \<longrightarrow> q \<noteq> t \<longrightarrow> files view w' q = files view w q))
     (\<lambda>_ w' _. \<forall>q. q \<noteq> t \<longrightarrow> files view w' q = files view w q) w out"
  unfolding fill_temp_def Let_def wp_bind wp_on_error
  by (intro wp_writeI [OF laws] wp_quietI [OF store_quiet(6) [OF laws]] wp_quietI [OF store_quiet(7) [OF laws]]
      wp_renameI [OF laws t(1)] conjI allI impI) (use t in simp_all)

lemma write_atomic_wp:
  assumes laws: "store_laws st view"
  shows "wp (write_atomic st p data) (\<lambda>_ w' _. replaced view p (Some data) w w')
     (\<lambda>_ w' _. replaced view p (files view w p) w w') w out"
  unfolding write_atomic_def wp_bind
proof (intro wp_quietI [OF store_quiet(5) [OF laws]] wp_tempI [OF laws], unfold wp_finally)
  fix u :: unit and w1 t w2
  assume w: "files view w1 = files view w" "files view w1 t = None" "files view w2 = (files view w1)(t \<mapsto> [])"
    and p: "prefix (butlast (''.'' @ path_base p @ ''.*'')) (path_base t)"
  note tp = temp_other [OF p]
  have tq: "q \<noteq> t" if "files view w q = Some y" for q y using that w by auto
  have t: "files view w2 t = Some []" using w by simp
  show "wp (fill_temp st p t data)
     (\<lambda>a. wp (io_call (on_world (st_remove st t))) (\<lambda>_ w' _. replaced view p (Some data) w w')
        (\<lambda>_ w' _. replaced view p (Some data) w w'))
     (\<lambda>e. wp (io_call (on_world (st_remove st t))) (\<lambda>_ w' _. replaced view p (files view w p) w w')
        (\<lambda>_ w' _. replaced view p (files view w p) w w')) w2 out"
    by (rule wp_mono [OF fill_temp_wp [OF laws tp t]]; intro wp_removeI [OF laws])
      (use w tp tq in \<open>auto simp: replaced_def\<close>)
qed (auto simp: replaced_def)

text \<open>The ciphertext a write of \<open>v\<close> puts at the file: the encryption of the rendered manifest, and fully
  encrypted by the node tree.\<close>

definition encrypts :: "'w store \<Rightarrow> key secret \<Rightarrow> vals \<Rightarrow> string \<Rightarrow> bool" where
  "encrypts st s v c \<longleftrightarrow> check_encrypted (st_nodes st c) = [] \<and>
     (\<exists>plain w w'. render (st_yaml st) s v = Inr plain \<and> st_encrypt st plain (sc_file s) w = (Inr c, w'))"

lemma replaced_quiet: "files view w1 = files view w \<Longrightarrow> replaced view p c w1 w' \<Longrightarrow> replaced view p c w w'"
  by (simp add: replaced_def)

lemma store_write_wp:
  assumes laws: "store_laws st view"
  defines "p \<equiv> secret_path (st_cat st)"
  shows "wp (store_write st s v) (\<lambda>_ w' _. \<exists>c. encrypts st s v c \<and> replaced view (p s) (Some c) w w')
     (\<lambda>_ w' _. replaced view (p s) (files view w (p s)) w w') w out"
proof (cases "render (st_yaml st) s v")
  case (Inl e)
  then show ?thesis by (simp add: store_write_def wp_simps replaced_def)
next
  case (Inr plain)
  have go: "wp (let errs = check_encrypted (st_nodes st c) in
          if errs \<noteq> [] then io_fail (OutputRefused (sc_file s) errs)
          else io_map_err WriteError (write_atomic st (p s) c))
     (\<lambda>_ w' _. \<exists>c. encrypts st s v c \<and> replaced view (p s) (Some c) w w')
     (\<lambda>_ w' _. replaced view (p s) (files view w (p s)) w w') w1 out"
    if c: "st_encrypt st plain (sc_file s) (fst w) = (Inr c, fst w1)" and w1: "files view w1 = files view w" for c w1
  proof (cases "check_encrypted (st_nodes st c) = []")
    case True
    then have "encrypts st s v c" using Inr c by (auto simp: encrypts_def)
    moreover have "wp (write_atomic st (p s) c) (\<lambda>_ w' _. replaced view (p s) (Some c) w w')
        (\<lambda>_ w' _. replaced view (p s) (files view w (p s)) w w') w1 out"
      by (rule wp_mono [OF write_atomic_wp [OF laws]]) (use w1 in \<open>auto dest: replaced_quiet [OF w1]\<close>)
    ultimately show ?thesis using True by (auto simp: wp_simps elim: wp_mono)
  next
    case False
    then show ?thesis using w1 by (simp add: wp_simps replaced_def)
  qed
  have "wp (io_call (on_world (st_encrypt st plain (sc_file s))))
     (\<lambda>c. wp (let errs = check_encrypted (st_nodes st c) in
          if errs \<noteq> [] then io_fail (OutputRefused (sc_file s) errs)
          else io_map_err WriteError (write_atomic st (p s) c))
       (\<lambda>_ w' _. \<exists>c. encrypts st s v c \<and> replaced view (p s) (Some c) w w')
       (\<lambda>_ w' _. replaced view (p s) (files view w (p s)) w w'))
     (\<lambda>_ w' _. replaced view (p s) (files view w (p s)) w w') w out"
    by (rule wp_quietI [OF store_quiet(3) [OF laws]], erule go, assumption) (simp add: replaced_def)
  with Inr show ?thesis unfolding p_def by (simp add: store_write_def wp_bind wp_map_err)
qed

lemma private_key_wp:
  assumes laws: "store_laws st view"
    and "\<And>k w'. files view w' = files view w \<Longrightarrow> Q k w' out" and "\<And>e w'. files view w' = files view w \<Longrightarrow> E e w' out"
  shows "wp (io_call (private_key st)) Q E w out"
  using assms(2,3) store_quiet(2) [OF laws] unfolding quiet_def
  by (auto simp: wp_call private_key_def split: prod.splits option.splits)

text \<open>A read touches no file; what it returns was parsed from the decrypted file.\<close>

definition read_outcome :: "'w store \<Rightarrow> key secret \<Rightarrow> string option \<Rightarrow> vals \<times> bool \<times> bool \<Rightarrow> bool" where
  "read_outcome st s file = (\<lambda>(v, found, mismatch). case file of
     None \<Rightarrow> v = [] \<and> \<not> found \<and> \<not> mismatch
   | Some c \<Rightarrow> found \<and> (\<exists>k w plain w' sh. st_decrypt st c (sc_file s) k w = (Inr plain, w') \<and>
       parse (st_yaml st) plain = Inr (sh, v) \<and> sh_ref sh = sc_ref s \<and> (mismatch \<longleftrightarrow> \<not> shape_matches sh s)))"

lemma accept_plain_wp:
  assumes "st_decrypt st c (sc_file s) k w1 = (Inr plain, w2)" and "files view w' = files view w"
  shows "wp (accept_plain st s plain)
     (\<lambda>r w' _. files view w' = files view w \<and> read_outcome st s (Some c) r) (\<lambda>e w' _. files view w' = files view w) w' out"
proof (cases "parse (st_yaml st) plain")
  case (Inr r)
  then show ?thesis using assms
    by (cases r) (auto simp: accept_plain_def wp_simps read_outcome_def intro!: exI)
qed (use assms in \<open>simp add: accept_plain_def wp_simps\<close>)

lemma store_read_wp:
  fixes s :: "key secret"
  assumes laws: "store_laws st view"
  defines "p \<equiv> secret_path (st_cat st) s"
  shows "wp (store_read st s) (\<lambda>r w' _. files view w' = files view w \<and> read_outcome st s (files view w p) r)
     (\<lambda>e w' _. files view w' = files view w) w out"
proof -
  obtain r w1 where rd: "on_world (st_read st p) w = (r, w1)" by (cases "on_world (st_read st p) w")
  then have law: "files view w1 = files view w"
      "case r of Inl NotExist \<Rightarrow> files view w p = None | Inl (ReadFailed _) \<Rightarrow> True | Inr c \<Rightarrow> files view w p = Some c"
    using store_read_call [OF laws, of p "fst w"] by (auto simp: on_world_run)
  consider "r = Inl NotExist" | e where "r = Inl (ReadFailed e)" | c where "r = Inr c"
    by (cases r) (auto intro: read_error.exhaust)
  then show ?thesis
  proof cases
    case 1
    with rd law show ?thesis by (simp add: wp_def store_read_def read_outcome_def p_def)
  next
    case (2 e)
    with rd law show ?thesis by (simp add: wp_def store_read_def p_def)
  next
    case (3 c)
    with law have c: "files view w p = Some c" by simp
    have "wp (read_bytes st s c) (\<lambda>r w' _. files view w' = files view w \<and> read_outcome st s (Some c) r)
        (\<lambda>e w' _. files view w' = files view w) w1 out"
      unfolding read_bytes_def wp_bind wp_map_err
      by (intro private_key_wp [OF laws] wp_quietI [OF store_quiet(4) [OF laws]] accept_plain_wp)
        (assumption | use law(1) in simp)+
    with 3 rd c show ?thesis by (simp add: wp_def store_read_def p_def)
  qed
qed

lemma outcome_distinct:
  "store_laws st view \<Longrightarrow> read_outcome st s file (v, found, mismatch) \<Longrightarrow> distinct (map fst v)"
  using store_quiet(1) parse_distinct by (fastforce simp: read_outcome_def split: option.splits)

lemma outcome_of_written:
  assumes laws: "store_laws st view" and v: "distinct (map fst v)" and s: "secret_ok s"
    and c: "encrypts st s v c" and r: "read_outcome st s (Some c) (v', found, mismatch)"
  shows "map_of v' = map_of v \<and> found \<and> \<not> mismatch"
proof -
  from c obtain plain w w' where p: "render (st_yaml st) s v = Inr plain"
      "st_encrypt st plain (sc_file s) w = (Inr c, w')" by (auto simp: encrypts_def)
  from r obtain k w1 plain' w2 sh where d: "found" "st_decrypt st c (sc_file s) k w1 = (Inr plain', w2)"
      "parse (st_yaml st) plain' = Inr (sh, v')" "mismatch \<longleftrightarrow> \<not> shape_matches sh s"
    by (auto simp: read_outcome_def)
  have "plain' = plain" by (rule store_decrypts [OF laws p(2) d(2)])
  with render_parse [OF store_quiet(1) [OF laws] v _ _ p(1)] s d show ?thesis
    by (auto simp: secret_ok_def)
qed

subsection \<open>Properties\<close>

text \<open>
  C14 A write of a Secret puts at its file, in one step, an encryption of the rendered values that
  \<open>CheckEncrypted\<close> accepts; when it returns an error the file is what it was. Every other file that
  existed is as it was, whatever happens.
\<close>

theorem write_is_atomic_and_encrypted:
  assumes "store_laws st view" and "store_write st s v (w, out) = (r, w', out')"
  shows "case r of
      Inr _ \<Rightarrow> \<exists>c. encrypts st s v c \<and> replaced view (secret_path (st_cat st) s) (Some c) w w'
    | Inl _ \<Rightarrow> replaced view (secret_path (st_cat st) s) (files view w (secret_path (st_cat st) s)) w w'"
  using store_write_wp [OF assms(1), of s v w out] assms(2) by (simp add: wp_def split: sum.splits)

text \<open>
  C15 What \<open>Write\<close> writes, \<open>Read\<close> reads back: as long as the file is as the write left it, a read that
  returns gives the same value for every key, finds the file and no mismatch.
\<close>

theorem write_then_read:
  assumes laws: "store_laws st view" and s: "secret_ok s" and v: "distinct (map fst v)"
    and wr: "store_write st s v (w, out) = (Inr (), w1, out1)"
    and same: "files view w2 (secret_path (st_cat st) s) = files view w1 (secret_path (st_cat st) s)"
    and rd: "store_read st s (w2, out2) = (Inr (v', found, mismatch), w3, out3)"
  shows "map_of v' = map_of v \<and> found \<and> \<not> mismatch"
proof -
  from wp_ok [OF store_write_wp [OF laws] wr] obtain c
    where c: "encrypts st s v c" "files view w1 (secret_path (st_cat st) s) = Some c"
    by (auto simp: replaced_def)
  from wp_ok [OF store_read_wp [OF laws] rd] same c(2)
  have "read_outcome st s (Some c) (v', found, mismatch)" by simp
  then show ?thesis by (rule outcome_of_written [OF laws v s c(1)])
qed

text \<open>
  The age key is asked for at most once however many files are read, and not at all by a run that
  decrypts nothing.
\<close>

theorem age_key_asked_once:
  assumes asks: "\<And>w r w'. st_age_key st w = (r, w') \<Longrightarrow> asks w' = Suc (asks w)"
    and quiet: "\<And>p. quiet asks (st_read st p)" "\<And>c f k. quiet asks (st_decrypt st c f k)"
    and run: "io_each (\<lambda>s. io_bind (store_read st s) (\<lambda>_. io_return ())) ss ((w, None), out) = (r, (w', c), out')"
  shows "(c = None \<and> asks w' = asks w) \<or> (c \<noteq> None \<and> asks w' = Suc (asks w))"
proof -
  define I where "I = (\<lambda>(x, c). (c = None \<and> asks x = asks w) \<or> (c \<noteq> (None :: (string + string) option) \<and> asks x = Suc (asks w)))"
  have key: "wp (io_call (private_key st)) (\<lambda>_ u _. I u) (\<lambda>_ u _. I u) u out" if "I u" for u and out :: "'b list"
    using that asks by (auto simp: wp_call private_key_def I_def split: prod.splits option.splits)
  have same: "wp (io_call (on_world f)) (\<lambda>_ u _. I u) (\<lambda>_ u _. I u) u out"
    if "quiet asks f" "I u" for u and f :: "('a, string, string) call" and out :: "'b list"
    using that by (auto simp: wp_call on_world_run quiet_def I_def split: prod.splits)
  have bytes: "wp (read_bytes st s b) (\<lambda>_ u _. I u) (\<lambda>_ u _. I u) u out" if "I u" for s b u and out :: "'b list"
    unfolding read_bytes_def wp_bind wp_map_err
  proof (rule wp_mono [OF key [OF that]], rule wp_mono [OF same [OF quiet(2)]])
    fix plain u and out :: "'b list"
    show "I u \<Longrightarrow> wp (accept_plain st s plain) (\<lambda>_ u _. I u) (\<lambda>_ u _. I u) u out"
      by (auto simp: accept_plain_def wp_simps split: sum.split)
  qed
  have read: "wp (store_read st s) (\<lambda>_ u _. I u) (\<lambda>_ u _. I u) u out" if "I u" for s u and out :: "'b list"
  proof -
    obtain r u' where rd: "on_world (st_read st (secret_path (st_cat st) s)) u = (r, u')"
      by (cases "on_world (st_read st (secret_path (st_cat st) s)) u")
    with that quiet(1) have "I u'" by (auto simp: on_world_run quiet_def I_def split: prod.splits)
    with bytes [of u'] rd show ?thesis by (auto simp: wp_def store_read_def split: sum.split read_error.split)
  qed
  have "wp (io_each (\<lambda>s. io_bind (store_read st s) (\<lambda>_. io_return ())) ss) (\<lambda>_ u _. I u) (\<lambda>_ u _. I u) (w, None) out"
    by (rule wp_each, simp add: I_def) (unfold wp_bind, rule wp_mono [OF read], simp_all add: wp_return)
  then have "I (w', c)" using run by (cases r) (auto dest: wp_ok wp_err)
  then show ?thesis by (simp add: I_def)
qed

subsection \<open>A store in memory\<close>

definition one_yaml :: "manifest \<Rightarrow> yaml" where
  "one_yaml m = \<lparr>ya_encode = (\<lambda>m'. if m' = m then Inr ''M'' else Inl ''no''),
     ya_decode = (\<lambda>t. if t = ''M'' then Inr m else Inl ''no'')\<rparr>"

definition toy_store :: "catalog \<Rightarrow> manifest \<Rightarrow> (path \<Rightarrow> string option) store" where
  "toy_store c m = \<lparr>st_cat = c, st_yaml = one_yaml m, st_nodes = (\<lambda>_. Inr (YMapping sample_file)),
     st_age_key = (\<lambda>w. (Inr ''key'', w)), st_encrypt = (\<lambda>p f w. (Inr (CHR ''#'' # p), w)),
     st_decrypt = (\<lambda>c f k w. (Inr (tl c), w)),
     st_read = (\<lambda>p w. (case w p of None \<Rightarrow> Inl NotExist | Some x \<Rightarrow> Inr x, w)),
     st_mkdir = (\<lambda>p w. (Inr (), w)),
     st_temp = (\<lambda>d n w. let t = d @ ''/'' @ butlast n in
        if path_base t = butlast n \<and> w t = None then (Inr t, w(t \<mapsto> [])) else (Inl ''exists'', w)),
     st_write = (\<lambda>p x w. (Inr (), w(p \<mapsto> the (w p) @ x))), st_chmod = (\<lambda>p n w. (Inr (), w)),
     st_close = (\<lambda>p w. (Inr (), w)), st_rename = (\<lambda>p q w. (Inr (), w(q := w p, p := None))),
     st_remove = (\<lambda>p w. (Inr (), w(p := None)))\<rparr>"

lemma toy_store_laws: "manifest_maps m \<Longrightarrow> store_laws (toy_store c m) (\<lambda>w. w)"
  by (auto simp: store_laws_def toy_store_def one_yaml_def yaml_laws_def quiet_def same_manifest_def Let_def
      split: option.splits if_splits)

definition sample_secret :: "key secret" where
  "sample_secret = hd (ct_secrets sample_catalog)"

definition sample_vals :: vals where
  "sample_vals = [(''pw'', ''k3y''), (''url'', ''pg://u:k3y@h'')]"

definition sample_store :: "(path \<Rightarrow> string option) store" where
  "sample_store = toy_store sample_catalog (manifest_of sample_secret sample_vals)"

lemma sample_store_laws: "store_laws sample_store (\<lambda>w. w)"
  unfolding sample_store_def by (rule toy_store_laws) code_simp

definition sample_world :: "(path \<Rightarrow> string option) keyed" where
  "sample_world = (Map.empty, None)"

definition sample_written :: "(path \<Rightarrow> string option) keyed" where
  "sample_written = fst (snd (store_write sample_store sample_secret sample_vals (sample_world, [] :: unit list)))"

lemma sample_write:
  "store_write sample_store sample_secret sample_vals (sample_world, [] :: unit list) = (Inr (), sample_written, [])"
proof -
  have "fst (store_write sample_store sample_secret sample_vals (sample_world, [] :: unit list)) = Inr ()"
    "snd (snd (store_write sample_store sample_secret sample_vals (sample_world, [] :: unit list))) = []"
    by code_simp+
  then show ?thesis unfolding sample_written_def by (metis prod.collapse)
qed

theorem write_is_atomic_and_encrypted_witness:
  "\<exists>c. encrypts sample_store sample_secret sample_vals c \<and>
     replaced (\<lambda>w. w) ''/r/core/db.enc.yaml'' (Some c) sample_world sample_written"
proof -
  have "secret_path (st_cat sample_store) sample_secret = ''/r/core/db.enc.yaml''" by code_simp
  with write_is_atomic_and_encrypted [OF sample_store_laws sample_write] show ?thesis by simp
qed

theorem write_then_read_witness:
  "map_of (fst (projr (fst (store_read sample_store sample_secret (sample_written, [] :: unit list))))) = map_of sample_vals"
proof -
  obtain v f m w out where r: "store_read sample_store sample_secret (sample_written, [] :: unit list) = (Inr (v, f, m), w, out)"
  proof -
    have "is_ok (fst (store_read sample_store sample_secret (sample_written, [] :: unit list)))" by code_simp
    with that show ?thesis
      by (cases "store_read sample_store sample_secret (sample_written, [] :: unit list)"; cases "fst (store_read sample_store sample_secret (sample_written, [] :: unit list))") auto
  qed
  have "secret_ok sample_secret" "distinct (map fst sample_vals)" by code_simp+
  from write_then_read [OF sample_store_laws this sample_write refl r] r show ?thesis by simp
qed

definition counting :: "nat store" where
  "counting = \<lparr>st_cat = sample_catalog, st_yaml = one_yaml (manifest_of sample_secret sample_vals),
     st_nodes = (\<lambda>_. Inl []), st_age_key = (\<lambda>n. (Inr ''k'', Suc n)), st_encrypt = (\<lambda>p f n. (Inl [], n)),
     st_decrypt = (\<lambda>c f k n. (Inr ''M'', n)), st_read = (\<lambda>p n. (Inr [], n)), st_mkdir = (\<lambda>p n. (Inl [], n)),
     st_temp = (\<lambda>p q n. (Inl [], n)), st_write = (\<lambda>p q n. (Inl [], n)), st_chmod = (\<lambda>p q n. (Inl [], n)),
     st_close = (\<lambda>p n. (Inl [], n)), st_rename = (\<lambda>p q n. (Inl [], n)), st_remove = (\<lambda>p n. (Inl [], n))\<rparr>"

theorem age_key_asked_once_witness:
  "fst (snd (io_each (\<lambda>s. io_bind (store_read counting s) (\<lambda>_. io_return ())) [sample_secret, sample_secret]
     ((0, None), [] :: unit list))) = (1, Some (Inr ''k''))"
proof -
  have asks: "st_age_key counting w = (r, w') \<Longrightarrow> id w' = Suc (id w)" for w r w' by (simp add: counting_def)
  have quiet: "quiet id (st_read counting p)" "quiet id (st_decrypt counting c f k)" for p c f k
    by (simp_all add: quiet_def counting_def)
  have run: "io_each (\<lambda>s. io_bind (store_read counting s) (\<lambda>_. io_return ())) [sample_secret, sample_secret]
     ((0, None), [] :: unit list) = (Inr (), (1, Some (Inr ''k'')), [])" by code_simp
  from age_key_asked_once [where asks = id, OF asks quiet run] run show ?thesis by simp
qed

end
