(* ===== verification/SecretPlan.thy ===== *)
theory SecretPlan
  imports Store
begin

section \<open>secrets/plan.go: planning the next values of every Secret\<close>

text \<open>
  A write command plans before it writes: it reads every file, decides the new values of some keys
  (\<open>update\<close>s), and \<open>build\<close> derives the next content of every file: sources first, then the literals
  and copies, and the changes as the difference. \<open>desired\<close> says what the next value of a key is
  without the order of the loops, and \<open>build_next\<close> is the refinement: the loops compute it.
\<close>

datatype op = Add | Change | Remove

datatype reason =
    NoReason
  | GeneratedLen int
  | RotatedLen int
  | FromBitwarden string
  | Typed
  | LiteralHere
  | CopyOf key_ref
  | NotInCatalog

record key_change =
  kc_key :: string
  kc_op :: op
  kc_reason :: reason

record file_plan =
  fp_secret :: "key secret"
  fp_found :: bool
  fp_reshape :: bool
  fp_changes :: "key_change list"
  fp_missing :: "string list"
  fp_next :: vals

record update =
  up_value :: string
  up_reason :: reason

type_synonym updates = "key_ref \<rightharpoonup> update"

record file_state =
  fl_values :: vals
  fl_found :: bool
  fl_mismatch :: bool

type_synonym fstate = "ref \<rightharpoonup> file_state"

definition file_changed :: "file_plan \<Rightarrow> bool" where
  "file_changed f \<longleftrightarrow> fp_changes f \<noteq> [] \<or> fp_reshape f"

definition plan_changed :: "file_plan list \<Rightarrow> bool" where
  "plan_changed fs \<longleftrightarrow> list_ex file_changed fs"

definition state_values :: "fstate \<Rightarrow> ref \<Rightarrow> vals" where
  "state_values st r = (case st r of Some f \<Rightarrow> fl_values f | None \<Rightarrow> [])"

text \<open>\<open>extra\<close>: the keys of \<open>v\<close> that \<open>s\<close> does not list, in order.\<close>

definition extra :: "vals \<Rightarrow> 'k secret \<Rightarrow> string list" where
  "extra v s = filter (\<lambda>n. secret_key s n = None) (val_keys v)"

abbreviation kref :: "'k secret \<Rightarrow> string \<Rightarrow> key_ref" where
  "kref s n \<equiv> \<lparr>kr_secret = sc_ref s, kr_key = n\<rparr>"

subsection \<open>build\<close>

record building =
  bd_next :: "ref \<rightharpoonup> vals"
  bd_reasons :: "key_ref \<rightharpoonup> reason"

definition source_key :: "fstate \<Rightarrow> updates \<Rightarrow> key secret \<Rightarrow> string \<Rightarrow> vals \<times> (key_ref \<rightharpoonup> reason) \<Rightarrow> vals \<times> (key_ref \<rightharpoonup> reason)" where
  "source_key cur ups s n = (\<lambda>(v, rs).
     case ups (kref s n) of
       Some u \<Rightarrow> (map_put n (up_value u) v, rs(kref s n \<mapsto> up_reason u))
     | None \<Rightarrow>
         if ky_kind (the (secret_key s n)) \<in> {Generated, Issued}
         then (case map_of (state_values cur (sc_ref s)) n of Some old \<Rightarrow> (map_put n old v, rs) | None \<Rightarrow> (v, rs))
         else (v, rs))"

definition source_secret :: "fstate \<Rightarrow> updates \<Rightarrow> key secret \<Rightarrow> building \<Rightarrow> building" where
  "source_secret cur ups s b =
     (let (v, rs) = fold (source_key cur ups s) (key_names s) ([], bd_reasons b) in
      \<lparr>bd_next = (bd_next b)(sc_ref s \<mapsto> v), bd_reasons = rs\<rparr>)"

definition next_value :: "building \<Rightarrow> key_ref \<Rightarrow> string option" where
  "next_value b k = Option.bind (bd_next b (kr_secret k)) (\<lambda>v. map_of v (kr_key k))"

definition put_next :: "key_ref \<Rightarrow> string \<Rightarrow> building \<Rightarrow> building" where
  "put_next k x b = b\<lparr>bd_next := (bd_next b)(kr_secret k \<mapsto> map_put (kr_key k) x (the (bd_next b (kr_secret k))))\<rparr>"

definition because :: "key_ref \<Rightarrow> reason \<Rightarrow> building \<Rightarrow> building" where
  "because k r b = b\<lparr>bd_reasons := (bd_reasons b)(k \<mapsto> r)\<rparr>"

definition derive_key :: "fstate \<Rightarrow> key secret \<Rightarrow> string \<Rightarrow> building \<Rightarrow> building" where
  "derive_key cur s n b =
     (let k = the (secret_key s n) in
      case ky_kind k of
        Literal \<Rightarrow> because (kref s n) LiteralHere (put_next (kref s n) (ky_value k) b)
      | Copy \<Rightarrow> (case next_value b (ky_source k) of
            Some sv \<Rightarrow> because (kref s n) (CopyOf (ky_source k)) (put_next (kref s n) (render_copy k sv) b)
          | None \<Rightarrow> (case map_of (state_values cur (sc_ref s)) n of
              Some old \<Rightarrow> put_next (kref s n) old b
            | None \<Rightarrow> b))
      | _ \<Rightarrow> b)"

definition derive_all :: "fstate \<Rightarrow> key secret list \<Rightarrow> building \<Rightarrow> building" where
  "derive_all cur = fold (\<lambda>s. fold (derive_key cur s) (key_names s))"

definition build_next :: "catalog \<Rightarrow> fstate \<Rightarrow> updates \<Rightarrow> building" where
  "build_next c cur ups =
     derive_all cur (ct_secrets c)
       (fold (source_secret cur ups) (ct_secrets c) \<lparr>bd_next = Map.empty, bd_reasons = Map.empty\<rparr>)"

definition reason_of :: "building \<Rightarrow> key_ref \<Rightarrow> reason" where
  "reason_of b k = (case bd_reasons b k of Some r \<Rightarrow> r | None \<Rightarrow> NoReason)"

definition compare_key :: "(string \<Rightarrow> reason) \<Rightarrow> vals \<Rightarrow> vals \<Rightarrow> string \<Rightarrow> file_plan \<Rightarrow> file_plan" where
  "compare_key why old nv n fp =
     (case (map_of old n, map_of nv n) of
        (Some _, None) \<Rightarrow> fp\<lparr>fp_changes := fp_changes fp @ [\<lparr>kc_key = n, kc_op = Remove, kc_reason = NotInCatalog\<rparr>]\<rparr>
      | (None, None) \<Rightarrow> fp\<lparr>fp_missing := fp_missing fp @ [n]\<rparr>
      | (None, Some _) \<Rightarrow> fp\<lparr>fp_changes := fp_changes fp @ [\<lparr>kc_key = n, kc_op = Add, kc_reason = why n\<rparr>]\<rparr>
      | (Some o', Some n') \<Rightarrow>
          if o' \<noteq> n' then fp\<lparr>fp_changes := fp_changes fp @ [\<lparr>kc_key = n, kc_op = Change, kc_reason = why n\<rparr>]\<rparr> else fp)"

definition plan_file :: "fstate \<Rightarrow> building \<Rightarrow> key secret \<Rightarrow> file_plan" where
  "plan_file cur b s =
     (let f = the (cur (sc_ref s)); nv = the (bd_next b (sc_ref s)) in
      fold (compare_key (\<lambda>n. reason_of b (kref s n)) (fl_values f) nv)
        (key_names s @ extra (fl_values f) s)
        \<lparr>fp_secret = s, fp_found = fl_found f, fp_reshape = fl_mismatch f, fp_changes = [], fp_missing = [], fp_next = nv\<rparr>)"

definition build_plan :: "catalog \<Rightarrow> fstate \<Rightarrow> updates \<Rightarrow> file_plan list" where
  "build_plan c cur ups = (let b = build_next c cur ups in map (plan_file cur b) (ct_secrets c))"

subsection \<open>What the next value of a key is\<close>

definition catalog_key :: "catalog \<Rightarrow> key_ref \<Rightarrow> key option" where
  "catalog_key c k = Option.bind (catalog_secret c (kr_secret k)) (\<lambda>s. secret_key s (kr_key k))"

definition source_value :: "fstate \<Rightarrow> updates \<Rightarrow> key_ref \<Rightarrow> string option" where
  "source_value cur ups k =
     (case ups k of Some u \<Rightarrow> Some (up_value u) | None \<Rightarrow> map_of (state_values cur (kr_secret k)) (kr_key k))"

definition desired :: "catalog \<Rightarrow> fstate \<Rightarrow> updates \<Rightarrow> key_ref \<Rightarrow> string option" where
  "desired c cur ups r =
     (case catalog_key c r of
        None \<Rightarrow> None
      | Some k \<Rightarrow> (case ky_kind k of
          Literal \<Rightarrow> Some (ky_value k)
        | Copy \<Rightarrow> (case source_value cur ups (ky_source k) of
            Some sv \<Rightarrow> Some (render_copy k sv)
          | None \<Rightarrow> map_of (state_values cur (kr_secret r)) (kr_key r))
        | _ \<Rightarrow> source_value cur ups r))"

text \<open>A command updates generated and issued keys only, and every file has been read.\<close>

definition updates_ok :: "catalog \<Rightarrow> updates \<Rightarrow> bool" where
  "updates_ok c ups \<longleftrightarrow> (\<forall>r u. ups r = Some u \<longrightarrow> (\<exists>k. catalog_key c r = Some k \<and> copyable (ky_kind k)))"

definition all_read :: "catalog \<Rightarrow> fstate \<Rightarrow> bool" where
  "all_read c cur \<longleftrightarrow> (\<forall>s \<in> set (ct_secrets c). \<exists>f. cur (sc_ref s) = Some f \<and> distinct (map fst (fl_values f)))"

lemma copyable_iff: "copyable k \<longleftrightarrow> k \<in> {Generated, Issued}"
  by (cases k) auto

lemma catalog_secret_in:
  assumes "distinct (map sc_ref (ct_secrets c))" and "s \<in> set (ct_secrets c)"
  shows "catalog_secret c (sc_ref s) = Some s"
proof -
  have "find (\<lambda>t. sc_ref t = sc_ref s) ss = Some s" if "s \<in> set ss" "distinct (map sc_ref ss)" for ss :: "key secret list"
    using that by (induction ss) (auto simp: image_iff)
  then show ?thesis using assms by (simp add: catalog_secret_def raw_by_ref_def)
qed

lemma catalog_secret_Some: "catalog_secret c r = Some s \<Longrightarrow> s \<in> set (ct_secrets c) \<and> sc_ref s = r"
  by (auto simp: catalog_secret_def raw_by_ref_def find_Some_iff)

lemma key_names_iff: "n \<in> set (key_names s) \<longleftrightarrow> secret_key s n \<noteq> None"
  by (simp add: key_names_def secret_key_def map_of_eq_None_iff)

subsection \<open>The loops compute it\<close>

text \<open>What the first loop gives a key.\<close>

definition sourced :: "fstate \<Rightarrow> updates \<Rightarrow> key secret \<Rightarrow> string \<Rightarrow> string option" where
  "sourced cur ups s n =
     (if n \<notin> set (key_names s) then None
      else (case ups (kref s n) of Some u \<Rightarrow> Some (up_value u)
        | None \<Rightarrow> if copyable (ky_kind (the (secret_key s n))) then map_of (state_values cur (sc_ref s)) n else None))"

lemma source_key_value:
  assumes "n \<in> set (key_names s)"
  shows "map_of (fst (source_key cur ups s n vr)) m =
     (if m = n \<and> sourced cur ups s n \<noteq> None then sourced cur ups s n else map_of (fst vr) m)"
  and "distinct (map fst (fst (source_key cur ups s n vr))) = distinct (map fst (fst vr))"
  using assms by (cases vr; auto simp: source_key_def sourced_def copyable_iff split: option.splits)+

lemma source_keys_value:
  assumes "set ns \<subseteq> set (key_names s)"
  shows "map_of (fst (fold (source_key cur ups s) ns vr)) m =
     (if m \<in> set ns \<and> sourced cur ups s m \<noteq> None then sourced cur ups s m else map_of (fst vr) m) \<and>
     distinct (map fst (fst (fold (source_key cur ups s) ns vr))) = distinct (map fst (fst vr))"
  using assms
proof (induction ns arbitrary: vr)
  case (Cons n ns)
  then have IH: "map_of (fst (fold (source_key cur ups s) ns (source_key cur ups s n vr))) m =
     (if m \<in> set ns \<and> sourced cur ups s m \<noteq> None then sourced cur ups s m else map_of (fst (source_key cur ups s n vr)) m)"
    "distinct (map fst (fst (fold (source_key cur ups s) ns (source_key cur ups s n vr)))) =
     distinct (map fst (fst (source_key cur ups s n vr)))" by simp_all
  have "n \<in> set (key_names s)" using Cons.prems by simp
  then show ?case using IH source_key_value [of n s cur ups vr] by auto
qed simp

definition holds_sources :: "fstate \<Rightarrow> updates \<Rightarrow> key secret \<Rightarrow> vals option \<Rightarrow> bool" where
  "holds_sources cur ups s ov \<longleftrightarrow>
     (\<exists>v. ov = Some v \<and> distinct (map fst v) \<and> (\<forall>n. map_of v n = sourced cur ups s n))"

lemma source_secret_next:
  "r \<noteq> sc_ref s \<Longrightarrow> bd_next (source_secret cur ups s b) r = bd_next b r"
  "holds_sources cur ups s (bd_next (source_secret cur ups s b) (sc_ref s))"
proof -
  obtain v rs where f: "fold (source_key cur ups s) (key_names s) ([], bd_reasons b) = (v, rs)" by fastforce
  then have v: "map_of v m = sourced cur ups s m" "distinct (map fst v)" for m
    using source_keys_value [OF subset_refl, of cur ups s "([], bd_reasons b)" m]
    by (auto simp: sourced_def split: if_splits)
  show "r \<noteq> sc_ref s \<Longrightarrow> bd_next (source_secret cur ups s b) r = bd_next b r"
    by (simp add: source_secret_def f)
  show "holds_sources cur ups s (bd_next (source_secret cur ups s b) (sc_ref s))"
    using v by (simp add: source_secret_def f holds_sources_def)
qed

lemma source_loop:
  assumes "distinct (map sc_ref ss)"
  shows "(\<forall>s \<in> set ss. holds_sources cur ups s (bd_next (fold (source_secret cur ups) ss b) (sc_ref s))) \<and>
     (\<forall>r. r \<notin> sc_ref ` set ss \<longrightarrow> bd_next (fold (source_secret cur ups) ss b) r = bd_next b r)"
  using assms
proof (induction ss arbitrary: b)
  case (Cons s ss)
  note IH = Cons.IH [of "source_secret cur ups s b"]
  from Cons.prems IH have "bd_next (fold (source_secret cur ups) ss (source_secret cur ups s b)) (sc_ref s) =
      bd_next (source_secret cur ups s b) (sc_ref s)" by simp
  with source_secret_next(2) [of cur ups s b]
  have "holds_sources cur ups s (bd_next (fold (source_secret cur ups) ss (source_secret cur ups s b)) (sc_ref s))" by simp
  with IH Cons.prems source_secret_next(1) [of _ s cur ups b] show ?case by auto
qed simp

text \<open>What the second loop gives a key, from the values before it.\<close>

definition derived :: "fstate \<Rightarrow> building \<Rightarrow> key secret \<Rightarrow> string \<Rightarrow> string option" where
  "derived cur b s n =
     (let k = the (secret_key s n) in
      case ky_kind k of
        Literal \<Rightarrow> Some (ky_value k)
      | Copy \<Rightarrow> (case next_value b (ky_source k) of
            Some sv \<Rightarrow> Some (render_copy k sv)
          | None \<Rightarrow> (case map_of (state_values cur (sc_ref s)) n of Some old \<Rightarrow> Some old | None \<Rightarrow> next_value b (kref s n)))
      | _ \<Rightarrow> next_value b (kref s n))"

lemma next_value_simps [simp]:
  "bd_next b (kr_secret k) \<noteq> None \<Longrightarrow> next_value (put_next k x b) r = (if r = k then Some x else next_value b r)"
  "next_value (because k w b) r = next_value b r"
  "bd_next (because k w b) = bd_next b"
  by (auto simp: next_value_def put_next_def because_def)

lemma derive_key_value:
  assumes "bd_next b (sc_ref s) \<noteq> None"
  shows "next_value (derive_key cur s n b) r = (if r = kref s n then derived cur b s n else next_value b r)"
  using assms by (auto simp: derive_key_def derived_def Let_def split: key_kind.splits option.splits)

definition maps_kept :: "building \<Rightarrow> building \<Rightarrow> bool" where
  "maps_kept b b' \<longleftrightarrow> (\<forall>r v. bd_next b r = Some v \<longrightarrow>
     (\<exists>v'. bd_next b' r = Some v' \<and> (distinct (map fst v) \<longrightarrow> distinct (map fst v'))))"

lemma maps_kept_refl: "maps_kept b b"
  by (simp add: maps_kept_def)

lemma maps_kept_trans: "maps_kept a b \<Longrightarrow> maps_kept b c \<Longrightarrow> maps_kept a c"
  unfolding maps_kept_def by blast

lemma maps_kept_put: "maps_kept b (put_next k x b) \<or> bd_next b (kr_secret k) = None"
  by (auto simp: maps_kept_def put_next_def)

lemma maps_kept_because [simp]: "maps_kept b (because k r b') = maps_kept b b'"
  by (simp add: maps_kept_def)

lemma derive_key_maps:
  assumes "bd_next b (sc_ref s) \<noteq> None"
  shows "maps_kept b (derive_key cur s n b)"
proof -
  have put: "maps_kept b (put_next (kref s n) x b)" for x using maps_kept_put [of b "kref s n" x] assms by auto
  show ?thesis by (simp add: derive_key_def Let_def put maps_kept_refl split: key_kind.split option.split)
qed

definition derives :: "fstate \<Rightarrow> (key secret \<times> string) list \<Rightarrow> building \<Rightarrow> building" where
  "derives cur = fold (\<lambda>(s, n). derive_key cur s n)"

definition from_sources :: "(key secret \<times> string) list \<Rightarrow> bool" where
  "from_sources ps \<longleftrightarrow> (\<forall>(s, n) \<in> set ps. \<forall>(t, m) \<in> set ps.
     ky_kind (the (secret_key s n)) = Copy \<longrightarrow> ky_source (the (secret_key s n)) = kref t m \<longrightarrow>
     copyable (ky_kind (the (secret_key t m))))"

lemma derived_copyable: "copyable (ky_kind (the (secret_key s n))) \<Longrightarrow> derived cur b s n = next_value b (kref s n)"
  by (auto simp: derived_def Let_def copyable_iff)

lemma derives_value:
  assumes "distinct (map (\<lambda>(s, n). kref s n) ps)" and "\<forall>(s, n) \<in> set ps. bd_next b (sc_ref s) \<noteq> None"
    and "from_sources ps"
  shows "(\<forall>(s, n) \<in> set ps. next_value (derives cur ps b) (kref s n) = derived cur b s n) \<and>
     (\<forall>r. r \<notin> (\<lambda>(s, n). kref s n) ` set ps \<longrightarrow> next_value (derives cur ps b) r = next_value b r) \<and>
     maps_kept b (derives cur ps b)"
  using assms
proof (induction ps arbitrary: b)
  case Nil
  then show ?case by (simp add: derives_def maps_kept_refl)
next
  case (Cons p ps)
  obtain s n where p: "p = (s, n)" by (cases p)
  let ?b = "derive_key cur s n b"
  have bs: "bd_next b (sc_ref s) \<noteq> None" using Cons.prems(2) p by simp
  note one = derive_key_value [OF bs] and kept = derive_key_maps [OF bs, of cur n]
  have "\<forall>(t, m) \<in> set ps. bd_next ?b (sc_ref t) \<noteq> None"
  proof (intro ballI, split prod.split, intro allI impI)
    fix x t m assume "x \<in> set ps" "x = (t, m)"
    with Cons.prems(2) obtain v where "bd_next b (sc_ref t) = Some v" by auto
    with kept show "bd_next ?b (sc_ref t) \<noteq> None" unfolding maps_kept_def by fastforce
  qed
  moreover have "from_sources ps" using Cons.prems(3) by (auto simp: from_sources_def)
  ultimately have IH: "\<forall>(t, m) \<in> set ps. next_value (derives cur ps ?b) (kref t m) = derived cur ?b t m"
      "\<forall>r. r \<notin> (\<lambda>(s, n). kref s n) ` set ps \<longrightarrow> next_value (derives cur ps ?b) r = next_value ?b r"
      "maps_kept ?b (derives cur ps ?b)"
    using Cons.IH [of ?b] Cons.prems(1) by simp_all
  have fresh: "kref s n \<notin> (\<lambda>(s, n). kref s n) ` set ps" using Cons.prems(1) p by simp
  have later: "derived cur ?b t m = derived cur b t m" if tm: "(t, m) \<in> set ps" for t m
  proof -
    have "kref t m \<noteq> kref s n" using fresh tm by (auto simp: image_iff)
    then have self: "next_value ?b (kref t m) = next_value b (kref t m)" by (auto simp: one)
    have "next_value ?b (ky_source (the (secret_key t m))) = next_value b (ky_source (the (secret_key t m)))"
      if "ky_kind (the (secret_key t m)) = Copy"
    proof (cases "ky_source (the (secret_key t m)) = kref s n")
      case True
      then have "copyable (ky_kind (the (secret_key s n)))"
        using Cons.prems(3) tm p that by (fastforce simp: from_sources_def)
      with True show ?thesis by (simp add: one derived_copyable)
    qed (simp add: one)
    with self show ?thesis unfolding derived_def Let_def by (simp split: key_kind.split option.split)
  qed
  show ?case
    using IH fresh later maps_kept_trans [OF kept IH(3)]
    by (auto simp: p derives_def one split: prod.splits)
qed

subsection \<open>Under a valid catalog\<close>

definition key_pairs :: "catalog \<Rightarrow> (key secret \<times> string) list" where
  "key_pairs c = concat (map (\<lambda>s. map (Pair s) (key_names s)) (ct_secrets c))"

lemma key_pairs_iff: "(s, n) \<in> set (key_pairs c) \<longleftrightarrow> s \<in> set (ct_secrets c) \<and> n \<in> set (key_names s)"
  by (auto simp: key_pairs_def)

lemma derive_all_pairs: "derive_all cur (ct_secrets c) = derives cur (key_pairs c)"
  unfolding derive_all_def derives_def key_pairs_def fold_nested by (rule refl)

lemma distinct_pairs:
  assumes "distinct (map sc_ref ss)" and "\<forall>s \<in> set ss. distinct (key_names s)"
  shows "distinct (map (\<lambda>(s, n). kref s n) (concat (map (\<lambda>s. map (Pair s) (key_names s)) ss)))"
  using assms
proof (induction ss)
  case (Cons s ss)
  then show ?case by (auto simp: distinct_map inj_on_def image_iff)
qed simp

lemma catalog_ok_parts:
  assumes "catalog_ok c"
  shows "distinct (map sc_ref (ct_secrets c))" "\<forall>s \<in> set (ct_secrets c). distinct (key_names s)"
    "\<And>s. s \<in> set (ct_secrets c) \<Longrightarrow> secret_ok s" "copies_ok (ct_secrets c)"
  using assms by (auto simp: catalog_ok_def secret_ok_def intro: sorted_key_names)

lemma catalog_key_iff:
  assumes "catalog_ok c"
  shows "catalog_key c r = Some k \<longleftrightarrow>
     (\<exists>s \<in> set (ct_secrets c). \<exists>n. r = kref s n \<and> secret_key s n = Some k)"
proof
  assume "catalog_key c r = Some k"
  then show "\<exists>s \<in> set (ct_secrets c). \<exists>n. r = kref s n \<and> secret_key s n = Some k"
    by (cases r) (auto simp: catalog_key_def bind_eq_Some_conv dest!: catalog_secret_Some)
next
  assume "\<exists>s \<in> set (ct_secrets c). \<exists>n. r = kref s n \<and> secret_key s n = Some k"
  then show "catalog_key c r = Some k"
    using catalog_secret_in [OF catalog_ok_parts(1) [OF assms]] by (auto simp: catalog_key_def)
qed

lemma copy_source:
  assumes ok: "catalog_ok c" and k: "catalog_key c r = Some k" "ky_kind k = Copy"
  shows "\<exists>sk. catalog_key c (ky_source k) = Some sk \<and> copyable (ky_kind sk)"
proof -
  from k(1) obtain s n where s: "s \<in> set (ct_secrets c)" "secret_key s n = Some k"
    unfolding catalog_key_iff [OF ok] by blast
  then have "(n, k) \<in> set (sc_keys s)" by (auto simp: secret_key_def dest: map_of_SomeD)
  with catalog_ok_parts(4) [OF ok] s(1) k(2) obtain t sk where
    "raw_by_ref (ct_secrets c) (kr_secret (ky_source k)) = Some t"
    "secret_key t (kr_key (ky_source k)) = Some sk" "copyable (ky_kind sk)"
    unfolding copies_ok_def by fastforce
  then show ?thesis by (simp add: catalog_key_def catalog_secret_def)
qed

lemma from_sources_pairs: "catalog_ok c \<Longrightarrow> from_sources (key_pairs c)"
  unfolding from_sources_def
proof (intro ballI, split prod.split, intro allI impI ballI, split prod.split, intro allI impI)
  fix x y s n t m
  assume ok: "catalog_ok c" and "x \<in> set (key_pairs c)" "x = (s, n)" "y \<in> set (key_pairs c)" "y = (t, m)"
    and copy: "ky_kind (the (secret_key s n)) = Copy" "ky_source (the (secret_key s n)) = kref t m"
  then have s: "s \<in> set (ct_secrets c)" "secret_key s n \<noteq> None" and t: "t \<in> set (ct_secrets c)" "secret_key t m \<noteq> None"
    by (auto simp: key_pairs_iff key_names_iff)
  from s obtain k where k: "secret_key s n = Some k" by auto
  with s have "catalog_key c (kref s n) = Some k" unfolding catalog_key_iff [OF ok] by blast
  from copy_source [OF ok this] k copy obtain sk where "catalog_key c (kref t m) = Some sk" "copyable (ky_kind sk)" by auto
  moreover from t have "catalog_key c (kref t m) = secret_key t m" using catalog_key_iff [OF ok] by (metis option.exhaust_sel)
  ultimately show "copyable (ky_kind (the (secret_key t m)))" by simp
qed

lemma sourced_value:
  assumes ok: "catalog_ok c" "updates_ok c ups" and s: "s \<in> set (ct_secrets c)" and k: "secret_key s n = Some k"
  shows "sourced cur ups s n = (if copyable (ky_kind k) then source_value cur ups (kref s n) else None)"
proof -
  have n: "n \<in> set (key_names s)" using k by (simp add: key_names_iff)
  have ck: "catalog_key c (kref s n) = Some k" using s k catalog_key_iff [OF ok(1)] by blast
  have "ups (kref s n) = None" if "\<not> copyable (ky_kind k)"
    using ok(2) ck that unfolding updates_ok_def by (metis not_None_eq option.inject)
  then show ?thesis using n k by (auto simp: sourced_def source_value_def split: option.splits)
qed

text \<open>The values \<open>build\<close> computes are the desired ones.\<close>

lemma build_next_desired:
  assumes ok: "catalog_ok c" and ups: "updates_ok c ups"
  shows "next_value (build_next c cur ups) r = desired c cur ups r" (is ?A)
    and "s \<in> set (ct_secrets c) \<Longrightarrow> \<exists>v. bd_next (build_next c cur ups) (sc_ref s) = Some v \<and> distinct (map fst v)"
proof -
  define b where "b = fold (source_secret cur ups) (ct_secrets c) \<lparr>bd_next = Map.empty, bd_reasons = Map.empty\<rparr>"
  have bn: "build_next c cur ups = derives cur (key_pairs c) b"
    by (simp add: build_next_def derive_all_pairs b_def)
  note parts = catalog_ok_parts [OF ok]
  have src: "\<forall>s \<in> set (ct_secrets c). holds_sources cur ups s (bd_next b (sc_ref s))"
      "\<forall>r. r \<notin> sc_ref ` set (ct_secrets c) \<longrightarrow> bd_next b r = None"
    using source_loop [OF parts(1), of cur ups "\<lparr>bd_next = Map.empty, bd_reasons = Map.empty\<rparr>"] by (simp_all add: b_def)
  have sv: "next_value b (kref s n) = sourced cur ups s n" if "s \<in> set (ct_secrets c)" for s n
    using src(1) that by (auto simp: holds_sources_def next_value_def)
  have val: "next_value b (kref s n) = (if copyable (ky_kind k) then source_value cur ups (kref s n) else None)"
    if "s \<in> set (ct_secrets c)" "secret_key s n = Some k" for s n k
    using sv [OF that(1)] sourced_value [OF ok ups that] by simp
  have "\<forall>(s, n) \<in> set (key_pairs c). bd_next b (sc_ref s) \<noteq> None"
    using src(1) by (auto simp: key_pairs_iff holds_sources_def)
  note dv = derives_value [OF _ this from_sources_pairs [OF ok], of cur]
  have dv: "\<forall>(s, n) \<in> set (key_pairs c). next_value (derives cur (key_pairs c) b) (kref s n) = derived cur b s n"
      "\<forall>r. r \<notin> (\<lambda>(s, n). kref s n) ` set (key_pairs c) \<longrightarrow> next_value (derives cur (key_pairs c) b) r = next_value b r"
      "maps_kept b (derives cur (key_pairs c) b)"
    using dv distinct_pairs [OF parts(1,2)] by (simp_all add: key_pairs_def)
  show ?A
  proof (cases "catalog_key c r")
    case None
    have "r \<notin> (\<lambda>(s, n). kref s n) ` set (key_pairs c)"
      using None catalog_key_iff [OF ok, of r] by (auto simp: key_pairs_iff key_names_iff)
    moreover have "next_value b r = None"
    proof (cases "kr_secret r \<in> sc_ref ` set (ct_secrets c)")
      case True
      then obtain s where s: "s \<in> set (ct_secrets c)" "r = kref s (kr_key r)" by (cases r) auto
      with None have "secret_key s (kr_key r) = None" using catalog_key_iff [OF ok, of r] by (metis not_None_eq)
      then have "sourced cur ups s (kr_key r) = None" by (simp add: sourced_def key_names_iff)
      then show ?thesis using sv [OF s(1)] s(2) by metis
    qed (simp add: next_value_def src(2))
    ultimately show ?thesis using dv(2) None by (simp add: bn desired_def)
  next
    case (Some k)
    then obtain s n where s: "s \<in> set (ct_secrets c)" "r = kref s n" "secret_key s n = Some k"
      unfolding catalog_key_iff [OF ok] by blast
    then have "(s, n) \<in> set (key_pairs c)" by (simp add: key_pairs_iff key_names_iff)
    then have nv: "next_value (build_next c cur ups) r = derived cur b s n" using dv(1) s(2) by (auto simp: bn)
    show ?thesis
    proof (cases "ky_kind k = Copy")
      case True
      from copy_source [OF ok Some True] obtain t m sk where t: "t \<in> set (ct_secrets c)"
          "ky_source k = kref t m" "secret_key t m = Some sk" "copyable (ky_kind sk)"
        unfolding catalog_key_iff [OF ok] by blast
      have "next_value b (ky_source k) = source_value cur ups (ky_source k)" using val [OF t(1,3)] t(2,4) by simp
      then show ?thesis using nv Some s(2,3) True val [OF s(1,3)]
        by (simp add: derived_def desired_def split: option.splits)
    next
      case False
      then show ?thesis using nv Some s(2,3) val [OF s(1,3)]
        parts(3) [OF s(1)] by (cases "ky_kind k") (auto simp: derived_def desired_def secret_ok_def key_ok_def secret_key_def dest!: map_of_SomeD)
    qed
  qed
  show "\<exists>v. bd_next (build_next c cur ups) (sc_ref s) = Some v \<and> distinct (map fst v)" if "s \<in> set (ct_secrets c)"
    using src(1) that dv(3) unfolding bn maps_kept_def holds_sources_def by blast
qed

subsection \<open>The changes are the difference\<close>

definition change_at :: "(string \<Rightarrow> reason) \<Rightarrow> vals \<Rightarrow> vals \<Rightarrow> string \<Rightarrow> key_change list" where
  "change_at why old nv n =
     (case (map_of old n, map_of nv n) of
        (Some _, None) \<Rightarrow> [\<lparr>kc_key = n, kc_op = Remove, kc_reason = NotInCatalog\<rparr>]
      | (None, None) \<Rightarrow> []
      | (None, Some _) \<Rightarrow> [\<lparr>kc_key = n, kc_op = Add, kc_reason = why n\<rparr>]
      | (Some o', Some n') \<Rightarrow> if o' \<noteq> n' then [\<lparr>kc_key = n, kc_op = Change, kc_reason = why n\<rparr>] else [])"

definition op_at :: "vals \<Rightarrow> vals \<Rightarrow> string \<Rightarrow> op \<Rightarrow> bool" where
  "op_at old nv n x = (case x of
     Add \<Rightarrow> map_of old n = None \<and> map_of nv n \<noteq> None
   | Remove \<Rightarrow> map_of old n \<noteq> None \<and> map_of nv n = None
   | Change \<Rightarrow> map_of old n \<noteq> None \<and> map_of nv n \<noteq> None \<and> map_of old n \<noteq> map_of nv n)"

lemma compare_keys:
  "fold (compare_key why old nv) ns fp =
     fp\<lparr>fp_changes := fp_changes fp @ concat (map (change_at why old nv) ns),
        fp_missing := fp_missing fp @ filter (\<lambda>n. map_of old n = None \<and> map_of nv n = None) ns\<rparr>"
  by (induction ns arbitrary: fp) (simp_all add: compare_key_def change_at_def split: option.split)

lemma change_at_iff:
  "(\<exists>ch \<in> set (change_at why old nv n). kc_key ch = m \<and> kc_op ch = x) \<longleftrightarrow> m = n \<and> op_at old nv n x"
  by (cases x; cases "map_of old n"; cases "map_of nv n") (auto simp: change_at_def op_at_def)

lemma change_at_keys: "map kc_key (change_at why old nv n) = (if change_at why old nv n = [] then [] else [n])"
  by (simp add: change_at_def split: option.split)

lemma changes_distinct: "distinct ns \<Longrightarrow> distinct (map kc_key (concat (map (change_at why old nv) ns)))"
proof (induction ns)
  case (Cons n ns)
  have "kc_key ch \<in> set ns" if "ch \<in> set (concat (map (change_at why old nv) ns))" for ch
    using that by (auto simp: change_at_def split: option.splits if_splits)
  with Cons show ?case by (auto simp: change_at_keys split: if_splits)
qed simp

lemma extra_iff: "n \<in> set (extra v s) \<longleftrightarrow> map_of v n \<noteq> None \<and> secret_key s n = None"
  by (auto simp: extra_def val_keys_def map_of_eq_None_iff image_iff dest: map_of_SomeD weak_map_of_SomeI)

lemma extra_distinct: "distinct (map fst v) \<Longrightarrow> distinct (extra v s)"
  by (simp add: extra_def val_keys_def)

text \<open>What a planned file is: the desired values, and the exact difference with the current ones.\<close>

definition file_plan_ok :: "catalog \<Rightarrow> fstate \<Rightarrow> updates \<Rightarrow> file_plan \<Rightarrow> bool" where
  "file_plan_ok c cur ups f \<longleftrightarrow>
     (let s = fp_secret f; old = state_values cur (sc_ref s) in
      distinct (map fst (fp_next f)) \<and> (\<forall>n. map_of (fp_next f) n = desired c cur ups (kref s n)) \<and>
      (\<forall>n x. (\<exists>ch \<in> set (fp_changes f). kc_key ch = n \<and> kc_op ch = x) \<longleftrightarrow> op_at old (fp_next f) n x) \<and>
      distinct (map kc_key (fp_changes f)) \<and>
      fp_missing f = filter (\<lambda>n. desired c cur ups (kref s n) = None) (key_names s) \<and>
      (\<exists>fs. cur (sc_ref s) = Some fs \<and> fp_found f = fl_found fs \<and> fp_reshape f = fl_mismatch fs))"

lemma desired_keeps:
  assumes "catalog_key c r = Some k" and "desired c cur ups r = None"
  shows "map_of (state_values cur (kr_secret r)) (kr_key r) = None"
  using assms by (auto simp: desired_def source_value_def split: key_kind.splits option.splits)

lemma plan_file_ok:
  assumes ok: "catalog_ok c" and cur: "all_read c cur" and ups: "updates_ok c ups" and s: "s \<in> set (ct_secrets c)"
  shows "file_plan_ok c cur ups (plan_file cur (build_next c cur ups) s)"
proof -
  from cur s obtain f where f: "cur (sc_ref s) = Some f" "distinct (map fst (fl_values f))"
    by (auto simp: all_read_def)
  from build_next_desired(2) [OF ok ups s] obtain v
    where v: "bd_next (build_next c cur ups) (sc_ref s) = Some v" "distinct (map fst v)" by blast
  have nv: "map_of v n = desired c cur ups (kref s n)" for n
    using build_next_desired(1) [OF ok ups, of cur "kref s n"] v(1) by (simp add: next_value_def)
  have old: "state_values cur (sc_ref s) = fl_values f" by (simp add: state_values_def f(1))
  let ?ns = "key_names s @ extra (fl_values f) s" and ?why = "\<lambda>n. reason_of (build_next c cur ups) (kref s n)"
  have pf: "plan_file cur (build_next c cur ups) s = \<lparr>fp_secret = s, fp_found = fl_found f, fp_reshape = fl_mismatch f,
      fp_changes = concat (map (change_at ?why (fl_values f) v) ?ns),
      fp_missing = filter (\<lambda>n. map_of (fl_values f) n = None \<and> map_of v n = None) ?ns, fp_next = v\<rparr>"
    by (simp add: plan_file_def f(1) v(1) compare_keys)
  have dist: "distinct ?ns"
    using catalog_ok_parts(2) [OF ok] s extra_distinct [OF f(2)] by (auto simp: extra_iff key_names_iff)
  have cat: "secret_key s n \<noteq> None \<longleftrightarrow> catalog_key c (kref s n) \<noteq> None" for n
    using catalog_secret_in [OF catalog_ok_parts(1) [OF ok] s] by (simp add: catalog_key_def)
  have covered: "op_at (fl_values f) v n x \<Longrightarrow> n \<in> set ?ns" for n x
    using cat [of n] nv [of n] by (cases "secret_key s n"; cases x)
      (auto simp: op_at_def extra_iff key_names_iff desired_def)
  have "(\<exists>ch \<in> set (concat (map (change_at ?why (fl_values f) v) ?ns)). kc_key ch = n \<and> kc_op ch = x) \<longleftrightarrow>
      op_at (fl_values f) v n x" for n x
  proof -
    have "(\<exists>ch \<in> set (concat (map (change_at ?why (fl_values f) v) ?ns)). kc_key ch = n \<and> kc_op ch = x) \<longleftrightarrow>
        (\<exists>m \<in> set ?ns. \<exists>ch \<in> set (change_at ?why (fl_values f) v m). kc_key ch = n \<and> kc_op ch = x)"
      unfolding set_concat set_map by blast
    also have "\<dots> \<longleftrightarrow> n \<in> set ?ns \<and> op_at (fl_values f) v n x" unfolding change_at_iff by blast
    finally show ?thesis using covered by blast
  qed
  moreover have "filter (\<lambda>n. map_of (fl_values f) n = None \<and> map_of v n = None) ?ns =
      filter (\<lambda>n. desired c cur ups (kref s n) = None) (key_names s)"
  proof -
    have "map_of (fl_values f) n = None" if "n \<in> set (key_names s)" "desired c cur ups (kref s n) = None" for n
      using desired_keeps [of c "kref s n" _ cur ups] that cat [of n] old by (auto simp: key_names_iff)
    then have "filter (\<lambda>n. map_of (fl_values f) n = None \<and> map_of v n = None) (key_names s) =
        filter (\<lambda>n. desired c cur ups (kref s n) = None) (key_names s)"
      by (intro filter_cong) (auto simp: nv)
    moreover have "filter (\<lambda>n. map_of (fl_values f) n = None \<and> map_of v n = None) (extra (fl_values f) s) = []"
      by (auto simp: filter_empty_conv extra_iff)
    ultimately show ?thesis by simp
  qed
  ultimately show ?thesis
    using changes_distinct [OF dist] v(2) nv f(1) old by (simp add: file_plan_ok_def pf Let_def)
qed

subsection \<open>A written plan is settled\<close>

text \<open>The state of the files once every changed file of the plan is written.\<close>

definition after_write :: "file_plan list \<Rightarrow> fstate" where
  "after_write fs = map_of (map (\<lambda>f. (sc_ref (fp_secret f),
     \<lparr>fl_values = fp_next f, fl_found = True, fl_mismatch = False\<rparr>)) fs)"

lemma after_write_build:
  assumes "catalog_ok c" and "s \<in> set (ct_secrets c)"
  shows "after_write (build_plan c cur ups) (sc_ref s) =
     Some \<lparr>fl_values = fp_next (plan_file cur (build_next c cur ups) s), fl_found = True, fl_mismatch = False\<rparr>"
proof -
  have sec: "fp_secret (plan_file cur b t) = t" for b t by (simp add: plan_file_def Let_def compare_keys)
  have "map_of (map (\<lambda>t. (sc_ref t, g t)) ss) (sc_ref s) = Some (g s)"
    if "s \<in> set ss" "distinct (map sc_ref ss)" for ss and g :: "key secret \<Rightarrow> file_state"
    using that by (induction ss) (auto simp: image_iff)
  then show ?thesis using assms catalog_ok_parts(1) [OF assms(1)]
    by (simp add: after_write_def build_plan_def Let_def comp_def sec)
qed

lemma after_write_value:
  assumes ok: "catalog_ok c" and cur: "all_read c cur" and ups: "updates_ok c ups" and k: "catalog_key c r = Some k"
  shows "map_of (state_values (after_write (build_plan c cur ups)) (kr_secret r)) (kr_key r) = desired c cur ups r"
proof -
  from k obtain s n where s: "s \<in> set (ct_secrets c)" "r = kref s n" unfolding catalog_key_iff [OF ok] by blast
  have "fp_secret (plan_file cur (build_next c cur ups) s) = s" by (simp add: plan_file_def Let_def compare_keys)
  with plan_file_ok [OF ok cur ups s(1)] after_write_build [OF ok s(1), of cur ups] s(2)
  show ?thesis by (simp add: file_plan_ok_def Let_def state_values_def)
qed

lemma desired_after_write:
  assumes ok: "catalog_ok c" and cur: "all_read c cur" and ups: "updates_ok c ups"
  shows "desired c (after_write (build_plan c cur ups)) Map.empty r = desired c cur ups r"
proof (cases "catalog_key c r")
  case (Some k)
  note val = after_write_value [OF ok cur ups]
  show ?thesis
  proof (cases "ky_kind k = Copy")
    case True
    from copy_source [OF ok Some True] obtain sk where sk: "catalog_key c (ky_source k) = Some sk" "copyable (ky_kind sk)" by blast
    then have "desired c cur ups (ky_source k) = source_value cur ups (ky_source k)"
      by (auto simp: desired_def copyable_iff)
    then show ?thesis using Some True val [OF sk(1)] val [OF Some]
      by (simp add: desired_def [of _ "after_write (build_plan c cur ups)"] source_value_def [of "after_write (build_plan c cur ups)"])
         (simp add: desired_def split: option.split)
  next
    case False
    then show ?thesis using Some val [OF Some]
      by (cases "ky_kind k") (simp_all add: desired_def source_value_def)
  qed
qed (simp add: desired_def)

lemma all_read_after:
  assumes ok: "catalog_ok c" and cur: "all_read c cur" and ups: "updates_ok c ups"
  shows "all_read c (after_write (build_plan c cur ups))"
  using after_write_build [OF ok] plan_file_ok [OF ok cur ups] by (auto simp: all_read_def file_plan_ok_def Let_def)

lemma settled:
  assumes ok: "catalog_ok c" and cur: "all_read c cur" and ups: "updates_ok c ups"
  shows "\<not> plan_changed (build_plan c (after_write (build_plan c cur ups)) Map.empty)"
proof -
  let ?cur = "after_write (build_plan c cur ups)"
  have "\<not> file_changed (plan_file ?cur (build_next c ?cur Map.empty) s)" if s: "s \<in> set (ct_secrets c)" for s
  proof -
    let ?f = "plan_file ?cur (build_next c ?cur Map.empty) s" and ?g = "plan_file cur (build_next c cur ups) s"
    have sec: "fp_secret ?f = s" "fp_secret ?g = s" by (simp_all add: plan_file_def Let_def compare_keys)
    have "updates_ok c Map.empty" by (simp add: updates_ok_def)
    note f = plan_file_ok [OF ok all_read_after [OF ok cur ups] this s, unfolded file_plan_ok_def Let_def sec]
    note g = plan_file_ok [OF ok cur ups s, unfolded file_plan_ok_def Let_def sec]
    have vals: "state_values ?cur (sc_ref s) = fp_next ?g" using after_write_build [OF ok s] by (simp add: state_values_def)
    have "map_of (fp_next ?f) = map_of (fp_next ?g)"
      using f g desired_after_write [OF ok cur ups] by (simp add: fun_eq_iff)
    then have "\<not> op_at (state_values ?cur (sc_ref s)) (fp_next ?f) n x" for n x by (cases x) (auto simp: op_at_def vals)
    with f have "fp_changes ?f = []" by (metis list.set_intros(1) neq_Nil_conv)
    moreover have "\<not> fp_reshape ?f" using f after_write_build [OF ok s] by auto
    ultimately show ?thesis by (simp add: file_changed_def)
  qed
  then show ?thesis by (auto simp: plan_changed_def build_plan_def Let_def list_ex_iff)
qed

subsection \<open>Properties\<close>

text \<open>
  C12 The loops of \<open>build\<close> refine the specification \<open>desired\<close>: every Secret of the catalog gets one
  planned file; the next value of a key is its update, the literal, the rendered next value of its
  source, or the value it has; keys the catalog does not list go; and the changes shown are exactly
  the additions, changes and removals between the current and the next values, each key once.
\<close>

theorem build_refines_desired:
  assumes "catalog_ok c" and "all_read c cur" and "updates_ok c ups"
  shows "map fp_secret (build_plan c cur ups) = ct_secrets c \<and> list_all (file_plan_ok c cur ups) (build_plan c cur ups)"
  using plan_file_ok [OF assms]
  by (auto simp: build_plan_def Let_def list_all_iff comp_def plan_file_def [of _ _ "_ :: key secret"] compare_keys intro: map_idI)

text \<open>
  C13 Planning is idempotent: once a plan is written, planning again from the files as they are then
  changes nothing.
\<close>

theorem written_plan_is_settled:
  assumes "catalog_ok c" and "all_read c cur" and "updates_ok c ups"
  shows "\<not> plan_changed (build_plan c (after_write (build_plan c cur ups)) Map.empty)"
  by (rule settled [OF assms])

lemma sample_catalog_ok: "catalog_ok sample_catalog"
proof (rule parse_catalog_ok)
  show "decode_laws (\<lambda>_. Inr sample_doc)" by (auto simp: decode_laws_def sample_doc_def)
  show "parse_catalog (\<lambda>_. Inr sample_doc) [] ''/r'' = Inr sample_catalog" by code_simp
qed

definition sample_ref :: ref where
  "sample_ref = \<lparr>rf_namespace = ''pg'', rf_name = ''db''\<rparr>"

definition sample_state :: fstate where
  "sample_state = [sample_ref \<mapsto> \<lparr>fl_values = [(''pw'', ''a''), (''was'', ''z'')], fl_found = True, fl_mismatch = False\<rparr>]"

definition sample_updates :: updates where
  "sample_updates = [\<lparr>kr_secret = sample_ref, kr_key = ''pw''\<rparr> \<mapsto> \<lparr>up_value = ''b'', up_reason = RotatedLen 40\<rparr>]"

lemma sample_inputs:
  "all_read sample_catalog sample_state" "updates_ok sample_catalog sample_updates"
proof -
  have "\<forall>s \<in> set (ct_secrets sample_catalog). sc_ref s = sample_ref" by code_simp
  then show "all_read sample_catalog sample_state" by (simp add: all_read_def sample_state_def)
  have "map_option (copyable \<circ> ky_kind) (catalog_key sample_catalog \<lparr>kr_secret = sample_ref, kr_key = ''pw''\<rparr>) = Some True"
    by code_simp
  then show "updates_ok sample_catalog sample_updates" by (auto simp: updates_ok_def sample_updates_def)
qed

theorem build_refines_desired_witness:
  "list_all (file_plan_ok sample_catalog sample_state sample_updates) (build_plan sample_catalog sample_state sample_updates) \<and>
   map (map (\<lambda>ch. (kc_key ch, kc_op ch)) \<circ> fp_changes) (build_plan sample_catalog sample_state sample_updates) =
     [[(''pw'', Change), (''url'', Add), (''was'', Remove)]] \<and>
   desired sample_catalog sample_state sample_updates \<lparr>kr_secret = sample_ref, kr_key = ''url''\<rparr> = Some ''pg://u:b@h''"
proof (intro conjI)
  show "list_all (file_plan_ok sample_catalog sample_state sample_updates) (build_plan sample_catalog sample_state sample_updates)"
    using build_refines_desired [OF sample_catalog_ok sample_inputs] by blast
qed code_simp+

theorem written_plan_is_settled_witness:
  "\<not> plan_changed (build_plan sample_catalog
     (after_write (build_plan sample_catalog sample_state sample_updates)) Map.empty)"
  by (rule written_plan_is_settled [OF sample_catalog_ok sample_inputs])

end
