(* ===== verification/SecretLive.thy ===== *)
theory SecretLive
  imports SecretPlan
begin

section \<open>secrets/live.go and check.go: the live cluster and the committed files\<close>

text \<open>
  \<open>Manifest\<close> gives the plaintext of a Secret only when its file is exactly what the catalog says;
  \<open>Diff\<close> compares it with the live Secret and \<open>Apply\<close> sends it. The cluster is the parameter \<open>cluster\<close>.
  \<open>secrets_check\<close> is the check of the committed files.
\<close>

record 'w cluster =
  cl_secret :: "ref \<Rightarrow> ('w, string, string option) call"
  cl_apply :: "string \<Rightarrow> bool \<Rightarrow> ('w, string, unit) call"

datatype live_error =
    LiveStore store_error
  | NoFile ref string
  | ShapeDiffers ref
  | KeyHasNoValue key_ref key_kind
  | NotListed ref "string list"
  | LiveRender string
  | ClusterError ref string
  | LiveBad ref parse_error
  | BadSelection cat_error
  | NotSelectable ref

record live_change =
  lc_key :: string
  lc_op :: op
  lc_reason :: string

record live_diff =
  ld_secret :: "key secret"
  ld_absent :: bool
  ld_changes :: "live_change list"

type_synonym ('w, 'o, 'a) live = "('w keyed, 'o, live_error, 'a) io"

definition drifts :: "live_diff \<Rightarrow> bool" where
  "drifts d \<longleftrightarrow> ld_absent d \<or> ld_changes d \<noteq> []"

text \<open>\<open>Manifest\<close> after the read.\<close>

definition ready_values :: "yaml \<Rightarrow> key secret \<Rightarrow> vals \<times> bool \<times> bool \<Rightarrow> live_error + (string \<times> vals)" where
  "ready_values y s = (\<lambda>(v, found, mismatch).
     if \<not> found then Inl (NoFile (sc_ref s) (sc_file s))
     else if mismatch then Inl (ShapeDiffers (sc_ref s))
     else (case find (\<lambda>n. map_of v n = None) (key_names s) of
         Some n \<Rightarrow> Inl (KeyHasNoValue (kref s n) (ky_kind (the (secret_key s n))))
       | None \<Rightarrow>
           if extra v s \<noteq> [] then Inl (NotListed (sc_ref s) (extra v s))
           else (case render y s v of Inl e \<Rightarrow> Inl (LiveRender e) | Inr m \<Rightarrow> Inr (m, v))))"

definition manifest_text :: "'w store \<Rightarrow> key secret \<Rightarrow> ('w, 'o, string \<times> vals) live" where
  "manifest_text st s =
     io_bind (io_map_err LiveStore (store_read st s)) (\<lambda>r.
       case ready_values (st_yaml st) s r of Inl e \<Rightarrow> io_fail e | Inr mv \<Rightarrow> io_return mv)"

definition label_change :: "shape \<Rightarrow> key secret \<Rightarrow> string \<Rightarrow> live_change list" where
  "label_change sh s l =
     (if map_of (sh_labels sh) l \<noteq> map_of (sc_labels s) l
      then [\<lparr>lc_key = ''(label '' @ l @ '')'', lc_op = Change, lc_reason = ''follows secrets.yaml''\<rparr>] else [])"

definition value_change :: "vals \<Rightarrow> vals \<Rightarrow> string \<Rightarrow> live_change list" where
  "value_change live want n =
     (case map_of live n of
        None \<Rightarrow> [\<lparr>lc_key = n, lc_op = Add, lc_reason = ''not on the cluster''\<rparr>]
      | Some lv \<Rightarrow>
          if map_of want n \<noteq> Some lv then [\<lparr>lc_key = n, lc_op = Change, lc_reason = ''differs from the file''\<rparr>] else [])"

definition live_changes :: "key secret \<Rightarrow> vals \<Rightarrow> shape \<Rightarrow> vals \<Rightarrow> live_change list" where
  "live_changes s want sh live =
     (if sh_type sh \<noteq> sc_type s
      then [\<lparr>lc_key = ''(type)'', lc_op = Change, lc_reason = ''live is '' @ sh_type sh @
        '': the type cannot change in place, delete the Secret first''\<rparr>] else []) @
     concat (map (label_change sh s) (sorted_keys (sc_labels s))) @
     concat (map (value_change live want) (key_names s)) @
     map (\<lambda>n. \<lparr>lc_key = n, lc_op = Remove,
       lc_reason = ''only on the cluster: apply removes it only if kluster applied it before''\<rparr>) (extra live s)"

definition diff_raw :: "yaml \<Rightarrow> key secret \<Rightarrow> vals \<Rightarrow> string option \<Rightarrow> live_error + live_diff" where
  "diff_raw y s want raw =
     (case raw of None \<Rightarrow> Inr \<lparr>ld_secret = s, ld_absent = True, ld_changes = []\<rparr>
      | Some t \<Rightarrow> (case parse y t of Inl e \<Rightarrow> Inl (LiveBad (sc_ref s) e)
        | Inr (sh, live) \<Rightarrow> Inr \<lparr>ld_secret = s, ld_absent = False, ld_changes = live_changes s want sh live\<rparr>))"

definition diff_one :: "'w store \<Rightarrow> 'w cluster \<Rightarrow> key secret \<Rightarrow> live_diff list \<Rightarrow> ('w, 'o, live_diff list) live" where
  "diff_one st cl s ds =
     io_bind (manifest_text st s) (\<lambda>(_, want).
     io_bind (io_map_err (ClusterError (sc_ref s)) (io_call (on_world (cl_secret cl (sc_ref s))))) (\<lambda>raw.
       case diff_raw (st_yaml st) s want raw of Inl e \<Rightarrow> io_fail e | Inr d \<Rightarrow> io_return (ds @ [d])))"

definition secrets_diff :: "'w store \<Rightarrow> 'w cluster \<Rightarrow> key secret list \<Rightarrow> ('w, 'o, live_diff list) live" where
  "secrets_diff st cl ss = io_fold (diff_one st cl) ss []"

definition apply_one :: "'w store \<Rightarrow> 'w cluster \<Rightarrow> bool \<Rightarrow> live_diff \<Rightarrow> ('w, 'o, unit) live" where
  "apply_one st cl force d =
     (if \<not> drifts d then io_return ()
      else io_bind (manifest_text st (ld_secret d)) (\<lambda>(m, _).
        io_map_err (ClusterError (sc_ref (ld_secret d))) (io_call (on_world (cl_apply cl m force)))))"

definition secrets_apply :: "'w store \<Rightarrow> 'w cluster \<Rightarrow> live_diff list \<Rightarrow> bool \<Rightarrow> ('w, 'o, unit) live" where
  "secrets_apply st cl ds force = io_each (apply_one st cl force) ds"

definition select_one :: "catalog \<Rightarrow> string \<Rightarrow> live_error + key secret" where
  "select_one c n =
     (case parse_ref n of Inl e \<Rightarrow> Inl (BadSelection e)
      | Inr r \<Rightarrow> (case catalog_secret c r of None \<Rightarrow> Inl (NotSelectable r) | Some s \<Rightarrow> Inr s))"

definition select_secrets :: "catalog \<Rightarrow> string list \<Rightarrow> live_error + key secret list" where
  "select_secrets c names = (if names = [] then Inr (ct_secrets c) else map_result (select_one c) names)"

text \<open>check.go\<close>

datatype check_error = NotInCatalogFile string | FileNotEncrypted string "sops_error list"

definition secrets_check :: "catalog \<Rightarrow> (string \<Rightarrow> string + ynode) \<Rightarrow> (string \<times> string) list \<Rightarrow> check_error list" where
  "secrets_check c nodes fs = concat (map (\<lambda>(p, data).
     if \<not> suffix enc_suffix p then []
     else (if by_file c p = None then [NotInCatalogFile p] else []) @
       (let errs = check_encrypted (nodes data) in if errs \<noteq> [] then [FileNotEncrypted p errs] else [])) fs)"

definition absent_files :: "catalog \<Rightarrow> (string \<Rightarrow> bool) \<Rightarrow> string list" where
  "absent_files c exists = map sc_file (filter (\<lambda>s. \<not> exists (sc_file s)) (ct_secrets c))"

subsection \<open>The manifest is exactly the catalog's\<close>

definition exact_keys :: "key secret \<Rightarrow> vals \<Rightarrow> bool" where
  "exact_keys s v \<longleftrightarrow> (\<forall>n. map_of v n \<noteq> None \<longleftrightarrow> secret_key s n \<noteq> None)"

lemma ready_values_ok:
  assumes "ready_values y s (v, found, mismatch) = Inr (m, v')"
  shows "v' = v \<and> found \<and> \<not> mismatch \<and> render y s v = Inr m \<and> exact_keys s v"
proof -
  from assms have "find (\<lambda>n. map_of v n = None) (key_names s) = None" "extra v s = []"
    "v' = v" "found" "\<not> mismatch" "render y s v = Inr m"
    by (auto simp: ready_values_def split: if_splits option.splits sum.splits)
  moreover from this have "map_of v n \<noteq> None \<longleftrightarrow> secret_key s n \<noteq> None" for n
    using extra_iff [of n v s] key_names_iff [of n s] by (auto simp: find_None_iff)
  ultimately show ?thesis by (simp add: exact_keys_def)
qed

definition ready :: "'w store \<Rightarrow> (path \<Rightarrow> string option) \<Rightarrow> key secret \<Rightarrow> string \<times> vals \<Rightarrow> bool" where
  "ready st disk s = (\<lambda>(m, v). render (st_yaml st) s v = Inr m \<and> exact_keys s v \<and>
     read_outcome st s (disk (secret_path (st_cat st) s)) (v, True, False))"

lemma manifest_text_wp:
  assumes laws: "store_laws st view"
  shows "wp (manifest_text st s) (\<lambda>r w' _. files view w' = files view w \<and> ready st (files view w) s r)
     (\<lambda>_ w' _. files view w' = files view w) w out"
  unfolding manifest_text_def wp_bind wp_map_err
proof (rule wp_mono [OF store_read_wp [OF laws]], elim conjE)
  fix r w1 and out
  assume "files view w1 = files view w" "read_outcome st s (files view w (secret_path (st_cat st) s)) r"
  then show "wp (case ready_values (st_yaml st) s r of Inl e \<Rightarrow> io_fail e | Inr mv \<Rightarrow> io_return mv)
     (\<lambda>r w' _. files view w' = files view w \<and> ready st (files view w) s r)
     (\<lambda>_ w' _. files view w' = files view w) w1 out"
    by (cases r) (auto simp: wp_simps ready_def split: sum.split dest!: ready_values_ok)
qed

lemma live_changes_none:
  assumes "exact_keys s want"
  shows "live_changes s want sh live = [] \<longleftrightarrow>
     sh_type sh = sc_type s \<and> (\<forall>l \<in> fst ` set (sc_labels s). map_of (sh_labels sh) l = map_of (sc_labels s) l) \<and>
     map_of live = map_of want"
proof -
  have "concat (map (label_change sh s) (sorted_keys (sc_labels s))) = [] \<longleftrightarrow>
      (\<forall>l \<in> fst ` set (sc_labels s). map_of (sh_labels sh) l = map_of (sc_labels s) l)"
    by (auto simp: label_change_def)
  moreover have "concat (map (value_change live want) (key_names s)) = [] \<and> extra live s = [] \<longleftrightarrow> map_of live = map_of want"
  proof
    assume l: "concat (map (value_change live want) (key_names s)) = [] \<and> extra live s = []"
    have "map_of live n = map_of want n" for n
    proof (cases "secret_key s n")
      case None
      then have "map_of want n = None" using assms unfolding exact_keys_def by (metis not_None_eq)
      moreover have "map_of live n = None" using None l extra_iff [of n live s] by simp
      ultimately show ?thesis by simp
    next
      case (Some k)
      with l have "value_change live want n = []" using key_names_iff [of n s] by auto
      then show ?thesis by (auto simp: value_change_def split: option.splits if_splits)
    qed
    then show "map_of live = map_of want" by blast
  next
    assume "map_of live = map_of want"
    moreover from this have "extra live s = []"
      using extra_iff [of _ live s] assms unfolding exact_keys_def by (metis list.set_intros(1) neq_Nil_conv)
    ultimately show "concat (map (value_change live want) (key_names s)) = [] \<and> extra live s = []"
      using assms by (fastforce simp: value_change_def exact_keys_def key_names_iff split: option.split)
  qed
  ultimately show ?thesis by (auto simp: live_changes_def)
qed

text \<open>Reading touches nothing that the file reads, the decrypts and the age key leave alone.\<close>

definition reads_quiet :: "('w \<Rightarrow> 'v) \<Rightarrow> 'w store \<Rightarrow> bool" where
  "reads_quiet obs st \<longleftrightarrow> quiet obs (st_age_key st) \<and> (\<forall>p. quiet obs (st_read st p)) \<and> (\<forall>c f k. quiet obs (st_decrypt st c f k))"

lemma manifest_text_quiet:
  fixes st :: "'w store"
  assumes q: "reads_quiet obs st"
  shows "wp (manifest_text st s) (\<lambda>_ w' _. obs (fst w') = obs (fst w)) (\<lambda>_ w' _. obs (fst w') = obs (fst w)) w out"
proof -
  have key: "wp (io_call (private_key st)) (\<lambda>_ u _. obs (fst u) = obs (fst w)) (\<lambda>_ u _. obs (fst u) = obs (fst w)) u out"
    if "obs (fst u) = obs (fst w)" for u and out :: "'b list"
    using that q by (auto simp: reads_quiet_def quiet_def wp_call private_key_def split: prod.splits option.splits)
  have bytes: "wp (read_bytes st s b) (\<lambda>_ u _. obs (fst u) = obs (fst w)) (\<lambda>_ u _. obs (fst u) = obs (fst w)) u out"
    if "obs (fst u) = obs (fst w)" for b u and out :: "'b list"
    unfolding read_bytes_def wp_bind wp_map_err
  proof (rule wp_mono [OF key [OF that]])
    fix k and u :: "'w keyed" and out :: "'b list"
    assume u: "obs (fst u) = obs (fst w)"
    have "wp (accept_plain st s plain) (\<lambda>_ u _. obs (fst u) = obs (fst w)) (\<lambda>_ u _. obs (fst u) = obs (fst w)) u' out"
      if "obs (fst u') = obs (fst w)" for plain u' and out :: "'b list"
      using that by (auto simp: accept_plain_def wp_simps split: sum.split)
    then show "wp (io_call (on_world (st_decrypt st b (sc_file s) k)))
       (\<lambda>a. wp (accept_plain st s a) (\<lambda>_ u _. obs (fst u) = obs (fst w)) (\<lambda>_ u _. obs (fst u) = obs (fst w)))
       (\<lambda>e u _. obs (fst u) = obs (fst w)) u out"
      using q u by (auto simp: reads_quiet_def quiet_def wp_call on_world_run)
  qed
  have read: "wp (store_read st s) (\<lambda>_ u _. obs (fst u) = obs (fst w)) (\<lambda>_ u _. obs (fst u) = obs (fst w)) w out" for out :: "'b list"
  proof -
    obtain r u where rd: "on_world (st_read st (secret_path (st_cat st) s)) w = (r, u)"
      by (cases "on_world (st_read st (secret_path (st_cat st) s)) w")
    with q have "obs (fst u) = obs (fst w)" by (auto simp: reads_quiet_def quiet_def on_world_run)
    with bytes [of u] rd show ?thesis by (auto simp: wp_def store_read_def split: sum.split read_error.split)
  qed
  show ?thesis
    unfolding manifest_text_def wp_bind wp_map_err
    by (rule wp_mono [OF read]) (auto simp: wp_simps split: sum.split)
qed

subsection \<open>Properties\<close>

definition same_live :: "'w store \<Rightarrow> key secret \<Rightarrow> vals \<Rightarrow> string option \<Rightarrow> bool" where
  "same_live st s v raw \<longleftrightarrow> (\<exists>t sh live. raw = Some t \<and> parse (st_yaml st) t = Inr (sh, live) \<and>
     sh_type sh = sc_type s \<and> (\<forall>l \<in> fst ` set (sc_labels s). map_of (sh_labels sh) l = map_of (sc_labels s) l) \<and>
     map_of live = map_of v)"

definition diff_true :: "'w store \<Rightarrow> 'w cluster \<Rightarrow> (path \<Rightarrow> string option) \<Rightarrow> live_diff \<Rightarrow> bool" where
  "diff_true st cl disk d \<longleftrightarrow> (\<exists>m v raw u u'. ready st disk (ld_secret d) (m, v) \<and>
     cl_secret cl (sc_ref (ld_secret d)) u = (Inr raw, u') \<and> (\<not> drifts d \<longleftrightarrow> same_live st (ld_secret d) v raw))"

lemma diff_raw_true:
  assumes "ready st disk s (m, v)" and "cl_secret cl (sc_ref s) u = (Inr raw, u')" and "diff_raw (st_yaml st) s v raw = Inr d"
  shows "ld_secret d = s \<and> diff_true st cl disk d"
proof -
  have "exact_keys s v" using assms(1) by (simp add: ready_def)
  from live_changes_none [OF this] assms(3)
  have "ld_secret d = s" "\<not> drifts d \<longleftrightarrow> same_live st s v raw"
    by (auto simp: diff_raw_def drifts_def same_live_def split: option.splits sum.splits)
  with assms(1,2) show ?thesis unfolding diff_true_def by blast
qed

lemma diff_one_wp:
  assumes laws: "store_laws st view" and q: "\<And>r. quiet view (cl_secret cl r)"
    and inv: "files view w1 = files view w" "list_all (diff_true st cl (files view w)) ds"
  shows "wp (diff_one st cl s ds) (\<lambda>ds' w' _. files view w' = files view w \<and>
       map ld_secret ds' = map ld_secret ds @ [s] \<and> list_all (diff_true st cl (files view w)) ds')
     (\<lambda>_ w' _. files view w' = files view w) w1 out"
  unfolding diff_one_def wp_bind
proof (rule wp_mono [OF manifest_text_wp [OF laws]], elim conjE)
  fix mv w2 and out
  assume w2: "files view w2 = files view w1" and r: "ready st (files view w1) s mv"
  obtain m v where mv: "mv = (m, v)" by (cases mv)
  show "wp (case mv of (_, want) \<Rightarrow>
       io_bind (io_map_err (ClusterError (sc_ref s)) (io_call (on_world (cl_secret cl (sc_ref s))))) (\<lambda>raw.
       case diff_raw (st_yaml st) s want raw of Inl e \<Rightarrow> io_fail e | Inr d \<Rightarrow> io_return (ds @ [d])))
     (\<lambda>ds' w' _. files view w' = files view w \<and>
       map ld_secret ds' = map ld_secret ds @ [s] \<and> list_all (diff_true st cl (files view w)) ds')
     (\<lambda>_ w' _. files view w' = files view w) w2 out"
    unfolding mv prod.case wp_bind wp_map_err
  proof (rule wp_quietI [OF q])
    fix raw w3
    assume raw: "cl_secret cl (sc_ref s) (fst w2) = (Inr raw, fst w3)" and w3: "files view w3 = files view w2"
    show "wp (case diff_raw (st_yaml st) s v raw of Inl e \<Rightarrow> io_fail e | Inr d \<Rightarrow> io_return (ds @ [d]))
      (\<lambda>ds' w' _. files view w' = files view w \<and>
       map ld_secret ds' = map ld_secret ds @ [s] \<and> list_all (diff_true st cl (files view w)) ds')
      (\<lambda>_ w' _. files view w' = files view w) w3 out"
      using diff_raw_true [OF r [unfolded mv inv(1)] raw] inv w2 w3 by (auto simp: wp_simps split: sum.split)
  qed (use w2 inv(1) in simp)
qed (use inv(1) in simp)

text \<open>
  C16 \<open>Diff\<close> is exact: there is one diff per Secret asked, and it reports no drift just when the live
  Secret exists with the catalog's type and labels and holds exactly the values of the file, whose
  keys are exactly the catalog's. It changes no file.
\<close>

theorem diff_is_exact:
  assumes laws: "store_laws st view" and q: "\<And>r. quiet view (cl_secret cl r)"
    and run: "secrets_diff st cl ss (w, out) = (Inr ds, w', out')"
  shows "map ld_secret ds = ss \<and> list_all (diff_true st cl (files view w)) ds \<and> files view w' = files view w"
proof -
  have "wp (secrets_diff st cl ss) (\<lambda>ds w' _. files view w' = files view w \<and>
       map ld_secret ds = ss \<and> list_all (diff_true st cl (files view w)) ds) (\<lambda>_ w' _. files view w' = files view w) w out"
    unfolding secrets_diff_def
  proof (rule wp_fold_prefix [where I = "\<lambda>pre ds w' _. files view w' = files view w \<and>
       map ld_secret ds = pre \<and> list_all (diff_true st cl (files view w)) ds"])
    fix pre s post ds w1 and out
    assume "files view w1 = files view w \<and> map ld_secret ds = pre \<and> list_all (diff_true st cl (files view w)) ds"
    then show "wp (diff_one st cl s ds) (\<lambda>ds w' _. files view w' = files view w \<and>
       map ld_secret ds = pre @ [s] \<and> list_all (diff_true st cl (files view w)) ds)
      (\<lambda>_ w' _. files view w' = files view w) w1 out"
      using diff_one_wp [OF laws q, of w1 w ds s out] by auto
  qed simp
  from wp_ok [OF this run] show ?thesis by simp
qed

text \<open>
  Everything \<open>Apply\<close> sends to the cluster is the rendered manifest of a drifting Secret whose file
  holds exactly the catalog's keys, with its name, type and labels: the cluster only ever gets what
  the catalog says.
\<close>

theorem apply_sends_catalog_only:
  assumes laws: "store_laws st view" and q: "\<And>m f. quiet view (cl_apply cl m f)"
    and sent: "\<And>m f u r u'. cl_apply cl m f u = (r, u') \<Longrightarrow> sent u' = sent u @ [m]" and rq: "reads_quiet sent st"
    and run: "secrets_apply st cl ds force (w, out) = (r, w', out')"
  shows "\<exists>ms. sent (fst w') = sent (fst w) @ ms \<and>
     list_all (\<lambda>m. \<exists>d \<in> set ds. drifts d \<and> (\<exists>v. ready st (files view w) (ld_secret d) (m, v))) ms"
proof -
  let ?ok = "\<lambda>m. \<exists>d \<in> set ds. drifts d \<and> (\<exists>v. ready st (files view w) (ld_secret d) (m, v))"
  define I where "I = (\<lambda>u (_ :: 'b list). files view u = files view w \<and> (\<exists>ms. sent (fst u) = sent (fst w) @ ms \<and> list_all ?ok ms))"
  have "wp (secrets_apply st cl ds force) (\<lambda>_. I) (\<lambda>_. I) w out"
    unfolding secrets_apply_def
  proof (rule wp_each)
    show "I w out" by (simp add: I_def)
  next
    fix d w1 and out :: "'b list"
    assume d: "d \<in> set ds" and inv: "I w1 out"
    show "wp (apply_one st cl force d) (\<lambda>_. I) (\<lambda>_. I) w1 out"
    proof (cases "drifts d")
      case True
      have "wp (manifest_text st (ld_secret d)) (\<lambda>(m, _). wp (io_map_err (ClusterError (sc_ref (ld_secret d)))
          (io_call (on_world (cl_apply cl m force)))) (\<lambda>_. I) (\<lambda>_. I)) (\<lambda>_. I) w1 out"
      proof (rule wp_mono [OF wp_conj [OF manifest_text_wp [OF laws] manifest_text_quiet [OF rq]]], elim conjE)
        fix mv w2 and out :: "'b list"
        assume w2: "files view w2 = files view w1" "sent (fst w2) = sent (fst w1)" and rd: "ready st (files view w1) (ld_secret d) mv"
        obtain m v where mv: "mv = (m, v)" by (cases mv)
        have "?ok m" using d True rd inv by (auto simp: mv I_def)
        moreover obtain ms where "sent (fst w1) = sent (fst w) @ ms" "list_all ?ok ms" using inv by (auto simp: I_def)
        ultimately have more: "\<exists>ms. sent u' = sent (fst w) @ ms \<and> list_all ?ok ms"
          if "cl_apply cl m force (fst w2) = (r, u')" for r u'
          using sent [OF that] w2(2) by (intro exI [of _ "ms @ [m]"]) simp
        have "files view u = files view w" if "cl_apply cl m force (fst w2) = (r, fst u)" for r and u :: "'a keyed"
          using q [of m force] that w2(1) inv by (simp add: quiet_def I_def)
        with more show "(case mv of (m, _) \<Rightarrow> wp (io_map_err (ClusterError (sc_ref (ld_secret d)))
            (io_call (on_world (cl_apply cl m force)))) (\<lambda>_. I) (\<lambda>_. I)) w2 out"
          by (auto simp: mv wp_map_err wp_call on_world_run I_def)
      next
        fix e u and out :: "'b list"
        assume "files view u = files view w1 \<and> sent (fst u) = sent (fst w1)"
        with inv show "I u out" by (simp add: I_def)
      qed
      with True show ?thesis by (simp add: apply_one_def wp_bind split_def)
    next
      case False
      with inv show ?thesis by (simp add: apply_one_def wp_simps)
    qed
  qed
  then have "I w' out'" using run by (cases r) (auto dest: wp_ok wp_err)
  then show ?thesis by (simp add: I_def)
qed

subsection \<open>A store of one file, and a cluster that keeps what it is sent\<close>

definition one_file_store :: "string list store" where
  "one_file_store = \<lparr>st_cat = sample_catalog, st_yaml = one_yaml (manifest_of sample_secret sample_vals),
     st_nodes = (\<lambda>_. Inl []), st_age_key = (\<lambda>w. (Inr ''k'', w)), st_encrypt = (\<lambda>p f w. (Inl [], w)),
     st_decrypt = (\<lambda>c f k w. (Inr (tl c), w)), st_read = (\<lambda>p w. (Inr ''#M'', w)), st_mkdir = (\<lambda>p w. (Inl [], w)),
     st_temp = (\<lambda>p q w. (Inl [], w)), st_write = (\<lambda>p q w. (Inl [], w)), st_chmod = (\<lambda>p q w. (Inl [], w)),
     st_close = (\<lambda>p w. (Inl [], w)), st_rename = (\<lambda>p q w. (Inl [], w)), st_remove = (\<lambda>p w. (Inl [], w))\<rparr>"

definition one_cluster :: "string option \<Rightarrow> string list cluster" where
  "one_cluster t = \<lparr>cl_secret = (\<lambda>r w. (Inr t, w)), cl_apply = (\<lambda>m f w. (Inr (), w @ [m]))\<rparr>"

lemma one_file_laws:
  "store_laws one_file_store (\<lambda>_ _. Some ''#M'')" "reads_quiet id one_file_store"
  "\<And>r. quiet (\<lambda>_ _. Some ''#M'') (cl_secret (one_cluster t) r)" "\<And>m f. quiet (\<lambda>_ _. Some ''#M'') (cl_apply (one_cluster t) m f)"
proof -
  have "manifest_maps (manifest_of sample_secret sample_vals)" by code_simp
  then show "store_laws one_file_store (\<lambda>_ _. Some ''#M'')"
    by (auto simp: store_laws_def one_file_store_def one_yaml_def yaml_laws_def quiet_def same_manifest_def split: if_splits)
qed (simp_all add: reads_quiet_def quiet_def one_file_store_def one_cluster_def)

theorem diff_is_exact_witness:
  "\<exists>ds w' out. secrets_diff one_file_store (one_cluster (Some ''M'')) [sample_secret] (([], None), [] :: unit list) = (Inr ds, w', out) \<and>
     list_all (diff_true one_file_store (one_cluster (Some ''M'')) (\<lambda>_. Some ''#M'')) ds \<and> \<not> list_ex drifts ds"
proof -
  let ?run = "secrets_diff one_file_store (one_cluster (Some ''M'')) [sample_secret] (([], None), [] :: unit list)"
  have "(case ?run of (Inr ds, _) \<Rightarrow> \<not> list_ex drifts ds | (Inl _, _) \<Rightarrow> False)" by code_simp
  then obtain ds w' out where run: "?run = (Inr ds, w', out)" "\<not> list_ex drifts ds"
    by (auto split: prod.splits sum.splits)
  from diff_is_exact [OF one_file_laws(1,3) run(1)] run show ?thesis by auto
qed

theorem apply_sends_catalog_only_witness:
  "let d = \<lparr>ld_secret = sample_secret, ld_absent = True, ld_changes = []\<rparr>;
     run = secrets_apply one_file_store (one_cluster None) [d] False (([], None), [] :: unit list) in
   fst (fst (snd run)) = [''M''] \<and> (\<exists>v. ready one_file_store (\<lambda>_. Some ''#M'') sample_secret (''M'', v))"
proof -
  let ?d = "\<lparr>ld_secret = sample_secret, ld_absent = True, ld_changes = []\<rparr>"
  let ?run = "secrets_apply one_file_store (one_cluster None) [?d] False (([], None), [] :: unit list)"
  have sent: "id u' = id u @ [m]" if "cl_apply (one_cluster None) m f u = (r, u')" for m f u r u'
    using that by (auto simp: one_cluster_def)
  obtain r w' out where run: "?run = (r, w', out)" by (metis prod_cases3)
  have "fst (fst (snd ?run)) = [''M'']" by code_simp
  with run have w: "fst w' = [''M'']" by simp
  from apply_sends_catalog_only [where sent = id, OF one_file_laws(1,4) sent one_file_laws(2) run] w
  show ?thesis using run by auto
qed

end
