(* ===== verification/Bitwarden.thy ===== *)
theory Bitwarden
  imports Catalog
begin

section \<open>bitwarden/bitwarden.go and secrets/vault.go: reading the password manager\<close>

text \<open>
  The client runs \<open>rbw\<close> for items and \<open>bw\<close> for attachments; both programs and the JSON package are the
  parameter \<open>bw_client\<close>. What the process keeps between calls is the record \<open>bw_state\<close> beside the outside
  world: is the agent checked, the listing, the items read, and the cache of the Vault over the client.
  A nil string pointer of the JSON is \<open>None\<close>.
\<close>

record item =
  it_id :: string
  it_name :: string
  it_password :: "string option"
  it_fields :: "(string option \<times> string option) list"

record 'w bw_client =
  bc_rbw :: "string list \<Rightarrow> ('w, string, string) call"
  bc_bw :: "string list \<Rightarrow> ('w, string, string) call"
  bc_list_json :: "string \<Rightarrow> string + (string \<times> string option) list"
  bc_item_json :: "string \<Rightarrow> string + item"
  bc_skip_attachments :: bool

record bw_state =
  bs_ready :: bool
  bs_bw_synced :: bool
  bs_ids :: "(string \<Rightarrow> string list) option"
  bs_items :: "string \<rightharpoonup> item"
  bs_vault :: "string \<rightharpoonup> item"
  bs_warnings :: "string list"

datatype vault_error =
    VaultLocked
  | RunFailed string
  | NotFound string
  | SameName nat string
  | Unreadable string
  | AnotherItem string
  | TwoFields string string
  | NoField string string
  | EmptyField string string
  | EmptyAttachment string string
  | NotAnIssuedKey key_kind
  | Skipped

type_synonym 'w bw = "'w \<times> bw_state"

definition bw_ready :: "'w bw_client \<Rightarrow> ('w bw, vault_error, unit) call" where
  "bw_ready c = (\<lambda>(w, s).
     if bs_ready s then (Inr (), w, s)
     else (case bc_rbw c [''unlocked''] w of
         (Inl _, w1) \<Rightarrow> (Inl VaultLocked, w1, s)
       | (Inr _, w1) \<Rightarrow> (case bc_rbw c [''sync''] w1 of
           (Inl e, w2) \<Rightarrow> (Inr (), w2, s\<lparr>bs_ready := True, bs_warnings := bs_warnings s @ [e]\<rparr>)
         | (Inr _, w2) \<Rightarrow> (Inr (), w2, s\<lparr>bs_ready := True\<rparr>))))"

fun add_ids :: "(string \<times> string option) list \<Rightarrow> (string \<Rightarrow> string list) \<Rightarrow> string \<Rightarrow> string list" where
  "add_ids [] ids = ids"
| "add_ids ((i, None) # ls) ids = add_ids ls ids"
| "add_ids ((i, Some n) # ls) ids = add_ids ls (ids(n := ids n @ [i]))"

definition bw_list :: "'w bw_client \<Rightarrow> ('w bw, vault_error, unit) call" where
  "bw_list c = (\<lambda>(w, s).
     if bs_ids s \<noteq> None then (Inr (), w, s)
     else (case bc_rbw c [''list'', ''--raw''] w of
         (Inl e, w1) \<Rightarrow> (Inl (RunFailed e), w1, s)
       | (Inr out, w1) \<Rightarrow> (case bc_list_json c out of
           Inl e \<Rightarrow> (Inl (Unreadable []), w1, s)
         | Inr ls \<Rightarrow> (Inr (), w1, s\<lparr>bs_ids := Some (add_ids ls (\<lambda>_. [])), bs_items := Map.empty\<rparr>))))"

definition get_item :: "'w bw_client \<Rightarrow> string \<Rightarrow> string \<Rightarrow> ('w bw, vault_error, item) call" where
  "get_item c name i = (\<lambda>(w, s).
     case bs_items s i of Some it \<Rightarrow> (Inr it, w, s)
     | None \<Rightarrow> (case bc_rbw c [''get'', ''--raw'', i] w of
         (Inl e, w1) \<Rightarrow> (Inl (RunFailed e), w1, s)
       | (Inr out, w1) \<Rightarrow> (case bc_item_json c out of
           Inl e \<Rightarrow> (Inl (Unreadable name), w1, s)
         | Inr it \<Rightarrow>
             if it_id it \<noteq> i \<or> it_name it \<noteq> name then (Inl (AnotherItem name), w1, s)
             else (Inr it, w1, s\<lparr>bs_items := (bs_items s)(it_id it \<mapsto> it)\<rparr>))))"

definition bw_item :: "'w bw_client \<Rightarrow> string \<Rightarrow> ('w bw, vault_error, item) call" where
  "bw_item c name = (\<lambda>ws.
     case bw_ready c ws of (Inl e, ws1) \<Rightarrow> (Inl e, ws1)
     | (Inr _, ws1) \<Rightarrow> (case bw_list c ws1 of (Inl e, ws2) \<Rightarrow> (Inl e, ws2)
       | (Inr _, ws2) \<Rightarrow> (case the (bs_ids (snd ws2)) name of
           [] \<Rightarrow> (Inl (NotFound name), ws2)
         | [i] \<Rightarrow> get_item c name i ws2
         | js \<Rightarrow> (Inl (SameName (length js) name), ws2))))"

fun scan_field :: "string \<Rightarrow> (string option \<times> string option) list \<Rightarrow> string option \<Rightarrow> string option option" where
  "scan_field name [] found = Some found"
| "scan_field name ((n, v) # fs) found =
     (if n = Some name
      then (if found \<noteq> None then None
        else scan_field name fs (Some (case v of Some x \<Rightarrow> x | None \<Rightarrow> [])))
      else scan_field name fs found)"

definition item_field :: "item \<Rightarrow> string \<Rightarrow> vault_error + string" where
  "item_field it name =
     (case (if name = ''password'' \<and> it_password it \<noteq> None then Some (it_password it)
            else scan_field name (it_fields it) None) of
        None \<Rightarrow> Inl (TwoFields (it_name it) name)
      | Some None \<Rightarrow> Inl (NoField (it_name it) name)
      | Some (Some v) \<Rightarrow> if v = [] then Inl (EmptyField (it_name it) name) else Inr v)"

definition get_attachment :: "'w bw_client \<Rightarrow> item \<Rightarrow> string \<Rightarrow> ('w bw, vault_error, string) call" where
  "get_attachment c it file = (\<lambda>(w, s).
     case bc_bw c [''get'', ''attachment'', file, ''--itemid'', it_id it, ''--raw''] w of
       (Inl e, w1) \<Rightarrow> (Inl (RunFailed e), w1, s)
     | (Inr out, w1) \<Rightarrow> if out = [] then (Inl (EmptyAttachment (it_name it) file), w1, s) else (Inr out, w1, s))"

definition bw_attachment :: "'w bw_client \<Rightarrow> item \<Rightarrow> string \<Rightarrow> ('w bw, vault_error, string) call" where
  "bw_attachment c it file = (\<lambda>(w, s).
     if bs_bw_synced s then get_attachment c it file (w, s)
     else (case bc_bw c [''sync''] w of
         (Inl e, w1) \<Rightarrow> (Inl (RunFailed e), w1, s)
       | (Inr _, w1) \<Rightarrow> get_attachment c it file (w1, s\<lparr>bs_bw_synced := True\<rparr>)))"

text \<open>The Vault over the client.\<close>

definition vault_item :: "'w bw_client \<Rightarrow> string \<Rightarrow> ('w bw, vault_error, item) call" where
  "vault_item c name = (\<lambda>ws.
     case bs_vault (snd ws) name of Some it \<Rightarrow> (Inr it, ws)
     | None \<Rightarrow> (case bw_item c name ws of
         (Inl e, ws1) \<Rightarrow> (Inl e, ws1)
       | (Inr it, (w1, s1)) \<Rightarrow> (Inr it, w1, s1\<lparr>bs_vault := (bs_vault s1)(name \<mapsto> it)\<rparr>)))"

definition vault_issued :: "'w bw_client \<Rightarrow> key \<Rightarrow> ('w bw, vault_error, string) call" where
  "vault_issued c k = (\<lambda>ws.
     if ky_kind k \<noteq> Issued then (Inl (NotAnIssuedKey (ky_kind k)), ws)
     else (case vault_item c (ky_item k) ws of
         (Inl e, ws1) \<Rightarrow> (Inl e, ws1)
       | (Inr it, ws1) \<Rightarrow>
           if ky_attachment k \<noteq> []
           then (if bc_skip_attachments c then (Inl Skipped, ws1) else bw_attachment c it (ky_attachment k) ws1)
           else (item_field it (ky_field k), ws1)))"

definition age_key :: "'w bw_client \<Rightarrow> ('w bw, vault_error, string) call" where
  "age_key c = (\<lambda>ws. case vault_item c ''kluster/age-key'' ws of
       (Inl e, ws1) \<Rightarrow> (Inl e, ws1) | (Inr it, ws1) \<Rightarrow> (item_field it ''age_key'', ws1))"

definition issued_source :: "key \<Rightarrow> string" where
  "issued_source k =
     (if ky_attachment k \<noteq> [] then ky_item k @ '' attachment '' @ ky_attachment k
      else ky_item k @ '' field '' @ ky_field k)"

subsection \<open>The interface the planner uses\<close>

text \<open>
  A Vault returns values for issued keys only, and a value is never empty: \<open>vault_issued\<close> provides it,
  whatever the programs print.
\<close>

locale vault =
  fixes issued :: "key \<Rightarrow> ('w, vault_error, string) call"
  assumes issued_value: "issued k w = (Inr v, w') \<Longrightarrow> v \<noteq> [] \<and> ky_kind k = Issued"
begin

lemma no_value_for_others: "ky_kind k \<noteq> Issued \<Longrightarrow> \<exists>e w'. issued k w = (Inl e, w')"
  using issued_value [of k w] by (cases "issued k w"; cases "fst (issued k w)") auto

end

lemma item_field_value: "item_field it n = Inr v \<Longrightarrow> v \<noteq> []"
  by (auto simp: item_field_def split: option.splits if_splits)

lemma get_attachment_value: "get_attachment c it f ws = (Inr v, ws') \<Longrightarrow> v \<noteq> []"
  by (auto simp: get_attachment_def split: prod.splits sum.splits if_splits)

lemma bw_attachment_value: "bw_attachment c it f ws = (Inr v, ws') \<Longrightarrow> v \<noteq> []"
  by (auto simp: bw_attachment_def split: prod.splits sum.splits if_splits dest: get_attachment_value)

interpretation bitwarden: vault "vault_issued c" for c
proof
  fix k v and w w' :: "'a bw"
  assume "vault_issued c k w = (Inr v, w')"
  then show "v \<noteq> [] \<and> ky_kind k = Issued"
    by (auto simp: vault_issued_def split: if_splits prod.splits sum.splits dest: item_field_value bw_attachment_value)
qed

subsection \<open>One item, by its exact name, read once\<close>

text \<open>The listing has each id once; what is kept was read under the name it has.\<close>

definition caches_ok :: "bw_state \<Rightarrow> bool" where
  "caches_ok s \<longleftrightarrow>
     (\<forall>ids. bs_ids s = Some ids \<longrightarrow> (\<forall>i it. bs_items s i = Some it \<longrightarrow> it_id it = i \<and> i \<in> set (ids (it_name it))) \<and>
        (\<forall>n m i. i \<in> set (ids n) \<longrightarrow> i \<in> set (ids m) \<longrightarrow> n = m)) \<and>
     (bs_ids s = None \<longrightarrow> bs_items s = Map.empty) \<and>
     (\<forall>n it. bs_vault s n = Some it \<longrightarrow> it_name it = n)"

definition list_laws :: "'w bw_client \<Rightarrow> bool" where
  "list_laws c \<longleftrightarrow> (\<forall>out ls. bc_list_json c out = Inr ls \<longrightarrow> distinct (map fst ls))"

lemma add_ids_set: "i \<in> set (add_ids ls ids n) \<longleftrightarrow> i \<in> set (ids n) \<or> (i, Some n) \<in> set ls"
proof (induction ls arbitrary: ids)
  case (Cons l ls)
  then show ?case by (cases l; cases "snd l") auto
qed simp

lemma bw_ready_ok:
  "bw_ready c (w, s) = (r, w', s') \<Longrightarrow> caches_ok s \<Longrightarrow>
     caches_ok s' \<and> bs_ids s' = bs_ids s \<and> bs_items s' = bs_items s \<and> bs_vault s' = bs_vault s \<and> (is_ok r \<longrightarrow> bs_ready s')"
  by (auto simp: bw_ready_def caches_ok_def split: prod.splits sum.splits if_splits)

lemma bw_list_ok:
  assumes "list_laws c" and "bw_list c (w, s) = (r, w', s')" and "caches_ok s"
  shows "caches_ok s' \<and> bs_vault s' = bs_vault s \<and> bs_ready s' = bs_ready s \<and> (is_ok r \<longrightarrow> bs_ids s' \<noteq> None)"
proof (cases "bs_ids s")
  case None
  have one: "n = m" if "bc_list_json c out = Inr ls" "(i, Some n) \<in> set ls" "(i, Some m) \<in> set ls" for out ls i n m
    using assms(1) that eq_key_imp_eq_value [of ls i "Some n" "Some m"] by (auto simp: list_laws_def)
  from None assms(2,3) show ?thesis
    by (auto simp: bw_list_def caches_ok_def add_ids_set split: prod.splits sum.splits if_splits) (rule one; assumption)
next
  case (Some ids)
  with assms show ?thesis by (auto simp: bw_list_def)
qed

lemma get_item_ok:
  assumes "get_item c name i (w, s) = (r, w', s')" and ok: "caches_ok s" and ids: "bs_ids s = Some ids" "i \<in> set (ids name)"
  shows "caches_ok s' \<and> bs_vault s' = bs_vault s \<and> bs_ready s' = bs_ready s \<and> bs_ids s' = bs_ids s \<and>
     (\<forall>it. r = Inr it \<longrightarrow> it_name it = name \<and> it_id it = i \<and> bs_items s' i = Some it)"
proof (cases "bs_items s i")
  case (Some it)
  from ok ids Some have "it_id it = i" "i \<in> set (ids (it_name it))"
      "\<And>n m. i \<in> set (ids n) \<Longrightarrow> i \<in> set (ids m) \<Longrightarrow> n = m"
    by (simp_all add: caches_ok_def)
  with assms Some show ?thesis by (auto simp: get_item_def)
next
  case None
  show ?thesis
  proof (cases "is_ok r")
    case False
    with assms None show ?thesis by (auto simp: get_item_def split: prod.splits sum.splits if_splits)
  next
    case True
    with assms(1) None obtain it where it: "r = Inr it" "it_id it = i" "it_name it = name"
        "s' = s\<lparr>bs_items := (bs_items s)(i \<mapsto> it)\<rparr>"
      by (auto simp: get_item_def split: prod.splits sum.splits if_splits)
    with ok ids show ?thesis by (simp add: caches_ok_def)
  qed
qed

lemma bw_item_ok:
  assumes laws: "list_laws c" and run: "bw_item c name (w, s) = (r, w', s')" and ok: "caches_ok s"
  shows "caches_ok s' \<and> bs_vault s' = bs_vault s \<and>
     (\<forall>it. r = Inr it \<longrightarrow> it_name it = name \<and> bs_ready s' \<and>
        (\<exists>ids. bs_ids s' = Some ids \<and> ids name = [it_id it] \<and> bs_items s' (it_id it) = Some it))"
proof -
  obtain r1 w1 s1 where rd: "bw_ready c (w, s) = (r1, w1, s1)" by (metis prod_cases3)
  note o1 = bw_ready_ok [OF rd ok]
  obtain r2 w2 s2 where ls: "bw_list c (w1, s1) = (r2, w2, s2)" by (metis prod_cases3)
  note o2 = bw_list_ok [OF laws ls o1 [THEN conjunct1]]
  show ?thesis
  proof (cases "is_ok r1 \<and> is_ok r2")
    case False
    with run rd ls o1 o2 show ?thesis by (cases r1; cases r2) (auto simp: bw_item_def)
  next
    case True
    then obtain u v where uv: "r1 = Inr u" "r2 = Inr v" by (cases r1; cases r2) auto
    with o2 obtain ids where ids: "bs_ids s2 = Some ids" by auto
    consider "ids name = []" | i where "ids name = [i]" | i j js where "ids name = i # j # js"
      by (metis list.exhaust)
    then show ?thesis
    proof cases
      case (2 i)
      with run rd ls uv ids have "get_item c name i (w2, s2) = (r, w', s')" by (simp add: bw_item_def)
      from get_item_ok [OF this _ ids] o1 o2 2 ids uv show ?thesis by auto
    qed (use run rd ls uv ids o1 o2 in \<open>auto simp: bw_item_def\<close>)
  qed
qed

lemma bw_item_again:
  assumes "bs_ready s" and "bs_ids s = Some ids" and "ids name = [i]" and "bs_items s i = Some it"
  shows "bw_item c name (w, s) = (Inr it, w, s)"
  using assms by (simp add: bw_item_def bw_ready_def bw_list_def get_item_def)

text \<open>
  An item read from Bitwarden is the one item of exactly that name (a part match is never taken, two
  items of the name are refused), the caches stay true to that, and an item once read is not read
  again: the same call returns it without running a program.
\<close>

theorem item_by_exact_name_once:
  assumes "list_laws c" and "caches_ok s" and "bw_item c name (w, s) = (Inr it, w', s')"
  shows "it_name it = name \<and> (\<exists>ids. bs_ids s' = Some ids \<and> ids name = [it_id it]) \<and> caches_ok s' \<and>
    bw_item c name (u, s') = (Inr it, u, s')"
  using bw_item_ok [OF assms(1,3,2)] bw_item_again [of s' _ name "it_id it" it c u] by auto

definition toy_client :: "unit bw_client" where
  "toy_client = \<lparr>bc_rbw = (\<lambda>args w. (Inr (if args = [''list'', ''--raw''] then ''L'' else ''I''), w)),
     bc_bw = (\<lambda>_ w. (Inl [], w)), bc_list_json = (\<lambda>_. Inr [(''1'', Some ''kluster/db''), (''2'', Some ''kluster/db-2'')]),
     bc_item_json = (\<lambda>_. Inr \<lparr>it_id = ''1'', it_name = ''kluster/db'', it_password = Some ''pw'', it_fields = []\<rparr>),
     bc_skip_attachments = False\<rparr>"

definition bw_start :: bw_state where
  "bw_start = \<lparr>bs_ready = False, bs_bw_synced = False, bs_ids = None, bs_items = Map.empty, bs_vault = Map.empty, bs_warnings = []\<rparr>"

theorem item_by_exact_name_once_witness:
  "let (r, _, s') = bw_item toy_client ''kluster/db'' ((), bw_start) in
     r = Inr \<lparr>it_id = ''1'', it_name = ''kluster/db'', it_password = Some ''pw'', it_fields = []\<rparr> \<and>
     bw_item toy_client ''kluster/db'' ((), s') = (r, (), s')"
proof -
  have laws: "list_laws toy_client" "caches_ok bw_start"
    by (simp_all add: list_laws_def toy_client_def caches_ok_def bw_start_def)
  let ?it = "\<lparr>it_id = ''1'', it_name = ''kluster/db'', it_password = Some ''pw'', it_fields = []\<rparr>"
  obtain s' where run: "bw_item toy_client ''kluster/db'' ((), bw_start) = (Inr ?it, (), s')"
    by (simp add: bw_item_def bw_ready_def bw_list_def get_item_def toy_client_def bw_start_def)
  from item_by_exact_name_once [OF laws run, of "()"] run show ?thesis by simp
qed

end
