(* ===== verification/SecretCmds.thy ===== *)
theory SecretCmds
  imports SecretPlan Bitwarden
begin

section \<open>secrets: generate, rotate, pull, set and write\<close>

text \<open>
  The commands read every file, decide the updates and plan (\<open>SecretPlan\<close>). The vault is any \<open>Issued\<close>
  operation (\<open>Bitwarden.vault\<close> is its contract), absent for the commands that never read one; a random
  character is \<open>rand.Int\<close> below 62, the parameter \<open>pl_draw\<close>.
\<close>

record 'w planner =
  pl_store :: "'w store"
  pl_vault :: "(key \<Rightarrow> ('w, vault_error, string) call) option"
  pl_draw :: "('w, string, nat) call"

datatype plan_error =
    StoreFailed store_error
  | RandomFailed string
  | NoSuchSecret ref
  | NoSuchKey key_ref
  | RotateIssued key_ref
  | WrongKind key_ref key_kind key_kind
  | NeedsVault
  | VaultFailed key_ref vault_error
  | EmptyValue key_ref

definition alphabet :: string where
  "alphabet = ''ABCDEFGHIJKLMNOPQRSTUVWXYZabcdefghijklmnopqrstuvwxyz0123456789''"

fun draw_chars :: "('w, string, nat) call \<Rightarrow> nat \<Rightarrow> ('w, string, string) call" where
  "draw_chars draw 0 w = (Inr [], w)"
| "draw_chars draw (Suc n) w =
     (case draw w of (Inl e, w1) \<Rightarrow> (Inl e, w1)
      | (Inr j, w1) \<Rightarrow> (case draw_chars draw n w1 of (Inl e, w2) \<Rightarrow> (Inl e, w2)
        | (Inr cs, w2) \<Rightarrow> (Inr (alphabet ! j # cs), w2)))"

definition random :: "('w, string, nat) call \<Rightarrow> int \<Rightarrow> ('w, string, string) call" where
  "random draw n = (\<lambda>w. if n \<le> 0 then (Inl ''a generated value needs a positive length'', w)
     else draw_chars draw (nat n) w)"

type_synonym ('w, 'o, 'a) cmd = "('w keyed, 'o, plan_error, 'a) io"

definition current :: "'w store \<Rightarrow> ('w, 'o, fstate) cmd" where
  "current st = io_fold (\<lambda>s cur.
     io_bind (io_map_err StoreFailed (store_read st s)) (\<lambda>(v, found, mismatch).
       io_return (cur(sc_ref s \<mapsto> \<lparr>fl_values = v, fl_found = found, fl_mismatch = mismatch\<rparr>))))
     (ct_secrets (st_cat st)) Map.empty"

definition fresh_value :: "'w planner \<Rightarrow> key \<Rightarrow> ('w, 'o, string) cmd" where
  "fresh_value p k = io_map_err RandomFailed (io_call (on_world (random (pl_draw p) (ky_length k))))"

text \<open>The two nested loops over the Secrets and their keys are one loop over the pairs.\<close>

definition generate_key :: "'w planner \<Rightarrow> fstate \<Rightarrow> key secret \<times> string \<Rightarrow> updates \<Rightarrow> ('w, 'o, updates) cmd" where
  "generate_key p cur = (\<lambda>(s, n) ups. let k = the (secret_key s n) in
     if ky_kind k \<noteq> Generated \<or> map_of (state_values cur (sc_ref s)) n \<noteq> None then io_return ups
     else io_bind (fresh_value p k) (\<lambda>v.
       io_return (ups(kref s n \<mapsto> \<lparr>up_value = v, up_reason = GeneratedLen (ky_length k)\<rparr>))))"

definition generate :: "'w planner \<Rightarrow> ('w, 'o, file_plan list) cmd" where
  "generate p = (let c = st_cat (pl_store p) in
     io_bind (current (pl_store p)) (\<lambda>cur.
     io_bind (io_fold (generate_key p cur) (key_pairs c) Map.empty) (\<lambda>ups.
       io_return (build_plan c cur ups))))"

definition resolve_one :: "catalog \<Rightarrow> key_kind \<Rightarrow> bool \<Rightarrow> key_ref \<Rightarrow> plan_error + (key_ref \<times> key)" where
  "resolve_one c want wrong_kind r =
     (case catalog_secret c (kr_secret r) of None \<Rightarrow> Inl (NoSuchSecret (kr_secret r))
      | Some s \<Rightarrow> (case secret_key s (kr_key r) of None \<Rightarrow> Inl (NoSuchKey r)
        | Some k \<Rightarrow>
            if ky_kind k \<noteq> want
            then Inl (if ky_kind k = Issued \<and> wrong_kind then RotateIssued r else WrongKind r (ky_kind k) want)
            else Inr (r, k)))"

definition resolve :: "catalog \<Rightarrow> key_ref list \<Rightarrow> key_kind \<Rightarrow> bool \<Rightarrow> plan_error + (key_ref \<times> key) list" where
  "resolve c refs want wrong_kind =
     (if refs = [] then Inr (map (\<lambda>(s, n). (kref s n, the (secret_key s n)))
        (filter (\<lambda>(s, n). ky_kind (the (secret_key s n)) = want) (key_pairs c)))
      else map_result (resolve_one c want wrong_kind) refs)"

definition rotate_key :: "'w planner \<Rightarrow> key_ref \<times> key \<Rightarrow> updates \<Rightarrow> ('w, 'o, updates) cmd" where
  "rotate_key p = (\<lambda>(r, k) ups. io_bind (fresh_value p k) (\<lambda>v.
     io_return (ups(r \<mapsto> \<lparr>up_value = v, up_reason = RotatedLen (ky_length k)\<rparr>))))"

definition rotate_keys :: "'w planner \<Rightarrow> key_ref list \<Rightarrow> ('w, 'o, file_plan list) cmd" where
  "rotate_keys p refs = (let c = st_cat (pl_store p) in
     io_bind (io_result (resolve c refs Generated True)) (\<lambda>targets.
     io_bind (current (pl_store p)) (\<lambda>cur.
     io_bind (io_fold (rotate_key p) targets Map.empty) (\<lambda>ups.
       io_return (build_plan c cur ups)))))"

definition pull_key :: "(key \<Rightarrow> ('w, vault_error, string) call) \<Rightarrow> key_ref \<times> key \<Rightarrow> updates \<Rightarrow> ('w, 'o, updates) cmd" where
  "pull_key issued = (\<lambda>(r, k) ups.
     io_bind (io_map_err (VaultFailed r) (io_call (on_world (issued k)))) (\<lambda>v.
       if v = [] then io_fail (EmptyValue r)
       else io_return (ups(r \<mapsto> \<lparr>up_value = v, up_reason = FromBitwarden (issued_source k)\<rparr>))))"

definition pull :: "'w planner \<Rightarrow> key_ref list \<Rightarrow> ('w, 'o, file_plan list) cmd" where
  "pull p refs = (let c = st_cat (pl_store p) in
     case pl_vault p of None \<Rightarrow> io_fail NeedsVault
     | Some issued \<Rightarrow>
         io_bind (io_result (resolve c refs Issued False)) (\<lambda>targets.
         io_bind (current (pl_store p)) (\<lambda>cur.
         io_bind (io_fold (pull_key issued) targets Map.empty) (\<lambda>ups.
           io_return (build_plan c cur ups)))))"

definition set_key :: "'w planner \<Rightarrow> key_ref \<Rightarrow> string \<Rightarrow> ('w, 'o, file_plan list) cmd" where
  "set_key p r v = (let c = st_cat (pl_store p) in
     io_bind (io_result (resolve c [r] Issued False)) (\<lambda>targets.
     if v = [] then io_fail (EmptyValue r)
     else io_bind (current (pl_store p)) (\<lambda>cur.
       io_return (build_plan c cur [fst (hd targets) \<mapsto> \<lparr>up_value = v, up_reason = Typed\<rparr>]))))"

definition write_plan :: "'w planner \<Rightarrow> file_plan list \<Rightarrow> ('w, 'o, unit) cmd" where
  "write_plan p fs = io_each (\<lambda>f.
     if \<not> file_changed f then io_return ()
     else io_map_err StoreFailed (store_write (pl_store p) (fp_secret f) (fp_next f))) fs"

subsection \<open>Random\<close>

lemma draw_chars_ok:
  "(\<And>w j w'. draw w = (Inr j, w') \<Longrightarrow> j < 62) \<Longrightarrow> draw_chars draw n w = (Inr v, w') \<Longrightarrow>
     length v = n \<and> set v \<subseteq> set alphabet"
proof (induction n arbitrary: w v)
  case (Suc n)
  have "length alphabet = 62" by (simp add: alphabet_def)
  with Suc show ?case by (fastforce split: prod.splits sum.splits intro: nth_mem)
qed simp

definition fresh :: "key \<Rightarrow> string \<Rightarrow> bool" where
  "fresh k v \<longleftrightarrow> int (length v) = ky_length k \<and> set v \<subseteq> set alphabet"

definition draw_laws :: "('w \<Rightarrow> 'v) \<Rightarrow> ('w, string, nat) call \<Rightarrow> bool" where
  "draw_laws view draw \<longleftrightarrow> quiet view draw \<and> (\<forall>w j w'. draw w = (Inr j, w') \<longrightarrow> j < 62)"

lemma quiet_draw_chars: "quiet view draw \<Longrightarrow> quiet view (draw_chars draw n)"
proof (induction n)
  case (Suc n)
  then show ?case unfolding quiet_def by (auto split: prod.splits sum.splits)
qed (simp add: quiet_def)

lemma random_ok:
  assumes "draw_laws view draw"
  shows "quiet view (random draw n)"
    and "random draw n w = (Inr v, w') \<Longrightarrow> int (length v) = n \<and> set v \<subseteq> set alphabet"
proof -
  from assms have q: "quiet view draw" and d: "\<And>w j w'. draw w = (Inr j, w') \<Longrightarrow> j < 62"
    by (auto simp: draw_laws_def)
  show "quiet view (random draw n)"
    using quiet_draw_chars [OF q] by (simp add: quiet_def random_def)
  show "random draw n w = (Inr v, w') \<Longrightarrow> int (length v) = n \<and> set v \<subseteq> set alphabet"
    using draw_chars_ok [of draw "nat n" w v w'] d by (simp add: random_def split: if_splits)
qed

lemma fresh_value_wp:
  assumes laws: "draw_laws view (pl_draw p)"
    and "\<And>v w'. fresh k v \<Longrightarrow> files view w' = files view w \<Longrightarrow> Q v w' out"
    and "\<And>e w'. files view w' = files view w \<Longrightarrow> E e w' out"
  shows "wp (fresh_value p k) Q E w out"
  unfolding fresh_value_def wp_map_err
  by (rule wp_quietI [OF random_ok(1) [OF laws]])
    (use assms(2,3) random_ok(2) [OF laws] in \<open>auto simp: fresh_def\<close>)

subsection \<open>Reading the state\<close>

definition reads :: "'w store \<Rightarrow> (path \<Rightarrow> string option) \<Rightarrow> fstate \<Rightarrow> bool" where
  "reads st disk cur \<longleftrightarrow> (\<forall>s \<in> set (ct_secrets (st_cat st)). \<exists>f. cur (sc_ref s) = Some f \<and>
     read_outcome st s (disk (secret_path (st_cat st) s)) (fl_values f, fl_found f, fl_mismatch f))"

lemma reads_all_read: "store_laws st view \<Longrightarrow> reads st disk cur \<Longrightarrow> all_read (st_cat st) cur"
  unfolding reads_def all_read_def using outcome_distinct by blast

lemma current_wp:
  assumes laws: "store_laws st view" and dist: "distinct (map sc_ref (ct_secrets (st_cat st)))"
  shows "wp (current st) (\<lambda>cur w' _. files view w' = files view w \<and> reads st (files view w) cur)
     (\<lambda>_ w' _. files view w' = files view w) w (out :: 'o list)"
proof -
  define I where "I = (\<lambda>ss (cur :: fstate) w' (_ :: 'o list). files view w' = files view w \<and>
     (\<forall>s \<in> set ss. \<exists>f. cur (sc_ref s) = Some f \<and>
        read_outcome st s (files view w (secret_path (st_cat st) s)) (fl_values f, fl_found f, fl_mismatch f)))"
  have "wp (current st) (I (ct_secrets (st_cat st))) (\<lambda>_ w' _. files view w' = files view w) w out"
    unfolding current_def
  proof (rule wp_fold_prefix)
    show "I [] Map.empty w out" by (simp add: I_def)
  next
    fix pre s post cur w1 and out :: "'o list"
    assume ss: "ct_secrets (st_cat st) = pre @ s # post" and inv: "I pre cur w1 out"
    then have w1: "files view w1 = files view w" by (simp add: I_def)
    have "sc_ref s \<notin> sc_ref ` set pre" using dist by (simp add: ss)
    then have fresh: "\<forall>t \<in> set pre. sc_ref t \<noteq> sc_ref s" by (auto simp: image_iff)
    show "wp (io_bind (io_map_err StoreFailed (store_read st s)) (\<lambda>(v, found, mismatch).
       io_return (cur(sc_ref s \<mapsto> \<lparr>fl_values = v, fl_found = found, fl_mismatch = mismatch\<rparr>))))
       (I (pre @ [s])) (\<lambda>_ w' _. files view w' = files view w) w1 out"
      unfolding wp_bind wp_map_err
      by (rule wp_mono [OF store_read_wp [OF laws]])
        (use inv w1 fresh in \<open>auto simp: I_def wp_simps split: prod.split\<close>)
  qed
  then show ?thesis by (rule wp_mono) (auto simp: I_def reads_def)
qed

subsection \<open>What a plan gives each key\<close>

definition planned :: "file_plan list \<Rightarrow> key_ref \<Rightarrow> string option" where
  "planned fs r = (case find (\<lambda>f. sc_ref (fp_secret f) = kr_secret r) fs of
     None \<Rightarrow> None | Some f \<Rightarrow> map_of (fp_next f) (kr_key r))"

definition held :: "fstate \<Rightarrow> key_ref \<Rightarrow> string option" where
  "held cur r = map_of (state_values cur (kr_secret r)) (kr_key r)"

lemma planned_desired:
  assumes ok: "catalog_ok c" and cur: "all_read c cur" and ups: "updates_ok c ups" and k: "catalog_key c r = Some k"
  shows "planned (build_plan c cur ups) r = desired c cur ups r"
proof -
  from k obtain s n where s: "s \<in> set (ct_secrets c)" "r = kref s n" unfolding catalog_key_iff [OF ok] by blast
  have sec: "fp_secret (plan_file cur b t) = t" for b t by (simp add: plan_file_def Let_def compare_keys)
  have "find (\<lambda>f. sc_ref (fp_secret f) = sc_ref s) (map (plan_file cur b) ss) = Some (plan_file cur b s)"
    if "s \<in> set ss" "distinct (map sc_ref ss)" for ss b
    using that by (induction ss) (auto simp: sec image_iff)
  then have "planned (build_plan c cur ups) r = map_of (fp_next (plan_file cur (build_next c cur ups) s)) n"
    using s catalog_ok_parts(1) [OF ok] by (simp add: planned_def build_plan_def Let_def)
  also have "\<dots> = desired c cur ups r"
    using plan_file_ok [OF ok cur ups s(1)] s(2) by (simp add: file_plan_ok_def Let_def sec)
  finally show ?thesis .
qed

text \<open>The keys a command does not update: literals and copies follow, the rest keep their value.\<close>

definition follows :: "catalog \<Rightarrow> fstate \<Rightarrow> file_plan list \<Rightarrow> key_ref \<Rightarrow> key \<Rightarrow> bool" where
  "follows c cur fs r k = (case ky_kind k of
     Literal \<Rightarrow> planned fs r = Some (ky_value k)
   | Copy \<Rightarrow> planned fs r =
       (case planned fs (ky_source k) of Some sv \<Rightarrow> Some (render_copy k sv) | None \<Rightarrow> held cur r)
   | _ \<Rightarrow> planned fs r = held cur r)"

lemma plan_follows:
  assumes ok: "catalog_ok c" and cur: "all_read c cur" and ups: "updates_ok c ups" and k: "catalog_key c r = Some k"
    and none: "ups r = None"
  shows "follows c cur (build_plan c cur ups) r k"
proof (cases "ky_kind k = Copy")
  case True
  from copy_source [OF ok k True] obtain sk where sk: "catalog_key c (ky_source k) = Some sk" "copyable (ky_kind sk)" by blast
  then have "planned (build_plan c cur ups) (ky_source k) = source_value cur ups (ky_source k)"
    using planned_desired [OF ok cur ups sk(1)] by (auto simp: desired_def copyable_iff)
  with True k show ?thesis
    by (simp add: follows_def planned_desired [OF ok cur ups k]) (simp add: desired_def held_def split: option.split)
next
  case False
  with k none show ?thesis
    by (cases "ky_kind k") (simp_all add: follows_def planned_desired [OF ok cur ups k] desired_def source_value_def held_def)
qed

lemma plan_updated:
  assumes ok: "catalog_ok c" and cur: "all_read c cur" and ups: "updates_ok c ups" and u: "ups r = Some u"
  shows "planned (build_plan c cur ups) r = Some (up_value u)"
proof -
  from ups u obtain k where k: "catalog_key c r = Some k" "copyable (ky_kind k)" unfolding updates_ok_def by blast
  then show ?thesis
    using planned_desired [OF ok cur ups k(1)] u by (auto simp: desired_def source_value_def copyable_iff)
qed

text \<open>Updates that are fresh values of the keys of \<open>T\<close>, all generated.\<close>

definition fresh_updates :: "catalog \<Rightarrow> key_ref set \<Rightarrow> updates \<Rightarrow> bool" where
  "fresh_updates c T ups \<longleftrightarrow> dom ups = T \<and>
     (\<forall>r u. ups r = Some u \<longrightarrow> (\<exists>k. catalog_key c r = Some k \<and> ky_kind k = Generated \<and> fresh k (up_value u)))"

lemma fresh_updates_ok: "fresh_updates c T ups \<Longrightarrow> updates_ok c ups"
  by (fastforce simp: fresh_updates_def updates_ok_def)

lemma fresh_updates_insert:
  assumes "fresh_updates c T ups" and "catalog_key c r = Some k" and "ky_kind k = Generated" and "fresh k (up_value u)"
  shows "fresh_updates c (insert r T) (ups(r \<mapsto> u))"
  using assms by (auto simp: fresh_updates_def)

lemma catalog_key_of_pair:
  assumes "catalog_ok c" and "(s, n) \<in> set (key_pairs c)"
  shows "catalog_key c (kref s n) = Some (the (secret_key s n))"
  unfolding catalog_key_iff [OF assms(1)] using assms(2) by (auto simp: key_pairs_iff key_names_iff)

definition gaps :: "fstate \<Rightarrow> (key secret \<times> string) list \<Rightarrow> key_ref set" where
  "gaps cur ps = {r. \<exists>(s, n) \<in> set ps. r = kref s n \<and> ky_kind (the (secret_key s n)) = Generated \<and> held cur r = None}"

lemma generate_loop:
  assumes ok: "catalog_ok (st_cat (pl_store p))" and draws: "draw_laws view (pl_draw p)"
  defines "c \<equiv> st_cat (pl_store p)"
  shows "wp (io_fold (generate_key p cur) (key_pairs c) Map.empty)
     (\<lambda>ups w' _. files view w' = files view w \<and> fresh_updates c (gaps cur (key_pairs c)) ups)
     (\<lambda>_ w' _. files view w' = files view w) w out"
proof (rule wp_fold_prefix [where I = "\<lambda>ps ups w' _. files view w' = files view w \<and> fresh_updates c (gaps cur ps) ups"])
  show "files view w = files view w \<and> fresh_updates c (gaps cur []) Map.empty"
    by (simp add: fresh_updates_def gaps_def)
next
  fix pre x post ups w1 and out
  assume split: "key_pairs c = pre @ x # post" and inv: "files view w1 = files view w \<and> fresh_updates c (gaps cur pre) ups"
  obtain s n where x: "x = (s, n)" by (cases x)
  have key: "catalog_key c (kref s n) = Some (the (secret_key s n))"
    using catalog_key_of_pair [of c s n] ok split x by (simp add: c_def)
  show "wp (generate_key p cur x ups) (\<lambda>ups w' _. files view w' = files view w \<and> fresh_updates c (gaps cur (pre @ [x])) ups)
     (\<lambda>_ w' _. files view w' = files view w) w1 out"
  proof (cases "ky_kind (the (secret_key s n)) \<noteq> Generated \<or> held cur (kref s n) \<noteq> None")
    case True
    then have "gaps cur (pre @ [x]) = gaps cur pre" by (auto simp: gaps_def x)
    with True inv show ?thesis by (auto simp: generate_key_def x held_def wp_simps)
  next
    case False
    then have g: "gaps cur (pre @ [x]) = insert (kref s n) (gaps cur pre)" by (auto simp: gaps_def x)
    have "wp (fresh_value p (the (secret_key s n))) (\<lambda>v.
        wp (io_return (ups(kref s n \<mapsto> \<lparr>up_value = v, up_reason = GeneratedLen (ky_length (the (secret_key s n)))\<rparr>)))
        (\<lambda>ups w' _. files view w' = files view w \<and> fresh_updates c (gaps cur (pre @ [x])) ups)
        (\<lambda>_ w' _. files view w' = files view w)) (\<lambda>_ w' _. files view w' = files view w) w1 out"
      by (rule fresh_value_wp [OF draws])
        (use inv False in \<open>simp_all add: wp_simps g fresh_updates_insert [OF _ key]\<close>)
    with False show ?thesis unfolding generate_key_def x prod.case Let_def by (simp add: held_def wp_bind)
  qed
qed

lemma resolve_generated:
  assumes ok: "catalog_ok c" and r: "resolve c refs want b = Inr ts"
  shows "\<forall>(r, k) \<in> set ts. catalog_key c r = Some k \<and> ky_kind k = want"
    and "fst ` set ts = (if refs = [] then {r. \<exists>k. catalog_key c r = Some k \<and> ky_kind k = want} else set refs)"
proof -
  have one: "resolve_one c want b r = Inr t \<Longrightarrow> catalog_key c (fst t) = Some (snd t) \<and> ky_kind (snd t) = want \<and> fst t = r" for r t
    by (auto simp: resolve_one_def catalog_key_def split: option.splits if_splits)
  have "(\<forall>(r, k) \<in> set ts. catalog_key c r = Some k \<and> ky_kind k = want) \<and>
     fst ` set ts = (if refs = [] then {r. \<exists>k. catalog_key c r = Some k \<and> ky_kind k = want} else set refs)"
  proof (cases "refs = []")
    case True
    then have ts: "ts = map (\<lambda>(s, n). (kref s n, the (secret_key s n)))
        (filter (\<lambda>(s, n). ky_kind (the (secret_key s n)) = want) (key_pairs c))"
      using r by (simp add: resolve_def)
    have "\<exists>s n. (s, n) \<in> set (key_pairs c) \<and> r = kref s n \<and> the (secret_key s n) = k" if "catalog_key c r = Some k" for r k
      using that unfolding catalog_key_iff [OF ok] by (force simp: key_pairs_iff key_names_iff)
    then show ?thesis
      using True catalog_key_of_pair [OF ok] by (fastforce simp: ts image_iff)
  next
    case False
    then have "list_all2 (\<lambda>x y. resolve_one c want b x = Inr y) refs ts"
      using r by (simp add: resolve_def map_result_Inr)
    then have "(\<forall>(r, k) \<in> set ts. catalog_key c r = Some k \<and> ky_kind k = want) \<and> fst ` set ts = set refs"
      by (induction rule: list_all2_induct) (auto dest!: one)
    with False show ?thesis by simp
  qed
  then show "\<forall>(r, k) \<in> set ts. catalog_key c r = Some k \<and> ky_kind k = want"
    "fst ` set ts = (if refs = [] then {r. \<exists>k. catalog_key c r = Some k \<and> ky_kind k = want} else set refs)"
    by blast+
qed

lemma rotate_loop:
  assumes draws: "draw_laws view (pl_draw p)" and ts: "\<forall>(r, k) \<in> set ts. catalog_key c r = Some k \<and> ky_kind k = Generated"
  shows "wp (io_fold (rotate_key p) ts Map.empty)
     (\<lambda>ups w' _. files view w' = files view w \<and> fresh_updates c (fst ` set ts) ups)
     (\<lambda>_ w' _. files view w' = files view w) w out"
proof (rule wp_fold_prefix [where I = "\<lambda>ps ups w' _. files view w' = files view w \<and> fresh_updates c (fst ` set ps) ups"])
  fix pre x post ups w1 and out
  assume split: "ts = pre @ x # post" and inv: "files view w1 = files view w \<and> fresh_updates c (fst ` set pre) ups"
  obtain r k where x: "x = (r, k)" by (cases x)
  with ts split have k: "catalog_key c r = Some k" "ky_kind k = Generated" by auto
  show "wp (rotate_key p x ups) (\<lambda>ups w' _. files view w' = files view w \<and> fresh_updates c (fst ` set (pre @ [x])) ups)
     (\<lambda>_ w' _. files view w' = files view w) w1 out"
    unfolding rotate_key_def x prod.case wp_bind
    by (rule fresh_value_wp [OF draws]) (use inv k in \<open>simp_all add: wp_simps fresh_updates_insert\<close>)
qed (simp add: fresh_updates_def)

text \<open>A plan made from fresh values of the keys of \<open>T\<close>.\<close>

definition fresh_plan :: "catalog \<Rightarrow> fstate \<Rightarrow> key_ref set \<Rightarrow> file_plan list \<Rightarrow> bool" where
  "fresh_plan c cur T fs \<longleftrightarrow> (\<forall>r k. catalog_key c r = Some k \<longrightarrow>
     (if r \<in> T then \<exists>v. planned fs r = Some v \<and> fresh k v else follows c cur fs r k))"

lemma fresh_plan_build:
  assumes ok: "catalog_ok c" and cur: "all_read c cur" and ups: "fresh_updates c T ups"
  shows "fresh_plan c cur T (build_plan c cur ups)"
  unfolding fresh_plan_def
proof (intro allI impI)
  fix r k assume k: "catalog_key c r = Some k"
  note uo = fresh_updates_ok [OF ups]
  show "if r \<in> T then \<exists>v. planned (build_plan c cur ups) r = Some v \<and> fresh k v else follows c cur (build_plan c cur ups) r k"
  proof (cases "ups r")
    case (Some u)
    with ups obtain k' where "r \<in> T" "catalog_key c r = Some k'" "fresh k' (up_value u)"
      unfolding fresh_updates_def by blast
    with k have "r \<in> T" "fresh k (up_value u)" by simp_all
    then show ?thesis using plan_updated [OF ok cur uo Some] by simp
  next
    case None
    with ups have "r \<notin> T" by (auto simp: fresh_updates_def)
    then show ?thesis using plan_follows [OF ok cur uo k None] by simp
  qed
qed

lemma generate_wp:
  assumes laws: "store_laws (pl_store p) view" and ok: "catalog_ok (st_cat (pl_store p))" and draws: "draw_laws view (pl_draw p)"
  shows "wp (generate p) (\<lambda>fs w' _. files view w' = files view w \<and>
       (\<exists>cur. reads (pl_store p) (files view w) cur \<and>
          fresh_plan (st_cat (pl_store p)) cur (gaps cur (key_pairs (st_cat (pl_store p)))) fs))
     (\<lambda>_ w' _. files view w' = files view w) w out"
  unfolding generate_def Let_def wp_bind
proof (rule wp_mono [OF current_wp [OF laws catalog_ok_parts(1) [OF ok]]], elim conjE)
  fix cur w1 and out
  assume w1: "files view w1 = files view w" and cur: "reads (pl_store p) (files view w) cur"
  note build = fresh_plan_build [OF ok reads_all_read [OF laws cur]]
  show "wp (io_fold (generate_key p cur) (key_pairs (st_cat (pl_store p))) Map.empty)
     (\<lambda>ups. wp (io_return (build_plan (st_cat (pl_store p)) cur ups)) (\<lambda>fs w' _. files view w' = files view w \<and>
       (\<exists>cur. reads (pl_store p) (files view w) cur \<and>
          fresh_plan (st_cat (pl_store p)) cur (gaps cur (key_pairs (st_cat (pl_store p)))) fs))
       (\<lambda>_ w' _. files view w' = files view w)) (\<lambda>_ w' _. files view w' = files view w) w1 out"
    by (rule wp_mono [OF generate_loop [OF ok draws]]) (use w1 cur build in \<open>auto simp: wp_simps\<close>)
qed simp

text \<open>The keys \<open>rotate\<close> means: those it names, or every generated key.\<close>

definition rotated :: "catalog \<Rightarrow> key_ref list \<Rightarrow> key_ref set" where
  "rotated c refs = (if refs = [] then {r. \<exists>k. catalog_key c r = Some k \<and> ky_kind k = Generated} else set refs)"

lemma rotate_wp:
  assumes laws: "store_laws (pl_store p) view" and ok: "catalog_ok (st_cat (pl_store p))" and draws: "draw_laws view (pl_draw p)"
  defines "c \<equiv> st_cat (pl_store p)"
  defines "T \<equiv> rotated c"
  shows "wp (rotate_keys p refs) (\<lambda>fs w' _. files view w' = files view w \<and>
       (\<forall>r \<in> T refs. \<exists>k. catalog_key c r = Some k \<and> ky_kind k = Generated) \<and>
       (\<exists>cur. reads (pl_store p) (files view w) cur \<and> fresh_plan c cur (T refs) fs))
     (\<lambda>_ w' _. files view w' = files view w) w out"
proof (cases "resolve c refs Generated True")
  case (Inl e)
  then show ?thesis by (simp add: rotate_keys_def c_def Let_def io_result_def wp_simps)
next
  case (Inr ts)
  note res = resolve_generated [OF ok [folded c_def] Inr]
  have T: "fst ` set ts = T refs" using res(2) by (simp add: T_def rotated_def)
  have gen: "\<forall>r \<in> T refs. \<exists>k. catalog_key c r = Some k \<and> ky_kind k = Generated"
    using res(1) unfolding T [symmetric] by fastforce
  have "wp (current (pl_store p)) (\<lambda>cur. wp (io_fold (rotate_key p) ts Map.empty)
      (\<lambda>ups. wp (io_return (build_plan c cur ups)) (\<lambda>fs w' _. files view w' = files view w \<and>
         (\<forall>r \<in> T refs. \<exists>k. catalog_key c r = Some k \<and> ky_kind k = Generated) \<and>
         (\<exists>cur. reads (pl_store p) (files view w) cur \<and> fresh_plan c cur (T refs) fs))
       (\<lambda>_ w' _. files view w' = files view w)) (\<lambda>_ w' _. files view w' = files view w))
    (\<lambda>_ w' _. files view w' = files view w) w out"
  proof (rule wp_mono [OF current_wp [OF laws catalog_ok_parts(1) [OF ok]]], elim conjE)
    fix cur w1 and out
    assume w1: "files view w1 = files view w" and cur: "reads (pl_store p) (files view w) cur"
    note build = fresh_plan_build [OF ok reads_all_read [OF laws cur], folded c_def]
    show "wp (io_fold (rotate_key p) ts Map.empty)
      (\<lambda>ups. wp (io_return (build_plan c cur ups)) (\<lambda>fs w' _. files view w' = files view w \<and>
         (\<forall>r \<in> T refs. \<exists>k. catalog_key c r = Some k \<and> ky_kind k = Generated) \<and>
         (\<exists>cur. reads (pl_store p) (files view w) cur \<and> fresh_plan c cur (T refs) fs))
       (\<lambda>_ w' _. files view w' = files view w)) (\<lambda>_ w' _. files view w' = files view w) w1 out"
      by (rule wp_mono [OF rotate_loop [OF draws res(1)]]) (use w1 cur build gen T in \<open>auto simp: wp_simps\<close>)
  qed simp
  with Inr show ?thesis by (simp add: rotate_keys_def c_def Let_def io_result_def wp_bind_fun wp_return)
qed

subsection \<open>Properties\<close>

text \<open>
  \<open>Generate\<close> gives every generated key without a value a fresh one of its length from the alphabet,
  and changes no generated or issued key that has a value; literals follow the catalog and every copy
  is rendered from the next value of its source. Planning writes no file.
\<close>

theorem generate_fills_gaps:
  assumes "store_laws (pl_store p) view" and "catalog_ok (st_cat (pl_store p))" and "draw_laws view (pl_draw p)"
    and "generate p (w, out) = (Inr fs, w', out')"
  shows "files view w' = files view w \<and> (\<exists>cur. reads (pl_store p) (files view w) cur \<and>
     fresh_plan (st_cat (pl_store p)) cur (gaps cur (key_pairs (st_cat (pl_store p)))) fs)"
  using wp_ok [OF generate_wp [OF assms(1,2,3)] assms(4)] .

text \<open>
  \<open>Rotate\<close> gives a fresh value to each key it is asked for (every generated key when none is named),
  all of them generated ones, keeps every other source, and renders every copy of a rotated key from
  the new value in the same plan.
\<close>

theorem rotate_rewrites_copies:
  assumes "store_laws (pl_store p) view" and "catalog_ok (st_cat (pl_store p))" and "draw_laws view (pl_draw p)"
    and "rotate_keys p refs (w, out) = (Inr fs, w', out')"
  shows "files view w' = files view w \<and>
     (\<forall>r \<in> rotated (st_cat (pl_store p)) refs. \<exists>k. catalog_key (st_cat (pl_store p)) r = Some k \<and> ky_kind k = Generated) \<and>
     (\<exists>cur. reads (pl_store p) (files view w) cur \<and>
        fresh_plan (st_cat (pl_store p)) cur (rotated (st_cat (pl_store p)) refs) fs)"
  using wp_ok [OF rotate_wp [OF assms(1,2,3)] assms(4)] .

definition sample_planner :: "(path \<Rightarrow> string option) planner" where
  "sample_planner = \<lparr>pl_store = sample_store, pl_vault = None, pl_draw = (\<lambda>w. (Inr 7, w))\<rparr>"

lemma sample_planner_laws:
  "store_laws (pl_store sample_planner) (\<lambda>w. w)" "catalog_ok (st_cat (pl_store sample_planner))"
  "draw_laws (\<lambda>w. w) (pl_draw sample_planner)"
  using sample_store_laws sample_catalog_ok
  by (simp_all add: sample_planner_def draw_laws_def quiet_def sample_store_def toy_store_def)

definition pw_ref :: key_ref where
  "pw_ref = \<lparr>kr_secret = sample_ref, kr_key = ''pw''\<rparr>"

lemma run_ok: "is_ok (fst (m s)) \<Longrightarrow> m s = (Inr (projr (fst (m s))), fst (snd (m s)), snd (snd (m s)))"
  by (cases "m s"; cases "fst (m s)") auto

theorem generate_fills_gaps_witness:
  "planned (projr (fst (generate sample_planner (sample_world, [] :: unit list)))) pw_ref = Some (replicate 40 CHR ''H'') \<and>
   files (\<lambda>w. w) (fst (snd (generate sample_planner (sample_world, [] :: unit list)))) = Map.empty"
proof -
  have ok: "is_ok (fst (generate sample_planner (sample_world, [] :: unit list)))"
    and v: "planned (projr (fst (generate sample_planner (sample_world, [] :: unit list)))) pw_ref = Some (replicate 40 CHR ''H'')"
    by code_simp+
  from generate_fills_gaps [OF sample_planner_laws run_ok [of "generate sample_planner", OF ok]] v show ?thesis by (simp add: sample_world_def)
qed

theorem rotate_rewrites_copies_witness:
  "planned (projr (fst (rotate_keys sample_planner [pw_ref] (sample_world, [] :: unit list))))
     \<lparr>kr_secret = sample_ref, kr_key = ''url''\<rparr> = Some (''pg://u:'' @ replicate 40 CHR ''H'' @ ''@h'') \<and>
   map_option ky_kind (catalog_key sample_catalog pw_ref) = Some Generated"
proof -
  have ok: "is_ok (fst (rotate_keys sample_planner [pw_ref] (sample_world, [] :: unit list)))"
    and v: "planned (projr (fst (rotate_keys sample_planner [pw_ref] (sample_world, [] :: unit list))))
     \<lparr>kr_secret = sample_ref, kr_key = ''url''\<rparr> = Some (''pg://u:'' @ replicate 40 CHR ''H'' @ ''@h'')"
    by code_simp+
  have "st_cat (pl_store sample_planner) = sample_catalog"
    by (simp add: sample_planner_def sample_store_def toy_store_def)
  with rotate_rewrites_copies [OF sample_planner_laws run_ok [of "rotate_keys sample_planner [pw_ref]", OF ok]] v show ?thesis by (auto simp: rotated_def)
qed

end
