(* ===== verification/SecretFresh.thy ===== *)
theory SecretFresh
  imports SecretLive SecretCmds
begin

section \<open>secrets/fresh.go: the Secrets of a rehearsal\<close>

text \<open>
  \<open>Fresh\<close> makes the manifests of a rehearsal in memory: generated keys new, literals as written, issued
  keys from their rehearsal item, then the copies. No file is read.
\<close>

datatype fresh_error =
    FreshRandom string
  | NoRehearsalValue key_ref
  | NoVaultGiven key_ref
  | FreshVault key_ref vault_error
  | SourceNotMade key_ref key_ref
  | FreshRender string

type_synonym made = "ref \<rightharpoonup> vals"

definition fresh_key ::
  "('w, string, nat) call \<Rightarrow> (key \<Rightarrow> ('w, vault_error, string) call) option \<Rightarrow> key secret \<Rightarrow> string \<Rightarrow> vals \<Rightarrow>
     ('w, 'o, fresh_error, vals) io" where
  "fresh_key draw vo s n v =
     (let k = the (secret_key s n) in
      case ky_kind k of
        Generated \<Rightarrow> io_bind (io_map_err FreshRandom (io_call (random draw (ky_length k)))) (\<lambda>b. io_return (map_put n b v))
      | Literal \<Rightarrow> io_return (map_put n (ky_value k) v)
      | Issued \<Rightarrow>
          if \<not> in_rehearsal k then io_fail (NoRehearsalValue (kref s n))
          else (case vo of None \<Rightarrow> io_fail (NoVaultGiven (kref s n))
            | Some issued \<Rightarrow>
                io_bind (io_map_err (FreshVault (kref s n)) (io_call (issued (for_rehearsal k))))
                  (\<lambda>b. io_return (map_put n b v)))
      | _ \<Rightarrow> io_return v)"

definition fresh_secret ::
  "('w, string, nat) call \<Rightarrow> (key \<Rightarrow> ('w, vault_error, string) call) option \<Rightarrow> key secret \<Rightarrow> made \<Rightarrow>
     ('w, 'o, fresh_error, made) io" where
  "fresh_secret draw vo s vals =
     io_bind (io_fold (fresh_key draw vo s) (key_names s) []) (\<lambda>v. io_return (vals(sc_ref s \<mapsto> v)))"

definition made_value :: "made \<Rightarrow> key_ref \<Rightarrow> string option" where
  "made_value vals r = Option.bind (vals (kr_secret r)) (\<lambda>v. map_of v (kr_key r))"

definition secret_pairs :: "key secret list \<Rightarrow> (key secret \<times> string) list" where
  "secret_pairs ss = concat (map (\<lambda>s. map (Pair s) (key_names s)) ss)"

definition fresh_copy :: "key secret \<times> string \<Rightarrow> made \<Rightarrow> ('w, 'o, fresh_error, made) io" where
  "fresh_copy = (\<lambda>(s, n) vals. let k = the (secret_key s n) in
     if ky_kind k \<noteq> Copy then io_return vals
     else (case made_value vals (ky_source k) of
         None \<Rightarrow> io_fail (SourceNotMade (kref s n) (ky_source k))
       | Some sv \<Rightarrow> io_return (vals(sc_ref s \<mapsto> map_put n (render_copy k sv) (the (vals (sc_ref s)))))))"

definition fresh_manifests :: "yaml \<Rightarrow> key secret list \<Rightarrow> made \<Rightarrow> fresh_error + (ref \<times> string) list" where
  "fresh_manifests y ss vals =
     map_result (\<lambda>s. case render y s (the (vals (sc_ref s))) of Inl e \<Rightarrow> Inl (FreshRender e) | Inr m \<Rightarrow> Inr (sc_ref s, m)) ss"

definition fresh_all ::
  "yaml \<Rightarrow> ('w, string, nat) call \<Rightarrow> (key \<Rightarrow> ('w, vault_error, string) call) option \<Rightarrow> key secret list \<Rightarrow>
     ('w, 'o, fresh_error, (ref \<times> string) list) io" where
  "fresh_all y draw vo ss =
     io_bind (io_fold (fresh_secret draw vo) ss Map.empty) (\<lambda>vals.
     io_bind (io_fold fresh_copy (secret_pairs ss) vals) (\<lambda>vals.
       io_result (fresh_manifests y ss vals)))"

definition has_keys :: "yaml \<Rightarrow> string \<Rightarrow> 'k secret \<Rightarrow> parse_error + bool" where
  "has_keys y live s = (case parse y live of Inl e \<Rightarrow> Inl e
     | Inr (_, v) \<Rightarrow> Inr (list_all (\<lambda>n. map_of v n \<noteq> None) (key_names s)))"

subsection \<open>What the first loop makes\<close>

text \<open>The value of a key that is not a copy.\<close>

definition made_new :: "(key \<Rightarrow> ('w, vault_error, string) call) option \<Rightarrow> key \<Rightarrow> string \<Rightarrow> bool" where
  "made_new vo k x \<longleftrightarrow> (case ky_kind k of
     Generated \<Rightarrow> fresh k x
   | Literal \<Rightarrow> x = ky_value k
   | Issued \<Rightarrow> in_rehearsal k \<and> x \<noteq> [] \<and>
       (\<exists>issued u u'. vo = Some issued \<and> issued (for_rehearsal k) u = (Inr x, u'))
   | _ \<Rightarrow> False)"

definition made_kind :: "key \<Rightarrow> bool" where
  "made_kind k \<longleftrightarrow> ky_kind k \<in> {Generated, Literal, Issued}"

definition holds_new :: "(key \<Rightarrow> ('w, vault_error, string) call) option \<Rightarrow> key secret \<Rightarrow> string set \<Rightarrow> vals \<Rightarrow> bool" where
  "holds_new vo s N v \<longleftrightarrow> (\<forall>n. case map_of v n of
     None \<Rightarrow> n \<notin> N \<or> \<not> made_kind (the (secret_key s n))
   | Some x \<Rightarrow> n \<in> N \<and> made_new vo (the (secret_key s n)) x)"

lemma made_new_kind: "made_new vo k x \<Longrightarrow> made_kind k"
  by (simp add: made_new_def made_kind_def split: key_kind.splits)

lemma holds_new_put:
  assumes "holds_new vo s N v" and "made_new vo (the (secret_key s n)) x"
  shows "holds_new vo s (insert n N) (map_put n x v)"
  using assms by (auto simp: holds_new_def split: option.splits)

lemma holds_new_skip:
  assumes "holds_new vo s N v" and "\<not> made_kind (the (secret_key s n))"
  shows "holds_new vo s (insert n N) v"
  using assms by (auto simp: holds_new_def split: option.splits)

text \<open>A vault's value is never empty (the contract), so no rehearsal key is.\<close>

context vault
begin

lemma fresh_key_wp:
  assumes draws: "draw_laws (\<lambda>_. ()) draw" and v: "holds_new (Some issued) s N v"
  shows "wp (fresh_key draw (Some issued) s n v) (\<lambda>v' _ _. holds_new (Some issued) s (insert n N) v') (\<lambda>_ _ _. True) w out"
proof -
  have gen: "made_new (Some issued) k x" if "random draw (ky_length k) u = (Inr x, u')" "ky_kind k = Generated" for k x u u'
    using random_ok(2) [OF draws that(1)] that(2) by (simp add: made_new_def fresh_def)
  have iss: "made_new (Some issued) k x" if "issued (for_rehearsal k) u = (Inr x, u')" "ky_kind k = Issued" "in_rehearsal k" for k x u u'
    using issued_value [OF that(1)] that by (auto simp: made_new_def)
  show ?thesis
    using v gen iss
    by (cases "ky_kind (the (secret_key s n))")
      (auto simp: fresh_key_def Let_def wp_simps made_new_def made_kind_def intro: holds_new_put holds_new_skip)
qed

lemma fresh_secret_wp:
  assumes draws: "draw_laws (\<lambda>_. ()) draw"
  shows "wp (fresh_secret draw (Some issued) s vals)
     (\<lambda>vals' _ _. \<exists>v. vals' = vals(sc_ref s \<mapsto> v) \<and> holds_new (Some issued) s (set (key_names s)) v) (\<lambda>_ _ _. True) w out"
proof -
  have "wp (io_fold (fresh_key draw (Some issued) s) (key_names s) [])
      (\<lambda>v _ _. holds_new (Some issued) s (set (key_names s)) v) (\<lambda>_ _ _. True) w out"
  proof (rule wp_fold_prefix [where I = "\<lambda>pre v _ _. holds_new (Some issued) s (set pre) v"])
    show "holds_new (Some issued) s (set []) []" by (simp add: holds_new_def)
  next
    fix pre n post v w1 and out
    assume "holds_new (Some issued) s (set pre) v"
    from fresh_key_wp [OF draws this, of n w1 out]
    show "wp (fresh_key draw (Some issued) s n v) (\<lambda>v _ _. holds_new (Some issued) s (set (pre @ [n])) v) (\<lambda>_ _ _. True) w1 out"
      by simp
  qed
  then show ?thesis unfolding fresh_secret_def wp_bind by (rule wp_mono) (auto simp: wp_simps)
qed

lemma fresh_loop_wp:
  assumes draws: "draw_laws (\<lambda>_. ()) draw" and dist: "distinct (map sc_ref ss)"
  shows "wp (io_fold (fresh_secret draw (Some issued)) ss Map.empty)
     (\<lambda>vals _ _. \<forall>s \<in> set ss. \<exists>v. vals (sc_ref s) = Some v \<and> holds_new (Some issued) s (set (key_names s)) v)
     (\<lambda>_ _ _. True) w out"
proof (rule wp_fold_prefix [where I = "\<lambda>pre vals _ _. \<forall>s \<in> set pre. \<exists>v. vals (sc_ref s) = Some v \<and>
      holds_new (Some issued) s (set (key_names s)) v"])
  fix pre s post vals w1 and out
  assume ss: "ss = pre @ s # post" and inv: "\<forall>s \<in> set pre. \<exists>v. vals (sc_ref s) = Some v \<and> holds_new (Some issued) s (set (key_names s)) v"
  have "sc_ref s \<notin> sc_ref ` set pre" using dist by (simp add: ss)
  then have other: "\<forall>t \<in> set pre. sc_ref t \<noteq> sc_ref s" by (auto simp: image_iff)
  show "wp (fresh_secret draw (Some issued) s vals)
     (\<lambda>vals _ _. \<forall>s \<in> set (pre @ [s]). \<exists>v. vals (sc_ref s) = Some v \<and> holds_new (Some issued) s (set (key_names s)) v)
     (\<lambda>_ _ _. True) w1 out"
    by (rule wp_mono [OF fresh_secret_wp [OF draws]]) (use inv other in auto)
qed simp

end

subsection \<open>The copies\<close>

text \<open>After the second loop: each copy is rendered from its source, everything else is as it was.\<close>

definition copied :: "(key secret \<times> string) set \<Rightarrow> made \<Rightarrow> made \<Rightarrow> bool" where
  "copied P vals0 vals \<longleftrightarrow> dom vals = dom vals0 \<and>
     (\<forall>r. (\<forall>s n. (s, n) \<in> P \<longrightarrow> r = kref s n \<longrightarrow> ky_kind (the (secret_key s n)) \<noteq> Copy) \<longrightarrow> made_value vals r = made_value vals0 r) \<and>
     (\<forall>(s, n) \<in> P. ky_kind (the (secret_key s n)) = Copy \<longrightarrow>
        (\<exists>sv. made_value vals0 (ky_source (the (secret_key s n))) = Some sv \<and>
           made_value vals (kref s n) = Some (render_copy (the (secret_key s n)) sv)))"

definition source_missing :: "(key secret \<times> string) set \<Rightarrow> made \<Rightarrow> bool" where
  "source_missing P vals0 \<longleftrightarrow> (\<exists>(s, n) \<in> P. ky_kind (the (secret_key s n)) = Copy \<and>
     made_value vals0 (ky_source (the (secret_key s n))) = None)"

lemma fresh_copies_wp:
  assumes dist: "distinct (map (\<lambda>(s, n). kref s n) ps)" and src: "from_sources ps"
    and dom: "\<forall>(s, n) \<in> set ps. vals0 (sc_ref s) \<noteq> None"
  shows "wp (io_fold fresh_copy ps vals0) (\<lambda>vals _ _. copied (set ps) vals0 vals) (\<lambda>e _ _. source_missing (set ps) vals0) w out"
proof (rule wp_fold_prefix [where I = "\<lambda>pre vals _ _. copied (set pre) vals0 vals"])
  fix pre x post vals w1 and out
  assume ps: "ps = pre @ x # post" and inv: "copied (set pre) vals0 vals"
  obtain s n where x: "x = (s, n)" by (cases x)
  let ?k = "the (secret_key s n)"
  show "wp (fresh_copy x vals) (\<lambda>vals _ _. copied (set (pre @ [x])) vals0 vals) (\<lambda>_ _ _. source_missing (set ps) vals0) w1 out"
  proof (cases "ky_kind ?k = Copy")
    case False
    with inv show ?thesis by (auto simp: fresh_copy_def x wp_simps copied_def)
  next
    case True
    have fresh: "kref s n \<notin> (\<lambda>(s, n). kref s n) ` set pre" using dist by (simp add: ps x)
    have "ky_kind (the (secret_key t m)) \<noteq> Copy" if "(t, m) \<in> set pre" "ky_source ?k = kref t m" for t m
      using src that True by (fastforce simp: from_sources_def ps x copyable_iff)
    then have same: "made_value vals (ky_source ?k) = made_value vals0 (ky_source ?k)"
      using inv by (auto simp: copied_def)
    from dom ps x obtain v0 where "vals0 (sc_ref s) = Some v0" by auto
    with inv obtain v where v: "vals (sc_ref s) = Some v" unfolding copied_def by blast
    have step: "copied (set (pre @ [x])) vals0 (vals(sc_ref s \<mapsto> map_put n (render_copy ?k sv) v))"
      if sv: "made_value vals0 (ky_source ?k) = Some sv" for sv
    proof -
      have val: "made_value (vals(sc_ref s \<mapsto> map_put n (render_copy ?k sv) v)) r =
          (if r = kref s n then Some (render_copy ?k sv) else made_value vals r)" for r
        by (cases r) (auto simp: made_value_def v)
      have "dom (vals(sc_ref s \<mapsto> map_put n (render_copy ?k sv) v)) = dom vals" using v by auto
      moreover have "kref t m \<noteq> kref s n" if "(t, m) \<in> set pre" for t m
        using fresh that by (auto simp: image_iff)
      ultimately show ?thesis using inv sv True unfolding copied_def val by (auto simp: x)
    qed
    have missing: "source_missing (set ps) vals0" if "made_value vals0 (ky_source ?k) = None"
      unfolding source_missing_def using that True by (auto simp: ps x intro!: bexI [of _ "(s, n)"])
    show ?thesis
      unfolding fresh_copy_def x prod.case Let_def
      using step True same v missing by (auto simp: wp_simps x split: option.split)
  qed
qed (simp add: copied_def)

subsection \<open>Properties\<close>

definition rehearsal_value :: "(key \<Rightarrow> ('w, vault_error, string) call) \<Rightarrow> made \<Rightarrow> key \<Rightarrow> string \<Rightarrow> bool" where
  "rehearsal_value issued vals k x \<longleftrightarrow> (case ky_kind k of
     Copy \<Rightarrow> \<exists>sv. made_value vals (ky_source k) = Some sv \<and> x = render_copy k sv
   | Issued \<Rightarrow> made_new (Some issued) k x \<and> ky_item (for_rehearsal k) \<noteq> ky_item k
   | _ \<Rightarrow> made_new (Some issued) k x)"

definition rehearsal_manifest ::
  "yaml \<Rightarrow> (key \<Rightarrow> ('w, vault_error, string) call) \<Rightarrow> made \<Rightarrow> key secret \<Rightarrow> ref \<times> string \<Rightarrow> bool" where
  "rehearsal_manifest y issued vals s = (\<lambda>(r, m). r = sc_ref s \<and> (\<exists>v. vals r = Some v \<and> render y s v = Inr m \<and>
     exact_keys s v \<and> (\<forall>n k x. secret_key s n = Some k \<longrightarrow> map_of v n = Some x \<longrightarrow> rehearsal_value issued vals k x)))"

lemma secret_pairs_iff: "(s, n) \<in> set (secret_pairs ss) \<longleftrightarrow> s \<in> set ss \<and> n \<in> set (key_names s)"
  by (auto simp: secret_pairs_def)

lemma from_sources_subset: "set ps \<subseteq> set qs \<Longrightarrow> from_sources qs \<Longrightarrow> from_sources ps"
  unfolding from_sources_def by blast

lemma fresh_secret_exact:
  assumes ok: "catalog_ok c" and ss: "set ss \<subseteq> set (ct_secrets c)" and s: "s \<in> set ss"
    and v0: "\<And>s. s \<in> set ss \<Longrightarrow> \<exists>v. vals0 (sc_ref s) = Some v \<and> holds_new (Some issued) s (set (key_names s)) v"
    and cp: "copied (set (secret_pairs ss)) vals0 vals"
  shows "\<exists>v. vals (sc_ref s) = Some v \<and> exact_keys s v \<and>
     (\<forall>n k x. secret_key s n = Some k \<longrightarrow> map_of v n = Some x \<longrightarrow> rehearsal_value issued vals k x)"
proof -
  from v0 [OF s] obtain u where u: "vals0 (sc_ref s) = Some u" "holds_new (Some issued) s (set (key_names s)) u" by blast
  with cp obtain v where v: "vals (sc_ref s) = Some v" unfolding copied_def by blast
  have mv: "made_value vals (kref s n) = map_of v n" "made_value vals0 (kref s n) = map_of u n" for n
    by (simp_all add: made_value_def v u)
  have sc: "s \<in> set (ct_secrets c)" using s ss by blast
  have plain: "map_of v n = map_of u n" if nc: "\<not> (n \<in> set (key_names s) \<and> ky_kind (the (secret_key s n)) = Copy)" for n
  proof -
    have "ky_kind (the (secret_key t m)) \<noteq> Copy" if tm: "(t, m) \<in> set (secret_pairs ss)" "kref s n = kref t m" for t m
    proof -
      have "t = s" using catalog_secret_in [OF catalog_ok_parts(1) [OF ok]] tm ss sc
        by (metis key_ref.ext_inject option.inject secret_pairs_iff subsetD)
      with tm nc show ?thesis by (auto simp: secret_pairs_iff)
    qed
    then show ?thesis using cp unfolding copied_def mv [symmetric] by blast
  qed
  have copy: "\<exists>sv. made_value vals0 (ky_source k) = Some sv \<and> map_of v n = Some (render_copy k sv) \<and>
      made_value vals (ky_source k) = Some sv"
    if k: "secret_key s n = Some k" "ky_kind k = Copy" for n k
  proof -
    have "(s, n) \<in> set (secret_pairs ss)" using s k by (simp add: secret_pairs_iff key_names_iff)
    then obtain sv where sv: "made_value vals0 (ky_source k) = Some sv" "map_of v n = Some (render_copy k sv)"
      using cp k unfolding copied_def mv [symmetric] by fastforce
    have ck: "catalog_key c (kref s n) = Some k" unfolding catalog_key_iff [OF ok] using sc k by blast
    from copy_source [OF ok this k(2)] obtain sk where sk: "catalog_key c (ky_source k) = Some sk" "copyable (ky_kind sk)" by blast
    have "ky_kind (the (secret_key t m)) \<noteq> Copy" if "(t, m) \<in> set (secret_pairs ss)" "ky_source k = kref t m" for t m
    proof -
      have "(t, m) \<in> set (key_pairs c)" using that ss by (auto simp: secret_pairs_iff key_pairs_iff)
      from catalog_key_of_pair [OF ok this] that sk show ?thesis by (auto simp: copyable_iff)
    qed
    then have "made_value vals (ky_source k) = made_value vals0 (ky_source k)" using cp unfolding copied_def by blast
    with sv show ?thesis by simp
  qed
  have kinds: "made_kind k \<or> ky_kind k = Copy" "ky_kind k = Issued \<longrightarrow> ky_item (for_rehearsal k) \<noteq> ky_item k"
    if "secret_key s n = Some k" for n k
  proof -
    from that have "(n, k) \<in> set (sc_keys s)" by (simp add: secret_key_def map_of_SomeD)
    with catalog_ok_parts(3) [OF ok sc] have "key_ok k" by (auto simp: secret_ok_def)
    then show "made_kind k \<or> ky_kind k = Copy" "ky_kind k = Issued \<longrightarrow> ky_item (for_rehearsal k) \<noteq> ky_item k"
      by (auto simp: key_ok_def made_kind_def for_rehearsal_def split: key_kind.splits)
  qed
  have each: "case map_of u n of None \<Rightarrow> n \<notin> set (key_names s) \<or> \<not> made_kind (the (secret_key s n))
      | Some x \<Rightarrow> n \<in> set (key_names s) \<and> made_new (Some issued) (the (secret_key s n)) x" for n
    using u(2) by (simp add: holds_new_def)
  have some: "n \<in> set (key_names s) \<and> made_new (Some issued) (the (secret_key s n)) x" if "map_of u n = Some x" for n x
    using each [of n] unfolding that by simp
  have none: "n \<notin> set (key_names s) \<or> \<not> made_kind (the (secret_key s n))" if "map_of u n = None" for n
    using each [of n] unfolding that by simp
  have new: "map_of u n = None \<longleftrightarrow> \<not> (n \<in> set (key_names s) \<and> made_kind (the (secret_key s n)))" for n
    using none [of n] some [of n] made_new_kind by (metis not_None_eq)
  have "exact_keys s v"
    unfolding exact_keys_def
  proof
    fix n
    show "map_of v n \<noteq> None \<longleftrightarrow> secret_key s n \<noteq> None"
    proof (cases "secret_key s n")
      case None
      then show ?thesis using plain [of n] new [of n] by (simp add: key_names_iff)
    next
      case (Some k)
      then show ?thesis
        using kinds(1) [OF Some] copy [OF Some] plain [of n] new [of n]
        by (cases "ky_kind k = Copy") (auto simp: key_names_iff)
    qed
  qed
  moreover have "rehearsal_value issued vals k x" if k: "secret_key s n = Some k" and x: "map_of v n = Some x" for n k x
  proof (cases "ky_kind k = Copy")
    case True
    from copy [OF k True] x True show ?thesis by (auto simp: rehearsal_value_def)
  next
    case False
    then have "made_new (Some issued) k x" using plain [of n] x some [of n x] k by simp
    with False kinds(2) [OF k] show ?thesis by (cases "ky_kind k") (simp_all add: rehearsal_value_def)
  qed
  ultimately show ?thesis using v by blast
qed

context vault
begin

lemma fresh_all_wp:
  assumes ok: "catalog_ok c" and ss: "set ss \<subseteq> set (ct_secrets c)" "distinct ss" and draws: "draw_laws (\<lambda>_. ()) draw"
  shows "wp (fresh_all y draw (Some issued) ss) (\<lambda>ms _ _. \<exists>vals. list_all2 (rehearsal_manifest y issued vals) ss ms) (\<lambda>_ _ _. True) w out"
proof -
  have dist: "distinct (map sc_ref ss)"
    using catalog_ok_parts(1) [OF ok] ss by (auto simp: distinct_map intro: inj_on_subset)
  have names: "\<forall>s \<in> set ss. distinct (key_names s)" using catalog_ok_parts(2) [OF ok] ss by blast
  have src: "from_sources (secret_pairs ss)"
  proof (rule from_sources_subset [OF _ from_sources_pairs [OF ok]])
    show "set (secret_pairs ss) \<subseteq> set (key_pairs c)" using ss(1) by (auto simp: secret_pairs_iff key_pairs_iff)
  qed
  have pd: "distinct (map (\<lambda>(s, n). kref s n) (secret_pairs ss))"
    unfolding secret_pairs_def by (rule distinct_pairs [OF dist names])
  show ?thesis
    unfolding fresh_all_def wp_bind
  proof (rule wp_mono [OF fresh_loop_wp [OF draws dist]])
    fix vals0 w1 and out
    assume v0: "\<forall>s \<in> set ss. \<exists>v. vals0 (sc_ref s) = Some v \<and> holds_new (Some issued) s (set (key_names s)) v"
    then have dom: "\<forall>(s, n) \<in> set (secret_pairs ss). vals0 (sc_ref s) \<noteq> None" by (auto simp: secret_pairs_iff)
    show "wp (io_fold fresh_copy (secret_pairs ss) vals0) (\<lambda>vals. wp (io_result (fresh_manifests y ss vals))
        (\<lambda>ms _ _. \<exists>vals. list_all2 (rehearsal_manifest y issued vals) ss ms) (\<lambda>_ _ _. True)) (\<lambda>_ _ _. True) w1 out"
    proof (rule wp_mono [OF fresh_copies_wp [OF pd src dom]])
      fix vals w2 and out
      assume cp: "copied (set (secret_pairs ss)) vals0 vals"
      note exact = fresh_secret_exact [OF ok ss(1) _ _ cp, where issued = issued]
      have "list_all2 (rehearsal_manifest y issued vals) ss ms" if "fresh_manifests y ss vals = Inr ms" for ms
        using that unfolding fresh_manifests_def map_result_Inr
      proof (rule list_all2_mono_in)
        fix s rm assume s: "s \<in> set ss"
          and rm: "(case render y s (the (vals (sc_ref s))) of Inl e \<Rightarrow> Inl (FreshRender e) | Inr m \<Rightarrow> Inr (sc_ref s, m)) = Inr rm"
        then show "rehearsal_manifest y issued vals s rm"
          using exact [OF s] v0 by (fastforce simp: rehearsal_manifest_def split: sum.splits)
      qed
      then show "wp (io_result (fresh_manifests y ss vals))
        (\<lambda>ms _ _. \<exists>vals. list_all2 (rehearsal_manifest y issued vals) ss ms) (\<lambda>_ _ _. True) w2 out"
        by (auto simp: io_result_def wp_simps split: sum.split)
    qed simp
  qed simp
qed

end


definition echo_yaml :: yaml where
  "echo_yaml = \<lparr>ya_encode = (\<lambda>m. Inr (concat (map (\<lambda>(k, v). k @ ''='' @ v @ '';'') (mf_data m)))), ya_decode = (\<lambda>_. Inl [])\<rparr>"

definition steady :: "(unit bw, string, nat) call" where
  "steady = (\<lambda>w. (Inr 0, w))"


end
