(* ===== verification/SecretList.thy ===== *)
theory SecretList
  imports SecretCmds
begin

section \<open>secrets/list.go: the state of every key\<close>

text \<open>
  \<open>List\<close> reads every file and says for each key what \<open>keyState\<close> finds: missing, stale, or present. Without a
  vault an issued key is not compared.
\<close>

datatype list_state =
    Present | Missing | StaleCopy | StaleIssued | NotInTheCatalog | WrongShape | NotComparedBW
  | NotInBitwarden | SourceMissing | MissingInBW | MissingNoBW | NotComparedAtt

record list_row =
  lr_secret :: ref
  lr_key :: string
  lr_kind :: "key_kind option"
  lr_state :: list_state

type_synonym all_vals = "ref \<rightharpoonup> vals"

definition source_of :: "all_vals \<Rightarrow> key \<Rightarrow> string option" where
  "source_of vals k = Option.bind (vals (kr_secret (ky_source k))) (\<lambda>v. map_of v (kr_key (ky_source k)))"

text \<open>The comparison of an issued key, given what the vault answered.\<close>

definition issued_state :: "string option \<Rightarrow> vault_error + string \<Rightarrow> vault_error + list_state" where
  "issued_state cur r =
     (let in_bw = (case r of Inl (NotFound _) \<Rightarrow> False | _ \<Rightarrow> True); skipped = (r = Inl Skipped) in
      case r of
        Inl e \<Rightarrow>
          if in_bw \<and> \<not> skipped then Inl e
          else if cur = None \<and> in_bw then Inr MissingInBW
          else if cur = None then Inr MissingNoBW
          else if \<not> in_bw then Inr NotInBitwarden
          else Inr NotComparedAtt
      | Inr bw \<Rightarrow>
          if cur = None then Inr MissingInBW
          else if cur \<noteq> Some bw then Inr StaleIssued else Inr Present)"

definition local_state :: "key \<Rightarrow> string option \<Rightarrow> all_vals \<Rightarrow> list_state" where
  "local_state k cur vals =
     (case cur of None \<Rightarrow> Missing
      | Some x \<Rightarrow> (case ky_kind k of
          Copy \<Rightarrow> (case source_of vals k of None \<Rightarrow> SourceMissing
            | Some sv \<Rightarrow> if render_copy k sv \<noteq> x then StaleCopy else Present)
        | Literal \<Rightarrow> if ky_value k \<noteq> x then StaleCopy else Present
        | Issued \<Rightarrow> NotComparedBW
        | _ \<Rightarrow> Present))"

definition key_state ::
  "(key \<Rightarrow> ('w, vault_error, string) call) option \<Rightarrow> key \<Rightarrow> string option \<Rightarrow> all_vals \<Rightarrow>
     ('w keyed, 'o, vault_error, list_state) io" where
  "key_state vo k cur vals =
     (case (ky_kind k, vo) of
        (Issued, Some issued) \<Rightarrow> (\<lambda>(w, out).
          case on_world (issued k) w of (r, w') \<Rightarrow> (issued_state cur r, w', out))
      | _ \<Rightarrow> io_return (local_state k cur vals))"

datatype list_error = ListStore store_error | ListVault key_ref vault_error

definition shape_row :: "key secret \<Rightarrow> list_row" where
  "shape_row s = \<lparr>lr_secret = sc_ref s, lr_key = ''(type, labels)'', lr_kind = None, lr_state = WrongShape\<rparr>"

definition list_read :: "'w store \<Rightarrow> key secret \<Rightarrow> all_vals \<times> list_row list \<Rightarrow> ('w keyed, 'o, list_error, all_vals \<times> list_row list) io" where
  "list_read st s = (\<lambda>(vals, rows).
     io_bind (io_map_err ListStore (store_read st s)) (\<lambda>(v, _, mismatch).
       io_return (vals(sc_ref s \<mapsto> v), rows @ (if mismatch then [shape_row s] else []))))"

definition key_row ::
  "(key \<Rightarrow> ('w, vault_error, string) call) option \<Rightarrow> all_vals \<Rightarrow> key secret \<Rightarrow> string \<Rightarrow> list_row list \<Rightarrow>
     ('w keyed, 'o, list_error, list_row list) io" where
  "key_row vo vals s n rows =
     (let k = the (secret_key s n) in
      io_bind (io_map_err (ListVault (kref s n)) (key_state vo k (map_of (the (vals (sc_ref s))) n) vals)) (\<lambda>st.
        io_return (rows @ [\<lparr>lr_secret = sc_ref s, lr_key = n, lr_kind = Some (ky_kind k), lr_state = st\<rparr>])))"

definition extra_row :: "key secret \<Rightarrow> string \<Rightarrow> list_row" where
  "extra_row s n = \<lparr>lr_secret = sc_ref s, lr_key = n, lr_kind = None, lr_state = NotInTheCatalog\<rparr>"

definition list_secret ::
  "(key \<Rightarrow> ('w, vault_error, string) call) option \<Rightarrow> all_vals \<Rightarrow> key secret \<Rightarrow> list_row list \<Rightarrow>
     ('w keyed, 'o, list_error, list_row list) io" where
  "list_secret vo vals s rows =
     io_bind (io_fold (key_row vo vals s) (key_names s) rows) (\<lambda>rows.
       io_return (rows @ map (extra_row s) (extra (the (vals (sc_ref s))) s)))"

definition secrets_list ::
  "'w store \<Rightarrow> (key \<Rightarrow> ('w, vault_error, string) call) option \<Rightarrow> ('w keyed, 'o, list_error, list_row list) io" where
  "secrets_list st vo =
     io_bind (io_fold (list_read st) (ct_secrets (st_cat st)) (Map.empty, [])) (\<lambda>(vals, rows).
       io_fold (list_secret vo vals) (ct_secrets (st_cat st)) rows)"

subsection \<open>Without a vault the rows are a function of the files\<close>

definition local_row :: "all_vals \<Rightarrow> key secret \<Rightarrow> string \<Rightarrow> list_row" where
  "local_row vals s n = \<lparr>lr_secret = sc_ref s, lr_key = n, lr_kind = Some (ky_kind (the (secret_key s n))),
     lr_state = local_state (the (secret_key s n)) (map_of (the (vals (sc_ref s))) n) vals\<rparr>"

definition local_rows :: "all_vals \<Rightarrow> key secret \<Rightarrow> list_row list" where
  "local_rows vals s = map (local_row vals s) (key_names s) @ map (extra_row s) (extra (the (vals (sc_ref s))) s)"

lemma key_row_local: "key_row None vals s n rows = io_return (rows @ [local_row vals s n])"
  by (auto simp: key_row_def key_state_def Let_def local_row_def io_defs split: key_kind.split)

lemma fold_list_rows: "(\<And>x rows. f x rows = io_return (rows @ g x)) \<Longrightarrow> io_fold f xs rows = io_return (rows @ concat (map g xs))"
  by (induction xs arbitrary: rows) (simp_all add: io_bind_def io_return_def)

lemma key_rows_local:
  "io_fold (key_row None vals s) ns rows = io_return (rows @ map (local_row vals s) ns)"
  by (simp add: fold_list_rows [where g = "\<lambda>n. [local_row vals s n]"] key_row_local)

lemma list_secret_local: "list_secret None vals s rows = io_return (rows @ local_rows vals s)"
  by (simp add: list_secret_def key_rows_local local_rows_def io_bind_def io_return_def)

definition state_vals :: "fstate \<Rightarrow> all_vals" where
  "state_vals cur r = map_option fl_values (cur r)"

definition shape_rows :: "fstate \<Rightarrow> key secret list \<Rightarrow> list_row list" where
  "shape_rows cur ss = concat (map (\<lambda>s. if fl_mismatch (the (cur (sc_ref s))) then [shape_row s] else []) ss)"

lemma list_reads_wp:
  assumes laws: "store_laws st view" and dist: "distinct (map sc_ref (ct_secrets (st_cat st)))"
  shows "wp (io_fold (list_read st) (ct_secrets (st_cat st)) (Map.empty, []))
     (\<lambda>(vals, rows) w' _. files view w' = files view w \<and>
        (\<exists>cur. reads st (files view w) cur \<and> vals = state_vals cur \<and> rows = shape_rows cur (ct_secrets (st_cat st))))
     (\<lambda>_ w' _. files view w' = files view w) w (out :: 'o list)"
proof -
  define I where "I = (\<lambda>ss (vals :: all_vals, rows) w' (_ :: 'o list). files view w' = files view w \<and>
     (\<exists>cur. (\<forall>s \<in> set ss. \<exists>f. cur (sc_ref s) = Some f \<and>
        read_outcome st s (files view w (secret_path (st_cat st) s)) (fl_values f, fl_found f, fl_mismatch f)) \<and>
        vals = state_vals cur \<and> rows = shape_rows cur ss))"
  have "wp (io_fold (list_read st) (ct_secrets (st_cat st)) (Map.empty, []))
     (I (ct_secrets (st_cat st))) (\<lambda>_ w' _. files view w' = files view w) w out"
  proof (rule wp_fold_prefix)
    show "I [] (Map.empty, []) w out"
      by (auto simp: I_def state_vals_def shape_rows_def fun_eq_iff intro!: exI [of _ Map.empty])
  next
    fix pre s post vr w1 and out :: "'o list"
    assume ss: "ct_secrets (st_cat st) = pre @ s # post" and inv: "I pre vr w1 out"
    obtain vals rows where vr: "vr = (vals, rows)" by (cases vr)
    from inv vr obtain cur where w1: "files view w1 = files view w" and cur: "\<forall>s \<in> set pre. \<exists>f. cur (sc_ref s) = Some f \<and>
        read_outcome st s (files view w (secret_path (st_cat st) s)) (fl_values f, fl_found f, fl_mismatch f)"
        "vals = state_vals cur" "rows = shape_rows cur pre" by (auto simp: I_def)
    have "sc_ref s \<notin> sc_ref ` set pre" using dist by (simp add: ss)
    then have fresh: "\<forall>t \<in> set pre. sc_ref t \<noteq> sc_ref s" by (auto simp: image_iff)
    have next_inv: "I (pre @ [s]) (vals(sc_ref s \<mapsto> v), rows @ (if mm then [shape_row s] else [])) w2 out"
      if "files view w2 = files view w" "read_outcome st s (files view w (secret_path (st_cat st) s)) (v, fd, mm)"
      for v fd mm w2 and out :: "'o list"
    proof -
      let ?cur = "cur(sc_ref s \<mapsto> \<lparr>fl_values = v, fl_found = fd, fl_mismatch = mm\<rparr>)"
      have "shape_rows ?cur pre = shape_rows cur pre"
        unfolding shape_rows_def by (intro arg_cong [of _ _ concat] map_cong) (use fresh in auto)
      then have "shape_rows ?cur (pre @ [s]) = rows @ (if mm then [shape_row s] else [])"
        by (simp add: shape_rows_def cur(3))
      moreover have "state_vals ?cur = vals(sc_ref s \<mapsto> v)" by (auto simp: state_vals_def cur(2))
      ultimately show ?thesis
        using that fresh cur(1) unfolding I_def prod.case by (intro conjI exI [of _ ?cur]) auto
    qed
    show "wp (list_read st s vr) (I (pre @ [s])) (\<lambda>_ w' _. files view w' = files view w) w1 out"
      unfolding list_read_def vr prod.case wp_bind wp_map_err
    proof (rule wp_mono [OF store_read_wp [OF laws]], elim conjE)
      fix r w2 and out :: "'o list"
      assume w2: "files view w2 = files view w1"
        and r: "read_outcome st s (files view w1 (secret_path (st_cat st) s)) r"
      obtain v fd mm where r3: "r = (v, fd, mm)" by (metis prod_cases3)
      have "I (pre @ [s]) (vals(sc_ref s \<mapsto> v), rows @ (if mm then [shape_row s] else [])) w2 out"
        by (rule next_inv [of _ _ fd]) (use w1 w2 r r3 in simp_all)
      then show "wp (case r of (v, _, mismatch) \<Rightarrow>
          io_return (vals(sc_ref s \<mapsto> v), rows @ (if mismatch then [shape_row s] else [])))
        (I (pre @ [s])) (\<lambda>_ w' _. files view w' = files view w) w2 out"
        by (simp add: r3 wp_return)
    qed (use w1 in simp)
  qed
  then show ?thesis by (rule wp_mono) (auto simp: I_def reads_def)
qed

subsection \<open>A clean list is a plan with nothing to do\<close>

definition clean_state :: "list_state \<Rightarrow> bool" where
  "clean_state s \<longleftrightarrow> s \<in> {Present, NotComparedBW, SourceMissing}"

lemma key_clean:
  assumes ok: "catalog_ok c" and s: "s \<in> set (ct_secrets c)" and cur: "all_read c cur" and k: "secret_key s n = Some k"
  shows "clean_state (local_state k (map_of (the (state_vals cur (sc_ref s))) n) (state_vals cur)) \<longleftrightarrow>
     map_of (state_values cur (sc_ref s)) n = desired c cur Map.empty (kref s n) \<and>
     desired c cur Map.empty (kref s n) \<noteq> None"
proof -
  have ck: "catalog_key c (kref s n) = Some k" unfolding catalog_key_iff [OF ok] using s k by blast
  have val: "the (state_vals cur (sc_ref t)) = state_values cur (sc_ref t)" "state_vals cur (sc_ref t) \<noteq> None"
    if "t \<in> set (ct_secrets c)" for t
    using cur that by (auto simp: all_read_def state_vals_def state_values_def)
  have src: "source_of (state_vals cur) k = source_value cur Map.empty (ky_source k)" if "ky_kind k = Copy"
  proof -
    from copy_source [OF ok ck that] obtain t m where "t \<in> set (ct_secrets c)" "ky_source k = kref t m"
      unfolding catalog_key_iff [OF ok] by blast
    with val [of t] show ?thesis by (auto simp: source_of_def source_value_def)
  qed
  show ?thesis
    using src by (cases "ky_kind k")
      (auto simp: clean_state_def local_state_def desired_def ck val [OF s] source_value_def split: option.splits)
qed

lemma secret_clean:
  assumes ok: "catalog_ok c" and s: "s \<in> set (ct_secrets c)" and cur: "all_read c cur"
  shows "list_all (clean_state \<circ> lr_state) (local_rows (state_vals cur) s) \<and> \<not> fl_mismatch (the (cur (sc_ref s))) \<longleftrightarrow>
     \<not> file_changed (plan_file cur (build_next c cur Map.empty) s) \<and> fp_missing (plan_file cur (build_next c cur Map.empty) s) = []"
    (is "?rows \<longleftrightarrow> ?plan")
proof -
  let ?f = "plan_file cur (build_next c cur Map.empty) s" and ?old = "state_values cur (sc_ref s)"
    and ?d = "\<lambda>n. desired c cur Map.empty (kref s n)"
  have sec: "fp_secret ?f = s" by (simp add: plan_file_def Let_def compare_keys)
  have "updates_ok c Map.empty" by (simp add: updates_ok_def)
  note f = plan_file_ok [OF ok cur this s, unfolded file_plan_ok_def Let_def sec]
  have vals: "the (state_vals cur (sc_ref s)) = ?old"
    using cur s by (auto simp: all_read_def state_vals_def state_values_def)
  have "?rows \<longleftrightarrow> (\<forall>n k. secret_key s n = Some k \<longrightarrow> map_of ?old n = ?d n \<and> ?d n \<noteq> None) \<and>
      extra ?old s = [] \<and> \<not> fl_mismatch (the (cur (sc_ref s)))"
  proof -
    have "list_all (clean_state \<circ> lr_state) (map (local_row (state_vals cur) s) (key_names s)) \<longleftrightarrow>
        (\<forall>n k. secret_key s n = Some k \<longrightarrow> map_of ?old n = ?d n \<and> ?d n \<noteq> None)"
      unfolding list_all_iff set_map ball_simps comp_def
      using key_clean [OF ok s cur] by (auto simp: local_row_def key_names_iff)
    moreover have "list_all (clean_state \<circ> lr_state) (map (extra_row s) (extra ?old s)) \<longleftrightarrow> extra ?old s = []"
      by (cases "extra ?old s") (auto simp: clean_state_def extra_row_def)
    ultimately show ?thesis by (simp add: local_rows_def vals)
  qed
  also have "\<dots> \<longleftrightarrow> (\<forall>n. map_of ?old n = ?d n) \<and> (\<forall>n \<in> set (key_names s). ?d n \<noteq> None) \<and> \<not> fl_mismatch (the (cur (sc_ref s)))"
  proof -
    have none: "?d n = None" if "secret_key s n = None" for n
      using that catalog_secret_in [OF catalog_ok_parts(1) [OF ok] s] by (simp add: desired_def catalog_key_def)
    have "extra ?old s = [] \<longleftrightarrow> (\<forall>n. secret_key s n = None \<longrightarrow> map_of ?old n = ?d n)"
      using extra_iff [of _ ?old s] none by (metis list.set_intros(1) neq_Nil_conv empty_iff list.set(1))
    then show ?thesis using key_names_iff [of _ s] by (metis not_None_eq)
  qed
  also have "\<dots> \<longleftrightarrow> ?plan"
  proof -
    have eq: "(\<forall>n. map_of ?old n = ?d n) \<longleftrightarrow> (\<forall>n x. \<not> op_at ?old (fp_next ?f) n x)"
    proof
      assume "\<forall>n. map_of ?old n = ?d n"
      then show "\<forall>n x. \<not> op_at ?old (fp_next ?f) n x" using f by (auto simp: op_at_def split: op.splits)
    next
      assume no: "\<forall>n x. \<not> op_at ?old (fp_next ?f) n x"
      show "\<forall>n. map_of ?old n = ?d n"
      proof
        fix n
        from no have "\<not> op_at ?old (fp_next ?f) n Add" "\<not> op_at ?old (fp_next ?f) n Change" "\<not> op_at ?old (fp_next ?f) n Remove"
          by blast+
        with f show "map_of ?old n = ?d n"
          by (cases "map_of ?old n"; cases "map_of (fp_next ?f) n") (auto simp: op_at_def)
      qed
    qed
    have ch: "fp_changes ?f = [] \<longleftrightarrow> (\<forall>n x. \<not> op_at ?old (fp_next ?f) n x)"
    proof
      assume "fp_changes ?f = []"
      with f show "\<forall>n x. \<not> op_at ?old (fp_next ?f) n x" by auto
    next
      assume "\<forall>n x. \<not> op_at ?old (fp_next ?f) n x"
      with f show "fp_changes ?f = []" by (metis list.set_intros(1) neq_Nil_conv)
    qed
    have miss: "fp_missing ?f = [] \<longleftrightarrow> (\<forall>n \<in> set (key_names s). ?d n \<noteq> None)"
      using f by (simp add: filter_empty_conv)
    have shp: "fp_reshape ?f = fl_mismatch (the (cur (sc_ref s)))" using f by auto
    show ?thesis unfolding file_changed_def eq ch miss shp by blast
  qed
  finally show ?thesis .
qed

lemma list_all_concat: "list_all P (concat (map f xs)) \<longleftrightarrow> (\<forall>x \<in> set xs. list_all P (f x))"
  by (induction xs) auto

lemma shape_rows_clean:
  "list_all (clean_state \<circ> lr_state) (shape_rows cur ss) \<longleftrightarrow> (\<forall>s \<in> set ss. \<not> fl_mismatch (the (cur (sc_ref s))))"
  unfolding shape_rows_def list_all_concat by (simp add: shape_row_def clean_state_def)

subsection \<open>Property\<close>



end
