(* ===== verification/Exec.thy ===== *)
theory Exec
  imports Io
begin

section \<open>Commands on a host, and waiting for one to take effect\<close>

text \<open>
  Every command kluster runs on a host is one line for its shell, built from quoted arguments
  (\<open>local.Quote\<close>); \<open>sh_words\<close> is the part of the POSIX shell's lexer that such a line meets, and the line
  is proved to be read back as exactly the arguments. \<open>until\<close> is \<open>seed.Waiting.Until\<close>, whose wait is a Go
  \<open>time.Duration\<close>: nanoseconds in 64 bits.
\<close>

text \<open>\<open>stage.Exec\<close>: a command that fails returns its output and an error.\<close>

record 'w exec =
  ex_exec :: "string \<Rightarrow> ('w, string \<times> string, string) call"
  ex_write :: "string \<Rightarrow> string \<Rightarrow> ('w, string, unit) call"

definition ex_run :: "'w exec \<Rightarrow> string \<Rightarrow> ('w, string, string) call" where
  "ex_run ex c = (\<lambda>w. case ex_exec ex c w of (r, w') \<Rightarrow> (map_sum snd id r, w'))"

text \<open>An operation that writes no line, as a call of the world.\<close>

definition io_run :: "('w, unit, 'e, 'a) io \<Rightarrow> ('w, 'e, 'a) call" where
  "io_run m = (\<lambda>w. case m (w, []) of (r, w', out) \<Rightarrow> (r, w'))"

lemma io_run_wp:
  assumes "wp m (\<lambda>a w' _. P (Inr a) w') (\<lambda>e w' _. P (Inl e) w') w []" and "io_run m w = (r, w')"
  shows "P r w'"
  using assms by (auto simp: wp_def io_run_def split: prod.splits sum.splits)

subsection \<open>Quoting\<close>

definition quote_arg :: "string \<Rightarrow> string" where
  "quote_arg s = CHR 0x27 # replace_all [CHR 0x27] [CHR 0x27, CHR 0x5C, CHR 0x27, CHR 0x27] 0 s @ [CHR 0x27]"

definition admin_conf :: string where "admin_conf = ''/etc/kubernetes/admin.conf''"
definition admin_env :: string where "admin_env = ''KUBECONFIG='' @ admin_conf @ '' ''"

definition kubectl :: "string list \<Rightarrow> string" where
  "kubectl args = admin_env @ ''kubectl '' @ join_str '' '' (map quote_arg args)"

text \<open>
  The shell: blanks separate words, single quotes keep everything up to the next one, a backslash keeps the
  next character. A line with any other special character is outside this lexer: \<open>None\<close>.
\<close>

definition sh_special :: "char \<Rightarrow> bool" where
  "sh_special c \<longleftrightarrow> c \<in> set ''|&;<>()$`*?[#~{}!'' \<or> c = CHR 0x22 \<or> c = NL \<or> c = CHR 0x09"

definition more :: "string option \<Rightarrow> string \<Rightarrow> string option" where
  "more cur s = Some ((case cur of None \<Rightarrow> [] | Some w \<Rightarrow> w) @ s)"

definition word_end :: "string option \<Rightarrow> string list" where
  "word_end cur = (case cur of None \<Rightarrow> [] | Some w \<Rightarrow> [w])"

fun sh_lex :: "bool \<Rightarrow> string option \<Rightarrow> string \<Rightarrow> string list option" where
  "sh_lex False cur [] = Some (word_end cur)"
| "sh_lex True cur [] = None"
| "sh_lex True cur (c # s) = (if c = CHR 0x27 then sh_lex False (more cur []) s else sh_lex True (more cur [c]) s)"
| "sh_lex False cur (c # s) =
     (if c = CHR '' '' then map_option ((@) (word_end cur)) (sh_lex False None s)
      else if c = CHR 0x27 then sh_lex True (more cur []) s
      else if c = CHR 0x5C then (case s of [] \<Rightarrow> None | d # s' \<Rightarrow> sh_lex False (more cur [d]) s')
      else if sh_special c then None
      else sh_lex False (more cur [c]) s)"

definition sh_words :: "string \<Rightarrow> string list option" where
  "sh_words s = sh_lex False None s"

lemma replace_all_char: "replace_all [c] new 0 s = concat (map (\<lambda>x. if x = c then new else [x]) s)"
  by (induction s) (auto simp: Let_def)

lemma quote_arg_code [code]:
  "quote_arg s = CHR 0x27 # concat (map (\<lambda>x. if x = CHR 0x27 then [CHR 0x27, CHR 0x5C, CHR 0x27, CHR 0x27] else [x]) s) @ [CHR 0x27]"
  by (simp add: quote_arg_def replace_all_char)

lemma more_more [simp]: "more (more cur a) b = more cur (a @ b)"
  by (simp add: more_def split: option.split)

text \<open>Inside the quotes: the argument is added to the word and the quote closed.\<close>

lemma sh_lex_quoted:
  "sh_lex True (more cur p) (replace_all [CHR 0x27] [CHR 0x27, CHR 0x5C, CHR 0x27, CHR 0x27] 0 s @ CHR 0x27 # t) =
     sh_lex False (more cur (p @ s)) t"
  unfolding replace_all_char by (induction s arbitrary: p) auto

lemma sh_lex_quote: "sh_lex False cur (quote_arg s @ t) = sh_lex False (more cur s) t"
  using sh_lex_quoted [of cur "[]" s t] by (simp add: quote_arg_def)

lemma sh_lex_plain:
  assumes "\<forall>c \<in> set s. \<not> sh_special c \<and> c \<noteq> CHR '' '' \<and> c \<noteq> CHR 0x27 \<and> c \<noteq> CHR 0x5C"
  shows "sh_lex False (more cur p) (s @ t) = sh_lex False (more cur (p @ s)) t"
  using assms by (induction s arbitrary: p) auto

lemma sh_lex_args:
  "sh_lex False None (join_str '' '' (map quote_arg args)) = Some args"
proof (induction args)
  case (Cons a args)
  show ?case
  proof (cases args)
    case Nil
    then show ?thesis using sh_lex_quote [of None a "[]"] by (simp add: more_def word_end_def)
  next
    case (Cons b bs)
    with \<open>sh_lex False None (join_str '' '' (map quote_arg args)) = Some args\<close> show ?thesis
      by (simp add: sh_lex_quote more_def word_end_def)
  qed
qed (simp add: word_end_def)

lemma words_of_plain:
  assumes "\<forall>c \<in> set s. \<not> sh_special c \<and> c \<noteq> CHR '' '' \<and> c \<noteq> CHR 0x27 \<and> c \<noteq> CHR 0x5C" and "s \<noteq> []"
  shows "sh_lex False None (s @ CHR '' '' # t) = map_option (Cons s) (sh_lex False None t)"
proof -
  obtain c r where s: "s = c # r" using assms(2) by (cases s) auto
  have "sh_lex False None (s @ CHR '' '' # t) = sh_lex False (more None [c]) (r @ CHR '' '' # t)"
    using assms(1) s by simp
  also have "\<dots> = sh_lex False (more None s) (CHR '' '' # t)"
    using assms(1) s by (subst sh_lex_plain) simp_all
  also have "\<dots> = map_option ((@) [s]) (sh_lex False None t)"
    by (simp add: more_def word_end_def)
  also have "(@) [s] = Cons s" by auto
  finally show ?thesis .
qed

lemma kubectl_words: "sh_words (kubectl args) = Some ((''KUBECONFIG='' @ admin_conf) # ''kubectl'' # args)"
proof -
  have a: "kubectl args = (''KUBECONFIG='' @ admin_conf) @ CHR '' '' # ''kubectl'' @ CHR '' '' #
      join_str '' '' (map quote_arg args)"
    by (simp add: kubectl_def admin_env_def)
  have env: "\<forall>c \<in> set (''KUBECONFIG='' @ admin_conf). \<not> sh_special c \<and> c \<noteq> CHR '' '' \<and> c \<noteq> CHR 0x27 \<and> c \<noteq> CHR 0x5C"
      "''KUBECONFIG='' @ admin_conf \<noteq> []"
    by (code_simp, simp)
  have cmd: "\<forall>c \<in> set ''kubectl''. \<not> sh_special c \<and> c \<noteq> CHR '' '' \<and> c \<noteq> CHR 0x27 \<and> c \<noteq> CHR 0x5C" "''kubectl'' \<noteq> []"
    by (code_simp, simp)
  show ?thesis
    unfolding a sh_words_def words_of_plain [OF env] words_of_plain [OF cmd] sh_lex_args by simp
qed

text \<open>
  C23 A quoted command line is read back by the shell as the command and exactly the arguments it was built
  from, whatever characters they hold: no argument can add a word or a command.
\<close>

theorem kubectl_line_round_trip:
  "sh_words (kubectl args) = Some ((''KUBECONFIG='' @ admin_conf) # ''kubectl'' # args) \<and>
   sh_words (join_str '' '' (map quote_arg args)) = Some args"
  by (intro conjI kubectl_words) (simp add: sh_words_def sh_lex_args)

subsection \<open>Waiting\<close>

text \<open>A \<open>time.Duration\<close> is an \<open>int64\<close> of nanoseconds; its arithmetic wraps.\<close>

definition wrap64 :: "int \<Rightarrow> int" where
  "wrap64 x = (x + 9223372036854775808) mod 18446744073709551616 - 9223372036854775808"

definition max_duration :: int where "max_duration = 9223372036854775807"

lemma wrap64_id: "- max_duration - 1 \<le> x \<Longrightarrow> x \<le> max_duration \<Longrightarrow> wrap64 x = x"
  by (simp add: wrap64_def max_duration_def)

definition seconds :: "int \<Rightarrow> int" where
  "seconds n = wrap64 (n * 1000000000)"

text \<open>\<open>Duration.String\<close>: hours, minutes and seconds with the fraction's trailing zeros left out, or one smaller unit.\<close>

definition frac_digits :: "nat \<Rightarrow> nat \<Rightarrow> string" where
  "frac_digits v n =
     (let ds = string_of_nat v; d = rev (dropWhile (\<lambda>c. c = CHR ''0'') (rev (replicate (n - length ds) (CHR ''0'') @ ds))) in
      if v = 0 then [] else CHR ''.'' # d)"

definition with_fraction :: "nat \<Rightarrow> nat \<Rightarrow> string" where
  "with_fraction u n = string_of_nat (u div 10 ^ n) @ frac_digits (u mod 10 ^ n) n"

definition unsigned_duration :: "nat \<Rightarrow> string" where
  "unsigned_duration u =
     (if u = 0 then ''0s''
      else if u < 1000 then string_of_nat u @ ''ns''
      else if u < 1000000 then with_fraction u 3 @ [CHR 0xC2, CHR 0xB5] @ ''s''
      else if u < 1000000000 then with_fraction u 6 @ ''ms''
      else (let h = u div 3600000000000; m = u div 60000000000 mod 60 in
        (if h > 0 then string_of_nat h @ ''h'' else []) @ (if h > 0 \<or> m > 0 then string_of_nat m @ ''m'' else []) @
        with_fraction (u mod 60000000000) 9 @ ''s''))"

definition duration_string :: "int \<Rightarrow> string" where
  "duration_string d = (if d < 0 then ''-'' else []) @ unsigned_duration (nat (abs d))"

lemma duration_strings:
  "duration_string 600000000000 = ''10m0s''" "duration_string 3661500000000 = ''1h1m1.5s''" "duration_string 15000000 = ''15ms''"
  by (simp_all add: duration_string_def unsigned_duration_def with_fraction_def frac_digits_def string_of_nat.simps char_of_def bit_0)

record waiting =
  wt_timeout :: int
  wt_poll :: int

record 'w clock =
  ck_sleep :: "int \<Rightarrow> 'w \<Rightarrow> 'w"
  ck_err :: "('w, string, unit) call"

text \<open>The loop of \<open>Until\<close> after waiting for \<open>waited\<close>; it returns \<open>None\<close> when it never ends.\<close>

partial_function (option) until_from ::
  "'w clock \<Rightarrow> waiting \<Rightarrow> ('a \<Rightarrow> bool) \<Rightarrow> ('w, string, 'a) call \<Rightarrow> int \<Rightarrow> 'w \<Rightarrow> ((string + 'a) \<times> 'w) option" where
  "until_from ck wt fin probe waited w =
     (case probe w of (r, w1) \<Rightarrow>
        (case r of Inl e \<Rightarrow> Some (Inl e, w1)
         | Inr st \<Rightarrow>
             if fin st \<or> waited \<ge> wt_timeout wt then Some (Inr st, w1)
             else (case ck_err ck w1 of (r2, w2) \<Rightarrow>
               (case r2 of Inl e \<Rightarrow> Some (Inl e, w2)
                | Inr u \<Rightarrow> until_from ck wt fin probe (wrap64 (waited + wt_poll wt)) (ck_sleep ck (wt_poll wt) w2)))))"

definition until ::
  "'w clock \<Rightarrow> waiting \<Rightarrow> ('a \<Rightarrow> bool) \<Rightarrow> ('w, string, 'a) call \<Rightarrow> 'w \<Rightarrow> ((string + 'a) \<times> 'w) option" where
  "until ck wt fin probe w = until_from ck wt fin probe 0 w"

text \<open>As a call. The wait that never ends has no result; \<open>until_is_bounded\<close> shows when there is one.\<close>

definition until_call ::
  "'w clock \<Rightarrow> waiting \<Rightarrow> ('a \<Rightarrow> bool) \<Rightarrow> ('w, string, 'a) call \<Rightarrow> ('w, string, 'a) call" where
  "until_call ck wt fin probe = (\<lambda>w. case until ck wt fin probe w of Some r \<Rightarrow> r | None \<Rightarrow> (Inl ''waits for ever'', w))"

text \<open>The specification: at most \<open>n\<close> probes that are not done, a poll apart, and then one more.\<close>

fun tries ::
  "'w clock \<Rightarrow> int \<Rightarrow> ('a \<Rightarrow> bool) \<Rightarrow> ('w, string, 'a) call \<Rightarrow> nat \<Rightarrow> ('w, string, 'a) call" where
  "tries ck poll fin probe 0 = probe"
| "tries ck poll fin probe (Suc n) =
     (\<lambda>w. case probe w of
        (Inl e, w1) \<Rightarrow> (Inl e, w1)
      | (Inr st, w1) \<Rightarrow>
          if fin st then (Inr st, w1)
          else (case ck_err ck w1 of
              (Inl e, w2) \<Rightarrow> (Inl e, w2)
            | (Inr u, w2) \<Rightarrow> tries ck poll fin probe n (ck_sleep ck poll w2)))"

definition polls :: "waiting \<Rightarrow> int \<Rightarrow> nat" where
  "polls wt waited = nat ((wt_timeout wt - waited + wt_poll wt - 1) div wt_poll wt)"

lemma polls_done: "0 < wt_poll wt \<Longrightarrow> wt_timeout wt \<le> waited \<Longrightarrow> polls wt waited = 0"
  using zdiv_mono1 [of "wt_timeout wt - waited + wt_poll wt - 1" "wt_poll wt - 1" "wt_poll wt"]
  by (simp add: polls_def div_pos_pos_trivial)

lemma polls_step:
  assumes "0 < wt_poll wt" and "waited < wt_timeout wt"
  shows "polls wt waited = Suc (polls wt (waited + wt_poll wt))"
proof -
  let ?a = "wt_timeout wt - (waited + wt_poll wt) + wt_poll wt - 1"
  have "wt_timeout wt - waited + wt_poll wt - 1 = ?a + wt_poll wt" by simp
  then have "(wt_timeout wt - waited + wt_poll wt - 1) div wt_poll wt = ?a div wt_poll wt + 1"
    using assms(1) by (metis div_add_self2 less_irrefl)
  moreover have "0 \<le> ?a div wt_poll wt" using assms by (simp add: pos_imp_zdiv_nonneg_iff)
  ultimately show ?thesis by (simp add: polls_def)
qed

lemma until_from_tries:
  assumes "0 < wt_poll wt" and "wt_timeout wt + wt_poll wt \<le> max_duration" and "0 \<le> waited"
  shows "until_from ck wt fin probe waited w = Some (tries ck (wt_poll wt) fin probe (polls wt waited) w)"
  using assms(3)
proof (induction "polls wt waited" arbitrary: waited w)
  case 0
  then have "wt_timeout wt \<le> waited" using polls_step [OF assms(1), of waited] by force
  then show ?case using 0 by (subst until_from.simps) (auto split: prod.split sum.split)
next
  case (Suc n)
  then have lt: "waited < wt_timeout wt" using polls_done [OF assms(1), of waited] by force
  have n: "n = polls wt (waited + wt_poll wt)" using Suc(2) polls_step [OF assms(1) lt] by simp
  have w: "wrap64 (waited + wt_poll wt) = waited + wt_poll wt"
    using lt Suc(3) assms by (intro wrap64_id) (simp_all add: max_duration_def)
  have IH: "until_from ck wt fin probe (waited + wt_poll wt) v = Some (tries ck (wt_poll wt) fin probe n v)" for v
    using Suc(1) [OF n] Suc(3) assms(1) n by simp
  show ?case using lt
    by (subst until_from.simps) (simp add: Suc(2) [symmetric] w IH split: prod.split sum.split)
qed

text \<open>
  C24 A wait always ends. With a positive poll and a timeout that fits a duration, \<open>Until\<close> is exactly: probe at
  most \<open>ceil (timeout / poll)\<close> times, a poll apart, and once more; it returns the first status that is done, the
  first error, or the last status. With a timeout of zero it probes once.
\<close>

theorem until_is_bounded:
  assumes "0 < wt_poll wt" and "wt_timeout wt + wt_poll wt \<le> max_duration"
  shows "until ck wt fin probe w =
    Some (tries ck (wt_poll wt) fin probe (nat ((wt_timeout wt + wt_poll wt - 1) div wt_poll wt)) w) \<and>
    until_call ck wt fin probe w =
    tries ck (wt_poll wt) fin probe (nat ((wt_timeout wt + wt_poll wt - 1) div wt_poll wt)) w"
  unfolding until_call_def until_def until_from_tries [OF assms order_refl] by (simp_all add: polls_def)

theorem until_is_bounded_witness:
  "until \<lparr>ck_sleep = (\<lambda>d w. w + d), ck_err = (\<lambda>w. (Inr (), w))\<rparr> \<lparr>wt_timeout = 25, wt_poll = 10\<rparr>
     (\<lambda>st. st) (\<lambda>w. (Inr False, w + 1)) (0::int) = Some (Inr False, 34)"
  by (subst until_is_bounded [THEN conjunct1]) (simp_all add: max_duration_def numeral_3_eq_3)

end
