(* ===== verification/Cuts.thy ===== *)
theory Cuts
  imports Exec
begin

section \<open>seed/cuts: what keeps a rehearsal away from the live outside world\<close>

text \<open>
  Each rehearsal cut removes live links; the Stage reads the cluster, object by object, and is done when no link
  remains. What is read of an object's JSON (a replica count, the keys of a spec, mounted Secrets, a destination)
  is the parameter \<open>json_reads\<close>. The field \<open>Holds\<close>, a function in Go, is one of the five the list uses.
\<close>

datatype cut_test = ZeroReplicas | Absent | NoACME | RehearsalBucket | NoReceiversMount

record live_link =
  ll_what :: string
  ll_kind :: string
  ll_namespace :: string
  ll_name :: string
  ll_any :: bool
  ll_test :: cut_test

record cut =
  cut_dir :: string
  cut_links :: "live_link list"
  cut_why :: string

record json_reads =
  jr_replicas :: "string \<Rightarrow> string + int option"
  jr_spec_keys :: "string \<Rightarrow> string + string list"
  jr_secrets :: "string \<Rightarrow> string + string list"
  jr_destination :: "string \<Rightarrow> string + string"

definition rehearsal_cuts :: "cut list" where
  "rehearsal_cuts =
    [\<lparr>cut_dir = ''argocd'', cut_links =
       [\<lparr>ll_what = ''a deploy notification (Telegram, the deploy catalog): the notifications controller runs'',
          ll_kind = ''deployments.apps'', ll_namespace = ''argocd'', ll_name = ''argocd-notifications-controller'',
          ll_any = False, ll_test = ZeroReplicas\<rparr>,
        \<lparr>ll_what = ''a deploy notification: the notifications Secret exists'',
          ll_kind = ''secrets'', ll_namespace = ''argocd'', ll_name = ''argocd-notifications-secret'',
          ll_any = False, ll_test = Absent\<rparr>,
        \<lparr>ll_what = ''an app deploy: the projects ApplicationSet exists'',
          ll_kind = ''applicationsets.argoproj.io'', ll_namespace = ''argocd'', ll_name = ''projects'',
          ll_any = False, ll_test = Absent\<rparr>], cut_why = []\<rparr>,
     \<lparr>cut_dir = ''cert-manager'', cut_links =
       [\<lparr>ll_what = ''a real certificate: ClusterIssuer letsencrypt-prod asks Let'' @ [CHR 0x27] @
            ''s Encrypt (rate limits shared with live)'',
          ll_kind = ''clusterissuers.cert-manager.io'', ll_namespace = [], ll_name = ''letsencrypt-prod'',
          ll_any = False, ll_test = NoACME\<rparr>,
        \<lparr>ll_what = ''a DNS write: the live Cloudflare token is in the cluster'',
          ll_kind = ''secrets'', ll_namespace = ''cert-manager'', ll_name = ''cloudflare-dns-token'',
          ll_any = False, ll_test = Absent\<rparr>], cut_why = []\<rparr>,
     \<lparr>cut_dir = ''cnpg'', cut_links =
       [\<lparr>ll_what = ''a write to the live backups: ObjectStore tosak-pg-backups does not archive to the rehearsal bucket'',
          ll_kind = ''objectstores.barmancloud.cnpg.io'', ll_namespace = ''pg-cluster'', ll_name = ''tosak-pg-backups'',
          ll_any = False, ll_test = RehearsalBucket\<rparr>], cut_why = []\<rparr>,
     \<lparr>cut_dir = ''monitoring'', cut_links =
       [\<lparr>ll_what = ''an alert to Telegram or a ping of the live Watchdog check: the Secret monitoring/alertmanager-receivers exists'',
          ll_kind = ''secrets'', ll_namespace = ''monitoring'', ll_name = ''alertmanager-receivers'',
          ll_any = False, ll_test = Absent\<rparr>,
        \<lparr>ll_what = ''an alert to Telegram or a ping of the live Watchdog check: Alertmanager mounts alertmanager-receivers'',
          ll_kind = ''alertmanagers.monitoring.coreos.com'', ll_namespace = ''monitoring'', ll_name = ''kps-alertmanager'',
          ll_any = False, ll_test = NoReceiversMount\<rparr>,
        \<lparr>ll_what = ''a probe of the live hosts: a Probe exists in monitoring'',
          ll_kind = ''probes.monitoring.coreos.com'', ll_namespace = ''monitoring'', ll_name = [],
          ll_any = True, ll_test = Absent\<rparr>], cut_why = []\<rparr>,
     \<lparr>cut_dir = ''reloader'', cut_links = [],
       cut_why = ''drops Reloader'' @ [CHR 0x27] @ ''s Roles in the projects'' @ [CHR 0x27] @
         '' namespaces, which a rehearsal does not make; no live link''\<rparr>]"

subsection \<open>Reading one link\<close>

definition link_valid :: "live_link \<Rightarrow> bool" where
  "link_valid l \<longleftrightarrow> ll_any l \<noteq> (ll_name l \<noteq> [])"

definition link_args :: "live_link \<Rightarrow> string list" where
  "link_args l =
     [''get'', ll_kind l] @ (if ll_any l then [] else [ll_name l]) @ [''--ignore-not-found''] @
     (if ll_namespace l \<noteq> [] then [''-n'', ll_namespace l] else []) @
     (if ll_kind l = ''secrets'' \<or> ll_any l then [''-o'', ''name''] else [''-o'', ''json''])"

text \<open>\<open>get\<close>: the object's text without surrounding white space; there is one when it is not empty.\<close>

definition get_link :: "'w exec \<Rightarrow> live_link \<Rightarrow> ('w, string, string) call" where
  "get_link ex l w =
     (if \<not> link_valid l then (Inl (''live link '' @ ll_what l @ '': set either Name or AnyOfKind''), w)
      else case ex_run ex (kubectl (link_args l)) w of
          (Inl e, w1) \<Rightarrow> (Inl e, w1)
        | (Inr out, w1) \<Rightarrow> (Inr (trim_space out), w1))"

definition link_holds :: "json_reads \<Rightarrow> string \<Rightarrow> cut_test \<Rightarrow> string \<Rightarrow> string + bool" where
  "link_holds jr bucket t obj =
     (case t of
        Absent \<Rightarrow> Inr (obj = [])
      | ZeroReplicas \<Rightarrow> if obj = [] then Inr True else map_sum id (\<lambda>r. r = Some 0) (jr_replicas jr obj)
      | NoACME \<Rightarrow> if obj = [] then Inr True else map_sum id (\<lambda>ks. ''acme'' \<notin> set ks) (jr_spec_keys jr obj)
      | NoReceiversMount \<Rightarrow>
          if obj = [] then Inr True else map_sum id (\<lambda>ss. ''alertmanager-receivers'' \<notin> set ss) (jr_secrets jr obj)
      | RehearsalBucket \<Rightarrow>
          if obj = [] then Inr True
          else map_sum id (\<lambda>d. bucket \<noteq> [] \<and> d = ''s3://'' @ bucket @ ''/'') (jr_destination jr obj))"

subsection \<open>The Stage\<close>

definition probe_link ::
  "'w exec \<Rightarrow> json_reads \<Rightarrow> string \<Rightarrow> string \<times> live_link \<Rightarrow> string list \<Rightarrow> ('w, unit, string, string list) io" where
  "probe_link ex jr bucket = (\<lambda>(dir, l) broken.
     io_bind (io_call (get_link ex l)) (\<lambda>obj.
       case link_holds jr bucket (ll_test l) obj of
         Inl e \<Rightarrow> io_fail (ll_what l @ '': '' @ e)
       | Inr ok \<Rightarrow> io_return (if ok then broken else broken @ [''core/rehearsal/'' @ dir @ '': '' @ ll_what l])))"

definition all_links :: "cut list \<Rightarrow> (string \<times> live_link) list" where
  "all_links cuts = concat (map (\<lambda>c. map (\<lambda>l. (cut_dir c, l)) (cut_links c)) cuts)"

text \<open>\<open>Probe\<close>: the links that remain; the Stage is done when there is none.\<close>

definition cuts_probe :: "'w exec \<Rightarrow> json_reads \<Rightarrow> string \<Rightarrow> ('w, string, string list) call" where
  "cuts_probe ex jr bucket = io_run (io_fold (probe_link ex jr bucket) (all_links rehearsal_cuts) [])"

definition cuts_preview :: "string list \<Rightarrow> string" where
  "cuts_preview broken =
     (if broken = [] then ''read only: show from the cluster that each rehearsal cut holds'' @ [NL]
      else ''live links:'' @ NL # ''  '' @ join_str (NL # ''  '') broken @ [NL])"

definition cuts_act :: "('w, string, unit) call" where
  "cuts_act w = (Inl ''the rehearsal can act on something live (the links above): it stops here; kluster down clears it away'', w)"

subsection \<open>What a finished probe has proved\<close>

text \<open>A cluster that answers from what \<open>obs\<close> shows of it, and that a \<open>get\<close> does not change.\<close>

definition answers :: "'w exec \<Rightarrow> ('w \<Rightarrow> 'o) \<Rightarrow> ('o \<Rightarrow> string \<Rightarrow> string) \<Rightarrow> bool" where
  "answers ex obs reply \<longleftrightarrow>
     (\<forall>args w r w'. ex_run ex (kubectl (''get'' # args)) w = (r, w') \<longrightarrow>
        obs w' = obs w \<and> (\<forall>out. r = Inr out \<longrightarrow> out = reply (obs w) (kubectl (''get'' # args))))"

definition link_reading :: "('o \<Rightarrow> string \<Rightarrow> string) \<Rightarrow> 'o \<Rightarrow> live_link \<Rightarrow> string" where
  "link_reading reply v l = trim_space (reply v (kubectl (link_args l)))"

lemma get_link_reads:
  assumes "answers ex obs reply" and "get_link ex l w = (r, w')"
  shows "obs w' = obs w \<and> (\<forall>obj. r = Inr obj \<longrightarrow> obj = link_reading reply (obs w) l)"
proof -
  obtain args where args: "link_args l = ''get'' # args" by (simp add: link_args_def)
  show ?thesis
  proof (cases "link_valid l")
    case True
    obtain r1 w1 where run: "ex_run ex (kubectl (''get'' # args)) w = (r1, w1)" by force
    from assms(1) run have "obs w1 = obs w" "\<And>out. r1 = Inr out \<Longrightarrow> out = reply (obs w) (kubectl (''get'' # args))"
      unfolding answers_def by blast+
    with assms(2) True run args show ?thesis
      by (auto simp: get_link_def link_reading_def split: sum.splits)
  qed (use assms(2) in \<open>auto simp: get_link_def\<close>)
qed

text \<open>The cut of one link in the cluster \<open>v\<close>, and what the Stage says of it.\<close>

definition cut_state :: "json_reads \<Rightarrow> string \<Rightarrow> ('o \<Rightarrow> string \<Rightarrow> string) \<Rightarrow> 'o \<Rightarrow> live_link \<Rightarrow> string + bool" where
  "cut_state jr bucket reply v l = link_holds jr bucket (ll_test l) (link_reading reply v l)"

definition remains :: "json_reads \<Rightarrow> string \<Rightarrow> ('o \<Rightarrow> string \<Rightarrow> string) \<Rightarrow> 'o \<Rightarrow> string \<times> live_link \<Rightarrow> string list" where
  "remains jr bucket reply v = (\<lambda>(d, l).
     if cut_state jr bucket reply v l = Inr True then [] else [''core/rehearsal/'' @ d @ '': '' @ ll_what l])"

lemma wp_probe_link:
  assumes "answers ex obs reply" and "obs w = v"
  shows "wp (probe_link ex jr bucket x broken)
    (\<lambda>b w' _. obs w' = v \<and> b = broken @ remains jr bucket reply v x \<and> is_ok (cut_state jr bucket reply v (snd x)))
    (\<lambda>_ w' _. obs w' = v) w out"
proof -
  obtain d l where x: "x = (d, l)" by force
  have "wp (io_call (get_link ex l)) (\<lambda>obj w' _. obs w' = v \<and> obj = link_reading reply v l)
      (\<lambda>_ w' _. obs w' = v) w out"
    using get_link_reads [OF assms(1)] assms(2) by (auto simp: wp_call)
  then show ?thesis
    unfolding x probe_link_def prod.case wp_bind
    by (rule wp_mono) (auto simp: wp_simps remains_def cut_state_def split: sum.split)
qed

lemma cuts_probe_reads:
  assumes "answers ex obs reply" and "cuts_probe ex jr bucket w = (r, w')"
  shows "obs w' = obs w \<and> (\<forall>b. r = Inr b \<longrightarrow>
    b = concat (map (remains jr bucket reply (obs w)) (all_links rehearsal_cuts)) \<and>
    list_all (\<lambda>x. is_ok (cut_state jr bucket reply (obs w) (snd x))) (all_links rehearsal_cuts))"
proof -
  let ?P = "\<lambda>r w'. obs w' = obs w \<and> (\<forall>b. r = Inr b \<longrightarrow>
    b = concat (map (remains jr bucket reply (obs w)) (all_links rehearsal_cuts)) \<and>
    list_all (\<lambda>x. is_ok (cut_state jr bucket reply (obs w) (snd x))) (all_links rehearsal_cuts))"
  have "wp (io_fold (probe_link ex jr bucket) (all_links rehearsal_cuts) [])
    (\<lambda>b w' _. obs w' = obs w \<and> b = concat (map (remains jr bucket reply (obs w)) (all_links rehearsal_cuts)) \<and>
       list_all (\<lambda>x. is_ok (cut_state jr bucket reply (obs w) (snd x))) (all_links rehearsal_cuts))
    (\<lambda>_ w' _. obs w' = obs w) w []"
  proof (rule wp_fold_prefix [where I = "\<lambda>pre b w' _. obs w' = obs w \<and> b = concat (map (remains jr bucket reply (obs w)) pre) \<and>
       list_all (\<lambda>x. is_ok (cut_state jr bucket reply (obs w) (snd x))) pre"], simp, goal_cases)
    case (1 pre x post b w1 out1)
    then have "obs w1 = obs w" by simp
    from wp_probe_link [OF assms(1) this, of jr bucket x b out1] show ?case
      by (rule wp_mono) (use 1 in auto)
  qed
  then have "wp (io_fold (probe_link ex jr bucket) (all_links rehearsal_cuts) []) (\<lambda>b w' _. ?P (Inr b) w') (\<lambda>e w' _. ?P (Inl e) w') w []"
    by (rule wp_mono) simp_all
  from io_run_wp [where P = ?P, OF this assms(2) [unfolded cuts_probe_def]] show ?thesis .
qed

text \<open>Every link of the list names one object or the whole kind, and reads a Secret by name only.\<close>

definition reads_no_value :: "live_link \<Rightarrow> bool" where
  "reads_no_value l \<longleftrightarrow> link_valid l \<and> sh_words (kubectl (link_args l)) =
     Some ([''KUBECONFIG='' @ admin_conf, ''kubectl''] @ link_args l) \<and> hd (link_args l) = ''get'' \<and>
     (ll_kind l = ''secrets'' \<longrightarrow> drop (length (link_args l) - 2) (link_args l) = [''-o'', ''name''])"

lemma rehearsal_cuts_read_no_value: "list_all (\<lambda>(d, l). reads_no_value l) (all_links rehearsal_cuts)"
proof -
  have "list_all (\<lambda>(d, l). link_valid l \<and> hd (link_args l) = ''get'' \<and>
     (ll_kind l = ''secrets'' \<longrightarrow> drop (length (link_args l) - 2) (link_args l) = [''-o'', ''name'']))
     (all_links rehearsal_cuts)"
    by code_simp
  then show ?thesis by (simp add: reads_no_value_def kubectl_words list_all_iff split_def)
qed

text \<open>Only the links' \<open>get\<close> commands are run: a host that answers those alike gives the same probe.\<close>

lemma cuts_probe_commands:
  assumes "list_all (\<lambda>(d, l). ex_run ex (kubectl (link_args l)) = ex_run ex' (kubectl (link_args l)))
    (all_links rehearsal_cuts)"
  shows "cuts_probe ex jr bucket = cuts_probe ex' jr bucket"
proof -
  have "io_fold (probe_link ex jr bucket) ls b = io_fold (probe_link ex' jr bucket) ls b"
    if "list_all (\<lambda>(d, l). ex_run ex (kubectl (link_args l)) = ex_run ex' (kubectl (link_args l))) ls" for ls b
    using that
  proof (induction ls arbitrary: b)
    case (Cons x ls)
    obtain d l where x: "x = (d, l)" by force
    with Cons.prems have "get_link ex l = get_link ex' l" by (auto simp: get_link_def)
    then have "probe_link ex jr bucket x b = probe_link ex' jr bucket x b" by (simp add: probe_link_def x)
    moreover have "io_fold (probe_link ex jr bucket) ls = io_fold (probe_link ex' jr bucket) ls"
      using Cons by (intro ext) simp
    ultimately show ?case by simp
  qed simp
  with assms show ?thesis by (simp add: cuts_probe_def)
qed

lemma cuts_read:
  assumes "answers ex obs reply" and "cuts_probe ex jr bucket w = (Inr broken, w')"
  shows "obs w' = obs w"
    and "broken = concat (map (remains jr bucket reply (obs w)) (all_links rehearsal_cuts))"
    and "broken = [] \<Longrightarrow> list_all (\<lambda>(d, l). cut_state jr bucket reply (obs w) l = Inr True) (all_links rehearsal_cuts)"
    and "list_all (\<lambda>(d, l). reads_no_value l) (all_links rehearsal_cuts)"
    and "list_all (\<lambda>(d, l). ex_run ex (kubectl (link_args l)) = ex_run ex' (kubectl (link_args l)))
      (all_links rehearsal_cuts) \<Longrightarrow> cuts_probe ex' jr bucket w = (Inr broken, w')"
proof -
  show "obs w' = obs w" and b: "broken = concat (map (remains jr bucket reply (obs w)) (all_links rehearsal_cuts))"
    using cuts_probe_reads [OF assms] by simp_all
  show "list_all (\<lambda>(d, l). cut_state jr bucket reply (obs w) l = Inr True) (all_links rehearsal_cuts)"
    if "broken = []"
    using b that by (auto simp: list_all_iff remains_def split: if_splits)
  show "list_all (\<lambda>(d, l). reads_no_value l) (all_links rehearsal_cuts)"
    by (rule rehearsal_cuts_read_no_value)
  show "cuts_probe ex' jr bucket w = (Inr broken, w')"
    if "list_all (\<lambda>(d, l). ex_run ex (kubectl (link_args l)) = ex_run ex' (kubectl (link_args l))) (all_links rehearsal_cuts)"
    using cuts_probe_commands [OF that, of jr bucket] assms(2) by simp
qed

text \<open>
  A rehearsal goes on only without a live link. When the probe reports no link, every one of the listed cuts
  holds in the cluster it read; when it reports some, those are exactly the cuts that do not hold. It changes
  nothing, runs nothing but the links' own \<open>kubectl get\<close> lines, and reads every Secret by its name only.
\<close>

theorem cuts_hold_when_clear:
  assumes "answers ex obs reply" and "cuts_probe ex jr bucket w = (Inr broken, w')"
  shows "obs w' = obs w \<and>
    broken = concat (map (remains jr bucket reply (obs w)) (all_links rehearsal_cuts)) \<and>
    (broken = [] \<longrightarrow> list_all (\<lambda>(d, l). cut_state jr bucket reply (obs w) l = Inr True) (all_links rehearsal_cuts)) \<and>
    list_all (\<lambda>(d, l). reads_no_value l) (all_links rehearsal_cuts) \<and>
    (list_all (\<lambda>(d, l). ex_run ex (kubectl (link_args l)) = ex_run ex' (kubectl (link_args l))) (all_links rehearsal_cuts) \<longrightarrow>
      cuts_probe ex' jr bucket w = (Inr broken, w'))"
  using cuts_read [OF assms] by blast

text \<open>A cluster with nothing in it has no live link.\<close>

definition empty_cluster :: "unit exec" where
  "empty_cluster = \<lparr>ex_exec = (\<lambda>c w. (Inr [], w)), ex_write = (\<lambda>p c w. (Inr (), w))\<rparr>"

definition no_json :: json_reads where
  "no_json = \<lparr>jr_replicas = (\<lambda>_. Inl []), jr_spec_keys = (\<lambda>_. Inl []), jr_secrets = (\<lambda>_. Inl []), jr_destination = (\<lambda>_. Inl [])\<rparr>"

theorem cuts_hold_when_clear_witness:
  "cuts_probe empty_cluster no_json ''r'' () = (Inr [], ()) \<and>
   list_all (\<lambda>(d, l). cut_state no_json ''r'' (\<lambda>_ _. []) (id ()) l = Inr True) (all_links rehearsal_cuts)"
proof -
  have laws: "answers empty_cluster id (\<lambda>_ _. [])" by (simp add: answers_def empty_cluster_def ex_run_def)
  have run: "cuts_probe empty_cluster no_json ''r'' () = (Inr [], ())"
    by code_simp
  show ?thesis using cuts_hold_when_clear [OF laws run] run by simp
qed

end
