(* ===== verification/Zone.thy ===== *)
theory Zone
  imports Exec
begin

section \<open>seed/zone: the zone's A records against the load balancer\<close>

text \<open>
  \<open>mismatches\<close> (live) and \<open>untouched_mismatches\<close> (a rehearsal) compare the zone's A records with the load
  balancer's address; kluster writes no record. The Cloudflare API is the parameter \<open>zone_api\<close>: the ids of the
  zones of a name, and one page of A records with the number of pages. \<open>slices.SortFunc\<close> is a stable sort by name
  here; Go leaves the order of records of one name open, and no decision below depends on it.
\<close>

record a_record =
  ar_name :: string
  ar_content :: string
  ar_proxied :: bool

definition contents_of :: "a_record list \<Rightarrow> string \<Rightarrow> string list" where
  "contents_of recs h = map ar_content (filter (\<lambda>r. ar_name r = h) recs)"

definition mismatch :: "a_record list \<Rightarrow> string \<Rightarrow> string \<Rightarrow> string list" where
  "mismatch recs addr h =
     (let got = contents_of recs h in
      if got = [] then [h @ '': no A record; add one for '' @ addr]
      else if length got > 1 \<or> hd got \<noteq> addr then [h @ '': A '' @ join_str '', '' got @ ''; change it to '' @ addr]
      else [])"

definition mismatches :: "a_record list \<Rightarrow> string list \<Rightarrow> string \<Rightarrow> string list" where
  "mismatches recs hosts addr = concat (map (mismatch recs addr) hosts)"

text \<open>The loop of \<open>UntouchedMismatches\<close>: what it reports, and the keys of its map \<open>count\<close>.\<close>

definition untouched_step :: "a_record list \<Rightarrow> string \<Rightarrow> string \<Rightarrow> string list \<times> string list \<Rightarrow> string list \<times> string list" where
  "untouched_step recs reh h = (\<lambda>(out, cnt).
     let got = contents_of recs h in
     if got = [] then (out @ [h @ '': no A record''], cnt)
     else if reh \<in> set got
     then (out @ [h @ '': points at the rehearsal load balancer '' @ reh @ ''; point it back at live''], cnt)
     else if length got > 1 then (out @ [h @ '': '' @ string_of_nat (length got) @ '' A records''], cnt)
     else (out, List.insert (hd got) cnt))"

definition untouched_mismatches :: "a_record list \<Rightarrow> string list \<Rightarrow> string \<Rightarrow> string list" where
  "untouched_mismatches recs hosts reh =
     (case fold (untouched_step recs reh) hosts ([], []) of (out, cnt) \<Rightarrow>
        if length cnt > 1
        then out @ [''the hosts point at '' @ string_of_nat (length cnt) @ '' different addresses, not one'']
        else out)"

subsection \<open>Reading the zone\<close>

record 'w zone_api =
  za_zones :: "string \<Rightarrow> ('w, string, string list) call"
  za_page :: "string \<Rightarrow> int \<Rightarrow> ('w, string, a_record list \<times> int) call"

text \<open>The page loop of \<open>ARecords\<close>; \<open>None\<close> when the API never stops naming further pages.\<close>

partial_function (option) record_pages ::
  "'w zone_api \<Rightarrow> string \<Rightarrow> int \<Rightarrow> a_record list \<Rightarrow> 'w \<Rightarrow> ((string + a_record list) \<times> 'w) option" where
  "record_pages api zid page out w =
     (case za_page api zid page w of (r, w1) \<Rightarrow>
        (case r of Inl e \<Rightarrow> Some (Inl e, w1)
         | Inr p \<Rightarrow>
             if page \<ge> snd p then Some (Inr (out @ fst p), w1)
             else record_pages api zid (page + 1) (out @ fst p) w1))"

definition a_records :: "'w zone_api \<Rightarrow> string \<Rightarrow> 'w \<Rightarrow> ((string + a_record list) \<times> 'w) option" where
  "a_records api zone w =
     (case za_zones api zone w of
        (Inl e, w1) \<Rightarrow> Some (Inl e, w1)
      | (Inr zs, w1) \<Rightarrow>
          if length zs \<noteq> 1
          then Some (Inl (''cloudflare: '' @ string_of_nat (length zs) @ '' zones named '' @ zone @
                 ''; the token must see exactly one''), w1)
          else map_option (\<lambda>(r, w2). (map_sum id (sort_key ar_name) r, w2)) (record_pages api (hd zs) 1 [] w1))"

subsection \<open>The Stage\<close>

definition zone_probe_of :: "bool \<Rightarrow> string list \<Rightarrow> string \<Rightarrow> a_record list \<Rightarrow> string list" where
  "zone_probe_of rehearsal hosts addr recs =
     (if rehearsal then untouched_mismatches recs hosts addr else mismatches recs hosts addr)"

text \<open>\<open>Probe\<close>: whether the Stage is done, and the records that are wrong, which the preview names.\<close>

definition zone_probe ::
  "('w, string, a_record list) call \<Rightarrow> bool \<Rightarrow> string list \<Rightarrow> string \<Rightarrow> string list \<Rightarrow>
     ('w, string, bool \<times> string list) call" where
  "zone_probe reader rehearsal hosts addr wrong w =
     (if addr = [] then (Inr (False, wrong), w)
      else case reader w of
          (Inl e, w1) \<Rightarrow> (Inl e, w1)
        | (Inr recs, w1) \<Rightarrow>
            (let bad = zone_probe_of rehearsal hosts addr recs in (Inr (bad = [], bad), w1)))"

definition zone_preview :: "bool \<Rightarrow> string list \<Rightarrow> string list \<Rightarrow> string" where
  "zone_preview rehearsal hosts wrong =
     (if wrong = [] \<and> rehearsal
      then ''show that the A records of '' @ join_str '', '' hosts @ '' still point at live, none at the rehearsal load balancer'' @ [NL]
      else if wrong = [] then ''compare the A records of '' @ join_str '', '' hosts @ '' with the load balancer'' @ [NL]
      else if rehearsal then ''the zone is not as live left it:'' @ NL # ''  '' @ join_str (NL # ''  '') wrong @ [NL]
      else ''change by hand in Cloudflare (kluster writes no record):'' @ NL # ''  '' @ join_str (NL # ''  '') wrong @ [NL])"

definition zone_act :: "bool \<Rightarrow> ('w, string, unit) call" where
  "zone_act rehearsal w =
     (Inl (if rehearsal
           then ''the zone is not as live left it (above); a rehearsal never changes the zone: put the records back by hand''
           else ''the zone does not point at the load balancer: change the records above by hand, then run again''), w)"

subsection \<open>What the comparison decides\<close>

definition points_at :: "a_record list \<Rightarrow> string \<Rightarrow> string \<Rightarrow> bool" where
  "points_at recs a h \<longleftrightarrow> contents_of recs h = [a]"

lemma mismatch_exact: "mismatch recs addr h = [] \<longleftrightarrow> points_at recs addr h"
  by (cases "contents_of recs h") (auto simp: mismatch_def points_at_def Let_def)

lemma untouched_out_prefix:
  "\<exists>l. fst (fold (untouched_step recs reh) hosts s) = fst s @ l"
proof (induction hosts arbitrary: s)
  case (Cons h hs)
  have "\<exists>l. fst (untouched_step recs reh h s) = fst s @ l"
    by (auto simp: untouched_step_def Let_def split_def)
  with Cons.IH [of "untouched_step recs reh h s"] show ?case by auto
qed simp

lemma untouched_step_clean:
  "fst (untouched_step recs reh h (out, cnt)) = [] \<longleftrightarrow> out = [] \<and> (\<exists>a. a \<noteq> reh \<and> points_at recs a h)"
  by (cases "contents_of recs h") (auto simp: untouched_step_def points_at_def Let_def)

lemma untouched_fold:
  "fst (fold (untouched_step recs reh) hosts ([], cnt)) = [] \<longleftrightarrow>
     list_all (\<lambda>h. \<exists>a. a \<noteq> reh \<and> points_at recs a h) hosts"
  "list_all (\<lambda>h. \<exists>a. a \<noteq> reh \<and> points_at recs a h) hosts \<Longrightarrow>
     set (snd (fold (untouched_step recs reh) hosts ([], cnt))) =
       set cnt \<union> {a. \<exists>h \<in> set hosts. points_at recs a h}"
  "distinct cnt \<Longrightarrow> distinct (snd (fold (untouched_step recs reh) hosts ([], cnt)))"
proof -
  have step: "untouched_step recs reh h ([], cnt) = ([], List.insert a cnt)"
    if "a \<noteq> reh" "points_at recs a h" for h a cnt
    using that by (simp add: untouched_step_def points_at_def Let_def)
  show "fst (fold (untouched_step recs reh) hosts ([], cnt)) = [] \<longleftrightarrow>
     list_all (\<lambda>h. \<exists>a. a \<noteq> reh \<and> points_at recs a h) hosts"
  proof (induction hosts arbitrary: cnt)
    case (Cons h hs)
    show ?case
    proof (cases "\<exists>a. a \<noteq> reh \<and> points_at recs a h")
      case True
      then show ?thesis using Cons.IH step by auto
    next
      case False
      then have "fst (untouched_step recs reh h ([], cnt)) \<noteq> []" using untouched_step_clean by metis
      then show ?thesis using untouched_out_prefix [of recs reh hs "untouched_step recs reh h ([], cnt)"] False by auto
    qed
  qed simp
  show "set (snd (fold (untouched_step recs reh) hosts ([], cnt))) =
       set cnt \<union> {a. \<exists>h \<in> set hosts. points_at recs a h}"
    if "list_all (\<lambda>h. \<exists>a. a \<noteq> reh \<and> points_at recs a h) hosts"
    using that
  proof (induction hosts arbitrary: cnt)
    case (Cons h hs)
    then obtain a where a: "a \<noteq> reh" "points_at recs a h" by auto
    with Cons show ?case by (auto simp: step [OF a] points_at_def)
  qed simp
  show "distinct (snd (fold (untouched_step recs reh) hosts ([], cnt)))" if "distinct cnt"
  proof -
    have "distinct (snd (fold (untouched_step recs reh) hosts s))" if "distinct (snd s)" for s
      using that
      by (induction hosts arbitrary: s) (auto simp: untouched_step_def Let_def split_def)
    from this [of "([], cnt)"] that show ?thesis by simp
  qed
qed

lemma points_at_fun: "points_at recs a h \<Longrightarrow> points_at recs b h \<Longrightarrow> a = b"
  by (simp add: points_at_def)

lemma one_address:
  assumes "list_all (\<lambda>h. \<exists>a. a \<noteq> addr \<and> points_at recs a h) hosts"
  shows "(\<forall>h \<in> set hosts. \<forall>k \<in> set hosts. \<forall>a b. points_at recs a h \<longrightarrow> points_at recs b k \<longrightarrow> a = b) \<longleftrightarrow>
     hosts = [] \<or> (\<exists>a. a \<noteq> addr \<and> list_all (points_at recs a) hosts)" (is "?same \<longleftrightarrow> ?one")
proof
  assume same: ?same
  show ?one
  proof (cases hosts)
    case (Cons h hs)
    with assms obtain a where a: "a \<noteq> addr" "points_at recs a h" by auto
    have "points_at recs a k" if "k \<in> set hosts" for k
    proof -
      from assms that obtain b where b: "points_at recs b k" by (auto simp: list_all_iff)
      have "h \<in> set hosts" using Cons by simp
      with same that a(2) b have "a = b" by blast
      with b show ?thesis by simp
    qed
    with a(1) show ?thesis by (auto simp: list_all_iff)
  qed simp
next
  assume ?one
  then show ?same
  proof
    assume "\<exists>a. a \<noteq> addr \<and> list_all (points_at recs a) hosts"
    then obtain c where "\<forall>h \<in> set hosts. points_at recs c h" by (auto simp: list_all_iff)
    then show ?same using points_at_fun by metis
  qed simp
qed

lemma zone_exact:
  "zone_probe_of False hosts addr recs = [] \<longleftrightarrow> list_all (points_at recs addr) hosts"
  "zone_probe_of True hosts addr recs = [] \<longleftrightarrow>
     hosts = [] \<or> (\<exists>a. a \<noteq> addr \<and> list_all (points_at recs a) hosts)"
proof -
  show "zone_probe_of False hosts addr recs = [] \<longleftrightarrow> list_all (points_at recs addr) hosts"
    by (auto simp: zone_probe_of_def mismatches_def mismatch_exact list_all_iff)
  obtain out cnt where f: "fold (untouched_step recs addr) hosts ([], []) = (out, cnt)"
    by (cases "fold (untouched_step recs addr) hosts ([], [])")
  let ?ok = "list_all (\<lambda>h. \<exists>a. a \<noteq> addr \<and> points_at recs a h) hosts"
  have out: "out = [] \<longleftrightarrow> ?ok" using untouched_fold(1) [of recs addr hosts "[]"] f by simp
  have cnt: "?ok \<Longrightarrow> set cnt = {a. \<exists>h \<in> set hosts. points_at recs a h}" "distinct cnt"
    using untouched_fold(2) [of addr recs hosts "[]"] untouched_fold(3) [of "[]" recs addr hosts] f by simp_all
  have len: "\<not> length cnt > 1 \<longleftrightarrow> (\<forall>a \<in> set cnt. \<forall>b \<in> set cnt. a = b)"
    using cnt(2) by (cases cnt rule: remdups_adj.cases) auto
  show "zone_probe_of True hosts addr recs = [] \<longleftrightarrow>
     hosts = [] \<or> (\<exists>a. a \<noteq> addr \<and> list_all (points_at recs a) hosts)"
  proof (cases ?ok)
    case True
    then have "zone_probe_of True hosts addr recs = [] \<longleftrightarrow> \<not> length cnt > 1"
      using out by (simp add: zone_probe_of_def untouched_mismatches_def f)
    also have "\<dots> \<longleftrightarrow> hosts = [] \<or> (\<exists>a. a \<noteq> addr \<and> list_all (points_at recs a) hosts)"
      unfolding len cnt(1) [OF True] one_address [OF True, symmetric] by blast
    finally show ?thesis .
  next
    case False
    then show ?thesis
      using out by (auto simp: zone_probe_of_def untouched_mismatches_def f list_all_iff)
  qed
qed

text \<open>
  The zone Stage passes exactly when it should. Live: every host has one A record and it holds the load
  balancer's address. A rehearsal: there is one address, not the rehearsal load balancer's, that is the one A record
  of every host.
\<close>

theorem zone_check_exact:
  "(zone_probe_of False hosts addr recs = [] \<longleftrightarrow> list_all (points_at recs addr) hosts) \<and>
   (zone_probe_of True hosts addr recs = [] \<longleftrightarrow>
     hosts = [] \<or> (\<exists>a. a \<noteq> addr \<and> list_all (points_at recs a) hosts))"
  by (intro conjI zone_exact)

subsection \<open>Every page is read\<close>

text \<open>An API that answers from a fixed zone \<open>pages\<close>, page \<open>p\<close> being the \<open>p\<close>-th of them.\<close>

definition serves_pages :: "'w zone_api \<Rightarrow> ('w \<Rightarrow> 'o) \<Rightarrow> string \<Rightarrow> 'o \<Rightarrow> a_record list list \<Rightarrow> bool" where
  "serves_pages api obs zid v pages \<longleftrightarrow>
     (\<forall>p w. 1 \<le> p \<and> obs w = v \<longrightarrow> (\<exists>w'. za_page api zid p w =
        (Inr (if p \<le> int (length pages) then pages ! nat (p - 1) else [], int (length pages)), w') \<and> obs w' = v))"

lemma record_pages_all:
  assumes "serves_pages api obs zid v pages" and "1 \<le> p" and "obs w = v"
  shows "\<exists>w'. record_pages api zid p out w = Some (Inr (out @ concat (drop (nat (p - 1)) pages)), w') \<and> obs w' = v"
  using assms(2,3)
proof (induction "nat (int (length pages) - p)" arbitrary: p out w)
  case 0
  from assms(1) 0 obtain w' where w': "za_page api zid p w =
      (Inr (if p \<le> int (length pages) then pages ! nat (p - 1) else [], int (length pages)), w')" "obs w' = v"
    unfolding serves_pages_def by blast
  have "concat (drop (nat (p - 1)) pages) = (if p \<le> int (length pages) then pages ! nat (p - 1) else [])"
  proof (cases "p \<le> int (length pages)")
    case True
    with 0 have "nat (p - 1) < length pages" "Suc (nat (p - 1)) \<ge> length pages" by simp_all
    then show ?thesis using True by (simp add: Cons_nth_drop_Suc [symmetric])
  qed simp
  with w' 0 show ?case by (subst record_pages.simps) simp
next
  case (Suc n)
  from assms(1) Suc obtain w' where w': "za_page api zid p w =
      (Inr (if p \<le> int (length pages) then pages ! nat (p - 1) else [], int (length pages)), w')" "obs w' = v"
    unfolding serves_pages_def by blast
  from Suc.hyps(2) have lt: "p < int (length pages)" by simp
  then have "nat (p - 1) < length pages" "nat (p + 1 - 1) = Suc (nat (p - 1))" using Suc by simp_all
  then have split: "drop (nat (p - 1)) pages = pages ! nat (p - 1) # drop (nat (p + 1 - 1)) pages"
    by (simp add: Cons_nth_drop_Suc)
  have "n = nat (int (length pages) - (p + 1))" using Suc.hyps(2) by simp
  have "1 \<le> p + 1" using Suc.prems by simp
  from Suc.hyps(1) [OF \<open>n = nat (int (length pages) - (p + 1))\<close> this w'(2), of "out @ pages ! nat (p - 1)"] obtain w2 where
    "record_pages api zid (p + 1) (out @ pages ! nat (p - 1)) w' =
       Some (Inr ((out @ pages ! nat (p - 1)) @ concat (drop (nat (p + 1 - 1)) pages)), w2)" "obs w2 = v" by blast
  with w' lt split show ?case by (subst record_pages.simps) simp
qed

lemma a_records_all:
  assumes "za_zones api zone w = (Inr [zid], w1)" and "obs w1 = v" and "serves_pages api obs zid v pages"
  shows "\<exists>w'. a_records api zone w = Some (Inr (sort_key ar_name (concat pages)), w')"
  using record_pages_all [OF assms(3), of 1 w1 "[]"] assms by (auto simp: a_records_def)

end
