(* ===== verification/Kube.thy ===== *)
theory Kube
  imports Exec SecretLive
begin

section \<open>kube: kubectl on the Control Plane and on the laptop\<close>

text \<open>
  What kluster reads of Nodes, Pods and databases (the JSON decoders are the parameter \<open>kube_json\<close>, and the
  records below are the decoded items), and the two implementations of the interface \<open>cluster\<close> that compares
  and applies a Secret: over SSH (\<open>Kubectl\<close>) and on the laptop (\<open>Local\<close>). \<open>scrub\<close> is what stands between
  kubectl's message and the terminal.
\<close>

definition field_manager :: string where "field_manager = ''kluster''"
definition secret_dir :: string where "secret_dir = ''/run/kluster''"
definition uninitialized_taint :: string where
  "uninitialized_taint = ''node.cloudprovider.kubernetes.io/uninitialized''"
definition mirror_annotation :: string where "mirror_annotation = ''kubernetes.io/config.mirror''"
definition cnpg_clusters :: string where "cnpg_clusters = ''clusters.postgresql.cnpg.io''"

subsection \<open>Nodes, Pods, databases\<close>

record node_item =
  ni_name :: string
  ni_labels :: "string list"
  ni_provider :: string
  ni_unschedulable :: bool
  ni_taints :: "string list"
  ni_conditions :: "(string \<times> string) list"
  ni_addresses :: "(string \<times> string) list"
  ni_kubelet :: string

record node =
  nd_name :: string
  nd_ready :: bool
  nd_internal :: string
  nd_kubelet :: string
  nd_control_plane :: bool
  nd_provider :: string
  nd_unschedulable :: bool
  nd_uninitialized :: bool

text \<open>The last \<open>Ready\<close> condition and the first non-empty \<open>InternalIP\<close> count.\<close>

definition parse_node :: "node_item \<Rightarrow> node" where
  "parse_node it =
     \<lparr>nd_name = ni_name it,
      nd_ready = fold (\<lambda>(t, s) r. if t = ''Ready'' then s = ''True'' else r) (ni_conditions it) False,
      nd_internal = fold (\<lambda>(t, a) ip. if t = ''InternalIP'' \<and> ip = [] then a else ip) (ni_addresses it) [],
      nd_kubelet = ni_kubelet it,
      nd_control_plane = ''node-role.kubernetes.io/control-plane'' \<in> set (ni_labels it),
      nd_provider = ni_provider it, nd_unschedulable = ni_unschedulable it,
      nd_uninitialized = list_ex (\<lambda>t. t = uninitialized_taint) (ni_taints it)\<rparr>"

record pod_item =
  pi_name :: string
  pi_namespace :: string
  pi_annotations :: "string list"
  pi_owners :: "string list"
  pi_phase :: string

record pod =
  pd_namespace :: string
  pd_name :: string
  pd_daemon_set :: bool
  pd_mirror :: bool
  pd_finished :: bool

definition parse_pod :: "pod_item \<Rightarrow> pod" where
  "parse_pod it =
     \<lparr>pd_namespace = pi_namespace it, pd_name = pi_name it,
      pd_daemon_set = list_ex (\<lambda>k. k = ''DaemonSet'') (pi_owners it),
      pd_mirror = mirror_annotation \<in> set (pi_annotations it),
      pd_finished = (pi_phase it = ''Succeeded'' \<or> pi_phase it = ''Failed'')\<rparr>"

definition pod_remains :: "pod \<Rightarrow> bool" where
  "pod_remains p \<longleftrightarrow> \<not> pd_daemon_set p \<and> \<not> pd_mirror p \<and> \<not> pd_finished p"

record database =
  dt_namespace :: string
  dt_name :: string
  dt_instances :: int
  dt_ready :: int
  dt_phase :: string

definition db_healthy :: "database \<Rightarrow> bool" where
  "db_healthy d \<longleftrightarrow> dt_instances d > 0 \<and> dt_ready d \<ge> dt_instances d"

record kube_json =
  kj_nodes :: "string \<Rightarrow> string + node_item list"
  kj_pods :: "string \<Rightarrow> string + pod_item list"
  kj_databases :: "string \<Rightarrow> string + database list"

definition kubectl_run :: "'w exec \<Rightarrow> string list \<Rightarrow> ('w, string, string) call" where
  "kubectl_run ex args = ex_run ex (kubectl args)"

definition decoded :: "string \<Rightarrow> (string + 'a) \<Rightarrow> ('a \<Rightarrow> 'b) \<Rightarrow> ('w, 'o, string, 'b) io" where
  "decoded what r f = (case r of Inl e \<Rightarrow> io_fail (what @ e) | Inr a \<Rightarrow> io_return (f a))"

definition nodes :: "'w exec \<Rightarrow> kube_json \<Rightarrow> ('w, 'o, string, node list) io" where
  "nodes ex kj = io_bind (io_call (kubectl_run ex [''get'', ''nodes'', ''-o'', ''json''])) (\<lambda>out.
     decoded ''reading the Node list: '' (kj_nodes kj out) (map parse_node))"

definition pods_on :: "'w exec \<Rightarrow> kube_json \<Rightarrow> string \<Rightarrow> ('w, 'o, string, pod list) io" where
  "pods_on ex kj node =
     io_bind (io_call (kubectl_run ex [''get'', ''pods'', ''--all-namespaces'', ''--field-selector'',
       ''spec.nodeName='' @ node, ''-o'', ''json''])) (\<lambda>out.
     decoded ''reading the Pod list: '' (kj_pods kj out) (map parse_pod))"

definition databases :: "'w exec \<Rightarrow> kube_json \<Rightarrow> ('w, 'o, string, database list) io" where
  "databases ex kj =
     io_bind (io_call (kubectl_run ex [''get'', ''crd'', cnpg_clusters, ''--ignore-not-found'', ''-o'', ''name''])) (\<lambda>crd.
       if trim_space crd = [] then io_return []
       else io_bind (io_call (kubectl_run ex [''get'', cnpg_clusters, ''--all-namespaces'', ''-o'', ''json''])) (\<lambda>out.
         decoded ''reading the CNPG Cluster list: '' (kj_databases kj out) (\<lambda>ds. ds)))"

subsection \<open>Scrubbing a message\<close>

definition withheld :: string where "withheld = ''[value withheld]''"

definition replace_every :: "string \<Rightarrow> string \<Rightarrow> string" where
  "replace_every v s = replace_all v withheld 0 s"

text \<open>One entry of the manifest's \<open>data\<close>: its base64 text, then its value.\<close>

definition scrub_entry :: "string \<times> string \<Rightarrow> string \<Rightarrow> string" where
  "scrub_entry = (\<lambda>(k, enc) s.
     if enc = [] then s
     else (let s' = replace_every enc s in
       case b64_decode enc of None \<Rightarrow> s'
       | Some dec \<Rightarrow> if dec = [] then s' else replace_every dec s'))"

text \<open>The list is the map's entries in the order Go visits them, which is any order.\<close>

definition scrub :: "(string \<Rightarrow> string + (string \<times> string) list) \<Rightarrow> string \<Rightarrow> string \<Rightarrow> string" where
  "scrub data msg manifest =
     (case data manifest of
        Inl e \<Rightarrow> ''(message withheld: the manifest could not be read to scrub it)''
      | Inr entries \<Rightarrow> fold scrub_entry entries (trim_space msg))"

subsection \<open>Secrets over SSH and on the laptop\<close>

definition remote_secret :: "'w exec \<Rightarrow> ref \<Rightarrow> ('w, string, string option) call" where
  "remote_secret ex r w =
     (case ex_run ex (admin_env @ ''kubectl get secret -n '' @ quote_arg (rf_namespace r) @ '' '' @
        quote_arg (rf_name r) @ '' -o yaml --ignore-not-found 2>/dev/null'') w of
       (Inl e, w1) \<Rightarrow> (Inl (''kubectl get secret '' @ ref_string r @ '' failed''), w1)
     | (Inr out, w1) \<Rightarrow> (Inr (if trim_space out = [] then None else Some out), w1))"

definition secret_file :: string where "secret_file = secret_dir @ ''/secret.yaml''"

definition apply_flags :: "bool \<Rightarrow> string" where
  "apply_flags force = ''--server-side --field-manager='' @ field_manager @ (if force then '' --force-conflicts'' else [])"

definition remote_apply ::
  "'w exec \<Rightarrow> (string \<Rightarrow> string + (string \<times> string) list) \<Rightarrow> string \<Rightarrow> bool \<Rightarrow> ('w, string, unit) call" where
  "remote_apply ex data manifest force = io_run
     (io_bind (io_call (ex_run ex (''mkdir -p -m 700 '' @ secret_dir))) (\<lambda>_.
      io_bind (io_call (ex_write ex secret_file manifest)) (\<lambda>_.
      io_bind (io_map_err (\<lambda>(out, e). ''kubectl apply: '' @ scrub data out manifest)
        (io_call (ex_exec ex (admin_env @ ''kubectl apply '' @ apply_flags force @ '' -f '' @ secret_file @
          '' 2>&1; rc=$?; rm -f '' @ secret_file @ ''; exit $rc'')))) (\<lambda>_. io_return ()))))"

definition remote_cluster :: "'w exec \<Rightarrow> (string \<Rightarrow> string + (string \<times> string) list) \<Rightarrow> 'w cluster" where
  "remote_cluster ex data = \<lparr>cl_secret = remote_secret ex, cl_apply = remote_apply ex data\<rparr>"

text \<open>The laptop's kubectl: \<open>lk_run\<close> takes what it reads on its standard input and its arguments.\<close>

record 'w local_kube =
  lk_kubeconfig :: string
  lk_context :: string
  lk_run :: "string \<Rightarrow> string list \<Rightarrow> ('w, string \<times> string, string) call"

definition context_name :: "string \<Rightarrow> string" where
  "context_name c = c @ ''-admin'' @ CHR 0x40 # c"

definition local_args :: "'w local_kube \<Rightarrow> string list \<Rightarrow> string list" where
  "local_args lk rest = [''--kubeconfig'', lk_kubeconfig lk, ''--context'', lk_context lk] @ rest"

definition first_line :: "string \<Rightarrow> string" where
  "first_line s = hd (split_on NL (trim_space s))"

text \<open>A kubectl that fails returns its standard error and the error of the process.\<close>

definition local_secret :: "'w local_kube \<Rightarrow> ref \<Rightarrow> ('w, string, string option) call" where
  "local_secret lk r w =
     (case lk_run lk [] (local_args lk [''get'', ''secret'', ''-n'', rf_namespace r, rf_name r, ''-o'', ''yaml'',
        ''--ignore-not-found'']) w of
       (Inl (err, e), w1) \<Rightarrow> (Inl (''kubectl get secret: '' @ e @ '': '' @ first_line err), w1)
     | (Inr out, w1) \<Rightarrow> (Inr (if trim_space out = [] then None else Some out), w1))"

definition local_apply ::
  "'w local_kube \<Rightarrow> (string \<Rightarrow> string + (string \<times> string) list) \<Rightarrow> string \<Rightarrow> bool \<Rightarrow> ('w, string, unit) call" where
  "local_apply lk data manifest force w =
     (case lk_run lk manifest (local_args lk ([''apply'', ''--server-side'', ''--field-manager='' @ field_manager] @
        (if force then [''--force-conflicts''] else []) @ [''-f'', ''-''])) w of
       (Inl (err, e), w1) \<Rightarrow> (Inl (''kubectl apply: '' @ e @ '': '' @ scrub data err manifest), w1)
     | (Inr _, w1) \<Rightarrow> (Inr (), w1))"

definition local_cluster :: "'w local_kube \<Rightarrow> (string \<Rightarrow> string + (string \<times> string) list) \<Rightarrow> 'w cluster" where
  "local_cluster lk data = \<lparr>cl_secret = local_secret lk, cl_apply = local_apply lk data\<rparr>"

subsection \<open>What a scrubbed message cannot hold\<close>

lemma replace_all_skip: "replace_all sep new n s = replace_all sep new 0 (drop n s)"
proof (induction s arbitrary: n)
  case (Cons x s)
  then show ?case by (cases n) auto
qed simp

text \<open>Replacing every occurrence: the text between the occurrences stays, and holds no occurrence itself.\<close>

lemma replace_all_segments:
  assumes "sep \<noteq> []"
  shows "\<exists>segs. segs \<noteq> [] \<and> s = join_str sep segs \<and> replace_all sep new 0 s = join_str new segs \<and>
     list_all (\<lambda>g. \<not> sublist sep g) segs"
proof (induction s rule: length_induct)
  case (1 s)
  show ?case
  proof (cases s)
    case Nil
    then show ?thesis using assms by (intro exI [of _ "[[]]"]) simp
  next
    case (Cons x xs)
    show ?thesis
    proof (cases "take (length sep) s = sep")
      case True
      then have s: "s = sep @ drop (length sep) s" by (metis append_take_drop_id)
      have "length (drop (length sep) s) < length s" using Cons assms by simp
      with 1 obtain segs where segs: "segs \<noteq> []" "drop (length sep) s = join_str sep segs"
        "replace_all sep new 0 (drop (length sep) s) = join_str new segs" "list_all (\<lambda>g. \<not> sublist sep g) segs"
        by blast
      have "drop (length sep - 1) xs = drop (length sep) s" using Cons assms by (cases sep) simp_all
      then have "replace_all sep new 0 s = new @ join_str new segs"
        using True Cons segs(3) replace_all_skip [of sep new "length sep - 1" xs] by simp
      moreover have "s = join_str sep ([] # segs)" using s segs(1,2) by (cases segs) simp_all
      moreover have "join_str new ([] # segs) = new @ join_str new segs" using segs(1) by (cases segs) simp_all
      ultimately show ?thesis using segs assms by (intro exI [of _ "[] # segs"]) simp
    next
      case False
      from 1 Cons obtain segs where segs: "segs \<noteq> []" "xs = join_str sep segs"
        "replace_all sep new 0 xs = join_str new segs" "list_all (\<lambda>g. \<not> sublist sep g) segs" by auto
      obtain g gs where gs: "segs = g # gs" using segs(1) by (cases segs) auto
      have cons: "join_str t ((x # g) # gs) = x # join_str t segs" for t using gs by (cases gs) simp_all
      have "\<not> prefix sep (x # g)"
      proof
        assume "prefix sep (x # g)"
        moreover have "prefix (x # g) s" using Cons segs(2) gs by (cases gs) (simp_all add: prefix_def)
        ultimately have "prefix sep s" by (rule prefix_order.trans)
        with False show False by (auto simp: prefix_def)
      qed
      then have "\<not> sublist sep (x # g)" using segs(4) gs by (simp add: sublist_Cons_right)
      then show ?thesis using segs gs Cons False cons
        by (intro exI [of _ "(x # g) # gs"]) simp
    qed
  qed
qed

lemma sublist_split:
  assumes "c \<notin> set v"
  shows "sublist v (x @ c # z) \<longleftrightarrow> sublist v x \<or> sublist v z"
proof
  assume "sublist v (x @ c # z)"
  then obtain a b where ab: "x @ c # z = a @ v @ b" by (auto simp: sublist_def)
  show "sublist v x \<or> sublist v z"
  proof (cases "length (a @ v) \<le> length x")
    case True
    then have "take (length (a @ v)) (x @ c # z) = take (length (a @ v)) x" by simp
    then have "a @ v = take (length (a @ v)) x" using ab by (metis append_eq_conv_conj append_assoc)
    then have "x = a @ v @ drop (length (a @ v)) x" by (metis append_assoc append_take_drop_id)
    then show ?thesis unfolding sublist_def by blast
  next
    case False
    have "length x < length a"
    proof (rule ccontr)
      assume "\<not> length x < length a"
      then have "length x - length a < length v" using False by simp
      moreover have "(x @ c # z) ! length x = (a @ v @ b) ! length x" using ab by simp
      ultimately have "c = v ! (length x - length a)"
        using \<open>\<not> length x < length a\<close> by (simp add: nth_append)
      then show False using assms \<open>length x - length a < length v\<close> by (metis nth_mem)
    qed
    then have "drop (Suc (length x)) (x @ c # z) = drop (Suc (length x)) a @ v @ b" using ab by simp
    then have "z = drop (Suc (length x)) a @ v @ b" by simp
    then show ?thesis unfolding sublist_def by blast
  qed
next
  assume "sublist v x \<or> sublist v z"
  then show "sublist v (x @ c # z)"
    by (metis append_Cons append_Nil sublist_appendI sublist_append_leftI sublist_append_rightI sublist_order.order_trans
        sublist_Cons_right)
qed

text \<open>A value the placeholder cannot spell: no bracket, and not a part of its text.\<close>

definition hideable :: "string \<Rightarrow> bool" where
  "hideable v \<longleftrightarrow> CHR ''['' \<notin> set v \<and> CHR '']'' \<notin> set v \<and> \<not> sublist v ''value withheld''"

lemma sublist_withheld:
  assumes "hideable v"
  shows "sublist v (withheld @ z) \<longleftrightarrow> sublist v z" "sublist v (x @ withheld @ z) \<longleftrightarrow> sublist v x \<or> sublist v z"
proof -
  have w: "withheld = [] @ CHR ''['' # ''value withheld'' @ [CHR '']'']" by (simp add: withheld_def)
  have v: "CHR ''['' \<notin> set v" "CHR '']'' \<notin> set v" "\<not> sublist v ''value withheld''" "\<not> sublist v []"
    using assms by (auto simp: hideable_def)
  have "sublist v (x @ withheld @ z) \<longleftrightarrow> sublist v x \<or> sublist v (''value withheld'' @ CHR '']'' # z)" for x z
    using sublist_split [OF v(1), of x "''value withheld'' @ CHR '']'' # z"] by (simp add: w)
  moreover have "sublist v (''value withheld'' @ CHR '']'' # z) \<longleftrightarrow> sublist v z" for z
    using sublist_split [OF v(2), of "''value withheld''" z] v(3) by simp
  ultimately show "sublist v (x @ withheld @ z) \<longleftrightarrow> sublist v x \<or> sublist v z" for x z by simp
  from this [of "[]" z] v(4) show "sublist v (withheld @ z) \<longleftrightarrow> sublist v z" by simp
qed

lemma sublist_join_withheld:
  assumes "hideable v" and "segs \<noteq> []"
  shows "sublist v (join_str withheld segs) \<longleftrightarrow> list_ex (sublist v) segs"
  using assms(2)
proof (induction segs)
  case (Cons g gs)
  then show ?case by (cases gs) (simp_all add: sublist_withheld [OF assms(1)])
qed simp

text \<open>A replacement hides its own value and brings back no other one.\<close>

lemma replace_every_hides:
  assumes "v \<noteq> []" and "hideable u" and "u = v \<or> \<not> sublist u s"
  shows "\<not> sublist u (replace_every v s)"
proof -
  from replace_all_segments [OF assms(1), of s withheld] obtain segs where segs: "segs \<noteq> []" "s = join_str v segs"
    "replace_all v withheld 0 s = join_str withheld segs" "list_all (\<lambda>g. \<not> sublist v g) segs" by blast
  have part: "sublist g (join_str v gs)" if "g \<in> set gs" for g gs
    using that
  proof (induction gs)
    case (Cons h hs)
    then show ?case
      by (cases hs) (auto intro: sublist_order.order_trans [OF _ sublist_append_leftI] sublist_appendI)
  qed simp
  have "\<not> sublist u g" if "g \<in> set segs" for g
    using assms(3) segs(2,4) that part [OF that] by (auto simp: list_all_iff dest: sublist_order.order_trans)
  then show ?thesis
    unfolding replace_every_def segs(3) sublist_join_withheld [OF assms(2) segs(1)] by (simp add: list_ex_iff)
qed

definition shows_value :: "string \<times> string \<Rightarrow> string \<Rightarrow> bool" where
  "shows_value = (\<lambda>(k, enc) v. enc \<noteq> [] \<and> v \<noteq> [] \<and> (v = enc \<or> b64_decode enc = Some v))"

lemma scrub_entry_keeps:
  assumes "hideable v" and "\<not> sublist v s"
  shows "\<not> sublist v (scrub_entry x s)"
  using replace_every_hides [OF _ assms(1)] assms(2)
  by (auto simp: scrub_entry_def Let_def split: option.split prod.split)

lemma scrub_entry_hides:
  assumes "hideable v" and "shows_value x v"
  shows "\<not> sublist v (scrub_entry x s)"
proof -
  obtain k enc where x: "x = (k, enc)" by force
  with assms(2) have enc: "enc \<noteq> []" and v: "v \<noteq> []" "v = enc \<or> b64_decode enc = Some v"
    by (auto simp: shows_value_def)
  have one: "\<not> sublist enc (replace_every enc s)" if "hideable enc"
    using replace_every_hides [OF enc that, of s] by simp
  show ?thesis
  proof (cases "v = enc")
    case True
    with one assms(1) have "\<not> sublist v (replace_every enc s)" by simp
    then show ?thesis using enc replace_every_hides [OF _ assms(1)]
      by (auto simp: scrub_entry_def x Let_def split: option.split)
  next
    case False
    with v enc show ?thesis using replace_every_hides [OF v(1) assms(1), of "replace_every enc s"]
      by (simp add: scrub_entry_def x Let_def)
  qed
qed

lemma scrub_fold_hides:
  assumes "hideable v" and "\<not> sublist v s \<or> (\<exists>x \<in> set entries. shows_value x v)"
  shows "\<not> sublist v (fold scrub_entry entries s)"
  using assms(2)
proof (induction entries arbitrary: s)
  case (Cons x xs)
  have "\<not> sublist v (scrub_entry x s) \<or> (\<exists>y \<in> set xs. shows_value y v)"
    using Cons.prems scrub_entry_keeps [OF assms(1), of s x] scrub_entry_hides [OF assms(1), of x s] by auto
  from Cons.IH [OF this] show ?case by simp
qed simp



text \<open>
  The message is trimmed before it is scrubbed, so a value that ends in a newline and ends the message is printed
  but for that newline. And a value that is part of a longer one breaks it up, and the rest of the longer one is printed.
\<close>

lemma scrub_misses_trimmed_value:
  "scrub (\<lambda>_. Inr [(''password'', b64_encode (''hunter2'' @ [NL]))]) (''conflict near hunter2'' @ [NL]) [] = ''conflict near hunter2''"
  by code_simp

lemma scrub_breaks_longer_value:
  "scrub (\<lambda>_. Inr [(''user'', b64_encode ''db''), (''url'', b64_encode ''db:s3cret'')]) ''bad db:s3cret'' [] =
     ''bad [value withheld]:s3cret''"
  by code_simp

end
