(* ===== verification/Generation.thy ===== *)
theory Generation
  imports Files
begin

section \<open>pgcluster: the Archive Generation and the recovery overlay\<close>

text \<open>
  The repository names one Archive Generation, the \<open>serverName\<close> of \<open>pg-cluster.yaml\<close>; the recovery overlay
  \<open>recover.json\<close> must read that generation through the read-only source store and archive to the next one.
  \<open>check_overlay\<close> proves it, and \<open>bump\<close> moves both files one generation on. YAML and JSON decoding are the
  parameter \<open>pg_lib\<close>. A generation is a Go \<open>int\<close>, 64 bits.
\<close>

type_synonym generation = int

definition cluster_name :: string where "cluster_name = ''tosak-pg-cluster''"
definition archive_store :: string where "archive_store = ''tosak-pg-backups''"
definition source_store :: string where "source_store = ''tosak-pg-backups-source''"
definition cluster_file :: path where "cluster_file = ''core/cnpg/cluster/fresh/pg-cluster.yaml''"
definition recover_patch :: path where "recover_patch = ''core/cnpg/cluster/recover/recover.json''"

definition max_int64 :: int where "max_int64 = 9223372036854775807"

definition int_string :: "int \<Rightarrow> string" where
  "int_string n = (if n < 0 then CHR ''-'' # string_of_nat (nat (- n)) else string_of_nat (nat n))"

datatype pg_error =
    NotGenerationName string
  | OutOfRange string
  | PgRead path string
  | PgWrite path string
  | PgYaml string
  | WantOnePlugin
  | ArchivesTo string
  | PgJson string
  | TestsName string generation
  | ReplacesName string generation
  | RecoverySource string
  | WantOneExternal
  | ExternalNames string string
  | ReadsThrough string
  | NeedsOp string
  | WantOneLine string
  | BumpUnchecked "pg_error list"

definition parse_generation :: "string \<Rightarrow> pg_error + generation" where
  "parse_generation s =
     (case cut_prefix (cluster_name @ ''-g'') s of None \<Rightarrow> Inl (NotGenerationName s)
      | Some d \<Rightarrow>
          if d = [] \<or> hd d = CHR ''0'' \<or> \<not> list_all is_digit d then Inl (NotGenerationName s)
          else if int (nat_of_digits d) > max_int64 then Inl (OutOfRange d)
          else Inr (int (nat_of_digits d)))"

definition server_name :: "generation \<Rightarrow> string" where
  "server_name g = cluster_name @ ''-g'' @ int_string g"

definition gen_prefix :: "generation \<Rightarrow> string" where
  "gen_prefix g = server_name g @ ''/''"

definition next_gen :: "generation \<Rightarrow> generation" where
  "next_gen g = (if g = max_int64 then - max_int64 - 1 else g + 1)"

subsection \<open>The two files\<close>

record cluster_doc =
  cd_instances :: int
  cd_plugins :: "(string \<rightharpoonup> string) list"

record patch_op =
  po_op :: string
  po_path :: string
  po_value :: string

record external =
  ex_name :: string
  ex_parameters :: "string \<rightharpoonup> string"

record pg_lib =
  pg_cluster :: "string \<Rightarrow> string + cluster_doc"
  pg_ops :: "string \<Rightarrow> string + patch_op list"
  pg_str :: "string \<Rightarrow> string"
  pg_source :: "string \<Rightarrow> string + string"
  pg_externals :: "string \<Rightarrow> string + external list"

definition param :: "(string \<rightharpoonup> string) \<Rightarrow> string \<Rightarrow> string" where
  "param m k = (case m k of Some v \<Rightarrow> v | None \<Rightarrow> [])"

text \<open>\<open>Current\<close> of the cluster file's text.\<close>

definition current_gen :: "pg_lib \<Rightarrow> string \<Rightarrow> pg_error + generation" where
  "current_gen lib text' =
     (case pg_cluster lib text' of Inl e \<Rightarrow> Inl (PgYaml e)
      | Inr c \<Rightarrow> (case cd_plugins c of
          [p] \<Rightarrow>
            if param p ''barmanObjectName'' \<noteq> archive_store then Inl (ArchivesTo (param p ''barmanObjectName''))
            else parse_generation (param p ''serverName'')
        | _ \<Rightarrow> Inl WantOnePlugin))"

definition instances :: "pg_lib \<Rightarrow> string \<Rightarrow> pg_error + int" where
  "instances lib text' =
     (case pg_cluster lib text' of Inl e \<Rightarrow> Inl (PgYaml e) | Inr c \<Rightarrow> Inr (cd_instances c))"

definition server_name_path :: string where
  "server_name_path = ''/spec/plugins/0/parameters/serverName''"

record overlay_seen =
  ov_tested :: bool
  ov_replaced :: bool
  ov_source :: bool
  ov_external :: bool
  ov_errs :: "pg_error list"

definition fail_if :: "bool \<Rightarrow> pg_error \<Rightarrow> overlay_seen \<Rightarrow> overlay_seen" where
  "fail_if b e s = (if b then s\<lparr>ov_errs := ov_errs s @ [e]\<rparr> else s)"

definition check_external :: "pg_lib \<Rightarrow> generation \<Rightarrow> string \<Rightarrow> overlay_seen \<Rightarrow> overlay_seen" where
  "check_external lib g raw s =
     (case pg_externals lib raw of
        Inr [e] \<Rightarrow>
          (let name = param (ex_parameters e) ''serverName''; store = param (ex_parameters e) ''barmanObjectName'' in
           fail_if (store \<noteq> source_store) (ReadsThrough store)
             (fail_if (ex_name e \<noteq> server_name g \<or> name \<noteq> server_name g) (ExternalNames (ex_name e) name) s))
      | _ \<Rightarrow> fail_if True WantOneExternal s)"

definition check_op :: "pg_lib \<Rightarrow> generation \<Rightarrow> patch_op \<Rightarrow> overlay_seen \<Rightarrow> overlay_seen" where
  "check_op lib g op s =
     (let v = pg_str lib (po_value op) in
      if po_op op = ''test'' \<and> po_path op = server_name_path
      then fail_if (v \<noteq> server_name g) (TestsName v g) (s\<lparr>ov_tested := True\<rparr>)
      else if po_op op = ''replace'' \<and> po_path op = server_name_path
      then fail_if (v \<noteq> server_name (next_gen g)) (ReplacesName v (next_gen g)) (s\<lparr>ov_replaced := True\<rparr>)
      else if po_op op = ''add'' \<and> po_path op = ''/spec/bootstrap/recovery''
      then (case pg_source lib (po_value op) of
          Inl _ \<Rightarrow> fail_if True (RecoverySource []) (s\<lparr>ov_source := True\<rparr>)
        | Inr src \<Rightarrow> fail_if (src \<noteq> server_name g) (RecoverySource src) (s\<lparr>ov_source := True\<rparr>))
      else if po_op op = ''add'' \<and> po_path op = ''/spec/externalClusters''
      then check_external lib g (po_value op) (s\<lparr>ov_external := True\<rparr>)
      else s)"

definition check_ops :: "pg_lib \<Rightarrow> generation \<Rightarrow> patch_op list \<Rightarrow> pg_error list" where
  "check_ops lib g ops =
     (let s = fold (check_op lib g) ops
        \<lparr>ov_tested = False, ov_replaced = False, ov_source = False, ov_external = False, ov_errs = []\<rparr> in
      ov_errs s @ concat (map (\<lambda>(ok, what). if ok then [] else [NeedsOp what])
        [(ov_tested s, ''a test of serverName''), (ov_replaced s, ''a replace of serverName''),
         (ov_source s, ''bootstrap.recovery''), (ov_external s, ''externalClusters'')]))"

text \<open>\<open>CheckOverlay\<close> of the two texts.\<close>

definition check_overlay :: "pg_lib \<Rightarrow> string \<Rightarrow> string \<Rightarrow> pg_error list" where
  "check_overlay lib cluster_text patch_text =
     (case current_gen lib cluster_text of Inl e \<Rightarrow> [e]
      | Inr g \<Rightarrow> (case pg_ops lib patch_text of Inl e \<Rightarrow> [PgJson e] | Inr ops \<Rightarrow> check_ops lib g ops))"

subsection \<open>Bump\<close>

definition quoted :: "generation \<Rightarrow> string" where
  "quoted g = CHR ''\"'' # server_name g @ [CHR ''\"'']"

definition name_line :: "generation \<Rightarrow> string" where
  "name_line g = ''serverName: '' @ server_name g @ [NL]"

definition bump_cluster :: "generation \<Rightarrow> string \<Rightarrow> pg_error + string" where
  "bump_cluster g b =
     (if count_sub (name_line g) 0 b \<noteq> 1 then Inl (WantOneLine (name_line g))
      else Inr (replace_first (name_line g) (name_line (next_gen g)) b))"

definition bump_patch :: "generation \<Rightarrow> string \<Rightarrow> string" where
  "bump_patch g p =
     replace_all (quoted g) (quoted (next_gen g)) 0
       (replace_all (quoted (next_gen g)) (quoted (next_gen (next_gen g))) 0 p)"

definition root_path :: "path \<Rightarrow> path \<Rightarrow> path" where
  "root_path root f = root @ ''/'' @ f"

definition read_file :: "'w fs \<Rightarrow> path \<Rightarrow> ('w, 'o, pg_error, string) io" where
  "read_file fs p = io_map_err (PgRead p) (io_call (fs_read fs p))"

definition write_file :: "'w fs \<Rightarrow> path \<Rightarrow> string \<Rightarrow> ('w, 'o, pg_error, unit) io" where
  "write_file fs p c = io_map_err (PgWrite p) (io_call (fs_write fs p c))"

definition io_either :: "'e + 'a \<Rightarrow> ('w, 'o, 'e, 'a) io" where
  "io_either r = (case r of Inl e \<Rightarrow> io_fail e | Inr a \<Rightarrow> io_return a)"

text \<open>\<open>CheckOverlay\<close> reading the files under \<open>root\<close>; the cluster file that cannot be read is its one error.\<close>

definition overlay_errors :: "pg_lib \<Rightarrow> 'w fs \<Rightarrow> path \<Rightarrow> ('w, 'o, pg_error, pg_error list) io" where
  "overlay_errors lib fs root = (\<lambda>s.
     case io_bind (read_file fs (root_path root cluster_file)) (\<lambda>c.
          io_bind (io_either (current_gen lib c)) (\<lambda>_.
          io_bind (read_file fs (root_path root recover_patch)) (\<lambda>p.
            io_return (check_overlay lib c p)))) s of
       (Inl e, s') \<Rightarrow> (Inr [e], s') | (Inr es, s') \<Rightarrow> (Inr es, s'))"

text \<open>\<open>Bump\<close>, from the cluster file's text on: both texts are edited before either is written.\<close>

definition bump_edit :: "pg_lib \<Rightarrow> 'w fs \<Rightarrow> path \<Rightarrow> generation \<Rightarrow> string \<Rightarrow> ('w, 'o, pg_error, generation) io" where
  "bump_edit lib fs root g b =
     (let cf = root_path root cluster_file; rf = root_path root recover_patch in
      io_bind (io_either (bump_cluster g b)) (\<lambda>b'.
      io_bind (read_file fs rf) (\<lambda>p.
      io_bind (write_file fs cf b') (\<lambda>_.
      io_bind (write_file fs rf (bump_patch g p)) (\<lambda>_.
      io_bind (overlay_errors lib fs root) (\<lambda>errs.
        if errs \<noteq> [] then io_fail (BumpUnchecked errs) else io_return (next_gen g)))))))"

definition bump :: "pg_lib \<Rightarrow> 'w fs \<Rightarrow> path \<Rightarrow> ('w, 'o, pg_error, generation) io" where
  "bump lib fs root =
     (let cf = root_path root cluster_file in
      io_bind (read_file fs cf) (\<lambda>c.
      io_bind (io_either (current_gen lib c)) (\<lambda>g.
      io_bind (read_file fs cf) (\<lambda>b. bump_edit lib fs root g b))))"

subsection \<open>Names round trip\<close>

lemma server_name_pos: "0 < g \<Longrightarrow> server_name g = cluster_name @ ''-g'' @ string_of_nat (nat g)"
  by (simp add: server_name_def int_string_def)

lemma parse_server_name:
  assumes "0 < g" and "g \<le> max_int64"
  shows "parse_generation (server_name g) = Inr g"
proof -
  have "cut_prefix (cluster_name @ ''-g'') (server_name g) = Some (string_of_nat (nat g))"
    using assms by (simp add: cut_prefix_Some server_name_pos)
  moreover have "hd (string_of_nat (nat g)) \<noteq> CHR ''0''" using assms by (intro hd_string_of_nat) simp
  moreover have "list_all is_digit (string_of_nat (nat g))" using string_of_nat_digits by (simp add: list_all_iff)
  ultimately show ?thesis using assms by (simp add: parse_generation_def)
qed

lemma parse_generation_Inr:
  assumes "parse_generation s = Inr g"
  shows "s = server_name g \<and> 0 < g \<and> g \<le> max_int64"
proof -
  from assms obtain d where d: "s = (cluster_name @ ''-g'') @ d" "d \<noteq> []" "hd d \<noteq> CHR ''0''" "\<forall>c \<in> set d. is_digit c"
      "g = int (nat_of_digits d)" "g \<le> max_int64"
    by (auto simp: parse_generation_def list_all_iff cut_prefix_Some split: option.splits if_splits)
  have c: "string_of_nat (nat_of_digits d) = d" by (rule string_of_nat_of_digits [OF d(2,3,4)])
  have "nat_of_digits d \<noteq> 0"
  proof
    assume "nat_of_digits d = 0"
    with c have "d = string_of_nat 0" by simp
    then show False using d(3) by (simp add: string_of_nat.simps)
  qed
  then show ?thesis using d c by (simp add: server_name_pos)
qed

lemma server_name_inj: "0 < g \<Longrightarrow> 0 < h \<Longrightarrow> server_name g = server_name h \<longleftrightarrow> g = h"
  by (auto simp: server_name_pos nat_eq_iff)

subsection \<open>The overlay check is exact\<close>

text \<open>What one op must say, and which op it is.\<close>

definition is_test :: "patch_op \<Rightarrow> bool" where
  "is_test op \<longleftrightarrow> po_op op = ''test'' \<and> po_path op = server_name_path"
definition is_replace :: "patch_op \<Rightarrow> bool" where
  "is_replace op \<longleftrightarrow> po_op op = ''replace'' \<and> po_path op = server_name_path"
definition is_recovery :: "patch_op \<Rightarrow> bool" where
  "is_recovery op \<longleftrightarrow> po_op op = ''add'' \<and> po_path op = ''/spec/bootstrap/recovery''"
definition is_external :: "patch_op \<Rightarrow> bool" where
  "is_external op \<longleftrightarrow> po_op op = ''add'' \<and> po_path op = ''/spec/externalClusters''"

lemmas op_kinds = is_test_def is_replace_def is_recovery_def is_external_def

definition external_ok :: "pg_lib \<Rightarrow> generation \<Rightarrow> string \<Rightarrow> bool" where
  "external_ok lib g raw \<longleftrightarrow> (\<exists>e. pg_externals lib raw = Inr [e] \<and> ex_name e = server_name g \<and>
     param (ex_parameters e) ''serverName'' = server_name g \<and> param (ex_parameters e) ''barmanObjectName'' = source_store)"

definition op_ok :: "pg_lib \<Rightarrow> generation \<Rightarrow> patch_op \<Rightarrow> bool" where
  "op_ok lib g op \<longleftrightarrow>
     (is_test op \<longrightarrow> pg_str lib (po_value op) = server_name g) \<and>
     (is_replace op \<longrightarrow> pg_str lib (po_value op) = server_name (next_gen g)) \<and>
     (is_recovery op \<longrightarrow> pg_source lib (po_value op) = Inr (server_name g)) \<and>
     (is_external op \<longrightarrow> external_ok lib g (po_value op))"

definition overlay_agrees :: "pg_lib \<Rightarrow> generation \<Rightarrow> patch_op list \<Rightarrow> bool" where
  "overlay_agrees lib g ops \<longleftrightarrow> list_all (op_ok lib g) ops \<and>
     list_ex is_test ops \<and> list_ex is_replace ops \<and> list_ex is_recovery ops \<and> list_ex is_external ops"

lemma fail_if_simps [simp]:
  "ov_tested (fail_if b e s) = ov_tested s" "ov_replaced (fail_if b e s) = ov_replaced s"
  "ov_source (fail_if b e s) = ov_source s" "ov_external (fail_if b e s) = ov_external s"
  "ov_errs (fail_if b e s) = [] \<longleftrightarrow> \<not> b \<and> ov_errs s = []"
  by (simp_all add: fail_if_def)

lemma check_external_simps [simp]:
  "ov_tested (check_external lib g raw s) = ov_tested s" "ov_replaced (check_external lib g raw s) = ov_replaced s"
  "ov_source (check_external lib g raw s) = ov_source s" "ov_external (check_external lib g raw s) = ov_external s"
  "ov_errs (check_external lib g raw s) = [] \<longleftrightarrow> external_ok lib g raw \<and> ov_errs s = []"
  by (auto simp: check_external_def external_ok_def Let_def split: sum.split list.split)

lemma check_op_simps:
  "ov_tested (check_op lib g op s) \<longleftrightarrow> is_test op \<or> ov_tested s"
  "ov_replaced (check_op lib g op s) \<longleftrightarrow> is_replace op \<or> ov_replaced s"
  "ov_source (check_op lib g op s) \<longleftrightarrow> is_recovery op \<or> ov_source s"
  "ov_external (check_op lib g op s) \<longleftrightarrow> is_external op \<or> ov_external s"
  "ov_errs (check_op lib g op s) = [] \<longleftrightarrow> op_ok lib g op \<and> ov_errs s = []"
  by (auto simp: check_op_def op_kinds op_ok_def Let_def server_name_path_def split: sum.split)

lemma check_op_fold:
  "ov_tested (fold (check_op lib g) ops s) \<longleftrightarrow> list_ex is_test ops \<or> ov_tested s"
  "ov_replaced (fold (check_op lib g) ops s) \<longleftrightarrow> list_ex is_replace ops \<or> ov_replaced s"
  "ov_source (fold (check_op lib g) ops s) \<longleftrightarrow> list_ex is_recovery ops \<or> ov_source s"
  "ov_external (fold (check_op lib g) ops s) \<longleftrightarrow> list_ex is_external ops \<or> ov_external s"
  "ov_errs (fold (check_op lib g) ops s) = [] \<longleftrightarrow> list_all (op_ok lib g) ops \<and> ov_errs s = []"
  by (induction ops arbitrary: s) (auto simp: check_op_simps)

lemma check_ops_exact: "check_ops lib g ops = [] \<longleftrightarrow> overlay_agrees lib g ops"
  by (auto simp: check_ops_def Let_def check_op_fold overlay_agrees_def)

lemma overlay_exact:
  "check_overlay lib c p = [] \<longleftrightarrow>
     (\<exists>g ops. current_gen lib c = Inr g \<and> pg_ops lib p = Inr ops \<and> overlay_agrees lib g ops)"
  "parse_generation name = Inr g \<longleftrightarrow> name = server_name g \<and> 0 < g \<and> g \<le> max_int64"
proof -
  show "check_overlay lib c p = [] \<longleftrightarrow>
      (\<exists>g ops. current_gen lib c = Inr g \<and> pg_ops lib p = Inr ops \<and> overlay_agrees lib g ops)"
    by (auto simp: check_overlay_def check_ops_exact split: sum.split)
  show "parse_generation name = Inr g \<longleftrightarrow> name = server_name g \<and> 0 < g \<and> g \<le> max_int64"
    using parse_generation_Inr parse_server_name by blast
qed

text \<open>
  The overlay check is exact. It reports nothing precisely when the cluster file names a generation \<open>g\<close> and
  the recovery overlay tests for \<open>g\<close>, archives to the next one, recovers from \<open>g\<close> and reads it through the
  read-only source store: all four, each at least once, and every such op saying so. The generation is the one
  number whose name is the file's \<open>serverName\<close>.
\<close>

theorem overlay_check_exact:
  "(check_overlay lib c p = [] \<longleftrightarrow>
     (\<exists>g ops. current_gen lib c = Inr g \<and> pg_ops lib p = Inr ops \<and> overlay_agrees lib g ops)) \<and>
   (parse_generation name = Inr g \<longleftrightarrow> name = server_name g \<and> 0 < g \<and> g \<le> max_int64)"
  by (intro conjI overlay_exact)

subsection \<open>What a bump leaves behind\<close>

lemma wp_either [wp_simps]:
  "wp (io_either r) Q E w out \<longleftrightarrow> (case r of Inl e \<Rightarrow> E e w out | Inr a \<Rightarrow> Q a w out)"
  by (simp add: io_either_def wp_simps split: sum.split)

lemma wp_read_file:
  assumes "file_laws fs view obs"
    and "\<And>c w'. view w' = view w \<Longrightarrow> obs w' = obs w \<Longrightarrow> view w p = Some c \<Longrightarrow> Q c w' out"
    and "\<And>e w'. view w' = view w \<Longrightarrow> obs w' = obs w \<Longrightarrow> E (PgRead p e) w' out"
  shows "wp (read_file fs p) Q E w out"
  unfolding read_file_def wp_simps
proof (intro conjI allI impI)
  fix c w' assume "fs_read fs p w = (Inr c, w')"
  from file_read [OF assms(1) this] show "Q c w' out" by (intro assms(2)) simp_all
next
  fix e w' assume "fs_read fs p w = (Inl e, w')"
  from file_read [OF assms(1) this] show "E (PgRead p e) w' out" by (intro assms(3)) simp_all
qed

lemma wp_write_file:
  assumes "file_laws fs view obs"
    and "\<And>w'. \<forall>q. q \<noteq> p \<longrightarrow> view w' q = view w q \<Longrightarrow> obs w' = obs w \<Longrightarrow> view w' p = Some c \<Longrightarrow> Q () w' out"
    and "\<And>e w'. \<forall>q. q \<noteq> p \<longrightarrow> view w' q = view w q \<Longrightarrow> obs w' = obs w \<Longrightarrow> E (PgWrite p e) w' out"
  shows "wp (write_file fs p c) Q E w out"
  unfolding write_file_def wp_simps
proof (intro conjI allI impI)
  fix u w' assume "fs_write fs p c w = (Inr u, w')"
  from file_write [OF assms(1) this] show "Q u w' out" using assms(2) by (cases u) simp
next
  fix e w' assume "fs_write fs p c w = (Inl e, w')"
  from file_write [OF assms(1) this] show "E (PgWrite p e) w' out" by (intro assms(3)) simp_all
qed

lemma wp_overlay_errors:
  assumes "file_laws fs view obs"
    and "\<And>es w'. view w' = view w \<Longrightarrow> obs w' = obs w \<Longrightarrow>
      (es = [] \<Longrightarrow> \<exists>c p. view w (root_path root cluster_file) = Some c \<and> view w (root_path root recover_patch) = Some p \<and>
        check_overlay lib c p = []) \<Longrightarrow> Q es w' out"
  shows "wp (overlay_errors lib fs root) Q E w out"
proof -
  define R where
    "R = (\<lambda>(es :: pg_error list) w' out'. out' = out \<and> view w' = view w \<and> obs w' = obs w \<and> (es = [] \<longrightarrow> (\<exists>c p.
       view w (root_path root cluster_file) = Some c \<and> view w (root_path root recover_patch) = Some p \<and>
       check_overlay lib c p = [])))"
  let ?m = "io_bind (read_file fs (root_path root cluster_file)) (\<lambda>c. io_bind (io_either (current_gen lib c)) (\<lambda>_.
      io_bind (read_file fs (root_path root recover_patch)) (\<lambda>p. io_return (check_overlay lib c p))))"
  have "wp ?m R (\<lambda>e. R [e]) w out"
    unfolding wp_simps
    by (intro wp_read_file [OF assms(1)])
      (auto simp: R_def wp_simps split: sum.split intro!: wp_read_file [OF assms(1)])
  then have "wp (overlay_errors lib fs root) R E w out"
    by (auto simp: wp_def overlay_errors_def split: prod.splits sum.splits)
  then show ?thesis
    unfolding wp_def R_def using assms(2) by (auto split: prod.splits sum.splits)
qed

lemma file_paths_differ: "root_path root cluster_file \<noteq> root_path root recover_patch"
  by (simp add: root_path_def cluster_file_def recover_patch_def)

text \<open>What a run of \<open>bump\<close> from files \<open>v\<close> may return, and the files after it.\<close>

definition bumped :: "pg_lib \<Rightarrow> path \<Rightarrow> (path \<Rightarrow> string option) \<Rightarrow> generation \<Rightarrow> (path \<Rightarrow> string option) \<Rightarrow> bool" where
  "bumped lib root v n v' \<longleftrightarrow> (\<exists>c p g.
     v (root_path root cluster_file) = Some c \<and> v (root_path root recover_patch) = Some p \<and>
     current_gen lib c = Inr g \<and> n = next_gen g \<and> count_sub (name_line g) 0 c = 1 \<and>
     v' = v(root_path root cluster_file \<mapsto> replace_first (name_line g) (name_line n) c,
            root_path root recover_patch \<mapsto> bump_patch g p) \<and>
     check_overlay lib (replace_first (name_line g) (name_line n) c) (bump_patch g p) = [])"

fun before_writes :: "pg_error \<Rightarrow> bool" where
  "before_writes (PgWrite p e) = False"
| "before_writes (BumpUnchecked es) = False"
| "before_writes _ = True"

lemma before_writes_pure:
  "current_gen lib c = Inl e \<Longrightarrow> before_writes e" "bump_cluster g c = Inl e \<Longrightarrow> before_writes e"
  by (auto simp: current_gen_def parse_generation_def bump_cluster_def
      split: sum.splits list.splits if_splits option.splits)

lemma bump_result:
  assumes laws: "file_laws fs view obs"
    and run: "bump lib fs root (w, out) = (r, w', out')"
  shows "obs w' = obs w"
    and "case r of Inr n \<Rightarrow> bumped lib root (view w) n (view w')
      | Inl e \<Rightarrow> (before_writes e \<longrightarrow> view w' = view w) \<and>
          (\<forall>q. q \<noteq> root_path root cluster_file \<longrightarrow> q \<noteq> root_path root recover_patch \<longrightarrow> view w' q = view w q)"
proof -
  let ?cf = "root_path root cluster_file" and ?rf = "root_path root recover_patch"
  define E where "E e w' (out' :: 'c list) \<longleftrightarrow> obs w' = obs w \<and> (before_writes e \<longrightarrow> view w' = view w) \<and>
    (\<forall>q. q \<noteq> ?cf \<longrightarrow> q \<noteq> ?rf \<longrightarrow> view w' q = view w q)" for e w' out'
  define Q where "Q n w' (out' :: 'c list) \<longleftrightarrow> obs w' = obs w \<and> bumped lib root (view w) n (view w')" for n w' out'
  have edit: "wp (bump_edit lib fs root g c) Q E w1 out"
    if w1: "view w1 = view w" "obs w1 = obs w" and c: "view w ?cf = Some c" "current_gen lib c = Inr g" for w1 c g
  proof (cases "bump_cluster g c")
    case (Inr b')
    then have b': "b' = replace_first (name_line g) (name_line (next_gen g)) c" "count_sub (name_line g) 0 c = 1"
      by (auto simp: bump_cluster_def split: if_splits)
    show ?thesis
      unfolding bump_edit_def Let_def wp_bind wp_either Inr sum.case
    proof (intro wp_read_file [OF laws] wp_write_file [OF laws] wp_overlay_errors [OF laws], goal_cases)
      case (1 p w2 w3 w4 es w5)
      then show ?case using w1 c b' file_paths_differ [of root]
        by (auto simp: E_def Q_def bumped_def wp_simps intro!: ext)
    qed (use w1 in \<open>auto simp: E_def\<close>)
  qed (use w1 before_writes_pure in \<open>auto simp: bump_edit_def Let_def wp_bind wp_either E_def\<close>)
  have "wp (bump lib fs root) Q E w out"
    unfolding bump_def Let_def wp_bind wp_either
  proof (intro wp_read_file [OF laws], goal_cases)
    case (1 c w1)
    then show ?case
    proof (cases "current_gen lib c")
      case (Inr g)
      with 1 show ?thesis by (auto simp: E_def intro!: wp_read_file [OF laws] edit)
    qed (use before_writes_pure in \<open>auto simp: E_def\<close>)
  qed (auto simp: E_def)
  with run show "obs w' = obs w" and "case r of Inr n \<Rightarrow> bumped lib root (view w) n (view w')
      | Inl e \<Rightarrow> (before_writes e \<longrightarrow> view w' = view w) \<and>
          (\<forall>q. q \<noteq> ?cf \<longrightarrow> q \<noteq> ?rf \<longrightarrow> view w' q = view w q)"
    by (auto simp: wp_def Q_def E_def split: sum.splits)
qed

text \<open>
  A bump moves exactly one generation on. When it returns \<open>n\<close>, \<open>n\<close> follows the generation the cluster file
  named, that file has its one \<open>serverName\<close> line moved to \<open>n\<close>, the overlay its quoted names, no other file and
  nothing else has changed, and the files pass the overlay check. A bump that stops before its first write
  has changed nothing, and one that fails later has touched no third file.
\<close>

theorem bump_moves_one_generation:
  assumes laws: "file_laws fs view obs"
    and run: "bump lib fs root (w, out) = (r, w', out')"
  shows "obs w' = obs w \<and> (case r of Inr n \<Rightarrow> bumped lib root (view w) n (view w')
      | Inl e \<Rightarrow> (before_writes e \<longrightarrow> view w' = view w) \<and>
          (\<forall>q. q \<noteq> root_path root cluster_file \<longrightarrow> q \<noteq> root_path root recover_patch \<longrightarrow> view w' q = view w q))"
  using bump_result [OF assms] by simp

text \<open>A toy decoder, enough to run a bump from g1 to g2.\<close>

definition toy_pg_lib :: pg_lib where
  "toy_pg_lib = \<lparr>pg_cluster = (\<lambda>t. Inr \<lparr>cd_instances = 3, cd_plugins =
       [[''barmanObjectName'' \<mapsto> archive_store, ''serverName'' \<mapsto> butlast (drop 12 t)]]\<rparr>),
     pg_ops = (\<lambda>t. case split_on CHR ''\"'' t of
         [x, a, y, b, z] \<Rightarrow> Inr [\<lparr>po_op = ''test'', po_path = server_name_path, po_value = a\<rparr>,
           \<lparr>po_op = ''replace'', po_path = server_name_path, po_value = b\<rparr>,
           \<lparr>po_op = ''add'', po_path = ''/spec/bootstrap/recovery'', po_value = a\<rparr>,
           \<lparr>po_op = ''add'', po_path = ''/spec/externalClusters'', po_value = a\<rparr>]
       | _ \<Rightarrow> Inl ''syntax''),
     pg_str = (\<lambda>v. v), pg_source = Inr,
     pg_externals = (\<lambda>v. Inr [\<lparr>ex_name = v, ex_parameters =
       [''serverName'' \<mapsto> v, ''barmanObjectName'' \<mapsto> source_store]\<rparr>])\<rparr>"

definition toy_repo :: "path \<rightharpoonup> string" where
  "toy_repo = [root_path ''r'' cluster_file \<mapsto> name_line 1, root_path ''r'' recover_patch \<mapsto> quoted 1 @ quoted 2]"

theorem bump_moves_one_generation_witness:
  "\<exists>w' out'. bump toy_pg_lib mem_fs ''r'' (toy_repo, []) = (Inr 2, w', out' :: unit list) \<and>
     bumped toy_pg_lib ''r'' toy_repo 2 w'"
proof -
  obtain r w' and out' :: "unit list" where run: "bump toy_pg_lib mem_fs ''r'' (toy_repo, []) = (r, w', out')"
    by (metis surj_pair)
  have "fst (bump toy_pg_lib mem_fs ''r'' (toy_repo, [] :: unit list)) = Inr 2"
    by code_simp
  with run have r: "r = Inr 2" by simp
  with bump_moves_one_generation [OF mem_fs_laws run] run show ?thesis
    by (intro exI conjI) auto
qed

end
