(* ===== verification/Wal.thy ===== *)
theory Wal
  imports Exec Generation "HOL-Library.Word"
begin

section \<open>db/wal and r2: the WAL of a generation and what locks it\<close>

text \<open>
  An object under \<open>wals/\<close> is a segment, a timeline history or neither (\<open>parse_wal\<close>); \<open>wals\<close> is what one
  generation archived. A bucket is the parameter \<open>bucket\<close>, its lock rules a list of \<open>lock_rule\<close>. A timeline has
  32 bits; a lock's age is a \<open>time.Duration\<close>, 64 bits of nanoseconds.
\<close>

record wal_file =
  wf_key :: string
  wf_timeline :: "32 word"
  wf_pos :: string
  wf_history :: bool
  wf_partial :: bool

definition no_wal :: wal_file where
  "no_wal = \<lparr>wf_key = [], wf_timeline = 0, wf_pos = [], wf_history = False, wf_partial = False\<rparr>"

definition is_hex :: "string \<Rightarrow> bool" where
  "is_hex s \<longleftrightarrow> s \<noteq> [] \<and> list_all (\<lambda>c. c \<in> set ''0123456789ABCDEFabcdef'') s"

definition hex_digit_value :: "char \<Rightarrow> nat" where
  "hex_digit_value c =
     (let n = of_char c :: nat in if n \<ge> 97 then n - 87 else if n \<ge> 65 then n - 55 else n - 48)"

definition hex_word :: "string \<Rightarrow> 32 word" where
  "hex_word s = foldl (\<lambda>w c. w * 16 + of_nat (hex_digit_value c)) 0 s"

definition upper_char :: "char \<Rightarrow> char" where
  "upper_char c = (let n = of_char c :: nat in if 97 \<le> n \<and> n \<le> 122 then char_of (n - 32) else c)"

definition parse_wal :: "string \<Rightarrow> wal_file option" where
  "parse_wal key =
     (let (name, rest) = (case cut_on CHR ''.'' (path_base key) of Some nr \<Rightarrow> nr | None \<Rightarrow> (path_base key, [])) in
      if length name = 8 \<and> is_hex name \<and> prefix ''history'' rest
      then Some \<lparr>wf_key = key, wf_timeline = hex_word name, wf_pos = [], wf_history = True, wf_partial = False\<rparr>
      else if length name = 24 \<and> is_hex name \<and> \<not> sublist ''backup'' rest
      then Some \<lparr>wf_key = key, wf_timeline = hex_word (take 8 name), wf_pos = map upper_char (drop 8 name),
             wf_history = False, wf_partial = sublist ''partial'' rest\<rparr>
      else None)"

record wals =
  wl_segments :: "wal_file list"
  wl_histories :: "32 word list"

text \<open>\<open>readWALs\<close> after the listing.\<close>

definition sort_wals :: "string list \<Rightarrow> wals" where
  "sort_wals keys =
     (let fs = filter (\<lambda>f. \<not> wf_partial f) (List.map_filter parse_wal keys) in
      \<lparr>wl_segments = filter (\<lambda>f. \<not> wf_history f) fs, wl_histories = map wf_timeline (filter wf_history fs)\<rparr>)"

definition newest_step :: "wal_file \<Rightarrow> wal_file \<Rightarrow> wal_file" where
  "newest_step s n = (if wf_pos n < wf_pos s then s else n)"

definition newest :: "wals \<Rightarrow> wal_file option" where
  "newest w = (let n = fold newest_step (wl_segments w) no_wal in if wf_pos n \<noteq> [] then Some n else None)"

definition latest_timeline :: "wals \<Rightarrow> 32 word" where
  "latest_timeline w = fold (\<lambda>h t. max t h) (wl_histories w) 1"

text \<open>0 when there is none.\<close>

definition lowest_timeline :: "wals \<Rightarrow> 32 word" where
  "lowest_timeline w = fold (\<lambda>s t. if t = 0 \<or> wf_timeline s < t then wf_timeline s else t) (wl_segments w) 0"

definition first_on :: "wals \<Rightarrow> 32 word \<Rightarrow> wal_file option" where
  "first_on w t =
     (let f = fold (\<lambda>s f. if wf_timeline s = t \<and> (wf_pos f = [] \<or> wf_pos s < wf_pos f) then s else f)
        (wl_segments w) no_wal in
      if wf_pos f \<noteq> [] then Some f else None)"

subsection \<open>Buckets\<close>

record object =
  ob_key :: string
  ob_size :: int

record 'w bucket =
  bk_name :: string
  bk_prefixes :: "('w, string, string list) call"
  bk_list :: "string \<Rightarrow> ('w, string, object list) call"
  bk_delete :: "string list \<Rightarrow> ('w, string, unit) call"

definition read_wals :: "'w bucket \<Rightarrow> generation \<Rightarrow> ('w, 'o, string, wals) io" where
  "read_wals b g = io_bind (io_call (bk_list b (gen_prefix g @ ''wals/''))) (\<lambda>objs.
     io_return (sort_wals (map ob_key objs)))"

definition empty_bucket :: "'w bucket \<Rightarrow> string \<Rightarrow> ('w, 'o, string, nat) io" where
  "empty_bucket b want =
     (if bk_name b \<noteq> want
      then io_fail (''refusing to empty '' @ bk_name b @ '': only '' @ want @ '' may be emptied'')
      else io_bind (io_call (bk_list b [])) (\<lambda>objs.
        if objs = [] then io_return 0
        else io_bind (io_call (bk_delete b (map ob_key objs))) (\<lambda>_.
          io_bind (io_call (bk_list b [])) (\<lambda>after.
            if after \<noteq> []
            then io_fail (bk_name b @ '' still holds '' @ string_of_nat (length after) @ '' object(s) after the delete'')
            else io_return (length objs)))))"

subsection \<open>Locks\<close>

record lock_rule =
  lr_id :: string
  lr_enabled :: bool
  lr_prefix :: string
  lr_type :: string
  lr_max_age :: int

text \<open>\<open>Holds\<close>: the seconds are multiplied out in 64 bits.\<close>

definition holds_for :: "lock_rule \<Rightarrow> string \<Rightarrow> int \<Rightarrow> bool" where
  "holds_for r pre least \<longleftrightarrow> lr_enabled r \<and> prefix (lr_prefix r) pre \<and>
     (lr_type r = ''Indefinite'' \<or> lr_type r = ''Age'' \<and> seconds (lr_max_age r) \<ge> least)"

definition locked :: "lock_rule list \<Rightarrow> string \<Rightarrow> int \<Rightarrow> lock_rule option" where
  "locked rules pre least = find (\<lambda>r. holds_for r pre least) rules"

subsection \<open>The segments of a generation\<close>

text \<open>What \<open>parse_wal\<close> makes of a position: 16 upper-case hex digits, which sort as the number they write.\<close>

definition upper_hex :: "string \<Rightarrow> bool" where
  "upper_hex s \<longleftrightarrow> list_all (\<lambda>c. c \<in> set ''0123456789ABCDEF'') s"

definition position_ok :: "string \<Rightarrow> bool" where
  "position_ok s \<longleftrightarrow> length s = 16 \<and> upper_hex s"

fun hex_nat :: "string \<Rightarrow> nat" where
  "hex_nat [] = 0"
| "hex_nat (c # s) = hex_digit_value c * 16 ^ length s + hex_nat s"

lemma upper_hex_digits:
  "list_all (\<lambda>c. hex_digit_value c < 16 \<and> list_all (\<lambda>d. (c < d) = (hex_digit_value c < hex_digit_value d))
     ''0123456789ABCDEF'') ''0123456789ABCDEF''"
  by code_simp

lemma upper_hex_digit:
  assumes "c \<in> set ''0123456789ABCDEF''" and "d \<in> set ''0123456789ABCDEF''"
  shows "hex_digit_value c < 16" "c < d \<longleftrightarrow> hex_digit_value c < hex_digit_value d"
    "c = d \<longleftrightarrow> hex_digit_value c = hex_digit_value d"
proof -
  show "hex_digit_value c < 16" and lt: "c < d \<longleftrightarrow> hex_digit_value c < hex_digit_value d"
    using upper_hex_digits assms unfolding list_all_iff by blast+
  have "d < c \<longleftrightarrow> hex_digit_value d < hex_digit_value c"
    using upper_hex_digits assms unfolding list_all_iff by blast
  with lt show "c = d \<longleftrightarrow> hex_digit_value c = hex_digit_value d"
    by (metis less_irrefl linorder_neqE)
qed

lemma hex_nat_bound: "upper_hex s \<Longrightarrow> hex_nat s < 16 ^ length s"
proof (induction s)
  case (Cons c s)
  then have "hex_digit_value c \<le> 15" "hex_nat s < 16 ^ length s"
    using upper_hex_digit(1) [of c c] by (auto simp: upper_hex_def)
  then have "hex_digit_value c * 16 ^ length s + hex_nat s < 15 * 16 ^ length s + 16 ^ length s"
    by (intro add_le_less_mono) simp_all
  then show ?case by simp
qed simp

lemma hex_order:
  assumes "length s = length t" and "upper_hex s" and "upper_hex t"
  shows "s < t \<longleftrightarrow> hex_nat s < hex_nat t"
  using assms
proof (induction s t rule: list_induct2)
  case (Cons c s d t)
  let ?n = "16 ^ length s :: nat"
  have cd: "c \<in> set ''0123456789ABCDEF''" "d \<in> set ''0123456789ABCDEF''" and st: "upper_hex s" "upper_hex t"
    using Cons.prems by (auto simp: upper_hex_def)
  have b: "hex_nat s < ?n" "hex_nat t < ?n" using hex_nat_bound [OF st(1)] hex_nat_bound [OF st(2)] Cons.hyps by simp_all
  have gap: "x * ?n + hex_nat a < y * ?n + hex_nat b" if "x < y" "hex_nat a < ?n" for x y :: nat and a b
  proof -
    have "x * ?n + hex_nat a < (x + 1) * ?n" using that(2) by simp
    also have "\<dots> \<le> y * ?n" using that(1) by (intro mult_le_mono1) simp
    finally show ?thesis by simp
  qed
  consider "c < d" | "d < c" | "c = d" by (rule linorder_cases)
  then show ?case
  proof cases
    case 1
    with gap [of "hex_digit_value c" "hex_digit_value d" s t] upper_hex_digit(2) [OF cd] b Cons.hyps show ?thesis by simp
  next
    case 2
    with gap [of "hex_digit_value d" "hex_digit_value c" t s] upper_hex_digit(2) [OF cd(2,1)] b Cons.hyps show ?thesis by auto
  next
    case 3
    then show ?thesis using Cons.IH [OF st] Cons.hyps by simp
  qed
qed simp

lemma upper_hex_upper: "list_all (\<lambda>c. upper_char c \<in> set ''0123456789ABCDEF'') ''0123456789ABCDEFabcdef''"
  by code_simp

lemma parse_wal_position:
  assumes "parse_wal k = Some f" and "\<not> wf_history f"
  shows "position_ok (wf_pos f)" and "wf_key f = k"
proof -
  from assms obtain name rest where f: "f = \<lparr>wf_key = k, wf_timeline = hex_word (take 8 name),
      wf_pos = map upper_char (drop 8 name), wf_history = False, wf_partial = sublist ''partial'' rest\<rparr>"
    "length name = 24" "is_hex name"
    by (auto simp: parse_wal_def Let_def split: prod.splits if_splits)
  then show "wf_key f = k" by simp
  have "upper_char c \<in> set ''0123456789ABCDEF''" if "c \<in> set (drop 8 name)" for c
  proof -
    have "c \<in> set ''0123456789ABCDEFabcdef''" using f(3) in_set_dropD [OF that] unfolding is_hex_def list_all_iff by blast
    with upper_hex_upper show ?thesis unfolding list_all_iff by blast
  qed
  with f show "position_ok (wf_pos f)" by (simp add: position_ok_def upper_hex_def list_all_iff del: set_simps list.set)
qed

definition wals_ok :: "wals \<Rightarrow> bool" where
  "wals_ok w \<longleftrightarrow> list_all (\<lambda>s. position_ok (wf_pos s)) (wl_segments w)"

lemma sort_wals_ok: "wals_ok (sort_wals keys)"
  using parse_wal_position by (auto simp: wals_ok_def sort_wals_def Let_def list_all_iff map_filter_def)

text \<open>A loop that keeps the better of two.\<close>

lemma fold_pick:
  assumes "\<And>x a. step x a = a \<or> step x a = x" and "\<And>x a. R a (step x a)" and "\<And>x a. R x (step x a)"
    and "\<And>a b c. R a b \<Longrightarrow> R b c \<Longrightarrow> R a c" and "\<And>a. R a a"
  shows "(fold step xs a = a \<or> fold step xs a \<in> set xs) \<and> R a (fold step xs a) \<and> (\<forall>x \<in> set xs. R x (fold step xs a))"
proof (induction xs arbitrary: a)
  case (Cons x xs)
  from Cons.IH [of "step x a"] have IH: "fold step xs (step x a) = step x a \<or> fold step xs (step x a) \<in> set xs"
    "R (step x a) (fold step xs (step x a))" "\<forall>y \<in> set xs. R y (fold step xs (step x a))" by blast+
  have "R a (fold step xs (step x a))" "R x (fold step xs (step x a))"
    using IH(2) assms(2,3) by (blast intro: assms(4))+
  with IH(1,3) assms(1) [of x a] show ?case by auto
qed (simp add: assms(5))

lemma newest_fold:
  "(fold newest_step ss n0 = n0 \<or> fold newest_step ss n0 \<in> set ss) \<and> wf_pos n0 \<le> wf_pos (fold newest_step ss n0) \<and>
     (\<forall>s \<in> set ss. wf_pos s \<le> wf_pos (fold newest_step ss n0))"
  by (rule fold_pick [where R = "\<lambda>a b. wf_pos a \<le> wf_pos b"]) (auto simp: newest_step_def)

lemma newest_exact:
  assumes "wals_ok w"
  shows "newest w = None \<longleftrightarrow> wl_segments w = []"
    and "newest w = Some n \<Longrightarrow> n \<in> set (wl_segments w) \<and> (\<forall>s \<in> set (wl_segments w). hex_nat (wf_pos s) \<le> hex_nat (wf_pos n))"
proof -
  have ok: "position_ok (wf_pos s)" if "s \<in> set (wl_segments w)" for s
    using assms that by (simp add: wals_ok_def list_all_iff)
  note f = newest_fold [of "wl_segments w" no_wal]
  show "newest w = None \<longleftrightarrow> wl_segments w = []"
  proof
    assume "newest w = None"
    then have "wf_pos (fold newest_step (wl_segments w) no_wal) = []" by (simp add: newest_def Let_def split: if_splits)
    with f have "\<forall>s \<in> set (wl_segments w). wf_pos s \<le> []" by simp
    moreover have "wf_pos s \<noteq> []" if "s \<in> set (wl_segments w)" for s
      using ok [OF that] by (auto simp: position_ok_def)
    ultimately show "wl_segments w = []" by (cases "wl_segments w") auto
  qed (simp add: newest_def no_wal_def)
  assume "newest w = Some n"
  then have n: "n = fold newest_step (wl_segments w) no_wal" "wf_pos n \<noteq> []" by (auto simp: newest_def Let_def split: if_splits)
  with f have mem: "n \<in> set (wl_segments w)" by (auto simp: no_wal_def)
  moreover have "hex_nat (wf_pos s) \<le> hex_nat (wf_pos n)" if "s \<in> set (wl_segments w)" for s
  proof -
    have "\<not> wf_pos n < wf_pos s" using f n(1) that by (auto simp: not_less)
    then show ?thesis
      using hex_order [of "wf_pos n" "wf_pos s"] ok [OF mem] ok [OF that] by (auto simp: position_ok_def)
  qed
  ultimately show "n \<in> set (wl_segments w) \<and> (\<forall>s \<in> set (wl_segments w). hex_nat (wf_pos s) \<le> hex_nat (wf_pos n))" by blast
qed

text \<open>A loop that keeps the least of the elements, starting from an unset one.\<close>

lemma fold_least_set:
  fixes key :: "'a \<Rightarrow> 'k::linorder"
  assumes "\<not> unset a" and "\<forall>x \<in> set xs. \<not> unset x"
  shows "let m = fold (\<lambda>x a. if unset a \<or> key x < key a then x else a) xs a in
     (m = a \<or> m \<in> set xs) \<and> key m \<le> key a \<and> (\<forall>x \<in> set xs. key m \<le> key x)"
  using assms
proof (induction xs arbitrary: a)
  case (Cons x xs)
  let ?b = "if unset a \<or> key x < key a then x else a"
  have "\<not> unset ?b" "key ?b \<le> key a" "key ?b \<le> key x" using Cons.prems by auto
  with Cons.IH [of ?b] Cons.prems show ?case by (auto simp: Let_def split: if_splits intro: order.trans)
qed simp

lemma fold_least:
  fixes key :: "'a \<Rightarrow> 'k::linorder"
  assumes "unset a" and "\<forall>x \<in> set xs. \<not> unset x"
  shows "let m = fold (\<lambda>x a. if unset a \<or> key x < key a then x else a) xs a in
     if xs = [] then m = a else m \<in> set xs \<and> (\<forall>x \<in> set xs. key m \<le> key x)"
proof (cases xs)
  case (Cons x ys)
  with assms fold_least_set [of unset x ys key] show ?thesis by (auto simp: Let_def)
qed simp

lemma lowest_timeline_exact:
  assumes "\<forall>s \<in> set (wl_segments w). wf_timeline s \<noteq> 0"
  shows "lowest_timeline w = 0 \<longleftrightarrow> wl_segments w = []"
    and "wl_segments w \<noteq> [] \<Longrightarrow> lowest_timeline w \<in> wf_timeline ` set (wl_segments w) \<and>
      (\<forall>s \<in> set (wl_segments w). lowest_timeline w \<le> wf_timeline s)"
proof -
  let ?ts = "map wf_timeline (wl_segments w)"
  have low: "lowest_timeline w = fold (\<lambda>x a. if a = 0 \<or> x < a then x else a) ?ts 0"
    by (simp add: lowest_timeline_def fold_map comp_def)
  have "\<forall>x \<in> set ?ts. \<not> x = 0" using assms by simp
  from fold_least [where unset = "\<lambda>t. t = 0" and a = 0 and xs = ?ts and key = "\<lambda>t. t", OF refl this]
  have "if ?ts = [] then lowest_timeline w = 0
      else lowest_timeline w \<in> set ?ts \<and> (\<forall>x \<in> set ?ts. lowest_timeline w \<le> x)"
    unfolding low Let_def .
  with assms show "lowest_timeline w = 0 \<longleftrightarrow> wl_segments w = []"
    "wl_segments w \<noteq> [] \<Longrightarrow> lowest_timeline w \<in> wf_timeline ` set (wl_segments w) \<and>
      (\<forall>s \<in> set (wl_segments w). lowest_timeline w \<le> wf_timeline s)"
    by (auto split: if_splits)
qed

lemma first_on_exact:
  assumes "wals_ok w"
  shows "first_on w t = None \<longleftrightarrow> list_all (\<lambda>s. wf_timeline s \<noteq> t) (wl_segments w)"
    and "first_on w t = Some f \<Longrightarrow> f \<in> set (wl_segments w) \<and> wf_timeline f = t \<and>
      (\<forall>s \<in> set (wl_segments w). wf_timeline s = t \<longrightarrow> hex_nat (wf_pos f) \<le> hex_nat (wf_pos s))"
proof -
  let ?ss = "filter (\<lambda>s. wf_timeline s = t) (wl_segments w)"
  let ?m = "fold (\<lambda>s f. if wf_pos f = [] \<or> wf_pos s < wf_pos f then s else f) ?ss no_wal"
  have ok: "position_ok (wf_pos s)" if "s \<in> set (wl_segments w)" for s
    using assms that by (simp add: wals_ok_def list_all_iff)
  then have set: "wf_pos s \<noteq> []" if "s \<in> set (wl_segments w)" for s
    using ok [OF that] by (auto simp: position_ok_def)
  have flt: "fold (\<lambda>s f. if wf_timeline s = t \<and> (wf_pos f = [] \<or> wf_pos s < wf_pos f) then s else f) ss a =
      fold (\<lambda>s f. if wf_pos f = [] \<or> wf_pos s < wf_pos f then s else f) (filter (\<lambda>s. wf_timeline s = t) ss) a" for ss a
    by (induction ss arbitrary: a) auto
  have f: "first_on w t = (if wf_pos ?m \<noteq> [] then Some ?m else None)"
    unfolding first_on_def Let_def flt by (rule refl)
  have none: "wf_pos no_wal = []" and some: "\<forall>x \<in> set ?ss. \<not> wf_pos x = []" using set by (auto simp: no_wal_def)
  have "if ?ss = [] then ?m = no_wal else ?m \<in> set ?ss \<and> (\<forall>x \<in> set ?ss. wf_pos ?m \<le> wf_pos x)"
    using fold_least [where unset = "\<lambda>s. wf_pos s = []" and key = wf_pos, OF none some] unfolding Let_def .
  then have m: "?ss = [] \<and> ?m = no_wal \<or> ?m \<in> set ?ss \<and> (\<forall>x \<in> set ?ss. wf_pos ?m \<le> wf_pos x)"
    by (auto split: if_splits)
  then show "first_on w t = None \<longleftrightarrow> list_all (\<lambda>s. wf_timeline s \<noteq> t) (wl_segments w)"
  proof
    assume "?ss = [] \<and> ?m = no_wal"
    then have "wf_pos ?m = []" and "?ss = []" by (simp_all add: no_wal_def)
    with f show ?thesis by (simp add: filter_empty_conv list_all_iff)
  next
    assume mem: "?m \<in> set ?ss \<and> (\<forall>x \<in> set ?ss. wf_pos ?m \<le> wf_pos x)"
    then have in_w: "?m \<in> set (wl_segments w)" "wf_timeline ?m = t" by simp_all
    with f set [OF in_w(1)] show ?thesis by (auto simp: list_all_iff)
  qed
  assume s: "first_on w t = Some f"
  then have fm: "f = ?m" "wf_pos ?m \<noteq> []" using f by (simp_all split: if_splits)
  with m have mem: "f \<in> set ?ss" "\<forall>x \<in> set ?ss. wf_pos f \<le> wf_pos x" by (auto simp: no_wal_def)
  have "hex_nat (wf_pos f) \<le> hex_nat (wf_pos x)" if x: "x \<in> set (wl_segments w)" "wf_timeline x = t" for x
  proof -
    have "\<not> wf_pos x < wf_pos f" using mem(2) x by auto
    moreover have "f \<in> set (wl_segments w)" using mem(1) by simp
    ultimately show ?thesis
      using hex_order [of "wf_pos x" "wf_pos f"] ok [OF x(1)] ok [of f] by (auto simp: position_ok_def)
  qed
  with mem(1) show "f \<in> set (wl_segments w) \<and> wf_timeline f = t \<and>
      (\<forall>s \<in> set (wl_segments w). wf_timeline s = t \<longrightarrow> hex_nat (wf_pos f) \<le> hex_nat (wf_pos s))" by simp
qed

subsection \<open>How long a lock really holds\<close>

definition lock_min :: int where "lock_min = 2592000000000000"

lemma wrap64_le: "0 \<le> x \<Longrightarrow> wrap64 x \<le> x"
  using zmod_le_nonneg_dividend [of "x + 9223372036854775808" 18446744073709551616] by (simp add: wrap64_def)

lemma lock_judged:
  assumes "lr_type r = ''Age''" and "0 \<le> lr_max_age r"
  shows "holds_for r pre least \<Longrightarrow> lr_enabled r \<and> prefix (lr_prefix r) pre \<and> lr_max_age r * 1000000000 \<ge> least"
    and "lr_max_age r \<le> 9223372036 \<Longrightarrow>
      holds_for r pre least \<longleftrightarrow> lr_enabled r \<and> prefix (lr_prefix r) pre \<and> lr_max_age r * 1000000000 \<ge> least"
    and "\<not> holds_for (r\<lparr>lr_max_age := 9223372037\<rparr>) pre lock_min"
proof -
  have "seconds (lr_max_age r) \<le> lr_max_age r * 1000000000"
    using wrap64_le [of "lr_max_age r * 1000000000"] assms(2) by (simp add: seconds_def)
  then show "lr_enabled r \<and> prefix (lr_prefix r) pre \<and> lr_max_age r * 1000000000 \<ge> least" if "holds_for r pre least"
    using that assms(1) by (auto simp: holds_for_def)
  show "holds_for r pre least \<longleftrightarrow> lr_enabled r \<and> prefix (lr_prefix r) pre \<and> lr_max_age r * 1000000000 \<ge> least"
    if "lr_max_age r \<le> 9223372036"
  proof -
    have "seconds (lr_max_age r) = lr_max_age r * 1000000000"
      unfolding seconds_def by (rule wrap64_id) (use that assms(2) in \<open>simp_all add: max_duration_def\<close>)
    then show ?thesis using assms(1) by (auto simp: holds_for_def)
  qed
  show "\<not> holds_for (r\<lparr>lr_max_age := 9223372037\<rparr>) pre lock_min"
    using assms(1) by (simp add: holds_for_def seconds_def wrap64_def lock_min_def)
qed

text \<open>
  C22 A rule that is judged to hold does hold: an enabled \<open>Age\<close> rule passes only when its age in full is at
  least the time asked for, although the age is multiplied out in 64 bits. Up to 9223372036 seconds (292 years) it
  passes exactly when it is. Above that the product wraps, and a longer lock is judged not to hold.
\<close>

theorem lock_is_not_overstated:
  assumes "lr_type r = ''Age''" and "0 \<le> lr_max_age r"
  shows "(holds_for r pre least \<longrightarrow> lr_enabled r \<and> prefix (lr_prefix r) pre \<and> lr_max_age r * 1000000000 \<ge> least) \<and>
    (lr_max_age r \<le> 9223372036 \<longrightarrow>
      holds_for r pre least = (lr_enabled r \<and> prefix (lr_prefix r) pre \<and> lr_max_age r * 1000000000 \<ge> least)) \<and>
    \<not> holds_for (r\<lparr>lr_max_age := 9223372037\<rparr>) pre lock_min"
  using lock_judged [OF assms] by blast

theorem lock_is_not_overstated_witness:
  "let r = \<lparr>lr_id = ''a'', lr_enabled = True, lr_prefix = ''tosak'', lr_type = ''Age'', lr_max_age = 2592000\<rparr> in
     holds_for r ''tosak-pg-cluster-g2/wals/'' lock_min"
  using lock_is_not_overstated [of "\<lparr>lr_id = ''a'', lr_enabled = True, lr_prefix = ''tosak'', lr_type = ''Age'',
    lr_max_age = 2592000\<rparr>" "''tosak-pg-cluster-g2/wals/''" lock_min]
  by (simp add: lock_min_def Let_def)

lemma locked_rule: "locked rules pre least = Some r \<Longrightarrow> r \<in> set rules \<and> holds_for r pre least"
  by (simp add: locked_def find_Some_iff) (metis nth_mem)

end
