(* ===== verification/SeedApply.thy ===== *)
theory SeedApply
  imports Exec Stage Netip
begin

section \<open>seed: applying a manifest and waiting for what follows\<close>

text \<open>
  \<open>seed/kubectl.go\<close>, the \<open>Apply\<close> Stage of \<open>seed/stages.go\<close> and the two waiting Stages of \<open>seed/wait.go\<close>. A
  Stage that keeps something between its probe and its preview or act (the last diff, the address it found) takes and
  returns it here.
\<close>

definition manager_seed :: string where "manager_seed = ''kluster''"
definition manager_argocd :: string where "manager_argocd = ''argocd-controller''"
definition seed_work_dir :: string where "seed_work_dir = ''/var/lib/kluster/seed''"
definition rc_mark :: string where "rc_mark = ''kluster-rc=''"

definition target_flags :: "string \<Rightarrow> string" where
  "target_flags manager = ''--server-side --force-conflicts --field-manager='' @ manager"

text \<open>\<open>put\<close>: the manifest, where kubectl will read it.\<close>

definition manifest_path :: "string \<Rightarrow> string" where
  "manifest_path name = seed_work_dir @ ''/'' @ name @ ''.yaml''"

definition put_manifest :: "'w exec \<Rightarrow> string \<Rightarrow> string \<Rightarrow> ('w, 'o, string, string) io" where
  "put_manifest ex name manifest =
     io_bind (io_call (ex_run ex (''mkdir -p -m 700 '' @ seed_work_dir))) (\<lambda>_.
     io_bind (io_call (ex_write ex (manifest_path name) manifest)) (\<lambda>_. io_return (manifest_path name)))"

subsection \<open>kubectl diff\<close>

record diff =
  df_objects :: "string list"
  df_text :: string

definition diff_empty :: "diff \<Rightarrow> bool" where
  "diff_empty d \<longleftrightarrow> df_objects d = []"

definition diff_summary :: "diff \<Rightarrow> string" where
  "diff_summary d =
     (if diff_empty d then ''no change'' @ [NL]
      else string_of_nat (length (df_objects d)) @ '' object(s) differ:'' @ NL # ''  '' @
        join_str (NL # ''  '') (df_objects d) @ [NL])"

text \<open>\<open>strings.LastIndex\<close>: what stands before the last occurrence, and after it.\<close>

fun cut_last :: "string \<Rightarrow> string \<Rightarrow> (string \<times> string) option" where
  "cut_last sub [] = (if sub = [] then Some ([], []) else None)"
| "cut_last sub (x # xs) =
     (case cut_last sub xs of
        Some (a, b) \<Rightarrow> Some (x # a, b)
      | None \<Rightarrow> if prefix sub (x # xs) then Some ([], drop (length sub) (x # xs)) else None)"

text \<open>\<open>strconv.Atoi\<close>: an optional sign and decimal digits that fit 64 bits.\<close>

definition atoi :: "string \<Rightarrow> int option" where
  "atoi s =
     (let neg = (s \<noteq> [] \<and> hd s = CHR ''-''); d = (if s \<noteq> [] \<and> hd s \<in> set ''+-'' then tl s else s);
          n = (if neg then - int (nat_of_digits d) else int (nat_of_digits d)) in
      if d \<noteq> [] \<and> list_all is_digit d \<and> - max_duration - 1 \<le> n \<and> n \<le> max_duration then Some n else None)"

definition changed_object :: "string \<Rightarrow> string list" where
  "changed_object l =
     (let f = str_fields l in
      if length f \<ge> 4 \<and> hd f = ''diff'' \<and> sublist ''/LIVE-'' (f ! (length f - 2)) then [path_base (f ! (length f - 2))]
      else [])"

definition changed_objects :: "string \<Rightarrow> string list" where
  "changed_objects t = concat (map changed_object (split_on NL t))"

definition head_lines :: "string \<Rightarrow> nat \<Rightarrow> string" where
  "head_lines s n =
     (let ls = split_on NL (trim_space s) in
      if length ls > n then join_str [NL] (take n ls @ [[CHR 0xE2, CHR 0x80, CHR 0xA6]]) else join_str [NL] ls)"

definition read_diff :: "string \<Rightarrow> string \<Rightarrow> string + diff" where
  "read_diff name out =
     (case cut_last rc_mark out of
        None \<Rightarrow> Inl (''kubectl diff '' @ name @ '': no exit code in its output'')
      | Some (t, rest) \<Rightarrow>
          (case atoi (trim_space rest) of
             None \<Rightarrow> Inl (''kubectl diff '' @ name @ '': not a number'')
           | Some rc \<Rightarrow>
               if rc = 0 then Inr \<lparr>df_objects = [], df_text = []\<rparr>
               else if rc = 1 then Inr \<lparr>df_objects = changed_objects t, df_text = t\<rparr>
               else Inl (''kubectl diff '' @ name @ '': exit: '' @ head_lines t 20)))"

definition diff_line :: "string \<Rightarrow> string \<Rightarrow> string" where
  "diff_line manager p =
     admin_env @ ''kubectl diff '' @ target_flags manager @ '' -f '' @ p @ '' 2>&1; echo '' @ rc_mark @ ''$?''"

definition diff_manifest :: "'w exec \<Rightarrow> string \<Rightarrow> string \<Rightarrow> string \<Rightarrow> ('w, 'o, string, diff) io" where
  "diff_manifest ex name manifest manager =
     io_bind (put_manifest ex name manifest) (\<lambda>p.
     io_bind (io_call (ex_run ex (diff_line manager p))) (\<lambda>out.
       case read_diff name out of Inl e \<Rightarrow> io_fail e | Inr d \<Rightarrow> io_return d))"

definition apply_manifest :: "'w exec \<Rightarrow> string \<Rightarrow> string \<Rightarrow> string \<Rightarrow> ('w, 'o, string, unit) io" where
  "apply_manifest ex name manifest manager =
     io_bind (put_manifest ex name manifest) (\<lambda>p.
     io_bind (io_call (ex_run ex (admin_env @ ''kubectl apply '' @ target_flags manager @ '' -f '' @ p))) (\<lambda>_.
       io_return ()))"

subsection \<open>The Apply Stage\<close>

record apply_stage =
  ap_name :: string
  ap_manifest :: string
  ap_manager :: string
  ap_what :: string
  ap_page :: string

definition seed_runbook :: string where "seed_runbook = ''docs/runbook/services-seed.md''"

definition apply_runbook :: "apply_stage \<Rightarrow> string" where
  "apply_runbook a = (if ap_page a \<noteq> [] then ap_page a else seed_runbook) @ CHR ''#'' # ap_name a"

definition line_of :: "string \<Rightarrow> string" where
  "line_of s = hd (split_on NL s)"

definition status_of :: "bool \<Rightarrow> string \<Rightarrow> status" where
  "status_of d t = \<lparr>st_done = d, st_detail = t\<rparr>"

text \<open>\<open>Probe\<close> never fails: a manifest that cannot be diffed is not applied yet.\<close>

definition apply_probe :: "'w exec \<Rightarrow> apply_stage \<Rightarrow> ('w, string, status \<times> diff option) call" where
  "apply_probe ex a w =
     (case io_run (diff_manifest ex (ap_name a) (ap_manifest a) (ap_manager a)) w of
        (Inl e, w1) \<Rightarrow> (Inr (status_of False (''cannot be diffed yet: '' @ line_of e), None), w1)
      | (Inr d, w1) \<Rightarrow>
          (Inr (if diff_empty d then status_of True (ap_what a @ '' in step'')
                else status_of False (string_of_nat (length (df_objects d)) @ '' object(s) of '' @ ap_what a @ '' differ''),
             Some d), w1))"

definition apply_preview :: "apply_stage \<Rightarrow> bool \<Rightarrow> diff option \<Rightarrow> string" where
  "apply_preview a connected last' =
     ''kubectl apply '' @ target_flags (ap_manager a) @ ''  # '' @ ap_what a @ [NL] @
     (case last' of Some d \<Rightarrow> if connected then diff_summary d else [] | None \<Rightarrow> [])"

definition apply_act :: "'w exec \<Rightarrow> apply_stage \<Rightarrow> ('w, string, unit) call" where
  "apply_act ex a = io_run (apply_manifest ex (ap_name a) (ap_manifest a) (ap_manager a))"

subsection \<open>Waiting for ArgoCD\<close>

text \<open>One Application as the decoder returns it: its name, its sync and its health status.\<close>

type_synonym app_item = "string \<times> string \<times> string"

definition app_problem :: "app_item list \<Rightarrow> string \<Rightarrow> string list" where
  "app_problem items app =
     (case map_of (rev items) app of
        None \<Rightarrow> [app @ '': missing'']
      | Some (sync, health) \<Rightarrow>
          (let s = sync @ ''/'' @ health in if s \<noteq> ''Synced/Healthy'' then [app @ '': '' @ s] else []))"

definition apps_status :: "string list \<Rightarrow> app_item list \<Rightarrow> status" where
  "apps_status apps items =
     (let bad = concat (map (app_problem items) apps) in
      if bad = [] then status_of True (string_of_nat (length apps) @ '' Application(s) Synced and Healthy'')
      else status_of False (join_str '', '' bad))"

definition healthy_probe ::
  "'w exec \<Rightarrow> (string \<Rightarrow> string + app_item list) \<Rightarrow> string list \<Rightarrow> ('w, string, status) call" where
  "healthy_probe ex decode apps w =
     (case ex_run ex (admin_env @ ''kubectl get applications.argoproj.io -n argocd -o json --ignore-not-found 2>/dev/null'') w of
        (Inl e, w1) \<Rightarrow> (Inr (status_of False ''no Application can be read yet''), w1)
      | (Inr out, w1) \<Rightarrow>
          (case (if trim_space out = [] then Inr [] else decode out) of
             Inl e \<Rightarrow> (Inl (''reading the Applications: '' @ e), w1)
           | Inr items \<Rightarrow> (Inr (apps_status apps items), w1)))"

text \<open>A wait whose status must be done at the end of it.\<close>

definition wait_act ::
  "'w clock \<Rightarrow> waiting \<Rightarrow> ('w, string, status) call \<Rightarrow> (string \<Rightarrow> string) \<Rightarrow> ('w, string, unit) call" where
  "wait_act ck wt probe late w =
     (case until_call ck wt st_done probe w of
        (Inl e, w1) \<Rightarrow> (Inl e, w1)
      | (Inr st, w1) \<Rightarrow> (if \<not> st_done st then Inl (late (st_detail st)) else Inr (), w1))"

subsection \<open>The load balancer's address\<close>

text \<open>\<open>net.ParseIP\<close> and \<open>To4\<close>: an IPv4 address, or an IPv6 one that maps one, and no zone.\<close>

definition as_v4 :: "string \<Rightarrow> 32 word option" where
  "as_v4 s =
     (case parse_addr s of
        Some (V4 w) \<Rightarrow> Some w
      | Some (V6 w z) \<Rightarrow> if z = [] \<and> unat w div 4294967296 = 65535 then Some (of_nat (unat w)) else None
      | None \<Rightarrow> None)"

definition v4_private :: "32 word \<Rightarrow> bool" where
  "v4_private w \<longleftrightarrow> drop_bit 24 w = 10 \<or> drop_bit 20 w = 2753 \<or> drop_bit 16 w = 49320"

definition v4_loopback :: "32 word \<Rightarrow> bool" where
  "v4_loopback w \<longleftrightarrow> drop_bit 24 w = 127"

definition is_public_v4 :: "string \<Rightarrow> bool" where
  "is_public_v4 s = (case as_v4 s of None \<Rightarrow> False | Some w \<Rightarrow> \<not> v4_private w \<and> \<not> v4_loopback w)"

definition public_ipv4 :: "string list \<Rightarrow> string + string" where
  "public_ipv4 values =
     (case remdups_adj (sort (filter is_public_v4 values)) of
        [] \<Rightarrow> Inr []
      | [v] \<Rightarrow> Inr v
      | vs \<Rightarrow> Inl (''several public IPv4 addresses ['' @ join_str '' '' vs @ '']; the zone check needs one''))"

text \<open>\<open>Probe\<close>, with the address when it found one.\<close>

definition address_probe :: "'w exec \<Rightarrow> string \<Rightarrow> string \<Rightarrow> ('w, string, status \<times> string option) call" where
  "address_probe ex ns gw w =
     (case ex_run ex (admin_env @ ''kubectl get gateway -n '' @ ns @ '' '' @ gw @
        '' -o jsonpath='' @ [CHR 0x27] @ ''{.status.addresses[*].value}'' @ [CHR 0x27] @ '' --ignore-not-found 2>/dev/null'') w of
        (Inl e, w1) \<Rightarrow> (Inr (status_of False ''the Gateway cannot be read yet'', None), w1)
      | (Inr out, w1) \<Rightarrow>
          (case public_ipv4 (str_fields out) of
             Inl e \<Rightarrow> (Inl (''Gateway '' @ ns @ ''/'' @ gw @ '': '' @ e), w1)
           | Inr ip \<Rightarrow>
               (Inr (if ip = [] then (status_of False (''Gateway '' @ ns @ ''/'' @ gw @ '' has no public IPv4 address yet''), None)
                     else (status_of True (''load balancer at '' @ ip), Some ip)), w1)))"

subsection \<open>What the readings mean\<close>

lemma cut_last_None: "cut_last sub s = None \<longleftrightarrow> \<not> sublist sub s"
proof (induction s)
  case (Cons x xs)
  then show ?case by (auto simp: sublist_Cons_right split: option.split)
qed simp

lemma cut_last_Some: "cut_last sub s = Some (a, b) \<Longrightarrow> s = a @ sub @ b"
proof (induction s arbitrary: a)
  case (Cons x xs)
  show ?case
  proof (cases "cut_last sub xs")
    case None
    with Cons.prems have "prefix sub (x # xs)" "a = []" "b = drop (length sub) (x # xs)" by (auto split: if_splits)
    then show ?thesis by (auto simp: prefix_def)
  next
    case (Some ab)
    with Cons show ?thesis by (cases ab) auto
  qed
qed (auto split: if_splits)

text \<open>The exit code is the one the shell wrote last, whatever the diff itself holds.\<close>

lemma cut_last_append:
  assumes "cut_last sub t = Some (a, b)"
  shows "cut_last sub (s @ t) = Some (s @ a, b)"
  using assms by (induction s) simp_all

lemma rc_mark_last:
  assumes "\<forall>c \<in> set r. c \<noteq> CHR ''k''"
  shows "cut_last rc_mark (t @ rc_mark @ r) = Some (t, r)"
proof -
  have "\<not> sublist rc_mark (tl rc_mark @ r)"
  proof
    assume "sublist rc_mark (tl rc_mark @ r)"
    then have "CHR ''k'' \<in> set (tl rc_mark @ r)" using set_mono_sublist by (fastforce simp: rc_mark_def)
    with assms show False by (auto simp: rc_mark_def)
  qed
  then have "cut_last rc_mark (tl rc_mark @ r) = None" by (simp add: cut_last_None)
  then have "cut_last rc_mark (hd rc_mark # tl rc_mark @ r) = Some ([], r)" by (simp add: rc_mark_def)
  moreover have "hd rc_mark # tl rc_mark @ r = rc_mark @ r" by (simp add: rc_mark_def)
  ultimately have "cut_last rc_mark (rc_mark @ r) = Some ([], r)" by simp
  from cut_last_append [OF this, of t] show ?thesis by simp
qed

lemma atoi_string_of_nat: "int n \<le> max_duration \<Longrightarrow> atoi (string_of_nat n) = Some (int n)"
proof -
  assume n: "int n \<le> max_duration"
  have d: "\<forall>c \<in> set (string_of_nat n). is_digit c" by (rule string_of_nat_digits)
  moreover have "hd (string_of_nat n) \<in> set (string_of_nat n)" by simp
  ultimately have "is_digit (hd (string_of_nat n))" by blast
  then have "hd (string_of_nat n) \<noteq> CHR ''-''" "hd (string_of_nat n) \<noteq> CHR ''+''"
    by (auto simp: is_digit_def)
  with d n show ?thesis by (simp add: atoi_def Let_def list_all_iff max_duration_def)
qed

end
