(* ===== verification/DbCreate.thy ===== *)
theory DbCreate
  imports Wal SeedApply
begin

section \<open>db: the Stages of db create\<close>

text \<open>
  \<open>db/stages.go\<close> and \<open>db/plan.go\<close>. The Stages of one run share the plan and the segment the preflight saw newest
  in the source (\<open>run_state\<close>, with the last diff of the cluster Stage). The JSON decoders, the buckets, the lock
  rules, the repository's files and the host are the environment \<open>db_env\<close>.
\<close>

datatype db_mode = Fresh | Recover

definition mode_name :: "db_mode \<Rightarrow> string" where
  "mode_name m = (case m of Fresh \<Rightarrow> ''fresh'' | Recover \<Rightarrow> ''recover'')"

definition gen_name :: "generation \<Rightarrow> string" where
  "gen_name g = CHR ''g'' # int_string g"

text \<open>What the Stages read of the Cluster, a deployment and a Backup.\<close>

record live_cluster =
  dc_created :: int
  dc_annotations :: "string \<rightharpoonup> string"
  dc_instances :: int
  dc_plugins :: "(bool \<times> (string \<rightharpoonup> string)) list"
  dc_phase :: string
  dc_ready :: int
  dc_primary :: string
  dc_healthy :: "string list"

record backup_item =
  bi_name :: string
  bi_created :: int
  bi_cluster :: string
  bi_phase :: string
  bi_id :: string
  bi_error :: string

record 'w db_env =
  de_exec :: "'w exec"
  de_clock :: "'w clock"
  de_wait :: waiting
  de_archive :: "'w bucket"
  de_source :: "'w bucket"
  de_locks :: "string \<Rightarrow> ('w, string, lock_rule list) call"
  de_fs :: "'w fs"
  de_root :: path
  de_pg :: pg_lib
  de_cluster_json :: "string \<Rightarrow> string + live_cluster"
  de_deployments :: "string \<Rightarrow> string + (string \<times> int) list"
  de_backups :: "string \<Rightarrow> string + backup_item list"
  de_stamp :: "('w, string, string) call"

record db_plan =
  dp_mode :: db_mode
  dp_live :: bool
  dp_target :: "string option"
  dp_generation :: generation
  dp_archives :: generation
  dp_instances :: int
  dp_cluster :: apply_stage

record run_state =
  rs_newest :: "wal_file option"
  rs_last :: "diff option"

type_synonym ('w, 'a) db = "('w \<times> run_state, unit, string, 'a) io"

text \<open>A call of the world leaves the run's own state.\<close>

definition lift_call :: "('w, 'e, 'a) call \<Rightarrow> ('w \<times> 's, 'e, 'a) call" where
  "lift_call f = (\<lambda>(w, s). let (r, w') = f w in (r, w', s))"

definition ext :: "('w, string, 'a) call \<Rightarrow> ('w, 'a) db" where
  "ext f = io_call (lift_call f)"

definition set_newest :: "wal_file option \<Rightarrow> ('w, unit) db" where
  "set_newest n = io_call (\<lambda>(w, s). (Inr (), w, s\<lparr>rs_newest := n\<rparr>))"

definition get_newest :: "('w, wal_file option) db" where
  "get_newest = io_call (\<lambda>(w, s). (Inr (rs_newest s), w, s))"

definition of_result :: "string + 'a \<Rightarrow> ('w, 'a) db" where
  "of_result r = (case r of Inl e \<Rightarrow> io_fail e | Inr a \<Rightarrow> io_return a)"

text \<open>A text in double quotes, as \<open>%q\<close> prints one without anything to escape.\<close>

definition json_quote :: "string \<Rightarrow> string" where
  "json_quote s = CHR 0x22 # s @ [CHR 0x22]"

definition apos :: string where "apos = [CHR 0x27]"
definition pg_namespace :: string where "pg_namespace = ''pg-cluster''"
definition db_runbook :: string where "db_runbook = ''docs/runbook/pg-recovery.md''"
definition marker_file :: string where "marker_file = ''/var/lib/postgresql/data/pgdata/.check-empty-wal-archive''"
definition first_backup_prefix :: string where "first_backup_prefix = cluster_name @ ''-first-''"
definition db_work_dir :: string where "db_work_dir = ''/var/lib/kluster/db''"
definition healthy_phase :: string where "healthy_phase = ''Cluster in healthy state''"
definition first_primary :: string where "first_primary = cluster_name @ ''-1''"
definition created_by :: string where "created_by = ''kluster.tosak.net/created-by''"
definition cnpg_cluster_kind :: string where "cnpg_cluster_kind = ''clusters.postgresql.cnpg.io''"

definition db_kubectl :: "'w db_env \<Rightarrow> string list \<Rightarrow> ('w, string) db" where
  "db_kubectl env args = ext (ex_run (de_exec env) (kubectl args))"

definition get_cluster :: "'w db_env \<Rightarrow> ('w, live_cluster option) db" where
  "get_cluster env =
     io_bind (db_kubectl env [''get'', cnpg_cluster_kind, ''-n'', pg_namespace, cluster_name, ''-o'', ''json'',
       ''--ignore-not-found'']) (\<lambda>out.
       if trim_space out = [] then io_return None
       else case de_cluster_json env out of
           Inl e \<Rightarrow> io_fail (''reading Cluster '' @ cluster_name @ '': '' @ e)
         | Inr c \<Rightarrow> io_return (Some c))"

definition psql :: "'w db_env \<Rightarrow> string \<Rightarrow> string \<Rightarrow> ('w, string) db" where
  "psql env pod query =
     io_bind (db_kubectl env [''exec'', ''-n'', pg_namespace, pod, ''-c'', ''postgres'', ''--'', ''psql'', ''-XtAc'', query])
       (\<lambda>out. io_return (trim_space out))"

definition switch_wal :: "'w db_env \<Rightarrow> ('w, unit) db" where
  "switch_wal env =
     io_bind (get_cluster env) (\<lambda>c. case c of
         None \<Rightarrow> io_return ()
       | Some c \<Rightarrow>
           if dc_primary c = [] then io_return ()
           else io_bind (psql env (dc_primary c) ''select pg_switch_wal()'') (\<lambda>_. io_return ()))"

definition until_db :: "'w db_env \<Rightarrow> ('w, status) db \<Rightarrow> ('w, status) db" where
  "until_db env probe =
     io_call (until_call
       \<lparr>ck_sleep = (\<lambda>d (w, s). (ck_sleep (de_clock env) d w, s)), ck_err = lift_call (ck_err (de_clock env))\<rparr>
       (de_wait env) st_done (io_run probe))"

subsection \<open>db-preflight\<close>

definition need_deployments :: "string list" where "need_deployments = [''cnpg-controller-manager'', ''barman-cloud'']"
definition need_secrets :: "string list" where "need_secrets = [''db-credentials'', ''r2-backup-credentials'']"
definition need_source_secrets :: "string list" where "need_source_secrets = [''r2-source-credentials'']"

definition collect :: "('e \<Rightarrow> string list) \<Rightarrow> ('a \<Rightarrow> string list) \<Rightarrow> 'e + 'a \<Rightarrow> string list" where
  "collect f g r = (case r of Inl e \<Rightarrow> f e | Inr a \<Rightarrow> g a)"

definition deployment_errors :: "'w db_env \<Rightarrow> string \<Rightarrow> string list" where
  "deployment_errors env out =
     (case de_deployments env out of
        Inl e \<Rightarrow> [e]
      | Inr ds \<Rightarrow> concat (map (\<lambda>(n, avail). if avail < 1 then [''cnpg-system/'' @ n @ '' has no available replica''] else []) ds))"

definition need_in_cluster :: "'w db_env \<Rightarrow> db_mode \<Rightarrow> ('w, string list) db" where
  "need_in_cluster env mode =
     (let ss = need_secrets @ (if mode = Recover then need_source_secrets else []);
          stores = archive_store # (if mode = Recover then [source_store] else []) in
      io_bind (try_io (db_kubectl env ([''get'', ''deployments'', ''-n'', ''cnpg-system'', ''-o'', ''json''] @ need_deployments)))
        (\<lambda>d.
      io_bind (try_io (db_kubectl env ([''get'', ''secrets'', ''-n'', pg_namespace, ''-o'', ''name''] @ ss))) (\<lambda>s.
      io_bind (try_io (db_kubectl env ([''get'', ''objectstores.barmancloud.cnpg.io'', ''-n'', pg_namespace, ''-o'', ''name''] @ stores)))
        (\<lambda>o'. io_return (
          collect (\<lambda>e. [''the operator and the plugin: '' @ e]) (deployment_errors env) d @
          collect (\<lambda>e. [''the Secrets '' @ join_str '', '' ss @ '' in '' @ pg_namespace @ '' (kluster services seed makes them): '' @ e])
            (\<lambda>_. []) s @
          collect (\<lambda>e. [''the ObjectStores '' @ join_str '', '' stores @ '' (core-cnpg syncs them): '' @ e]) (\<lambda>_. []) o')))))"

definition trim_slash :: "string \<Rightarrow> string" where
  "trim_slash p = (if p \<noteq> [] \<and> last p = CHR ''/'' then butlast p else p)"

text \<open>The highest generation among the top-level prefixes, 0 when there is none.\<close>

definition newest_generation :: "string list \<Rightarrow> generation" where
  "newest_generation ps =
     fold (\<lambda>p n. case parse_generation (trim_slash p) of Inl e \<Rightarrow> n | Inr g \<Rightarrow> if g > n then g else n) ps 0"

definition db_wals :: "'w bucket \<Rightarrow> generation \<Rightarrow> ('w, wals) db" where
  "db_wals b g = io_bind (ext (bk_list b (gen_prefix g @ ''wals/''))) (\<lambda>objs. io_return (sort_wals (map ob_key objs)))"

definition check_source :: "'w db_env \<Rightarrow> db_plan \<Rightarrow> ('w, unit) db" where
  "check_source env p =
     io_bind (ext (bk_prefixes (de_source env))) (\<lambda>ps.
       let n = newest_generation ps in
       if n = 0 then io_fail (bk_name (de_source env) @ '' holds no generation: there is nothing to recover from'')
       else if n \<noteq> dp_generation p
       then io_fail (''the newest generation in '' @ bk_name (de_source env) @ '' is '' @ gen_name n @ '', the repository names '' @
              gen_name (dp_generation p) @ '': commit the generation of the last recovery first'')
       else io_bind (db_wals (de_source env) (dp_generation p)) (\<lambda>w.
         case newest w of
           None \<Rightarrow> io_fail (bk_name (de_source env) @ ''/'' @ gen_prefix (dp_generation p) @ ''wals/ holds no segment'')
         | Some f \<Rightarrow> set_newest (Some f)))"

definition check_lock :: "'w db_env \<Rightarrow> db_plan \<Rightarrow> ('w, unit) db" where
  "check_lock env p =
     (let want = gen_prefix (dp_archives p) @ ''wals/'' in
      io_bind (ext (de_locks env (bk_name (de_archive env)))) (\<lambda>rules.
        if locked rules want lock_min = None
        then io_fail (bk_name (de_archive env) @ '' has no enabled lock rule of 30 days or more on '' @ want @
               '': add it in the Cloudflare dashboard before anything archives there; kluster never writes a lock'')
        else io_return ()))"

definition check_archive_path :: "'w db_env \<Rightarrow> db_plan \<Rightarrow> ('w, unit) db" where
  "check_archive_path env p =
     io_bind (ext (bk_list (de_archive env) (gen_prefix (dp_archives p)))) (\<lambda>objs.
       if objs \<noteq> [] then io_fail (bk_name (de_archive env) @ ''/'' @ gen_prefix (dp_archives p) @ '' holds '' @
              string_of_nat (length objs) @ '' object(s): an archive path is never written by two Clusters (CloudNativePG refuses a non-empty one)'')
       else io_return ())"

definition check_buckets :: "'w db_env \<Rightarrow> db_plan \<Rightarrow> ('w, string list) db" where
  "check_buckets env p =
     io_bind (try_io (check_archive_path env p)) (\<lambda>a.
     io_bind (try_io (if dp_mode p = Recover then check_source env p else io_return ())) (\<lambda>s.
     io_bind (try_io (if dp_mode p = Recover \<and> dp_live p then check_lock env p else io_return ())) (\<lambda>l.
       io_return (collect (\<lambda>e. [e]) (\<lambda>_. []) a @ collect (\<lambda>e. [e]) (\<lambda>_. []) s @ collect (\<lambda>e. [e]) (\<lambda>_. []) l))))"

text \<open>The cluster Stage keeps its last diff in the run.\<close>

definition cluster_probe :: "'w db_env \<Rightarrow> db_plan \<Rightarrow> ('w, status) db" where
  "cluster_probe env p = io_call (\<lambda>(w, s).
     case apply_probe (de_exec env) (dp_cluster p) w of
       (Inl e, w') \<Rightarrow> (Inl e, w', s)
     | (Inr (st, d), w') \<Rightarrow> (Inr st, w', s\<lparr>rs_last := d\<rparr>))"

definition preflight_detail :: "'w db_env \<Rightarrow> db_plan \<Rightarrow> wal_file option \<Rightarrow> string" where
  "preflight_detail env p n =
     ''empty slot; '' @ bk_name (de_archive env) @ ''/'' @ gen_prefix (dp_archives p) @ '' is empty'' @
     (if dp_mode p = Recover
      then ''; '' @ gen_name (dp_generation p) @ '' is the newest generation in '' @ bk_name (de_source env) @
        (case n of None \<Rightarrow> [] | Some f \<Rightarrow> '', newest segment '' @ wf_pos f)
      else [])"

definition preflight_resume :: "'w db_env \<Rightarrow> db_plan \<Rightarrow> ('w, status) db" where
  "preflight_resume env p =
     io_bind (cluster_probe env p) (\<lambda>st.
       if \<not> st_done st
       then io_fail (''Cluster '' @ cluster_name @ '' exists and is not the --'' @ mode_name (dp_mode p) @ '' render ('' @ st_detail st @
              ''): db create creates only into an empty slot and never changes or deletes a Cluster; deleting one is runbook step 2, by hand'')
       else io_return (status_of True (''resumed: the Cluster is this run'' @ apos @ ''s render, unchanged'')))"

definition preflight_empty :: "'w db_env \<Rightarrow> db_plan \<Rightarrow> ('w, status) db" where
  "preflight_empty env p =
     io_bind (need_in_cluster env (dp_mode p)) (\<lambda>es1.
     io_bind (check_buckets env p) (\<lambda>es2.
       if es1 @ es2 \<noteq> [] then io_fail (join_str [NL] (es1 @ es2))
       else io_bind get_newest (\<lambda>n. io_return (status_of True (preflight_detail env p n)))))"

definition preflight_probe :: "'w db_env \<Rightarrow> db_plan \<Rightarrow> ('w, status) db" where
  "preflight_probe env p =
     io_bind (get_cluster env) (\<lambda>c. case c of Some _ \<Rightarrow> preflight_resume env p | None \<Rightarrow> preflight_empty env p)"

subsection \<open>The Stages that follow the Cluster\<close>

definition db_healthy_probe :: "'w db_env \<Rightarrow> ('w, status) db" where
  "db_healthy_probe env =
     io_bind (get_cluster env) (\<lambda>c. io_return (case c of
         None \<Rightarrow> status_of False ''no Cluster yet''
       | Some c \<Rightarrow> status_of (dc_phase c = healthy_phase \<and> dc_ready c = dc_instances c)
           (dc_phase c @ '', '' @ int_string (dc_ready c) @ '' of '' @ int_string (dc_instances c) @ '' ready'')))"

text \<open>A wait: the last status decides nothing, the Stage's own probe does.\<close>

definition wait_db :: "'w db_env \<Rightarrow> ('w, status) db \<Rightarrow> ('w, unit) db" where
  "wait_db env probe = io_bind (until_db env probe) (\<lambda>_. io_return ())"

definition tl_string :: "32 word \<Rightarrow> string" where
  "tl_string t = string_of_nat (unat t)"

definition wals_path :: "'w db_env \<Rightarrow> db_plan \<Rightarrow> string" where
  "wals_path env p = bk_name (de_archive env) @ ''/'' @ gen_prefix (dp_archives p) @ ''wals/''"

text \<open>The archive's WAL against the source's newest segment, after the listing.\<close>

definition archive_status :: "string \<Rightarrow> db_plan \<Rightarrow> wal_file option \<Rightarrow> wals \<Rightarrow> string + status" where
  "archive_status where' p n w =
     (if dp_mode p = Fresh
      then if wl_segments w = [] then Inr (status_of False (''no segment in '' @ where'))
        else Inr (status_of True (string_of_nat (length (wl_segments w)) @ '' segment(s) in '' @ where'))
      else if wl_histories w = [] then Inr (status_of False (''no timeline history in '' @ where'))
      else if wl_segments w = [] \<or> lowest_timeline w = 0
      then Inr (status_of False (''a timeline history, no segment yet, in '' @ where'))
      else (let f = (case first_on w (lowest_timeline w) of Some f \<Rightarrow> f | None \<Rightarrow> no_wal);
            d = ''timeline '' @ tl_string (wf_timeline f) @ '' opened in '' @ wf_pos f in
        if dp_target p \<noteq> None
        then Inr (status_of True (d @ ''; replay stopped at the target time, so the end of the WAL is not compared''))
        else case n of
            None \<Rightarrow> Inr (status_of True (d @ ''; not compared with the source (a resumed run has no preflight reading)''))
          | Some m \<Rightarrow>
              if wf_pos f < wf_pos m
              then Inl (d @ '', but the source'' @ apos @ ''s newest segment was '' @ wf_pos m @ '': replay did not reach the end of the WAL'')
              else Inr (status_of True (d @ '', at or after the source'' @ apos @ ''s newest segment '' @ wf_pos m))))"

definition archive_probe :: "'w db_env \<Rightarrow> db_plan \<Rightarrow> ('w, status) db" where
  "archive_probe env p =
     io_bind (db_wals (de_archive env) (dp_archives p)) (\<lambda>w.
     io_bind get_newest (\<lambda>n. of_result (archive_status (wals_path env p) p n w)))"

definition archive_act :: "'w db_env \<Rightarrow> db_plan \<Rightarrow> ('w, unit) db" where
  "archive_act env p = io_bind (switch_wal env) (\<lambda>_. wait_db env (archive_probe env p))"

definition instance_pods :: "'w db_env \<Rightarrow> ('w, string list) db" where
  "instance_pods env =
     io_bind (db_kubectl env [''get'', ''pods'', ''-n'', pg_namespace, ''-l'',
       ''cnpg.io/cluster='' @ cluster_name @ '',cnpg.io/podRole=instance'', ''-o'', ''jsonpath={.items[*].metadata.name}''])
       (\<lambda>out. io_return (sort (str_fields out)))"

definition marker_step :: "'w db_env \<Rightarrow> string \<Rightarrow> string list \<Rightarrow> ('w, string list) db" where
  "marker_step env pod held =
     io_bind (db_kubectl env [''exec'', ''-n'', pg_namespace, pod, ''-c'', ''postgres'', ''--'', ''sh'', ''-c'',
       ''if [ -e '' @ marker_file @ '' ]; then echo present; else echo absent; fi'']) (\<lambda>out.
       io_return (if trim_space out \<noteq> ''absent'' then held @ [pod] else held))"

definition markers :: "'w db_env \<Rightarrow> ('w, string list \<times> nat) db" where
  "markers env =
     io_bind (instance_pods env) (\<lambda>pods.
     io_bind (io_fold (marker_step env) pods []) (\<lambda>held. io_return (held, length pods)))"

definition marker_probe :: "'w db_env \<Rightarrow> ('w, status) db" where
  "marker_probe env = io_bind (markers env) (\<lambda>(held, n). io_return
     (if n = 0 then status_of False ''no instance yet''
      else if held \<noteq> [] then status_of False (''the marker is still on '' @ join_str '', '' held)
      else status_of True (''absent on all '' @ string_of_nat n @ '' instance(s)'')))"

definition replication_probe :: "'w db_env \<Rightarrow> db_plan \<Rightarrow> ('w, status) db" where
  "replication_probe env p =
     io_bind (get_cluster env) (\<lambda>c.
       case c of None \<Rightarrow> io_return (status_of False ''no primary yet'')
       | Some c \<Rightarrow>
           if dc_primary c = [] then io_return (status_of False ''no primary yet'')
           else io_bind (psql env (dc_primary c)
                 (''select count(*) from pg_stat_replication where state = '' @ [CHR 0x27] @ ''streaming'' @ [CHR 0x27])) (\<lambda>out.
             case atoi out of
               None \<Rightarrow> io_fail (''pg_stat_replication: '' @ json_quote out)
             | Some n \<Rightarrow> io_return (status_of (n \<ge> dp_instances p - 1)
                 (int_string n @ '' of '' @ int_string (dp_instances p - 1) @ '' standby(s) streaming from '' @ dc_primary c))))"

definition switchover_probe :: "'w db_env \<Rightarrow> db_plan \<Rightarrow> ('w, status) db" where
  "switchover_probe env p =
     io_bind (get_cluster env) (\<lambda>c.
       case c of None \<Rightarrow> io_return (status_of False ''no Cluster yet'')
       | Some c \<Rightarrow>
           if dc_primary c = first_primary \<or> dc_primary c = []
           then io_return (status_of False (''the primary is still '' @ first_primary))
           else io_bind (db_wals (de_archive env) (dp_archives p)) (\<lambda>w.
             let start = lowest_timeline w; t = latest_timeline w in
             if t \<le> start
             then io_return (status_of False (''primary '' @ dc_primary c @ ''; no timeline after '' @ tl_string start @
                    '' in the bucket yet''))
             else case first_on w t of
                 None \<Rightarrow> io_return (status_of False (''primary '' @ dc_primary c @ ''; timeline '' @ tl_string t @
                    '' has no segment yet''))
               | Some seg \<Rightarrow> io_bind (markers env) (\<lambda>(held, n). io_return
                   (if held \<noteq> [] then status_of False (''the marker is on '' @ join_str '', '' held)
                    else status_of True (''primary '' @ dc_primary c @ '' archives timeline '' @ tl_string t @
                      '' ('' @ wf_pos seg @ ''); no marker'')))))"

definition switched_probe :: "'w db_env \<Rightarrow> string \<Rightarrow> ('w, status) db" where
  "switched_probe env target = io_bind (get_cluster env) (\<lambda>c. io_return (case c of
       None \<Rightarrow> status_of False []
     | Some c \<Rightarrow> status_of (dc_primary c = target \<and> dc_phase c = healthy_phase) (dc_phase c)))"

text \<open>The name of a pod needs no escape in JSON.\<close>

definition switch_to :: "'w db_env \<Rightarrow> string \<Rightarrow> ('w, unit) db" where
  "switch_to env target =
     io_bind (db_kubectl env [''patch'', cnpg_cluster_kind, cluster_name, ''-n'', pg_namespace, ''--type'', ''merge'',
       ''--subresource'', ''status'', ''-p'',
       CHR 0x7B # json_quote ''status'' @ CHR '':'' # CHR 0x7B # json_quote ''targetPrimary'' @ CHR '':'' # json_quote target @
         [CHR 0x7D, CHR 0x7D]]) (\<lambda>_.
     io_bind (until_db env (switched_probe env target)) (\<lambda>st.
       if \<not> st_done st then io_fail (''the switchover to '' @ target @ '' did not finish: '' @ st_detail st)
       else io_return ()))"

definition switchover_act :: "'w db_env \<Rightarrow> db_plan \<Rightarrow> ('w, unit) db" where
  "switchover_act env p =
     io_bind (get_cluster env) (\<lambda>c.
       case c of None \<Rightarrow> io_fail ''no Cluster''
       | Some c \<Rightarrow>
           (let target = (case find (\<lambda>pod. pod \<noteq> dc_primary c) (dc_healthy c) of Some t \<Rightarrow> t | None \<Rightarrow> []) in
            io_bind (if dc_primary c = first_primary
                     then if target = [] then io_fail ''no healthy standby to switch to'' else switch_to env target
                     else io_return ()) (\<lambda>_.
            io_bind (switch_wal env) (\<lambda>_. wait_db env (switchover_probe env p)))))"

subsection \<open>The first base backup\<close>

definition counts_backup :: "live_cluster \<Rightarrow> backup_item \<Rightarrow> bool" where
  "counts_backup c b \<longleftrightarrow> prefix first_backup_prefix (bi_name b) \<and> bi_cluster b = cluster_name \<and> \<not> bi_created b < dc_created c"

definition first_backups :: "'w db_env \<Rightarrow> ('w, backup_item list) db" where
  "first_backups env =
     io_bind (get_cluster env) (\<lambda>c.
       case c of None \<Rightarrow> io_fail ''no Cluster''
       | Some c \<Rightarrow>
           io_bind (db_kubectl env [''get'', ''backups.postgresql.cnpg.io'', ''-n'', pg_namespace, ''-o'', ''json'']) (\<lambda>out.
             case de_backups env out of
               Inl e \<Rightarrow> io_fail (''reading the Backups: '' @ e)
             | Inr bs \<Rightarrow> io_return (filter (counts_backup c) bs)))"

text \<open>\<open>inBucket\<close>: the last object of each name counts, as in a Go map.\<close>

definition backup_dir :: "db_plan \<Rightarrow> backup_item \<Rightarrow> string" where
  "backup_dir p b = gen_prefix (dp_archives p) @ ''base/'' @ bi_id b @ ''/''"

definition trim_dir :: "string \<Rightarrow> string \<Rightarrow> string" where
  "trim_dir dir k = (case cut_prefix dir k of Some r \<Rightarrow> r | None \<Rightarrow> k)"

definition backup_status :: "string \<Rightarrow> string \<Rightarrow> backup_item \<Rightarrow> object list \<Rightarrow> string + status" where
  "backup_status bucket dir b objs =
     (let have = map_of (rev (map (\<lambda>x. (trim_dir dir (ob_key x), ob_size x)) objs)) in
      case find (\<lambda>f. have f = None) [''backup.info'', ''data.tar.gz''] of
        Some f \<Rightarrow> Inl (''Backup '' @ bi_name b @ '' is completed, but '' @ bucket @ ''/'' @ dir @ f @ '' is missing'')
      | None \<Rightarrow> Inr (status_of True (bi_name b @ '': '' @ dir @ '' with backup.info and data.tar.gz ('' @
          int_string (case have ''data.tar.gz'' of Some n \<Rightarrow> n | None \<Rightarrow> 0) @ '' bytes)'')))"

definition in_bucket :: "'w db_env \<Rightarrow> db_plan \<Rightarrow> backup_item \<Rightarrow> ('w, status) db" where
  "in_bucket env p b =
     io_bind (ext (bk_list (de_archive env) (backup_dir p b))) (\<lambda>objs.
       of_result (backup_status (bk_name (de_archive env)) (backup_dir p b) b objs))"

definition first_backup_probe :: "'w db_env \<Rightarrow> db_plan \<Rightarrow> ('w, status) db" where
  "first_backup_probe env p =
     io_bind (first_backups env) (\<lambda>bs.
       case find (\<lambda>b. bi_phase b = ''completed'' \<or> bi_phase b = ''failed'') bs of
         Some b \<Rightarrow>
           if bi_phase b = ''completed'' then in_bucket env p b
           else io_fail (''Backup '' @ bi_name b @ '' failed: '' @ bi_error b @ ''; delete it and run again'')
       | None \<Rightarrow> io_return (case bs of [] \<Rightarrow> status_of False ''no first base backup''
           | b # _ \<Rightarrow> status_of False (''Backup '' @ bi_name b @ '' is '' @ json_quote (bi_phase b))))"

definition yaml_lines :: "string list \<Rightarrow> string" where
  "yaml_lines ls = concat (map (\<lambda>l. l @ [NL]) ls)"

definition backup_manifest :: "string \<Rightarrow> string" where
  "backup_manifest name = yaml_lines
     [''apiVersion: postgresql.cnpg.io/v1'', ''kind: Backup'', ''metadata:'', ''  name: '' @ name, ''  namespace: '' @ pg_namespace,
      ''spec:'', ''  cluster:'', ''    name: '' @ cluster_name, ''  method: plugin'', ''  pluginConfiguration:'',
      ''    name: barman-cloud.cloudnative-pg.io'']"

definition first_backup_act :: "'w db_env \<Rightarrow> db_plan \<Rightarrow> ('w, unit) db" where
  "first_backup_act env p =
     io_bind (first_backups env) (\<lambda>bs.
     io_bind (if bs \<noteq> [] then io_return ()
        else io_bind (ext (de_stamp env)) (\<lambda>stamp.
          let file = db_work_dir @ ''/first-backup.yaml'' in
          io_bind (ext (ex_run (de_exec env) (''mkdir -p -m 700 '' @ db_work_dir))) (\<lambda>_.
          io_bind (ext (ex_write (de_exec env) file (backup_manifest (first_backup_prefix @ stamp)))) (\<lambda>_.
          io_bind (ext (ex_run (de_exec env) (admin_env @ ''kubectl create --field-manager='' @ manager_seed @ '' -f '' @ file)))
            (\<lambda>_. io_return ()))))) (\<lambda>_.
       wait_db env (first_backup_probe env p)))"

subsection \<open>The generation in the repository\<close>

fun pg_text :: "pg_error \<Rightarrow> string" where
  "pg_text (NotGenerationName s) = ''serverName '' @ json_quote s @ '' is not '' @ cluster_name @ ''-g<N>''"
| "pg_text (OutOfRange d) = ''strconv.Atoi: parsing '' @ json_quote d @ '': value out of range''"
| "pg_text (PgRead p e) = e"
| "pg_text (PgWrite p e) = e"
| "pg_text (PgYaml e) = cluster_file @ '': '' @ e"
| "pg_text WantOnePlugin = cluster_file @ '': want one plugin, the barman-cloud WAL archiver''"
| "pg_text (ArchivesTo s) = cluster_file @ '': archives to '' @ json_quote s @ '', want '' @ archive_store"
| "pg_text (PgJson e) = recover_patch @ '': '' @ e"
| "pg_text (TestsName s g) = recover_patch @ '': tests serverName '' @ json_quote s @ ''; '' @ cluster_file @ '' names '' @ server_name g"
| "pg_text (ReplacesName s g) = recover_patch @ '': archives to '' @ json_quote s @ ''; the next generation is '' @ server_name g"
| "pg_text (RecoverySource s) = recover_patch @ '': bootstrap.recovery.source is '' @ json_quote s"
| "pg_text WantOneExternal = recover_patch @ '': want one external cluster''"
| "pg_text (ExternalNames a b) = recover_patch @ '': the external cluster is '' @ json_quote a @ '' with serverName '' @ json_quote b"
| "pg_text (ReadsThrough s) = recover_patch @ '': reads through '' @ json_quote s @ ''; a recovery reads through the source store '' @ source_store"
| "pg_text (NeedsOp w) = recover_patch @ '': no '' @ w"
| "pg_text (WantOneLine l) = cluster_file @ '': want one line '' @ json_quote (trim_space l)"
| "pg_text (BumpUnchecked es) = ''the bump does not pass its own check: '' @ join_str [NL] (map pg_text es)"

text \<open>The repository's files, through the run.\<close>

definition repo_io :: "('w, unit, pg_error, 'a) io \<Rightarrow> ('w, 'a) db" where
  "repo_io m = io_map_err pg_text (io_call (lift_call (io_run m)))"

definition current_repo :: "'w db_env \<Rightarrow> ('w, unit, pg_error, generation) io" where
  "current_repo env = io_bind (read_file (de_fs env) (root_path (de_root env) cluster_file)) (\<lambda>c.
     io_either (current_gen (de_pg env) c))"

definition bump_probe :: "'w db_env \<Rightarrow> db_plan \<Rightarrow> ('w, status) db" where
  "bump_probe env p = io_bind (repo_io (current_repo env)) (\<lambda>g. io_return
     (if g = dp_archives p
      then status_of True (cluster_file @ '' names '' @ gen_name g @ ''; commit it: git add '' @ cluster_file @ '' '' @ recover_patch)
      else status_of False (cluster_file @ '' still names '' @ gen_name g)))"

definition bump_act :: "'w db_env \<Rightarrow> ('w, unit) db" where
  "bump_act env = io_bind (repo_io (bump (de_pg env) (de_fs env) (de_root env))) (\<lambda>_. io_return ())"

subsection \<open>The list of Stages\<close>

definition db_stage :: "string \<Rightarrow> ('w, status) db \<Rightarrow> (unit \<Rightarrow> string) \<Rightarrow> ('w, unit) db \<Rightarrow> ('w \<times> run_state) stage" where
  "db_stage name probe preview act =
     \<lparr>sg_name = name, sg_runbook = db_runbook @ CHR ''#'' # name, sg_probe = (\<lambda>_. io_run probe),
      sg_preview = (\<lambda>_ w. (Inr (preview () @ [NL]), w)), sg_act = (\<lambda>_. io_run act)\<rparr>"

definition cluster_stage :: "'w db_env \<Rightarrow> db_plan \<Rightarrow> ('w \<times> run_state) stage" where
  "cluster_stage env p =
     \<lparr>sg_name = ap_name (dp_cluster p), sg_runbook = apply_runbook (dp_cluster p), sg_probe = (\<lambda>_. io_run (cluster_probe env p)),
      sg_preview = (\<lambda>h (w, s). (Inr (apply_preview (dp_cluster p) (h_connected h) (rs_last s)), w, s)),
      sg_act = (\<lambda>_. lift_call (apply_act (de_exec env) (dp_cluster p)))\<rparr>"

definition timeout_text :: "'w db_env \<Rightarrow> string" where
  "timeout_text env = duration_string (wt_timeout (de_wait env))"

definition db_stages :: "'w db_env \<Rightarrow> db_plan \<Rightarrow> ('w \<times> run_state) stage list" where
  "db_stages env p =
     [db_stage ''db-preflight'' (preflight_probe env p)
        (\<lambda>_. ''read only: the slot, the operator, the Secrets, the ObjectStores and the buckets'') (io_fail ''db-preflight does not act''),
      cluster_stage env p,
      db_stage ''db-healthy'' (db_healthy_probe env)
        (\<lambda>_. ''wait up to '' @ timeout_text env @ '' for '' @ int_string (dp_instances p) @ '' ready instances'')
        (wait_db env (db_healthy_probe env)),
      db_stage ''db-archive'' (archive_probe env p)
        (\<lambda>_. ''switch WAL on the primary; wait for segments in '' @ wals_path env p) (archive_act env p),
      db_stage ''db-marker'' (marker_probe env) (\<lambda>_. ''wait until no instance holds '' @ marker_file) (wait_db env (marker_probe env)),
      db_stage ''db-replication'' (replication_probe env p)
        (\<lambda>_. ''wait until '' @ int_string (dp_instances p - 1) @ '' standby(s) stream (pg_stat_replication on the primary)'')
        (wait_db env (replication_probe env p))] @
     (if dp_live p then []
      else [db_stage ''db-switchover'' (switchover_probe env p)
        (\<lambda>_. ''switch the primary to a standby (status.targetPrimary), switch WAL, wait for the new timeline in the bucket'')
        (switchover_act env p)]) @
     [db_stage ''db-first-backup'' (first_backup_probe env p)
        (\<lambda>_. ''kubectl create Backup '' @ first_backup_prefix @ ''<time> (plugin); wait until completed; read '' @
          bk_name (de_archive env) @ ''/'' @ gen_prefix (dp_archives p) @ ''base/<id>/'') (first_backup_act env p)] @
     (if dp_live p \<and> dp_mode p = Recover
      then [db_stage ''db-generation'' (bump_probe env p)
        (\<lambda>_. ''write '' @ gen_name (dp_generation p) @ '' '' @ [CHR 0xE2, CHR 0x86, CHR 0x92] @ '' '' @ gen_name (dp_archives p) @ '' into '' @ cluster_file @ '' and '' @
          recover_patch @ '' (commit it, with the lock rule for '' @ gen_prefix (next_gen (dp_archives p)) @ ''wals/)'') (bump_act env)]
      else [])"

subsection \<open>Building a run\<close>

text \<open>What is given to \<open>Build\<close>; \<open>True\<close> for a bucket or a reader that is not nil. The render of the Cluster
  (kustomize and the YAML package) is the parameter \<open>render\<close>.\<close>

record db_inputs =
  bn_mode :: string
  bn_live :: bool
  bn_target :: "string option"
  bn_archive :: bool
  bn_source :: bool
  bn_locks :: bool

definition read_mode :: "string \<Rightarrow> db_mode option" where
  "read_mode m = (if m = ''fresh'' then Some Fresh else if m = ''recover'' then Some Recover else None)"

definition input_error :: "db_inputs \<Rightarrow> string option" where
  "input_error i =
     (if read_mode (bn_mode i) = None then Some ''db create is --fresh or --recover''
      else if \<not> bn_archive i then Some ''no archive bucket''
      else if bn_mode i = ''recover'' \<and> \<not> bn_source i then Some ''a recovery needs the source bucket''
      else if bn_mode i = ''recover'' \<and> bn_live i \<and> \<not> bn_locks i then Some ''a live recovery reads the lock rules''
      else None)"

definition db_build ::
  "'w db_env \<Rightarrow> (db_mode \<Rightarrow> string option \<Rightarrow> ('w, string, string) call) \<Rightarrow> db_inputs \<Rightarrow> ('w, unit, string, db_plan) io" where
  "db_build env render i =
     (case input_error i of Some e \<Rightarrow> io_fail e
      | None \<Rightarrow>
          (let mode = the (read_mode (bn_mode i)) in
           io_bind (io_map_err pg_text (current_repo env)) (\<lambda>g.
           io_bind (io_map_err pg_text (overlay_errors (de_pg env) (de_fs env) (de_root env))) (\<lambda>errs.
             if errs \<noteq> [] then io_fail (join_str [NL] (map pg_text errs))
             else io_bind (io_map_err pg_text (io_bind (read_file (de_fs env) (root_path (de_root env) cluster_file))
                    (\<lambda>c. io_either (instances (de_pg env) c)))) (\<lambda>n.
               io_bind (io_call (render mode (bn_target i))) (\<lambda>m. io_return
                 \<lparr>dp_mode = mode, dp_live = bn_live i, dp_target = bn_target i, dp_generation = g,
                  dp_archives = (if mode = Recover then next_gen g else g), dp_instances = n,
                  dp_cluster = \<lparr>ap_name = ''db-cluster'', ap_manifest = m, ap_manager = manager_seed,
                    ap_what = ''the --'' @ mode_name mode @ '' render of Cluster '' @ cluster_name, ap_page = db_runbook\<rparr>\<rparr>))))))"

text \<open>\<open>Built\<close>: an earlier run's Cluster, healthy and on the repository's generation.\<close>

definition archives_to :: "live_cluster \<Rightarrow> string" where
  "archives_to c = fold (\<lambda>(archiver, ps) a. if archiver then param ps ''serverName'' else a) (dc_plugins c) []"

definition db_built :: "'w db_env \<Rightarrow> db_plan \<Rightarrow> ('w, bool) db" where
  "db_built env p =
     io_bind (get_cluster env) (\<lambda>c. case c of None \<Rightarrow> io_return False
       | Some c \<Rightarrow> io_bind (cluster_probe env p) (\<lambda>st. io_return
           (\<not> st_done st \<and> dc_annotations c created_by \<noteq> None \<and> archives_to c = server_name (dp_generation p) \<and>
            dc_phase c = healthy_phase \<and> dc_ready c = dc_instances c)))"

end
