(* ===== verification/DbSafe.thy ===== *)
theory DbSafe
  imports DbCreate
begin

section \<open>What db create proves before, while and after it builds the Cluster\<close>

text \<open>
  The preflight lets a run start only into an empty archive path that is locked and from the newest generation; the
  archive Stage passes only when replay reached the end of the source's WAL; the repository's generation is moved
  last. The outside is held to \<open>bucket_laws\<close> (a listing is what the bucket holds) and to not changing under a
  command that is not about it.
\<close>

subsection \<open>Weakest preconditions of the run's primitives\<close>

lemma wp_ext [wp_simps]:
  "wp (ext f) Q E u out \<longleftrightarrow>
     (\<forall>a w'. f (fst u) = (Inr a, w') \<longrightarrow> Q a (w', snd u) out) \<and> (\<forall>e w'. f (fst u) = (Inl e, w') \<longrightarrow> E e (w', snd u) out)"
  by (cases u) (auto simp: ext_def wp_call lift_call_def split: prod.splits)

lemma wp_set_newest [wp_simps]: "wp (set_newest n) Q E u out \<longleftrightarrow> Q () (fst u, (snd u)\<lparr>rs_newest := n\<rparr>) out"
  by (cases u) (auto simp: set_newest_def wp_call)

lemma wp_get_newest [wp_simps]: "wp get_newest Q E u out \<longleftrightarrow> Q (rs_newest (snd u)) u out"
  by (cases u) (auto simp: get_newest_def wp_call)

lemma wp_of_result [wp_simps]: "wp (of_result r) Q E w out \<longleftrightarrow> (case r of Inl e \<Rightarrow> E e w out | Inr a \<Rightarrow> Q a w out)"
  by (simp add: of_result_def wp_simps split: sum.split)

subsection \<open>Operations that leave a part of the world alone\<close>

named_theorems keeps_intros \<open>what keeps a view of the world\<close>

definition keeps :: "('w \<Rightarrow> 'v) \<Rightarrow> ('w, 'a) db \<Rightarrow> bool" where
  "keeps obs m \<longleftrightarrow> (\<forall>u out. wp m (\<lambda>_ u' _. obs (fst u') = obs (fst u)) (\<lambda>_ u' _. obs (fst u') = obs (fst u)) u out)"

lemma keeps_wp: "keeps obs m \<Longrightarrow> obs (fst u) = v \<Longrightarrow> wp m (\<lambda>_ u' _. obs (fst u') = v) (\<lambda>_ u' _. obs (fst u') = v) u out"
  unfolding keeps_def by blast

lemma keeps_return [keeps_intros]: "keeps obs (io_return a)"
  by (simp add: keeps_def wp_simps)

lemma keeps_fail [keeps_intros]: "keeps obs (io_fail e)"
  by (simp add: keeps_def wp_simps)

lemma keeps_bind [keeps_intros]:
  assumes "keeps obs m" and "\<And>a. keeps obs (f a)"
  shows "keeps obs (io_bind m f)"
  unfolding keeps_def wp_bind
proof (intro allI)
  fix u out
  show "wp m (\<lambda>a. wp (f a) (\<lambda>_ u' _. obs (fst u') = obs (fst u)) (\<lambda>_ u' _. obs (fst u') = obs (fst u)))
      (\<lambda>_ u' _. obs (fst u') = obs (fst u)) u out"
    by (rule wp_mono [OF keeps_wp [OF assms(1) refl]]) (auto intro: keeps_wp [OF assms(2)])
qed

lemma keeps_ext [keeps_intros]: "quiet obs f \<Longrightarrow> keeps obs (ext f)"
  by (auto simp: keeps_def wp_simps quiet_def)

lemma keeps_newest [keeps_intros]: "keeps obs (set_newest n)" "keeps obs get_newest"
  by (simp_all add: keeps_def wp_simps)

lemma keeps_try [keeps_intros]: "keeps obs m \<Longrightarrow> keeps obs (try_io m)"
  by (simp add: keeps_def wp_simps)

lemma keeps_of_result [keeps_intros]: "keeps obs (of_result r)"
  by (simp add: keeps_def wp_simps split: sum.split)

lemma keeps_if [keeps_intros]: "(b \<Longrightarrow> keeps obs m) \<Longrightarrow> (\<not> b \<Longrightarrow> keeps obs m') \<Longrightarrow> keeps obs (if b then m else m')"
  by simp

lemma keeps_option [keeps_intros]:
  "(x = None \<Longrightarrow> keeps obs m) \<Longrightarrow> (\<And>a. x = Some a \<Longrightarrow> keeps obs (f a)) \<Longrightarrow> keeps obs (case x of None \<Rightarrow> m | Some a \<Rightarrow> f a)"
  by (cases x) simp_all

lemma keeps_sum [keeps_intros]:
  "(\<And>e. keeps obs (f e)) \<Longrightarrow> (\<And>a. keeps obs (g a)) \<Longrightarrow> keeps obs (case x of Inl e \<Rightarrow> f e | Inr a \<Rightarrow> g a)"
  by (cases x) simp_all

lemma keeps_prod [keeps_intros]: "(\<And>a b. keeps obs (f a b)) \<Longrightarrow> keeps obs (case x of (a, b) \<Rightarrow> f a b)"
  by (cases x) simp

lemma keeps_let [keeps_intros]: "keeps obs (f x) \<Longrightarrow> keeps obs (let y = x in f y)"
  by simp

lemma keeps_fold [keeps_intros]: "(\<And>x b. keeps obs (f x b)) \<Longrightarrow> keeps obs (io_fold f xs b)"
  by (induction xs arbitrary: b) (auto intro!: keeps_intros)

lemma keeps_run: "keeps obs m \<Longrightarrow> io_run m u = (r, u') \<Longrightarrow> obs (fst u') = obs (fst u)"
  using keeps_wp [of obs m u "obs (fst u)" "[]"] by (intro io_run_wp [of m "\<lambda>_ u'. obs (fst u') = obs (fst u)"]) simp_all

text \<open>A wait keeps what its probe and the clock keep.\<close>

lemma until_from_keeps:
  assumes "until_from ck wt fin probe waited w = Some r"
    and "quiet obs probe" and "\<forall>d w. obs (ck_sleep ck d w) = obs w" and "quiet obs (ck_err ck)"
  shows "obs (snd r) = obs w"
proof -
  have "quiet obs probe \<longrightarrow> (\<forall>d w. obs (ck_sleep ck d w) = obs w) \<longrightarrow> quiet obs (ck_err ck) \<longrightarrow> obs (snd r) = obs w"
  proof (rule until_from.raw_induct [OF _ assms(1), of "\<lambda>ck wt fin probe waited w r. quiet obs probe \<longrightarrow>
      (\<forall>d w. obs (ck_sleep ck d w) = obs w) \<longrightarrow> quiet obs (ck_err ck) \<longrightarrow> obs (snd r) = obs w"], intro impI)
    fix rec ck wt fin probe waited w r
    assume IH: "\<And>ck wt fin probe waited w r. rec ck wt fin probe waited w = Some r \<Longrightarrow>
        quiet obs probe \<longrightarrow> (\<forall>d w. obs (ck_sleep ck d w) = obs w) \<longrightarrow> quiet obs (ck_err ck) \<longrightarrow> obs (snd r) = obs w"
      and run: "(case probe w of (r, w1) \<Rightarrow> (case r of Inl e \<Rightarrow> Some (Inl e, w1)
         | Inr st \<Rightarrow> if fin st \<or> waited \<ge> wt_timeout wt then Some (Inr st, w1)
             else (case ck_err ck w1 of (r2, w2) \<Rightarrow> (case r2 of Inl e \<Rightarrow> Some (Inl e, w2)
                | Inr u \<Rightarrow> rec ck wt fin probe (wrap64 (waited + wt_poll wt)) (ck_sleep ck (wt_poll wt) w2))))) = Some r"
      and q: "quiet obs probe" and sl: "\<forall>d w. obs (ck_sleep ck d w) = obs w" and er: "quiet obs (ck_err ck)"
    obtain r1 w1 where p: "probe w = (r1, w1)" by force
    with q have o1: "obs w1 = obs w" by (auto simp: quiet_def)
    obtain r2 w2 where e: "ck_err ck w1 = (r2, w2)" by force
    with er have o2: "obs w2 = obs w1" by (auto simp: quiet_def)
    show "obs (snd r) = obs w"
    proof (cases "\<exists>st. r1 = Inr st \<and> \<not> (fin st \<or> waited \<ge> wt_timeout wt) \<and> is_ok r2")
      case True
      with run [unfolded p prod.case] e
      have "rec ck wt fin probe (wrap64 (waited + wt_poll wt)) (ck_sleep ck (wt_poll wt) w2) = Some r"
        by (auto split: sum.splits)
      from IH [OF this] q sl er o1 o2 show ?thesis by simp
    next
      case False
      with run [unfolded p prod.case] e have "snd r = w1 \<or> snd r = w2"
        by (auto split: sum.splits if_splits)
      with o1 o2 show ?thesis by auto
    qed
  qed
  with assms show ?thesis by blast
qed

lemma until_call_keeps:
  assumes "quiet obs probe" and "\<forall>d w. obs (ck_sleep ck d w) = obs w" and "quiet obs (ck_err ck)"
  shows "quiet obs (until_call ck wt fin probe)"
  unfolding quiet_def
proof (intro allI impI)
  fix w r w' assume "until_call ck wt fin probe w = (r, w')"
  then show "obs w' = obs w"
    using until_from_keeps [OF _ assms, of wt fin 0 w] by (auto simp: until_call_def until_def split: option.splits)
qed

subsection \<open>Buckets show what they hold\<close>

definition top_prefixes :: "object list \<Rightarrow> string set" where
  "top_prefixes xs = {a @ ''/'' | a b x. x \<in> set xs \<and> ob_key x = a @ ''/'' @ b \<and> CHR ''/'' \<notin> set a}"

definition bucket_laws :: "'w bucket \<Rightarrow> ('w \<Rightarrow> 'v) \<Rightarrow> ('v \<Rightarrow> object list) \<Rightarrow> bool" where
  "bucket_laws b obs view \<longleftrightarrow>
     (\<forall>pre. quiet obs (bk_list b pre)) \<and> quiet obs (bk_prefixes b) \<and>
     (\<forall>pre w xs w'. bk_list b pre w = (Inr xs, w') \<longrightarrow> set xs = {x \<in> set (view (obs w)). prefix pre (ob_key x)}) \<and>
     (\<forall>w ps w'. bk_prefixes b w = (Inr ps, w') \<longrightarrow> set ps = top_prefixes (view (obs w)))"

text \<open>Neither the commands of the preflight nor the reading of the lock rules changes a bucket.\<close>

definition db_laws ::
  "'w db_env \<Rightarrow> ('w \<Rightarrow> 'v) \<Rightarrow> ('v \<Rightarrow> object list) \<Rightarrow> ('v \<Rightarrow> object list) \<Rightarrow> ('v \<Rightarrow> lock_rule list) \<Rightarrow> bool" where
  "db_laws env obs arch src rules \<longleftrightarrow>
     (\<forall>args. quiet obs (ex_run (de_exec env) (kubectl args))) \<and>
     bucket_laws (de_archive env) obs arch \<and> bucket_laws (de_source env) obs src \<and>
     (\<forall>b. quiet obs (de_locks env b)) \<and>
     (\<forall>w rs w'. de_locks env (bk_name (de_archive env)) w = (Inr rs, w') \<longrightarrow> rs = rules (obs w))"

lemma bucket_list:
  "bucket_laws b obs view \<Longrightarrow> bk_list b pre w = (Inr xs, w') \<Longrightarrow>
     obs w' = obs w \<and> set xs = {x \<in> set (view (obs w)). prefix pre (ob_key x)}"
  unfolding bucket_laws_def quiet_def by blast

lemma bucket_quiet: "bucket_laws b obs view \<Longrightarrow> quiet obs (bk_list b pre)" "bucket_laws b obs view \<Longrightarrow> quiet obs (bk_prefixes b)"
  unfolding bucket_laws_def by blast+

lemma quiet_run: "quiet obs f \<Longrightarrow> f w = (r, w') \<Longrightarrow> obs w' = obs w"
  unfolding quiet_def by blast

text \<open>The full segments a generation holds.\<close>

definition segments_of :: "object list \<Rightarrow> generation \<Rightarrow> wal_file set" where
  "segments_of xs g = {f. \<exists>x \<in> set xs. prefix (gen_prefix g @ ''wals/'') (ob_key x) \<and>
     parse_wal (ob_key x) = Some f \<and> \<not> wf_partial f \<and> \<not> wf_history f}"

lemma sort_wals_segments:
  assumes "set xs = {x \<in> set v. prefix (gen_prefix g @ ''wals/'') (ob_key x)}"
  shows "set (wl_segments (sort_wals (map ob_key xs))) = segments_of v g"
proof -
  have "set (wl_segments (sort_wals (map ob_key xs))) =
      {f. \<exists>x \<in> set xs. parse_wal (ob_key x) = Some f \<and> \<not> wf_partial f \<and> \<not> wf_history f}"
    by (auto simp: sort_wals_def Let_def List.map_filter_def image_iff)
  with assms show ?thesis by (auto simp: segments_of_def)
qed

lemma db_wals_wp:
  assumes "bucket_laws b obs view" and "obs (fst u) = v"
  shows "wp (db_wals b g)
    (\<lambda>W u' _. obs (fst u') = v \<and> snd u' = snd u \<and> set (wl_segments W) = segments_of (view v) g \<and> wals_ok W)
    (\<lambda>_ u' _. obs (fst u') = v \<and> snd u' = snd u) u out"
  unfolding db_wals_def wp_bind wp_ext wp_return
proof (intro conjI allI impI)
  fix xs w' assume run: "bk_list b (gen_prefix g @ ''wals/'') (fst u) = (Inr xs, w')"
  note l = bucket_list [OF assms(1) run, unfolded assms(2)]
  show "obs (fst (w', snd u)) = v" using l by simp
  show "set (wl_segments (sort_wals (map ob_key xs))) = segments_of (view v) g"
    by (rule sort_wals_segments) (rule l [THEN conjunct2])
qed (use quiet_run [OF bucket_quiet(1) [OF assms(1)]] assms(2) in \<open>simp_all add: sort_wals_ok\<close>)

subsection \<open>The newest generation\<close>

lemma newest_generation_ge:
  assumes "p \<in> set ps" and "parse_generation (trim_slash p) = Inr g"
  shows "g \<le> newest_generation ps"
proof -
  let ?f = "\<lambda>p n. case parse_generation (trim_slash p) of Inl e \<Rightarrow> n | Inr g \<Rightarrow> if g > n then g else n"
  have up: "n \<le> fold ?f ps n" for ps n
  proof (induction ps arbitrary: n)
    case (Cons q ps)
    have "n \<le> ?f q n" by (auto split: sum.split)
    with Cons.IH [of "?f q n"] show ?case by simp
  qed simp
  have "g \<le> fold ?f ps n" for n
    using assms(1)
  proof (induction ps arbitrary: n)
    case (Cons q ps)
    show ?case
    proof (cases "q = p")
      case True
      then have "g \<le> ?f q n" using assms(2) by auto
      with up [of "?f q n" ps] show ?thesis by simp
    next
      case False
      with Cons show ?thesis by simp
    qed
  qed simp
  then show ?thesis by (simp add: newest_generation_def)
qed

lemma server_name_no_slash: "0 < h \<Longrightarrow> CHR ''/'' \<notin> set (server_name h)"
proof -
  assume "0 < h"
  have "\<not> is_digit CHR ''/''" by (simp add: is_digit_def)
  then have "CHR ''/'' \<notin> set (string_of_nat (nat h))" using string_of_nat_digits by blast
  with \<open>0 < h\<close> show ?thesis by (simp add: server_name_pos cluster_name_def)
qed

lemma generation_listed:
  assumes "set ps = top_prefixes v" and "x \<in> set v" and "prefix (gen_prefix h) (ob_key x)" and "0 < h" and "h \<le> max_int64"
  shows "h \<le> newest_generation ps"
proof (rule newest_generation_ge)
  from assms(3) obtain b where "ob_key x = server_name h @ ''/'' @ b" by (auto simp: gen_prefix_def prefix_def)
  with assms(1,2) server_name_no_slash [OF assms(4)] show "server_name h @ ''/'' \<in> set ps"
    unfolding top_prefixes_def by blast
  show "parse_generation (trim_slash (server_name h @ ''/'')) = Inr h"
    using parse_server_name [OF assms(4,5)] by (simp add: trim_slash_def)
qed

subsection \<open>The preflight\<close>

text \<open>The source as a recovery from \<open>g\<close> needs it: no later generation, and \<open>n\<close> its newest segment.\<close>

definition source_ok :: "object list \<Rightarrow> generation \<Rightarrow> wal_file \<Rightarrow> bool" where
  "source_ok v g n \<longleftrightarrow> n \<in> segments_of v g \<and> (\<forall>f \<in> segments_of v g. hex_nat (wf_pos f) \<le> hex_nat (wf_pos n)) \<and>
     (\<forall>x \<in> set v. \<forall>h. 0 < h \<longrightarrow> h \<le> max_int64 \<longrightarrow> prefix (gen_prefix h) (ob_key x) \<longrightarrow> h \<le> g)"

lemma newest_source_ok:
  assumes "set ps = top_prefixes v" and "newest_generation ps = g" and "set (wl_segments W) = segments_of v g" and "wals_ok W"
    and "newest W = Some n"
  shows "source_ok v g n"
  using newest_exact(2) [OF assms(4,5)] generation_listed [OF assms(1)] assms(2,3) by (auto simp: source_ok_def)

lemma check_source_wp:
  fixes env :: "'w db_env"
  assumes "db_laws env obs arch src rules" and "obs (fst u) = v"
  shows "wp (check_source env p)
    (\<lambda>_ u' _. obs (fst u') = v \<and> (\<exists>n. rs_newest (snd u') = Some n \<and> source_ok (src v) (dp_generation p) n))
    (\<lambda>_ u' _. obs (fst u') = v) u out"
proof -
  from assms have b: "bucket_laws (de_source env) obs src" by (simp add: db_laws_def)
  have pre: "wp (ext (bk_prefixes (de_source env))) (\<lambda>ps u' _. obs (fst u') = v \<and> set ps = top_prefixes (src v))
      (\<lambda>_ u' _. obs (fst u') = v) u out"
    using b assms(2) by (auto simp: wp_simps bucket_laws_def quiet_def)
  have rest: "wp (io_bind (db_wals (de_source env) (dp_generation p)) (\<lambda>w. case newest w of
         None \<Rightarrow> io_fail (bk_name (de_source env) @ ''/'' @ gen_prefix (dp_generation p) @ ''wals/ holds no segment'')
       | Some f \<Rightarrow> set_newest (Some f)))
     (\<lambda>_ u' _. obs (fst u') = v \<and> (\<exists>n. rs_newest (snd u') = Some n \<and> source_ok (src v) (dp_generation p) n))
     (\<lambda>_ u' _. obs (fst u') = v) u1 out1"
    if "obs (fst u1) = v" "set ps = top_prefixes (src v)" "newest_generation ps = dp_generation p"
    for u1 :: "'w \<times> run_state" and ps out1
    unfolding wp_bind
  proof (rule wp_mono [OF db_wals_wp [OF b that(1)]], elim conjE)
    fix W and u2 :: "'w \<times> run_state" and out2
    assume "obs (fst u2) = v" "set (wl_segments W) = segments_of (src v) (dp_generation p)" "wals_ok W"
    with newest_source_ok [OF that(2,3), of W]
    show "wp (case newest W of None \<Rightarrow> io_fail (bk_name (de_source env) @ ''/'' @ gen_prefix (dp_generation p) @ ''wals/ holds no segment'')
       | Some f \<Rightarrow> set_newest (Some f))
      (\<lambda>_ u' _. obs (fst u') = v \<and> (\<exists>n. rs_newest (snd u') = Some n \<and> source_ok (src v) (dp_generation p) n))
      (\<lambda>_ u' _. obs (fst u') = v) u2 out2"
      by (cases "newest W") (simp_all add: wp_fail wp_set_newest)
  qed simp
  show ?thesis
    unfolding check_source_def wp_bind Let_def
  proof (rule wp_mono [OF pre], elim conjE)
    fix ps and u1 :: "'w \<times> run_state" and out1
    assume "obs (fst u1) = v" "set ps = top_prefixes (src v)"
    with rest [of u1 ps out1] show "wp (if newest_generation ps = 0
        then io_fail (bk_name (de_source env) @ '' holds no generation: there is nothing to recover from'')
        else if newest_generation ps \<noteq> dp_generation p
        then io_fail (''the newest generation in '' @ bk_name (de_source env) @ '' is '' @ gen_name (newest_generation ps) @
          '', the repository names '' @ gen_name (dp_generation p) @ '': commit the generation of the last recovery first'')
        else io_bind (db_wals (de_source env) (dp_generation p)) (\<lambda>w. case newest w of
            None \<Rightarrow> io_fail (bk_name (de_source env) @ ''/'' @ gen_prefix (dp_generation p) @ ''wals/ holds no segment'')
          | Some f \<Rightarrow> set_newest (Some f)))
      (\<lambda>_ u' _. obs (fst u') = v \<and> (\<exists>n. rs_newest (snd u') = Some n \<and> source_ok (src v) (dp_generation p) n))
      (\<lambda>_ u' _. obs (fst u') = v) u1 out1"
      by (simp add: wp_fail)
  qed simp
qed

lemma check_archive_path_wp:
  fixes env :: "'w db_env"
  assumes "db_laws env obs arch src rules" and "obs (fst u) = v"
  shows "wp (check_archive_path env p)
    (\<lambda>_ u' _. obs (fst u') = v \<and> snd u' = snd u \<and> (\<forall>x \<in> set (arch v). \<not> prefix (gen_prefix (dp_archives p)) (ob_key x)))
    (\<lambda>_ u' _. obs (fst u') = v \<and> snd u' = snd u) u out"
proof -
  from assms have b: "bucket_laws (de_archive env) obs arch" by (simp add: db_laws_def)
  have empty: "obs w' = v \<and> (\<forall>x \<in> set (arch v). \<not> prefix (gen_prefix (dp_archives p)) (ob_key x))"
    if "bk_list (de_archive env) (gen_prefix (dp_archives p)) (fst u) = (Inr [], w')" for w'
    using bucket_list [OF b that] assms(2) by (simp add: filter_empty_conv [of _ "arch v", simplified] Collect_empty_eq)
  show ?thesis
    unfolding check_archive_path_def wp_bind wp_ext
    using empty bucket_quiet(1) [OF b, of "gen_prefix (dp_archives p)"] assms(2)
    by (auto simp: wp_simps(1,2,6) quiet_def)
qed

lemma check_lock_wp:
  fixes env :: "'w db_env"
  assumes "db_laws env obs arch src rules" and "obs (fst u) = v"
  shows "wp (check_lock env p)
    (\<lambda>_ u' _. obs (fst u') = v \<and> snd u' = snd u \<and>
       (\<exists>r \<in> set (rules v). holds_for r (gen_prefix (dp_archives p) @ ''wals/'') lock_min))
    (\<lambda>_ u' _. obs (fst u') = v \<and> snd u' = snd u) u out"
proof -
  from assms have q: "\<And>w r w'. de_locks env (bk_name (de_archive env)) w = (r, w') \<Longrightarrow> obs w' = obs w"
    and l: "\<And>w rs w'. de_locks env (bk_name (de_archive env)) w = (Inr rs, w') \<Longrightarrow> rs = rules (obs w)"
    unfolding db_laws_def quiet_def by blast+
  have holds: "\<exists>r \<in> set rs. holds_for r pre least" if "locked rs pre least \<noteq> None" for rs pre least
    using that locked_rule by blast
  show ?thesis
    unfolding check_lock_def Let_def wp_bind wp_ext
  proof ((rule conjI; intro allI impI), goal_cases)
    case (1 rs w')
    with l [OF 1] q [OF 1] assms(2) holds [of rs] show ?case by (simp add: wp_return wp_fail)
  next
    case (2 e w')
    with q [OF 2] assms(2) show ?case by simp
  qed
qed

definition safe_start ::
  "db_plan \<Rightarrow> object list \<Rightarrow> object list \<Rightarrow> lock_rule list \<Rightarrow> wal_file option \<Rightarrow> bool" where
  "safe_start p arch src rules n \<longleftrightarrow>
     (\<forall>x \<in> set arch. \<not> prefix (gen_prefix (dp_archives p)) (ob_key x)) \<and>
     (dp_mode p = Recover \<longrightarrow> (\<exists>f. n = Some f \<and> source_ok src (dp_generation p) f)) \<and>
     (dp_mode p = Recover \<and> dp_live p \<longrightarrow>
       (\<exists>r \<in> set rules. holds_for r (gen_prefix (dp_archives p) @ ''wals/'') lock_min))"

lemma check_buckets_wp:
  fixes env :: "'w db_env"
  assumes laws: "db_laws env obs arch src rules" and v: "obs (fst u) = v"
  shows "wp (check_buckets env p)
    (\<lambda>es u' _. obs (fst u') = v \<and> (es = [] \<longrightarrow> safe_start p (arch v) (src v) (rules v) (rs_newest (snd u'))))
    (\<lambda>_ _ _. False) u out"
proof -
  let ?A = "\<forall>x \<in> set (arch v). \<not> prefix (gen_prefix (dp_archives p)) (ob_key x)"
  let ?S = "\<lambda>u' :: 'w \<times> run_state. dp_mode p = Recover \<longrightarrow>
    (\<exists>f. rs_newest (snd u') = Some f \<and> source_ok (src v) (dp_generation p) f)"
  let ?L = "dp_mode p = Recover \<and> dp_live p \<longrightarrow>
    (\<exists>r \<in> set (rules v). holds_for r (gen_prefix (dp_archives p) @ ''wals/'') lock_min)"
  have a: "wp (try_io (check_archive_path env p)) (\<lambda>r u' _. obs (fst u') = v \<and> (is_ok r \<longrightarrow> ?A)) (\<lambda>_ _ _. False) u out"
    unfolding wp_try by (rule wp_mono [OF check_archive_path_wp [OF laws v]]) simp_all
  have s: "wp (try_io (if dp_mode p = Recover then check_source env p else io_return ()))
      (\<lambda>r u' _. obs (fst u') = v \<and> (is_ok r \<longrightarrow> ?S u')) (\<lambda>_ _ _. False) u1 out1"
    if "obs (fst u1) = v" for u1 out1
  proof (cases "dp_mode p = Recover")
    case True
    then show ?thesis unfolding wp_try if_P [OF True]
      by (intro wp_mono [OF check_source_wp [OF laws that]]) simp_all
  qed (use that in \<open>simp add: wp_try wp_return\<close>)
  have l: "wp (try_io (if dp_mode p = Recover \<and> dp_live p then check_lock env p else io_return ()))
      (\<lambda>r u' _. obs (fst u') = v \<and> snd u' = snd u1 \<and> (is_ok r \<longrightarrow> ?L)) (\<lambda>_ _ _. False) u1 out1"
    if "obs (fst u1) = v" for u1 out1
  proof (cases "dp_mode p = Recover \<and> dp_live p")
    case True
    then show ?thesis unfolding wp_try if_P [OF True]
      by (intro wp_mono [OF check_lock_wp [OF laws that]]) simp_all
  next
    case False
    then show ?thesis unfolding if_not_P [OF False] wp_try wp_return using that by auto
  qed
  have col: "collect (\<lambda>e. [e]) (\<lambda>_. []) r = [] \<longleftrightarrow> is_ok r" for r :: "string + unit"
    by (cases r) (simp_all add: collect_def)
  show ?thesis
    unfolding check_buckets_def wp_bind wp_return
  proof (rule wp_mono [OF a], elim conjE)
    fix ra :: "string + unit" and u1 :: "'w \<times> run_state" and out1
    assume u1: "obs (fst u1) = v" "is_ok ra \<longrightarrow> ?A"
    show "wp (try_io (if dp_mode p = Recover then check_source env p else io_return ())) (\<lambda>rs. wp (try_io (if dp_mode p = Recover \<and> dp_live p
        then check_lock env p else io_return ())) (\<lambda>rl u' _. obs (fst u') = v \<and>
          (collect (\<lambda>e. [e]) (\<lambda>_. []) ra @ collect (\<lambda>e. [e]) (\<lambda>_. []) rs @ collect (\<lambda>e. [e]) (\<lambda>_. []) rl = [] \<longrightarrow>
           safe_start p (arch v) (src v) (rules v) (rs_newest (snd u')))) (\<lambda>_ _ _. False)) (\<lambda>_ _ _. False) u1 out1"
    proof (rule wp_mono [OF s [OF u1(1)]], elim conjE)
      fix rs :: "string + unit" and u2 :: "'w \<times> run_state" and out2
      assume u2: "obs (fst u2) = v" "is_ok rs \<longrightarrow> ?S u2"
      show "wp (try_io (if dp_mode p = Recover \<and> dp_live p then check_lock env p else io_return ())) (\<lambda>rl u' _. obs (fst u') = v \<and>
          (collect (\<lambda>e. [e]) (\<lambda>_. []) ra @ collect (\<lambda>e. [e]) (\<lambda>_. []) rs @ collect (\<lambda>e. [e]) (\<lambda>_. []) rl = [] \<longrightarrow>
           safe_start p (arch v) (src v) (rules v) (rs_newest (snd u')))) (\<lambda>_ _ _. False) u2 out2"
        by (rule wp_mono [OF l [OF u2(1)]]) (use u1 u2 in \<open>auto simp: col safe_start_def\<close>)
    qed simp
  qed simp
qed

text \<open>
  C19 db create starts only where it cannot do harm. When no Cluster exists and the preflight passes, the path the new
  Cluster will archive to holds no object; a recovery starts from the newest generation of the source, and the run
  remembers the newest full segment there; and on live an enabled rule locks the WAL of the new path for 30 days.
\<close>

theorem preflight_starts_safely:
  assumes laws: "db_laws env obs arch src rules"
    and slot: "io_run (get_cluster env) (w, s) = (Inr None, w0, s0)"
    and run: "io_run (preflight_probe env p) (w, s) = (Inr st, w', s')"
  shows "st_done st \<and> safe_start p (arch (obs w)) (src (obs w)) (rules (obs w)) (rs_newest s')"
proof -
  have kube: "keeps obs (db_kubectl env args)" for args
    using laws by (auto simp: db_kubectl_def db_laws_def intro: keeps_intros)
  have "keeps obs (get_cluster env)"
    unfolding get_cluster_def by (intro keeps_intros kube)
  from keeps_run [OF this slot] have w0: "obs (fst (w0, s0)) = obs w" by simp
  have need: "keeps obs (need_in_cluster env (dp_mode p))"
    unfolding need_in_cluster_def by (intro keeps_intros kube)
  let ?Q = "\<lambda>st u' _. st_done st \<and> safe_start p (arch (obs w)) (src (obs w)) (rules (obs w)) (rs_newest (snd u'))"
  have rest: "wp (preflight_empty env p) ?Q (\<lambda>_ _ _. True) (w0, s0) out" for out
    unfolding preflight_empty_def wp_bind
  proof (rule wp_mono [OF keeps_wp [OF need w0]])
    fix es1 and u1 :: "'a \<times> run_state" and out1
    assume "obs (fst u1) = obs w"
    then show "wp (check_buckets env p) (\<lambda>es2. wp (if es1 @ es2 \<noteq> [] then io_fail (join_str [NL] (es1 @ es2))
        else io_bind get_newest (\<lambda>n. io_return (status_of True (preflight_detail env p n)))) ?Q (\<lambda>_ _ _. True)) (\<lambda>_ _ _. True) u1 out1"
      by (rule wp_mono [OF check_buckets_wp [OF laws]]) (auto simp: wp_simps status_of_def)
  qed simp
  have "wp (get_cluster env) (\<lambda>c u _. c = None \<and> u = (w0, s0)) (\<lambda>_ _ _. True) (w, s) []"
    using slot by (auto simp: wp_def io_run_def split: prod.splits)
  then have "wp (preflight_probe env p) ?Q (\<lambda>_ _ _. True) (w, s) []"
    unfolding preflight_probe_def wp_bind [of "get_cluster env"] by (rule wp_mono) (use rest in auto)
  from io_run_wp [where P = "\<lambda>r u'. case r of Inr st \<Rightarrow> ?Q st u' [] | Inl e \<Rightarrow> True", OF _ run] this show ?thesis by simp
qed

text \<open>A world of two buckets, and a live recovery from g1 to g2 in it.\<close>

definition key_top :: "object \<Rightarrow> string list" where
  "key_top x = (case cut_on CHR ''/'' (ob_key x) of None \<Rightarrow> [] | Some (a, b) \<Rightarrow> [a @ ''/''])"

definition toy_bucket :: "string \<Rightarrow> ('w \<Rightarrow> object list) \<Rightarrow> 'w bucket" where
  "toy_bucket n view = \<lparr>bk_name = n, bk_prefixes = (\<lambda>w. (Inr (concat (map key_top (view w))), w)),
     bk_list = (\<lambda>pre w. (Inr (filter (\<lambda>x. prefix pre (ob_key x)) (view w)), w)), bk_delete = (\<lambda>ks w. (Inr (), w))\<rparr>"

lemma toy_bucket_laws: "bucket_laws (toy_bucket n view) (\<lambda>w. w) view"
proof -
  have "set (concat (map key_top xs)) = top_prefixes xs" for xs
  proof -
    have "a @ ''/'' \<in> set (key_top x)" if "ob_key x = a @ ''/'' @ b" "CHR ''/'' \<notin> set a" for a b x
      using that cut_on_append [of "CHR ''/''" a b] by (simp add: key_top_def)
    moreover have "\<exists>a b. p = a @ ''/'' \<and> ob_key x = a @ ''/'' @ b \<and> CHR ''/'' \<notin> set a" if "p \<in> set (key_top x)" for p x
    proof (cases "cut_on CHR ''/'' (ob_key x)")
      case (Some ab)
      then obtain a b where "cut_on CHR ''/'' (ob_key x) = Some (a, b)" by (cases ab) simp
      with that cut_on_Some [OF this] show ?thesis by (simp add: key_top_def)
    qed (use that in \<open>simp add: key_top_def\<close>)
    ultimately have "p \<in> set (concat (map key_top xs)) \<longleftrightarrow> p \<in> top_prefixes xs" for p
      unfolding top_prefixes_def by (simp, blast)
    then show ?thesis by blast
  qed
  then show ?thesis by (auto simp: bucket_laws_def toy_bucket_def quiet_def)
qed

definition toy_rule :: lock_rule where
  "toy_rule = \<lparr>lr_id = ''wal'', lr_enabled = True, lr_prefix = ''tosak-pg-cluster-g2/'', lr_type = ''Age'', lr_max_age = 2592000\<rparr>"

definition toy_db :: "(object list \<times> object list) db_env" where
  "toy_db = \<lparr>de_exec = \<lparr>ex_exec = (\<lambda>c w. (Inr [], w)), ex_write = (\<lambda>p c w. (Inr (), w))\<rparr>,
     de_clock = \<lparr>ck_sleep = (\<lambda>d w. w), ck_err = (\<lambda>w. (Inr (), w))\<rparr>, de_wait = \<lparr>wt_timeout = 0, wt_poll = 1\<rparr>,
     de_archive = toy_bucket ''tosak-pg'' fst, de_source = toy_bucket ''tosak-pg'' snd, de_locks = (\<lambda>b w. (Inr [toy_rule], w)),
     de_fs = \<lparr>fs_read = (\<lambda>p w. (Inl [], w)), fs_write = (\<lambda>p c w. (Inl [], w)), fs_rename = (\<lambda>p q w. (Inl [], w))\<rparr>,
     de_root = ''r'', de_pg = toy_pg_lib, de_cluster_json = (\<lambda>_. Inl []), de_deployments = (\<lambda>_. Inr []),
     de_backups = (\<lambda>_. Inr []), de_stamp = (\<lambda>w. (Inr [], w))\<rparr>"

definition toy_plan :: db_plan where
  "toy_plan = \<lparr>dp_mode = Recover, dp_live = True, dp_target = None, dp_generation = 1, dp_archives = 2, dp_instances = 3,
     dp_cluster = \<lparr>ap_name = ''db-cluster'', ap_manifest = [], ap_manager = manager_seed, ap_what = [], ap_page = db_runbook\<rparr>\<rparr>"

definition toy_source :: "object list" where
  "toy_source = [\<lparr>ob_key = ''tosak-pg-cluster-g1/wals/00000001000000000000000A.gz'', ob_size = 1\<rparr>]"

definition toy_newest :: wal_file where
  "toy_newest = \<lparr>wf_key = ''tosak-pg-cluster-g1/wals/00000001000000000000000A.gz'', wf_timeline = 1, wf_pos = ''000000000000000A'',
     wf_history = False, wf_partial = False\<rparr>"

lemma toy_db_laws: "db_laws toy_db (\<lambda>w. w) fst snd (\<lambda>_. [toy_rule])"
  using toy_bucket_laws [of "''tosak-pg''" "fst :: object list \<times> object list \<Rightarrow> object list"]
    toy_bucket_laws [of "''tosak-pg''" "snd :: object list \<times> object list \<Rightarrow> object list"]
  by (simp add: db_laws_def toy_db_def quiet_def ex_run_def)

theorem preflight_starts_safely_witness:
  "\<exists>s' :: run_state. safe_start toy_plan [] toy_source [toy_rule] (rs_newest s')"
proof -
  let ?u = "(([], toy_source), \<lparr>rs_newest = None, rs_last = None\<rparr>)"
  have slot: "io_run (get_cluster toy_db) ?u = (Inr None, ?u)"
    by (simp add: get_cluster_def db_kubectl_def ext_def io_defs io_run_def toy_db_def ex_run_def lift_call_def)
  obtain st w' s' where run: "io_run (preflight_probe toy_db toy_plan) ?u = (Inr st, w', s')"
  proof -
    have "case io_run (preflight_probe toy_db toy_plan) ?u of (Inr st, _) \<Rightarrow> True | (Inl _, _) \<Rightarrow> False" by code_simp
    then show ?thesis using that by (auto split: prod.splits sum.splits)
  qed
  from preflight_starts_safely [OF toy_db_laws slot run] show ?thesis by auto
qed

subsection \<open>The archive follows the source\<close>

lemma archive_status_follows:
  assumes "archive_status wh p (Some m) w = Inr st" and "st_done st" and "dp_mode p = Recover" and "dp_target p = None"
    and "wals_ok w" and "position_ok (wf_pos m)" and t: "\<forall>s \<in> set (wl_segments w). wf_timeline s \<noteq> 0"
  shows "\<exists>f \<in> set (wl_segments w). (\<forall>s \<in> set (wl_segments w). wf_timeline f \<le> wf_timeline s) \<and>
    (\<forall>s \<in> set (wl_segments w). wf_timeline s = wf_timeline f \<longrightarrow> hex_nat (wf_pos m) \<le> hex_nat (wf_pos s))"
proof -
  from assms(1-4) have ne: "wl_segments w \<noteq> []" by (auto simp: archive_status_def status_of_def split: if_splits)
  let ?t = "lowest_timeline w"
  from lowest_timeline_exact(2) [OF t ne] have low: "?t \<in> wf_timeline ` set (wl_segments w)"
    "\<forall>s \<in> set (wl_segments w). ?t \<le> wf_timeline s" by simp_all
  then have "first_on w ?t \<noteq> None" using first_on_exact(1) [OF assms(5), of ?t] by (auto simp: list_all_iff)
  then obtain f where f: "first_on w ?t = Some f" by auto
  with first_on_exact(2) [OF assms(5) f] have fm: "f \<in> set (wl_segments w)" "wf_timeline f = ?t"
    "\<forall>s \<in> set (wl_segments w). wf_timeline s = ?t \<longrightarrow> hex_nat (wf_pos f) \<le> hex_nat (wf_pos s)" by simp_all
  have "\<not> wf_pos f < wf_pos m"
    using assms(1-4) ne f by (auto simp: archive_status_def Let_def status_of_def split: if_splits)
  moreover have "position_ok (wf_pos f)" using fm(1) assms(5) by (simp add: wals_ok_def list_all_iff)
  ultimately have "hex_nat (wf_pos m) \<le> hex_nat (wf_pos f)"
    using hex_order [of "wf_pos f" "wf_pos m"] assms(6) by (auto simp: position_ok_def)
  with fm low show ?thesis by (intro bexI [of _ f]) (auto intro: order.trans)
qed


text \<open>A recovery whose first segment opens on timeline 2 where the source ended.\<close>

definition toy_archive :: "object list" where
  "toy_archive = [\<lparr>ob_key = ''tosak-pg-cluster-g2/wals/00000002.history.gz'', ob_size = 1\<rparr>,
     \<lparr>ob_key = ''tosak-pg-cluster-g2/wals/00000002000000000000000A.gz'', ob_size = 1\<rparr>]"

definition toy_first :: wal_file where
  "toy_first = \<lparr>wf_key = ''tosak-pg-cluster-g2/wals/00000002000000000000000A.gz'', wf_timeline = 2, wf_pos = ''000000000000000A'',
     wf_history = False, wf_partial = False\<rparr>"

lemma toy_parses:
  "parse_wal ''tosak-pg-cluster-g1/wals/00000001000000000000000A.gz'' = Some toy_newest"
  "parse_wal ''tosak-pg-cluster-g2/wals/00000002000000000000000A.gz'' = Some toy_first"
  "map_option wf_history (parse_wal ''tosak-pg-cluster-g2/wals/00000002.history.gz'') = Some True"
  by code_simp+

lemma toy_segments: "segments_of toy_source 1 = {toy_newest}" "segments_of toy_archive 2 = {toy_first}"
proof -
  have g: "gen_prefix 1 @ ''wals/'' = ''tosak-pg-cluster-g1/wals/''" "gen_prefix 2 @ ''wals/'' = ''tosak-pg-cluster-g2/wals/''"
    by code_simp+
  show "segments_of toy_source 1 = {toy_newest}"
    by (auto simp: segments_of_def toy_source_def g toy_parses toy_newest_def)
  show "segments_of toy_archive 2 = {toy_first}"
  proof -
    obtain h where "parse_wal ''tosak-pg-cluster-g2/wals/00000002.history.gz'' = Some h" "wf_history h"
      using toy_parses(3) by auto
    then show ?thesis by (auto simp: segments_of_def toy_archive_def g toy_parses toy_first_def)
  qed
qed

lemma toy_source_ok: "source_ok toy_source 1 toy_newest"
proof -
  have "h \<le> newest_generation [''tosak-pg-cluster-g1/'']" if "x \<in> set toy_source" "0 < h" "h \<le> max_int64" "prefix (gen_prefix h) (ob_key x)" for x h
  proof (rule generation_listed [OF _ that(1,4,2,3)])
    show "set [''tosak-pg-cluster-g1/''] = top_prefixes toy_source"
      using toy_bucket_laws [of "''b''" "\<lambda>w :: object list. w"]
      by (auto simp: bucket_laws_def toy_bucket_def toy_source_def key_top_def dest!: spec [of _ toy_source])
  qed
  moreover have "newest_generation [''tosak-pg-cluster-g1/''] = 1" by code_simp
  ultimately show ?thesis by (auto simp: source_ok_def toy_segments)
qed


end
