(* ===== verification/DbOrder.thy ===== *)
theory DbOrder
  imports DbSafe
begin

section \<open>The generation is bumped last\<close>

text \<open>
  Every Stage of db create but the last works on the host, the buckets and the Kubernetes API; only db-generation writes the
  repository. So a run that changed a file of the repository had passed every other Stage first.
\<close>

subsection \<open>What a run of Stages has printed\<close>

text \<open>A Stage that passed has its line.\<close>

fun passed_line :: "string \<Rightarrow> stage_line \<Rightarrow> bool" where
  "passed_line n (AlreadyDone h m d r) = (m = n)"
| "passed_line n (NowDone h m d) = (m = n)"
| "passed_line n _ = False"

definition passed :: "string \<Rightarrow> stage_line list \<Rightarrow> bool" where
  "passed n out \<longleftrightarrow> list_ex (passed_line n) out"

lemma passed_append [simp]: "passed n (a @ b) \<longleftrightarrow> passed n a \<or> passed n b"
  by (simp add: passed_def)

lemma run_stage_passes:
  "wp (run_stage True h s) (\<lambda>_ _ out'. passed (sg_name s) out' \<and> (\<forall>n. passed n out \<longrightarrow> passed n out'))
     (\<lambda>_ _ _. True) w out"
  by (auto simp: run_stage_def wp_simps) (auto simp: passed_def)

lemma run_stages_passes:
  "wp (run_stages True h ss) (\<lambda>_ _ out'. (\<forall>s \<in> set ss. passed (sg_name s) out') \<and> (\<forall>n. passed n out \<longrightarrow> passed n out'))
     (\<lambda>_ _ _. True) w out"
proof (induction ss arbitrary: w out)
  case (Cons s ss)
  show ?case
    unfolding run_stages_def io_each.simps wp_bind
    by (rule wp_mono [OF run_stage_passes], rule wp_mono [OF Cons.IH [unfolded run_stages_def]]) auto
qed (simp add: run_stages_def wp_simps)

lemma run_stages_append:
  "wp (run_stages m h (xs @ ys)) Q E w out \<longleftrightarrow> wp (run_stages m h xs) (\<lambda>_. wp (run_stages m h ys) Q E) E w out"
proof (induction xs arbitrary: w out)
  case (Cons x xs)
  have "wp (run_stages m h (xs @ ys)) Q E = wp (run_stages m h xs) (\<lambda>_. wp (run_stages m h ys) Q E) E"
    by (intro ext) (rule Cons.IH)
  then show ?case by (simp add: run_stages_def wp_bind)
qed (simp add: run_stages_def wp_simps)

text \<open>Stages that leave a view of the world leave it in any run.\<close>

definition stage_quiet :: "('w \<Rightarrow> 'v) \<Rightarrow> 'w stage \<Rightarrow> bool" where
  "stage_quiet obs s \<longleftrightarrow> (\<forall>h. quiet obs (sg_probe s h) \<and> quiet obs (sg_preview s h) \<and> quiet obs (sg_act s h))"

lemma run_stage_quiet:
  assumes "stage_quiet obs s"
  shows "wp (run_stage m h s) (\<lambda>_ w' _. obs w' = obs w) (\<lambda>_ w' _. obs w' = obs w) w out"
  using assms by (auto simp: stage_quiet_def quiet_def run_stage_def wp_simps)

lemma run_stages_quiet:
  assumes "\<forall>s \<in> set ss. stage_quiet obs s"
  shows "wp (run_stages m h ss) (\<lambda>_ w' _. obs w' = obs w) (\<lambda>_ w' _. obs w' = obs w) w out"
  unfolding run_stages_def
proof (rule wp_each)
  fix s w1 out1 assume "s \<in> set ss" and eq: "obs w1 = obs w"
  with assms run_stage_quiet [of obs s m h w1 out1] show "wp (run_stage m h s) (\<lambda>_ w' _. obs w' = obs w) (\<lambda>_ w' _. obs w' = obs w) w1 out1"
    by simp
qed simp

subsection \<open>The Stages of db create leave the repository\<close>

text \<open>What is outside the repository does not touch its files.\<close>

definition outside_quiet :: "'w db_env \<Rightarrow> ('w \<Rightarrow> 'v) \<Rightarrow> bool" where
  "outside_quiet env view \<longleftrightarrow>
     (\<forall>c. quiet view (ex_exec (de_exec env) c)) \<and> (\<forall>p c. quiet view (ex_write (de_exec env) p c)) \<and>
     (\<forall>d w. view (ck_sleep (de_clock env) d w) = view w) \<and> quiet view (ck_err (de_clock env)) \<and>
     (\<forall>pre. quiet view (bk_list (de_archive env) pre)) \<and> quiet view (bk_prefixes (de_archive env)) \<and>
     (\<forall>pre. quiet view (bk_list (de_source env) pre)) \<and> quiet view (bk_prefixes (de_source env)) \<and>
     (\<forall>b. quiet view (de_locks env b)) \<and> quiet view (de_stamp env)"

lemma quiet_ex_run: "quiet view (ex_exec ex c) \<Longrightarrow> quiet view (ex_run ex c)"
  by (auto simp: quiet_def ex_run_def split: prod.splits)

lemma lift_quiet: "quiet view f \<Longrightarrow> quiet (\<lambda>u. view (fst u)) (lift_call f)"
  by (auto simp: quiet_def lift_call_def split: prod.splits)

lemma lift_quiet_run: "quiet view f \<Longrightarrow> lift_call f u = (r, u') \<Longrightarrow> view (fst u') = view (fst u)"
  by (cases u) (auto simp: quiet_def lift_call_def split: prod.splits)

lemma run_quiet:
  assumes "\<And>w. wp m (\<lambda>_ w' _. view w' = view w) (\<lambda>_ w' _. view w' = view w) w []"
  shows "quiet view (io_run m)"
  unfolding quiet_def
proof (intro allI impI)
  fix w r w' assume "io_run m w = (r, w')"
  from io_run_wp [where P = "\<lambda>_ w'. view w' = view w", OF assms this] show "view w' = view w" .
qed

lemma db_run_quiet: "keeps view m \<Longrightarrow> quiet (\<lambda>u. view (fst u)) (io_run m)"
  by (rule run_quiet) (rule keeps_wp, simp_all)

lemma keeps_call: "quiet (\<lambda>u. view (fst u)) f \<Longrightarrow> keeps view (io_call f)"
  by (auto simp: keeps_def wp_call quiet_def)

lemma exec_keeps:
  assumes "outside_quiet env view"
  shows "quiet view (ex_run (de_exec env) c)" "quiet view (ex_write (de_exec env) f c)"
  using assms by (auto simp: outside_quiet_def intro: quiet_ex_run)

lemma outside_calls:
  assumes "outside_quiet env view"
  shows "quiet view (bk_list (de_archive env) pre)" "quiet view (bk_list (de_source env) pre)"
    "quiet view (bk_prefixes (de_source env))" "quiet view (de_locks env b)" "quiet view (de_stamp env)"
  using assms by (simp_all add: outside_quiet_def)

lemmas outside_keeps = exec_keeps outside_calls

lemma kubectl_keeps [keeps_intros]: "outside_quiet env view \<Longrightarrow> keeps view (db_kubectl env args)"
  unfolding db_kubectl_def by (intro keeps_intros outside_keeps)

lemma get_cluster_keeps [keeps_intros]: "outside_quiet env view \<Longrightarrow> keeps view (get_cluster env)"
  unfolding get_cluster_def by (intro keeps_intros)

lemma psql_keeps [keeps_intros]: "outside_quiet env view \<Longrightarrow> keeps view (psql env pod q)"
  unfolding psql_def by (intro keeps_intros)

lemma switch_wal_keeps [keeps_intros]: "outside_quiet env view \<Longrightarrow> keeps view (switch_wal env)"
  unfolding switch_wal_def by (intro keeps_intros)

lemma until_keeps [keeps_intros]: "outside_quiet env view \<Longrightarrow> keeps view probe \<Longrightarrow> keeps view (until_db env probe)"
  unfolding until_db_def
  by (intro keeps_call until_call_keeps db_run_quiet) (auto simp: outside_quiet_def intro!: lift_quiet)

lemma wait_keeps [keeps_intros]: "outside_quiet env view \<Longrightarrow> keeps view probe \<Longrightarrow> keeps view (wait_db env probe)"
  unfolding wait_db_def by (intro keeps_intros)

lemma wals_keeps [keeps_intros]:
  "outside_quiet env view \<Longrightarrow> keeps view (db_wals (de_archive env) g)"
  "outside_quiet env view \<Longrightarrow> keeps view (db_wals (de_source env) g)"
  unfolding db_wals_def by (intro keeps_intros outside_keeps; assumption?)+

text \<open>The manifest of the Cluster is written and diffed, or applied, on the host.\<close>

lemma wp_put_quiet:
  assumes "\<And>c. quiet view (ex_run ex c)" and "\<And>f c. quiet view (ex_write ex f c)"
  shows "wp (put_manifest ex n c) (\<lambda>_ w' _. view w' = view w) (\<lambda>_ w' _. view w' = view w) w out"
  using assms unfolding put_manifest_def quiet_def by (auto simp: wp_simps)

lemma wp_run_quiet:
  assumes "quiet view f" and "view w1 = view w"
  shows "wp (io_call f) (\<lambda>_ w' _. view w' = view w) (\<lambda>_ w' _. view w' = view w) w1 out"
  using assms unfolding quiet_def by (auto simp: wp_simps)

lemma diff_quiet:
  assumes "\<And>c. quiet view (ex_run ex c)" and "\<And>f c. quiet view (ex_write ex f c)"
  shows "quiet view (io_run (diff_manifest ex n c m))" "quiet view (io_run (apply_manifest ex n c m))"
proof -
  have "wp (diff_manifest ex n c m) (\<lambda>_ w' _. view w' = view w) (\<lambda>_ w' _. view w' = view w) w []" for w
    unfolding diff_manifest_def wp_bind
    by (rule wp_mono [OF wp_put_quiet [OF assms]], rule wp_mono [OF wp_run_quiet [OF assms(1)]])
      (auto simp: wp_simps split: sum.split)
  then show "quiet view (io_run (diff_manifest ex n c m))" by (rule run_quiet)
  have "wp (apply_manifest ex n c m) (\<lambda>_ w' _. view w' = view w) (\<lambda>_ w' _. view w' = view w) w []" for w
    unfolding apply_manifest_def wp_bind
    by (rule wp_mono [OF wp_put_quiet [OF assms]], rule wp_mono [OF wp_run_quiet [OF assms(1)]])
      (auto simp: wp_simps)
  then show "quiet view (io_run (apply_manifest ex n c m))" by (rule run_quiet)
qed

lemma apply_probe_quiet:
  assumes "\<And>c. quiet view (ex_run ex c)" and "\<And>f c. quiet view (ex_write ex f c)"
  shows "quiet view (apply_probe ex a)"
  using diff_quiet(1) [OF assms] unfolding quiet_def by (auto simp: apply_probe_def split: prod.splits sum.splits)

lemma cluster_probe_keeps [keeps_intros]: "outside_quiet env view \<Longrightarrow> keeps view (cluster_probe env p)"
  unfolding cluster_probe_def
  using apply_probe_quiet [OF exec_keeps]
  by (intro keeps_call) (fastforce simp: quiet_def split: prod.splits sum.splits)

lemma preflight_keeps [keeps_intros]:
  "outside_quiet env view \<Longrightarrow> keeps view (need_in_cluster env m)"
  "outside_quiet env view \<Longrightarrow> keeps view (check_archive_path env p)"
  "outside_quiet env view \<Longrightarrow> keeps view (check_source env p)"
  "outside_quiet env view \<Longrightarrow> keeps view (check_lock env p)"
  unfolding need_in_cluster_def check_archive_path_def check_source_def check_lock_def
  by (intro keeps_intros outside_keeps; assumption?)+

lemma preflight_probe_keeps [keeps_intros]: "outside_quiet env view \<Longrightarrow> keeps view (preflight_probe env p)"
  unfolding preflight_probe_def preflight_resume_def preflight_empty_def check_buckets_def
  by (intro keeps_intros; assumption?)

lemma markers_keeps [keeps_intros]: "outside_quiet env view \<Longrightarrow> keeps view (markers env)"
  unfolding markers_def instance_pods_def marker_step_def by (intro keeps_intros; assumption?)

lemma probes_keep [keeps_intros]:
  "outside_quiet env view \<Longrightarrow> keeps view (db_healthy_probe env)"
  "outside_quiet env view \<Longrightarrow> keeps view (archive_probe env p)"
  "outside_quiet env view \<Longrightarrow> keeps view (marker_probe env)"
  "outside_quiet env view \<Longrightarrow> keeps view (replication_probe env p)"
  "outside_quiet env view \<Longrightarrow> keeps view (switchover_probe env p)"
  "outside_quiet env view \<Longrightarrow> keeps view (switched_probe env t)"
  "outside_quiet env view \<Longrightarrow> keeps view (in_bucket env p b)"
  "outside_quiet env view \<Longrightarrow> keeps view (first_backups env)"
  unfolding db_healthy_probe_def archive_probe_def marker_probe_def replication_probe_def switchover_probe_def
    switched_probe_def in_bucket_def first_backups_def
  by (intro keeps_intros outside_keeps; assumption?)+

lemma first_backup_keeps [keeps_intros]: "outside_quiet env view \<Longrightarrow> keeps view (first_backup_probe env p)"
  unfolding first_backup_probe_def by (intro keeps_intros; assumption?)

lemma acts_keep [keeps_intros]:
  "outside_quiet env view \<Longrightarrow> keeps view (archive_act env p)"
  "outside_quiet env view \<Longrightarrow> keeps view (switch_to env t)"
  "outside_quiet env view \<Longrightarrow> keeps view (first_backup_act env p)"
  unfolding archive_act_def switch_to_def first_backup_act_def
  by (intro keeps_intros outside_keeps; assumption?)+

lemma switchover_act_keeps [keeps_intros]: "outside_quiet env view \<Longrightarrow> keeps view (switchover_act env p)"
  unfolding switchover_act_def by (intro keeps_intros; assumption?)

subsection \<open>The Stage that moves the generation\<close>

lemma repo_keeps: "quiet view (io_run m) \<Longrightarrow> keeps view (repo_io m)"
  unfolding keeps_def repo_io_def wp_map_err wp_call by (auto dest: lift_quiet_run)

lemma current_repo_wp:
  assumes "file_laws (de_fs env) view (\<lambda>_. ())"
  shows "wp (current_repo env) (\<lambda>g w' _. view w' = view w \<and> (\<exists>c. view w (root_path (de_root env) cluster_file) = Some c \<and>
     current_gen (de_pg env) c = Inr g)) (\<lambda>_ w' _. view w' = view w) w out"
  unfolding current_repo_def wp_bind wp_either
  by (rule wp_read_file [OF assms]) (auto split: sum.split)

lemma bump_probe_reads:
  assumes "file_laws (de_fs env) view (\<lambda>_. ())" and "io_run (bump_probe env p) u = (r, u')"
  shows "view (fst u') = view (fst u) \<and> (\<forall>st. r = Inr st \<longrightarrow> st_done st \<longrightarrow>
    (\<exists>c. view (fst u) (root_path (de_root env) cluster_file) = Some c \<and> current_gen (de_pg env) c = Inr (dp_archives p)))"
proof -
  let ?P = "\<lambda>r u'. view (fst u') = view (fst u) \<and> (\<forall>st. r = Inr st \<longrightarrow> st_done st \<longrightarrow>
    (\<exists>c. view (fst u) (root_path (de_root env) cluster_file) = Some c \<and> current_gen (de_pg env) c = Inr (dp_archives p)))"
  have cur: "view w' = view (fst u) \<and> (\<forall>g. r = Inr g \<longrightarrow> (\<exists>c. view (fst u) (root_path (de_root env) cluster_file) = Some c \<and>
     current_gen (de_pg env) c = Inr g))" if "io_run (current_repo env) (fst u) = (r, w')" for r w'
    using io_run_wp [where P = "\<lambda>r w'. view w' = view (fst u) \<and> (\<forall>g. r = Inr g \<longrightarrow>
      (\<exists>c. view (fst u) (root_path (de_root env) cluster_file) = Some c \<and> current_gen (de_pg env) c = Inr g))", OF _ that]
      current_repo_wp [OF assms(1), of "fst u" "[]"] by simp
  have "wp (bump_probe env p) (\<lambda>a u' _. ?P (Inr a) u') (\<lambda>e u' _. ?P (Inl e) u') u []"
    unfolding bump_probe_def repo_io_def wp_bind wp_map_err wp_call wp_return
    using cur by (cases u) (auto simp: lift_call_def status_of_def split: prod.splits)
  from io_run_wp [where P = ?P, OF this assms(2)] show ?thesis .
qed

lemma bump_act_files:
  assumes "file_laws (de_fs env) view (\<lambda>_. ())" and "io_run (bump_act env) u = (r, u')"
  shows "\<forall>q. q \<noteq> root_path (de_root env) cluster_file \<longrightarrow> q \<noteq> root_path (de_root env) recover_patch \<longrightarrow>
    view (fst u') q = view (fst u) q"
proof -
  let ?same = "\<lambda>w'. \<forall>q. q \<noteq> root_path (de_root env) cluster_file \<longrightarrow> q \<noteq> root_path (de_root env) recover_patch \<longrightarrow>
    view w' q = view (fst u) q"
  have b: "?same w'" if "io_run (bump (de_pg env) (de_fs env) (de_root env)) (fst u) = (r, w')" for r w'
  proof -
    from that obtain o' where run: "bump (de_pg env) (de_fs env) (de_root env) (fst u, [] :: unit list) = (r, w', o')"
      by (auto simp: io_run_def split: prod.splits)
    from bump_result(2) [OF assms(1) run] show ?thesis by (cases r) (auto simp: bumped_def)
  qed
  have "wp (bump_act env) (\<lambda>_ u' _. ?same (fst u')) (\<lambda>_ u' _. ?same (fst u')) u []"
    unfolding bump_act_def repo_io_def wp_bind wp_map_err wp_call wp_return
    using b by (cases u) (auto simp: lift_call_def split: prod.splits)
  from io_run_wp [where P = "\<lambda>_ u'. ?same (fst u')", OF this assms(2)] show ?thesis .
qed

subsection \<open>The whole run\<close>

definition early_stages :: "'w db_env \<Rightarrow> db_plan \<Rightarrow> ('w \<times> run_state) stage list" where
  "early_stages env p = (if dp_live p \<and> dp_mode p = Recover then butlast (db_stages env p) else db_stages env p)"

definition bump_stage :: "'w db_env \<Rightarrow> db_plan \<Rightarrow> ('w \<times> run_state) stage" where
  "bump_stage env p = last (db_stages env p)"

lemma db_stages_split:
  "db_stages env p = early_stages env p @ (if dp_live p \<and> dp_mode p = Recover then [bump_stage env p] else [])"
  by (simp add: early_stages_def bump_stage_def) (simp add: db_stages_def)

lemma db_stage_quiet:
  assumes "keeps view probe" and "keeps view act"
  shows "stage_quiet (\<lambda>u. view (fst u)) (db_stage n probe t act)"
  using db_run_quiet [OF assms(1)] db_run_quiet [OF assms(2)]
  by (simp add: stage_quiet_def db_stage_def quiet_def)

lemma cluster_stage_quiet:
  assumes "outside_quiet env view"
  shows "stage_quiet (\<lambda>u. view (fst u)) (cluster_stage env p)"
proof -
  have "quiet view (apply_act (de_exec env) (dp_cluster p))"
    unfolding apply_act_def by (rule diff_quiet(2) [OF exec_keeps [OF assms]])
  from lift_quiet_run [OF this] show ?thesis
    using db_run_quiet [OF cluster_probe_keeps [OF assms, of p]]
    by (force simp: stage_quiet_def cluster_stage_def quiet_def split: prod.splits)
qed

lemma early_stages_quiet:
  assumes "outside_quiet env view"
  shows "\<forall>s \<in> set (early_stages env p). stage_quiet (\<lambda>u. view (fst u)) s"
proof -
  note q = db_stage_quiet cluster_stage_quiet [OF assms] keeps_intros assms
  show ?thesis
    by (simp add: early_stages_def db_stages_def) (auto intro!: q)
qed

lemma generation_order:
  assumes laws: "file_laws (de_fs env) view (\<lambda>_. ())" and outside: "outside_quiet env view"
    and run: "run_stages True h (db_stages env p) ((w, s), out) = (r, (w', s'), out')"
  shows "view w' \<noteq> view w \<Longrightarrow> dp_live p \<and> dp_mode p = Recover \<and> (\<forall>t \<in> set (early_stages env p). passed (sg_name t) out')"
    and "\<forall>q. q \<noteq> root_path (de_root env) cluster_file \<longrightarrow> q \<noteq> root_path (de_root env) recover_patch \<longrightarrow> view w' q = view w q"
    and "r = Inr () \<Longrightarrow> dp_live p \<Longrightarrow> dp_mode p = Recover \<Longrightarrow>
      \<exists>c. view w' (root_path (de_root env) cluster_file) = Some c \<and> current_gen (de_pg env) c = Inr (dp_archives p)"
proof -
  let ?bumps = "dp_live p \<and> dp_mode p = Recover" and ?b = "bump_stage env p"
  let ?same = "\<lambda>w'. \<forall>q. q \<noteq> root_path (de_root env) cluster_file \<longrightarrow> q \<noteq> root_path (de_root env) recover_patch \<longrightarrow> view w' q = view w q"
  let ?named = "\<lambda>w'. \<exists>c. view w' (root_path (de_root env) cluster_file) = Some c \<and> current_gen (de_pg env) c = Inr (dp_archives p)"
  let ?passed = "\<lambda>out'. \<forall>t \<in> set (early_stages env p). passed (sg_name t) out'"
  let ?Q = "\<lambda>_ u' out'. (view (fst u') \<noteq> view w \<longrightarrow> ?bumps \<and> ?passed out') \<and> ?same (fst u') \<and> (?bumps \<longrightarrow> ?named (fst u'))"
  let ?E = "\<lambda>_ u' out'. (view (fst u') \<noteq> view w \<longrightarrow> ?bumps \<and> ?passed out') \<and> ?same (fst u')"
  have early: "wp (run_stages True h (early_stages env p)) (\<lambda>_ u' out'. view (fst u') = view w \<and> ?passed out') (\<lambda>_ u' _. view (fst u') = view w) (w, s) out"
    using wp_conj [OF run_stages_quiet [OF early_stages_quiet [OF outside], where m = True and w = "(w, s)"] run_stages_passes]
    by (rule wp_mono) simp_all
  have bump: "wp (run_stages True h [?b]) ?Q ?E u1 out1"
    if "?bumps" "view (fst u1) = view w" "?passed out1" for u1 :: "'a \<times> run_state" and out1
  proof -
    note bumps = that(1)
    obtain t where b: "?b = db_stage ''db-generation'' (bump_probe env p) t (bump_act env)"
      using bumps by (simp add: bump_stage_def db_stages_def)
    have probe: "view (fst u') = view (fst u) \<and> (st_done st \<longrightarrow> ?named (fst u))"
      if "io_run (bump_probe env p) u = (Inr st, u')" for u u' st
      using bump_probe_reads [OF laws that] by simp
    have probe_err: "view (fst u') = view (fst u)" if "io_run (bump_probe env p) u = (Inl e, u')" for u u' e
      using bump_probe_reads [OF laws that] by simp
    have act: "?same (fst u')" if "io_run (bump_act env) u = (r, u')" "view (fst u) = view w" for u u' r
      using bump_act_files [OF laws that(1)] that(2) by simp
    have "wp (run_stage True h ?b) ?Q ?E u1 out1"
      unfolding b run_stage_def db_stage_def stage.simps wp_bind wp_map_err wp_call wp_if wp_say wp_fail
      using that by (cases u1) (auto dest!: probe probe_err dest: act)
    then show ?thesis
      unfolding run_stages_def io_each.simps wp_bind by (rule wp_mono) (simp_all add: wp_return)
  qed
  have "wp (run_stages True h (db_stages env p)) ?Q ?E (w, s) out"
  proof (cases ?bumps)
    case True
    then have split: "db_stages env p = early_stages env p @ [?b]" using db_stages_split [of env p] by simp
    show ?thesis unfolding split run_stages_append
      by (rule wp_mono [OF early]) (use bump [OF True] in auto)
  next
    case False
    then have split: "db_stages env p = early_stages env p" using db_stages_split [of env p] by simp
    show ?thesis unfolding split by (rule wp_mono [OF early]) (use False in auto)
  qed
  with run show "view w' \<noteq> view w \<Longrightarrow> dp_live p \<and> dp_mode p = Recover \<and> ?passed out'" and "?same w'" and "r = Inr () \<Longrightarrow> dp_live p \<Longrightarrow> dp_mode p = Recover \<Longrightarrow> ?named w'"
    by (auto simp: wp_def split: sum.splits)
qed

text \<open>
  C20 The repository names the next generation only once everything else has passed. A run of db create that changed a file
  of the repository was a live recovery in which every other Stage had passed first, and it changed no file but the
  two that name the generation. A live recovery that returns without an error leaves a repository that names the
  generation it archives to.
\<close>

theorem generation_moves_last:
  assumes "file_laws (de_fs env) view (\<lambda>_. ())" and "outside_quiet env view"
    and "run_stages True h (db_stages env p) ((w, s), out) = (r, (w', s'), out')"
  shows "(view w' \<noteq> view w \<longrightarrow> dp_live p \<and> dp_mode p = Recover \<and> (\<forall>t \<in> set (early_stages env p). passed (sg_name t) out')) \<and>
    (\<forall>q. q \<noteq> root_path (de_root env) cluster_file \<longrightarrow> q \<noteq> root_path (de_root env) recover_patch \<longrightarrow> view w' q = view w q) \<and>
    (r = Inr () \<longrightarrow> dp_live p \<longrightarrow> dp_mode p = Recover \<longrightarrow>
      (\<exists>c. view w' (root_path (de_root env) cluster_file) = Some c \<and> current_gen (de_pg env) c = Inr (dp_archives p)))"
  using generation_order [OF assms] by blast

text \<open>A live recovery that resumes with everything but the repository done: the world is the repository's files.\<close>

definition toy_reply :: "string \<Rightarrow> string" where
  "toy_reply c = (let x = last (butlast c) in if x = CHR ''i'' then ''absent'' else if x = CHR 0x27 then ''0'' else ''kluster-rc=0'')"

definition toy_cluster :: live_cluster where
  "toy_cluster = \<lparr>dc_created = 0, dc_annotations = (\<lambda>_. None), dc_instances = 1, dc_plugins = [], dc_phase = healthy_phase,
     dc_ready = 1, dc_primary = ''p'', dc_healthy = [''p'']\<rparr>"

definition toy_objects :: "object list" where
  "toy_objects = toy_archive @ [\<lparr>ob_key = ''tosak-pg-cluster-g2/base/b/backup.info'', ob_size = 1\<rparr>,
     \<lparr>ob_key = ''tosak-pg-cluster-g2/base/b/data.tar.gz'', ob_size = 1\<rparr>]"

definition toy_done :: "(path \<rightharpoonup> string) db_env" where
  "toy_done = \<lparr>de_exec = \<lparr>ex_exec = (\<lambda>c w. (Inr (toy_reply c), w)), ex_write = (\<lambda>p c w. (Inr (), w))\<rparr>,
     de_clock = \<lparr>ck_sleep = (\<lambda>d w. w), ck_err = (\<lambda>w. (Inr (), w))\<rparr>, de_wait = \<lparr>wt_timeout = 0, wt_poll = 1\<rparr>,
     de_archive = toy_bucket ''tosak-pg'' (\<lambda>_. toy_objects), de_source = toy_bucket ''tosak-pg'' (\<lambda>_. toy_source),
     de_locks = (\<lambda>b w. (Inr [], w)), de_fs = mem_fs, de_root = ''r'', de_pg = toy_pg_lib,
     de_cluster_json = (\<lambda>_. Inr toy_cluster), de_deployments = (\<lambda>_. Inr []),
     de_backups = (\<lambda>_. Inr [\<lparr>bi_name = first_backup_prefix @ ''1'', bi_created = 1, bi_cluster = cluster_name,
       bi_phase = ''completed'', bi_id = ''b'', bi_error = []\<rparr>]), de_stamp = (\<lambda>w. (Inr [], w))\<rparr>"

definition toy_live :: db_plan where
  "toy_live = toy_plan\<lparr>dp_instances := 1\<rparr>"

definition toy_host :: host where
  "toy_host = \<lparr>h_name = ''cp'', h_addr = [], h_connected = True\<rparr>"

lemma toy_done_quiet: "outside_quiet toy_done (\<lambda>w. w)"
  by (simp add: outside_quiet_def toy_done_def toy_bucket_def quiet_def)

lemma toy_first_half:
  "case run_stages True toy_host (take 4 (db_stages toy_done toy_live)) ((toy_repo, \<lparr>rs_newest = None, rs_last = None\<rparr>), []) of
     (Inr u, ((w, s), out)) \<Rightarrow> (case rs_newest s of None \<Rightarrow> True | Some f \<Rightarrow> False) | (Inl e, x) \<Rightarrow> False"
  by code_simp

lemma toy_second_half:
  "case run_stages True toy_host (drop 4 (db_stages toy_done toy_live)) ((toy_repo, \<lparr>rs_newest = None, rs_last = d\<rparr>), out) of
     (Inr u, x) \<Rightarrow> True | (Inl e, x) \<Rightarrow> False"
  by code_simp

lemma toy_run:
  "wp (run_stages True toy_host (db_stages toy_done toy_live)) (\<lambda>_ _ _. True) (\<lambda>_ _ _. False)
     (toy_repo, \<lparr>rs_newest = None, rs_last = None\<rparr>) []"
proof -
  have "\<forall>s \<in> set (take 4 (db_stages toy_done toy_live)). stage_quiet (\<lambda>u. fst u) s"
    using early_stages_quiet [OF toy_done_quiet, of toy_live]
    by (auto simp: early_stages_def toy_live_def toy_plan_def db_stages_def)
  from run_stages_quiet [OF this] have keep: "wp (run_stages True toy_host (take 4 (db_stages toy_done toy_live)))
      (\<lambda>_ u _. fst u = toy_repo) (\<lambda>_ u _. fst u = toy_repo) (toy_repo, \<lparr>rs_newest = None, rs_last = None\<rparr>) []"
    by (rule wp_mono) simp_all
  have "wp (run_stages True toy_host (take 4 (db_stages toy_done toy_live)))
      (\<lambda>_ u _. rs_newest (snd u) = None) (\<lambda>_ _ _. False) (toy_repo, \<lparr>rs_newest = None, rs_last = None\<rparr>) []"
    using toy_first_half by (auto simp: wp_def split: prod.splits sum.splits option.splits)
  from wp_conj [OF keep this] have first: "wp (run_stages True toy_host (take 4 (db_stages toy_done toy_live)))
      (\<lambda>_ u _. u = (toy_repo, \<lparr>rs_newest = None, rs_last = rs_last (snd u)\<rparr>)) (\<lambda>_ _ _. False)
      (toy_repo, \<lparr>rs_newest = None, rs_last = None\<rparr>) []"
    by (rule wp_mono) (auto simp: prod_eq_iff)
  have "wp (run_stages True toy_host (take 4 (db_stages toy_done toy_live) @ drop 4 (db_stages toy_done toy_live)))
      (\<lambda>_ _ _. True) (\<lambda>_ _ _. False) (toy_repo, \<lparr>rs_newest = None, rs_last = None\<rparr>) []"
    unfolding run_stages_append
  proof (rule wp_mono [OF first])
    fix a and u :: "(path \<rightharpoonup> string) \<times> run_state" and out
    assume "u = (toy_repo, \<lparr>rs_newest = None, rs_last = rs_last (snd u)\<rparr>)"
    with toy_second_half [of "rs_last (snd u)" out]
    show "wp (run_stages True toy_host (drop 4 (db_stages toy_done toy_live))) (\<lambda>_ _ _. True) (\<lambda>_ _ _. False) u out"
      unfolding wp_def by (auto split: prod.splits sum.splits)
  qed simp
  then show ?thesis by simp
qed

theorem generation_moves_last_witness:
  "\<exists>w' s' out' c. run_stages True toy_host (db_stages toy_done toy_live) ((toy_repo, \<lparr>rs_newest = None, rs_last = None\<rparr>), []) =
     (Inr (), (w', s'), out') \<and> w' (root_path ''r'' cluster_file) = Some c \<and> current_gen toy_pg_lib c = Inr 2"
proof -
  let ?run = "run_stages True toy_host (db_stages toy_done toy_live) ((toy_repo, \<lparr>rs_newest = None, rs_last = None\<rparr>), [])"
  obtain r w' s' out' where run: "?run = (r, (w', s'), out')" by (metis surj_pair)
  from toy_run run have r: "r = Inr ()" by (auto simp: wp_def split: sum.splits)
  have laws: "file_laws (de_fs toy_done) (\<lambda>w. w) (\<lambda>_. ())" by (simp add: toy_done_def mem_fs_laws)
  have "dp_live toy_live" "dp_mode toy_live = Recover" "de_root toy_done = ''r''" "de_pg toy_done = toy_pg_lib" "dp_archives toy_live = 2"
    by (simp_all add: toy_live_def toy_plan_def toy_done_def)
  with generation_moves_last [OF laws toy_done_quiet run] run r show ?thesis by simp
qed

end
