(* ===== verification/Teardown.thy ===== *)
theory Teardown
  imports Cloud Exec
begin

section \<open>cloud/inventory.go and down.go: the end of a rehearsal project\<close>

text \<open>
  The inventory of a project, one list per kind of resource, and its deletion. The operations return the joined error as
  the list of what failed and why; they write the lines of the log. Durations are nanoseconds; the \<open>Created\<close> time of a
  resource is its text as it is printed.
\<close>

record entry = resource +
  rs_rebuild_protected :: bool
  rs_created :: string

record 'w project_api =
  pa_hcloud :: "'w hcloud"
  pa_list :: "kind \<Rightarrow> ('w, api_error, entry list) call"
  pa_every :: nat
  pa_up_to :: nat

type_synonym inventory = "kind \<Rightarrow> entry list"
type_synonym api_errors = "(string \<times> api_error) list"
type_synonym ('w, 'a) teardown = "('w, string, api_errors, 'a) io"

fun kind_name :: "kind \<Rightarrow> string" where
  "kind_name KServer = ''server''"
| "kind_name KLoadBalancer = ''load balancer''"
| "kind_name KVolume = ''volume''"
| "kind_name KPrimaryIP = ''primary IP''"
| "kind_name KFloatingIP = ''floating IP''"
| "kind_name KFirewall = ''firewall''"
| "kind_name KNetwork = ''network''"
| "kind_name KSSHKey = ''ssh key''"
| "kind_name KPlacementGroup = ''placement group''"
| "kind_name KCertificate = ''certificate''"

definition attached_first :: "kind list" where
  "attached_first = [KServer, KLoadBalancer]"

definition detached_then :: "kind list" where
  "detached_then = [KVolume, KPrimaryIP, KFloatingIP, KFirewall, KNetwork, KSSHKey, KPlacementGroup, KCertificate]"

subsection \<open>The inventory\<close>

definition read_kind :: "'w project_api \<Rightarrow> kind \<Rightarrow> inventory \<times> api_errors \<Rightarrow> ('w, inventory \<times> api_errors) teardown" where
  "read_kind api k = (\<lambda>(iv, errs). io_bind (try_io (io_call (pa_list api k))) (\<lambda>r. io_return
     (case r of Inl e \<Rightarrow> (iv, errs @ [(''listing '' @ kind_name k @ ''s'', e)]) | Inr rs \<Rightarrow> (iv(k := rs), errs))))"

definition read_inventory :: "'w project_api \<Rightarrow> ('w, inventory) teardown" where
  "read_inventory api =
     io_bind (io_fold (read_kind api) (attached_first @ detached_then) (\<lambda>_. [], [])) (\<lambda>(iv, errs).
       if errs = [] then io_return iv else io_fail errs)"

definition inventory_items :: "inventory \<Rightarrow> (kind \<times> entry) list" where
  "inventory_items iv = concat (map (\<lambda>k. map (Pair k) (iv k)) (attached_first @ detached_then))"

definition inventory_empty :: "inventory \<Rightarrow> bool" where
  "inventory_empty iv \<longleftrightarrow> inventory_items iv = []"

definition pad_right :: "nat \<Rightarrow> string \<Rightarrow> string" where
  "pad_right n s = s @ replicate (n - length s) (CHR '' '')"

definition item_line :: "kind \<times> entry \<Rightarrow> string" where
  "item_line = (\<lambda>(k, x). ''  '' @ pad_right 15 (kind_name k) @ '' '' @ pad_right 28 (rs_name x) @ '' '' @
     pad_right 10 (string_of_nat (rs_id x)) @ '' created '' @ rs_created x)"

definition print_inventory :: "inventory \<Rightarrow> ('w, unit) teardown" where
  "print_inventory iv =
     (if inventory_empty iv then io_say ''  the project is empty''
      else io_each (\<lambda>i. io_say (item_line i)) (inventory_items iv))"

subsection \<open>Deleting one resource\<close>

text \<open>\<open>deletePrimaryIP\<close> from its first or a later attempt on; \<open>None\<close> when the clock never passes the deadline.\<close>

definition assigned_line :: "'w project_api \<Rightarrow> entry \<Rightarrow> string" where
  "assigned_line api r = ''  primary IP '' @ rs_name r @ '' is still assigned: waiting up to '' @
     duration_string (int (pa_up_to api)) @ '' for Hetzner to unassign it''"

partial_function (option) delete_ip_from ::
  "'w project_api \<Rightarrow> entry \<Rightarrow> nat \<Rightarrow> bool \<Rightarrow> 'w \<Rightarrow> string list \<Rightarrow> ((api_error + unit) \<times> 'w \<times> string list) option" where
  "delete_ip_from api r deadline waited w out =
     (case hc_delete (pa_hcloud api) KPrimaryIP (rs_id r) w of (res, w1) \<Rightarrow>
        if res \<noteq> Inl MustBeUnassigned \<or> hc_now (pa_hcloud api) w1 > deadline then Some (res, w1, out)
        else (let out1 = (if waited then out else out @ [assigned_line api r]) in
          case hc_sleep (pa_hcloud api) (pa_every api) w1 of (slept, w2) \<Rightarrow>
            (case slept of Inl e \<Rightarrow> Some (Inl e, w2, out1)
             | Inr u \<Rightarrow> delete_ip_from api r deadline True w2 out1)))"

declare delete_ip_from.simps [code]

definition delete_ip :: "'w project_api \<Rightarrow> entry \<Rightarrow> ('w, string, api_error, unit) io" where
  "delete_ip api r = (\<lambda>(w, out).
     case delete_ip_from api r (hc_now (pa_hcloud api) w + pa_up_to api) False w out of
       Some x \<Rightarrow> x
     | None \<Rightarrow> (Inl (ApiError ''waits for ever''), w, out))"

fun lifts :: "kind \<Rightarrow> entry \<Rightarrow> bool" where
  "lifts KServer r = (rs_protected r \<or> rs_rebuild_protected r)"
| "lifts KLoadBalancer r = rs_protected r"
| "lifts KVolume r = rs_protected r"
| "lifts KPrimaryIP r = rs_protected r"
| "lifts KFloatingIP r = rs_protected r"
| "lifts KNetwork r = rs_protected r"
| "lifts _ r = False"

definition lift_protection :: "'w project_api \<Rightarrow> kind \<Rightarrow> entry \<Rightarrow> ('w, string, api_error, unit) io" where
  "lift_protection api k r =
     (if lifts k r
      then io_bind (io_call (hc_unprotect (pa_hcloud api) k (rs_id r))) (\<lambda>_. io_call (hc_wait (pa_hcloud api)))
      else io_return ())"

fun delete_call :: "'w project_api \<Rightarrow> kind \<Rightarrow> entry \<Rightarrow> ('w, string, api_error, unit) io" where
  "delete_call api KServer r =
     io_bind (io_call (hc_delete (pa_hcloud api) KServer (rs_id r))) (\<lambda>_. io_call (hc_wait (pa_hcloud api)))"
| "delete_call api KPrimaryIP r = delete_ip api r"
| "delete_call api k r = io_call (hc_delete (pa_hcloud api) k (rs_id r))"

definition delete_resource :: "'w project_api \<Rightarrow> kind \<Rightarrow> entry \<Rightarrow> ('w, string, api_error, unit) io" where
  "delete_resource api k r = io_bind (lift_protection api k r) (\<lambda>_. delete_call api k r)"

subsection \<open>Deleting everything\<close>

definition delete_step :: "kind \<Rightarrow> entry \<Rightarrow> api_errors \<Rightarrow> api_error + unit \<Rightarrow> ('w, api_errors) teardown" where
  "delete_step k r errs res =
     (let what = kind_name k @ '' '' @ rs_name r in
      case res of
        Inl NotFound \<Rightarrow> io_bind (io_say (''  already gone: '' @ what)) (\<lambda>_. io_return errs)
      | Inl e \<Rightarrow> io_return (errs @ [(what, e)])
      | Inr _ \<Rightarrow> io_bind (io_say (''  deleted '' @ what)) (\<lambda>_. io_return errs))"

definition delete_one :: "'w project_api \<Rightarrow> kind \<Rightarrow> entry \<Rightarrow> api_errors \<Rightarrow> ('w, api_errors) teardown" where
  "delete_one api k r errs = io_bind (try_io (delete_resource api k r)) (delete_step k r errs)"

definition delete_kinds :: "'w project_api \<Rightarrow> inventory \<Rightarrow> kind list \<Rightarrow> ('w, api_errors) teardown" where
  "delete_kinds api iv ks = io_fold (\<lambda>k errs. io_fold (delete_one api k) (iv k) errs) ks []"

definition delete_all :: "'w project_api \<Rightarrow> inventory \<Rightarrow> ('w, unit) teardown" where
  "delete_all api iv =
     io_bind (delete_kinds api iv attached_first) (\<lambda>errs.
       if errs \<noteq> [] then io_fail errs
       else io_bind (delete_kinds api iv detached_then) (\<lambda>errs.
         if errs \<noteq> [] then io_fail errs else io_return ()))"

subsection \<open>What the project promises\<close>

text \<open>
  \<open>view w\<close> is what the project holds in world \<open>w\<close>: its resources, the addresses of its primary IPs and those of its
  servers. A read that succeeds shows it and changes nothing; a delete that succeeds, or finds nothing, leaves that
  resource gone and may take a server's own primary IPs with it; nothing else takes a resource away. A server whose delete the API has accepted counts as gone; the code waits for it before it goes on.
\<close>

record project =
  pj_resources :: "(kind \<times> nat) set"
  pj_ips :: "string set"
  pj_server_ips :: "string set"

definition project_reads :: "'w project_api \<Rightarrow> ('w \<Rightarrow> project) \<Rightarrow> ('w \<Rightarrow> 'v) \<Rightarrow> bool" where
  "project_reads api view see \<longleftrightarrow>
     (\<forall>k. quiet see (pa_list api k)) \<and> quiet see (hc_primary_ips (pa_hcloud api)) \<and> quiet see (hc_servers (pa_hcloud api)) \<and>
     (\<forall>k w rs w'. pa_list api k w = (Inr rs, w') \<longrightarrow> Pair k ` rs_id ` set rs = {x \<in> pj_resources (view w). fst x = k}) \<and>
     (\<forall>w ps w'. hc_primary_ips (pa_hcloud api) w = (Inr ps, w') \<longrightarrow> Some ` pj_ips (view w) \<subseteq> pi_ip ` set ps) \<and>
     (\<forall>w ss w'. hc_servers (pa_hcloud api) w = (Inr ss, w') \<longrightarrow> Some ` pj_server_ips (view w) \<subseteq> hs_public_ip ` set ss)"

lemma project_listed:
  assumes "project_reads api view see"
  shows "pa_list api k w = (Inr rs, w') \<Longrightarrow> Pair k ` rs_id ` set rs = {x \<in> pj_resources (view w). fst x = k}"
    and "hc_primary_ips (pa_hcloud api) w = (Inr ps, w') \<Longrightarrow> Some ` pj_ips (view w) \<subseteq> pi_ip ` set ps"
    and "hc_servers (pa_hcloud api) w = (Inr ss, w') \<Longrightarrow> Some ` pj_server_ips (view w) \<subseteq> hs_public_ip ` set ss"
  by (rule assms [unfolded project_reads_def, THEN conjunct2, THEN conjunct2, THEN conjunct2, THEN conjunct1, rule_format]
      assms [unfolded project_reads_def, THEN conjunct2, THEN conjunct2, THEN conjunct2, THEN conjunct2, THEN conjunct1, rule_format]
      assms [unfolded project_reads_def, THEN conjunct2, THEN conjunct2, THEN conjunct2, THEN conjunct2, THEN conjunct2, rule_format],
      assumption)+

lemma project_quiet:
  assumes "project_reads api view see"
  shows "quiet see (pa_list api k)" and "quiet see (hc_primary_ips (pa_hcloud api))" and "quiet see (hc_servers (pa_hcloud api))"
  using assms by (simp_all add: project_reads_def)

definition project_writes :: "'w project_api \<Rightarrow> ('w \<Rightarrow> project) \<Rightarrow> ('w \<Rightarrow> 'o) \<Rightarrow> bool" where
  "project_writes api view obs \<longleftrightarrow>
     (\<forall>k i w r w'. hc_unprotect (pa_hcloud api) k i w = (r, w') \<longrightarrow>
        obs w' = obs w \<and> pj_resources (view w') = pj_resources (view w) \<and> (r = Inl NotFound \<longrightarrow> (k, i) \<notin> pj_resources (view w'))) \<and>
     (\<forall>w r w'. hc_wait (pa_hcloud api) w = (r, w') \<longrightarrow>
        obs w' = obs w \<and> pj_resources (view w') = pj_resources (view w) \<and> r \<noteq> Inl NotFound) \<and>
     (\<forall>d w r w'. hc_sleep (pa_hcloud api) d w = (r, w') \<longrightarrow>
        obs w' = obs w \<and> pj_resources (view w') = pj_resources (view w) \<and> r \<noteq> Inl NotFound) \<and>
     (\<forall>k i w r w'. hc_delete (pa_hcloud api) k i w = (r, w') \<longrightarrow>
        obs w' = obs w \<and> pj_resources (view w') \<subseteq> pj_resources (view w) \<and>
        pj_resources (view w) - pj_resources (view w') \<subseteq> insert (k, i) (if k = KServer then {KPrimaryIP} \<times> UNIV else {}) \<and>
        (r = Inr () \<or> r = Inl NotFound \<longrightarrow> (k, i) \<notin> pj_resources (view w')))"

subsection \<open>What a deletion takes away\<close>

definition took :: "('w \<Rightarrow> project) \<Rightarrow> ('w \<Rightarrow> 'o) \<Rightarrow> (kind \<times> nat) set \<Rightarrow> 'w \<Rightarrow> 'w \<Rightarrow> bool" where
  "took view obs A w w' \<longleftrightarrow> obs w' = obs w \<and> pj_resources (view w') \<subseteq> pj_resources (view w) \<and>
     pj_resources (view w) - pj_resources (view w') \<subseteq> A"

definition own_of :: "kind \<Rightarrow> nat \<Rightarrow> (kind \<times> nat) set" where
  "own_of k i = insert (k, i) (if k = KServer then {KPrimaryIP} \<times> UNIV else {})"

abbreviation gone_if :: "('w \<Rightarrow> project) \<Rightarrow> kind \<Rightarrow> nat \<Rightarrow> api_error + unit \<Rightarrow> 'w \<Rightarrow> bool" where
  "gone_if view k i r w \<equiv> r = Inr () \<or> r = Inl NotFound \<longrightarrow> (k, i) \<notin> pj_resources (view w)"

lemma took_refl: "took view obs A w w"
  by (simp add: took_def)

lemma took_then: "took view obs A w w' \<Longrightarrow> took view obs A w' w'' \<Longrightarrow> took view obs A w w''"
  unfolding took_def by (elim conjE, intro conjI) (simp, blast, blast)

lemma took_mono: "took view obs A w w' \<Longrightarrow> A \<subseteq> B \<Longrightarrow> took view obs B w w'"
  unfolding took_def by blast

lemma took_gone: "took view obs A w w' \<Longrightarrow> x \<notin> pj_resources (view w) \<Longrightarrow> x \<notin> pj_resources (view w')"
  unfolding took_def by blast

lemma project_calls:
  assumes "project_writes api view obs"
  shows "hc_unprotect (pa_hcloud api) k i w = (r, w') \<Longrightarrow> took view obs A w w' \<and> (r = Inl NotFound \<longrightarrow> (k, i) \<notin> pj_resources (view w'))"
    and "hc_wait (pa_hcloud api) w = (r, w') \<Longrightarrow> took view obs A w w' \<and> pj_resources (view w') = pj_resources (view w) \<and> r \<noteq> Inl NotFound"
    and "hc_sleep (pa_hcloud api) d w = (r, w') \<Longrightarrow> took view obs A w w' \<and> r \<noteq> Inl NotFound"
    and "hc_delete (pa_hcloud api) k i w = (r, w') \<Longrightarrow> took view obs (own_of k i) w w' \<and> gone_if view k i r w'"
  using assms unfolding project_writes_def took_def own_of_def by blast+

lemma delete_ip_from_took:
  assumes "delete_ip_from api r deadline waited w out = Some (res, w', out')" and laws: "project_writes api view obs"
  shows "took view obs (own_of KPrimaryIP (rs_id r)) w w' \<and> gone_if view KPrimaryIP (rs_id r) res w'"
proof -
  let ?P = "\<lambda>r w res w'. took view obs (own_of KPrimaryIP (rs_id r)) w w' \<and> gone_if view KPrimaryIP (rs_id r) res w'"
  have "project_writes api view obs \<longrightarrow> ?P r w (fst (res, w', out')) (fst (snd (res, w', out')))"
  proof (rule delete_ip_from.raw_induct [OF _ assms(1), of
      "\<lambda>api r dl wt w out x. project_writes api view obs \<longrightarrow> ?P r w (fst x) (fst (snd x))"], intro impI)
    fix rec api r dl wt w out x
    assume IH: "\<And>api r dl wt w out x. rec api r dl wt w out = Some x \<Longrightarrow>
        project_writes api view obs \<longrightarrow> ?P r w (fst x) (fst (snd x))"
      and run: "(case hc_delete (pa_hcloud api) KPrimaryIP (rs_id r) w of (res, w1) \<Rightarrow>
        if res \<noteq> Inl MustBeUnassigned \<or> hc_now (pa_hcloud api) w1 > dl then Some (res, w1, out)
        else (let out1 = (if wt then out else out @ [assigned_line api r]) in
          case hc_sleep (pa_hcloud api) (pa_every api) w1 of (slept, w2) \<Rightarrow>
            (case slept of Inl e \<Rightarrow> Some (Inl e, w2, out1) | Inr u \<Rightarrow> rec api r dl True w2 out1))) = Some x"
      and laws: "project_writes api view obs"
    obtain res w1 where d: "hc_delete (pa_hcloud api) KPrimaryIP (rs_id r) w = (res, w1)" by force
    note deleted = project_calls(4) [OF laws d]
    obtain slept w2 where sl: "hc_sleep (pa_hcloud api) (pa_every api) w1 = (slept, w2)" by force
    note slept = project_calls(3) [OF laws sl, of "own_of KPrimaryIP (rs_id r)"]
    show "?P r w (fst x) (fst (snd x))"
    proof (cases "res \<noteq> Inl MustBeUnassigned \<or> hc_now (pa_hcloud api) w1 > dl")
      case True
      then show ?thesis using run d deleted by auto
    next
      case False
      show ?thesis
      proof (cases slept)
        case (Inl e)
        then show ?thesis using False run d sl deleted slept by (auto simp: Let_def intro: took_then)
      next
        case (Inr u)
        with False run d sl have "rec api r dl True w2 (if wt then out else out @ [assigned_line api r]) = Some x" by (simp add: Let_def)
        from IH [OF this] laws have "?P r w2 (fst x) (fst (snd x))" by simp
        then show ?thesis using deleted slept by (blast intro: took_then)
      qed
    qed
  qed
  then show ?thesis using laws by simp
qed


lemma delete_ip_wp:
  assumes "project_writes api view obs"
  shows "wp (delete_ip api r) (\<lambda>_ w' _. took view obs (own_of KPrimaryIP (rs_id r)) w w' \<and> (KPrimaryIP, rs_id r) \<notin> pj_resources (view w'))
    (\<lambda>e w' _. took view obs (own_of KPrimaryIP (rs_id r)) w w' \<and> (e = NotFound \<longrightarrow> (KPrimaryIP, rs_id r) \<notin> pj_resources (view w'))) w out"
  using delete_ip_from_took [OF _ assms]
  by (fastforce simp: wp_def delete_ip_def took_refl split: option.splits prod.splits sum.splits)

lemma delete_resource_wp:
  assumes laws: "project_writes api view obs"
  shows "wp (delete_resource api k r) (\<lambda>_ w' _. took view obs (own_of k (rs_id r)) w w' \<and> (k, rs_id r) \<notin> pj_resources (view w'))
    (\<lambda>e w' _. took view obs (own_of k (rs_id r)) w w' \<and> (e = NotFound \<longrightarrow> (k, rs_id r) \<notin> pj_resources (view w'))) w out"
    (is "wp _ ?Q ?E w out")
proof -
  note calls = project_calls [OF laws]
  have lift: "wp (lift_protection api k r) (\<lambda>_ w1 _. took view obs (own_of k (rs_id r)) w w1) ?E w out"
    unfolding lift_protection_def wp_if wp_bind wp_call wp_return
    using took_refl [of view obs "own_of k (rs_id r)" w]
    by (auto dest!: calls(1) [where A = "own_of k (rs_id r)"] calls(2) [where A = "own_of k (rs_id r)"] intro: took_then)
  have one: "wp (io_call (hc_delete (pa_hcloud api) k (rs_id r))) ?Q ?E w1 out1"
    if "took view obs (own_of k (rs_id r)) w w1" for w1 out1
    unfolding wp_call using that by (auto dest!: calls(4) intro: took_then)
  have del: "wp (delete_call api k r) ?Q ?E w1 out1" if "took view obs (own_of k (rs_id r)) w w1" for w1 out1
  proof (cases k)
    case KServer
    have "wp (io_bind (io_call (hc_delete (pa_hcloud api) k (rs_id r))) (\<lambda>_. io_call (hc_wait (pa_hcloud api)))) ?Q ?E w1 out1"
      unfolding wp_bind
      by (rule wp_mono [OF one [OF that]])
        (auto simp: wp_call dest!: calls(2) [where A = "own_of k (rs_id r)"] intro: took_then)
    then show ?thesis using KServer by simp
  next
    case KPrimaryIP
    then have "wp (delete_call api k r) (\<lambda>_ w' _. took view obs (own_of k (rs_id r)) w1 w' \<and> (k, rs_id r) \<notin> pj_resources (view w'))
        (\<lambda>e w' _. took view obs (own_of k (rs_id r)) w1 w' \<and> (e = NotFound \<longrightarrow> (k, rs_id r) \<notin> pj_resources (view w'))) w1 out1"
      using delete_ip_wp [OF laws] by simp
    then show ?thesis by (rule wp_mono) (use that in \<open>auto intro: took_then\<close>)
  qed (use one [OF that] in simp_all)
  show ?thesis unfolding delete_resource_def wp_bind
    by (rule wp_mono [OF lift]) (auto intro: del)
qed

text \<open>After a loop of deletions: what was taken is on the list (or a server's own IP); with no error everything on it is gone.\<close>

definition listed :: "inventory \<Rightarrow> kind list \<Rightarrow> (kind \<times> nat) set" where
  "listed iv ks = {(k, rs_id r) | k r. k \<in> set ks \<and> r \<in> set (iv k)}"

definition taken_for :: "(kind \<times> nat) set \<Rightarrow> (kind \<times> nat) set" where
  "taken_for L = (\<Union>(k, i) \<in> L. own_of k i)"

lemma delete_one_wp:
  assumes laws: "project_writes api view obs" and "took view obs A w0 w" and "own_of k (rs_id r) \<subseteq> A"
    and "errs = [] \<Longrightarrow> \<forall>x \<in> G. x \<notin> pj_resources (view w)"
  shows "wp (delete_one api k r errs)
    (\<lambda>es w' _. took view obs A w0 w' \<and> (es = [] \<longrightarrow> (\<forall>x \<in> insert (k, rs_id r) G. x \<notin> pj_resources (view w'))))
    (\<lambda>_ _ _. False) w out"
proof -
  have t: "took view obs A w0 w'" if "took view obs (own_of k (rs_id r)) w w'" for w'
    using assms(2) took_mono [OF that assms(3)] by (rule took_then)
  have g: "\<forall>x \<in> insert (k, rs_id r) G. x \<notin> pj_resources (view w')"
    if "took view obs (own_of k (rs_id r)) w w'" "(k, rs_id r) \<notin> pj_resources (view w')" "errs = []" for w'
    using that assms(4) took_gone [OF that(1)] by auto
  show ?thesis
    unfolding delete_one_def wp_bind wp_try
    by (rule wp_mono [OF delete_resource_wp [OF laws]])
      (use t g in \<open>auto simp: delete_step_def Let_def wp_simps split: api_error.split\<close>)
qed


lemma delete_kinds_wp:
  fixes iv :: inventory
  assumes laws: "project_writes api view obs"
  shows "wp (delete_kinds api iv ks)
    (\<lambda>es w' _. took view obs (taken_for (listed iv ks)) w w' \<and> (es = [] \<longrightarrow> (\<forall>x \<in> listed iv ks. x \<notin> pj_resources (view w'))))
    (\<lambda>_ _ _. False) w out"
proof -
  let ?A = "taken_for (listed iv ks)"
  let ?I = "\<lambda>done (es :: api_errors) w' (out :: string list). took view obs ?A w w' \<and> (es = [] \<longrightarrow> (\<forall>x \<in> listed iv done. x \<notin> pj_resources (view w')))"
  have inner: "wp (io_fold (delete_one api k) (iv k) es) (?I (done @ [k])) (\<lambda>_ _ _. False) w1 out1"
    if k: "k \<in> set ks" and I: "?I done es w1 out1" for k "done" w1 out1 and es :: api_errors
  proof -
    let ?J = "\<lambda>rs (es :: api_errors) w' (out :: string list). took view obs ?A w w' \<and>
      (es = [] \<longrightarrow> (\<forall>x \<in> listed iv done \<union> (\<lambda>r. (k, rs_id r)) ` set rs. x \<notin> pj_resources (view w')))"
    have own: "own_of k (rs_id r) \<subseteq> ?A" if "r \<in> set (iv k)" for r
      using that k unfolding taken_for_def listed_def by blast
    have "wp (io_fold (delete_one api k) (iv k) es) (?J (iv k)) (\<lambda>_ _ _. False) w1 out1"
    proof (rule wp_fold_prefix)
      show "?J [] es w1 out1" using I by simp
      fix pre r post w2 out2 and es :: api_errors assume split: "iv k = pre @ r # post" and J: "?J pre es w2 out2"
      have "r \<in> set (iv k)" using split by simp
      note one = delete_one_wp [OF laws conjunct1 [OF J] own [OF this], where G = "listed iv done \<union> (\<lambda>r. (k, rs_id r)) ` set pre"]
      show "wp (delete_one api k r es) (?J (pre @ [r])) (\<lambda>_ _ _. False) w2 out2"
        by (rule wp_mono [OF one]) (use J in auto)
    qed
    then show ?thesis by (rule wp_mono) (auto simp: listed_def)
  qed
  show ?thesis unfolding delete_kinds_def
  proof (rule wp_fold_prefix [where I = ?I])
    show "?I [] [] w out" by (simp add: listed_def took_refl)
    fix pre k post es w1 out1 assume "ks = pre @ k # post" and "?I pre es w1 out1"
    then show "wp (io_fold (delete_one api k) (iv k) es) (?I (pre @ [k])) (\<lambda>_ _ _. False) w1 out1"
      by (intro inner) simp_all
  qed
qed

lemma delete_all_wp:
  fixes iv :: inventory
  assumes laws: "project_writes api view obs"
  shows "wp (delete_all api iv)
    (\<lambda>_ w' _. took view obs (taken_for (listed iv (attached_first @ detached_then))) w w' \<and>
      (\<forall>x \<in> listed iv (attached_first @ detached_then). x \<notin> pj_resources (view w')))
    (\<lambda>_ w' _. took view obs (taken_for (listed iv (attached_first @ detached_then))) w w' \<and>
      (took view obs (taken_for (listed iv attached_first)) w w' \<or> (\<forall>x \<in> listed iv attached_first. x \<notin> pj_resources (view w')))) w out"
proof -
  let ?all = "taken_for (listed iv (attached_first @ detached_then))"
  have sub: "taken_for (listed iv attached_first) \<subseteq> ?all" "taken_for (listed iv detached_then) \<subseteq> ?all"
    unfolding taken_for_def listed_def by auto
  have both: "listed iv (attached_first @ detached_then) = listed iv attached_first \<union> listed iv detached_then"
    unfolding listed_def by auto
  have second: "wp (delete_kinds api iv detached_then)
      (\<lambda>es w' _. took view obs ?all w w' \<and> (\<forall>x \<in> listed iv attached_first. x \<notin> pj_resources (view w')) \<and>
        (es = [] \<longrightarrow> (\<forall>x \<in> listed iv detached_then. x \<notin> pj_resources (view w')))) (\<lambda>_ _ _. False) w1 out1"
    if "took view obs (taken_for (listed iv attached_first)) w w1" "\<forall>x \<in> listed iv attached_first. x \<notin> pj_resources (view w1)" for w1 out1
    by (rule wp_mono [OF delete_kinds_wp [OF laws]])
      (use that sub in \<open>auto intro: took_then took_mono dest: took_gone\<close>)
  show ?thesis
    unfolding delete_all_def wp_bind
  proof (rule wp_mono [OF delete_kinds_wp [OF laws]], goal_cases)
    case (1 es w1 out1)
    show ?case
    proof (cases "es = []")
      case True
      with 1 have "took view obs (taken_for (listed iv attached_first)) w w1"
        "\<forall>x \<in> listed iv attached_first. x \<notin> pj_resources (view w1)" by simp_all
      note s = second [OF this]
      show ?thesis using True
        by (simp add: wp_bind) (rule wp_mono [OF s], auto simp: wp_simps both)
    next
      case False
      then show ?thesis using 1 sub by (auto simp: wp_simps intro: took_mono)
    qed
  qed simp
qed


text \<open>The retry ends: a sleep that succeeds moves the clock on, and nothing turns it back.\<close>

definition clock_advances :: "'w project_api \<Rightarrow> bool" where
  "clock_advances api \<longleftrightarrow> 0 < pa_every api \<and>
     (\<forall>k i w r w'. hc_delete (pa_hcloud api) k i w = (r, w') \<longrightarrow> hc_now (pa_hcloud api) w \<le> hc_now (pa_hcloud api) w') \<and>
     (\<forall>d w w'. hc_sleep (pa_hcloud api) d w = (Inr (), w') \<longrightarrow> hc_now (pa_hcloud api) w + d \<le> hc_now (pa_hcloud api) w')"

lemma delete_ip_returns:
  assumes "clock_advances api"
  shows "delete_ip_from api r deadline waited w out \<noteq> None"
proof (induction "Suc deadline - hc_now (pa_hcloud api) w" arbitrary: waited w out rule: less_induct)
  case less
  obtain res w1 where d: "hc_delete (pa_hcloud api) KPrimaryIP (rs_id r) w = (res, w1)" by force
  obtain slept w2 where sl: "hc_sleep (pa_hcloud api) (pa_every api) w1 = (slept, w2)" by force
  show ?case
  proof (cases "res = Inl MustBeUnassigned \<and> hc_now (pa_hcloud api) w1 \<le> deadline \<and> slept = Inr ()")
    case True
    have "hc_now (pa_hcloud api) w \<le> hc_now (pa_hcloud api) w1" "hc_now (pa_hcloud api) w1 + pa_every api \<le> hc_now (pa_hcloud api) w2" "0 < pa_every api"
      using assms d sl True unfolding clock_advances_def by blast+
    with True have "Suc deadline - hc_now (pa_hcloud api) w2 < Suc deadline - hc_now (pa_hcloud api) w" by linarith
    from less [OF this] True d sl show ?thesis by (subst delete_ip_from.simps) (simp add: Let_def)
  next
    case False
    then show ?thesis using d sl by (subst delete_ip_from.simps) (cases slept, auto simp: Let_def)
  qed
qed

end
