(* ===== verification/Config.thy ===== *)
theory Config
  imports Io
begin

section \<open>config/config.go: kluster.yaml\<close>

text \<open>
  The file as the decoder returns it, its validation, and the paths and environments the commands read from it. The
  YAML package is the parameter \<open>decode\<close>, the package semver the record \<open>semver\<close>. A map that lacks a key reads as the
  empty string, as in Go.
\<close>

record control_plane =
  cp_name :: string
  cp_private_ip :: string
  cp_vpn_ip :: string
  cp_endpoint :: string
  cp_ssh_user :: string

record cluster_nets =
  cn_pod_cidr :: string
  cn_service_cidr :: string
  cn_hcloud_network :: string
  cn_pod_mtu :: int

record node_conf =
  nc_ssh_user :: string
  nc_user :: string
  nc_interface :: string

record workers_conf =
  wc_server_type :: string
  wc_private_ips :: string
  wc_vpn_ips :: string

record conf_peer =
  pe_name :: string
  pe_public_key :: string
  pe_allowed_ips :: string

record wireguard_conf =
  wg_subnet :: string
  wg_port :: int
  wg_probe_ip :: string
  wg_peers :: "conf_peer list"

record versions =
  vs_containerd :: string
  vs_runc :: string
  vs_cni_plugins :: string
  vs_kubernetes :: string
  vs_sops :: string

record laptop =
  lt_wireguard_conf :: string
  lt_wireguard_unit :: string
  lt_sudo :: bool
  lt_kubeconfig :: string
  lt_merge :: bool
  lt_cluster_name :: string

record env_conf =
  en_item :: string
  en_bucket :: string
  en_refuse_ip :: string
  en_worker_set :: string
  en_laptop :: laptop

record config =
  cf_control_plane :: control_plane
  cf_cluster :: cluster_nets
  cf_node :: node_conf
  cf_workers :: workers_conf
  cf_wireguard :: wireguard_conf
  cf_versions :: versions
  cf_flannel :: string
  cf_ccm :: string
  cf_csi :: string
  cf_catalog :: string
  cf_sops_config :: string
  cf_zone :: string
  cf_zone_item :: string
  cf_zone_field :: string
  cf_lock_item :: string
  cf_lock_field :: string
  cf_modules :: "string \<rightharpoonup> string"
  cf_envs :: "string \<rightharpoonup> env_conf"
  cf_identity :: string
  cf_dir :: string

record semver =
  sm_canonical :: "string \<Rightarrow> string"
  sm_prerelease :: "string \<Rightarrow> string"

definition module_shared :: string where "module_shared = ''shared''"
definition module_control_plane :: string where "module_control_plane = ''control-plane''"
definition module_workers :: string where "module_workers = ''workers''"
definition env_live :: string where "env_live = ''live''"
definition env_rehearsal :: string where "env_rehearsal = ''rehearsal''"

subsection \<open>Paths\<close>

text \<open>\<open>filepath.Clean\<close>: the parts of the path are kept on a stack; \<open>..\<close> drops one, or stays at the start of a
  relative path.\<close>

fun clean_comps :: "bool \<Rightarrow> string list \<Rightarrow> string list \<Rightarrow> string list" where
  "clean_comps rooted st [] = rev st"
| "clean_comps rooted st (c # cs) =
     (if c = [] \<or> c = ''.'' then clean_comps rooted st cs
      else if c = ''..'' then
        (if st \<noteq> [] \<and> hd st \<noteq> ''..'' then clean_comps rooted (tl st) cs
         else if rooted then clean_comps rooted st cs
         else clean_comps rooted (c # st) cs)
      else clean_comps rooted (c # st) cs)"

definition is_abs :: "string \<Rightarrow> bool" where
  "is_abs p \<longleftrightarrow> p \<noteq> [] \<and> hd p = CHR ''/''"

definition clean_path :: "string \<Rightarrow> string" where
  "clean_path p =
     (let s = (if is_abs p then ''/'' else []) @ join_str ''/'' (clean_comps (is_abs p) [] (split_on CHR ''/'' p)) in
      if s = [] then ''.'' else s)"

text \<open>\<open>filepath.Join\<close> of two elements.\<close>

definition path_join :: "string \<Rightarrow> string \<Rightarrow> string" where
  "path_join a b =
     (if a = [] \<and> b = [] then [] else clean_path (if a = [] then b else if b = [] then a else a @ ''/'' @ b))"

text \<open>\<open>filepath.Dir\<close>: what stands before the last slash, cleaned.\<close>

definition path_dir :: "string \<Rightarrow> string" where
  "path_dir p = clean_path (rev (dropWhile (\<lambda>c. c \<noteq> CHR ''/'') (rev p)))"

lemma path_examples:
  "clean_path ''/a/../../b//./c/'' = ''/b/c''" "clean_path ''../a/..'' = ''..''" "clean_path [] = ''.''"
  "path_join ''/repo/tools'' ''../../infra'' = ''/infra''" "path_dir ''/repo/kluster.yaml'' = ''/repo''"
  "path_dir ''kluster.yaml'' = ''.''" "path_dir ''/x'' = ''/''"
  by code_simp+

subsection \<open>Validation\<close>

definition required_fields :: "config \<Rightarrow> (string \<times> string) list" where
  "required_fields c =
     [(''controlPlane.name'', cp_name (cf_control_plane c)),
      (''controlPlane.privateIP'', cp_private_ip (cf_control_plane c)),
      (''controlPlane.vpnIP'', cp_vpn_ip (cf_control_plane c)),
      (''controlPlane.endpoint'', cp_endpoint (cf_control_plane c)),
      (''controlPlane.sshUser'', cp_ssh_user (cf_control_plane c)),
      (''cluster.podCIDR'', cn_pod_cidr (cf_cluster c)),
      (''cluster.serviceCIDR'', cn_service_cidr (cf_cluster c)),
      (''cluster.hcloudNetwork'', cn_hcloud_network (cf_cluster c)),
      (''wireguard.subnet'', wg_subnet (cf_wireguard c)),
      (''wireguard.probeIP'', wg_probe_ip (cf_wireguard c)),
      (''manifests.flannel'', cf_flannel c),
      (''manifests.ccm'', cf_ccm c),
      (''manifests.csi'', cf_csi c),
      (''workers.serverType'', wc_server_type (cf_workers c)),
      (''workers.privateIPs'', wc_private_ips (cf_workers c)),
      (''workers.vpnIPs'', wc_vpn_ips (cf_workers c)),
      (''versions.sops'', vs_sops (cf_versions c)),
      (''secrets.catalog'', cf_catalog c),
      (''secrets.sopsConfig'', cf_sops_config c),
      (''services.zone'', cf_zone c),
      (''services.zoneTokenItem'', cf_zone_item c),
      (''services.zoneTokenField'', cf_zone_field c),
      (''db.lockTokenItem'', cf_lock_item c),
      (''db.lockTokenField'', cf_lock_field c)]"

definition fails :: "bool \<Rightarrow> string \<Rightarrow> string list" where
  "fails b e = (if b then [e] else [])"

definition module_errors :: "config \<Rightarrow> string list" where
  "module_errors c = concat (map (\<lambda>m.
     fails (cf_modules c m = None \<or> cf_modules c m = Some []) (''terraform.modules.'' @ m @ '' is required''))
     [module_shared, module_control_plane, module_workers])"

definition required_errors :: "config \<Rightarrow> string list" where
  "required_errors c = concat (map (\<lambda>(f, v). fails (v = []) (f @ '' is required'')) (required_fields c))"

definition version_errors :: "semver \<Rightarrow> config \<Rightarrow> string list" where
  "version_errors sm c =
     (let k = vs_kubernetes (cf_versions c) in
      fails (sm_canonical sm k \<noteq> k \<or> sm_prerelease sm k \<noteq> [])
        (''versions.kubernetes '' @ CHR 0x22 # k @ CHR 0x22 #
          '' must be an exact release with its patch, such as v1.37.0: a minor alone floats the patch''))"

definition number_errors :: "config \<Rightarrow> string list" where
  "number_errors c =
     fails (cn_pod_mtu (cf_cluster c) \<le> 0 \<or> wg_port (cf_wireguard c) \<le> 0)
       ''cluster.podMTU and wireguard.port are required''"

definition env_errors :: "config \<Rightarrow> string \<Rightarrow> string list" where
  "env_errors c name =
     (case cf_envs c name of
        None \<Rightarrow> [''envs.'' @ name @ '' is required'']
      | Some e \<Rightarrow>
          fails (en_item e = []) (''envs.'' @ name @ '' must name a bitwardenItem'') @
          fails (en_worker_set e = []) (''envs.'' @ name @ ''.workerSet is required'') @
          fails (lt_wireguard_conf (en_laptop e) = [] \<or> lt_kubeconfig (en_laptop e) = [] \<or> lt_cluster_name (en_laptop e) = [])
            (''envs.'' @ name @ ''.laptop must name wireguardConf, kubeconfig and clusterName''))"

text \<open>What a rehearsal must not share with live.\<close>

definition shared_errors :: "env_conf \<Rightarrow> env_conf \<Rightarrow> string list" where
  "shared_errors r l =
     fails ((en_item r \<noteq> [] \<and> en_item r = en_item l) \<or> en_bucket r = en_bucket l)
       ''envs.rehearsal must name its own token, R2 keys and bucket, not the live ones'' @
     fails (en_worker_set r = en_worker_set l)
       ''envs.rehearsal.workerSet must name its own file, not the live Worker set'' @
     fails (lt_wireguard_conf (en_laptop r) = lt_wireguard_conf (en_laptop l) \<or>
         lt_kubeconfig (en_laptop r) = lt_kubeconfig (en_laptop l) \<or>
         lt_cluster_name (en_laptop r) = lt_cluster_name (en_laptop l))
       ''envs.rehearsal.laptop must name its own wireguardConf, kubeconfig and clusterName, not the live ones''"

definition rehearsal_errors :: "config \<Rightarrow> string list" where
  "rehearsal_errors c =
     (case cf_envs c env_rehearsal of None \<Rightarrow> []
      | Some r \<Rightarrow>
          fails (en_bucket r = []) ''envs.rehearsal.stateBucket is required: rehearsal state never shares the live bucket'' @
          fails (en_refuse_ip r = []) ''envs.rehearsal.refuseProjectWithIP is required'' @
          (case cf_envs c env_live of None \<Rightarrow> [] | Some l \<Rightarrow> shared_errors r l) @
          fails (lt_sudo (en_laptop r) \<or> lt_merge (en_laptop r) \<or> lt_wireguard_unit (en_laptop r) \<noteq> [])
            (''envs.rehearsal.laptop must not use sudo, merge a kubeconfig or restart a unit: a rehearsal never touches the operator'' @
              CHR 0x27 # ''s live setup''))"

definition validate :: "semver \<Rightarrow> config \<Rightarrow> string list" where
  "validate sm c =
     module_errors c @ required_errors c @ version_errors sm c @ number_errors c @
     env_errors c env_live @ env_errors c env_rehearsal @ rehearsal_errors c"

subsection \<open>Loading and reading\<close>

text \<open>\<open>Load\<close> over the file's bytes, with the absolute path of the file.\<close>

definition load_config ::
  "semver \<Rightarrow> (string \<Rightarrow> string + config) \<Rightarrow> string \<Rightarrow> string \<Rightarrow> string + string \<Rightarrow> string + config" where
  "load_config sm decode path apath data =
     (case data of Inl e \<Rightarrow> Inl (''reading config '' @ path @ '': '' @ e)
      | Inr d \<Rightarrow> (case decode d of Inl e \<Rightarrow> Inl (''parsing config '' @ path @ '': '' @ e)
        | Inr c0 \<Rightarrow>
            (let c = c0\<lparr>cf_dir := path_dir apath\<rparr>; errs = validate sm c in
             if errs = [] then Inr c else Inl (''invalid config '' @ path @ '': '' @ join_str [NL] errs))))"

definition conf_env :: "config \<Rightarrow> string \<Rightarrow> string + env_conf" where
  "conf_env c name =
     (case cf_envs c name of None \<Rightarrow> Inl (''unknown env '' @ CHR 0x22 # name @ [CHR 0x22]) | Some e \<Rightarrow> Inr e)"

definition module_dir :: "config \<Rightarrow> string \<Rightarrow> string + string" where
  "module_dir c name =
     (case cf_modules c name of
        None \<Rightarrow> Inl (''unknown Terraform Module '' @ CHR 0x22 # name @ [CHR 0x22])
      | Some rel \<Rightarrow> Inr (if is_abs rel then rel else path_join (cf_dir c) rel))"

definition conf_path :: "config \<Rightarrow> string + string \<Rightarrow> string \<Rightarrow> string + string" where
  "conf_path c home p =
     (if p = [] then Inl ''empty path''
      else if p = ''~'' \<or> prefix ''~/'' p
      then (case home of Inl e \<Rightarrow> Inl e | Inr h \<Rightarrow> Inr (path_join h (tl p)))
      else if is_abs p then Inr p
      else Inr (path_join (cf_dir c) p))"

lemma fails_Nil [simp]: "fails b e = [] \<longleftrightarrow> \<not> b"
  by (simp add: fails_def)

subsection \<open>What a valid file says\<close>

text \<open>A rehearsal that shares nothing with live, as far as the two entries name it.\<close>

definition apart :: "env_conf \<Rightarrow> env_conf \<Rightarrow> bool" where
  "apart r l \<longleftrightarrow>
     en_item r \<noteq> en_item l \<and> en_bucket r \<noteq> [] \<and> en_bucket r \<noteq> en_bucket l \<and> en_refuse_ip r \<noteq> [] \<and>
     en_worker_set r \<noteq> en_worker_set l \<and>
     lt_wireguard_conf (en_laptop r) \<noteq> lt_wireguard_conf (en_laptop l) \<and>
     lt_kubeconfig (en_laptop r) \<noteq> lt_kubeconfig (en_laptop l) \<and>
     lt_cluster_name (en_laptop r) \<noteq> lt_cluster_name (en_laptop l) \<and>
     \<not> lt_sudo (en_laptop r) \<and> \<not> lt_merge (en_laptop r) \<and> lt_wireguard_unit (en_laptop r) = []"

lemma valid_config_apart:
  assumes "validate sm c = []"
  obtains r l where "cf_envs c env_rehearsal = Some r" "cf_envs c env_live = Some l" "apart r l"
    "en_item r \<noteq> []" "en_item l \<noteq> []"
  using assms that
  by (auto simp: validate_def env_errors_def rehearsal_errors_def shared_errors_def apart_def split: option.splits)

lemma load_config_valid:
  "load_config sm decode path apath data = Inr c \<Longrightarrow> validate sm c = [] \<and> cf_dir c = path_dir apath"
  by (auto simp: load_config_def Let_def split: sum.splits if_splits)

text \<open>The version check: the package semver calls the canonical form of an invalid version the empty string.\<close>

lemma empty_version_accepted:
  assumes "sm_canonical sm [] = []" and "sm_prerelease sm [] = []"
  shows "version_errors sm (c\<lparr>cf_versions := v\<lparr>vs_kubernetes := []\<rparr>\<rparr>) = []"
  using assms by (simp add: version_errors_def)

text \<open>With live's bucket left empty, any bucket of a rehearsal passes, also the one live's backend names.\<close>

lemma live_bucket_unseen:
  assumes "shared_errors r l = []" and "en_bucket l = []" and "b \<noteq> []"
  shows "shared_errors (r\<lparr>en_bucket := b\<rparr>) l = []"
  using assms by (simp add: shared_errors_def)

end
