(* ===== verification/Env.thy ===== *)
theory Env
  imports Config Bitwarden
begin

section \<open>env/env.go: where kluster acts, and what a child process sees\<close>

text \<open>
  The credentials of one environment, read from its Bitwarden item; the check that a rehearsal holds no live value; and
  the environment variables of a child process. The vault is a parameter: \<open>bw_item\<close> of the theory Bitwarden, or none.
  \<open>read\<close> returns what it could read beside its error, as the code does.
\<close>

record credentials =
  cr_hcloud :: string
  cr_cluster :: string
  cr_key_id :: string
  cr_secret :: string

record environment =
  ev_name :: string
  ev_bucket :: string
  ev_refuse_ip :: string
  ev_creds :: credentials

definition field_hcloud :: string where "field_hcloud = ''hcloud_token''"
definition field_cluster :: string where "field_cluster = ''hcloud_cluster_token''"
definition field_key_id :: string where "field_key_id = ''r2_access_key_id''"
definition field_secret :: string where "field_secret = ''r2_secret_access_key''"

datatype env_error =
    UnknownEnv string
  | NoVault string
  | ItemFailed vault_error
  | FieldsFailed "vault_error list"
  | ClusterTokenIsTerraform string
  | LiveHcloudToken
  | LiveClusterToken
  | LiveKeyId
  | NoClusterToken string

type_synonym 'w vault = "(string \<Rightarrow> ('w, vault_error, item) call) option"

definition no_creds :: credentials where
  "no_creds = \<lparr>cr_hcloud = [], cr_cluster = [], cr_key_id = [], cr_secret = []\<rparr>"

definition field_or_empty :: "item \<Rightarrow> string \<Rightarrow> string" where
  "field_or_empty it f = (case item_field it f of Inl e \<Rightarrow> [] | Inr v \<Rightarrow> v)"

definition field_errors :: "item \<Rightarrow> vault_error list" where
  "field_errors it = concat (map (\<lambda>f. case item_field it f of Inl e \<Rightarrow> [e] | Inr v \<Rightarrow> [])
     [field_hcloud, field_key_id, field_secret])"

definition creds_of :: "item \<Rightarrow> credentials" where
  "creds_of it = \<lparr>cr_hcloud = field_or_empty it field_hcloud, cr_cluster = field_or_empty it field_cluster,
     cr_key_id = field_or_empty it field_key_id, cr_secret = field_or_empty it field_secret\<rparr>"

definition from_vault :: "'w vault \<Rightarrow> string \<Rightarrow> 'w \<Rightarrow> (credentials \<times> env_error option) \<times> 'w" where
  "from_vault vlt name w =
     (case vlt of None \<Rightarrow> ((no_creds, Some (NoVault name)), w)
      | Some read \<Rightarrow> (case read name w of
          (Inl e, w1) \<Rightarrow> ((no_creds, Some (ItemFailed e)), w1)
        | (Inr it, w1) \<Rightarrow>
            ((creds_of it, if field_errors it = [] then None else Some (FieldsFailed (field_errors it))), w1)))"

definition read_env :: "'w vault \<Rightarrow> env_conf \<Rightarrow> 'w \<Rightarrow> (credentials \<times> env_error option) \<times> 'w" where
  "read_env vlt e = from_vault vlt (en_item e)"

definition same_value :: "string \<Rightarrow> string \<Rightarrow> bool" where
  "same_value a b \<longleftrightarrow> a \<noteq> [] \<and> a = b"

definition not_live_error :: "credentials \<Rightarrow> credentials \<Rightarrow> env_error option" where
  "not_live_error live c =
     (if same_value (cr_hcloud live) (cr_hcloud c) \<or> same_value (cr_cluster live) (cr_hcloud c) then Some LiveHcloudToken
      else if same_value (cr_cluster live) (cr_cluster c) \<or> same_value (cr_hcloud live) (cr_cluster c) then Some LiveClusterToken
      else if same_value (cr_key_id live) (cr_key_id c) then Some LiveKeyId
      else None)"

text \<open>\<open>notLive\<close>: a missing live entry of the file reads as an empty one.\<close>

definition live_item :: "config \<Rightarrow> string" where
  "live_item cfg = (case cf_envs cfg env_live of None \<Rightarrow> [] | Some e \<Rightarrow> en_item e)"

definition not_found :: "env_error option \<Rightarrow> bool" where
  "not_found e = (case e of Some (ItemFailed (vault_error.NotFound n)) \<Rightarrow> True | _ \<Rightarrow> False)"

definition not_live :: "config \<Rightarrow> credentials \<Rightarrow> 'w vault \<Rightarrow> ('w, env_error, unit) call" where
  "not_live cfg c vlt w =
     (case from_vault vlt (live_item cfg) w of
        ((live, e), w1) \<Rightarrow>
          (if not_found e then (Inr (), w1)
           else (case not_live_error live c of None \<Rightarrow> (Inr (), w1) | Some e' \<Rightarrow> (Inl e', w1))))"

definition resolve_creds :: "config \<Rightarrow> string \<Rightarrow> env_conf \<Rightarrow> credentials \<Rightarrow> 'w vault \<Rightarrow> ('w, env_error, environment) call" where
  "resolve_creds cfg name e c vlt w =
     (if cr_cluster c \<noteq> [] \<and> cr_cluster c = cr_hcloud c then (Inl (ClusterTokenIsTerraform name), w)
      else (case (if name \<noteq> env_live then not_live cfg c vlt w else (Inr (), w)) of
          (Inl err, w1) \<Rightarrow> (Inl err, w1)
        | (Inr _, w1) \<Rightarrow>
            (Inr \<lparr>ev_name = name, ev_bucket = en_bucket e, ev_refuse_ip = en_refuse_ip e, ev_creds = c\<rparr>, w1)))"

definition resolve_env :: "config \<Rightarrow> string \<Rightarrow> 'w vault \<Rightarrow> ('w, env_error, environment) call" where
  "resolve_env cfg name vlt w =
     (case conf_env cfg name of
        Inl _ \<Rightarrow> (Inl (UnknownEnv name), w)
      | Inr e \<Rightarrow> (case read_env vlt e w of
          ((c, Some err), w1) \<Rightarrow> (Inl err, w1)
        | ((c, None), w1) \<Rightarrow> resolve_creds cfg name e c vlt w1))"

definition is_live :: "environment \<Rightarrow> bool" where
  "is_live e \<longleftrightarrow> ev_name e = env_live"

definition cluster_token :: "environment \<Rightarrow> env_error + string" where
  "cluster_token e =
     (if cr_cluster (ev_creds e) = [] then Inl (NoClusterToken (ev_name e)) else Inr (cr_cluster (ev_creds e)))"

subsection \<open>Child processes\<close>

definition data_dir_name :: "environment \<Rightarrow> string" where
  "data_dir_name e = (if is_live e then ''.terraform'' else ''.terraform-'' @ ev_name e)"

definition data_dir :: "environment \<Rightarrow> string \<Rightarrow> string" where
  "data_dir e m = path_join m (data_dir_name e)"

definition backend_config :: "environment \<Rightarrow> string list" where
  "backend_config e = (if is_live e \<or> ev_bucket e = [] then [] else [''bucket='' @ ev_bucket e])"

definition stripped_prefixes :: "string list" where
  "stripped_prefixes = [''TF_'', ''AWS_'', ''HCLOUD_'', ''BW_'', ''RBW_'']"

definition kept_tf :: "string \<Rightarrow> bool" where
  "kept_tf k \<longleftrightarrow> k = ''TF_PLUGIN_CACHE_DIR''"

definition has_any_prefix :: "string \<Rightarrow> string list \<Rightarrow> bool" where
  "has_any_prefix s ps \<longleftrightarrow> list_ex (\<lambda>p. prefix p s) ps"

definition cut_eq :: "string \<Rightarrow> string \<times> string" where
  "cut_eq kv = (case cut_on CHR ''='' kv of None \<Rightarrow> (kv, []) | Some p \<Rightarrow> p)"

definition clean_step :: "string \<Rightarrow> (string \<rightharpoonup> string) \<Rightarrow> (string \<rightharpoonup> string)" where
  "clean_step kv m =
     (case cut_eq kv of (k, v) \<Rightarrow>
        if has_any_prefix k stripped_prefixes \<and> \<not> kept_tf k then m else m(k \<mapsto> v))"

definition clean_env :: "string list \<Rightarrow> (string \<rightharpoonup> string)" where
  "clean_env base = fold clean_step base Map.empty"

definition set_r2 :: "environment \<Rightarrow> (string \<rightharpoonup> string) \<Rightarrow> (string \<rightharpoonup> string)" where
  "set_r2 e m = m(''AWS_ACCESS_KEY_ID'' \<mapsto> cr_key_id (ev_creds e), ''AWS_SECRET_ACCESS_KEY'' \<mapsto> cr_secret (ev_creds e))"

definition terraform_env :: "environment \<Rightarrow> string list \<Rightarrow> string \<Rightarrow> (string \<rightharpoonup> string)" where
  "terraform_env e base m = (set_r2 e (clean_env base))(''TF_DATA_DIR'' \<mapsto> data_dir e m)"

definition exec_env :: "environment \<Rightarrow> string list \<Rightarrow> (string \<rightharpoonup> string)" where
  "exec_env e base =
     (let out = (set_r2 e (clean_env base))(''TF_VAR_HCLOUD_TOKEN'' \<mapsto> cr_hcloud (ev_creds e)) in
      if is_live e then out
      else (let out1 = out(''TF_DATA_DIR'' \<mapsto> data_dir_name e);
                args = map (\<lambda>b. ''-backend-config='' @ b) (backend_config e) in
            if args \<noteq> [] then out1(''TF_CLI_ARGS_init'' \<mapsto> join_str '' '' args) else out1))"

subsection \<open>What a child sees of the operator's shell\<close>

text \<open>The specification: the last assignment of a name in the list.\<close>

definition shell_value :: "string list \<Rightarrow> string \<Rightarrow> string option" where
  "shell_value base k = map_of (rev (map cut_eq base)) k"

definition withheld_name :: "string \<Rightarrow> bool" where
  "withheld_name k \<longleftrightarrow> has_any_prefix k stripped_prefixes \<and> \<not> kept_tf k"

lemma clean_fold:
  "fold clean_step base m k =
     (if withheld_name k then m k else case shell_value base k of None \<Rightarrow> m k | Some v \<Rightarrow> Some v)"
proof (induction base arbitrary: m)
  case (Cons kv base)
  show ?case
    using Cons.IH [of "clean_step kv m"]
    by (cases "cut_eq kv")
      (auto simp: clean_step_def withheld_name_def shell_value_def map_of_append map_add_def split: option.splits)
qed (simp add: shell_value_def)

lemma clean_env_exact: "clean_env base k = (if withheld_name k then None else shell_value base k)"
  by (simp add: clean_env_def clean_fold split: option.split)

lemma withheld_names:
  "withheld_name ''AWS_ACCESS_KEY_ID''" "withheld_name ''AWS_SECRET_ACCESS_KEY''" "withheld_name ''TF_DATA_DIR''"
  "withheld_name ''TF_VAR_HCLOUD_TOKEN''" "withheld_name ''TF_CLI_ARGS_init''"
  by code_simp+


subsection \<open>A rehearsal apart from live\<close>

lemma clean_comps_snoc:
  assumes "c \<noteq> []" and "c \<noteq> ''.''" and "c \<noteq> ''..''"
  shows "clean_comps rooted st (cs @ [c]) = clean_comps rooted st cs @ [c]"
  using assms by (induction rooted st cs rule: clean_comps.induct) auto

text \<open>A plain name, joined to a directory, stands last in the path.\<close>

definition plain_name :: "string \<Rightarrow> bool" where
  "plain_name x \<longleftrightarrow> CHR ''/'' \<notin> set x \<and> x \<noteq> [] \<and> x \<noteq> ''.'' \<and> x \<noteq> ''..''"

lemma path_join_names: "\<exists>pre. \<forall>x. plain_name x \<longrightarrow> path_join m x = pre @ x"
proof -
  let ?cs = "clean_comps (is_abs m) [] (split_on CHR ''/'' m)"
  let ?pre = "if m = [] then [] else (if is_abs m then ''/'' else []) @ (if ?cs = [] then [] else join_str ''/'' ?cs @ ''/'')"
  have "path_join m x = ?pre @ x" if "plain_name x" for x
  proof -
    note x = that [unfolded plain_name_def]
    have sx: "split_on CHR ''/'' x = [x]" using x by (auto intro!: split_by_no_sep)
    have sm: "split_on CHR ''/'' (m @ CHR ''/'' # x) = split_on CHR ''/'' m @ [x]"
      using split_by_append_sep [of "\<lambda>c. c = CHR ''/''" "CHR ''/''" m x] sx by simp
    show ?thesis
    proof (cases "m = []")
      case True
      then show ?thesis using x sx by (cases x) (auto simp: path_join_def clean_path_def is_abs_def)
    next
      case False
      then show ?thesis
        using x sm clean_comps_snoc [of x "is_abs m" "[]" "split_on CHR ''/'' m"]
        by (auto simp: path_join_def clean_path_def is_abs_def join_append Let_def)
    qed
  qed
  then show ?thesis by blast
qed

lemma data_dirs_differ:
  assumes "ev_name l = env_live" and "ev_name e = env_rehearsal"
  shows "data_dir e m \<noteq> data_dir l m"
proof -
  have names: "plain_name ''.terraform''" "plain_name ''.terraform-rehearsal''"
    unfolding plain_name_def by code_simp+
  obtain pre where "path_join m x = pre @ x" if "plain_name x" for x
    using path_join_names [of m] by blast
  with names assms show ?thesis by (simp add: data_dir_def data_dir_name_def is_live_def env_live_def env_rehearsal_def)
qed

text \<open>What a resolved environment holds; the vault returns the item it has under a name.\<close>

definition vault_holds :: "(string \<Rightarrow> ('w, vault_error, item) call) \<Rightarrow> (string \<rightharpoonup> item) \<Rightarrow> bool" where
  "vault_holds read items \<longleftrightarrow> (\<forall>n w it w'. read n w = (Inr it, w') \<longrightarrow> items n = Some it)"

lemma resolve_envD:
  assumes "vault_holds read items" and "resolve_env cfg name (Some read) w = (Inr e, w')"
  obtains en it c w1 where "cf_envs cfg name = Some en" "items (en_item en) = Some it" "field_errors it = []"
    "ev_creds e = creds_of it" "ev_name e = name" "ev_bucket e = en_bucket en" "ev_refuse_ip e = en_refuse_ip en"
    "name \<noteq> env_live \<longrightarrow> not_live cfg (creds_of it) (Some read) w1 = (Inr (), w')"
proof -
  obtain en c w1 where en: "cf_envs cfg name = Some en" and c: "read_env (Some read) en w = ((c, None), w1)"
    and e: "resolve_creds cfg name en c (Some read) w1 = (Inr e, w')"
    using assms(2) by (auto simp: resolve_env_def conf_env_def split: option.splits prod.splits sum.splits)
  from c obtain it where it: "read (en_item en) w = (Inr it, w1)" "c = creds_of it" "field_errors it = []"
    by (auto simp: read_env_def from_vault_def split: prod.splits sum.splits if_splits)
  from assms(1) it(1) have item: "items (en_item en) = Some it" unfolding vault_holds_def by blast
  from e have r: "e = \<lparr>ev_name = name, ev_bucket = en_bucket en, ev_refuse_ip = en_refuse_ip en, ev_creds = c\<rparr>"
    and live: "name \<noteq> env_live \<longrightarrow> not_live cfg c (Some read) w1 = (Inr (), w')"
    by (auto simp: resolve_creds_def split: prod.splits sum.splits if_splits)
  show thesis by (rule that [OF en item it(3) _ _ _ _ live [unfolded it(2)]]) (simp_all add: r it(2))
qed

lemma required_fields_read:
  assumes "field_errors it = []"
  shows "cr_hcloud (creds_of it) \<noteq> []" "cr_key_id (creds_of it) \<noteq> []" "cr_secret (creds_of it) \<noteq> []"
  using assms item_field_value
  by (fastforce simp: field_errors_def creds_of_def field_or_empty_def split: sum.splits)+

lemma not_live_apart:
  assumes "not_live_error live c = None"
  shows "{cr_hcloud c, cr_cluster c} \<inter> {cr_hcloud live, cr_cluster live} \<subseteq> {[]}"
    and "cr_key_id live \<noteq> [] \<Longrightarrow> cr_key_id c \<noteq> cr_key_id live"
  using assms by (auto simp: not_live_error_def same_value_def split: if_splits)


lemma not_live_read:
  assumes holds: "vault_holds read items" and readable: "\<forall>w. \<exists>it w'. read (live_item cfg) w = (Inr it, w')"
    and ok: "not_live cfg c (Some read) w = (Inr (), w')"
  obtains it where "items (live_item cfg) = Some it" "not_live_error (creds_of it) c = None"
proof -
  obtain it w1 where it: "read (live_item cfg) w = (Inr it, w1)" using readable by blast
  with holds have "items (live_item cfg) = Some it" unfolding vault_holds_def by blast
  moreover have "not_live_error (creds_of it) c = None"
    using ok it by (auto simp: not_live_def from_vault_def not_found_def split: if_splits option.splits)
  ultimately show thesis by (rule that)
qed


text \<open>A file that loads, and a vault with both items.\<close>

definition sample_env :: "string \<Rightarrow> string \<Rightarrow> string \<Rightarrow> env_conf" where
  "sample_env n b ip = \<lparr>en_item = n, en_bucket = b, en_refuse_ip = ip, en_worker_set = n @ ''.tfvars'',
     en_laptop = \<lparr>lt_wireguard_conf = n @ ''.conf'', lt_wireguard_unit = [], lt_sudo = False, lt_kubeconfig = n @ ''.kube'',
       lt_merge = False, lt_cluster_name = n\<rparr>\<rparr>"

definition sample_config :: config where
  "sample_config = \<lparr>
     cf_control_plane = \<lparr>cp_name = ''cp'', cp_private_ip = ''10.0.0.2'', cp_vpn_ip = ''10.8.0.1'', cp_endpoint = ''e'', cp_ssh_user = ''u''\<rparr>,
     cf_cluster = \<lparr>cn_pod_cidr = ''p'', cn_service_cidr = ''s'', cn_hcloud_network = ''n'', cn_pod_mtu = 1350\<rparr>,
     cf_node = \<lparr>nc_ssh_user = ''u'', nc_user = ''u'', nc_interface = ''i''\<rparr>,
     cf_workers = \<lparr>wc_server_type = ''t'', wc_private_ips = ''a'', wc_vpn_ips = ''b''\<rparr>,
     cf_wireguard = \<lparr>wg_subnet = ''w'', wg_port = 51820, wg_probe_ip = ''q'', wg_peers = []\<rparr>,
     cf_versions = \<lparr>vs_containerd = [], vs_runc = [], vs_cni_plugins = [], vs_kubernetes = ''v1.37.0'', vs_sops = ''3.11.0''\<rparr>,
     cf_flannel = ''f'', cf_ccm = ''c'', cf_csi = ''c'', cf_catalog = ''s'', cf_sops_config = ''s'', cf_zone = ''z'',
     cf_zone_item = ''i'', cf_zone_field = ''f'', cf_lock_item = ''i'', cf_lock_field = ''f'',
     cf_modules = [module_shared \<mapsto> ''../shared'', module_control_plane \<mapsto> ''../cp'', module_workers \<mapsto> ''../workers''],
     cf_envs = [env_live \<mapsto> sample_env ''live'' [] [], env_rehearsal \<mapsto> sample_env ''reh'' ''staging'' ''192.0.2.1''],
     cf_identity = [], cf_dir = ''/repo''\<rparr>"

definition sample_semver :: semver where
  "sample_semver = \<lparr>sm_canonical = (\<lambda>k. if k = ''v1.37.0'' then k else []), sm_prerelease = (\<lambda>_. [])\<rparr>"

definition sample_items :: "string \<rightharpoonup> item" where
  "sample_items n = (if n = ''live'' \<or> n = ''reh''
     then Some \<lparr>it_id = n, it_name = n, it_password = None, it_fields = map (\<lambda>f. (Some f, Some (n @ f)))
       [field_hcloud, field_cluster, field_key_id, field_secret]\<rparr>
     else None)"

definition sample_read :: "string \<Rightarrow> (unit, vault_error, item) call" where
  "sample_read n w = (case sample_items n of None \<Rightarrow> Inl (vault_error.NotFound n) | Some it \<Rightarrow> Inr it, w)"


end
