(* ===== verification/Down.thy ===== *)
theory Down
  imports Teardown Env Wal Pins
begin

section \<open>cmd: a run of kluster, and kluster down\<close>

text \<open>
  \<open>run\<close> of \<open>cmd/root.go\<close> from the resolved environment on, and the commands refused for live. \<open>kluster down\<close> deletes
  the rehearsal project, reads back that it is empty, and only then empties the rehearsal bucket and drops the pins.
  Opening the bucket (the repository's stores and a token of the vault) is the parameter \<open>dn_open\<close>.
\<close>

record 'w down_app =
  dn_env :: environment
  dn_apply :: bool
  dn_api :: "'w project_api"
  dn_open :: "('w, string, 'w bucket) call"
  dn_fs :: "'w fs"
  dn_pins :: path

datatype down_error =
    OnlyRehearsal string
  | GuardFailed cloud_error
  | ProjectFailed api_errors
  | BucketFailed string
  | NotEmptyAfter
  | PinsFailed pin_error

type_synonym ('w, 'a) down = "('w, string, down_error, 'a) io"

definition require_rehearsal :: "environment \<Rightarrow> string \<Rightarrow> ('w, 'o, down_error, unit) io" where
  "require_rehearsal e what =
     (if is_live e then io_fail (OnlyRehearsal (what @ '' runs only with --env rehearsal; it is refused for the live project''))
      else io_return ())"

definition mode_text :: "bool \<Rightarrow> string" where
  "mode_text apply' = (if apply' then ''--apply'' else ''Plan Mode (nothing changes; --apply to act)'')"

definition run_guarded :: "'w down_app \<Rightarrow> ('w, 'a) down \<Rightarrow> ('w, 'a) down" where
  "run_guarded app fn =
     io_bind (io_say (''kluster: env '' @ ev_name (dn_env app) @ '', '' @ mode_text (dn_apply app))) (\<lambda>_.
     io_bind (if \<not> is_live (dn_env app)
       then io_map_err GuardFailed (io_call (guard_not_project (pa_hcloud (dn_api app)) (ev_refuse_ip (dn_env app))))
       else io_return ()) (\<lambda>_. fn))"

definition rehearsal_bucket :: "'w down_app \<Rightarrow> ('w, 'w bucket) down" where
  "rehearsal_bucket app =
     io_bind (require_rehearsal (dn_env app) ''emptying the rehearsal bucket'') (\<lambda>_.
       io_map_err BucketFailed (io_call (dn_open app)))"

definition down_project :: "'w down_app \<Rightarrow> inventory \<Rightarrow> ('w, unit) down" where
  "down_project app iv =
     (if inventory_empty iv then io_return ()
      else io_bind (io_map_err ProjectFailed (delete_all (dn_api app) iv)) (\<lambda>_.
        io_bind (io_map_err ProjectFailed (read_inventory (dn_api app))) (\<lambda>left.
        if \<not> inventory_empty left
        then io_bind (io_map_err ProjectFailed (print_inventory left)) (\<lambda>_. io_fail NotEmptyAfter)
        else io_say ''read back: the rehearsal project is empty'')))"

definition down_rest :: "'w down_app \<Rightarrow> 'w bucket \<Rightarrow> ('w, unit) down" where
  "down_rest app b =
     io_bind (io_map_err BucketFailed (empty_bucket b (bk_name b))) (\<lambda>n.
     io_bind (io_say (''read back: rehearsal bucket '' @ bk_name b @ '' is empty ('' @ string_of_nat n @ '' object(s) deleted)'')) (\<lambda>_.
     io_map_err PinsFailed (io_map_err PinFile (io_call (fs_write (dn_fs app) (dn_pins app) [])))))"

definition down_listed :: "'w down_app \<Rightarrow> inventory \<Rightarrow> ('w, unit) down" where
  "down_listed app iv =
     io_bind (rehearsal_bucket app) (\<lambda>b.
     io_bind (io_map_err BucketFailed (io_call (bk_list b []))) (\<lambda>objs.
     io_bind (io_say (''rehearsal bucket '' @ bk_name b @ '': '' @ string_of_nat (length objs) @ '' object(s), emptied after the project'')) (\<lambda>_.
     if \<not> dn_apply app then io_return ()
     else io_bind (down_project app iv) (\<lambda>_. down_rest app b))))"

definition down :: "'w down_app \<Rightarrow> ('w, unit) down" where
  "down app =
     io_bind (require_rehearsal (dn_env app) ''kluster down'') (\<lambda>_.
     io_bind (io_map_err ProjectFailed (read_inventory (dn_api app))) (\<lambda>iv.
     io_bind (io_say ''rehearsal project:'') (\<lambda>_.
     io_bind (io_map_err ProjectFailed (print_inventory iv)) (\<lambda>_. down_listed app iv))))"

definition run_down :: "'w down_app \<Rightarrow> ('w, unit) down" where
  "run_down app = run_guarded app (down app)"

subsection \<open>What the world promises\<close>

text \<open>\<open>view\<close> is the project, \<open>objs\<close> the keys in the rehearsal bucket, \<open>files\<close> the local files.\<close>

definition bucket_shows :: "'w bucket \<Rightarrow> ('w \<Rightarrow> project) \<Rightarrow> ('w \<Rightarrow> string set) \<Rightarrow> ('w \<Rightarrow> path \<Rightarrow> string option) \<Rightarrow> bool" where
  "bucket_shows b view objs files \<longleftrightarrow>
     (\<forall>w r w'. bk_list b [] w = (r, w') \<longrightarrow>
        view w' = view w \<and> objs w' = objs w \<and> files w' = files w \<and> (\<forall>xs. r = Inr xs \<longrightarrow> ob_key ` set xs = objs w)) \<and>
     (\<forall>ks w r w'. bk_delete b ks w = (r, w') \<longrightarrow> view w' = view w \<and> files w' = files w)"

definition down_laws :: "'w down_app \<Rightarrow> ('w \<Rightarrow> project) \<Rightarrow> ('w \<Rightarrow> string set) \<Rightarrow> ('w \<Rightarrow> path \<Rightarrow> string option) \<Rightarrow> bool" where
  "down_laws app view objs files \<longleftrightarrow>
     project_reads (dn_api app) view (\<lambda>w. (view w, objs w, files w)) \<and>
     project_writes (dn_api app) view (\<lambda>w. (objs w, files w)) \<and>
     (\<forall>w r w'. dn_open app w = (r, w') \<longrightarrow> view w' = view w \<and> objs w' = objs w \<and> files w' = files w \<and>
        (\<forall>b. r = Inr b \<longrightarrow> bucket_shows b view objs files)) \<and>
     (\<forall>c w r w'. fs_write (dn_fs app) (dn_pins app) c w = (r, w') \<longrightarrow>
        view w' = view w \<and> objs w' = objs w \<and> (r = Inr () \<longrightarrow> files w' (dn_pins app) = Some c))"

lemma down_calls:
  assumes "down_laws app view objs files"
  shows "project_writes (dn_api app) view (\<lambda>w. (objs w, files w))"
    and "pa_list (dn_api app) k w = (r, w') \<Longrightarrow> (view w', objs w', files w') = (view w, objs w, files w)"
    and "pa_list (dn_api app) k w = (Inr rs, w') \<Longrightarrow> Pair k ` rs_id ` set rs = {x \<in> pj_resources (view w). fst x = k}"
    and "hc_primary_ips (pa_hcloud (dn_api app)) w = (r1, w') \<Longrightarrow> (view w', objs w', files w') = (view w, objs w, files w)"
    and "hc_primary_ips (pa_hcloud (dn_api app)) w = (Inr ps, w') \<Longrightarrow> Some ` pj_ips (view w) \<subseteq> pi_ip ` set ps"
    and "hc_servers (pa_hcloud (dn_api app)) w = (r2, w') \<Longrightarrow> (view w', objs w', files w') = (view w, objs w, files w)"
    and "hc_servers (pa_hcloud (dn_api app)) w = (Inr ss, w') \<Longrightarrow> Some ` pj_server_ips (view w) \<subseteq> hs_public_ip ` set ss"
    and "dn_open app w = (ro, w') \<Longrightarrow> (view w', objs w', files w') = (view w, objs w, files w)"
    and "dn_open app w = (Inr b, w') \<Longrightarrow> bucket_shows b view objs files"
proof -
  have reads: "project_reads (dn_api app) view (\<lambda>w. (view w, objs w, files w))"
    and opens: "\<And>w r w'. dn_open app w = (r, w') \<Longrightarrow> view w' = view w \<and> objs w' = objs w \<and> files w' = files w \<and>
        (\<forall>b. r = Inr b \<longrightarrow> bucket_shows b view objs files)"
    using assms unfolding down_laws_def by simp_all
  show "project_writes (dn_api app) view (\<lambda>w. (objs w, files w))" using assms unfolding down_laws_def by simp
  show "(view w', objs w', files w') = (view w, objs w, files w)" if "pa_list (dn_api app) k w = (r, w')"
    using project_quiet(1) [OF reads] that by (rule quietD)
  show "(view w', objs w', files w') = (view w, objs w, files w)" if "hc_primary_ips (pa_hcloud (dn_api app)) w = (r1, w')"
    using project_quiet(2) [OF reads] that by (rule quietD)
  show "(view w', objs w', files w') = (view w, objs w, files w)" if "hc_servers (pa_hcloud (dn_api app)) w = (r2, w')"
    using project_quiet(3) [OF reads] that by (rule quietD)
  show "(view w', objs w', files w') = (view w, objs w, files w)" if "dn_open app w = (ro, w')"
    using opens [OF that] by simp
  show "bucket_shows b view objs files" if "dn_open app w = (Inr b, w')"
    using opens [OF that] by simp
qed (rule project_listed assms [unfolded down_laws_def, THEN conjunct1], assumption?)+

subsection \<open>Reading\<close>

text \<open>The world as it was, as far as it is observed.\<close>

abbreviation same_world :: "('w \<Rightarrow> project) \<Rightarrow> ('w \<Rightarrow> string set) \<Rightarrow> ('w \<Rightarrow> path \<Rightarrow> string option) \<Rightarrow> 'w \<Rightarrow> 'w \<Rightarrow> bool" where
  "same_world view objs files w w' \<equiv> (view w', objs w', files w') = (view w, objs w, files w)"

lemma all_kinds: "k \<in> set (attached_first @ detached_then)"
  by (cases k) (simp_all add: attached_first_def detached_then_def)

text \<open>The whole project is listed: a resource of the world is in the list of its kind.\<close>

definition shows_project :: "inventory \<Rightarrow> project \<Rightarrow> bool" where
  "shows_project iv p \<longleftrightarrow> pj_resources p = listed iv (attached_first @ detached_then)"

lemma read_inventory_wp:
  fixes view :: "'w \<Rightarrow> project"
  assumes laws: "down_laws app view objs files"
  shows "wp (read_inventory (dn_api app)) (\<lambda>iv w' _. same_world view objs files w w' \<and> shows_project iv (view w))
    (\<lambda>_ w' _. same_world view objs files w w') w out"
proof -
  let ?ks = "attached_first @ detached_then"
  let ?I = "\<lambda>done s w' (out :: string list). case s of (iv :: inventory, es :: api_errors) \<Rightarrow> same_world view objs files w w' \<and>
    (es = [] \<longrightarrow> (\<forall>k \<in> set done. Pair k ` rs_id ` set (iv k) = {x \<in> pj_resources (view w). fst x = k}))"
  have step: "wp (read_kind (dn_api app) k s) (?I (done @ [k])) (\<lambda>_ _ _. False) w1 out1"
    if "?I done s w1 out1" "k \<notin> set done" for k "done" w1 out1 and s :: "inventory \<times> api_errors"
  proof -
    obtain iv es where s: "s = (iv, es)" by (cases s)
    have r: "same_world view objs files w w2 \<and> (\<forall>rs. r = Inr rs \<longrightarrow> Pair k ` rs_id ` set rs = {x \<in> pj_resources (view w). fst x = k})"
      if "pa_list (dn_api app) k w1 = (r, w2)" for r w2
    proof -
      have v: "same_world view objs files w w1" using \<open>?I done s w1 out1\<close> s by simp
      have "same_world view objs files w w2" using down_calls(2) [OF laws that] v by simp
      moreover have "Pair k ` rs_id ` set rs = {x \<in> pj_resources (view w). fst x = k}" if "r = Inr rs" for rs
        using down_calls(3) [OF laws] \<open>pa_list (dn_api app) k w1 = (r, w2)\<close> that v by simp
      ultimately show ?thesis by blast
    qed
    show ?thesis unfolding read_kind_def s prod.case wp_bind wp_try wp_call
      using r that s by (auto simp: wp_return)
  qed
  have d: "distinct ?ks" by (simp add: attached_first_def detached_then_def)
  have "wp (io_fold (read_kind (dn_api app)) ?ks (\<lambda>_. [], [])) (?I ?ks) (\<lambda>_ _ _. False) w out"
  proof (rule wp_fold_prefix)
    show "?I [] (\<lambda>_. [], []) w out" by simp
    fix pre k post w1 out1 and s :: "inventory \<times> api_errors"
    assume split: "?ks = pre @ k # post" and I: "?I pre s w1 out1"
    from d have "k \<notin> set pre" unfolding split by simp
    with I show "wp (read_kind (dn_api app) k s) (?I (pre @ [k])) (\<lambda>_ _ _. False) w1 out1" by (rule step)
  qed
  then show ?thesis
    unfolding read_inventory_def wp_bind
  proof (rule wp_mono, goal_cases)
    case (1 s w1 out1)
    obtain iv es where s: "s = (iv, es)" by (cases s)
    have "pj_resources (view w) = listed iv ?ks" if "es = []"
    proof -
      have "(k, i) \<in> pj_resources (view w) \<longleftrightarrow> (k, i) \<in> Pair k ` rs_id ` set (iv k)" for k i
        using 1 s that all_kinds [of k] by auto
      then show ?thesis using all_kinds unfolding listed_def by auto
    qed
    then show ?case using 1 s by (auto simp: wp_simps shows_project_def)
  qed simp
qed

lemma print_inventory_wp:
  fixes w :: 'w
  shows "wp (print_inventory iv) (\<lambda>_ w' _. w' = w) (\<lambda>_ _ _. False) w out"
proof -
  have "wp (io_each (\<lambda>i. io_say (item_line i)) (inventory_items iv) :: ('w, unit) teardown) (\<lambda>_ w' _. w' = w) (\<lambda>_ _ _. False) w out"
    by (rule wp_each) (simp_all add: wp_simps)
  then show ?thesis unfolding print_inventory_def wp_if wp_say by simp
qed

lemma inventory_empty_listed: "inventory_empty iv \<longleftrightarrow> listed iv (attached_first @ detached_then) = {}"
  by (auto simp: inventory_empty_def inventory_items_def listed_def)


subsection \<open>The guard, the project, the bucket\<close>

definition holds_ip :: "project \<Rightarrow> string \<Rightarrow> bool" where
  "holds_ip p ip \<longleftrightarrow> ip \<in> pj_ips p \<or> ip \<in> pj_server_ips p"

lemma find_None_ip:
  assumes "find (\<lambda>x. f x = Some ip) xs = None" and "Some ` S \<subseteq> f ` set xs"
  shows "ip \<notin> S"
proof
  assume "ip \<in> S"
  with assms(2) have "Some ip \<in> f ` set xs" by blast
  with assms(1) show False by (auto simp: find_None_iff)
qed

lemma guard_wp:
  assumes laws: "down_laws app view objs files"
  shows "wp (io_call (guard_not_project (pa_hcloud (dn_api app)) ip))
    (\<lambda>_ w' _. same_world view objs files w w' \<and> \<not> holds_ip (view w) ip) (\<lambda>_ w' _. same_world view objs files w w') w out"
proof -
  let ?h = "pa_hcloud (dn_api app)"
  obtain r1 w1 where c1: "hc_primary_ips ?h w = (r1, w1)" by force
  obtain r2 w2 where c2: "hc_servers ?h w1 = (r2, w2)" by force
  have s1: "same_world view objs files w w1" using down_calls(4) [OF laws c1] .
  have s2: "same_world view objs files w w2" using down_calls(6) [OF laws c2] s1 by simp
  have "ip \<notin> pj_ips (view w)" if "r1 = Inr ps" "find (\<lambda>p. pi_ip p = Some ip) ps = None" for ps
    by (rule find_None_ip [OF that(2) down_calls(5) [OF laws c1 [unfolded that(1)]]])
  moreover have "ip \<notin> pj_server_ips (view w)" if "r2 = Inr ss" "find (\<lambda>x. hs_public_ip x = Some ip) ss = None" for ss
    using find_None_ip [OF that(2) down_calls(7) [OF laws c2 [unfolded that(1)]]] s1 by simp
  ultimately have g: "same_world view objs files w w' \<and> (r = Inr () \<longrightarrow> \<not> holds_ip (view w) ip)"
    if "guard_not_project ?h ip w = (r, w')" for r w'
    using that c1 c2 s1 s2 by (auto simp: guard_not_project_def holds_ip_def split: sum.splits option.splits)
  show ?thesis unfolding wp_call by (auto dest!: g)
qed

lemma empty_bucket_wp:
  fixes b :: "'w bucket"
  assumes "bucket_shows b view objs files"
  shows "wp (empty_bucket b (bk_name b)) (\<lambda>_ w' _. view w' = view w \<and> files w' = files w \<and> objs w' = {})
    (\<lambda>_ w' _. view w' = view w \<and> files w' = files w) w out"
proof -
  have list: "view w' = view w \<and> objs w' = objs w \<and> files w' = files w \<and> (\<forall>xs. r = Inr xs \<longrightarrow> ob_key ` set xs = objs w)"
    if "bk_list b [] w = (r, w')" for w r w'
    using assms that unfolding bucket_shows_def by simp
  have del: "view w' = view w \<and> files w' = files w" if "bk_delete b ks w = (r, w')" for ks w r w'
    using assms that unfolding bucket_shows_def by simp
  have again: "wp (io_bind (io_call (bk_list b [])) (\<lambda>after. if after \<noteq> [] then io_fail e else io_return n))
      (\<lambda>_ w' _. view w' = view w \<and> files w' = files w \<and> objs w' = {}) (\<lambda>_ w' _. view w' = view w \<and> files w' = files w) w1 out1"
    if "view w1 = view w" "files w1 = files w" for w1 out1 and e :: string and n :: nat
    unfolding wp_bind wp_call using that by (auto simp: wp_simps dest!: list)
  show ?thesis
    unfolding empty_bucket_def wp_if wp_bind wp_call
    using again by (auto simp: wp_simps dest!: list del)
qed

lemma down_rest_wp:
  assumes laws: "down_laws app view objs files" and b: "bucket_shows b view objs files"
  shows "wp (down_rest app b) (\<lambda>_ w' _. view w' = view w \<and> objs w' = {} \<and> files w' (dn_pins app) = Some [])
    (\<lambda>_ w' _. view w' = view w) w out"
proof -
  have pins: "view w' = view w \<and> objs w' = objs w \<and> (r = Inr () \<longrightarrow> files w' (dn_pins app) = Some [])"
    if "fs_write (dn_fs app) (dn_pins app) [] w = (r, w')" for w r w'
    using laws that unfolding down_laws_def by blast
  show ?thesis
    unfolding down_rest_def wp_bind wp_map_err wp_say wp_call
    by (rule wp_mono [OF empty_bucket_wp [OF b]]) (auto dest!: pins)
qed

lemma down_project_wp:
  assumes laws: "down_laws app view objs files" and iv: "shows_project iv (view w)"
  shows "wp (down_project app iv)
    (\<lambda>_ w' _. objs w' = objs w \<and> files w' = files w \<and> pj_resources (view w') = {})
    (\<lambda>_ w' _. objs w' = objs w \<and> files w' = files w \<and> pj_resources (view w') \<subseteq> pj_resources (view w)) w out"
proof (cases "inventory_empty iv")
  case True
  then show ?thesis using iv by (simp add: down_project_def wp_simps inventory_empty_listed shows_project_def)
next
  case False
  let ?in = "\<lambda>w'. objs w' = objs w \<and> files w' = files w \<and> pj_resources (view w') \<subseteq> pj_resources (view w)"
  have read: "wp (read_inventory (dn_api app)) (\<lambda>left w' _. ?in w' \<and> (inventory_empty left \<longrightarrow> pj_resources (view w') = {}))
      (\<lambda>_ w' _. ?in w') w1 out1" if "?in w1" for w1 out1
    by (rule wp_mono [OF read_inventory_wp [OF laws]])
      (use that in \<open>auto simp: inventory_empty_listed shows_project_def\<close>)
  let ?Q = "\<lambda>_ w' _. objs w' = objs w \<and> files w' = files w \<and> pj_resources (view w') = {}"
  have ends: "wp (if \<not> inventory_empty left then io_bind (io_map_err ProjectFailed (print_inventory left)) (\<lambda>_. io_fail NotEmptyAfter)
      else io_say ''read back: the rehearsal project is empty'') ?Q (\<lambda>_ w' _. ?in w') w1 out1"
    if "?in w1" "inventory_empty left \<longrightarrow> pj_resources (view w1) = {}" for left w1 out1
    unfolding wp_if wp_bind wp_map_err wp_say wp_fail
    using that wp_mono [OF print_inventory_wp [of left w1 out1], of "\<lambda>_ w' _. ?in w'" "\<lambda>_ w' _. ?in w'"] by simp
  have reads: "wp (read_inventory (dn_api app)) (\<lambda>left. wp (if \<not> inventory_empty left
      then io_bind (io_map_err ProjectFailed (print_inventory left)) (\<lambda>_. io_fail NotEmptyAfter)
      else io_say ''read back: the rehearsal project is empty'') ?Q (\<lambda>_ w' _. ?in w')) (\<lambda>_ w' _. ?in w') w1 out1"
    if "?in w1" for w1 out1
    by (rule wp_mono [OF read [OF that]]) (rule ends, simp_all)
  have "wp (delete_all (dn_api app) iv) (\<lambda>_ w' _. ?in w') (\<lambda>_ w' _. ?in w') w out"
    by (rule wp_mono [OF delete_all_wp [OF down_calls(1) [OF laws]]]) (auto simp: took_def)
  then have "wp (io_bind (io_map_err ProjectFailed (delete_all (dn_api app) iv)) (\<lambda>_.
        io_bind (io_map_err ProjectFailed (read_inventory (dn_api app))) (\<lambda>left.
        if \<not> inventory_empty left
        then io_bind (io_map_err ProjectFailed (print_inventory left)) (\<lambda>_. io_fail NotEmptyAfter)
        else io_say ''read back: the rehearsal project is empty''))) ?Q (\<lambda>_ w' _. ?in w') w out"
    unfolding wp_bind wp_map_err by (rule wp_mono) (use reads [unfolded wp_bind wp_map_err] in simp_all)
  then show ?thesis unfolding down_project_def using False by simp
qed


subsection \<open>What down may destroy\<close>

lemma rehearsal_bucket_wp:
  assumes laws: "down_laws app view objs files"
  shows "wp (rehearsal_bucket app) (\<lambda>b w' _. same_world view objs files w w' \<and> bucket_shows b view objs files)
    (\<lambda>_ w' _. same_world view objs files w w') w out"
  unfolding rehearsal_bucket_def require_rehearsal_def wp_bind wp_map_err wp_call wp_if
  by (auto simp: wp_simps dest: down_calls(8) [OF laws] down_calls(9) [OF laws])

text \<open>What holds of the world after a run of \<open>down\<close> from \<open>w\<close>.\<close>

definition spared :: "('w \<Rightarrow> project) \<Rightarrow> ('w \<Rightarrow> string set) \<Rightarrow> ('w \<Rightarrow> path \<Rightarrow> string option) \<Rightarrow> 'w \<Rightarrow> 'w \<Rightarrow> bool" where
  "spared view objs files w w' \<longleftrightarrow> pj_resources (view w') \<subseteq> pj_resources (view w) \<and>
     (objs w' = objs w \<and> files w' = files w \<or> pj_resources (view w') = {})"

lemma down_apply_wp:
  assumes laws: "down_laws app view objs files" and iv: "shows_project iv (view w)" and b: "bucket_shows b view objs files"
  shows "wp (io_bind (down_project app iv) (\<lambda>_. down_rest app b))
    (\<lambda>_ w' _. spared view objs files w w' \<and> pj_resources (view w') = {} \<and> objs w' = {} \<and> files w' (dn_pins app) = Some [])
    (\<lambda>_ w' _. spared view objs files w w') w out"
proof (rule wp_seq [OF down_project_wp [OF laws iv]], goal_cases)
  case (1 u w1 out1)
  show ?case by (rule wp_mono [OF down_rest_wp [OF laws b]]) (use 1 in \<open>auto simp: spared_def\<close>)
qed (auto simp: spared_def)

lemma down_listed_wp:
  assumes laws: "down_laws app view objs files" and iv: "shows_project iv (view w)"
  shows "wp (down_listed app iv)
    (\<lambda>_ w' _. if dn_apply app
       then spared view objs files w w' \<and> pj_resources (view w') = {} \<and> objs w' = {} \<and> files w' (dn_pins app) = Some []
       else same_world view objs files w w')
    (\<lambda>_ w' _. if dn_apply app then spared view objs files w w' else same_world view objs files w w') w out"
    (is "wp _ ?Q ?E w out")
  unfolding down_listed_def
proof (rule wp_seq [OF rehearsal_bucket_wp [OF laws]], goal_cases)
  case (1 b w1 out1)
  have l: "same_world view objs files w w3" if "bk_list b [] w2 = (r, w3)" "same_world view objs files w w2" for r w2 w3
    using 1 that unfolding bucket_shows_def by simp
  have listed: "wp (io_map_err BucketFailed (io_call (bk_list b []))) (\<lambda>_ w' _. same_world view objs files w w')
      (\<lambda>_ w' _. same_world view objs files w w') w1 out1"
    unfolding wp_map_err wp_call using l 1 by blast
  have act: "wp (if \<not> dn_apply app then io_return () else io_bind (down_project app iv) (\<lambda>_. down_rest app b)) ?Q ?E w2 out2"
    if "same_world view objs files w w2" for w2 out2
  proof (cases "dn_apply app")
    case True
    have "shows_project iv (view w2)" using that iv by simp
    note run = down_apply_wp [OF laws this conjunct2 [OF 1], of out2]
    have e1: "spared view objs files w2 = spared view objs files w" using that by (intro ext) (simp add: spared_def)
    show ?thesis using run True unfolding e1 by simp
  qed (use that in \<open>simp add: wp_return\<close>)
  show ?case
    by (rule wp_seq [OF listed], unfold wp_bind wp_say, rule act, assumption) (auto simp: spared_def)
qed (auto simp: spared_def)

lemma down_wp:
  assumes laws: "down_laws app view objs files"
  shows "wp (down app)
    (\<lambda>_ w' _. \<not> is_live (dn_env app) \<and> (if dn_apply app
       then spared view objs files w w' \<and> pj_resources (view w') = {} \<and> objs w' = {} \<and> files w' (dn_pins app) = Some []
       else same_world view objs files w w'))
    (\<lambda>_ w' _. if \<not> is_live (dn_env app) \<and> dn_apply app then spared view objs files w w' else same_world view objs files w w') w out"
    (is "wp _ ?Q ?E w out")
proof (cases "is_live (dn_env app)")
  case True
  then show ?thesis by (simp add: down_def require_rehearsal_def wp_simps)
next
  case False
  let ?same = "\<lambda>_ w' _. same_world view objs files w w'"
  have print: "wp (io_map_err ProjectFailed (print_inventory iv)) ?same ?same w1 out1" if "same_world view objs files w w1" for iv w1 out1
    unfolding wp_map_err by (rule wp_mono [OF print_inventory_wp]) (use that in simp_all)
  have acts: "wp (down_listed app iv) ?Q ?E w1 out1" if "same_world view objs files w w1" "shows_project iv (view w)" for iv w1 out1
  proof -
    have "shows_project iv (view w1)" using that by simp
    note run = down_listed_wp [OF laws this, of out1]
    have e1: "spared view objs files w1 = spared view objs files w" using that(1) by (intro ext) (simp add: spared_def)
    have e2: "view w1 = view w" "objs w1 = objs w" "files w1 = files w" using that(1) by simp_all
    show ?thesis using run False unfolding e1 e2 by simp
  qed
  have reads: "wp (io_map_err ProjectFailed (read_inventory (dn_api app))) (\<lambda>iv w' _. same_world view objs files w w' \<and> shows_project iv (view w)) ?same w out"
    unfolding wp_map_err by (rule wp_mono [OF read_inventory_wp [OF laws]]) simp_all
  have "wp (io_bind (io_map_err ProjectFailed (read_inventory (dn_api app))) (\<lambda>iv.
     io_bind (io_say ''rehearsal project:'') (\<lambda>_.
     io_bind (io_map_err ProjectFailed (print_inventory iv)) (\<lambda>_. down_listed app iv)))) ?Q ?E w out"
  proof (rule wp_seq [OF reads], goal_cases)
    case (1 iv w1 out1)
    then have same: "same_world view objs files w w1" by simp
    show ?case
      unfolding wp_bind [of "io_say x" for x] wp_say
      by (rule wp_seq [OF print [OF same]]) (use 1 acts in \<open>auto simp: spared_def\<close>)
  qed (auto simp: spared_def)
  then show ?thesis unfolding down_def require_rehearsal_def using False by (simp only: if_False io_bind_return)
qed


lemma run_down_wp:
  assumes laws: "down_laws app view objs files"
  shows "wp (run_down app)
    (\<lambda>_ w' _. \<not> is_live (dn_env app) \<and> \<not> holds_ip (view w) (ev_refuse_ip (dn_env app)) \<and> (if dn_apply app
       then spared view objs files w w' \<and> pj_resources (view w') = {} \<and> objs w' = {} \<and> files w' (dn_pins app) = Some []
       else same_world view objs files w w'))
    (\<lambda>_ w' _. if \<not> is_live (dn_env app) \<and> \<not> holds_ip (view w) (ev_refuse_ip (dn_env app)) \<and> dn_apply app
       then spared view objs files w w' else same_world view objs files w w') w out"
    (is "wp _ ?Q ?E w out")
proof -
  have guard: "wp (if \<not> is_live (dn_env app)
      then io_map_err GuardFailed (io_call (guard_not_project (pa_hcloud (dn_api app)) (ev_refuse_ip (dn_env app)))) else io_return ())
      (\<lambda>_ w' _. same_world view objs files w w' \<and> (is_live (dn_env app) \<or> \<not> holds_ip (view w) (ev_refuse_ip (dn_env app))))
      (\<lambda>_ w' _. same_world view objs files w w') w out1" for out1
    unfolding wp_if wp_map_err wp_return using guard_wp [OF laws, of "ev_refuse_ip (dn_env app)" w out1] by (auto elim: wp_mono)
  show ?thesis
    unfolding run_down_def run_guarded_def wp_bind [of "io_say x" for x] wp_say
  proof (rule wp_seq [OF guard], goal_cases)
    case (1 u w1 out1)
    then have e2: "view w1 = view w" "objs w1 = objs w" "files w1 = files w"
      and safe: "is_live (dn_env app) \<or> \<not> holds_ip (view w) (ev_refuse_ip (dn_env app))" by simp_all
    have e1: "spared view objs files w1 = spared view objs files w" using e2 by (intro ext) (simp add: spared_def)
    have "wp (down app)
      (\<lambda>_ w' _. \<not> is_live (dn_env app) \<and> (if dn_apply app
         then spared view objs files w w' \<and> pj_resources (view w') = {} \<and> objs w' = {} \<and> files w' (dn_pins app) = Some []
         else same_world view objs files w w'))
      (\<lambda>_ w' _. if \<not> is_live (dn_env app) \<and> dn_apply app then spared view objs files w w' else same_world view objs files w w') w1 out1"
      using down_wp [OF laws, of w1 out1] unfolding e1 e2 .
    then show ?case by (rule wp_mono) (use safe in \<open>auto split: if_splits\<close>)
  qed (auto simp: spared_def)
qed

text \<open>
  C26 \<open>kluster down\<close> destroys nothing it should not. A run for live, a run without \<open>--apply\<close> and a run on a project that
  holds the live address leave the project, the bucket and the files as they were. Otherwise no resource is added, and
  the bucket and the pins are touched only once the project is empty, so no Cluster is left that would archive into the
  bucket again. A run with \<open>--apply\<close> that returns without an error leaves the project, the bucket and the pins empty.
\<close>

theorem down_spares_live:
  assumes "down_laws app view objs files" and "run_down app (w, out) = (r, w', out')"
  shows "pj_resources (view w') \<subseteq> pj_resources (view w) \<and>
    (is_live (dn_env app) \<or> \<not> dn_apply app \<or> holds_ip (view w) (ev_refuse_ip (dn_env app)) \<longrightarrow>
       view w' = view w \<and> objs w' = objs w \<and> files w' = files w) \<and>
    (objs w' \<noteq> objs w \<or> files w' \<noteq> files w \<longrightarrow> pj_resources (view w') = {}) \<and>
    (r = Inr () \<and> dn_apply app \<longrightarrow> pj_resources (view w') = {} \<and> objs w' = {} \<and> files w' (dn_pins app) = Some [])"
  using run_down_wp [OF assms(1), of w out] assms(2)
  by (auto simp: wp_def spared_def split: sum.splits if_splits)


text \<open>A rehearsal project with a server, its address and a network; the world is the project, the bucket and the pins.\<close>

type_synonym toy_project = "(kind \<times> nat) list \<times> string list \<times> string"

definition toy_hcloud :: "toy_project hcloud" where
  "toy_hcloud = \<lparr>hc_firewall = (\<lambda>n w. (Inr None, w)), hc_set_rules = (\<lambda>f rs w. (Inr (), w)), hc_servers = (\<lambda>w. (Inr [], w)),
     hc_server = (\<lambda>n w. (Inr None, w)), hc_primary_ips = (\<lambda>w. (Inr [], w)), hc_server_type = (\<lambda>n w. (Inr None, w)),
     hc_unprotect = (\<lambda>k i w. (Inr (), w)),
     hc_delete = (\<lambda>k i (rs, w). (if (k, i) \<in> set rs then Inr () else Inl api_error.NotFound, filter (\<lambda>x. x \<noteq> (k, i)) rs, w)),
     hc_wait = (\<lambda>w. (Inr (), w)), hc_now = (\<lambda>w. 0), hc_sleep = (\<lambda>d w. (Inr (), w))\<rparr>"

definition toy_entry :: "nat \<Rightarrow> entry" where
  "toy_entry i = \<lparr>rs_id = i, rs_name = string_of_nat i, rs_protected = True, rs_rebuild_protected = False, rs_created = ''t''\<rparr>"

definition toy_project_api :: "toy_project project_api" where
  "toy_project_api = \<lparr>pa_hcloud = toy_hcloud,
     pa_list = (\<lambda>k w. (Inr (map (\<lambda>x. toy_entry (snd x)) (filter (\<lambda>x. fst x = k) (fst w))), w)), pa_every = 1, pa_up_to = 2\<rparr>"

definition toy_store :: "toy_project bucket" where
  "toy_store = \<lparr>bk_name = ''b'', bk_prefixes = (\<lambda>w. (Inr [], w)),
     bk_list = (\<lambda>p w. (Inr (map (\<lambda>k. \<lparr>ob_key = k, ob_size = 1\<rparr>) (fst (snd w))), w)),
     bk_delete = (\<lambda>ks (rs, os, f). (Inr (), rs, filter (\<lambda>x. x \<notin> set ks) os, f))\<rparr>"

definition toy_down :: "toy_project down_app" where
  "toy_down = \<lparr>dn_env = \<lparr>ev_name = env_rehearsal, ev_bucket = ''s'', ev_refuse_ip = ''192.0.2.1'', ev_creds = no_creds\<rparr>,
     dn_apply = True, dn_api = toy_project_api, dn_open = (\<lambda>w. (Inr toy_store, w)),
     dn_fs = \<lparr>fs_read = (\<lambda>p w. (Inl [], w)), fs_write = (\<lambda>p c (rs, os, f). (Inr (), rs, os, c)), fs_rename = (\<lambda>p q w. (Inl [], w))\<rparr>,
     dn_pins = ''p''\<rparr>"

definition toy_shown :: "toy_project \<Rightarrow> project" where
  "toy_shown w = \<lparr>pj_resources = set (fst w), pj_ips = {}, pj_server_ips = {}\<rparr>"

lemma toy_down_laws: "down_laws toy_down toy_shown (\<lambda>w. set (fst (snd w))) (\<lambda>w p. Some (snd (snd w)))"
proof -
  have "project_reads toy_project_api toy_shown see" for see :: "toy_project \<Rightarrow> 'v"
    by (auto simp: project_reads_def quiet_def toy_project_api_def toy_hcloud_def toy_shown_def toy_entry_def image_image)
      (force simp: image_iff)
  moreover have "project_writes toy_project_api toy_shown (\<lambda>w. (set (fst (snd w)), \<lambda>p. Some (snd (snd w))))"
    by (auto simp: project_writes_def toy_project_api_def toy_hcloud_def toy_shown_def)
  moreover have "bucket_shows toy_store toy_shown (\<lambda>w. set (fst (snd w))) (\<lambda>w p. Some (snd (snd w)))"
    by (auto simp: bucket_shows_def toy_store_def toy_shown_def image_image)
  ultimately show ?thesis by (auto simp: down_laws_def toy_down_def toy_shown_def)
qed

theorem down_spares_live_witness:
  "\<exists>w' out'. run_down toy_down (([(KServer, 1), (KPrimaryIP, 2), (KNetwork, 3)], [''a'', ''b''], ''pin''), []) = (Inr (), w', out') \<and>
     fst w' = [] \<and> set (fst (snd w')) = {} \<and> snd (snd w') = []"
proof -
  let ?run = "run_down toy_down (([(KServer, 1), (KPrimaryIP, 2), (KNetwork, 3)], [''a'', ''b''], ''pin''), [])"
  obtain r w' out' where run: "?run = (r, w', out')" by (metis surj_pair)
  have "fst ?run = Inr ()" by code_simp
  with run have r: "r = Inr ()" by simp
  have "dn_apply toy_down" "dn_pins toy_down = ''p''" by (simp_all add: toy_down_def)
  with down_spares_live [OF toy_down_laws run] run r show ?thesis by (simp add: toy_shown_def)
qed

end
