(* ===== verification/Coreset.thy ===== *)
theory Coreset
  imports Config Generation
begin

section \<open>coreset/coreset.go and seed.go: what ArgoCD syncs from the repository\<close>

text \<open>
  The lists of the repository: the core Applications, the cut a rehearsal puts in their place, the projects, and the
  files the seed applies itself. The repository is the record \<open>repo\<close> (an \<open>fs.FS\<close>: it does not change while it is
  read), the YAML and JSON packages the record \<open>yaml_lib\<close>: the documents of a text, and one decoder for each type the
  code decodes a document into. A result is an error's text or a value.
\<close>

record element =
  el_dir :: string
  el_path :: string
  el_namespace :: string

record 'n kobject =
  ko_kind :: string
  ko_name :: string
  ko_namespace :: string
  ko_annotations :: "string list"
  ko_node :: 'n

record listener =
  ls_name :: string
  ls_expressions :: "(string \<times> string \<times> string list) list"

record patch_entry =
  pe_op :: string
  pe_path :: string

record 'n yaml_lib =
  yl_docs :: "string \<Rightarrow> ('n \<times> bool) list \<times> string option"
  yl_object :: "'n \<Rightarrow> string + 'n kobject"
  yl_generators :: "'n \<Rightarrow> string + element list option list"
  yl_patches :: "string \<Rightarrow> string + string list"
  yl_patch_ops :: "string \<Rightarrow> (patch_entry \<times> 'n) list option"
  yl_elements :: "'n \<Rightarrow> string + element list"
  yl_string :: "'n \<Rightarrow> string + string"
  yl_revision :: "'n \<Rightarrow> string + string"
  yl_directories :: "'n \<Rightarrow> string + (string \<times> bool) list option list"
  yl_kustomization :: "'n \<Rightarrow> string + string \<times> string list"
  yl_destinations :: "'n \<Rightarrow> string + string list"
  yl_listeners :: "'n \<Rightarrow> string + listener list"
  yl_container_args :: "'n \<Rightarrow> string + string list list"
  yl_hostnames :: "'n \<Rightarrow> string + string list"
  yl_probe :: "'n \<Rightarrow> string + bool \<times> string list option"
  yl_url :: "string \<Rightarrow> (string \<times> string) option"
  yl_json_keys :: "string \<Rightarrow> string + string list"

record repo =
  rp_read :: "path \<Rightarrow> string + string"
  rp_stat :: "path \<Rightarrow> bool option"
  rp_glob :: "string \<Rightarrow> string + path list"

definition core_app_set :: path where "core_app_set = ''core/argocd/core-applicationset.yaml''"
definition rehearsal_argocd :: path where "rehearsal_argocd = ''core/rehearsal/argocd/kustomization.yaml''"
definition projects_app_set :: path where "projects_app_set = ''core/argocd/applicationset.yaml''"
definition app_projects :: path where "app_projects = ''core/argocd/appprojects.yaml''"
definition gateway_file :: path where "gateway_file = ''core/gateway/gateway.yaml''"
definition reloader_file :: path where "reloader_file = ''core/reloader/reloader.yaml''"
definition apps_file :: path where "apps_file = ''deployments/apps.json''"
definition limit_ranges_dir :: path where "limit_ranges_dir = ''core/limit-ranges''"
definition rehearsal_dir :: path where "rehearsal_dir = ''core/rehearsal''"
definition elements_path :: string where "elements_path = ''/spec/generators/0/list/elements''"
definition revision_path :: string where "revision_path = ''/spec/template/spec/source/targetRevision''"
definition overlay_suffix :: string where "overlay_suffix = ''manifests/overlays/dev''"

definition dquote :: "string \<Rightarrow> string" where
  "dquote s = CHR 0x22 # s @ [CHR 0x22]"

definition in_file :: "path \<Rightarrow> string + 'a \<Rightarrow> string + 'a" where
  "in_file f r = map_sum (\<lambda>e. f @ '': '' @ e) id r"

subsection \<open>Objects\<close>

fun read_docs :: "'n yaml_lib \<Rightarrow> ('n \<times> bool) list \<Rightarrow> string option \<Rightarrow> string + 'n kobject list" where
  "read_docs yl [] e = (case e of None \<Rightarrow> Inr [] | Some m \<Rightarrow> Inl m)"
| "read_docs yl ((n, mapping) # ds) e =
     (if \<not> mapping then read_docs yl ds e
      else result_bind (yl_object yl n) (\<lambda>x. map_sum id ((#) (x\<lparr>ko_node := n\<rparr>)) (read_docs yl ds e)))"

definition objects :: "'n yaml_lib \<Rightarrow> repo \<Rightarrow> path \<Rightarrow> string + 'n kobject list" where
  "objects yl rp name =
     result_bind (rp_read rp name) (\<lambda>d. case yl_docs yl d of (ds, e) \<Rightarrow> in_file name (read_docs yl ds e))"

definition find_object :: "'n yaml_lib \<Rightarrow> repo \<Rightarrow> path \<Rightarrow> string \<Rightarrow> string \<Rightarrow> string + 'n kobject" where
  "find_object yl rp file kind name =
     result_bind (objects yl rp file) (\<lambda>xs. case find (\<lambda>x. ko_kind x = kind \<and> ko_name x = name) xs of
         Some x \<Rightarrow> Inr x
       | None \<Rightarrow> Inl (file @ '': no '' @ kind @ '' '' @ dquote name))"

subsection \<open>The core list and its rehearsal cut\<close>

fun check_elements_from :: "path \<Rightarrow> string list \<Rightarrow> element list \<Rightarrow> string option" where
  "check_elements_from file seen [] = None"
| "check_elements_from file seen (e # es) =
     (if el_dir e = [] \<or> el_path e = [] \<or> el_namespace e = []
      then Some (file @ '': element {Dir:'' @ el_dir e @ '' Path:'' @ el_path e @ '' Namespace:'' @ el_namespace e @
             ''} lacks dir, path or namespace'')
      else if el_dir e \<in> set seen then Some (file @ '': dir '' @ el_dir e @ '' is listed twice'')
      else check_elements_from file (el_dir e # seen) es)"

definition check_elements :: "path \<Rightarrow> element list \<Rightarrow> string + element list" where
  "check_elements file es =
     (if es = [] then Inl (file @ '': the list is empty'')
      else case check_elements_from file [] es of None \<Rightarrow> Inr es | Some e \<Rightarrow> Inl e)"

definition core_list :: "'n yaml_lib \<Rightarrow> repo \<Rightarrow> string + element list" where
  "core_list yl rp =
     result_bind (find_object yl rp core_app_set ''ApplicationSet'' ''core'') (\<lambda>x.
     result_bind (in_file core_app_set (yl_generators yl (ko_node x))) (\<lambda>gs.
       case gs of [Some es] \<Rightarrow> check_elements core_app_set es
       | _ \<Rightarrow> Inl (core_app_set @ '': want exactly one list generator'')))"

definition replace_in :: "string \<Rightarrow> (patch_entry \<times> 'n) list option \<Rightarrow> 'n option" where
  "replace_in p ops = (case ops of None \<Rightarrow> None
     | Some os \<Rightarrow> map_option snd (find (\<lambda>(x, v). pe_op x = ''replace'' \<and> pe_path x = p) os))"

definition rehearsal_replace :: "'n yaml_lib \<Rightarrow> repo \<Rightarrow> string \<Rightarrow> string + 'n" where
  "rehearsal_replace yl rp p =
     result_bind (rp_read rp rehearsal_argocd) (\<lambda>d.
     result_bind (in_file rehearsal_argocd (yl_patches yl d)) (\<lambda>ps.
       case find (\<lambda>v. v \<noteq> None) (map (\<lambda>t. map_option (\<lambda>n. n) (replace_in p (yl_patch_ops yl t))) ps) of
         Some (Some n) \<Rightarrow> Inr n
       | _ \<Rightarrow> Inl (rehearsal_argocd @ '': no replace of '' @ p)))"

definition rehearsal_list :: "'n yaml_lib \<Rightarrow> repo \<Rightarrow> string + element list" where
  "rehearsal_list yl rp =
     result_bind (rehearsal_replace yl rp elements_path) (\<lambda>n.
     result_bind (in_file rehearsal_argocd (in_file elements_path (yl_elements yl n))) (check_elements rehearsal_argocd))"

definition target_revision :: "'n yaml_lib \<Rightarrow> repo \<Rightarrow> bool \<Rightarrow> string + string" where
  "target_revision yl rp rehearsal =
     result_bind
       (if rehearsal
        then result_bind (rehearsal_replace yl rp revision_path) (\<lambda>n.
          in_file rehearsal_argocd (in_file revision_path (yl_string yl n)))
        else result_bind (find_object yl rp core_app_set ''ApplicationSet'' ''core'') (\<lambda>x.
          in_file core_app_set (yl_revision yl (ko_node x))))
       (\<lambda>rev. if rev = []
          then Inl (''no targetRevision for the core Applications (rehearsal '' @ (if rehearsal then ''true'' else ''false'') @ '')'')
          else Inr rev)"

subsection \<open>Projects\<close>

definition project_of :: "string \<Rightarrow> string option" where
  "project_of p =
     (case split_on CHR ''/'' p of
        [a, b, c, d, e, f] \<Rightarrow>
          if a = ''projects'' \<and> b \<noteq> [] \<and> \<not> list_ex (\<lambda>x. x \<in> set ''*?['') b \<and> c = ''*'' \<and>
             join_str ''/'' [d, e, f] = overlay_suffix
          then Some b else None
      | _ \<Rightarrow> None)"

definition project_entry :: "string \<times> bool \<Rightarrow> string + string option" where
  "project_entry = (\<lambda>(p, exclude).
     if exclude then Inr None
     else case project_of p of Some b \<Rightarrow> Inr (Some b)
       | None \<Rightarrow> Inl (projects_app_set @ '': '' @ dquote p @ '' is not projects/<project>/*/'' @ overlay_suffix))"

definition projects :: "'n yaml_lib \<Rightarrow> repo \<Rightarrow> string + string list" where
  "projects yl rp =
     result_bind (find_object yl rp projects_app_set ''ApplicationSet'' ''projects'') (\<lambda>x.
     result_bind (in_file projects_app_set (yl_directories yl (ko_node x))) (\<lambda>gs.
       case gs of
         [Some ds] \<Rightarrow> result_bind (map_result project_entry ds) (\<lambda>ps.
           let out = List.map_filter id ps in
           if out = [] then Inl (projects_app_set @ '': the generator lists no project'') else Inr out)
       | _ \<Rightarrow> Inl (projects_app_set @ '': want exactly one git generator'')))"

definition components :: "repo \<Rightarrow> string \<Rightarrow> string + string list" where
  "components rp project =
     result_bind (rp_glob rp (''projects/'' @ project @ ''/*/'' @ overlay_suffix)) (\<lambda>ds.
       Inr (map (\<lambda>d. split_on CHR ''/'' d ! 2) (filter (\<lambda>d. rp_stat rp d = Some True) ds)))"

subsection \<open>What the seed reads\<close>

record seed =
  sd_rehearsal :: bool
  sd_elements :: "element list"
  sd_projects :: "string list"
  sd_crd_files :: "path list"
  sd_namespace_files :: "path list"

definition namespace_files :: "string list" where
  "namespace_files = [''namespace.yaml'', ''namespaces.yaml'']"

definition seed_for :: "'n yaml_lib \<Rightarrow> repo \<Rightarrow> bool \<Rightarrow> string + seed" where
  "seed_for yl rp rehearsal =
     result_bind (if rehearsal then rehearsal_list yl rp else core_list yl rp) (\<lambda>es.
     result_bind (if rehearsal then Inr [] else projects yl rp) (\<lambda>ps.
     result_bind (rp_glob rp ''core/*/crds.yaml'') (\<lambda>crds.
       let dirs = map (\<lambda>e. ''core/'' @ el_dir e) es @ map (\<lambda>p. ''projects/'' @ p) ps in
       Inr \<lparr>sd_rehearsal = rehearsal, sd_elements = es, sd_projects = ps, sd_crd_files = crds,
         sd_namespace_files = concat (map (\<lambda>d. filter (\<lambda>f. rp_stat rp f \<noteq> None)
           (map (\<lambda>n. path_join d n) namespace_files)) dirs)\<rparr>)))"

definition namespaces_in :: "'n yaml_lib \<Rightarrow> repo \<Rightarrow> path \<Rightarrow> string + string list" where
  "namespaces_in yl rp f = result_bind (objects yl rp f) (\<lambda>xs.
     case find (\<lambda>x. ko_kind x \<noteq> ''Namespace'') xs of
       Some x \<Rightarrow> Inl (f @ '': holds '' @ ko_kind x @ '' '' @ ko_name x @ ''; a namespace file holds Namespaces only'')
     | None \<Rightarrow> Inr (map ko_name xs))"

definition seed_namespaces :: "'n yaml_lib \<Rightarrow> repo \<Rightarrow> seed \<Rightarrow> string + string list" where
  "seed_namespaces yl rp s =
     result_bind (map_result (namespaces_in yl rp) (sd_namespace_files s)) (\<lambda>nss.
       let out = remdups_adj (sort (concat nss)) in
       case find (\<lambda>e. el_namespace e \<notin> set out) (sd_elements s) of
         Some e \<Rightarrow> Inl (''namespace '' @ el_namespace e @ '' of core-'' @ el_dir e @ '' is in no namespace file of core/'' @ el_dir e)
       | None \<Rightarrow> Inr out)"

definition applications :: "seed \<Rightarrow> string list" where
  "applications s = map (\<lambda>e. ''core-'' @ el_dir e) (sd_elements s)"

subsection \<open>What a list that reads is\<close>

lemma check_elements_from_None:
  "check_elements_from f seen es = None \<Longrightarrow>
     distinct (map el_dir es) \<and> (\<forall>e \<in> set es. el_dir e \<notin> set seen \<and> el_dir e \<noteq> [] \<and> el_path e \<noteq> [] \<and> el_namespace e \<noteq> [])"
proof (induction es arbitrary: seen)
  case (Cons e es)
  then have r: "check_elements_from f (el_dir e # seen) es = None" "el_dir e \<notin> set seen"
      "el_dir e \<noteq> [] \<and> el_path e \<noteq> [] \<and> el_namespace e \<noteq> []"
    by (auto split: if_splits)
  from Cons.IH [OF r(1)] r(2,3) show ?case by auto
qed simp

lemma check_elements_Inr:
  "check_elements f es = Inr es' \<Longrightarrow> es' = es \<and> es \<noteq> [] \<and> distinct (map el_dir es) \<and>
     (\<forall>e \<in> set es. el_dir e \<noteq> [] \<and> el_path e \<noteq> [] \<and> el_namespace e \<noteq> [])"
  using check_elements_from_None [of f "[]" es] by (auto simp: check_elements_def split: if_splits option.splits)

lemma core_list_checked:
  assumes "core_list yl rp = Inr es"
  obtains es0 where "check_elements core_app_set es0 = Inr es"
proof -
  from assms obtain x gs where "(case gs of [Some es] \<Rightarrow> check_elements core_app_set es
       | _ \<Rightarrow> Inl (core_app_set @ '': want exactly one list generator'')) = Inr es"
    by (auto simp: core_list_def result_bind_Inr)
  then show ?thesis using that by (auto split: list.splits option.splits)
qed

lemma core_list_elements: "core_list yl rp = Inr es \<Longrightarrow> es \<noteq> [] \<and> distinct (map el_dir es)"
  by (erule core_list_checked) (blast dest: check_elements_Inr)

lemma rehearsal_list_elements: "rehearsal_list yl rp = Inr es \<Longrightarrow> es \<noteq> [] \<and> distinct (map el_dir es)"
  unfolding rehearsal_list_def by (auto simp: result_bind_Inr dest!: check_elements_Inr)

lemma sorted_distinct_remdups_adj: "sorted xs \<Longrightarrow> distinct (remdups_adj (xs :: 'a :: linorder list))"
  by (induction xs rule: remdups_adj.induct) (auto simp: antisym)

lemma seed_namespaces_cover:
  assumes "seed_namespaces yl rp s = Inr nss"
  shows "el_namespace ` set (sd_elements s) \<subseteq> set nss \<and> sorted nss \<and> distinct nss"
proof -
  from assms obtain out where o: "\<not> (\<exists>e \<in> set (sd_elements s). el_namespace e \<notin> set (remdups_adj (sort (concat out))))"
    "nss = remdups_adj (sort (concat out))"
    by (fastforce simp: seed_namespaces_def result_bind_Inr Let_def find_None_iff split: option.splits)
  then show ?thesis by (auto simp: sorted_distinct_remdups_adj)
qed

end
