(* ===== verification/CoreCheck.thy ===== *)
theory CoreCheck
  imports Coreset Catalog
begin

section \<open>coreset/check.go and probes.go: the synced files agree with each other\<close>

text \<open>
  \<open>Check\<close> as the code composes it: a list of errors, empty when the files agree. An error of the YAML files is its text;
  the catalog's and the recovery overlay's errors keep their own types. A Go map that is ranged over is an association
  list, so the order of the errors it gives is one the code can give. The recursion over the bases of a kustomization
  takes fuel: None is a run that has not come back yet.
\<close>

datatype check_error = Problem string | BadCatalog "cat_error list" | Overlay pg_error

subsection \<open>Kustomizations\<close>

definition kustomization_file :: "path \<Rightarrow> path" where
  "kustomization_file dir = dir @ ''/kustomization.yaml''"

definition read_kustomization :: "'n yaml_lib \<Rightarrow> repo \<Rightarrow> path \<Rightarrow> string + string \<times> string list" where
  "read_kustomization yl rp dir =
     result_bind (objects yl rp (kustomization_file dir)) (\<lambda>xs.
       case xs of [x] \<Rightarrow> in_file (kustomization_file dir) (yl_kustomization yl (ko_node x))
       | _ \<Rightarrow> Inl (kustomization_file dir @ '': want one document''))"

definition kustomization_resources :: "'n yaml_lib \<Rightarrow> repo \<Rightarrow> path \<Rightarrow> string + string list" where
  "kustomization_resources yl rp dir = map_sum id snd (read_kustomization yl rp dir)"

definition cluster_dir :: path where "cluster_dir = ''core/cnpg/cluster''"

definition forbidden :: "path \<Rightarrow> string" where
  "forbidden rel =
     (let b = path_base rel in
      if suffix ''.enc.yaml'' b then ''a Secret: kluster secrets apply owns it''
      else if b = ''pg-cluster.yaml'' \<or> rel = cluster_dir \<or> prefix (cluster_dir @ ''/'') rel
      then ''the database Cluster: kluster db create owns it, a sync must never change it''
      else if b = ''crds.yaml'' then ''CRDs: the seed owns them''
      else if b = ''namespace.yaml'' \<or> b = ''namespaces.yaml'' then ''Namespaces: the seed owns them''
      else if sublist ''values'' b \<and> suffix ''.yaml'' b then ''Helm values, not manifests''
      else [])"

definition check_content :: "'n yaml_lib \<Rightarrow> repo \<Rightarrow> path \<Rightarrow> path \<Rightarrow> string list" where
  "check_content yl rp kf rel =
     (case objects yl rp rel of Inl e \<Rightarrow> [e]
      | Inr xs \<Rightarrow> map (\<lambda>x. kf @ '': '' @ rel @ '' holds '' @ ko_kind x @ '' '' @ ko_name x @ ''; the seed owns that kind'')
          (filter (\<lambda>x. ko_kind x = ''CustomResourceDefinition'' \<or> ko_kind x = ''Namespace'') xs))"

definition check_resource :: "'n yaml_lib \<Rightarrow> repo \<Rightarrow> path \<Rightarrow> string \<Rightarrow> string list" where
  "check_resource yl rp dir r =
     (let kf = kustomization_file dir; rel = path_join dir r in
      if sublist ''://'' r then [kf @ '': remote resource '' @ r @ ''; render it into the repository'']
      else if forbidden rel \<noteq> [] then [kf @ '': lists '' @ r @ '', '' @ forbidden rel]
      else (case rp_stat rp rel of
          None \<Rightarrow> [kf @ '': lists '' @ r @ '', which does not exist'']
        | Some True \<Rightarrow> []
        | Some False \<Rightarrow> check_content yl rp kf rel))"

definition check_kustomization :: "'n yaml_lib \<Rightarrow> repo \<Rightarrow> path \<Rightarrow> string list" where
  "check_kustomization yl rp dir =
     (case kustomization_resources yl rp dir of Inl e \<Rightarrow> [e]
      | Inr rs \<Rightarrow> concat (map (check_resource yl rp dir) rs))"

definition orphans :: "repo \<Rightarrow> path \<Rightarrow> element list \<Rightarrow> string list" where
  "orphans rp parent es =
     (case rp_glob rp (parent @ ''/*/kustomization.yaml'') of Inl e \<Rightarrow> [e]
      | Inr fs \<Rightarrow> map (\<lambda>f. f @ '': no Application syncs it; list it or delete it'')
          (filter (\<lambda>f. path_dir f \<noteq> rehearsal_dir \<and> path_dir f \<notin> el_path ` set es) fs))"

subsection \<open>The rehearsal cut\<close>

definition check_rehearsal_element :: "'n yaml_lib \<Rightarrow> repo \<Rightarrow> element list \<Rightarrow> element \<Rightarrow> string list" where
  "check_rehearsal_element yl rp core e =
     (case find (\<lambda>m. el_dir m = el_dir e) (rev core) of
        None \<Rightarrow> [rehearsal_argocd @ '': dir '' @ el_dir e @ '' is not in the main list in '' @ core_app_set]
      | Some m \<Rightarrow>
          (if el_namespace e \<noteq> el_namespace m
           then [rehearsal_argocd @ '': dir '' @ el_dir e @ '' has namespace '' @ el_namespace e @ '', the main list '' @ el_namespace m]
           else if el_path e \<noteq> el_path m \<and> el_path e \<noteq> rehearsal_dir @ ''/'' @ el_dir e
           then [rehearsal_argocd @ '': dir '' @ el_dir e @ '' syncs '' @ el_path e @ ''; want '' @ el_path m @ '' or '' @
             rehearsal_dir @ ''/'' @ el_dir e]
           else []) @
          (if el_path e \<noteq> el_path m then check_kustomization yl rp (el_path e) else []))"

definition check_rehearsal :: "'n yaml_lib \<Rightarrow> repo \<Rightarrow> element list \<Rightarrow> string list" where
  "check_rehearsal yl rp core =
     (case rehearsal_list yl rp of Inl e \<Rightarrow> [e]
      | Inr es \<Rightarrow> concat (map (check_rehearsal_element yl rp core) es) @ orphans rp rehearsal_dir es)"

definition fresh_secrets :: "catalog \<Rightarrow> string list \<Rightarrow> key secret list" where
  "fresh_secrets c nss = filter (\<lambda>s. rf_namespace (sc_ref s) \<in> set nss \<and> sc_rehearsal s \<noteq> ''omit'') (ct_secrets c)"

definition check_fresh_key :: "key secret list \<Rightarrow> key secret \<Rightarrow> string \<Rightarrow> string list" where
  "check_fresh_key fs s n =
     (let k = the (secret_key s n); at = ''secrets.yaml: '' @ ref_string (sc_ref s) @ ''.'' @ n in
      if \<not> in_rehearsal k
      then [at @ '' is issued and a rehearsal makes the Secret fresh: name a rehearsalItem, or set rehearsal: omit with the reason in its note'']
      else if ky_kind k = Copy \<and> kr_secret (ky_source k) \<notin> sc_ref ` set fs
      then [at @ '' copies '' @ key_ref_string (ky_source k) @ '', which a rehearsal does not make'']
      else [])"

definition check_fresh :: "catalog \<Rightarrow> string list \<Rightarrow> string list" where
  "check_fresh c nss =
     (let fs = fresh_secrets c nss in
      concat (map (\<lambda>s. concat (map (check_fresh_key fs s) (key_names s))) fs) @
      map (\<lambda>s. ''secrets.yaml: '' @ ref_string (sc_ref s) @ '' has rehearsal: omit, but no rehearsal namespace holds it'')
        (filter (\<lambda>s. sc_rehearsal s = ''omit'' \<and> rf_namespace (sc_ref s) \<notin> set nss) (ct_secrets c)))"

type_synonym decode = "string \<Rightarrow> string + (string \<times> key option secret option) list"

definition check_rehearsal_secrets :: "'n yaml_lib \<Rightarrow> decode \<Rightarrow> repo \<Rightarrow> check_error list" where
  "check_rehearsal_secrets yl decode rp =
     (case rp_read rp ''secrets.yaml'' of Inl e \<Rightarrow> [Problem e]
      | Inr d \<Rightarrow> (case parse_catalog decode d ''.'' of Inl es \<Rightarrow> [BadCatalog es]
        | Inr c \<Rightarrow> (case result_bind (seed_for yl rp True) (seed_namespaces yl rp) of Inl e \<Rightarrow> [Problem e]
          | Inr nss \<Rightarrow> map Problem (check_fresh c nss))))"


subsection \<open>Projects\<close>

definition destinations :: "'n yaml_lib \<Rightarrow> repo \<Rightarrow> string \<Rightarrow> string + string list" where
  "destinations yl rp project =
     result_bind (find_object yl rp app_projects ''AppProject'' project) (\<lambda>x. in_file app_projects (yl_destinations yl (ko_node x)))"

definition check_limit_range :: "'n yaml_lib \<Rightarrow> repo \<Rightarrow> string \<Rightarrow> string list \<Rightarrow> string list \<Rightarrow> string list" where
  "check_limit_range yl rp project listed dests =
     (let dir = limit_ranges_dir @ ''/'' @ project in
      if project \<notin> set listed
      then [kustomization_file limit_ranges_dir @ '': does not list '' @ project @ ''; every project namespace gets the LimitRange'']
      else (case read_kustomization yl rp dir of Inl e \<Rightarrow> [e]
          | Inr (ns, _) \<Rightarrow> if ns \<noteq> project
              then [kustomization_file dir @ '': namespace '' @ dquote ns @ '', want '' @ dquote project] else []) @
        (if project \<notin> set dests
         then [app_projects @ '': '' @ project @
           '' gets a LimitRange from core-limit-ranges, but is not a destination of the core AppProject'']
         else []))"

definition admitted :: "listener \<Rightarrow> string list" where
  "admitted l = concat (map (\<lambda>(k, op, vs). if k = ''kubernetes.io/metadata.name'' \<and> op = ''In'' then vs else [])
     (ls_expressions l))"

definition gateway_namespaces :: "'n yaml_lib \<Rightarrow> repo \<Rightarrow> string + (string \<times> string list) list" where
  "gateway_namespaces yl rp =
     result_bind (find_object yl rp gateway_file ''Gateway'' ''tosak'') (\<lambda>x.
     result_bind (in_file gateway_file (yl_listeners yl (ko_node x))) (\<lambda>ls.
       let out = fold (\<lambda>l. map_put (ls_name l) (admitted l)) ls [] in
       if out = [] then Inl (gateway_file @ '': the Gateway has no listener'') else Inr out))"

definition app_names :: "'n yaml_lib \<Rightarrow> repo \<Rightarrow> string + string list" where
  "app_names yl rp = result_bind (rp_read rp apps_file) (\<lambda>d. in_file apps_file (yl_json_keys yl d))"

definition reloaded_object :: "'n kobject \<Rightarrow> bool" where
  "reloaded_object x \<longleftrightarrow>
     ko_kind x = ''Deployment'' \<and> list_ex (sublist ''reloader.stakater.com/'') (ko_annotations x)"

fun any_reloaded :: "'n yaml_lib \<Rightarrow> repo \<Rightarrow> path list \<Rightarrow> string + bool" where
  "any_reloaded yl rp [] = Inr False"
| "any_reloaded yl rp (f # fs) =
     result_bind (objects yl rp f) (\<lambda>xs. if list_ex reloaded_object xs then Inr True else any_reloaded yl rp fs)"

definition has_reloaded_deployment :: "'n yaml_lib \<Rightarrow> repo \<Rightarrow> string \<Rightarrow> string + bool" where
  "has_reloaded_deployment yl rp project =
     result_bind (rp_glob rp (''projects/'' @ project @ ''/*/manifests/base/*.yaml'')) (any_reloaded yl rp)"

record scope =
  so_args :: "string list"
  so_roles :: "string list"
  so_bindings :: "string list"

definition namespaces_args :: "string list \<Rightarrow> string list" where
  "namespaces_args as = concat (map (\<lambda>a. case cut_prefix ''--namespaces='' a of None \<Rightarrow> [] | Some v \<Rightarrow> split_on CHR '','' v) as)"

fun read_scope :: "'n yaml_lib \<Rightarrow> 'n kobject list \<Rightarrow> scope \<Rightarrow> string + scope" where
  "read_scope yl [] s = Inr s"
| "read_scope yl (x # xs) s =
     (if ko_kind x = ''Role'' then read_scope yl xs (s\<lparr>so_roles := so_roles s @ [ko_namespace x]\<rparr>)
      else if ko_kind x = ''RoleBinding'' then read_scope yl xs (s\<lparr>so_bindings := so_bindings s @ [ko_namespace x]\<rparr>)
      else if ko_kind x = ''Deployment'' then
        result_bind (in_file reloader_file (yl_container_args yl (ko_node x))) (\<lambda>cs.
          read_scope yl xs (s\<lparr>so_args := so_args s @ concat (map namespaces_args cs)\<rparr>))
      else read_scope yl xs s)"

definition reloader_scope :: "'n yaml_lib \<Rightarrow> repo \<Rightarrow> string + scope" where
  "reloader_scope yl rp =
     result_bind (objects yl rp reloader_file) (\<lambda>xs.
     result_bind (read_scope yl xs \<lparr>so_args = [], so_roles = [], so_bindings = []\<rparr>) (\<lambda>s.
       if so_args s = [] then Inl (reloader_file @ '': no --namespaces argument; Reloader is not in scoped mode'')
       else Inr s))"

definition scope_covers :: "scope \<Rightarrow> string \<Rightarrow> string list" where
  "scope_covers s ns =
     (if ns \<notin> set (so_args s)
      then [reloader_file @ '': --namespaces does not name '' @ ns @ '', which has a Deployment Reloader restarts''] else []) @
     (if ns \<notin> set (so_roles s) \<or> ns \<notin> set (so_bindings s)
      then [reloader_file @ '': no Role and RoleBinding in '' @ ns @ ''; render it with '' @ ns @ '' in the values''] else [])"

text \<open>What a project's check reads once: the listeners, the deploy catalog, Reloader's scope, the LimitRange directories.\<close>

record project_world =
  pw_listeners :: "(string \<times> string list) list"
  pw_apps :: "string list"
  pw_scope :: scope
  pw_limit_ranges :: "string list"
  pw_dests :: "string list"

definition check_reloaded :: "'n yaml_lib \<Rightarrow> repo \<Rightarrow> project_world \<Rightarrow> string \<Rightarrow> string list" where
  "check_reloaded yl rp pw p =
     (case has_reloaded_deployment yl rp p of Inl e \<Rightarrow> [e]
      | Inr reloaded \<Rightarrow>
          if \<not> reloaded then []
          else scope_covers (pw_scope pw) p @
            (if p \<notin> set (pw_dests pw)
             then [app_projects @ '': '' @ p @ '' has a Deployment Reloader restarts, but is not a destination of the core AppProject'']
             else []))"

definition check_components :: "'n yaml_lib \<Rightarrow> repo \<Rightarrow> project_world \<Rightarrow> string \<Rightarrow> string list" where
  "check_components yl rp pw p =
     (case components rp p of Inl e \<Rightarrow> [e]
      | Inr cs \<Rightarrow>
          map (\<lambda>c. apps_file @ '': no entry '' @ p @ ''-'' @ c @ '' (the generated Application name)'')
            (filter (\<lambda>c. p @ ''-'' @ c \<notin> set (pw_apps pw)) cs) @
          check_reloaded yl rp pw p)"

definition check_project :: "'n yaml_lib \<Rightarrow> repo \<Rightarrow> project_world \<Rightarrow> string \<Rightarrow> string list" where
  "check_project yl rp pw p =
     (case destinations yl rp p of Inl e \<Rightarrow> [e]
      | Inr ds \<Rightarrow> if ds \<noteq> [p]
          then [app_projects @ '': AppProject '' @ p @ '' has destinations ['' @ join_str '' '' ds @ '']; want only '' @ p] else []) @
     (case find_object yl rp (''projects/'' @ p @ ''/namespace.yaml'') ''Namespace'' p of Inl e \<Rightarrow> [e] | Inr _ \<Rightarrow> []) @
     check_limit_range yl rp p (pw_limit_ranges pw) (pw_dests pw) @
     map (\<lambda>(name, _). gateway_file @ '': listener '' @ name @ '' does not admit routes from '' @ p)
       (filter (\<lambda>(_, nss). p \<notin> set nss) (pw_listeners pw)) @
     check_components yl rp pw p"

definition check_projects :: "'n yaml_lib \<Rightarrow> repo \<Rightarrow> string list \<Rightarrow> string list" where
  "check_projects yl rp dests =
     (case result_bind (projects yl rp) (\<lambda>ps.
           result_bind (gateway_namespaces yl rp) (\<lambda>ls.
           result_bind (app_names yl rp) (\<lambda>apps.
           result_bind (reloader_scope yl rp) (\<lambda>sc.
           result_bind (kustomization_resources yl rp limit_ranges_dir) (\<lambda>lr.
             Inr (ps, \<lparr>pw_listeners = ls, pw_apps = apps, pw_scope = sc, pw_limit_ranges = lr, pw_dests = dests\<rparr>)))))) of
        Inl e \<Rightarrow> [e]
      | Inr (ps, pw) \<Rightarrow> concat (map (check_project yl rp pw) ps))"

subsection \<open>Probes\<close>

definition fuel_bind :: "('e + 'a) option \<Rightarrow> ('a \<Rightarrow> ('e + 'b) option) \<Rightarrow> ('e + 'b) option" where
  "fuel_bind r f = (case r of None \<Rightarrow> None | Some (Inl e) \<Rightarrow> Some (Inl e) | Some (Inr a) \<Rightarrow> f a)"

fun collect :: "('a \<Rightarrow> ('e + 'b list) option) \<Rightarrow> 'a list \<Rightarrow> ('e + 'b list) option" where
  "collect f [] = Some (Inr [])"
| "collect f (x # xs) = fuel_bind (f x) (\<lambda>a. fuel_bind (collect f xs) (\<lambda>b. Some (Inr (a @ b))))"

text \<open>\<open>buildFiles\<close>: a listed directory is a base, and its files are built in turn. Each call takes one unit of fuel.\<close>

fun build_files :: "'n yaml_lib \<Rightarrow> repo \<Rightarrow> nat \<Rightarrow> path \<Rightarrow> (string + path list) option" where
  "build_files yl rp 0 dir = None"
| "build_files yl rp (Suc n) dir =
     fuel_bind (Some (kustomization_resources yl rp dir)) (collect (\<lambda>r.
       if sublist ''://'' r then Some (Inr [])
       else (case rp_stat rp (path_join dir r) of
           None \<Rightarrow> Some (Inr [])
         | Some True \<Rightarrow> build_files yl rp n (path_join dir r)
         | Some False \<Rightarrow> Some (Inr [path_join dir r]))))"

definition synced_route_files :: "'n yaml_lib \<Rightarrow> repo \<Rightarrow> nat \<Rightarrow> element list \<Rightarrow> (string + path list) option" where
  "synced_route_files yl rp n core =
     fuel_bind (collect (\<lambda>e. build_files yl rp n (el_path e)) core) (\<lambda>fs.
     fuel_bind (Some (projects yl rp)) (\<lambda>ps.
       Some (Inr (fs @ filter (\<lambda>f. rp_stat rp f \<noteq> None) (map (\<lambda>p. ''projects/'' @ p @ ''/httproute.yaml'') ps)))))"

record host_index =
  hi_routes :: "(string \<times> path) list"
  hi_targets :: "(string \<times> path) list"
  hi_errs :: "string list"

definition target_host :: "'n yaml_lib \<Rightarrow> string \<Rightarrow> string + string" where
  "target_host yl s =
     (case yl_url yl s of
        Some (scheme, host) \<Rightarrow> if scheme = ''https'' \<and> host \<noteq> [] then Inr host
          else Inl (''target '' @ dquote s @ '' is not an https URL'')
      | None \<Rightarrow> Inl (''target '' @ dquote s @ '' is not an https URL''))"

definition probe_hosts :: "'n yaml_lib \<Rightarrow> 'n \<Rightarrow> string + string list" where
  "probe_hosts yl n =
     result_bind (yl_probe yl n) (\<lambda>(ingress, static).
       case static of
         Some ts \<Rightarrow> if ingress then Inl ''list the targets in staticConfig.static, so the check can read them''
           else map_result (target_host yl) ts
       | None \<Rightarrow> Inl ''list the targets in staticConfig.static, so the check can read them'')"

definition named_hosts :: "path \<Rightarrow> string list \<Rightarrow> (string \<times> path) list \<Rightarrow> (string \<times> path) list" where
  "named_hosts f = fold (\<lambda>h. map_put h f)"

definition index_object :: "'n yaml_lib \<Rightarrow> path \<Rightarrow> 'n kobject \<Rightarrow> host_index \<Rightarrow> host_index" where
  "index_object yl f x idx =
     (if ko_kind x = ''HTTPRoute'' then
        (case yl_hostnames yl (ko_node x) of
           Inl e \<Rightarrow> idx\<lparr>hi_errs := hi_errs idx @ [f @ '': '' @ ko_kind x @ '' '' @ ko_name x @ '': '' @ e]\<rparr>
         | Inr hs \<Rightarrow> idx\<lparr>hi_routes := named_hosts f hs (hi_routes idx)\<rparr>)
      else if ko_kind x = ''Probe'' then
        (case probe_hosts yl (ko_node x) of
           Inl e \<Rightarrow> idx\<lparr>hi_errs := hi_errs idx @ [f @ '': '' @ ko_kind x @ '' '' @ ko_name x @ '': '' @ e]\<rparr>
         | Inr hs \<Rightarrow> idx\<lparr>hi_targets := named_hosts f hs (hi_targets idx)\<rparr>)
      else idx)"

fun index_hosts :: "'n yaml_lib \<Rightarrow> repo \<Rightarrow> path list \<Rightarrow> host_index \<Rightarrow> string + host_index" where
  "index_hosts yl rp [] idx = Inr idx"
| "index_hosts yl rp (f # fs) idx =
     result_bind (objects yl rp f) (\<lambda>xs. index_hosts yl rp fs (fold (index_object yl f) xs idx))"

definition drift :: "host_index \<Rightarrow> string list" where
  "drift idx =
     map (\<lambda>h. the (map_of (hi_routes idx) h) @ '': host '' @ h @ '' has no probe; add a target to a Probe (core/monitoring/probes/)'')
       (filter (\<lambda>h. map_of (hi_targets idx) h = None) (sorted_keys (hi_routes idx))) @
     map (\<lambda>h. the (map_of (hi_targets idx) h) @ '': a probe targets '' @ h @ '', which no synced HTTPRoute serves'')
       (filter (\<lambda>h. map_of (hi_routes idx) h = None) (sorted_keys (hi_targets idx)))"

definition check_probes :: "'n yaml_lib \<Rightarrow> repo \<Rightarrow> nat \<Rightarrow> element list \<Rightarrow> string list option" where
  "check_probes yl rp n core =
     (case synced_route_files yl rp n core of None \<Rightarrow> None | Some (Inl e) \<Rightarrow> Some [e]
      | Some (Inr fs) \<Rightarrow>
          Some (case index_hosts yl rp fs \<lparr>hi_routes = [], hi_targets = [], hi_errs = []\<rparr> of
             Inl e \<Rightarrow> [e] | Inr idx \<Rightarrow> hi_errs idx @ drift idx))"

subsection \<open>The check\<close>

definition check_element :: "'n yaml_lib \<Rightarrow> repo \<Rightarrow> string list \<Rightarrow> element \<Rightarrow> string list" where
  "check_element yl rp dests e =
     (if el_path e \<noteq> ''core/'' @ el_dir e
      then [core_app_set @ '': dir '' @ el_dir e @ '' syncs '' @ el_path e @ ''; the main list syncs core/<dir>''] else []) @
     (if el_namespace e \<notin> set dests
      then [app_projects @ '': namespace '' @ el_namespace e @ '' of '' @ el_dir e @ '' is not a destination of the core AppProject'']
      else []) @
     check_kustomization yl rp (el_path e)"

definition errors_of :: "string + 'a \<Rightarrow> string list" where
  "errors_of r = (case r of Inl e \<Rightarrow> [e] | Inr _ \<Rightarrow> [])"

definition check_seed :: "'n yaml_lib \<Rightarrow> repo \<Rightarrow> bool \<Rightarrow> string list" where
  "check_seed yl rp rehearsal =
     errors_of (result_bind (seed_for yl rp rehearsal) (seed_namespaces yl rp)) @ errors_of (target_revision yl rp rehearsal)"

definition check_recovery :: "pg_lib \<Rightarrow> repo \<Rightarrow> check_error list" where
  "check_recovery lib rp =
     (case rp_read rp cluster_file of Inl e \<Rightarrow> [Problem e]
      | Inr c \<Rightarrow> (case current_gen lib c of Inl e \<Rightarrow> [Overlay e]
        | Inr _ \<Rightarrow> (case rp_read rp recover_patch of Inl e \<Rightarrow> [Problem e]
          | Inr p \<Rightarrow> map Overlay (check_overlay lib c p))))"

definition check_repo :: "'n yaml_lib \<Rightarrow> pg_lib \<Rightarrow> decode \<Rightarrow> repo \<Rightarrow> nat \<Rightarrow> check_error list option" where
  "check_repo yl lib decode rp n =
     (case result_bind (core_list yl rp) (\<lambda>core. result_bind (destinations yl rp ''core'') (\<lambda>dests. Inr (core, dests))) of
        Inl e \<Rightarrow> Some [Problem e]
      | Inr (core, dests) \<Rightarrow>
          (case check_probes yl rp n core of None \<Rightarrow> None
           | Some probes \<Rightarrow> Some (
               map Problem (concat (map (check_element yl rp dests) core) @ orphans rp ''core'' core @
                 check_rehearsal yl rp core @ check_projects yl rp dests @ probes @
                 check_seed yl rp False @ check_seed yl rp True) @
               check_rehearsal_secrets yl decode rp @ check_recovery lib rp)))"

end
