(* ===== verification/CoreAgree.thy ===== *)
theory CoreAgree
  imports CoreCheck
begin

section \<open>What a clean check proves\<close>

text \<open>
  \<open>repo_agrees\<close> says what the synced files must be, part by part, and \<open>check_clean_iff\<close> that the check is empty exactly
  when they are so. The recursion of \<open>buildFiles\<close> comes back on every repository whose bases do not go round in a circle,
  and on no fuel for one that lists itself.
\<close>

definition resource_clean :: "'n yaml_lib \<Rightarrow> repo \<Rightarrow> path \<Rightarrow> string \<Rightarrow> bool" where
  "resource_clean yl rp dir r \<longleftrightarrow> \<not> sublist ''://'' r \<and> forbidden (path_join dir r) = [] \<and>
     (rp_stat rp (path_join dir r) = Some True \<or>
      rp_stat rp (path_join dir r) = Some False \<and> (\<exists>xs. objects yl rp (path_join dir r) = Inr xs \<and>
        (\<forall>x \<in> set xs. ko_kind x \<noteq> ''CustomResourceDefinition'' \<and> ko_kind x \<noteq> ''Namespace'')))"

definition kustomization_clean :: "'n yaml_lib \<Rightarrow> repo \<Rightarrow> path \<Rightarrow> bool" where
  "kustomization_clean yl rp dir \<longleftrightarrow>
     (\<exists>rs. kustomization_resources yl rp dir = Inr rs \<and> (\<forall>r \<in> set rs. resource_clean yl rp dir r))"

definition all_synced :: "repo \<Rightarrow> path \<Rightarrow> element list \<Rightarrow> bool" where
  "all_synced rp parent es \<longleftrightarrow> (\<exists>fs. rp_glob rp (parent @ ''/*/kustomization.yaml'') = Inr fs \<and>
     (\<forall>f \<in> set fs. path_dir f = rehearsal_dir \<or> (\<exists>e \<in> set es. path_dir f = el_path e)))"

definition element_agrees :: "'n yaml_lib \<Rightarrow> repo \<Rightarrow> string list \<Rightarrow> element \<Rightarrow> bool" where
  "element_agrees yl rp dests e \<longleftrightarrow>
     el_path e = ''core/'' @ el_dir e \<and> el_namespace e \<in> set dests \<and> kustomization_clean yl rp (el_path e)"

definition cut_agrees :: "'n yaml_lib \<Rightarrow> repo \<Rightarrow> element list \<Rightarrow> element \<Rightarrow> bool" where
  "cut_agrees yl rp core e \<longleftrightarrow>
     (\<exists>m \<in> set core. el_dir m = el_dir e \<and> el_namespace m = el_namespace e \<and>
        (el_path e = el_path m \<or> el_path e = rehearsal_dir @ ''/'' @ el_dir e \<and> kustomization_clean yl rp (el_path e)))"

definition rehearsal_agrees :: "'n yaml_lib \<Rightarrow> repo \<Rightarrow> element list \<Rightarrow> bool" where
  "rehearsal_agrees yl rp core \<longleftrightarrow>
     (\<exists>es. rehearsal_list yl rp = Inr es \<and> (\<forall>e \<in> set es. cut_agrees yl rp core e) \<and> all_synced rp rehearsal_dir es)"

definition project_agrees :: "'n yaml_lib \<Rightarrow> repo \<Rightarrow> project_world \<Rightarrow> string \<Rightarrow> bool" where
  "project_agrees yl rp pw p \<longleftrightarrow>
     destinations yl rp p = Inr [p] \<and>
     (\<exists>x. find_object yl rp (''projects/'' @ p @ ''/namespace.yaml'') ''Namespace'' p = Inr x) \<and>
     p \<in> set (pw_limit_ranges pw) \<and> (\<exists>rs. read_kustomization yl rp (limit_ranges_dir @ ''/'' @ p) = Inr (p, rs)) \<and>
     p \<in> set (pw_dests pw) \<and> (\<forall>(l, nss) \<in> set (pw_listeners pw). p \<in> set nss) \<and>
     (\<exists>cs. components rp p = Inr cs \<and> (\<forall>c \<in> set cs. p @ ''-'' @ c \<in> set (pw_apps pw))) \<and>
     (\<exists>reloaded. has_reloaded_deployment yl rp p = Inr reloaded \<and>
        (reloaded \<longrightarrow> p \<in> set (so_args (pw_scope pw)) \<inter> set (so_roles (pw_scope pw)) \<inter> set (so_bindings (pw_scope pw))))"

definition projects_agree :: "'n yaml_lib \<Rightarrow> repo \<Rightarrow> string list \<Rightarrow> bool" where
  "projects_agree yl rp dests \<longleftrightarrow>
     (\<exists>ps ls apps sc lr. projects yl rp = Inr ps \<and> gateway_namespaces yl rp = Inr ls \<and> app_names yl rp = Inr apps \<and>
        reloader_scope yl rp = Inr sc \<and> kustomization_resources yl rp limit_ranges_dir = Inr lr \<and>
        (\<forall>p \<in> set ps. project_agrees yl rp
          \<lparr>pw_listeners = ls, pw_apps = apps, pw_scope = sc, pw_limit_ranges = lr, pw_dests = dests\<rparr> p))"

text \<open>The hosts of the routes and of the probes in some files, whichever object names them.\<close>

definition objects_in :: "'n yaml_lib \<Rightarrow> repo \<Rightarrow> path list \<Rightarrow> string \<Rightarrow> 'n kobject set" where
  "objects_in yl rp fs kind = {x. \<exists>f \<in> set fs. \<exists>xs. objects yl rp f = Inr xs \<and> x \<in> set xs \<and> ko_kind x = kind}"

definition hosts_of :: "('n \<Rightarrow> string + string list) \<Rightarrow> 'n kobject set \<Rightarrow> string set" where
  "hosts_of decode X = {h. \<exists>x \<in> X. \<exists>hs. decode (ko_node x) = Inr hs \<and> h \<in> set hs}"

definition readable :: "('n \<Rightarrow> string + string list) \<Rightarrow> 'n kobject set \<Rightarrow> bool" where
  "readable decode X \<longleftrightarrow> (\<forall>x \<in> X. is_ok (decode (ko_node x)))"

definition hosts_agree :: "'n yaml_lib \<Rightarrow> repo \<Rightarrow> path list \<Rightarrow> bool" where
  "hosts_agree yl rp fs \<longleftrightarrow>
     (\<forall>f \<in> set fs. is_ok (objects yl rp f)) \<and>
     readable (yl_hostnames yl) (objects_in yl rp fs ''HTTPRoute'') \<and> readable (probe_hosts yl) (objects_in yl rp fs ''Probe'') \<and>
     hosts_of (yl_hostnames yl) (objects_in yl rp fs ''HTTPRoute'') = hosts_of (probe_hosts yl) (objects_in yl rp fs ''Probe'')"

subsection \<open>Each part\<close>

named_theorems clean \<open>when a part of the check finds nothing\<close>

lemma resource_iff [clean]: "check_resource yl rp dir r = [] \<longleftrightarrow> resource_clean yl rp dir r"
  by (auto simp: check_resource_def resource_clean_def check_content_def Let_def filter_empty_conv
      split: option.splits bool.splits sum.splits)

lemma kustomization_iff [clean]: "check_kustomization yl rp dir = [] \<longleftrightarrow> kustomization_clean yl rp dir"
  by (auto simp: check_kustomization_def kustomization_clean_def clean split: sum.splits)

lemma orphans_iff [clean]: "orphans rp parent es = [] \<longleftrightarrow> all_synced rp parent es"
  by (auto simp: orphans_def all_synced_def filter_empty_conv split: sum.splits)

lemma element_iff [clean]: "check_element yl rp dests e = [] \<longleftrightarrow> element_agrees yl rp dests e"
  by (auto simp: check_element_def element_agrees_def clean)

lemma find_dir:
  assumes "distinct (map el_dir core)"
  shows "find (\<lambda>m. el_dir m = d) (rev core) = Some m \<longleftrightarrow> m \<in> set core \<and> el_dir m = d"
proof -
  have d: "distinct (map el_dir (rev core))" using assms by (simp add: rev_map [symmetric])
  have "find (\<lambda>m. el_dir m = d) xs = Some m \<longleftrightarrow> m \<in> set xs \<and> el_dir m = d" if "distinct (map el_dir xs)" for xs
    using that by (induction xs) (auto simp: image_iff)
  from this [OF d] show ?thesis by simp
qed

lemma cut_iff:
  assumes "distinct (map el_dir core)"
  shows "check_rehearsal_element yl rp core e = [] \<longleftrightarrow> cut_agrees yl rp core e"
proof (cases "find (\<lambda>m. el_dir m = el_dir e) (rev core)")
  case None
  then have "\<not> cut_agrees yl rp core e" by (auto simp: cut_agrees_def find_None_iff)
  then show ?thesis by (simp add: check_rehearsal_element_def None)
next
  case (Some m)
  have "m' = m" if "m' \<in> set core" "el_dir m' = el_dir e" for m'
    using Some that find_dir [OF assms, of "el_dir e"] by (metis option.inject)
  moreover have "m \<in> set core" "el_dir m = el_dir e" using Some find_dir [OF assms] by blast+
  ultimately have "cut_agrees yl rp core e \<longleftrightarrow> el_namespace m = el_namespace e \<and>
      (el_path e = el_path m \<or> el_path e = rehearsal_dir @ ''/'' @ el_dir e \<and> kustomization_clean yl rp (el_path e))"
    unfolding cut_agrees_def by blast
  then show ?thesis by (auto simp: check_rehearsal_element_def Some clean)
qed

lemma rehearsal_iff:
  "distinct (map el_dir core) \<Longrightarrow> check_rehearsal yl rp core = [] \<longleftrightarrow> rehearsal_agrees yl rp core"
  by (auto simp: check_rehearsal_def rehearsal_agrees_def clean cut_iff split: sum.splits)

lemma limit_range_iff [clean]:
  "check_limit_range yl rp p listed dests = [] \<longleftrightarrow>
     p \<in> set listed \<and> (\<exists>rs. read_kustomization yl rp (limit_ranges_dir @ ''/'' @ p) = Inr (p, rs)) \<and> p \<in> set dests"
  by (auto simp: check_limit_range_def Let_def split: sum.splits)

lemma reloaded_iff [clean]:
  "check_reloaded yl rp pw p = [] \<longleftrightarrow>
     (\<exists>reloaded. has_reloaded_deployment yl rp p = Inr reloaded \<and>
        (reloaded \<longrightarrow> p \<in> set (so_args (pw_scope pw)) \<inter> set (so_roles (pw_scope pw)) \<inter> set (so_bindings (pw_scope pw)) \<and>
           p \<in> set (pw_dests pw)))"
  by (auto simp: check_reloaded_def scope_covers_def split: sum.splits)

lemma components_iff [clean]:
  "check_components yl rp pw p = [] \<longleftrightarrow>
     (\<exists>cs. components rp p = Inr cs \<and> (\<forall>c \<in> set cs. p @ ''-'' @ c \<in> set (pw_apps pw))) \<and> check_reloaded yl rp pw p = []"
  unfolding check_components_def by (cases "components rp p") (auto simp: filter_empty_conv)

lemma project_iff [clean]: "check_project yl rp pw p = [] \<longleftrightarrow> project_agrees yl rp pw p"
proof -
  have d: "(case destinations yl rp p of Inl e \<Rightarrow> [e]
      | Inr ds \<Rightarrow> if ds \<noteq> [p]
          then [app_projects @ '': AppProject '' @ p @ '' has destinations ['' @ join_str '' '' ds @ '']; want only '' @ p] else []) = []
      \<longleftrightarrow> destinations yl rp p = Inr [p]"
    by (cases "destinations yl rp p") auto
  have n: "(case r of Inl e \<Rightarrow> [e] | Inr _ \<Rightarrow> []) = [] \<longleftrightarrow> (\<exists>x. r = Inr x)" for r :: "string + 'a kobject"
    by (cases r) auto
  have l: "map (\<lambda>(name, _). gateway_file @ '': listener '' @ name @ '' does not admit routes from '' @ p)
      (filter (\<lambda>(_, nss). p \<notin> set nss) (pw_listeners pw)) = [] \<longleftrightarrow> (\<forall>(l, nss) \<in> set (pw_listeners pw). p \<in> set nss)"
    by (auto simp: filter_empty_conv)
  show ?thesis
    unfolding check_project_def append_is_Nil_conv d n l project_agrees_def limit_range_iff components_iff reloaded_iff
    by blast
qed

lemma projects_iff [clean]: "check_projects yl rp dests = [] \<longleftrightarrow> projects_agree yl rp dests"
  unfolding check_projects_def projects_agree_def
  by (cases "projects yl rp"; cases "gateway_namespaces yl rp"; cases "app_names yl rp"; cases "reloader_scope yl rp";
      cases "kustomization_resources yl rp limit_ranges_dir") (simp_all add: clean)

subsection \<open>Hosts and probes\<close>

lemma fst_named_hosts: "fst ` set (named_hosts f hs m) = fst ` set m \<union> set hs"
  unfolding named_hosts_def by (induction hs arbitrary: m) auto

lemma index_object_hosts:
  "fst ` set (hi_routes (index_object yl f x idx)) = fst ` set (hi_routes idx) \<union>
       hosts_of (yl_hostnames yl) {y \<in> {x}. ko_kind y = ''HTTPRoute''} \<and>
   fst ` set (hi_targets (index_object yl f x idx)) = fst ` set (hi_targets idx) \<union>
       hosts_of (probe_hosts yl) {y \<in> {x}. ko_kind y = ''Probe''} \<and>
   (hi_errs (index_object yl f x idx) = [] \<longleftrightarrow> hi_errs idx = [] \<and>
       readable (yl_hostnames yl) {y \<in> {x}. ko_kind y = ''HTTPRoute''} \<and> readable (probe_hosts yl) {y \<in> {x}. ko_kind y = ''Probe''})"
  by (auto simp: index_object_def hosts_of_def readable_def fst_named_hosts split: sum.splits)

lemma hosts_of_Un: "hosts_of d (A \<union> B) = hosts_of d A \<union> hosts_of d B"
  by (auto simp: hosts_of_def)

lemma readable_Un: "readable d (A \<union> B) \<longleftrightarrow> readable d A \<and> readable d B"
  by (auto simp: readable_def)

lemma kinds_Cons: "{y \<in> set (x # xs). ko_kind y = k} = {y \<in> {x}. ko_kind y = k} \<union> {y \<in> set xs. ko_kind y = k}"
  by auto

lemma index_objects_hosts:
  "fst ` set (hi_routes (fold (index_object yl f) xs idx)) = fst ` set (hi_routes idx) \<union>
       hosts_of (yl_hostnames yl) {y \<in> set xs. ko_kind y = ''HTTPRoute''} \<and>
   fst ` set (hi_targets (fold (index_object yl f) xs idx)) = fst ` set (hi_targets idx) \<union>
       hosts_of (probe_hosts yl) {y \<in> set xs. ko_kind y = ''Probe''} \<and>
   (hi_errs (fold (index_object yl f) xs idx) = [] \<longleftrightarrow> hi_errs idx = [] \<and>
       readable (yl_hostnames yl) {y \<in> set xs. ko_kind y = ''HTTPRoute''} \<and>
       readable (probe_hosts yl) {y \<in> set xs. ko_kind y = ''Probe''})"
proof (induction xs arbitrary: idx)
  case Nil
  then show ?case by (simp add: hosts_of_def readable_def)
next
  case (Cons x xs)
  show ?case
    unfolding fold.simps comp_apply Cons.IH [of "index_object yl f x idx", THEN conjunct1]
      Cons.IH [of "index_object yl f x idx", THEN conjunct2, THEN conjunct1]
      Cons.IH [of "index_object yl f x idx", THEN conjunct2, THEN conjunct2]
      index_object_hosts [THEN conjunct1] index_object_hosts [THEN conjunct2, THEN conjunct1]
      index_object_hosts [THEN conjunct2, THEN conjunct2] kinds_Cons hosts_of_Un readable_Un
    by (simp add: Un_assoc conj_ac)
qed

lemma objects_in_Cons:
  "objects yl rp f = Inr xs \<Longrightarrow> objects_in yl rp (f # fs) k = {y \<in> set xs. ko_kind y = k} \<union> objects_in yl rp fs k"
  by (auto simp: objects_in_def)

lemma index_hosts_spec:
  "index_hosts yl rp fs idx = r \<Longrightarrow>
     (if \<forall>f \<in> set fs. is_ok (objects yl rp f)
      then \<exists>idx'. r = Inr idx' \<and>
        fst ` set (hi_routes idx') = fst ` set (hi_routes idx) \<union> hosts_of (yl_hostnames yl) (objects_in yl rp fs ''HTTPRoute'') \<and>
        fst ` set (hi_targets idx') = fst ` set (hi_targets idx) \<union> hosts_of (probe_hosts yl) (objects_in yl rp fs ''Probe'') \<and>
        (hi_errs idx' = [] \<longleftrightarrow> hi_errs idx = [] \<and> readable (yl_hostnames yl) (objects_in yl rp fs ''HTTPRoute'') \<and>
          readable (probe_hosts yl) (objects_in yl rp fs ''Probe''))
      else \<exists>e. r = Inl e)"
proof (induction fs arbitrary: idx)
  case Nil
  then show ?case by (auto simp: hosts_of_def readable_def objects_in_def)
next
  case (Cons f fs)
  show ?case
  proof (cases "objects yl rp f")
    case (Inl e)
    then show ?thesis using Cons.prems by auto
  next
    case (Inr xs)
    from Cons.prems Inr have "index_hosts yl rp fs (fold (index_object yl f) xs idx) = r" by simp
    note ih = Cons.IH [OF this]
    show ?thesis
    proof (cases "\<forall>f \<in> set fs. is_ok (objects yl rp f)")
      case True
      with ih obtain idx' where i: "r = Inr idx'"
        "fst ` set (hi_routes idx') = fst ` set (hi_routes (fold (index_object yl f) xs idx)) \<union>
           hosts_of (yl_hostnames yl) (objects_in yl rp fs ''HTTPRoute'')"
        "fst ` set (hi_targets idx') = fst ` set (hi_targets (fold (index_object yl f) xs idx)) \<union>
           hosts_of (probe_hosts yl) (objects_in yl rp fs ''Probe'')"
        "hi_errs idx' = [] \<longleftrightarrow> hi_errs (fold (index_object yl f) xs idx) = [] \<and>
           readable (yl_hostnames yl) (objects_in yl rp fs ''HTTPRoute'') \<and> readable (probe_hosts yl) (objects_in yl rp fs ''Probe'')"
        by auto
      have all: "\<forall>g \<in> set (f # fs). is_ok (objects yl rp g)" using True Inr by simp
      show ?thesis
        unfolding if_P [OF all] i(1) objects_in_Cons [OF Inr] hosts_of_Un readable_Un
      proof (intro exI [of _ idx'] conjI refl)
        show "(hi_errs idx' = []) = (hi_errs idx = [] \<and>
            (readable (yl_hostnames yl) {y \<in> set xs. ko_kind y = ''HTTPRoute''} \<and> readable (yl_hostnames yl) (objects_in yl rp fs ''HTTPRoute'')) \<and>
            readable (probe_hosts yl) {y \<in> set xs. ko_kind y = ''Probe''} \<and> readable (probe_hosts yl) (objects_in yl rp fs ''Probe''))"
          unfolding i(4) index_objects_hosts [THEN conjunct2, THEN conjunct2] by blast
      qed (simp_all add: i(2,3) index_objects_hosts Un_assoc)
    next
      case False
      with ih have "\<exists>e. r = Inl e" by (simp only: if_False)
      moreover have "\<not> (\<forall>g \<in> set (f # fs). is_ok (objects yl rp g))" using False by simp
      ultimately show ?thesis by (simp only: if_False)
    qed
  qed
qed

lemma drift_iff: "drift idx = [] \<longleftrightarrow> fst ` set (hi_routes idx) = fst ` set (hi_targets idx)"
  unfolding drift_def by (auto simp: filter_empty_conv map_of_eq_None_iff)

lemma probes_iff:
  "check_probes yl rp n core = Some [] \<longleftrightarrow>
     (\<exists>fs. synced_route_files yl rp n core = Some (Inr fs) \<and> hosts_agree yl rp fs)"
proof (cases "synced_route_files yl rp n core")
  case (Some r)
  show ?thesis
  proof (cases r)
    case (Inr fs)
    let ?i = "index_hosts yl rp fs \<lparr>hi_routes = [], hi_targets = [], hi_errs = []\<rparr>"
    have "(case ?i of Inl e \<Rightarrow> [e] | Inr idx \<Rightarrow> hi_errs idx @ drift idx) = [] \<longleftrightarrow> hosts_agree yl rp fs"
      using index_hosts_spec [OF refl, where yl = yl and rp = rp and fs = fs and idx = "\<lparr>hi_routes = [], hi_targets = [], hi_errs = []\<rparr>"]
      by (auto simp: hosts_agree_def drift_iff split: if_splits)
    then show ?thesis by (simp add: check_probes_def Some Inr)
  qed (simp add: check_probes_def Some)
qed (simp add: check_probes_def)

subsection \<open>The bases\<close>

lemma fuel_bind_None: "fuel_bind r f = None \<longleftrightarrow> r = None \<or> (\<exists>a. r = Some (Inr a) \<and> f a = None)"
  by (auto simp: fuel_bind_def split: option.splits sum.splits)

lemma collect_returns: "(\<And>x. x \<in> set xs \<Longrightarrow> f x \<noteq> None) \<Longrightarrow> collect f xs \<noteq> None"
  by (induction xs) (auto simp: fuel_bind_None)

lemma collect_mono:
  assumes "collect f xs = Some r" and "\<And>x r. x \<in> set xs \<Longrightarrow> f x = Some r \<Longrightarrow> g x = Some r"
  shows "collect g xs = Some r"
  using assms
proof (induction xs arbitrary: r)
  case (Cons x xs)
  then obtain r1 where x: "f x = Some r1" "g x = Some r1"
    by (auto simp: fuel_bind_def split: option.splits)
  show ?case
  proof (cases r1)
    case (Inr a)
    with Cons.prems(1) x obtain r2 where r2: "collect f xs = Some r2" by (auto simp: fuel_bind_def split: option.splits)
    have "collect g xs = Some r2" by (rule Cons.IH [OF r2]) (use Cons.prems(2) in simp)
    with Cons.prems(1) x r2 show ?thesis by simp
  qed (use Cons.prems(1) x in \<open>auto simp: fuel_bind_def\<close>)
qed simp

lemma build_files_Suc:
  "build_files yl rp n dir = Some r \<Longrightarrow> build_files yl rp (Suc n) dir = Some r"
proof (induction n arbitrary: dir r)
  case (Suc n)
  show ?case
  proof (cases "kustomization_resources yl rp dir")
    case (Inr rs)
    from Suc.prems have "collect (\<lambda>r. if sublist ''://'' r then Some (Inr [])
       else (case rp_stat rp (path_join dir r) of None \<Rightarrow> Some (Inr [])
         | Some True \<Rightarrow> build_files yl rp n (path_join dir r) | Some False \<Rightarrow> Some (Inr [path_join dir r]))) rs = Some r"
      by (simp add: Inr fuel_bind_def)
    then have "collect (\<lambda>r. if sublist ''://'' r then Some (Inr [])
       else (case rp_stat rp (path_join dir r) of None \<Rightarrow> Some (Inr [])
         | Some True \<Rightarrow> build_files yl rp (Suc n) (path_join dir r) | Some False \<Rightarrow> Some (Inr [path_join dir r]))) rs = Some r"
      by (rule collect_mono) (auto split: option.splits bool.splits if_splits intro: Suc.IH simp del: build_files.simps)
    then show ?thesis by (simp only: build_files.simps(2) [of _ _ "Suc n"] Inr fuel_bind_def option.case sum.case)
  next
    case (Inl e)
    with Suc.prems have "r = Inl e" by (simp add: fuel_bind_def)
    with Inl show ?thesis by (simp add: fuel_bind_def)
  qed
qed simp

text \<open>A repository whose bases do not go round in a circle: a rank falls from a kustomization to each base it lists.\<close>

definition ranked :: "'n yaml_lib \<Rightarrow> repo \<Rightarrow> (path \<Rightarrow> nat) \<Rightarrow> bool" where
  "ranked yl rp rank \<longleftrightarrow> (\<forall>dir rs. kustomization_resources yl rp dir = Inr rs \<longrightarrow>
     (\<forall>r \<in> set rs. \<not> sublist ''://'' r \<longrightarrow> rp_stat rp (path_join dir r) = Some True \<longrightarrow> rank (path_join dir r) < rank dir))"

lemma build_files_returns:
  "ranked yl rp rank \<Longrightarrow> rank dir < n \<Longrightarrow> build_files yl rp n dir \<noteq> None"
proof (induction n arbitrary: dir)
  case (Suc n)
  show ?case
  proof (cases "kustomization_resources yl rp dir")
    case (Inr rs)
    have "build_files yl rp n (path_join dir r) \<noteq> None"
      if "r \<in> set rs" "\<not> sublist ''://'' r" "rp_stat rp (path_join dir r) = Some True" for r
      using Suc.IH [OF Suc.prems(1), of "path_join dir r"] Suc.prems Inr that by (fastforce simp: ranked_def)
    then show ?thesis
      unfolding build_files.simps fuel_bind_None Inr
      by (auto intro!: collect_returns [unfolded not_None_eq] split: option.splits bool.splits)
  qed (simp add: fuel_bind_def)
qed simp

lemma check_returns:
  assumes "ranked yl rp rank" and "core_list yl rp = Inr core" and "\<forall>e \<in> set core. rank (el_path e) < n"
  shows "check_repo yl lib decode rp n \<noteq> None"
proof -
  have "collect (\<lambda>e. build_files yl rp n (el_path e)) core \<noteq> None"
    by (rule collect_returns) (use assms in \<open>auto dest: build_files_returns\<close>)
  then have "synced_route_files yl rp n core \<noteq> None"
    unfolding synced_route_files_def fuel_bind_None by simp
  then have "check_probes yl rp n core \<noteq> None" by (auto simp: check_probes_def split: option.splits sum.splits)
  then show ?thesis by (cases "destinations yl rp ''core''") (auto simp: check_repo_def assms(2))
qed

lemma self_base_loops:
  assumes "kustomization_resources yl rp dir = Inr (''.'' # rs)" and "path_join dir ''.'' = dir" and "rp_stat rp dir = Some True"
  shows "build_files yl rp n dir = None"
proof (induction n)
  case (Suc n)
  have "\<not> sublist ''://'' ''.''" by code_simp
  then show ?case using Suc assms by (simp add: fuel_bind_def)
qed simp

lemma self_base_clean:
  assumes "path_join dir ''.'' = dir" and "rp_stat rp dir = Some True" and "forbidden dir = []"
  shows "check_resource yl rp dir ''.'' = []"
proof -
  have "\<not> sublist ''://'' ''.''" by code_simp
  then show ?thesis using assms by (simp add: check_resource_def Let_def)
qed

subsection \<open>The whole check\<close>

definition seed_reads :: "'n yaml_lib \<Rightarrow> repo \<Rightarrow> bool \<Rightarrow> bool" where
  "seed_reads yl rp rehearsal \<longleftrightarrow>
     (\<exists>s nss rev. seed_for yl rp rehearsal = Inr s \<and> seed_namespaces yl rp s = Inr nss \<and> target_revision yl rp rehearsal = Inr rev)"

text \<open>A rehearsal can make each of its Secrets: every key has a value for it, and no omission is stale.\<close>

definition fresh_possible :: "catalog \<Rightarrow> string list \<Rightarrow> bool" where
  "fresh_possible c nss \<longleftrightarrow>
     (\<forall>s \<in> set (fresh_secrets c nss). \<forall>n \<in> set (key_names s). let k = the (secret_key s n) in
        in_rehearsal k \<and> (ky_kind k = Copy \<longrightarrow> kr_secret (ky_source k) \<in> sc_ref ` set (fresh_secrets c nss))) \<and>
     (\<forall>s \<in> set (ct_secrets c). sc_rehearsal s = ''omit'' \<longrightarrow> rf_namespace (sc_ref s) \<in> set nss)"

definition secrets_agree :: "'n yaml_lib \<Rightarrow> decode \<Rightarrow> repo \<Rightarrow> bool" where
  "secrets_agree yl decode rp \<longleftrightarrow>
     (\<exists>d c s nss. rp_read rp ''secrets.yaml'' = Inr d \<and> parse_catalog decode d ''.'' = Inr c \<and>
        seed_for yl rp True = Inr s \<and> seed_namespaces yl rp s = Inr nss \<and> fresh_possible c nss)"

definition recovery_agrees :: "pg_lib \<Rightarrow> repo \<Rightarrow> bool" where
  "recovery_agrees lib rp \<longleftrightarrow>
     (\<exists>c p g ops. rp_read rp cluster_file = Inr c \<and> rp_read rp recover_patch = Inr p \<and>
        current_gen lib c = Inr g \<and> pg_ops lib p = Inr ops \<and> overlay_agrees lib g ops)"

definition repo_agrees :: "'n yaml_lib \<Rightarrow> pg_lib \<Rightarrow> decode \<Rightarrow> repo \<Rightarrow> nat \<Rightarrow> bool" where
  "repo_agrees yl lib decode rp n \<longleftrightarrow>
     (\<exists>core dests fs. core_list yl rp = Inr core \<and> destinations yl rp ''core'' = Inr dests \<and>
        synced_route_files yl rp n core = Some (Inr fs) \<and>
        (\<forall>e \<in> set core. element_agrees yl rp dests e) \<and> all_synced rp ''core'' core \<and> rehearsal_agrees yl rp core \<and>
        projects_agree yl rp dests \<and> hosts_agree yl rp fs) \<and>
     seed_reads yl rp False \<and> seed_reads yl rp True \<and> secrets_agree yl decode rp \<and> recovery_agrees lib rp"

lemma fresh_key_iff:
  "check_fresh_key fs s n = [] \<longleftrightarrow> (let k = the (secret_key s n) in
     in_rehearsal k \<and> (ky_kind k = Copy \<longrightarrow> kr_secret (ky_source k) \<in> sc_ref ` set fs))"
  by (simp add: check_fresh_key_def Let_def)

lemma check_fresh_iff: "check_fresh c nss = [] \<longleftrightarrow> fresh_possible c nss"
  unfolding check_fresh_def fresh_possible_def Let_def [of "fresh_secrets c nss"] append_is_Nil_conv
  by (auto simp: filter_empty_conv fresh_key_iff)

lemma errors_of_Nil: "errors_of r = [] \<longleftrightarrow> (\<exists>x. r = Inr x)"
  by (cases r) (simp_all add: errors_of_def)

lemma seed_iff: "check_seed yl rp b = [] \<longleftrightarrow> seed_reads yl rp b"
  by (auto simp: check_seed_def seed_reads_def errors_of_Nil result_bind_Inr)

lemma secrets_iff: "check_rehearsal_secrets yl decode rp = [] \<longleftrightarrow> secrets_agree yl decode rp"
  unfolding check_rehearsal_secrets_def secrets_agree_def
  by (auto simp: check_fresh_iff result_bind_def split: sum.splits)

lemma recovery_iff: "check_recovery lib rp = [] \<longleftrightarrow> recovery_agrees lib rp"
  by (auto simp: check_recovery_def recovery_agrees_def overlay_exact split: sum.splits)

lemma map_Problem_Nil: "map Problem xs = [] \<longleftrightarrow> xs = []"
  by simp

lemma check_repo_read:
  assumes "core_list yl rp = Inr core" and "destinations yl rp ''core'' = Inr dests"
  shows "check_repo yl lib decode rp n = Some [] \<longleftrightarrow>
     ((\<forall>e \<in> set core. element_agrees yl rp dests e) \<and> all_synced rp ''core'' core \<and> rehearsal_agrees yl rp core \<and>
       projects_agree yl rp dests \<and> check_probes yl rp n core = Some []) \<and>
     seed_reads yl rp False \<and> seed_reads yl rp True \<and> secrets_agree yl decode rp \<and> recovery_agrees lib rp"
proof (cases "check_probes yl rp n core")
  case (Some probes)
  have es: "concat (map (check_element yl rp dests) core) = [] \<longleftrightarrow> (\<forall>e \<in> set core. element_agrees yl rp dests e)"
    by (auto simp: clean)
  have d: "distinct (map el_dir core)" using core_list_elements [OF assms(1)] by blast
  show ?thesis
    unfolding check_repo_def assms result_bind_simps sum.case prod.case Some option.case option.inject append_is_Nil_conv
      map_Problem_Nil es orphans_iff rehearsal_iff [OF d] projects_iff seed_iff secrets_iff recovery_iff
    by blast
qed (simp add: check_repo_def assms)

lemma check_exact: "check_repo yl lib decode rp n = Some [] \<longleftrightarrow> repo_agrees yl lib decode rp n"
proof (cases "\<exists>core dests. core_list yl rp = Inr core \<and> destinations yl rp ''core'' = Inr dests")
  case True
  then obtain core dests where r: "core_list yl rp = Inr core" "destinations yl rp ''core'' = Inr dests" by blast
  have inj: "core_list yl rp = Inr c \<longleftrightarrow> c = core" "destinations yl rp ''core'' = Inr ds \<longleftrightarrow> ds = dests" for c ds
    using r by auto
  show ?thesis unfolding check_repo_read [OF r] repo_agrees_def probes_iff inj by blast
next
  case False
  then have "check_repo yl lib decode rp n \<noteq> Some []"
    unfolding check_repo_def by (cases "core_list yl rp"; cases "destinations yl rp ''core''") auto
  moreover have "\<not> repo_agrees yl lib decode rp n" using False unfolding repo_agrees_def by blast
  ultimately show ?thesis by simp
qed

text \<open>
  C29 \<open>kluster services check\<close> finds nothing precisely when the synced files agree. Each core Application syncs
  \<open>core/<dir>\<close> into a namespace the core AppProject admits, from a kustomization whose every resource is local, exists, is
  nothing the seed, \<open>kluster db create\<close> or \<open>kluster secrets apply\<close> owns, and holds no CRD and no Namespace; no
  kustomization is left that no Application syncs. The rehearsal's list is a cut of the core list. Each project has
  exactly its own destination, its namespace file, its LimitRange, every listener's consent, a catalog entry for each
  component, and Reloader's scope where it needs one. The hosts of the synced routes are exactly the hosts of the probes.
  Both environments' seeds can be read, a rehearsal can make each of its Secrets, and the recovery overlay names the
  generation of the base.
\<close>

theorem services_check_exact:
  "check_repo yl lib decode rp n = Some [] \<longleftrightarrow> repo_agrees yl lib decode rp n"
  by (rule check_exact)

subsection \<open>The check comes back\<close>

lemma synced_route_files_Suc:
  assumes "synced_route_files yl rp n core = Some r"
  shows "synced_route_files yl rp (Suc n) core = Some r"
proof -
  obtain r1 where c: "collect (\<lambda>e. build_files yl rp n (el_path e)) core = Some r1"
    using assms by (auto simp: synced_route_files_def fuel_bind_def split: option.splits)
  then have "collect (\<lambda>e. build_files yl rp (Suc n) (el_path e)) core = Some r1"
    by (rule collect_mono) (rule build_files_Suc)
  with assms c show ?thesis by (simp only: synced_route_files_def)
qed

lemma check_repo_Suc:
  assumes "check_repo yl lib decode rp n = Some es"
  shows "check_repo yl lib decode rp (Suc n) = Some es"
proof (cases "result_bind (core_list yl rp) (\<lambda>core. result_bind (destinations yl rp ''core'') (\<lambda>dests. Inr (core, dests)))")
  case (Inr cd)
  obtain core dests where cd: "cd = (core, dests)" by (cases cd)
  obtain r where r: "synced_route_files yl rp n core = Some r"
    using assms Inr cd by (auto simp: check_repo_def check_probes_def split: option.splits)
  then have "check_probes yl rp (Suc n) core = check_probes yl rp n core"
    unfolding check_probes_def by (simp only: synced_route_files_Suc [OF r])
  with assms Inr cd show ?thesis by (simp only: check_repo_def sum.case prod.case)
qed (use assms in \<open>simp only: check_repo_def sum.case\<close>)

lemma check_repo_more:
  assumes "check_repo yl lib decode rp n = Some es" and "n \<le> m"
  shows "check_repo yl lib decode rp m = Some es"
  using assms(2,1) by (induction m rule: dec_induct) (auto intro: check_repo_Suc)

text \<open>
  The check comes back, with one answer, on every repository whose bases do not go round in a circle: when a rank falls from
  each kustomization to each base it lists, any fuel above the ranks of the core directories gives the same errors.
\<close>

theorem services_check_returns:
  assumes "ranked yl rp rank" and "core_list yl rp = Inr core" and "\<forall>e \<in> set core. rank (el_path e) < n"
  shows "\<exists>es. \<forall>m \<ge> n. check_repo yl lib decode rp m = Some es"
  using check_returns [OF assms, of lib decode] check_repo_more by blast

text \<open>A repository with a base, and a directory that lists itself.\<close>

definition toy_yaml_lib :: "string yaml_lib" where
  "toy_yaml_lib = \<lparr>yl_docs = (\<lambda>d. ([(d, True)], None)),
     yl_object = (\<lambda>n. Inr \<lparr>ko_kind = (if n = ''set'' then ''ApplicationSet'' else ''Kustomization''), ko_name = ''core'',
       ko_namespace = [], ko_annotations = [], ko_node = n\<rparr>),
     yl_generators = (\<lambda>_. Inr [Some [\<lparr>el_dir = ''a'', el_path = ''core/a'', el_namespace = ''ns''\<rparr>]]),
     yl_patches = (\<lambda>_. Inr []), yl_patch_ops = (\<lambda>_. None), yl_elements = (\<lambda>_. Inr []), yl_string = (\<lambda>_. Inr []),
     yl_revision = (\<lambda>_. Inr ''main''), yl_directories = (\<lambda>_. Inr []), yl_kustomization = (\<lambda>n. Inr ([], [n])),
     yl_destinations = (\<lambda>_. Inr []), yl_listeners = (\<lambda>_. Inr []), yl_container_args = (\<lambda>_. Inr []),
     yl_hostnames = (\<lambda>_. Inr []), yl_probe = (\<lambda>_. Inr (False, None)), yl_url = (\<lambda>_. None), yl_json_keys = (\<lambda>_. Inr [])\<rparr>"

definition toy_files :: repo where
  "toy_files = \<lparr>rp_read = (\<lambda>f.
       if f = core_app_set then Inr ''set''
       else if f = ''core/a/kustomization.yaml'' then Inr ''../b''
       else if f = ''core/b/kustomization.yaml'' then Inr ''cm.yaml''
       else Inl ''no such file''),
     rp_stat = (\<lambda>f. if f = ''core/b'' then Some True else if f = ''core/b/cm.yaml'' then Some False else None),
     rp_glob = (\<lambda>_. Inr [])\<rparr>"

definition looping_files :: repo where
  "looping_files = toy_files\<lparr>rp_read := (\<lambda>f. if f = ''core/a/kustomization.yaml'' then Inr ''.'' else Inl ''no such file''),
     rp_stat := (\<lambda>f. if f = ''core/a'' then Some True else None)\<rparr>"

definition toy_rank :: "path \<Rightarrow> nat" where
  "toy_rank d = (if d = ''core/a'' then 1 else 0)"

lemma rev_eq_append: "d @ s = l \<Longrightarrow> rev s @ rev d = rev l"
  by auto

lemma toy_resources:
  assumes "kustomization_resources toy_yaml_lib toy_files dir = Inr rs"
  shows "dir = ''core/a'' \<and> rs = [''../b''] \<or> dir = ''core/b'' \<and> rs = [''cm.yaml'']"
proof -
  have n: "kustomization_file dir \<noteq> core_app_set"
    by (auto simp: kustomization_file_def core_app_set_def dest: rev_eq_append)
  have k: "kustomization_file dir = kustomization_file d \<longleftrightarrow> dir = d" for d by (simp add: kustomization_file_def)
  have a: "''core/a/kustomization.yaml'' = kustomization_file ''core/a''" "''core/b/kustomization.yaml'' = kustomization_file ''core/b''"
    by (simp_all add: kustomization_file_def)
  show ?thesis
    using assms n by (auto simp: kustomization_resources_def read_kustomization_def objects_def result_bind_def toy_files_def
      toy_yaml_lib_def in_file_def a k split: if_splits)
qed

lemma toy_ranked: "ranked toy_yaml_lib toy_files toy_rank"
proof -
  have "path_join ''core/a'' ''../b'' = ''core/b''" "path_join ''core/b'' ''cm.yaml'' = ''core/b/cm.yaml''"
    "rp_stat toy_files ''core/b/cm.yaml'' = Some False" by code_simp+
  then show ?thesis by (auto simp: ranked_def toy_rank_def dest!: toy_resources)
qed

theorem services_check_returns_witness:
  "\<exists>es. \<forall>m \<ge> 2. check_repo toy_yaml_lib toy_pg_lib (\<lambda>_. Inr []) toy_files m = Some es"
proof -
  have "core_list toy_yaml_lib toy_files = Inr [\<lparr>el_dir = ''a'', el_path = ''core/a'', el_namespace = ''ns''\<rparr>]" by code_simp
  from services_check_returns [OF toy_ranked this, of 2] show ?thesis by (simp add: toy_rank_def)
qed

text \<open>
  A directory that lists itself as a base passes the check of its own resources, and \<open>buildFiles\<close> never comes back from it:
  no fuel is enough.
\<close>

theorem self_base_never_returns:
  assumes "kustomization_resources yl rp dir = Inr (''.'' # rs)" and "path_join dir ''.'' = dir" and "rp_stat rp dir = Some True"
    and "forbidden dir = []"
  shows "check_resource yl rp dir ''.'' = [] \<and> (\<forall>n. build_files yl rp n dir = None)"
  using self_base_clean [OF assms(2,3,4)] self_base_loops [OF assms(1,2,3)] by blast

theorem self_base_never_returns_witness:
  "\<forall>n. build_files toy_yaml_lib looping_files n ''core/a'' = None"
proof -
  have r: "kustomization_resources toy_yaml_lib looping_files ''core/a'' = Inr (''.'' # [])"
    "path_join ''core/a'' ''.'' = ''core/a''" "rp_stat looping_files ''core/a'' = Some True" "forbidden ''core/a'' = []"
    by code_simp+
  show ?thesis using self_base_never_returns [OF r] by blast
qed

end
