(* ===== verification/CoreFresh.thy ===== *)
theory CoreFresh
  imports CoreAgree SecretFresh
begin

section \<open>A checked repository has a rehearsal that can be made\<close>

text \<open>
  Where the check of the files meets the Secrets of a rehearsal: \<open>secrets.Fresh\<close> refuses an issued key without a value for
  rehearsals and a copy of a Secret that is not made, and says that \<open>kluster services check\<close> refuses both first. Here is
  that it does: after a clean check no run of \<open>Fresh\<close> on the Secrets \<open>FreshSecrets\<close> chooses ends with one of the two.
\<close>

fun missing_value :: "fresh_error \<Rightarrow> bool" where
  "missing_value (NoRehearsalValue _) = True"
| "missing_value (NoVaultGiven _) = True"
| "missing_value (SourceNotMade _ _) = True"
| "missing_value _ = False"

subsection \<open>The first loop\<close>

lemma fresh_key_possible:
  "in_rehearsal (the (secret_key s n)) \<Longrightarrow>
     wp (fresh_key draw (Some issued) s n v) (\<lambda>_ _ _. True) (\<lambda>e _ _. \<not> missing_value e) w out"
  by (cases "ky_kind (the (secret_key s n))") (auto simp: fresh_key_def Let_def wp_simps)

lemma fresh_loop_possible:
  assumes "\<forall>s \<in> set ss. \<forall>n \<in> set (key_names s). in_rehearsal (the (secret_key s n))"
  shows "wp (io_fold (fresh_secret draw (Some issued)) ss vals) (\<lambda>_ _ _. True) (\<lambda>e _ _. \<not> missing_value e) w out"
proof (rule wp_fold_prefix [where I = "\<lambda>_ _ _ _. True"])
  fix pre s post vals w1 and out
  assume "ss = pre @ s # post"
  with assms have s: "\<forall>n \<in> set (key_names s). in_rehearsal (the (secret_key s n))" by simp
  have "wp (io_fold (fresh_key draw (Some issued) s) (key_names s) []) (\<lambda>_ _ _. True) (\<lambda>e _ _. \<not> missing_value e) w1 out"
  proof (rule wp_fold_prefix [where I = "\<lambda>_ _ _ _. True"])
    fix pre n post v w2 and out
    assume "key_names s = pre @ n # post"
    with s show "wp (fresh_key draw (Some issued) s n v) (\<lambda>_ _ _. True) (\<lambda>e _ _. \<not> missing_value e) w2 out"
      by (simp add: fresh_key_possible)
  qed simp
  then show "wp (fresh_secret draw (Some issued) s vals) (\<lambda>_ _ _. True) (\<lambda>e _ _. \<not> missing_value e) w1 out"
    unfolding fresh_secret_def wp_bind by (rule wp_mono) (simp_all add: wp_simps)
qed simp

subsection \<open>The sources of the copies\<close>

lemma fresh_secrets_subset: "set (fresh_secrets c nss) \<subseteq> set (ct_secrets c)"
  by (auto simp: fresh_secrets_def)

lemma source_made:
  assumes ok: "catalog_ok c" and poss: "fresh_possible c nss"
    and made: "\<forall>s \<in> set (fresh_secrets c nss). \<exists>v. vals (sc_ref s) = Some v \<and> holds_new vo s (set (key_names s)) v"
  shows "\<not> source_missing (set (secret_pairs (fresh_secrets c nss))) vals"
proof
  assume "source_missing (set (secret_pairs (fresh_secrets c nss))) vals"
  then obtain s n where s: "s \<in> set (fresh_secrets c nss)" "n \<in> set (key_names s)"
      and k: "ky_kind (the (secret_key s n)) = Copy" and none: "made_value vals (ky_source (the (secret_key s n))) = None"
    by (auto simp: source_missing_def secret_pairs_iff)
  let ?src = "ky_source (the (secret_key s n))"
  from poss s k have "kr_secret ?src \<in> sc_ref ` set (fresh_secrets c nss)"
    by (auto simp: fresh_possible_def Let_def)
  then obtain t where t: "t \<in> set (fresh_secrets c nss)" "sc_ref t = kr_secret ?src" by auto
  from s(2) have "map_of (sc_keys s) n \<noteq> None" by (simp add: key_names_def map_of_eq_None_iff)
  then have n: "(n, the (secret_key s n)) \<in> set (sc_keys s)" by (auto simp: secret_key_def dest: map_of_SomeD)
  have sub: "s \<in> set (ct_secrets c)" "t \<in> set (ct_secrets c)"
    using s(1) t(1) fresh_secrets_subset [of c nss] by (simp_all add: subsetD)
  have "copies_ok (ct_secrets c)" using ok by (simp add: catalog_ok_def)
  from this [unfolded copies_ok_def, rule_format, OF sub(1) n, unfolded prod.case, rule_format, OF k]
  obtain t' sk where t': "raw_by_ref (ct_secrets c) (kr_secret ?src) = Some t'"
      "secret_key t' (kr_key ?src) = Some sk" "copyable (ky_kind sk)" by blast
  from t'(1) have "t' \<in> set (ct_secrets c) \<and> sc_ref t' = sc_ref t"
    unfolding t(2) raw_by_ref_def find_Some_iff by (metis nth_mem)
  then have "t' = t"
    using catalog_ok_parts(1) [OF ok] sub(2) unfolding distinct_map by (blast dest: inj_onD)
  from made t(1) obtain v where v: "vals (sc_ref t) = Some v" "holds_new vo t (set (key_names t)) v" by blast
  have key: "kr_key ?src \<in> set (key_names t)"
    using t'(2) \<open>t' = t\<close> by (simp add: key_names_def secret_key_def) (metis map_of_eq_None_iff option.distinct(1))
  have "made_kind sk" using t'(3) by (auto simp: made_kind_def copyable_iff)
  then have "map_of v (kr_key ?src) \<noteq> None"
    using v(2) key t'(2) \<open>t' = t\<close> unfolding holds_new_def by (metis (no_types, lifting) option.case_eq_if option.sel)
  then show False using none v(1) t(2) by (simp add: made_value_def)
qed

subsection \<open>The whole run\<close>

definition fresh_ends :: "key secret list \<Rightarrow> fresh_error + (ref \<times> string) list \<Rightarrow> bool" where
  "fresh_ends ss r \<longleftrightarrow> (case r of Inl e \<Rightarrow> \<not> missing_value e | Inr ms \<Rightarrow> map fst ms = map sc_ref ss)"

lemma fresh_manifests_refs: "fresh_manifests y ss vals = Inr ms \<Longrightarrow> map fst ms = map sc_ref ss"
  unfolding fresh_manifests_def map_result_Inr
  by (rule sym, erule list_all2_maps) (auto split: sum.splits)

lemma fresh_manifests_error: "fresh_manifests y ss vals = Inl e \<Longrightarrow> \<not> missing_value e"
  unfolding fresh_manifests_def by (induction ss) (auto simp: result_bind_def split: sum.splits)

context vault
begin

lemma fresh_all_possible:
  assumes ok: "catalog_ok c" and poss: "fresh_possible c nss" and draws: "draw_laws (\<lambda>_. ()) draw"
  shows "wp (fresh_all y draw (Some issued) (fresh_secrets c nss))
     (\<lambda>ms _ _. map fst ms = map sc_ref (fresh_secrets c nss)) (\<lambda>e _ _. \<not> missing_value e) w out"
proof -
  let ?ss = "fresh_secrets c nss"
  have dist: "distinct (map sc_ref ?ss)"
    using catalog_ok_parts(1) [OF ok] by (simp add: fresh_secrets_def distinct_map_filter)
  have names: "\<forall>s \<in> set ?ss. distinct (key_names s)" using catalog_ok_parts(2) [OF ok] fresh_secrets_subset by blast
  have src: "from_sources (secret_pairs ?ss)"
    by (rule from_sources_subset [OF _ from_sources_pairs [OF ok]])
      (use fresh_secrets_subset in \<open>fastforce simp: secret_pairs_iff key_pairs_iff\<close>)
  have pd: "distinct (map (\<lambda>(s, n). kref s n) (secret_pairs ?ss))"
    unfolding secret_pairs_def by (rule distinct_pairs [OF dist names])
  have inr: "\<forall>s \<in> set ?ss. \<forall>n \<in> set (key_names s). in_rehearsal (the (secret_key s n))"
    using poss by (auto simp: fresh_possible_def Let_def)
  show ?thesis
    unfolding fresh_all_def
  proof (rule wp_seq [OF wp_conj [OF fresh_loop_wp [OF draws dist] fresh_loop_possible [OF inr]]])
    fix vals0 w1 and out
    assume "(\<forall>s \<in> set ?ss. \<exists>v. vals0 (sc_ref s) = Some v \<and> holds_new (Some issued) s (set (key_names s)) v) \<and> True"
    then have v0: "\<forall>s \<in> set ?ss. \<exists>v. vals0 (sc_ref s) = Some v \<and> holds_new (Some issued) s (set (key_names s)) v" by simp
    then have dom: "\<forall>(s, n) \<in> set (secret_pairs ?ss). vals0 (sc_ref s) \<noteq> None" by (auto simp: secret_pairs_iff)
    show "wp (io_bind (io_fold fresh_copy (secret_pairs ?ss) vals0) (\<lambda>vals. io_result (fresh_manifests y ?ss vals)))
      (\<lambda>ms _ _. map fst ms = map sc_ref ?ss) (\<lambda>e _ _. \<not> missing_value e) w1 out"
    proof (rule wp_seq [OF fresh_copies_wp [OF pd src dom]])
      fix vals w2 and out
      show "wp (io_result (fresh_manifests y ?ss vals)) (\<lambda>ms _ _. map fst ms = map sc_ref ?ss) (\<lambda>e _ _. \<not> missing_value e) w2 out"
        by (cases "fresh_manifests y ?ss vals")
          (auto simp: io_result_def wp_simps dest: fresh_manifests_refs fresh_manifests_error)
    qed (use source_made [OF ok poss v0] in blast)
  qed simp
qed

end

text \<open>
  C30 After a clean \<open>kluster services check\<close>, making the Secrets of a rehearsal never stops for a value that cannot be made: no
  issued key lacks its rehearsal item, the vault is there, and the source of every copy is among the Secrets made. A run
  ends with one manifest for each Secret of the rehearsal, in their order, or with an error of the random source, the
  vault or the YAML package.
\<close>

theorem checked_rehearsal_can_be_made:
  assumes "check_repo yl lib decode rp n = Some []" and "decode_laws decode" and "draw_laws (\<lambda>_. ()) draw"
    and "rp_read rp ''secrets.yaml'' = Inr d" and "parse_catalog decode d ''.'' = Inr c"
    and "seed_for yl rp True = Inr s" and "seed_namespaces yl rp s = Inr nss"
  shows "fresh_ends (fresh_secrets c nss)
     (fst (fresh_all y draw (Some (vault_issued b)) (fresh_secrets c nss) (w, out)))"
proof -
  have "secrets_agree yl decode rp" using assms(1) unfolding check_exact repo_agrees_def by blast
  then have poss: "fresh_possible c nss" using assms(4-7) by (auto simp: secrets_agree_def)
  show ?thesis
    using bitwarden.fresh_all_possible [OF parse_catalog_ok [OF assms(2,5)] poss assms(3), of y b w out]
    unfolding wp_def fresh_ends_def by (auto split: prod.splits sum.splits)
qed

text \<open>A repository on which the check finds nothing: one core Application with a probe, one project with a route, one Secret.\<close>

definition small_objects :: "(string \<times> string \<times> string) list" where
  "small_objects = [(''core-set'', ''ApplicationSet'', ''core''), (''proj-set'', ''ApplicationSet'', ''projects''),
     (''ap-core'', ''AppProject'', ''core''), (''ap-p'', ''AppProject'', ''p''), (''gw'', ''Gateway'', ''tosak''),
     (''ns-pg'', ''Namespace'', ''pg''), (''ns-p'', ''Namespace'', ''p''), (''rel'', ''Deployment'', ''reloader''),
     (''route'', ''HTTPRoute'', ''r''), (''probe'', ''Probe'', ''r'')]"

definition small_element :: element where
  "small_element = \<lparr>el_dir = ''a'', el_path = ''core/a'', el_namespace = ''pg''\<rparr>"

definition small_yaml :: "string yaml_lib" where
  "small_yaml = \<lparr>yl_docs = (\<lambda>d. (if d = ''app'' then [(''ap-core'', True), (''ap-p'', True)] else [(d, True)], None)),
     yl_object = (\<lambda>n. Inr (case map_of small_objects n of
         None \<Rightarrow> \<lparr>ko_kind = ''Kustomization'', ko_name = [], ko_namespace = [], ko_annotations = [], ko_node = n\<rparr>
       | Some (k, m) \<Rightarrow> \<lparr>ko_kind = k, ko_name = m, ko_namespace = [], ko_annotations = [], ko_node = n\<rparr>)),
     yl_generators = (\<lambda>_. Inr [Some [small_element]]), yl_patches = (\<lambda>_. Inr [''ops'']),
     yl_patch_ops = (\<lambda>_. Some [(\<lparr>pe_op = ''replace'', pe_path = elements_path\<rparr>, ''els''),
       (\<lparr>pe_op = ''replace'', pe_path = revision_path\<rparr>, ''rev'')]),
     yl_elements = (\<lambda>_. Inr [small_element]), yl_string = (\<lambda>_. Inr ''main''), yl_revision = (\<lambda>_. Inr ''main''),
     yl_directories = (\<lambda>_. Inr [Some [(''projects/p/*/manifests/overlays/dev'', False)]]),
     yl_kustomization = (\<lambda>n. Inr (if n = ''k-a'' then ([], [''cm.yaml'', ''probe.yaml''])
       else if n = ''k-lr'' then ([], [''p'']) else (''p'', []))),
     yl_destinations = (\<lambda>n. Inr (if n = ''ap-p'' then [''p''] else [''pg'', ''p''])),
     yl_listeners = (\<lambda>_. Inr [\<lparr>ls_name = ''https'', ls_expressions = [(''kubernetes.io/metadata.name'', ''In'', [''p''])]\<rparr>]),
     yl_container_args = (\<lambda>_. Inr [[''--namespaces=p'']]), yl_hostnames = (\<lambda>_. Inr [''p.example'']),
     yl_probe = (\<lambda>_. Inr (False, Some [''https://p.example''])), yl_url = (\<lambda>_. Some (''https'', ''p.example'')),
     yl_json_keys = (\<lambda>_. Inr [])\<rparr>"

definition small_files :: "(path \<times> string) list" where
  "small_files = [(core_app_set, ''core-set''), (rehearsal_argocd, ''cut''), (projects_app_set, ''proj-set''),
     (app_projects, ''app''), (gateway_file, ''gw''), (reloader_file, ''rel''), (apps_file, []),
     (''core/limit-ranges/kustomization.yaml'', ''k-lr''), (''core/limit-ranges/p/kustomization.yaml'', ''k-p''),
     (''core/a/kustomization.yaml'', ''k-a''), (''core/a/cm.yaml'', ''cm''), (''core/a/probe.yaml'', ''probe''),
     (''core/a/namespace.yaml'', ''ns-pg''), (''projects/p/namespace.yaml'', ''ns-p''),
     (''projects/p/httproute.yaml'', ''route''), (''secrets.yaml'', ''catalog''),
     (cluster_file, name_line 1), (recover_patch, quoted 1 @ quoted 2)]"

definition small_repo :: repo where
  "small_repo = \<lparr>rp_read = (\<lambda>f. case map_of small_files f of None \<Rightarrow> Inl ''no such file'' | Some d \<Rightarrow> Inr d),
     rp_stat = (\<lambda>f. map_option (\<lambda>_. False) (map_of small_files f)), rp_glob = (\<lambda>_. Inr [])\<rparr>"

lemma small_repo_clean: "check_repo small_yaml toy_pg_lib (\<lambda>_. Inr sample_doc) small_repo 1 = Some []"
  by code_simp

theorem checked_rehearsal_can_be_made_witness:
  "\<exists>c. map sc_ref (fresh_secrets c [''pg'']) = [sample_ref] \<and> fresh_ends (fresh_secrets c [''pg''])
     (fst (fresh_all echo_yaml steady (Some (vault_issued toy_client)) (fresh_secrets c [''pg'']) (((), bw_start), [] :: unit list)))"
proof -
  let ?c = "sample_catalog\<lparr>ct_root := ''.''\<rparr>"
  have c: "parse_catalog (\<lambda>_. Inr sample_doc) ''catalog'' ''.'' = Inr ?c" by code_simp
  have d: "decode_laws (\<lambda>_. Inr sample_doc)" by (auto simp: decode_laws_def sample_doc_def)
  have draws: "draw_laws (\<lambda>_. ()) steady" by (simp add: draw_laws_def quiet_def steady_def)
  obtain s where s: "seed_for small_yaml small_repo True = Inr s"
  proof (cases "seed_for small_yaml small_repo True")
    case (Inl e)
    moreover have "is_ok (seed_for small_yaml small_repo True)" by code_simp
    ultimately show ?thesis by simp
  qed
  have "result_bind (seed_for small_yaml small_repo True) (seed_namespaces small_yaml small_repo) = Inr [''pg'']" by code_simp
  with s have nss: "seed_namespaces small_yaml small_repo s = Inr [''pg'']" by simp
  have r: "rp_read small_repo ''secrets.yaml'' = Inr ''catalog''" by code_simp
  have "map sc_ref (fresh_secrets ?c [''pg'']) = [sample_ref]" by code_simp
  with checked_rehearsal_can_be_made [OF small_repo_clean d draws r c s nss] show ?thesis by (intro exI [of _ ?c] conjI)
qed

end
