(* ===== verification/Provision.thy ===== *)
theory Provision
  imports Terraform Pins
begin

section \<open>provision and hostkey.go: servers created with a seeded host key\<close>

text \<open>
  A server kluster creates boots with a host key kluster made: the key travels in the user data of the plan that is
  applied, and its public half is pinned at the address the server gets. \<open>boot_kit\<close> holds what the code calls: the key
  generation of \<open>crypto/ssh\<close>, the YAML package, and the file of pins. The Module (an interface in the code) is the record
  \<open>driver\<close>; \<open>tf.Module\<close> is its instance.
\<close>

subsection \<open>A key that boots with the server\<close>

record 'k key_pair =
  kp_private :: string
  kp_public :: 'k

record boot_file =
  bf_path :: string
  bf_content :: string
  bf_permissions :: string

record cloud_config =
  cc_delete_keys :: bool
  cc_key_types :: "string list"
  cc_keys :: "(string \<times> string) list"
  cc_files :: "boot_file list"

record ('w, 'k) boot_kit =
  bt_generate :: "('w, string, 'k key_pair) call"
  bt_marshal :: "'k \<Rightarrow> string"
  bt_yaml :: "cloud_config \<Rightarrow> string + string"
  bt_fs :: "'w fs"
  bt_lib :: "'k ssh_lib"
  bt_pins :: path

definition authorized_key :: "('w, 'k) boot_kit \<Rightarrow> 'k \<Rightarrow> string" where
  "authorized_key bt k = trim_space (bt_marshal bt k)"

definition user_data :: "('w, 'k) boot_kit \<Rightarrow> 'k key_pair \<Rightarrow> boot_file list \<Rightarrow> string + string" where
  "user_data bt kp files =
     result_bind (bt_yaml bt \<lparr>cc_delete_keys = True, cc_key_types = [],
         cc_keys = [(''ed25519_private'', kp_private kp), (''ed25519_public'', authorized_key bt (kp_public kp))],
         cc_files = files\<rparr>)
       (\<lambda>body. Inr (''#cloud-config'' @ [NL] @ body))"

subsection \<open>The address of a Worker in the Module\<close>

text \<open>\<open>%q\<close>: the escapes of a quoted string; a character that is not ASCII is kept.\<close>

definition quote_char :: "char \<Rightarrow> string" where
  "quote_char c =
     (let n = of_char c :: nat; bs = CHR 0x5C in
      if c = CHR 0x22 \<or> c = bs then [bs, c]
      else if 7 \<le> n \<and> n \<le> 13 then [bs, ''abtnvfr'' ! (n - 7)]
      else if n < 32 \<or> n = 127 then [bs, CHR ''x'', hex_digit (n div 16), hex_digit (n mod 16)]
      else [c])"

definition go_quote :: "string \<Rightarrow> string" where
  "go_quote s = [CHR 0x22] @ concat (map quote_char s) @ [CHR 0x22]"

definition worker_address :: "string \<Rightarrow> string" where
  "worker_address name = ''hcloud_server.workers['' @ go_quote name @ '']''"

text \<open>The match of the regular expression, with its group.\<close>

definition worker_match :: "string \<Rightarrow> string option" where
  "worker_match s =
     (case cut_prefix (''hcloud_server.workers['' @ [CHR 0x22]) s of None \<Rightarrow> None
      | Some r \<Rightarrow>
          (let name = take (length r - 2) r in
           if drop (length r - 2) r = [CHR 0x22, CHR '']''] \<and> name \<noteq> [] \<and> CHR 0x22 \<notin> set name then Some name else None))"

definition control_plane_address :: string where
  "control_plane_address = ''hcloud_server.control_plane''"

subsection \<open>The Module\<close>

datatype plan_vars = NoVars | Vars "string \<rightharpoonup> var_value" | UserDataOf "string \<rightharpoonup> string" | UserData string

record 'w driver =
  dr_plan :: "plan_vars \<Rightarrow> ('w, tf_error, tf_plan) call"
  dr_plan_replace :: "plan_vars \<Rightarrow> string list \<Rightarrow> ('w, tf_error, tf_plan) call"
  dr_apply :: "'w applier"
  dr_output :: "string \<Rightarrow> ('w, tf_error, string \<rightharpoonup> string) call"

datatype prov_error =
    PvTf tf_error
  | PvSeed string
  | PvPins pin_error
  | OtherCreates "string list" "string list"
  | NoPublicAddress string

datatype prov_line = PvTfLine tf_line | PinnedAt string string

type_synonym ('w, 'a) prov = "('w, prov_line, prov_error, 'a) io"

text \<open>A part of the code with its own lines and errors, inside the caller.\<close>

definition io_embed :: "('o \<Rightarrow> 'p) \<Rightarrow> ('e \<Rightarrow> 'f) \<Rightarrow> ('w, 'o, 'e, 'a) io \<Rightarrow> ('w, 'p, 'f, 'a) io" where
  "io_embed f g m =
     (\<lambda>(w, out). case m (w, []) of
        (Inl e, w', o') \<Rightarrow> (Inl (g e), w', out @ map f o')
      | (Inr a, w', o') \<Rightarrow> (Inr a, w', out @ map f o'))"

lemma wp_embed [wp_simps]:
  "wp (io_embed f g m) Q E w out \<longleftrightarrow> wp m (\<lambda>a w' o'. Q a w' (out @ map f o')) (\<lambda>e w' o'. E (g e) w' (out @ map f o')) w []"
  by (auto simp: wp_def io_embed_def split: prod.split sum.split)

definition prov_call :: "('w, tf_error, 'a) call \<Rightarrow> ('w, 'a) prov" where
  "prov_call f = io_map_err PvTf (io_call f)"

definition seed_key :: "('w, 'k) boot_kit \<Rightarrow> ('w, 'k key_pair \<times> string) prov" where
  "seed_key bt =
     io_bind (io_map_err PvSeed (io_call (bt_generate bt))) (\<lambda>kp.
     io_bind (io_map_err PvSeed (io_result (user_data bt kp []))) (\<lambda>ud. io_return (kp, ud)))"

text \<open>\<open>pinCreated\<close>: in the order of the names; an empty address is none.\<close>

definition pin_one ::
  "('w, 'k) boot_kit \<Rightarrow> (string \<rightharpoonup> string) \<Rightarrow> (string \<Rightarrow> 'k) \<Rightarrow> string \<Rightarrow> (string \<times> string) list \<Rightarrow> ('w, (string \<times> string) list) prov" where
  "pin_one bt ips key n created =
     (case ips n of None \<Rightarrow> io_fail (NoPublicAddress n)
      | Some ip \<Rightarrow>
          if ip = [] then io_fail (NoPublicAddress n)
          else io_bind (io_embed (\<lambda>_. PinnedAt n ip) PvPins (pins_set (bt_fs bt) (bt_lib bt) (bt_pins bt) ip [key n])) (\<lambda>_.
               io_bind (io_say (PinnedAt n ip)) (\<lambda>_. io_return (created @ [(n, ip)]))))"

definition pin_created ::
  "('w, 'k) boot_kit \<Rightarrow> 'w driver \<Rightarrow> (string \<times> 'k key_pair) list \<Rightarrow> ('w, (string \<times> string) list) prov" where
  "pin_created bt m keys =
     io_bind (prov_call (dr_output m ''worker_public_ips'')) (\<lambda>ips.
       io_fold (pin_one bt ips (\<lambda>n. kp_public (the (map_of keys n)))) (sorted_keys keys) [])"

subsection \<open>Creating Workers\<close>

definition new_names :: "change list \<Rightarrow> string list" where
  "new_names cs = sort (List.map_filter (\<lambda>c. if ch_action c = Create then worker_match (ch_address c) else None) cs)"

definition create_intent :: "string list \<Rightarrow> intent" where
  "create_intent names =
     \<lparr>in_description = ''create Workers ['' @ join_str '' '' names @ ''] with seeded host keys'',
      in_expectations = map (\<lambda>n. \<lparr>ex_address = worker_address n, ex_actions = [Create], ex_required = True\<rparr>) names\<rparr>"

definition seed_all :: "('w, 'k) boot_kit \<Rightarrow> string list \<Rightarrow> ('w, (string \<times> 'k key_pair \<times> string) list) prov" where
  "seed_all bt names =
     io_fold (\<lambda>n keys. io_bind (seed_key bt) (\<lambda>k. io_return (map_put n k keys))) names []"

definition user_datas :: "(string \<times> 'k key_pair \<times> string) list \<Rightarrow> (string \<rightharpoonup> string)" where
  "user_datas keys = map_option snd \<circ> map_of keys"

definition key_pairs :: "(string \<times> 'k key_pair \<times> string) list \<Rightarrow> (string \<times> 'k key_pair) list" where
  "key_pairs keys = map (\<lambda>(n, kp, _). (n, kp)) keys"

definition create_workers ::
  "('w, 'k) boot_kit \<Rightarrow> 'w driver \<Rightarrow> string list option \<Rightarrow> mode \<Rightarrow> ('w, (string \<times> string) list) prov" where
  "create_workers bt m want mode =
     io_bind (prov_call (dr_plan m NoVars)) (\<lambda>first.
       let names = new_names (p_changes first) in
       if want \<noteq> None \<and> names \<noteq> sort (the want) then io_fail (OtherCreates names (the want))
       else io_bind (seed_all bt names) (\<lambda>keys.
         io_bind (prov_call (dr_plan m (UserDataOf (user_datas keys)))) (\<lambda>p.
         io_bind (io_embed PvTfLine PvTf (decide (dr_apply m) p (create_intent names) mode)) (\<lambda>applied.
           if \<not> applied then io_return [] else pin_created bt m (key_pairs keys)))))"

subsection \<open>Replacing one\<close>

definition replace_intent :: "string \<Rightarrow> intent" where
  "replace_intent name =
     \<lparr>in_description = ''replace Worker '' @ name @ '' with a seeded host key'',
      in_expectations = [\<lparr>ex_address = worker_address name, ex_actions = [Replace], ex_required = True\<rparr>]\<rparr>"

record 'k replacement =
  rp_name :: string
  rp_plan :: tf_plan
  rp_key :: "'k key_pair"

definition plan_replacement ::
  "('w, 'k) boot_kit \<Rightarrow> 'w driver \<Rightarrow> string \<Rightarrow> mode \<Rightarrow> ('w, 'k replacement) prov" where
  "plan_replacement bt m name mode =
     io_bind (seed_key bt) (\<lambda>(kp, ud).
     io_bind (prov_call (dr_plan_replace m (UserDataOf [name \<mapsto> ud]) [worker_address name])) (\<lambda>p.
     io_bind (io_embed PvTfLine PvTf (check_plan p (replace_intent name) mode)) (\<lambda>_.
       io_return \<lparr>rp_name = name, rp_plan = p, rp_key = kp\<rparr>)))"

text \<open>The address of the new server; the empty one when nothing was applied.\<close>

definition apply_replacement :: "('w, 'k) boot_kit \<Rightarrow> 'w driver \<Rightarrow> 'k replacement \<Rightarrow> mode \<Rightarrow> ('w, string) prov" where
  "apply_replacement bt m rp mode =
     io_bind (io_embed PvTfLine PvTf (apply_checked (dr_apply m) (rp_plan rp) mode)) (\<lambda>applied.
       if \<not> applied then io_return []
       else io_bind (pin_created bt m [(rp_name rp, rp_key rp)]) (\<lambda>created.
         io_return (case map_of created (rp_name rp) of None \<Rightarrow> [] | Some ip \<Rightarrow> ip)))"

subsection \<open>The Control Plane\<close>

definition control_plane_intent :: intent where
  "control_plane_intent =
     \<lparr>in_description = ''create the Control Plane into an empty slot'',
      in_expectations = [\<lparr>ex_address = control_plane_address, ex_actions = [Create], ex_required = True\<rparr>]\<rparr>"

definition create_control_plane ::
  "('w, 'k) boot_kit \<Rightarrow> 'w driver \<Rightarrow> boot_file list \<Rightarrow> mode \<Rightarrow> ('w, 'k key_pair option) prov" where
  "create_control_plane bt m files mode =
     io_bind (io_map_err PvSeed (io_call (bt_generate bt))) (\<lambda>kp.
     io_bind (io_map_err PvSeed (io_result (user_data bt kp files))) (\<lambda>ud.
     io_bind (prov_call (dr_plan m (UserData ud))) (\<lambda>p.
     io_bind (io_embed PvTfLine PvTf (decide (dr_apply m) p control_plane_intent mode)) (\<lambda>applied.
       io_return (if applied then Some kp else None)))))"

subsection \<open>What a creation leaves behind\<close>

text \<open>Terraform and the key generation leave the file of pins alone; an address of the outputs has no space in it.\<close>

definition driver_laws :: "('w, 'k) boot_kit \<Rightarrow> 'w driver \<Rightarrow> ('w \<Rightarrow> path \<Rightarrow> string option) \<Rightarrow> bool" where
  "driver_laws bt m view \<longleftrightarrow>
     quiet (\<lambda>w. view w (bt_pins bt)) (bt_generate bt) \<and>
     (\<forall>vars. quiet (\<lambda>w. view w (bt_pins bt)) (dr_plan m vars)) \<and>
     (\<forall>p. quiet (\<lambda>w. view w (bt_pins bt)) (dr_apply m p)) \<and>
     (\<forall>n w r w'. dr_output m n w = (r, w') \<longrightarrow> view w' (bt_pins bt) = view w (bt_pins bt) \<and>
        (\<forall>ips k ip. r = Inr ips \<longrightarrow> ips k = Some ip \<longrightarrow> ip \<noteq> [] \<longrightarrow> host_ok (sl_normalize (bt_lib bt) ip)))"

lemma driver_calls:
  assumes "driver_laws bt m view"
  shows "bt_generate bt w = (rg, w') \<Longrightarrow> view w' (bt_pins bt) = view w (bt_pins bt)"
    and "dr_plan m vars w = (rp, w') \<Longrightarrow> view w' (bt_pins bt) = view w (bt_pins bt)"
    and "dr_apply m p w = (ra, w') \<Longrightarrow> view w' (bt_pins bt) = view w (bt_pins bt)"
    and "dr_output m n w = (ro, w') \<Longrightarrow> view w' (bt_pins bt) = view w (bt_pins bt)"
    and "dr_output m n w = (Inr ips, w') \<Longrightarrow> ips k = Some ip \<Longrightarrow> ip \<noteq> [] \<Longrightarrow> host_ok (sl_normalize (bt_lib bt) ip)"
  using assms unfolding driver_laws_def quiet_def by blast+

lemma wp_decide:
  "wp (decide ap p i mode)
     (\<lambda>applied w' _. if applied then m_apply mode \<and> ap p w = (Inr (), w') \<and> (as_intended i (p_changes p) \<or> m_allow_unexpected mode)
       else w' = w) (\<lambda>_ _ _. True) w out"
proof (rule wpI)
  fix applied w' out' assume run: "decide ap p i mode (w, out) = (Inr applied, w', out')"
  show "if applied then m_apply mode \<and> ap p w = (Inr (), w') \<and> (as_intended i (p_changes p) \<or> m_allow_unexpected mode) else w' = w"
  proof (cases applied)
    case True
    with decide_applied [of ap p i mode w out w' out'] run show ?thesis by (auto simp: check_empty_iff)
  next
    case False
    with decide_not_applied [of ap p i mode w out w' out'] run show ?thesis by simp
  qed
qed simp

lemma wp_pins_set:
  assumes "file_laws fs view obs" "lib_laws lib" "view w p = Some c" "text_ok c" "host_ok (sl_normalize lib ip)"
  shows "wp (pins_set fs lib p ip [k])
     (\<lambda>_ w' _. \<exists>c'. view w' p = Some c' \<and> text_ok c' \<and> pinned lib c' (sl_normalize lib ip) = [Some k] \<and>
        (\<forall>h. host_ok h \<and> h \<noteq> sl_normalize lib ip \<longrightarrow> pinned lib c' h = pinned lib c h)) (\<lambda>_ _ _. True) w out"
  unfolding pins_set_def
proof (rule wp_mono [OF wp_pins_rewrite [OF assms(1,3)]])
  fix u w' out' assume "obs w' = obs w \<and> (\<exists>c'. view w' p = Some c' \<and> rewrite_text lib True (sl_normalize lib ip) [k] c = Some c')"
  then obtain c' where c': "view w' p = Some c'" "rewrite_text lib True (sl_normalize lib ip) [k] c = Some c'" by blast
  then show "\<exists>c'. view w' p = Some c' \<and> text_ok c' \<and> pinned lib c' (sl_normalize lib ip) = [Some k] \<and>
      (\<forall>h. host_ok h \<and> h \<noteq> sl_normalize lib ip \<longrightarrow> pinned lib c' h = pinned lib c h)"
    using known_hosts.rewrite_ok [OF assms(2,5,4), of True "[k]"] known_hosts.rewrite_keys [OF assms(2,5) c'(2)]
      known_hosts.rewrite_others [OF assms(2,5) _ _ c'(2)] by auto
qed simp

text \<open>The pins after a part of the loop: every address that no later name shares has its own key.\<close>

definition pinned_all :: "('w, 'k) boot_kit \<Rightarrow> (string \<Rightarrow> 'k) \<Rightarrow> (string \<times> string) list \<Rightarrow> string \<Rightarrow> bool" where
  "pinned_all bt key created c \<longleftrightarrow> text_ok c \<and>
     (\<forall>(n, ip) \<in> set created. host_ok (sl_normalize (bt_lib bt) ip)) \<and>
     (distinct (map (sl_normalize (bt_lib bt) \<circ> snd) created) \<longrightarrow>
        (\<forall>(n, ip) \<in> set created. pinned (bt_lib bt) c (sl_normalize (bt_lib bt) ip) = [Some (key n)]))"

lemma pinned_all_snoc:
  assumes old: "pinned_all bt key created c" and h: "host_ok (sl_normalize (bt_lib bt) ip)"
    and c': "text_ok c'" "pinned (bt_lib bt) c' (sl_normalize (bt_lib bt) ip) = [Some (key n)]"
    and others: "\<And>h. host_ok h \<Longrightarrow> h \<noteq> sl_normalize (bt_lib bt) ip \<Longrightarrow> pinned (bt_lib bt) c' h = pinned (bt_lib bt) c h"
  shows "pinned_all bt key (created @ [(n, ip)]) c'"
proof -
  let ?norm = "sl_normalize (bt_lib bt)"
  have hosts: "host_ok (?norm ip')" if "(n', ip') \<in> set created" for n' ip' using old that by (auto simp: pinned_all_def)
  have "pinned (bt_lib bt) c' (?norm ip') = [Some (key n')]"
    if d: "distinct (map (?norm \<circ> snd) (created @ [(n, ip)]))" and x: "(n', ip') \<in> set created" for n' ip'
  proof -
    have ne: "?norm ip' \<noteq> ?norm ip" using d x by (force simp: image_iff)
    have "pinned (bt_lib bt) c (?norm ip') = [Some (key n')]" using old d x by (auto simp: pinned_all_def)
    then show ?thesis by (simp only: others [OF hosts [OF x] ne])
  qed
  then have "\<forall>(n', ip') \<in> set (created @ [(n, ip)]). pinned (bt_lib bt) c' (?norm ip') = [Some (key n')]"
    if "distinct (map (?norm \<circ> snd) (created @ [(n, ip)]))"
    using that c'(2) unfolding set_append by (intro ballI) (auto simp del: map_append)
  moreover have "\<forall>(n', ip') \<in> set (created @ [(n, ip)]). host_ok (?norm ip')" using hosts h by auto
  ultimately show ?thesis using c'(1) unfolding pinned_all_def by blast
qed

lemma pin_one_wp:
  assumes laws: "file_laws (bt_fs bt) view obs" "lib_laws (bt_lib bt)"
    and ips: "\<And>k ip. ips k = Some ip \<Longrightarrow> ip \<noteq> [] \<Longrightarrow> host_ok (sl_normalize (bt_lib bt) ip)"
    and c: "view w (bt_pins bt) = Some c" "pinned_all bt key created c"
  shows "wp (pin_one bt ips key n created)
     (\<lambda>created' w' _. \<exists>c'. map fst created' = map fst created @ [n] \<and> view w' (bt_pins bt) = Some c' \<and> pinned_all bt key created' c')
     (\<lambda>_ _ _. True) w out"
proof (cases "ips n")
  case None
  then show ?thesis by (simp add: pin_one_def wp_simps)
next
  case (Some ip)
  let ?h = "sl_normalize (bt_lib bt) ip"
  have step: "wp (pins_set (bt_fs bt) (bt_lib bt) (bt_pins bt) ip [key n])
      (\<lambda>_ w' _. \<exists>c'. view w' (bt_pins bt) = Some c' \<and> pinned_all bt key (created @ [(n, ip)]) c') (\<lambda>_ _ _. True) w []" if ne: "ip \<noteq> []"
  proof (rule wp_mono [OF wp_pins_set [OF laws c(1) _ ips [OF Some ne]]])
    show "text_ok c" using c(2) by (simp add: pinned_all_def)
    fix u w' out' assume "\<exists>c'. view w' (bt_pins bt) = Some c' \<and> text_ok c' \<and> pinned (bt_lib bt) c' ?h = [Some (key n)] \<and>
        (\<forall>h. host_ok h \<and> h \<noteq> ?h \<longrightarrow> pinned (bt_lib bt) c' h = pinned (bt_lib bt) c h)"
    then obtain c' where c': "view w' (bt_pins bt) = Some c'" "text_ok c'" "pinned (bt_lib bt) c' ?h = [Some (key n)]"
        "\<And>h. host_ok h \<Longrightarrow> h \<noteq> ?h \<Longrightarrow> pinned (bt_lib bt) c' h = pinned (bt_lib bt) c h" by blast
    have "pinned_all bt key (created @ [(n, ip)]) c'"
      by (rule pinned_all_snoc [OF c(2) ips [OF Some ne] c'(2,3)]) (rule c'(4))
    with c'(1) show "\<exists>c'. view w' (bt_pins bt) = Some c' \<and> pinned_all bt key (created @ [(n, ip)]) c'" by blast
  qed simp
  show ?thesis
  proof (cases "ip = []")
    case True
    with Some show ?thesis by (simp add: pin_one_def wp_simps)
  next
    case False
    show ?thesis unfolding pin_one_def Some option.case if_not_P [OF False] wp_bind [of "io_embed _ _ _"] wp_embed
      by (rule wp_mono [OF step [OF False]]) (simp_all add: wp_simps)
  qed
qed

lemma pin_created_wp:
  assumes laws: "file_laws (bt_fs bt) view obs" "lib_laws (bt_lib bt)" "driver_laws bt m view"
    and c: "view w (bt_pins bt) = Some c" "text_ok c"
  shows "wp (pin_created bt m keys)
     (\<lambda>created w' _. \<exists>c'. map fst created = sorted_keys keys \<and> view w' (bt_pins bt) = Some c' \<and>
        pinned_all bt (\<lambda>n. kp_public (the (map_of keys n))) created c') (\<lambda>_ _ _. True) w out"
  unfolding pin_created_def
proof (rule wp_seq [where R = "\<lambda>ips w' _. view w' (bt_pins bt) = Some c \<and>
      (\<forall>k ip. ips k = Some ip \<longrightarrow> ip \<noteq> [] \<longrightarrow> host_ok (sl_normalize (bt_lib bt) ip))" and E' = "\<lambda>_ _ _. True"])
  show "wp (prov_call (dr_output m ''worker_public_ips'')) (\<lambda>ips w' _. view w' (bt_pins bt) = Some c \<and>
      (\<forall>k ip. ips k = Some ip \<longrightarrow> ip \<noteq> [] \<longrightarrow> host_ok (sl_normalize (bt_lib bt) ip))) (\<lambda>_ _ _. True) w out"
    unfolding prov_call_def wp_map_err wp_call using c(1) driver_calls(4,5) [OF laws(3)] by auto
next
  let ?key = "\<lambda>n. kp_public (the (map_of keys n))"
  fix ips :: "string \<rightharpoonup> string" and w1 out1 assume r: "view w1 (bt_pins bt) = Some c \<and> (\<forall>k ip. ips k = Some ip \<longrightarrow> ip \<noteq> [] \<longrightarrow> host_ok (sl_normalize (bt_lib bt) ip))"
  let ?I = "\<lambda>pre created w' _. \<exists>c'. map fst created = pre \<and> view w' (bt_pins bt) = Some c' \<and> pinned_all bt ?key created c'"
  show "wp (io_fold (pin_one bt ips ?key) (sorted_keys keys) []) (?I (sorted_keys keys)) (\<lambda>_ _ _. True) w1 out1"
  proof (rule wp_fold_prefix [where I = ?I])
    show "?I [] [] w1 out1" using r c(2) by (simp add: pinned_all_def)
    fix pre n post created w2 out2 assume "?I pre created w2 out2"
    then obtain c' where c': "map fst created = pre" "view w2 (bt_pins bt) = Some c'" "pinned_all bt ?key created c'" by blast
    show "wp (pin_one bt ips ?key n created) (?I (pre @ [n])) (\<lambda>_ _ _. True) w2 out2"
      by (rule wp_mono [OF pin_one_wp [OF laws(1,2) _ c'(2,3)]]) (use r c'(1) in auto)
  qed
qed simp

definition seeded :: "('w, 'k) boot_kit \<Rightarrow> (string \<times> 'k key_pair \<times> string) list \<Rightarrow> bool" where
  "seeded bt keys \<longleftrightarrow> (\<forall>n kp ud. map_of keys n = Some (kp, ud) \<longrightarrow> user_data bt kp [] = Inr ud)"

lemma seed_key_wp:
  assumes "driver_laws bt m view"
  shows "wp (seed_key bt) (\<lambda>(kp, ud) w' _. user_data bt kp [] = Inr ud \<and> view w' (bt_pins bt) = view w (bt_pins bt)) (\<lambda>_ _ _. True) w out"
  unfolding seed_key_def wp_simps using driver_calls(1) [OF assms] by (auto split: sum.splits simp: wp_simps)

lemma seed_all_wp:
  assumes laws: "driver_laws bt m view"
  shows "wp (seed_all bt names) (\<lambda>keys w' _. seeded bt keys \<and> fst ` set keys = set names \<and> view w' (bt_pins bt) = view w (bt_pins bt))
     (\<lambda>_ _ _. True) w out"
  unfolding seed_all_def
proof (rule wp_mono [OF wp_fold_prefix [where I = "\<lambda>pre keys w' _. seeded bt keys \<and> fst ` set keys = set pre \<and>
      view w' (bt_pins bt) = view w (bt_pins bt)" and E = "\<lambda>_ _ _. True"]])
  show "seeded bt [] \<and> fst ` set [] = set [] \<and> view w (bt_pins bt) = view w (bt_pins bt)" by (simp add: seeded_def)
  fix pre n post keys w1 out1
  assume k: "seeded bt keys \<and> fst ` set keys = set pre \<and> view w1 (bt_pins bt) = view w (bt_pins bt)"
  show "wp (io_bind (seed_key bt) (\<lambda>k. io_return (map_put n k keys))) (\<lambda>keys w' _. seeded bt keys \<and> fst ` set keys = set (pre @ [n]) \<and>
      view w' (bt_pins bt) = view w (bt_pins bt)) (\<lambda>_ _ _. True) w1 out1"
    unfolding wp_bind by (rule wp_mono [OF seed_key_wp [OF laws]]) (use k in \<open>auto simp: wp_return seeded_def\<close>)
qed auto

text \<open>What a creation that is not empty rests on: the plan applied carries the keys that are pinned.\<close>

definition created_as ::
  "('w, 'k) boot_kit \<Rightarrow> 'w driver \<Rightarrow> mode \<Rightarrow> (string \<times> string) list \<Rightarrow> string \<Rightarrow> bool" where
  "created_as bt m mode ips c \<longleftrightarrow>
     (\<exists>keys names p w1 w2 w3. m_apply mode \<and> set names = fst ` set ips \<and> seeded bt keys \<and> fst ` set keys = set names \<and>
        dr_plan m (UserDataOf (user_datas keys)) w1 = (Inr p, w2) \<and> dr_apply m p w2 = (Inr (), w3) \<and>
        (as_intended (create_intent names) (p_changes p) \<or> m_allow_unexpected mode) \<and>
        pinned_all bt (\<lambda>n. kp_public (fst (the (map_of keys n)))) ips c)"

lemma key_pairs_of: "map_of (key_pairs keys) = map_option fst \<circ> map_of keys" "fst ` set (key_pairs keys) = fst ` set keys"
  by (induction keys) (auto simp: key_pairs_def fun_eq_iff)

lemma key_pairs_key: "n \<in> fst ` set keys \<Longrightarrow> the (map_of (key_pairs keys) n) = fst (the (map_of keys n))"
  by (cases "map_of keys n") (auto simp: key_pairs_of map_of_eq_None_iff)

lemma pinned_all_key:
  assumes "pinned_all bt key ips c" and "\<And>n. n \<in> fst ` set ips \<Longrightarrow> key n = key' n"
  shows "pinned_all bt key' ips c"
proof -
  have "key (fst x) = key' (fst x)" if "x \<in> set ips" for x by (rule assms(2)) (use that in simp)
  then show ?thesis using assms(1) unfolding pinned_all_def by (simp add: case_prod_beta)
qed

lemma create_after_plan_wp:
  assumes laws: "file_laws (bt_fs bt) view obs" "lib_laws (bt_lib bt)" "driver_laws bt m view"
    and c: "view w1 (bt_pins bt) = Some c" "text_ok c"
    and keys: "seeded bt keys" "fst ` set keys = set names"
  shows "wp (io_bind (prov_call (dr_plan m (UserDataOf (user_datas keys)))) (\<lambda>p.
         io_bind (io_embed PvTfLine PvTf (decide (dr_apply m) p (create_intent names) mode)) (\<lambda>applied.
           if \<not> applied then io_return [] else pin_created bt m (key_pairs keys))))
     (\<lambda>ips w' _. ips = [] \<or> set names = fst ` set ips \<and> (\<exists>c'. view w' (bt_pins bt) = Some c' \<and> created_as bt m mode ips c'))
     (\<lambda>_ _ _. True) w1 out"
proof (rule wp_seq [where R = "\<lambda>p w2 _. dr_plan m (UserDataOf (user_datas keys)) w1 = (Inr p, w2)" and E' = "\<lambda>_ _ _. True"])
  fix p w2 out2 assume p: "dr_plan m (UserDataOf (user_datas keys)) w1 = (Inr p, w2)"
  show "wp (io_bind (io_embed PvTfLine PvTf (decide (dr_apply m) p (create_intent names) mode)) (\<lambda>applied.
           if \<not> applied then io_return [] else pin_created bt m (key_pairs keys)))
     (\<lambda>ips w' _. ips = [] \<or> set names = fst ` set ips \<and> (\<exists>c'. view w' (bt_pins bt) = Some c' \<and> created_as bt m mode ips c'))
     (\<lambda>_ _ _. True) w2 out2"
    unfolding wp_bind wp_embed
  proof (rule wp_mono [OF wp_decide])
    fix applied w3 out3
    assume d: "if applied then m_apply mode \<and> dr_apply m p w2 = (Inr (), w3) \<and>
        (as_intended (create_intent names) (p_changes p) \<or> m_allow_unexpected mode) else w3 = w2"
    show "wp (if \<not> applied then io_return [] else pin_created bt m (key_pairs keys))
       (\<lambda>ips w' _. ips = [] \<or> set names = fst ` set ips \<and> (\<exists>c'. view w' (bt_pins bt) = Some c' \<and> created_as bt m mode ips c'))
       (\<lambda>_ _ _. True) w3 (out2 @ map PvTfLine out3)"
    proof (cases applied)
      case False
      then show ?thesis by (simp add: wp_return)
    next
      case True
      with d have a: "m_apply mode" "dr_apply m p w2 = (Inr (), w3)"
          "as_intended (create_intent names) (p_changes p) \<or> m_allow_unexpected mode" by simp_all
      have c3: "view w3 (bt_pins bt) = Some c" using c driver_calls(2) [OF laws(3) p] driver_calls(3) [OF laws(3) a(2)] by simp
      show ?thesis unfolding eqTrueI [OF True] not_True_eq_False if_False
      proof (rule wp_mono [OF pin_created_wp [OF laws c3 c(2)]])
        fix ips w' out' assume "\<exists>c'. map fst ips = sorted_keys (key_pairs keys) \<and> view w' (bt_pins bt) = Some c' \<and>
            pinned_all bt (\<lambda>n. kp_public (the (map_of (key_pairs keys) n))) ips c'"
        then obtain c' where c': "map fst ips = sorted_keys (key_pairs keys)" "view w' (bt_pins bt) = Some c'"
            "pinned_all bt (\<lambda>n. kp_public (the (map_of (key_pairs keys) n))) ips c'" by blast
        have dom: "set names = fst ` set ips" using arg_cong [OF c'(1), of set] keys(2) by (simp add: key_pairs_of)
        have "pinned_all bt (\<lambda>n. kp_public (fst (the (map_of keys n)))) ips c'"
          by (rule pinned_all_key [OF c'(3)]) (use dom keys(2) key_pairs_key [of _ keys] in auto)
        then have "created_as bt m mode ips c'" unfolding created_as_def using a p keys dom by blast
        with dom c'(2) show "ips = [] \<or> set names = fst ` set ips \<and>
            (\<exists>c'. view w' (bt_pins bt) = Some c' \<and> created_as bt m mode ips c')" by blast
      qed simp
    qed
  qed simp
qed (simp_all add: prov_call_def wp_simps)

subsection \<open>Properties\<close>

text \<open>
  C32 \<open>CreateWorkers\<close> reports a Worker created only under \<open>--apply\<close>, for a plan that creates exactly the Workers named (or one
  the operator allowed), and only exactly the wanted ones; the plan that was applied carried a fresh host key in the user data of
  each, and the pins hold, at each new address, that key and no other. (For addresses that differ: if two Workers get one
  address, the later pin replaces the earlier.)
\<close>

theorem created_workers_are_pinned:
  assumes "file_laws (bt_fs bt) view obs" and "lib_laws (bt_lib bt)" and "driver_laws bt m view"
    and "view w (bt_pins bt) = Some c" and "text_ok c"
    and "create_workers bt m want mode (w, out) = (Inr ips, w', out')"
  shows "ips = [] \<or> (want \<noteq> None \<longrightarrow> fst ` set ips = set (the want)) \<and>
    (\<exists>c'. view w' (bt_pins bt) = Some c' \<and> created_as bt m mode ips c')"
proof -
  let ?Q = "\<lambda>ips w' (_ :: prov_line list). ips = [] \<or> (want \<noteq> None \<longrightarrow> fst ` set ips = set (the want)) \<and>
    (\<exists>c'. view w' (bt_pins bt) = Some c' \<and> created_as bt m mode ips c')"
  have "wp (create_workers bt m want mode) ?Q (\<lambda>_ _ _. True) w out"
    unfolding create_workers_def
  proof (rule wp_seq [where R = "\<lambda>_ w' _. view w' (bt_pins bt) = Some c" and E' = "\<lambda>_ _ _. True"])
    show "wp (prov_call (dr_plan m NoVars)) (\<lambda>_ w' _. view w' (bt_pins bt) = Some c) (\<lambda>_ _ _. True) w out"
      unfolding prov_call_def wp_map_err wp_call using assms(4) driver_calls(2) [OF assms(3)] by auto
  next
    fix first w1 out1 assume c1: "view w1 (bt_pins bt) = Some c"
    let ?names = "new_names (p_changes first)"
    show "wp (let names = ?names in if want \<noteq> None \<and> names \<noteq> sort (the want) then io_fail (OtherCreates names (the want))
        else io_bind (seed_all bt names) (\<lambda>keys.
          io_bind (prov_call (dr_plan m (UserDataOf (user_datas keys)))) (\<lambda>p.
          io_bind (io_embed PvTfLine PvTf (decide (dr_apply m) p (create_intent names) mode)) (\<lambda>applied.
            if \<not> applied then io_return [] else pin_created bt m (key_pairs keys))))) ?Q (\<lambda>_ _ _. True) w1 out1"
    proof (cases "want \<noteq> None \<and> ?names \<noteq> sort (the want)")
      case True
      then show ?thesis by (simp add: Let_def wp_fail)
    next
      case False
      then have want: "want \<noteq> None \<longrightarrow> set ?names = set (the want)" by auto
      show ?thesis unfolding Let_def if_not_P [OF False]
      proof (rule wp_seq [OF seed_all_wp [OF assms(3)]])
        fix keys w2 out2 assume k: "seeded bt keys \<and> fst ` set keys = set ?names \<and> view w2 (bt_pins bt) = view w1 (bt_pins bt)"
        have c2: "view w2 (bt_pins bt) = Some c" using k c1 by simp
        show "wp (io_bind (prov_call (dr_plan m (UserDataOf (user_datas keys)))) (\<lambda>p.
          io_bind (io_embed PvTfLine PvTf (decide (dr_apply m) p (create_intent ?names) mode)) (\<lambda>applied.
            if \<not> applied then io_return [] else pin_created bt m (key_pairs keys)))) ?Q (\<lambda>_ _ _. True) w2 out2"
          by (rule wp_mono [OF create_after_plan_wp [OF assms(1-3) c2 assms(5) k [THEN conjunct1] k [THEN conjunct2, THEN conjunct1]]])
            (use want in auto)
      qed simp
    qed
  qed simp
  from wp_ok [OF this assms(6)] show ?thesis .
qed

definition toy_kit :: "(path \<Rightarrow> string option, bool) boot_kit" where
  "toy_kit = \<lparr>bt_generate = (\<lambda>w. (Inr \<lparr>kp_private = ''p'', kp_public = True\<rparr>, w)), bt_marshal = (\<lambda>_. ''T''),
     bt_yaml = (\<lambda>cc. Inr (snd (hd (cc_keys cc)))), bt_fs = mem_fs, bt_lib = short_lib, bt_pins = ''kh''\<rparr>"

definition toy_plan :: tf_plan where
  "toy_plan = \<lparr>p_module = ''workers'', p_env = ''live'', p_file = ''f'',
     p_changes = [\<lparr>ch_address = worker_address ''wk1'', ch_action = Create\<rparr>]\<rparr>"

definition toy_driver :: "(path \<Rightarrow> string option) driver" where
  "toy_driver = \<lparr>dr_plan = (\<lambda>_ w. (Inr toy_plan, w)), dr_plan_replace = (\<lambda>_ _ w. (Inr toy_plan, w)),
     dr_apply = (\<lambda>_ w. (Inr (), w)), dr_output = (\<lambda>_ w. (Inr [''wk1'' \<mapsto> ''10.0.2.6''], w))\<rparr>"

lemma toy_driver_laws: "driver_laws toy_kit toy_driver (\<lambda>w. w)"
  by (simp add: driver_laws_def quiet_def toy_kit_def toy_driver_def short_lib_def host_ok_def is_space_def)

abbreviation toy_mode :: mode where
  "toy_mode \<equiv> \<lparr>m_apply = True, m_allow_unexpected = False\<rparr>"

definition toy_key :: "bool key_pair" where
  "toy_key = \<lparr>kp_private = ''p'', kp_public = True\<rparr>"

lemma toy_seeded: "seed_all toy_kit [''wk1''] (w, out) = (Inr [(''wk1'', toy_key, ''#cloud-config'' @ [NL] @ ''p'')], w, out)"
  by (simp add: seed_all_def seed_key_def io_defs io_result_def user_data_def result_bind_def toy_kit_def toy_key_def)

lemma toy_decided: "\<exists>o'. \<forall>w. decide (dr_apply toy_driver) toy_plan (create_intent [''wk1'']) toy_mode (w, []) = (Inr True, w, o')"
proof -
  have "check (create_intent [''wk1'']) (p_changes toy_plan) = []" "p_changes toy_plan \<noteq> []" by code_simp+
  then show ?thesis by (simp add: decide_run intent_refuses_def apply_checked_run toy_driver_def)
qed

lemma toy_pinned:
  "fst (pin_created toy_kit toy_driver [(''wk1'', toy_key)] ([''kh'' \<mapsto> ''10.0.2.6 F'' @ [NL]], out)) = Inr [(''wk1'', ''10.0.2.6'')]"
proof -
  obtain new where t: "rewrite_text short_lib True ''10.0.2.6'' [True] (''10.0.2.6 F'' @ [NL]) = Some new"
    by (simp add: rewrite_text_def scan_lines_def raw_lines_def max_token_def Let_def)
  have n: "sl_normalize short_lib a = a" for a by (simp add: short_lib_def)
  have k: "bt_lib toy_kit = short_lib" "bt_fs toy_kit = mem_fs" "bt_pins toy_kit = ''kh''"
    "dr_output toy_driver m w = (Inr [''wk1'' \<mapsto> ''10.0.2.6''], w)" for m w
    by (simp_all add: toy_kit_def toy_driver_def)
  show ?thesis using t unfolding pin_created_def pin_one_def pins_set_def pins_rewrite_def k n
    by (simp add: toy_key_def sorted_keys_def prov_call_def pin_read_def io_defs io_embed_def mem_fs_def Let_def)
qed

theorem created_workers_are_pinned_witness:
  "\<exists>c'. fst (snd (create_workers toy_kit toy_driver (Some [''wk1'']) toy_mode ([''kh'' \<mapsto> ''10.0.2.6 F'' @ [NL]], []))) ''kh'' = Some c' \<and>
     created_as toy_kit toy_driver toy_mode [(''wk1'', ''10.0.2.6'')] c'"
proof -
  let ?w = "[''kh'' \<mapsto> ''10.0.2.6 F'' @ [NL]]"
  let ?run = "create_workers toy_kit toy_driver (Some [''wk1'']) toy_mode (?w, [])"
  have names: "new_names (p_changes toy_plan) = [''wk1'']" by code_simp
  have plan: "dr_plan toy_driver vars w = (Inr toy_plan, w)" for vars w by (simp add: toy_driver_def)
  obtain o' where d: "\<And>w. decide (dr_apply toy_driver) toy_plan (create_intent [''wk1'']) toy_mode (w, []) = (Inr True, w, o')"
    using toy_decided by blast
  have "fst ?run = Inr [(''wk1'', ''10.0.2.6'')]"
    using toy_pinned by (simp add: create_workers_def prov_call_def io_defs plan names toy_seeded io_embed_def d key_pairs_def Let_def)
  then obtain w' out' where run: "?run = (Inr [(''wk1'', ''10.0.2.6'')], w', out')" by (metis prod.collapse)
  have t: "text_ok (''10.0.2.6 F'' @ [NL])" by (simp add: text_ok_def raw_lines_def max_token_def)
  have l: "file_laws (bt_fs toy_kit) (\<lambda>w. w) (\<lambda>_. ())" "lib_laws (bt_lib toy_kit)" "?w (bt_pins toy_kit) = Some (''10.0.2.6 F'' @ [NL])"
    using mem_fs_laws short_lib_laws by (simp_all add: toy_kit_def)
  have k: "bt_pins toy_kit = ''kh''" by (simp add: toy_kit_def)
  show ?thesis using created_workers_are_pinned [OF l(1,2) toy_driver_laws l(3) t run] unfolding run k by auto
qed

end
