(* ===== verification/WorkerRemove.thy ===== *)
theory WorkerRemove
  imports Kube Stage Wgconf
begin

section \<open>stages/worker_remove.go: a Worker leaves the cluster and the hub\<close>

text \<open>
  The three Stages that retire a Worker on the Control Plane: drain its Node, delete it, remove its peer from the hub. The
  Control Plane is the record \<open>cp_host\<close>: its \<open>exec\<close>, the reading of a file, the JSON decoders of kubectl's answers, the
  time stamp of the backup, and the diff that a preview shows.
\<close>

record 'w cp_host =
  ch_exec :: "'w exec"
  ch_read :: "path \<Rightarrow> ('w, string, string) call"
  ch_json :: kube_json
  ch_stamp :: string
  ch_unified :: "path \<Rightarrow> string \<Rightarrow> string \<Rightarrow> string"

definition wg_conf :: path where "wg_conf = ''/etc/wireguard/wg0.conf''"

definition remove_runbook :: string where "remove_runbook = ''docs/runbook/workers.md#remove-a-worker''"

definition find_node :: "'w cp_host \<Rightarrow> string \<Rightarrow> ('w, unit, string, node option) io" where
  "find_node ch name =
     io_bind (nodes (ch_exec ch) (ch_json ch)) (\<lambda>ns. io_return (find (\<lambda>n. nd_name n = name) ns))"

definition not_yet :: "string list \<Rightarrow> status" where
  "not_yet xs = \<lparr>st_done = False, st_detail = ''not yet: '' @ join_str '', '' xs\<rparr>"

definition done_with :: "string \<Rightarrow> status" where
  "done_with d = \<lparr>st_done = True, st_detail = d\<rparr>"

subsection \<open>Drain\<close>

definition drain_args :: "string \<Rightarrow> int \<Rightarrow> string list" where
  "drain_args node timeout =
     [''drain'', node, ''--ignore-daemonsets'', ''--delete-emptydir-data'', ''--timeout='' @ duration_string timeout]"

definition drain_status :: "node \<Rightarrow> pod list \<Rightarrow> status" where
  "drain_status n pods =
     (let left = map (\<lambda>p. pd_namespace p @ ''/'' @ pd_name p) (filter pod_remains pods);
          xs = (if nd_unschedulable n then [] else [''cordoned'']) @
            (if left = [] then []
             else [string_of_nat (length left) @ '' pods moved ('' @ join_str '', '' left @ '')'']) in
      if xs \<noteq> [] then not_yet xs else done_with ''cordoned, only DaemonSet, static or finished pods left'')"

definition drain_probe :: "'w cp_host \<Rightarrow> string \<Rightarrow> ('w, unit, string, status) io" where
  "drain_probe ch node =
     io_bind (find_node ch node) (\<lambda>n.
       case n of None \<Rightarrow> io_return (done_with (''no Node '' @ node))
       | Some n \<Rightarrow> io_bind (pods_on (ch_exec ch) (ch_json ch) node) (\<lambda>pods. io_return (drain_status n pods)))"

definition run_quiet :: "'w exec \<Rightarrow> string list \<Rightarrow> ('w, unit, string, unit) io" where
  "run_quiet ex args = io_bind (io_call (kubectl_run ex args)) (\<lambda>_. io_return ())"

definition drain_stage :: "'w cp_host \<Rightarrow> string \<Rightarrow> int \<Rightarrow> 'w stage" where
  "drain_stage ch node timeout = \<lparr>sg_name = ''drain'', sg_runbook = remove_runbook,
     sg_probe = (\<lambda>_. io_run (drain_probe ch node)),
     sg_preview = (\<lambda>_ w. (Inr (''kubectl '' @ join_str '' '' (drain_args node timeout) @ [NL]), w)),
     sg_act = (\<lambda>_. io_run (run_quiet (ch_exec ch) (drain_args node timeout)))\<rparr>"

subsection \<open>DeleteNode\<close>

definition gone_status :: "string \<Rightarrow> node option \<Rightarrow> status" where
  "gone_status node n =
     (if n = None then done_with (''no Node '' @ node)
      else \<lparr>st_done = False, st_detail = ''not yet: Node '' @ node @ '' exists''\<rparr>)"

definition delete_probe :: "'w cp_host \<Rightarrow> string \<Rightarrow> ('w, unit, string, status) io" where
  "delete_probe ch node = io_bind (find_node ch node) (\<lambda>n. io_return (gone_status node n))"

definition delete_act :: "'w cp_host \<Rightarrow> string \<Rightarrow> ('w, unit, string, unit) io" where
  "delete_act ch node =
     io_bind (find_node ch node) (\<lambda>n. case n of None \<Rightarrow> io_return ()
       | Some n \<Rightarrow>
           if \<not> nd_unschedulable n then io_fail (''Node '' @ node @ '' is not cordoned: drain it first'')
           else run_quiet (ch_exec ch) [''delete'', ''node'', node])"

definition delete_stage :: "'w cp_host \<Rightarrow> string \<Rightarrow> 'w stage" where
  "delete_stage ch node = \<lparr>sg_name = ''delete-node'', sg_runbook = remove_runbook,
     sg_probe = (\<lambda>_. io_run (delete_probe ch node)),
     sg_preview = (\<lambda>_ w. (Inr (''kubectl delete node '' @ node @ [NL]), w)),
     sg_act = (\<lambda>_. io_run (delete_act ch node))\<rparr>"

subsection \<open>HubPeerRemove\<close>

definition read_conf :: "'w cp_host \<Rightarrow> ('w, unit, string, string) io" where
  "read_conf ch = io_map_err (\<lambda>_. ''reading the hub config failed'') (io_call (ch_read ch wg_conf))"

text \<open>The entries of \<open>AllowedIPs\<close>, and the peers of the file found at the address: one for each entry that is it.\<close>

definition entries :: "peer \<Rightarrow> string list" where
  "entries q = map trim_space (split_on CHR '','' (pe_allowed_ips q))"

fun found_peers :: "string \<Rightarrow> peer list \<Rightarrow> string + peer list" where
  "found_peers ip [] = Inr []"
| "found_peers ip (q # qs) =
     (if ip \<in> set (entries q)
      then if length (entries q) > 1
        then Inl (''the [Peer] that holds '' @ ip @ '' routes '' @ pe_allowed_ips q @
          '': kluster removes only a peer of that one address'')
        else result_bind (found_peers ip qs) (\<lambda>fs. Inr (q # fs))
      else found_peers ip qs)"

definition file_peer :: "string \<Rightarrow> string \<Rightarrow> string + peer option" where
  "file_peer ip conf =
     result_bind (found_peers ip (peers conf)) (\<lambda>fs. case fs of
         [] \<Rightarrow> Inr None
       | [q] \<Rightarrow> Inr (Some q)
       | _ \<Rightarrow> Inl (string_of_nat (length fs) @ '' [Peer] sections hold '' @ ip))"

definition live_line :: "string \<Rightarrow> string \<Rightarrow> string list" where
  "live_line ip l =
     (let f = str_fields l in map (\<lambda>_. hd f) (filter (\<lambda>x. x = ip) (drop 1 f)))"

definition live_keys :: "string \<Rightarrow> string \<Rightarrow> string list" where
  "live_keys ip out' = concat (map (live_line ip) (split_on NL (trim_space out')))"

definition show_live :: string where "show_live = ''wg show wg0 allowed-ips''"

definition live_peer :: "'w cp_host \<Rightarrow> string \<Rightarrow> ('w, unit, string, string option) io" where
  "live_peer ch ip =
     io_bind (io_call (ex_run (ch_exec ch) show_live)) (\<lambda>out'.
       case live_keys ip out' of
         [] \<Rightarrow> io_return None
       | [k] \<Rightarrow> io_return (Some k)
       | ks \<Rightarrow> io_fail (string_of_nat (length ks) @ '' live peers route '' @ ip))"

record hub_state =
  hu_conf :: string
  hu_file :: "peer option"
  hu_live :: "string option"

definition hub_state_of :: "'w cp_host \<Rightarrow> string \<Rightarrow> ('w, unit, string, hub_state) io" where
  "hub_state_of ch ip =
     io_bind (read_conf ch) (\<lambda>conf.
     io_bind (io_result (file_peer ip conf)) (\<lambda>f.
     io_bind (live_peer ch ip) (\<lambda>l.
       if f \<noteq> None \<and> l \<noteq> None \<and> pe_public_key (the f) \<noteq> the l
       then io_fail (''the hub config and the live hub give '' @ ip @ '' to different keys: kluster removes neither'')
       else io_return \<lparr>hu_conf = conf, hu_file = f, hu_live = l\<rparr>)))"

definition hub_status :: "string \<Rightarrow> hub_state \<Rightarrow> status" where
  "hub_status ip s =
     (let xs = (if hu_file s \<noteq> None then [''out of '' @ wg_conf] else []) @
        (if hu_live s \<noteq> None then [''out of the live wg0''] else []) in
      if xs \<noteq> [] then not_yet xs else done_with (''no peer holds '' @ ip))"

definition wg_text :: "wg_error \<Rightarrow> string" where
  "wg_text e = (case e of NoPeerWithKey k \<Rightarrow> ''no [Peer] has key '' @ k | _ \<Rightarrow> [])"

definition hub_edit :: "hub_state \<Rightarrow> string + string" where
  "hub_edit s =
     (case hu_file s of None \<Rightarrow> Inr (hu_conf s)
      | Some q \<Rightarrow> (case remove_peer (hu_conf s) (pe_public_key q) of
          Inl e \<Rightarrow> Inl (wg_text e)
        | Inr c \<Rightarrow> Inr (trim_right (\<lambda>c. c = NL) c @ [NL])))"

definition wg_remove :: "string \<Rightarrow> string" where
  "wg_remove key = ''wg set wg0 peer '' @ key @ '' remove''"

definition hub_preview :: "'w cp_host \<Rightarrow> string \<Rightarrow> host \<Rightarrow> ('w, unit, string, string) io" where
  "hub_preview ch ip h =
     (if \<not> h_connected h
      then io_return (''# back up '' @ wg_conf @ '', remove the [Peer] that holds '' @ ip @ '', then'' @ [NL] @
        ''wg set wg0 peer <its key> remove'' @ [NL])
      else io_bind (hub_state_of ch ip) (\<lambda>s.
        io_bind (io_result (hub_edit s)) (\<lambda>updated. io_return (
          (if hu_file s \<noteq> None then ''# back up '' @ wg_conf @ '', remove the [Peer] that holds '' @ ip @ [NL] else []) @
          (case hu_live s of None \<Rightarrow> [] | Some k \<Rightarrow> wg_remove k @ [NL]) @
          ch_unified ch wg_conf (hu_conf s) updated))))"

definition backup :: "'w cp_host \<Rightarrow> string" where
  "backup ch = ''cp -p '' @ wg_conf @ '' '' @ wg_conf @ ''.bak-kluster-'' @ ch_stamp ch"

definition hub_write :: "'w cp_host \<Rightarrow> hub_state \<Rightarrow> ('w, unit, string, unit) io" where
  "hub_write ch s =
     (if hu_file s = None then io_return ()
      else io_bind (io_result (hub_edit s)) (\<lambda>updated.
        io_bind (io_call (ex_run (ch_exec ch) (backup ch))) (\<lambda>_.
          io_call (ex_write (ch_exec ch) wg_conf updated))))"

definition hub_act :: "'w cp_host \<Rightarrow> string \<Rightarrow> ('w, unit, string, unit) io" where
  "hub_act ch ip =
     io_bind (hub_state_of ch ip) (\<lambda>s.
     io_bind (hub_write ch s) (\<lambda>_.
       case hu_live s of None \<Rightarrow> io_return ()
       | Some k \<Rightarrow> io_bind (io_call (ex_run (ch_exec ch) (wg_remove k))) (\<lambda>_. io_return ())))"

definition hub_stage :: "'w cp_host \<Rightarrow> string \<Rightarrow> 'w stage" where
  "hub_stage ch ip = \<lparr>sg_name = ''hub-peer-remove'', sg_runbook = remove_runbook,
     sg_probe = (\<lambda>_. io_run (io_bind (hub_state_of ch ip) (\<lambda>s. io_return (hub_status ip s)))),
     sg_preview = (\<lambda>h. io_run (hub_preview ch ip h)),
     sg_act = (\<lambda>_. io_run (hub_act ch ip))\<rparr>"

end
