(* ===== verification/WorkerGone.thy ===== *)
theory WorkerGone
  imports WorkerRemove Workerset
begin

section \<open>What retiring a Worker leaves behind\<close>

text \<open>
  \<open>cp_view\<close> is what the Stages can change: the Nodes and Pods of the cluster, the hub's config and its live peers.
  \<open>reads_laws\<close> and \<open>writes_laws\<close> state what kubectl, wg and the files of the Control Plane do to it; a failed write of the config may leave
  anything (the code makes a backup for that reason).
\<close>

record cp_view =
  cv_nodes :: "node list"
  cv_pods :: "string \<Rightarrow> pod list"
  cv_conf :: string
  cv_live :: "(string \<times> string list) list"

definition live_holders :: "string \<Rightarrow> (string \<times> string list) list \<Rightarrow> string list" where
  "live_holders ip t = concat (map (\<lambda>(k, ips). map (\<lambda>_. k) (filter (\<lambda>x. x = ip) ips)) t)"

definition drop_node :: "string \<Rightarrow> node list \<Rightarrow> node list" where
  "drop_node n ns = filter (\<lambda>x. nd_name x \<noteq> n) ns"

definition pods_query :: "string \<Rightarrow> string list" where
  "pods_query n = [''get'', ''pods'', ''--all-namespaces'', ''--field-selector'', ''spec.nodeName='' @ n, ''-o'', ''json'']"

definition reads_laws :: "'w cp_host \<Rightarrow> ('w \<Rightarrow> cp_view) \<Rightarrow> bool" where
  "reads_laws ch obs \<longleftrightarrow>
     (\<forall>w r w'. kubectl_run (ch_exec ch) [''get'', ''nodes'', ''-o'', ''json''] w = (r, w') \<longrightarrow>
        obs w' = obs w \<and> (\<forall>o' its. r = Inr o' \<longrightarrow> kj_nodes (ch_json ch) o' = Inr its \<longrightarrow> map parse_node its = cv_nodes (obs w))) \<and>
     (\<forall>n w r w'. kubectl_run (ch_exec ch) (pods_query n) w = (r, w') \<longrightarrow>
        obs w' = obs w \<and> (\<forall>o' its. r = Inr o' \<longrightarrow> kj_pods (ch_json ch) o' = Inr its \<longrightarrow> map parse_pod its = cv_pods (obs w) n)) \<and>
     (\<forall>w r w'. ch_read ch wg_conf w = (r, w') \<longrightarrow> obs w' = obs w \<and> (\<forall>c. r = Inr c \<longrightarrow> c = cv_conf (obs w))) \<and>
     (\<forall>w r w'. ex_run (ch_exec ch) show_live w = (r, w') \<longrightarrow>
        obs w' = obs w \<and> (\<forall>o' ip. r = Inr o' \<longrightarrow> live_keys ip o' = live_holders ip (cv_live (obs w))))"

definition writes_laws :: "'w cp_host \<Rightarrow> ('w \<Rightarrow> cp_view) \<Rightarrow> bool" where
  "writes_laws ch obs \<longleftrightarrow>
     (\<forall>n t w r w'. kubectl_run (ch_exec ch) (drain_args n t) w = (r, w') \<longrightarrow>
        cv_conf (obs w') = cv_conf (obs w) \<and> cv_live (obs w') = cv_live (obs w) \<and>
        drop_node n (cv_nodes (obs w')) = drop_node n (cv_nodes (obs w))) \<and>
     (\<forall>n w r w'. kubectl_run (ch_exec ch) [''delete'', ''node'', n] w = (r, w') \<longrightarrow>
        cv_conf (obs w') = cv_conf (obs w) \<and> cv_live (obs w') = cv_live (obs w) \<and>
        (obs w' = obs w \<and> \<not> is_ok r \<or> cv_nodes (obs w') = drop_node n (cv_nodes (obs w)))) \<and>
     (\<forall>w r w'. ex_run (ch_exec ch) (backup ch) w = (r, w') \<longrightarrow> obs w' = obs w) \<and>
     (\<forall>c w r w'. ex_write (ch_exec ch) wg_conf c w = (r, w') \<longrightarrow>
        cv_nodes (obs w') = cv_nodes (obs w) \<and> cv_pods (obs w') = cv_pods (obs w) \<and> cv_live (obs w') = cv_live (obs w) \<and>
        (r = Inr () \<longrightarrow> cv_conf (obs w') = c)) \<and>
     (\<forall>k w r w'. ex_run (ch_exec ch) (wg_remove k) w = (r, w') \<longrightarrow>
        cv_nodes (obs w') = cv_nodes (obs w) \<and> cv_pods (obs w') = cv_pods (obs w) \<and> cv_conf (obs w') = cv_conf (obs w) \<and>
        (cv_live (obs w') = cv_live (obs w) \<and> \<not> is_ok r \<or>
         cv_live (obs w') = filter (\<lambda>(k', _). k' \<noteq> k) (cv_live (obs w))))"

lemma reads:
  assumes "reads_laws ch obs"
  shows "kubectl_run (ch_exec ch) [''get'', ''nodes'', ''-o'', ''json''] w = (r, w') \<Longrightarrow> obs w' = obs w"
    and "kubectl_run (ch_exec ch) [''get'', ''nodes'', ''-o'', ''json''] w = (Inr o', w') \<Longrightarrow> kj_nodes (ch_json ch) o' = Inr its \<Longrightarrow>
      map parse_node its = cv_nodes (obs w)"
    and "kubectl_run (ch_exec ch) (pods_query n) w =
      (r, w') \<Longrightarrow> obs w' = obs w"
    and "kubectl_run (ch_exec ch) (pods_query n) w =
      (Inr o', w') \<Longrightarrow> kj_pods (ch_json ch) o' = Inr pits \<Longrightarrow> map parse_pod pits = cv_pods (obs w) n"
    and "ch_read ch wg_conf w = (rc, w') \<Longrightarrow> obs w' = obs w"
    and "ch_read ch wg_conf w = (Inr c, w') \<Longrightarrow> c = cv_conf (obs w)"
    and "ex_run (ch_exec ch) show_live w = (r, w') \<Longrightarrow> obs w' = obs w"
    and "ex_run (ch_exec ch) show_live w = (Inr o', w') \<Longrightarrow> live_keys ip o' = live_holders ip (cv_live (obs w))"
  using assms unfolding reads_laws_def by metis+

lemma writes:
  assumes "writes_laws ch obs"
  shows "kubectl_run (ch_exec ch) (drain_args n t) w = (r, w') \<Longrightarrow>
      cv_conf (obs w') = cv_conf (obs w) \<and> cv_live (obs w') = cv_live (obs w) \<and>
      drop_node n (cv_nodes (obs w')) = drop_node n (cv_nodes (obs w))"
    and "kubectl_run (ch_exec ch) [''delete'', ''node'', n] w = (r, w') \<Longrightarrow>
      cv_conf (obs w') = cv_conf (obs w) \<and> cv_live (obs w') = cv_live (obs w) \<and>
      (obs w' = obs w \<and> \<not> is_ok r \<or> cv_nodes (obs w') = drop_node n (cv_nodes (obs w)))"
    and "ex_run (ch_exec ch) (backup ch) w = (r, w') \<Longrightarrow> obs w' = obs w"
    and "ex_write (ch_exec ch) wg_conf c w = (rw, w') \<Longrightarrow>
      cv_nodes (obs w') = cv_nodes (obs w) \<and> cv_pods (obs w') = cv_pods (obs w) \<and> cv_live (obs w') = cv_live (obs w) \<and>
      (rw = Inr () \<longrightarrow> cv_conf (obs w') = c)"
    and "ex_run (ch_exec ch) (wg_remove k) w = (r, w') \<Longrightarrow>
      cv_nodes (obs w') = cv_nodes (obs w) \<and> cv_pods (obs w') = cv_pods (obs w) \<and> cv_conf (obs w') = cv_conf (obs w) \<and>
      (cv_live (obs w') = cv_live (obs w) \<and> \<not> is_ok r \<or>
       cv_live (obs w') = filter (\<lambda>(k', _). k' \<noteq> k) (cv_live (obs w)))"
  using assms unfolding writes_laws_def by simp_all

subsection \<open>What the reads find\<close>

definition node_of :: "string \<Rightarrow> cp_view \<Rightarrow> node option" where
  "node_of n v = find (\<lambda>x. nd_name x = n) (cv_nodes v)"

lemma decoded_wp [wp_simps]:
  "wp (decoded what r f) Q E w out \<longleftrightarrow> (case r of Inl e \<Rightarrow> E (what @ e) w out | Inr a \<Rightarrow> Q (f a) w out)"
  by (simp add: decoded_def wp_simps split: sum.split)

lemma find_node_wp:
  assumes "reads_laws ch obs"
  shows "wp (find_node ch n) (\<lambda>x w' _. obs w' = obs w \<and> x = node_of n (obs w)) (\<lambda>_ w' _. obs w' = obs w) w out"
  unfolding find_node_def nodes_def wp_simps node_of_def
  by (auto split: sum.splits dest: reads(1) [OF assms] simp: reads(2) [OF assms])

lemma pods_on_wp:
  assumes "reads_laws ch obs"
  shows "wp (pods_on (ch_exec ch) (ch_json ch) n) (\<lambda>ps w' _. obs w' = obs w \<and> ps = cv_pods (obs w) n) (\<lambda>_ w' _. obs w' = obs w) w out"
  unfolding pods_on_def pods_query_def [symmetric] wp_simps
  by (auto split: sum.splits dest: reads(3) [OF assms] simp: reads(4) [OF assms])

definition holders :: "string \<Rightarrow> peer list \<Rightarrow> peer list" where
  "holders ip ps = filter (\<lambda>q. ip \<in> set (entries q)) ps"

lemma found_peers_Inr: "found_peers ip ps = Inr fs \<Longrightarrow> fs = holders ip ps \<and> (\<forall>q \<in> set fs. entries q = [ip])"
proof (induction ps arbitrary: fs)
  case (Cons q ps)
  show ?case
  proof (cases "ip \<in> set (entries q)")
    case True
    with Cons.prems have "length (entries q) = 1" by (cases "entries q") (simp_all split: if_splits)
    with True have e: "entries q = [ip]" by (auto simp: length_Suc_conv)
    have "result_bind (found_peers ip ps) (\<lambda>fs. Inr (q # fs)) = Inr fs" using Cons.prems unfolding found_peers.simps e by simp
    then obtain gs where gs: "found_peers ip ps = Inr gs" "fs = q # gs" unfolding result_bind_Inr by blast
    have "holders ip (q # ps) = q # holders ip ps" unfolding holders_def filter.simps e by simp
    with Cons.IH [OF gs(1)] gs(2) e show ?thesis by (metis set_ConsD)
  next
    case False
    with Cons.prems have "found_peers ip ps = Inr fs" by simp
    note ih = Cons.IH [OF this]
    have "holders ip (q # ps) = holders ip ps" using False by (simp add: holders_def)
    then show ?thesis using ih by metis
  qed
qed (simp add: holders_def)

lemma file_peer_Inr:
  "file_peer ip conf = Inr f \<Longrightarrow>
     (case f of None \<Rightarrow> holders ip (peers conf) = [] | Some q \<Rightarrow> holders ip (peers conf) = [q])"
proof -
  assume "file_peer ip conf = Inr f"
  then obtain fs where fs: "found_peers ip (peers conf) = Inr fs"
      "(case fs of [] \<Rightarrow> Inr None | [q] \<Rightarrow> Inr (Some q)
       | _ \<Rightarrow> Inl (string_of_nat (length fs) @ '' [Peer] sections hold '' @ ip)) = Inr f"
    unfolding file_peer_def result_bind_Inr by blast
  from found_peers_Inr [OF fs(1)] have h: "holders ip (peers conf) = fs" by simp
  show ?thesis unfolding h using fs(2) by (auto split: list.splits)
qed

text \<open>What \<open>state\<close> reports: the one peer of the file at the address and the one live key, or none.\<close>

definition hub_seen :: "string \<Rightarrow> cp_view \<Rightarrow> hub_state \<Rightarrow> bool" where
  "hub_seen ip v s \<longleftrightarrow> hu_conf s = cv_conf v \<and>
     (case hu_file s of None \<Rightarrow> holders ip (peers (cv_conf v)) = [] | Some q \<Rightarrow> holders ip (peers (cv_conf v)) = [q]) \<and>
     (case hu_live s of None \<Rightarrow> live_holders ip (cv_live v) = [] | Some k \<Rightarrow> live_holders ip (cv_live v) = [k]) \<and>
     (\<forall>q k. hu_file s = Some q \<longrightarrow> hu_live s = Some k \<longrightarrow> pe_public_key q = k)"

lemma live_peer_wp:
  assumes "reads_laws ch obs"
  shows "wp (live_peer ch ip) (\<lambda>l w' _. obs w' = obs w \<and>
      (case l of None \<Rightarrow> live_holders ip (cv_live (obs w)) = [] | Some k \<Rightarrow> live_holders ip (cv_live (obs w)) = [k]))
    (\<lambda>_ w' _. obs w' = obs w) w out"
  unfolding live_peer_def wp_bind wp_call
  by (auto simp: wp_simps reads(8) [OF assms] split: list.splits dest: reads(7) [OF assms])

lemma hub_state_wp:
  assumes laws: "reads_laws ch obs"
  shows "wp (hub_state_of ch ip) (\<lambda>s w' _. obs w' = obs w \<and> hub_seen ip (obs w) s) (\<lambda>_ w' _. obs w' = obs w) w out"
proof -
  let ?Q = "\<lambda>s w' (_ :: unit list). obs w' = obs w \<and> hub_seen ip (obs w) s"
  let ?E = "\<lambda>_ w' _. obs w' = obs w"
  have live: "wp (live_peer ch ip) (\<lambda>l w' out. wp (if f \<noteq> None \<and> l \<noteq> None \<and> pe_public_key (the f) \<noteq> the l
       then io_fail (''the hub config and the live hub give '' @ ip @ '' to different keys: kluster removes neither'')
       else io_return \<lparr>hu_conf = cv_conf (obs w), hu_file = f, hu_live = l\<rparr>) ?Q ?E w' out) ?E w1 out1"
    if w1: "obs w1 = obs w" and f: "file_peer ip (cv_conf (obs w)) = Inr f" for f w1 out1
    by (rule wp_mono [OF live_peer_wp [OF laws, of ip w1 out1, unfolded w1]])
      (use file_peer_Inr [OF f] in \<open>auto simp: wp_simps hub_seen_def\<close>)
  have step: "wp (io_bind (io_result (file_peer ip c)) (\<lambda>f. io_bind (live_peer ch ip) (\<lambda>l.
       if f \<noteq> None \<and> l \<noteq> None \<and> pe_public_key (the f) \<noteq> the l
       then io_fail (''the hub config and the live hub give '' @ ip @ '' to different keys: kluster removes neither'')
       else io_return \<lparr>hu_conf = c, hu_file = f, hu_live = l\<rparr>))) ?Q ?E w1 out1"
    if w1: "obs w1 = obs w" and c: "c = cv_conf (obs w)" for c w1 out1
    unfolding wp_bind wp_result c
    by (cases "file_peer ip (cv_conf (obs w))") (simp_all only: sum.case w1 live [OF w1])
  have read: "obs w1 = obs w \<and> c = cv_conf (obs w)" if "ch_read ch wg_conf w = (Inr c, w1)" for c w1
    using reads(5,6) [OF laws that] by simp
  show ?thesis
    unfolding hub_state_of_def read_conf_def wp_bind [of "io_map_err _ _"] wp_map_err wp_call
  proof (intro conjI allI impI)
    fix c w1 assume "ch_read ch wg_conf w = (Inr c, w1)"
    from read [OF this] show "wp (io_bind (io_result (file_peer ip c)) (\<lambda>f. io_bind (live_peer ch ip) (\<lambda>l.
       if f \<noteq> None \<and> l \<noteq> None \<and> pe_public_key (the f) \<noteq> the l
       then io_fail (''the hub config and the live hub give '' @ ip @ '' to different keys: kluster removes neither'')
       else io_return \<lparr>hu_conf = c, hu_file = f, hu_live = l\<rparr>))) ?Q ?E w1 out"
      by (intro step) simp_all
  next
    fix e w1 assume "ch_read ch wg_conf w = (Inl e, w1)"
    then show "obs w1 = obs w" by (rule reads(5) [OF laws])
  qed
qed

subsection \<open>The Stages tell the truth\<close>

definition drained :: "string \<Rightarrow> cp_view \<Rightarrow> bool" where
  "drained n v \<longleftrightarrow> (case node_of n v of None \<Rightarrow> True
     | Some x \<Rightarrow> nd_unschedulable x \<and> (\<forall>p \<in> set (cv_pods v n). \<not> pod_remains p))"

definition hub_clear :: "string \<Rightarrow> cp_view \<Rightarrow> bool" where
  "hub_clear ip v \<longleftrightarrow> holders ip (peers (cv_conf v)) = [] \<and> live_holders ip (cv_live v) = []"

lemma drain_status_done: "st_done (drain_status x ps) \<longleftrightarrow> nd_unschedulable x \<and> (\<forall>p \<in> set ps. \<not> pod_remains p)"
  by (auto simp: drain_status_def Let_def not_yet_def done_with_def filter_empty_conv)

lemma drain_probe_wp:
  assumes "reads_laws ch obs"
  shows "wp (drain_probe ch n) (\<lambda>st w' _. obs w' = obs w \<and> st_done st = drained n (obs w)) (\<lambda>_ w' _. obs w' = obs w) w out"
proof -
  let ?Q = "\<lambda>st w' _. obs w' = obs w \<and> st_done st = drained n (obs w)" and ?E = "\<lambda>_ w' _. obs w' = obs w"
  have pods: "wp (io_bind (pods_on (ch_exec ch) (ch_json ch) n) (\<lambda>pods. io_return (drain_status x pods))) ?Q ?E w1 out1"
    if "obs w1 = obs w" "node_of n (obs w) = Some x" for x w1 out1
    by (rule wp_seq [OF pods_on_wp [OF assms, of n w1 out1, unfolded that(1)]])
      (simp_all add: wp_simps drain_status_done drained_def that(2))
  show ?thesis
    unfolding drain_probe_def
  proof (rule wp_seq [OF find_node_wp [OF assms]])
    fix x w1 out1 assume x: "obs w1 = obs w \<and> x = node_of n (obs w)"
    show "wp (case x of None \<Rightarrow> io_return (done_with (''no Node '' @ n))
       | Some n' \<Rightarrow> io_bind (pods_on (ch_exec ch) (ch_json ch) n) (\<lambda>pods. io_return (drain_status n' pods))) ?Q ?E w1 out1"
    proof (cases x)
      case None
      with x show ?thesis by (simp add: wp_return drained_def done_with_def)
    next
      case (Some y)
      with x pods [of w1 y] show ?thesis unfolding Some option.case by simp
    qed
  qed
qed

lemma delete_probe_wp:
  assumes "reads_laws ch obs"
  shows "wp (delete_probe ch n) (\<lambda>st w' _. obs w' = obs w \<and> st_done st = (node_of n (obs w) = None)) (\<lambda>_ w' _. obs w' = obs w) w out"
  unfolding delete_probe_def
  by (rule wp_seq [OF find_node_wp [OF assms]]) (auto simp: wp_simps gone_status_def done_with_def)

lemma hub_status_done: "hub_seen ip v s \<Longrightarrow> st_done (hub_status ip s) = hub_clear ip v"
  by (auto simp: hub_seen_def hub_clear_def hub_status_def Let_def not_yet_def done_with_def split: option.splits)

lemma hub_probe_wp:
  assumes "reads_laws ch obs"
  shows "wp (io_bind (hub_state_of ch ip) (\<lambda>s. io_return (hub_status ip s)))
    (\<lambda>st w' _. obs w' = obs w \<and> st_done st = hub_clear ip (obs w)) (\<lambda>_ w' _. obs w' = obs w) w out"
  by (rule wp_seq [OF hub_state_wp [OF assms]]) (simp_all add: wp_simps hub_status_done)

lemma hub_preview_wp:
  assumes "reads_laws ch obs"
  shows "wp (hub_preview ch ip h) (\<lambda>_ w' _. obs w' = obs w) (\<lambda>_ w' _. obs w' = obs w) w out"
proof (cases "h_connected h")
  case True
  have "wp (io_bind (hub_state_of ch ip) (\<lambda>s. io_bind (io_result (hub_edit s)) (\<lambda>u. io_return (f s u))))
      (\<lambda>_ w' _. obs w' = obs w) (\<lambda>_ w' _. obs w' = obs w) w out" for f :: "hub_state \<Rightarrow> string \<Rightarrow> string"
    by (rule wp_seq [OF hub_state_wp [OF assms]]) (auto simp: wp_simps split: sum.split)
  with True show ?thesis by (simp add: hub_preview_def)
qed (simp add: hub_preview_def wp_simps)

subsection \<open>What the acts change\<close>

lemma delete_act_wp:
  assumes r: "reads_laws ch obs" and wr: "writes_laws ch obs"
  shows "wp (delete_act ch n)
    (\<lambda>_ w' _. cv_conf (obs w') = cv_conf (obs w) \<and> cv_live (obs w') = cv_live (obs w) \<and>
       cv_nodes (obs w') = drop_node n (cv_nodes (obs w)) \<and> (\<forall>x. node_of n (obs w) = Some x \<longrightarrow> nd_unschedulable x))
    (\<lambda>_ w' _. cv_conf (obs w') = cv_conf (obs w) \<and> cv_live (obs w') = cv_live (obs w) \<and>
       (obs w' = obs w \<or> cv_nodes (obs w') = drop_node n (cv_nodes (obs w)) \<and>
          (\<forall>x. node_of n (obs w) = Some x \<longrightarrow> nd_unschedulable x))) w out"
proof -
  have none: "drop_node n (cv_nodes v) = cv_nodes v" if "node_of n v = None" for v
    using that by (auto simp: node_of_def drop_node_def find_None_iff intro!: filter_True)
  show ?thesis
    unfolding delete_act_def
  proof (rule wp_seq [OF find_node_wp [OF r]])
    fix x w1 out1 assume x: "obs w1 = obs w \<and> x = node_of n (obs w)"
    show "wp (case x of None \<Rightarrow> io_return () | Some xa \<Rightarrow>
           if \<not> nd_unschedulable xa then io_fail (''Node '' @ n @ '' is not cordoned: drain it first'')
           else run_quiet (ch_exec ch) [''delete'', ''node'', n])
      (\<lambda>_ w' _. cv_conf (obs w') = cv_conf (obs w) \<and> cv_live (obs w') = cv_live (obs w) \<and>
         cv_nodes (obs w') = drop_node n (cv_nodes (obs w)) \<and> (\<forall>x. node_of n (obs w) = Some x \<longrightarrow> nd_unschedulable x))
      (\<lambda>_ w' _. cv_conf (obs w') = cv_conf (obs w) \<and> cv_live (obs w') = cv_live (obs w) \<and>
         (obs w' = obs w \<or> cv_nodes (obs w') = drop_node n (cv_nodes (obs w)) \<and>
            (\<forall>x. node_of n (obs w) = Some x \<longrightarrow> nd_unschedulable x))) w1 out1"
    proof (cases x)
      case None
      then show ?thesis using x none [of "obs w"] by (simp add: wp_simps)
    next
      case (Some y)
      have del: "cv_conf (obs w') = cv_conf (obs w) \<and> cv_live (obs w') = cv_live (obs w) \<and>
          (obs w' = obs w \<and> \<not> is_ok r \<or> cv_nodes (obs w') = drop_node n (cv_nodes (obs w)))"
        if "kubectl_run (ch_exec ch) [''delete'', ''node'', n] w1 = (r, w')" for r w'
        using writes(2) [OF wr that] x by simp
      show ?thesis unfolding Some option.case run_quiet_def using x Some by (auto simp: wp_simps dest!: del)
    qed
  qed auto
qed

lemma hub_act_frame:
  assumes r: "reads_laws ch obs" and wr: "writes_laws ch obs"
  shows "wp (hub_act ch ip) (\<lambda>_ w' _. cv_nodes (obs w') = cv_nodes (obs w) \<and> cv_pods (obs w') = cv_pods (obs w))
    (\<lambda>_ w' _. cv_nodes (obs w') = cv_nodes (obs w) \<and> cv_pods (obs w') = cv_pods (obs w)) w out"
proof -
  let ?I = "\<lambda>w'. cv_nodes (obs w') = cv_nodes (obs w) \<and> cv_pods (obs w') = cv_pods (obs w)"
  have writing: "wp (hub_write ch s) (\<lambda>_ w' _. ?I w') (\<lambda>_ w' _. ?I w') w1 out1" if "?I w1" for s w1 out1
    unfolding hub_write_def wp_if wp_bind wp_result wp_call
    using that by (auto simp: wp_simps split: sum.split dest: writes(3) [OF wr] dest!: writes(4) [OF wr])
  have live: "wp (case hu_live s of None \<Rightarrow> io_return ()
       | Some k \<Rightarrow> io_bind (io_call (ex_run (ch_exec ch) (wg_remove k))) (\<lambda>_. io_return ()))
      (\<lambda>_ w' _. ?I w') (\<lambda>_ w' _. ?I w') w1 out1" if "?I w1" for s w1 out1
    using that by (auto simp: wp_simps split: option.split dest!: writes(5) [OF wr])
  show ?thesis
    unfolding hub_act_def
    by (rule wp_seq [OF hub_state_wp [OF r]]) (auto intro!: wp_seq [OF writing] live)
qed

subsection \<open>The hub's other peers\<close>

definition routed :: "string \<Rightarrow> string \<times> string list \<Rightarrow> bool" where
  "routed ip = (\<lambda>(k, ips). ip \<in> set ips)"

text \<open>A hub config that can be edited by key: each peer has a key of its own, on one line.\<close>

definition keyed_conf :: "string \<Rightarrow> bool" where
  "keyed_conf c \<longleftrightarrow> distinct (map pe_public_key (peers c)) \<and> [] \<notin> pe_public_key ` set (peers c) \<and>
     (\<forall>x \<in> set (blocks (split_on NL c)). length (filter (has_key ''publickey'') (snd x)) \<le> 1)"

lemma peers_closed: "peers (trim_right (\<lambda>c. c = NL) c @ [NL]) = peers c"
proof -
  let ?t = "trim_right (\<lambda>c. c = NL) c"
  obtain n where n: "split_on NL c = split_on NL ?t @ replicate n []" using conf_trimmed by blast
  have s: "split_on NL (?t @ [NL]) = split_on NL ?t @ replicate 1 []" using split_trailing_NL [of "[NL]" ?t] by simp
  have "view (split_on NL ?t @ replicate m []) = view (split_on NL ?t)" for m
    using view_blank [of "replicate m []" "split_on NL ?t"] by (simp add: is_blank_def trim_space_def trim_left_def trim_right_def)
  from this [of n] this [of 1] show ?thesis unfolding peers_view n s by simp
qed

lemma hub_edit_peers:
  assumes "keyed_conf (hu_conf s)" and "holders ip (peers (hu_conf s)) = [q]" and "hu_file s = Some q" and "hub_edit s = Inr c"
  shows "peers c = filter (\<lambda>q. ip \<notin> set (entries q)) (peers (hu_conf s))"
proof -
  let ?c = "hu_conf s"
  from assms(3,4) obtain c' where c': "remove_peer ?c (pe_public_key q) = Inr c'" "c = trim_right (\<lambda>c. c = NL) c' @ [NL]"
    by (auto simp: hub_edit_def split: sum.splits)
  have q: "q \<in> set (peers ?c)" "ip \<in> set (entries q)"
    using arg_cong [OF assms(2), of set] by (auto simp: holders_def)
  have k: "pe_public_key q \<noteq> []" using assms(1) q(1) unfolding keyed_conf_def by (metis image_eqI)
  obtain xs p ys where p: "peers ?c = xs @ p # ys" "peers c' = xs @ ys" "pe_public_key p = pe_public_key q"
    using remove_peer_drops_one [OF c'(1) k] assms(1) unfolding keyed_conf_def by blast
  have inj: "inj_on pe_public_key (set (peers ?c))" using assms(1) by (simp add: keyed_conf_def distinct_map)
  have pq: "p = q" by (rule inj_onD [OF inj p(3)]) (use p(1) q(1) in auto)
  have "holders ip xs @ [q] @ holders ip ys = [q]"
    using assms(2) q(2) unfolding p(1) holders_def by (simp add: pq)
  then have "holders ip xs = []" "holders ip ys = []" by (auto simp: append_eq_Cons_conv)
  then have "filter (\<lambda>q. ip \<notin> set (entries q)) (peers ?c) = xs @ ys"
    using q(2) unfolding p(1) by (simp add: pq holders_def filter_empty_conv filter_id_conv)
  then show ?thesis using p(2) unfolding c'(2) peers_closed by simp
qed

text \<open>What a run of the act may leave: the live table is cut only once the file holds no peer at the address.\<close>

definition hub_cut :: "string \<Rightarrow> cp_view \<Rightarrow> cp_view \<Rightarrow> bool" where
  "hub_cut ip v v' \<longleftrightarrow> peers (cv_conf v') = filter (\<lambda>q. ip \<notin> set (entries q)) (peers (cv_conf v)) \<and>
     cv_live v' = filter (\<lambda>x. \<not> routed ip x) (cv_live v)"

definition hub_left :: "string \<Rightarrow> cp_view \<Rightarrow> cp_view \<Rightarrow> bool" where
  "hub_left ip v v' \<longleftrightarrow> cv_live v' = cv_live v \<or> hub_cut ip v v'"

lemma live_holders_none: "live_holders ip t = [] \<Longrightarrow> filter (\<lambda>x. \<not> routed ip x) t = t"
  by (fastforce simp: live_holders_def routed_def filter_id_conv filter_empty_conv)

lemma live_holders_one:
  assumes "live_holders ip t = [k]" and "distinct (map fst t)"
  shows "filter (\<lambda>(k', _). k' \<noteq> k) t = filter (\<lambda>x. \<not> routed ip x) t"
proof (rule filter_cong [OF refl])
  fix x assume x: "x \<in> set t"
  obtain k' ips where x': "x = (k', ips)" by (cases x)
  have s: "set (live_holders ip t) = {k. \<exists>ips. (k, ips) \<in> set t \<and> ip \<in> set ips}"
    by (auto simp: live_holders_def)
  have "k' = k \<longleftrightarrow> ip \<in> set ips"
  proof
    assume "k' = k"
    moreover obtain ips' where "(k, ips') \<in> set t" "ip \<in> set ips'" using s assms(1) by auto
    ultimately show "ip \<in> set ips" using x x' assms(2) by (metis Pair_inject eq_key_imp_eq_value)
  next
    assume "ip \<in> set ips"
    then have "k' \<in> set (live_holders ip t)" using s x x' by auto
    then show "k' = k" using assms(1) by simp
  qed
  then show "(case x of (k', _) \<Rightarrow> k' \<noteq> k) = (\<not> routed ip x)" by (simp add: x' routed_def)
qed

lemma hub_act_wp:
  assumes r: "reads_laws ch obs" and wr: "writes_laws ch obs"
    and kc: "keyed_conf (cv_conf (obs w))" and kl: "distinct (map fst (cv_live (obs w)))"
  shows "wp (hub_act ch ip) (\<lambda>_ w' _. hub_cut ip (obs w) (obs w')) (\<lambda>_ w' _. hub_left ip (obs w) (obs w')) w out"
proof -
  let ?v = "obs w"
  let ?cut = "\<lambda>c. peers c = filter (\<lambda>q. ip \<notin> set (entries q)) (peers (cv_conf ?v))"
  let ?W = "\<lambda>w'. cv_live (obs w') = cv_live ?v \<and> ?cut (cv_conf (obs w'))"
  let ?E = "\<lambda>_ w' _. hub_left ip ?v (obs w')"
  have writing: "wp (hub_write ch s) (\<lambda>_ w' _. ?W w') ?E w1 out1"
    if w1: "obs w1 = ?v" and s: "hub_seen ip ?v s" for s w1 out1
  proof (cases "hu_file s")
    case None
    then have "filter (\<lambda>q. ip \<notin> set (entries q)) (peers (cv_conf ?v)) = peers (cv_conf ?v)"
      using s by (auto simp: hub_seen_def holders_def filter_empty_conv filter_id_conv)
    then show ?thesis using w1 None by (simp add: hub_write_def wp_simps)
  next
    case (Some q)
    have h: "hu_conf s = cv_conf ?v" "holders ip (peers (hu_conf s)) = [q]" using s Some by (simp_all add: hub_seen_def)
    have ed: "?cut c" if "hub_edit s = Inr c" for c
      using hub_edit_peers [OF _ h(2) Some that] kc h(1) by simp
    have wf: "cv_live (obs w3) = cv_live ?v \<and> (rw = Inr () \<longrightarrow> cv_conf (obs w3) = c)"
      if "ex_run (ch_exec ch) (backup ch) w1 = (rb, w2)" "ex_write (ch_exec ch) wg_conf c w2 = (rw, w3)" for rb w2 c rw w3
      using writes(3) [OF wr that(1)] writes(4) [OF wr that(2)] w1 by simp
    show ?thesis
      unfolding hub_write_def wp_if wp_bind wp_result wp_call
      using Some w1 ed wf by (auto simp: hub_left_def writes(3) [OF wr] split: sum.split)
  qed
  have live: "wp (case hu_live s of None \<Rightarrow> io_return ()
       | Some k \<Rightarrow> io_bind (io_call (ex_run (ch_exec ch) (wg_remove k))) (\<lambda>_. io_return ()))
      (\<lambda>_ w' _. hub_cut ip ?v (obs w')) ?E w1 out1" if w1: "?W w1" and s: "hub_seen ip ?v s" for s w1 out1
  proof (cases "hu_live s")
    case None
    then show ?thesis using w1 s live_holders_none [of ip "cv_live ?v"] by (simp add: wp_simps hub_cut_def hub_seen_def)
  next
    case (Some k)
    then have "live_holders ip (cv_live ?v) = [k]" using s by (simp add: hub_seen_def)
    note cut = live_holders_one [OF this kl]
    have st: "?cut (cv_conf (obs w2)) \<and> (cv_live (obs w2) = cv_live ?v \<and> \<not> is_ok r \<or>
        cv_live (obs w2) = filter (\<lambda>x. \<not> routed ip x) (cv_live ?v))"
      if "ex_run (ch_exec ch) (wg_remove k) w1 = (r, w2)" for r w2
      using writes(5) [OF wr that] w1 unfolding cut [symmetric] by simp
    show ?thesis unfolding Some option.case wp_bind wp_call wp_return
      by (auto simp: hub_cut_def hub_left_def dest!: st)
  qed
  show ?thesis
    unfolding hub_act_def
  proof (rule wp_seq [OF hub_state_wp [OF r]])
    fix s w1 out1 assume s: "obs w1 = ?v \<and> hub_seen ip ?v s"
    show "wp (io_bind (hub_write ch s) (\<lambda>_. case hu_live s of None \<Rightarrow> io_return ()
       | Some k \<Rightarrow> io_bind (io_call (ex_run (ch_exec ch) (wg_remove k))) (\<lambda>_. io_return ())))
      (\<lambda>_ w' _. hub_cut ip ?v (obs w')) ?E w1 out1"
      by (rule wp_seq [OF writing]) (use s live in auto)
  qed (simp add: hub_left_def)
qed

subsection \<open>The three Stages together\<close>

definition leave_stages :: "'w cp_host \<Rightarrow> string \<Rightarrow> string \<Rightarrow> int \<Rightarrow> 'w stage list" where
  "leave_stages ch name ip timeout = [drain_stage ch name timeout, delete_stage ch name, hub_stage ch ip]"

definition retire_holds :: "string \<Rightarrow> string \<Rightarrow> 'w stage \<Rightarrow> cp_view \<Rightarrow> bool" where
  "retire_holds name ip s v =
     (if sg_name s = ''drain'' then drained name v
      else if sg_name s = ''delete-node'' then node_of name v = None else hub_clear ip v)"

definition retired :: "string \<Rightarrow> string \<Rightarrow> cp_view \<Rightarrow> bool" where
  "retired name ip v \<longleftrightarrow> node_of name v = None \<and> hub_clear ip v"

text \<open>From a program that writes no line to the call a Stage makes.\<close>

lemma io_run_both: "wp m (\<lambda>_ w' _. P w') (\<lambda>_ w' _. P w') w [] \<Longrightarrow> io_run m w = (r, w') \<Longrightarrow> P w'"
  unfolding wp_def io_run_def by (auto split: prod.splits sum.splits)

lemma io_run_probe:
  assumes "wp m (\<lambda>st w' _. obs w' = obs w \<and> st_done st = D (obs w)) (\<lambda>_ w' _. obs w' = obs w) w []" and "io_run m w = (r, w')"
  shows "obs w' = obs w \<and> (\<forall>st. r = Inr st \<longrightarrow> st_done st = D (obs w))"
  using assms unfolding wp_def io_run_def by (auto split: prod.splits sum.splits)

lemma drop_node_gone: "cv_nodes v' = drop_node n (cv_nodes v) \<Longrightarrow> node_of n v' = None"
  by (simp add: node_of_def drop_node_def find_None_iff)

lemma drained_gone: "node_of n v = None \<Longrightarrow> drained n v"
  by (simp add: drained_def)

lemma leave_stages_reads:
  assumes "reads_laws ch obs" and "s \<in> set (leave_stages ch name ip timeout)"
  shows "stage_reads obs s \<and> stage_truthful obs (retire_holds name ip s) s"
proof -
  have same: "obs w' = obs w" if "io_run (hub_preview ch ip h) w = (r, w')" for h w r w'
    by (rule io_run_both [OF hub_preview_wp [OF assms(1)] that])
  note dr = io_run_probe [where obs = obs and D = "drained name", OF drain_probe_wp [OF assms(1)]]
  note de = io_run_probe [where obs = obs and D = "\<lambda>v. node_of name v = None", OF delete_probe_wp [OF assms(1)]]
  note hu = io_run_probe [where obs = obs and D = "hub_clear ip", OF hub_probe_wp [OF assms(1)]]
  from assms(2) consider "s = drain_stage ch name timeout" | "s = delete_stage ch name" | "s = hub_stage ch ip"
    by (auto simp: leave_stages_def)
  then show ?thesis
  proof cases
    case 1
    then show ?thesis by (auto simp: stage_reads_def stage_truthful_def drain_stage_def retire_holds_def dest!: dr)
  next
    case 2
    then show ?thesis by (auto simp: stage_reads_def stage_truthful_def delete_stage_def retire_holds_def dest!: de)
  next
    case 3
    then show ?thesis by (auto simp: stage_reads_def stage_truthful_def hub_stage_def retire_holds_def dest!: hu same)
  qed
qed

lemma delete_keeps_drained:
  assumes r: "reads_laws ch obs" and wr: "writes_laws ch obs"
  shows "stage_preserves obs (drained name) (delete_stage ch name)"
  unfolding stage_preserves_def
proof (intro allI impI)
  fix h w r w' assume run: "sg_act (delete_stage ch name) h w = (r, w')" and d: "drained name (obs w)"
  have "wp (delete_act ch name) (\<lambda>_ w' _. drained name (obs w')) (\<lambda>_ w' _. drained name (obs w')) w []"
    by (rule wp_mono [OF delete_act_wp [OF r wr]]) (auto simp: d intro: drained_gone drop_node_gone)
  then show "drained name (obs w')" using run by (simp add: delete_stage_def) (rule io_run_both)
qed

lemma hub_keeps_nodes:
  assumes r: "reads_laws ch obs" and wr: "writes_laws ch obs"
    and P: "\<And>v v'. cv_nodes v' = cv_nodes v \<Longrightarrow> cv_pods v' = cv_pods v \<Longrightarrow> P v \<Longrightarrow> P v'"
  shows "stage_preserves obs P (hub_stage ch ip)"
  unfolding stage_preserves_def
proof (intro allI impI)
  fix h w r w' assume run: "sg_act (hub_stage ch ip) h w = (r, w')" and p: "P (obs w)"
  have "wp (hub_act ch ip) (\<lambda>_ w' _. P (obs w')) (\<lambda>_ w' _. P (obs w')) w []"
    by (rule wp_mono [OF hub_act_frame [OF r wr]]) (use P p in blast)+
  then show "P (obs w')" using run by (simp add: hub_stage_def) (rule io_run_both)
qed

lemma leave_stages_ordered:
  assumes r: "reads_laws ch obs" and wr: "writes_laws ch obs"
  shows "stages_ordered obs (retire_holds name ip) (leave_stages ch name ip timeout)"
proof -
  have names: "sg_name (drain_stage ch name timeout) = ''drain''" "sg_name (delete_stage ch name) = ''delete-node''"
    "sg_name (hub_stage ch ip) = ''hub-peer-remove''" by (simp_all add: drain_stage_def delete_stage_def hub_stage_def)
  have holds: "retire_holds name ip (drain_stage ch name timeout) = drained name"
    "retire_holds name ip (delete_stage ch name) = (\<lambda>v. node_of name v = None)"
    by (simp_all add: retire_holds_def names fun_eq_iff)
  have "stage_preserves obs (drained name) (hub_stage ch ip)"
    by (rule hub_keeps_nodes [OF r wr]) (auto simp: drained_def node_of_def split: option.splits)
  moreover have "stage_preserves obs (\<lambda>v. node_of name v = None) (hub_stage ch ip)"
    by (rule hub_keeps_nodes [OF r wr]) (simp add: node_of_def)
  moreover have "stage_reads obs s \<and> stage_truthful obs (retire_holds name ip s) s" if "s \<in> set (leave_stages ch name ip timeout)" for s
    by (rule leave_stages_reads [OF r that])
  ultimately show ?thesis
    using delete_keeps_drained [OF r wr, of name] by (simp add: leave_stages_def holds [symmetric])
qed

lemma retire_run_wp:
  assumes r: "reads_laws ch obs" and wr: "writes_laws ch obs"
  shows "wp (run_stages True h (leave_stages ch name ip timeout)) (\<lambda>_ w' _. retired name ip (obs w')) (\<lambda>_ _ _. True) w out"
  by (rule wp_mono [OF wp_run_stages_holds [OF leave_stages_ordered [OF r wr]]])
    (auto simp: leave_stages_def retire_holds_def retired_def drain_stage_def delete_stage_def hub_stage_def)

subsection \<open>What a run spares\<close>

text \<open>Of another Worker nothing is touched: its Node, its peer in the file, its live peer.\<close>

definition spares_others :: "string \<Rightarrow> string \<Rightarrow> cp_view \<Rightarrow> cp_view \<Rightarrow> bool" where
  "spares_others name ip v v' \<longleftrightarrow> drop_node name (cv_nodes v') = drop_node name (cv_nodes v) \<and> hub_left ip v v'"

definition hub_same :: "string \<Rightarrow> cp_view \<Rightarrow> cp_view \<Rightarrow> bool" where
  "hub_same name v v' \<longleftrightarrow> drop_node name (cv_nodes v') = drop_node name (cv_nodes v) \<and>
     cv_conf v' = cv_conf v \<and> cv_live v' = cv_live v"

lemma drop_node_idem [simp]: "drop_node n (drop_node n ns) = drop_node n ns"
  by (simp add: drop_node_def)

lemma drain_keeps_hub:
  assumes "writes_laws ch obs"
  shows "stage_preserves obs (hub_same name v) (drain_stage ch name timeout)"
  unfolding stage_preserves_def
proof (intro allI impI)
  fix h w r w' assume run: "sg_act (drain_stage ch name timeout) h w = (r, w')" and d: "hub_same name v (obs w)"
  obtain r1 w1 where k: "kubectl_run (ch_exec ch) (drain_args name timeout) w = (r1, w1)" by force
  then have "w1 = w'" using run
    by (auto simp: drain_stage_def run_quiet_def io_run_def io_bind_def io_call_def io_return_def split: sum.splits)
  then show "hub_same name v (obs w')" using writes(1) [OF assms k] d by (simp add: hub_same_def)
qed

lemma delete_keeps_hub:
  assumes r: "reads_laws ch obs" and wr: "writes_laws ch obs"
  shows "stage_preserves obs (hub_same name v) (delete_stage ch name)"
  unfolding stage_preserves_def
proof (intro allI impI)
  fix h w r w' assume run: "sg_act (delete_stage ch name) h w = (r, w')" and d: "hub_same name v (obs w)"
  have "wp (delete_act ch name) (\<lambda>_ w' _. hub_same name v (obs w')) (\<lambda>_ w' _. hub_same name v (obs w')) w []"
    by (rule wp_mono [OF delete_act_wp [OF r wr]]) (use d in \<open>auto simp: hub_same_def\<close>)
  then show "hub_same name v (obs w')" using run by (simp add: delete_stage_def) (rule io_run_both)
qed

lemma hub_clear_cut: "hub_clear ip v \<Longrightarrow> hub_cut ip v v"
  using live_holders_none [of ip "cv_live v"]
  by (auto simp: hub_clear_def hub_cut_def holders_def filter_empty_conv filter_id_conv)

text \<open>A Stage that acts, from what its act leaves behind.\<close>

lemma run_stage_wp:
  assumes reads: "stage_reads obs s"
    and skip: "\<And>st w'. sg_probe s h w = (Inr st, w') \<Longrightarrow> st_done st \<Longrightarrow> Q (obs w)"
    and start: "E (obs w)"
    and act: "\<And>w1 r w'. sg_act s h w1 = (r, w') \<Longrightarrow> obs w1 = obs w \<Longrightarrow> E (obs w') \<and> (r = Inr () \<longrightarrow> Q (obs w'))"
  shows "wp (run_stage True h s) (\<lambda>_ w' _. Q (obs w')) (\<lambda>_ w' _. E (obs w')) w out"
proof -
  note pr = stage_reads_probe [OF reads] and pv = stage_reads_preview [OF reads]
  have last: "wp (io_bind (io_map_err (ReprobeFailed (h_name h) (sg_name s)) (io_call (sg_probe s h))) (\<lambda>st'.
      if \<not> st_done st' then io_fail (StillNotDone (h_name h) (sg_name s) (st_detail st'))
      else io_say (NowDone (h_name h) (sg_name s) (st_detail st')))) (\<lambda>_ w' _. Q (obs w')) (\<lambda>_ w' _. E (obs w')) w1 out1"
    if "E (obs w1) \<and> Q (obs w1)" for w1 out1
    proof -
    obtain p w2 where p: "sg_probe s h w1 = (p, w2)" by force
    show ?thesis unfolding wp_bind wp_map_err wp_call wp_if wp_say wp_fail p using that pr [OF p] by (cases p) simp_all
  qed
  have acts: "wp (io_bind (io_map_err (ActFailed (h_name h) (sg_name s)) (io_call (sg_act s h))) (\<lambda>_.
      io_bind (io_map_err (ReprobeFailed (h_name h) (sg_name s)) (io_call (sg_probe s h))) (\<lambda>st'.
      if \<not> st_done st' then io_fail (StillNotDone (h_name h) (sg_name s) (st_detail st'))
      else io_say (NowDone (h_name h) (sg_name s) (st_detail st'))))) (\<lambda>_ w' _. Q (obs w')) (\<lambda>_ w' _. E (obs w')) w1 out1"
    if "obs w1 = obs w" for w1 out1
  proof -
    obtain a w2 where a: "sg_act s h w1 = (a, w2)" by force
    show ?thesis unfolding wp_bind [of "io_map_err (ActFailed _ _) _"] wp_map_err [of "ActFailed _ _"] wp_call a
      using act [OF a that] last [of w2] by (cases a) simp_all
  qed
  obtain p w1 where p: "sg_probe s h w = (p, w1)" by force
  obtain v w2 where v: "sg_preview s h w1 = (v, w2)" by force
  have o: "obs w1 = obs w" "obs w2 = obs w" using pr [OF p] pv [OF v] by simp_all
  note ops = wp_bind [of "io_map_err (ProbeFailed _ _) _"] wp_bind [of "io_map_err (PreviewFailed _ _) _"]
      wp_bind [of "io_say _"] wp_map_err [of "ProbeFailed _ _"] wp_map_err [of "PreviewFailed _ _"] wp_call wp_if wp_say
  show ?thesis
  proof (cases p)
    case (Inl e)
    show ?thesis unfolding run_stage_def ops p Inl by (simp add: o start)
  next
    case (Inr st)
    show ?thesis unfolding run_stage_def ops p Inr
      using skip [OF p [unfolded Inr]] acts [OF o(2)] v by (cases v) (simp_all add: o start)
  qed
qed

lemma hub_stage_wp:
  assumes r: "reads_laws ch obs" and wr: "writes_laws ch obs"
    and kc: "keyed_conf (cv_conf (obs w))" and kl: "distinct (map fst (cv_live (obs w)))"
  shows "wp (run_stage True h (hub_stage ch ip))
    (\<lambda>_ w' _. cv_nodes (obs w') = cv_nodes (obs w) \<and> hub_cut ip (obs w) (obs w'))
    (\<lambda>_ w' _. cv_nodes (obs w') = cv_nodes (obs w) \<and> hub_left ip (obs w) (obs w')) w out"
proof -
  have act: "cv_nodes (obs w') = cv_nodes (obs w) \<and> hub_left ip (obs w) (obs w') \<and> (rr = Inr () \<longrightarrow> hub_cut ip (obs w) (obs w'))"
    if o: "obs w1 = obs w" and "io_run (hub_act ch ip) w1 = (rr, w')" for w1 rr w'
  proof -
    have "wp (hub_act ch ip)
       (\<lambda>_ w' _. hub_cut ip (obs w) (obs w') \<and> cv_nodes (obs w') = cv_nodes (obs w) \<and> cv_pods (obs w') = cv_pods (obs w))
       (\<lambda>_ w' _. hub_left ip (obs w) (obs w') \<and> cv_nodes (obs w') = cv_nodes (obs w) \<and> cv_pods (obs w') = cv_pods (obs w)) w1 []"
      using wp_conj [OF hub_act_wp [OF r wr, of w1 ip "[]"] hub_act_frame [OF r wr, of ip w1 "[]"]] kc kl unfolding o by simp
    then show ?thesis using that(2) unfolding wp_def io_run_def by (auto simp: hub_left_def split: prod.splits sum.splits)
  qed
  have hub: "stage_reads obs (hub_stage ch ip) \<and> stage_truthful obs (hub_clear ip) (hub_stage ch ip)"
    using leave_stages_reads [OF r, where s = "hub_stage ch ip" and name = "[]" and ip = ip and timeout = 0]
    by (simp add: leave_stages_def retire_holds_def [abs_def] hub_stage_def)
  show ?thesis
  proof (rule run_stage_wp [OF hub [THEN conjunct1]])
    fix st w' assume "sg_probe (hub_stage ch ip) h w = (Inr st, w')" "st_done st"
    then have "hub_clear ip (obs w)" using stage_truthfulD [OF hub [THEN conjunct2]] by simp
    then show "cv_nodes (obs w) = cv_nodes (obs w) \<and> hub_cut ip (obs w) (obs w)" by (simp add: hub_clear_cut)
  next
    fix w1 rr w' assume "sg_act (hub_stage ch ip) h w1 = (rr, w')" and o: "obs w1 = obs w"
    then show "(cv_nodes (obs w') = cv_nodes (obs w) \<and> hub_left ip (obs w) (obs w')) \<and>
        (rr = Inr () \<longrightarrow> cv_nodes (obs w') = cv_nodes (obs w) \<and> hub_cut ip (obs w) (obs w'))"
      using act [OF o, of rr w'] by (auto simp: hub_stage_def)
  qed (simp add: hub_left_def)
qed

lemma retire_spares_wp:
  assumes r: "reads_laws ch obs" and wr: "writes_laws ch obs"
    and kc: "keyed_conf (cv_conf (obs w))" and kl: "distinct (map fst (cv_live (obs w)))"
  shows "wp (run_stages True h (leave_stages ch name ip timeout))
    (\<lambda>_ w' _. spares_others name ip (obs w) (obs w') \<and> hub_cut ip (obs w) (obs w'))
    (\<lambda>_ w' _. spares_others name ip (obs w) (obs w')) w out"
proof -
  let ?S = "hub_same name (obs w)"
  have reads: "stage_reads obs (drain_stage ch name timeout)" "stage_reads obs (delete_stage ch name)"
    using leave_stages_reads [OF r, of _ name ip timeout] by (simp_all add: leave_stages_def)
  have left: "spares_others name ip (obs w) (obs w')" if "?S (obs w')" for w'
    using that by (simp add: spares_others_def hub_same_def hub_left_def)
  have hub: "wp (run_stage True h (hub_stage ch ip)) (\<lambda>_ w' _. spares_others name ip (obs w) (obs w') \<and> hub_cut ip (obs w) (obs w'))
      (\<lambda>_ w' _. spares_others name ip (obs w) (obs w')) w1 out1" if "?S (obs w1)" for w1 out1
    by (rule wp_mono [OF hub_stage_wp [OF r wr]])
      (use that kc kl in \<open>auto simp: hub_same_def spares_others_def hub_cut_def hub_left_def\<close>)
  have s0: "?S (obs w)" by (simp add: hub_same_def)
  have "wp (io_each (run_stage True h) [hub_stage ch ip]) (\<lambda>_ w' _. spares_others name ip (obs w) (obs w') \<and> hub_cut ip (obs w) (obs w'))
      (\<lambda>_ w' _. spares_others name ip (obs w) (obs w')) w1 out1" if "?S (obs w1)" for w1 out1
    unfolding io_each.simps by (rule wp_seq [OF hub [OF that]]) (simp_all add: wp_return)
  note two = this
  have "wp (io_each (run_stage True h) [delete_stage ch name, hub_stage ch ip])
      (\<lambda>_ w' _. spares_others name ip (obs w) (obs w') \<and> hub_cut ip (obs w) (obs w'))
      (\<lambda>_ w' _. spares_others name ip (obs w) (obs w')) w1 out1" if "?S (obs w1)" for w1 out1
    unfolding io_each.simps(2) [of _ "delete_stage ch name"]
    by (rule wp_seq [OF wp_run_stage_keeps [OF reads(2) delete_keeps_hub [OF r wr] that]])
      (use two left in auto)
  note one = this
  show ?thesis
    unfolding run_stages_def leave_stages_def io_each.simps(2) [of _ "drain_stage ch name timeout"]
    by (rule wp_seq [OF wp_run_stage_keeps [OF reads(1) drain_keeps_hub [OF wr] s0]])
      (use one left in auto)
qed

text \<open>\<open>retireStages\<close> for one Worker: the address of its peer is its VPN address alone.\<close>

definition drain_timeout :: int where "drain_timeout = 300000000000"

definition retire_stages :: "'w cp_host \<Rightarrow> worker \<Rightarrow> 'w stage list" where
  "retire_stages ch wk = leave_stages ch (wk_name wk) (wk_vpn_ip wk @ ''/32'') drain_timeout"


subsection \<open>A small Control Plane\<close>

text \<open>The world: is the Node there, is the peer in the file, is it live.\<close>

definition toy_item :: node_item where
  "toy_item = \<lparr>ni_name = ''wk4'', ni_labels = [], ni_provider = [], ni_unschedulable = True, ni_taints = [],
     ni_conditions = [], ni_addresses = [], ni_kubelet = []\<rparr>"

definition hub_without :: string where
  "hub_without = ''[Interface]'' @ [NL] @ ''PrivateKey = p'' @ [NL]"

definition hub_with :: string where
  "hub_with = hub_without @ [NL] @ ''[Peer]'' @ [NL] @ ''PublicKey = k4'' @ [NL] @ ''AllowedIPs = 10.100.0.4/32'' @ [NL]"

type_synonym toy_cp = "bool \<times> bool \<times> bool"

definition toy_cp_view :: "toy_cp \<Rightarrow> cp_view" where
  "toy_cp_view = (\<lambda>(a, b, c). \<lparr>cv_nodes = (if a then [parse_node toy_item] else []), cv_pods = (\<lambda>_. []),
     cv_conf = (if b then hub_with else hub_without), cv_live = (if c then [(''k4'', [''10.100.0.4/32''])] else [])\<rparr>)"

definition toy_exec :: "toy_cp exec" where
  "toy_exec = \<lparr>ex_exec = (\<lambda>cmd (a, b, c).
       if cmd = kubectl [''get'', ''nodes'', ''-o'', ''json''] then (Inr (if a then ''one'' else []), (a, b, c))
       else if cmd = kubectl [''delete'', ''node'', ''wk4''] then (Inr [], (False, b, c))
       else if cmd = show_live then (Inr (if c then ''k4 10.100.0.4/32'' else []), (a, b, c))
       else if cmd = wg_remove ''k4'' then (Inr [], (a, b, False))
       else (Inr [], (a, b, c))),
     ex_write = (\<lambda>p content (a, b, c). if p = wg_conf \<and> content = hub_without then (Inr (), (a, False, c)) else (Inl ''no'', (a, b, c)))\<rparr>"

definition toy_host :: "toy_cp cp_host" where
  "toy_host = \<lparr>ch_exec = toy_exec, ch_read = (\<lambda>p (a, b, c). (Inr (if b then hub_with else hub_without), (a, b, c))),
     ch_json = \<lparr>kj_nodes = (\<lambda>o'. Inr (if o' = [] then [] else [toy_item])), kj_pods = (\<lambda>_. Inr []), kj_databases = (\<lambda>_. Inr [])\<rparr>,
     ch_stamp = ''t'', ch_unified = (\<lambda>_ _ _. [])\<rparr>"

lemma kubectl_inj: "kubectl a = kubectl b \<longleftrightarrow> a = b"
proof
  assume "kubectl a = kubectl b"
  then have "sh_words (kubectl a) = sh_words (kubectl b)" by simp
  then show "a = b" by (simp add: kubectl_words)
qed simp

lemma kubectl_other: "kubectl a \<noteq> show_live" "kubectl a \<noteq> wg_remove k" "kubectl a \<noteq> backup ch"
  by (simp_all add: kubectl_def admin_env_def show_live_def wg_remove_def backup_def)

lemma wg_other: "wg_remove k \<noteq> show_live" "backup ch \<noteq> show_live" "backup ch \<noteq> wg_remove k"
  by (simp_all add: show_live_def wg_remove_def backup_def)

lemma wg_remove_inj: "wg_remove k = wg_remove k' \<longleftrightarrow> k = k'"
  by (simp add: wg_remove_def)

lemma toy_cp_run: "ch_exec toy_host = toy_exec"
  "ex_run toy_exec cmd (a, b, c) =
       (if cmd = kubectl [''get'', ''nodes'', ''-o'', ''json''] then (Inr (if a then ''one'' else []), (a, b, c))
       else if cmd = kubectl [''delete'', ''node'', ''wk4''] then (Inr [], (False, b, c))
       else if cmd = show_live then (Inr (if c then ''k4 10.100.0.4/32'' else []), (a, b, c))
       else if cmd = wg_remove ''k4'' then (Inr [], (a, b, False))
       else (Inr [], (a, b, c)))"
  by (simp_all add: toy_host_def toy_exec_def ex_run_def)

lemmas toy_cmds = kubectl_inj kubectl_other kubectl_other [THEN not_sym] wg_other wg_other [THEN not_sym] wg_remove_inj

lemma toy_runs:
  "ex_run toy_exec (kubectl [''get'', ''nodes'', ''-o'', ''json'']) w = (Inr (if fst w then ''one'' else []), w)"
  "ex_run toy_exec (kubectl (pods_query n)) w = (Inr [], w)"
  "ex_run toy_exec (kubectl (drain_args n t)) w = (Inr [], w)"
  "ex_run toy_exec (kubectl [''delete'', ''node'', n]) w = (Inr [], if n = ''wk4'' then (False, snd w) else w)"
  "ex_run toy_exec show_live w = (Inr (if snd (snd w) then ''k4 10.100.0.4/32'' else []), w)"
  "ex_run toy_exec (wg_remove k) w = (Inr [], if k = ''k4'' then (fst w, fst (snd w), False) else w)"
  "ex_run toy_exec (backup ch) w = (Inr [], w)"
  by (cases w, simp add: toy_cp_run toy_cmds pods_query_def drain_args_def)+

lemma toy_live: "live_keys ip [] = []" "live_keys ip ''k4 10.100.0.4/32'' = (if ip = ''10.100.0.4/32'' then [''k4''] else [])"
proof -
  have "split_on NL (trim_space ''k4 10.100.0.4/32'') = [''k4 10.100.0.4/32'']" "str_fields ''k4 10.100.0.4/32'' = [''k4'', ''10.100.0.4/32'']"
    "split_on NL (trim_space []) = [[]]" "str_fields [] = []"
    by code_simp+
  then show "live_keys ip [] = []" "live_keys ip ''k4 10.100.0.4/32'' = (if ip = ''10.100.0.4/32'' then [''k4''] else [])"
    by (simp_all add: live_keys_def live_line_def)
qed

lemma toy_reads: "reads_laws toy_host toy_cp_view"
  unfolding reads_laws_def kubectl_run_def toy_cp_run(1) toy_runs
  by (auto simp: toy_host_def toy_cp_view_def toy_live live_holders_def)

lemma toy_writes: "writes_laws toy_host toy_cp_view"
proof -
  have n: "nd_name (parse_node toy_item) = ''wk4''" by (simp add: parse_node_def toy_item_def)
  have w: "ex_write toy_exec wg_conf c w = (if c = hub_without then (Inr (), (fst w, False, snd (snd w))) else (Inl ''no'', w))" for c w
    by (cases w) (simp add: toy_exec_def)
  show ?thesis
    unfolding writes_laws_def kubectl_run_def toy_cp_run(1) toy_runs w
    by (auto simp: toy_cp_view_def drop_node_def n)
qed

definition toy_worker :: worker where
  "toy_worker = \<lparr>wk_name = ''wk4'', wk_private_ip = ''10.0.0.4'', wk_vpn_ip = ''10.100.0.4'', wk_server_type = [], wk_labels = []\<rparr>"

text \<open>The drain's five minutes, told to the evaluation.\<close>

lemma five_minutes [code]:
  "duration_string d = (if d = 300000000000 then ''5m0s'' else (if d < 0 then ''-'' else []) @ unsigned_duration (nat (abs d)))"
  by (simp add: duration_string_def unsigned_duration_def with_fraction_def frac_digits_def string_of_nat.simps char_of_def bit_0)


text \<open>Two peers with the same key: the one at the address is asked for, the first one goes.\<close>

definition twin_conf :: string where
  "twin_conf = ''[Peer]'' @ [NL] @ ''PublicKey = k'' @ [NL] @ ''AllowedIPs = 10.100.0.9/32'' @ [NL] @ [NL] @
     ''[Peer]'' @ [NL] @ ''PublicKey = k'' @ [NL] @ ''AllowedIPs = 10.100.0.4/32'' @ [NL]"

lemma twin_key_removes_other:
  "file_peer ''10.100.0.4/32'' twin_conf = Inr (Some \<lparr>pe_name = [], pe_public_key = ''k'', pe_allowed_ips = ''10.100.0.4/32''\<rparr>) \<and>
   map_sum id (map pe_allowed_ips \<circ> peers)
     (hub_edit \<lparr>hu_conf = twin_conf, hu_file = Some \<lparr>pe_name = [], pe_public_key = ''k'', pe_allowed_ips = ''10.100.0.4/32''\<rparr>, hu_live = None\<rparr>) =
     Inr [''10.100.0.4/32'']"
  by code_simp

end
