(* ===== verification/NodeOps.thy ===== *)
theory NodeOps
  imports Provision SshGate WorkerGone Alloc Env
begin

section \<open>cmd/node_add.go, node_remove.go, node_replace.go: one Worker comes, goes or is replaced\<close>

text \<open>
  The three commands over the components they call. \<open>node_app\<close> is the \<open>app\<close> of a run: the configuration, the environment,
  the mode, the Hetzner API, the pins and keys, and what is not modelled: git, opening a Terraform Module (\<open>na_open\<close>, which
  runs \<open>terraform init\<close>), and a login over SSH (\<open>na_login\<close> and \<open>na_dial_root\<close>, package remote). The Stages of a new Worker
  are values of the interface \<open>stage\<close> in the record \<open>worker_build\<close>.
\<close>

subsection \<open>The run\<close>

record ('w, 'k) node_app =
  na_cfg :: config
  na_env :: environment
  na_home :: "string + string"
  na_mode :: mode
  na_api :: "'w hcloud"
  na_kit :: "('w, 'k) boot_kit"
  na_hcl :: hcl
  na_git :: "'w \<Rightarrow> string \<Rightarrow> string list \<Rightarrow> string \<times> git_status"
  na_stat :: "path \<Rightarrow> ('w, string, unit) call"
  na_open :: "string \<Rightarrow> string \<Rightarrow> string list \<Rightarrow> ('w, string, 'w driver) call"
  na_login :: "string \<Rightarrow> string \<Rightarrow> bool \<Rightarrow> ('w, string, 'w cp_host) call"
  na_dial_root :: "string \<Rightarrow> int \<Rightarrow> ('w, string, 'w cp_host) call"
  na_unified :: "path \<Rightarrow> string \<Rightarrow> string \<Rightarrow> string"
  na_parse_key :: "string \<Rightarrow> string + 'k"

datatype node_error =
    NdError string
  | NdApi cloud_error
  | NdGate gate_error
  | NdStage stage_error
  | NdProv prov_error
  | NdPins pin_error
  | NdSet ws_error
  | NdCommit commit_error
  | NdAlloc string alloc_error
  | NdTold node_error string
  | NdJoin "node_error list"

datatype node_line =
    NdSay string
  | NdGateLine gate_line
  | NdStageLine stage_line
  | NdProvLine prov_line
  | NdCommitLine commit_line

type_synonym ('w, 'a) node_io = "('w, node_line, node_error, 'a) io"

definition nd_call :: "('w, string, 'a) call \<Rightarrow> ('w, 'a) node_io" where
  "nd_call f = io_map_err NdError (io_call f)"

definition nd_server :: "('w, 'k) node_app \<Rightarrow> string \<Rightarrow> ('w, server option) node_io" where
  "nd_server app name = io_map_err NdApi (io_call (cloud_server (na_api app) name))"

definition nd_stages :: "('w, stage_line, stage_error, 'a) io \<Rightarrow> ('w, 'a) node_io" where
  "nd_stages m = io_embed NdStageLine NdStage m"

definition nd_prov :: "('w, 'a) prov \<Rightarrow> ('w, 'a) node_io" where
  "nd_prov m = io_embed NdProvLine NdProv m"

definition nd_quiet :: "('e \<Rightarrow> node_error) \<Rightarrow> ('w, unit, 'e, 'a) io \<Rightarrow> ('w, 'a) node_io" where
  "nd_quiet g m = io_embed (\<lambda>_. NdSay []) g m"

text \<open>\<open>defer\<close> with the close's error joined to the function's.\<close>

definition io_defer :: "('w, 'a) node_io \<Rightarrow> ('w, unit) node_io \<Rightarrow> ('w, 'a) node_io" where
  "io_defer m c =
     (\<lambda>s. case m s of (r, s') \<Rightarrow>
        (case c s' of
           (Inr _, s'') \<Rightarrow> (r, s'')
         | (Inl ce, s'') \<Rightarrow> (Inl (NdJoin (case r of Inl e \<Rightarrow> [e, ce] | Inr _ \<Rightarrow> [ce])), s'')))"

definition app_live :: "('w, 'k) node_app \<Rightarrow> bool" where
  "app_live app = is_live (na_env app)"

definition cp_of :: "('w, 'k) node_app \<Rightarrow> control_plane" where
  "cp_of app = cf_control_plane (na_cfg app)"

definition worker_set_path :: "('w, 'k) node_app \<Rightarrow> string + string" where
  "worker_set_path app =
     conf_path (na_cfg app) (na_home app)
       (case cf_envs (na_cfg app) (ev_name (na_env app)) of None \<Rightarrow> [] | Some e \<Rightarrow> en_worker_set e)"

definition commit_gate :: "('w, 'k) node_app \<Rightarrow> path \<Rightarrow> ('w, unit) node_io" where
  "commit_gate app p = (\<lambda>(w, out). case check_committed (na_git app w) p of
       Inl e \<Rightarrow> (Inl (NdCommit e), w, out)
     | Inr ls \<Rightarrow> (Inr (), w, out @ map NdCommitLine ls))"

definition nd_load :: "('w, 'k) node_app \<Rightarrow> path \<Rightarrow> ('w, worker_set) node_io" where
  "nd_load app p = nd_quiet NdSet (load_set (bt_fs (na_kit app)) (na_hcl app) p)"

definition nd_remove_pin :: "('w, 'k) node_app \<Rightarrow> string \<Rightarrow> ('w, unit) node_io" where
  "nd_remove_pin app addr =
     nd_quiet NdPins (pins_remove (bt_fs (na_kit app)) (bt_lib (na_kit app)) (bt_pins (na_kit app)) addr)"

definition nd_has_pin :: "('w, 'k) node_app \<Rightarrow> string \<Rightarrow> ('w, bool) node_io" where
  "nd_has_pin app addr =
     nd_quiet NdPins (pins_has (bt_fs (na_kit app)) (bt_lib (na_kit app)) (bt_pins (na_kit app)) addr)"

text \<open>\<open>module\<close>: the commit gate stands before the workers Module. A run opens each Module once here; the code's cache is left out.\<close>

definition app_module :: "('w, 'k) node_app \<Rightarrow> string \<Rightarrow> ('w, 'w driver) node_io" where
  "app_module app name =
     io_bind (io_map_err NdError (io_result (module_dir (na_cfg app) name))) (\<lambda>dir.
       if name = module_workers
       then io_bind (io_map_err NdError (io_result (worker_set_path app))) (\<lambda>p.
            io_bind (commit_gate app p) (\<lambda>_. nd_call (na_open app name dir [p])))
       else nd_call (na_open app name dir []))"

definition driver_planner :: "'w driver \<Rightarrow> 'w planner" where
  "driver_planner m = \<lparr>pl_plan = (\<lambda>vars. dr_plan m (Vars vars)), pl_apply = dr_apply m\<rparr>"

definition app_gate :: "('w, 'k) node_app \<Rightarrow> ('w, 'w gate) node_io" where
  "app_gate app = io_bind (app_module app module_shared) (\<lambda>m.
     io_return (hetzner_gate (na_api app) (driver_planner m) (na_mode app)))"

text \<open>\<open>warnOpenSSH\<close> makes its gate from the API alone.\<close>

definition warn_open_ssh :: "('w, 'k) node_app \<Rightarrow> ('w, unit) node_io" where
  "warn_open_ssh app =
     io_embed NdGateLine NdGate (warn_open (hetzner_gate (na_api app)
       \<lparr>pl_plan = (\<lambda>_ w. (Inl (TerraformFailed []), w)), pl_apply = (\<lambda>_ w. (Inl (TerraformFailed []), w))\<rparr> (na_mode app)))"

subsection \<open>Reaching the Control Plane\<close>

type_synonym 'w cp = "(host \<times> 'w cp_host) option"

text \<open>\<open>dialControlPlane\<close>; closing the session is left out.\<close>

definition dial_at :: "('w, 'k) node_app \<Rightarrow> string \<Rightarrow> string \<Rightarrow> bool \<Rightarrow> ('w, 'w cp) node_io" where
  "dial_at app addr user sudo =
     io_bind (nd_has_pin app addr) (\<lambda>pinned'.
       if \<not> pinned'
       then io_fail (NdError (''no pin for '' @ cp_name (cp_of app) @ '' at '' @ addr @ '': kluster trusts only its pins''))
       else io_bind (io_map_err (\<lambda>e. NdTold e (''login to '' @ cp_name (cp_of app))) (nd_call (na_login app addr user sudo))) (\<lambda>ch.
         io_bind (io_say (NdSay (''['' @ cp_name (cp_of app) @ ''] login as '' @ user @ '' at '' @ addr @ '' verified against the pinned host key''))) (\<lambda>_.
           io_return (Some (\<lparr>h_name = cp_name (cp_of app), h_addr = addr, h_connected = True\<rparr>, ch)))))"

definition dial_control_plane :: "('w, 'k) node_app \<Rightarrow> ('w, 'w cp) node_io" where
  "dial_control_plane app =
     (if app_live app then dial_at app (cp_vpn_ip (cp_of app)) (cp_ssh_user (cp_of app)) True
      else io_bind (nd_server app (cp_name (cp_of app))) (\<lambda>srv.
        case srv of
          None \<Rightarrow> io_fail (NdError (''the project has no '' @ cp_name (cp_of app) @ '': run kluster cp init first''))
        | Some s \<Rightarrow> dial_at app (sv_public_ip s) ''root'' False))"

definition reach_control_plane :: "('w, 'k) node_app \<Rightarrow> ('w, 'w cp) node_io" where
  "reach_control_plane app =
     (if \<not> m_apply (na_mode app) \<and> \<not> app_live app
      then io_bind (io_map_err NdApi (io_call (cloud_ssh_open (na_api app) (gf_name control_plane_fw)))) (\<lambda>is_open.
        if \<not> is_open
        then io_bind (io_say (NdSay (''Plan Mode: bootstrap SSH on '' @ gf_name control_plane_fw @ '' stays closed, so the Control Plane is not read''))) (\<lambda>_.
          io_return None)
        else dial_control_plane app)
      else dial_control_plane app)"

definition gated :: "('w, 'k) node_app \<Rightarrow> gate_fw list \<Rightarrow> ('w, 'a) node_io \<Rightarrow> ('w, 'a) node_io" where
  "gated app fws fn =
     io_bind (app_gate app) (\<lambda>g.
       io_defer (io_bind (io_embed NdGateLine NdGate (open_ssh g fws)) (\<lambda>_. fn)) (io_embed NdGateLine NdGate (close_ssh g)))"

definition with_bootstrap_ssh :: "('w, 'k) node_app \<Rightarrow> ('w, 'a) node_io \<Rightarrow> ('w, 'a) node_io" where
  "with_bootstrap_ssh app fn = gated app (worker_fw # (if app_live app then [] else [control_plane_fw])) fn"

definition on_control_plane :: "('w, 'k) node_app \<Rightarrow> ('w cp \<Rightarrow> ('w, 'a) node_io) \<Rightarrow> ('w, 'a) node_io" where
  "on_control_plane app fn =
     (let body = io_bind (reach_control_plane app) fn in
      if app_live app then body else gated app [control_plane_fw] body)"

subsection \<open>Checks\<close>

definition check_worker_name :: "string \<Rightarrow> string \<Rightarrow> node_error + unit" where
  "check_worker_name name cp =
     (if \<not> dns_label name
      then Inl (NdError (go_quote name @ '' is not a DNS label (lower-case letters, digits and -, at most 63)''))
      else if name = cp then Inl (NdError (name @ '' is the Control Plane'')) else Inr ())"

definition int_text :: "int \<Rightarrow> string" where
  "int_text i = (if i < 0 then ''-'' else []) @ string_of_nat (nat (abs i))"

definition db_line :: "database \<Rightarrow> string" where
  "db_line d = dt_namespace d @ ''/'' @ dt_name d @ '' '' @ int_text (dt_ready d) @ ''/'' @ int_text (dt_instances d) @ '' ready''"

definition database_gate :: "database list \<Rightarrow> string + string" where
  "database_gate dbs =
     (if dbs = [] then Inr ''no CNPG Cluster in the cluster: passes, nothing to wait for''
      else (let bad = map (\<lambda>d. db_line d @ '' ('' @ dt_phase d @ '')'') (filter (\<lambda>d. \<not> db_healthy d) dbs) in
        if bad \<noteq> []
        then Inl (''database gate: '' @ join_str '', '' bad @ '': a Worker leaves only while every CNPG instance is ready'')
        else Inr (join_str '', '' (map db_line (filter db_healthy dbs)))))"

text \<open>The loop of \<open>notLastReadyWorker\<close>; the second argument is \<open>serving\<close>.\<close>

fun last_ready_from :: "string \<Rightarrow> bool \<Rightarrow> node list \<Rightarrow> bool" where
  "last_ready_from name serving [] = serving"
| "last_ready_from name serving (n # ns) =
     (if nd_control_plane n \<or> \<not> nd_ready n then last_ready_from name serving ns
      else if nd_name n \<noteq> name then False
      else last_ready_from name True ns)"

definition not_last_ready_worker :: "node list \<Rightarrow> string \<Rightarrow> string + unit" where
  "not_last_ready_worker ns name =
     (if last_ready_from name False ns
      then Inl (name @ '' is the only Ready Worker: taking it out leaves the cluster with none; node add another first'')
      else Inr ())"

definition check_retirable :: "('w, 'k) node_app \<Rightarrow> 'w cp \<Rightarrow> string \<Rightarrow> ('w, unit) node_io" where
  "check_retirable app cp name =
     (case cp of
        None \<Rightarrow> io_say (NdSay (''Plan Mode: the database gate and the last-Worker check are not run; --apply runs them before '' @ name @ '' leaves''))
      | Some (h, ch) \<Rightarrow>
          io_bind (io_map_err NdError (databases (ch_exec ch) (ch_json ch))) (\<lambda>dbs.
          io_bind (io_map_err NdError (io_result (database_gate dbs))) (\<lambda>msg.
          io_bind (io_say (NdSay (''database gate: '' @ msg))) (\<lambda>_.
          io_bind (io_map_err NdError (nodes (ch_exec ch) (ch_json ch))) (\<lambda>ns.
            io_map_err NdError (io_result (not_last_ready_worker ns name)))))))"

definition node_absent :: "string \<Rightarrow> node list \<Rightarrow> string \<Rightarrow> string + unit" where
  "node_absent what ns name = (if list_ex (\<lambda>n. nd_name n = name) ns then Inl (''a Node '' @ name @ what) else Inr ())"

definition check_no_node :: "'w cp \<Rightarrow> string \<Rightarrow> ('w, unit) node_io" where
  "check_no_node cp name =
     (case cp of
        None \<Rightarrow> io_say (NdSay (''Plan Mode: not checked that no Node '' @ name @ '' exists; --apply checks it before creating''))
      | Some (h, ch) \<Rightarrow> io_bind (io_map_err NdError (nodes (ch_exec ch) (ch_json ch))) (\<lambda>ns.
          io_map_err NdError (io_result (node_absent '' exists with no server behind it: node replace deletes it'' ns name))))"

definition check_node_gone :: "'w cp \<Rightarrow> string \<Rightarrow> ('w, unit) node_io" where
  "check_node_gone cp name =
     (case cp of
        None \<Rightarrow> io_say (NdSay (''Plan Mode: not checked that no Node '' @ name @ '' exists; --apply checks it before deleting''))
      | Some (h, ch) \<Rightarrow> io_bind (io_map_err NdError (nodes (ch_exec ch) (ch_json ch))) (\<lambda>ns.
          io_map_err NdError (io_result (node_absent '' exists: run 1 did not finish, or its kubelet registered it again'' ns name))))"

definition server_problems :: "server \<Rightarrow> worker \<Rightarrow> string list" where
  "server_problems s wk =
     (if \<not> running s then [''status '' @ sv_status s @ '', want running''] else []) @
     (if sv_private_ips s \<noteq> [wk_private_ip wk]
      then [''private addresses ['' @ join_str '' '' (sv_private_ips s) @ ''], want ['' @ wk_private_ip wk @ '']''] else []) @
     (if sv_private_mac s = [] then [''no MAC on the private network''] else []) @
     (if sv_public_ip s = [] then [''no public IPv4''] else [])"

definition check_new_worker :: "server \<Rightarrow> worker \<Rightarrow> node_error + unit" where
  "check_new_worker s wk =
     (if server_problems s wk \<noteq> [] then Inl (NdError (sv_name s @ '' read back over the API: '' @ join_str [NL] (server_problems s wk)))
      else Inr ())"

subsection \<open>Addresses kluster.yaml keeps\<close>

fun peer_addrs :: "conf_peer list \<Rightarrow> string + addr list" where
  "peer_addrs [] = Inr []"
| "peer_addrs (q # qs) =
     (case parse_prefix (conf_peer.pe_allowed_ips q) of None \<Rightarrow> Inl (''wireguard peer '' @ conf_peer.pe_name q @ '': bad prefix'')
      | Some p \<Rightarrow>
          if pf_bits p \<noteq> bit_len (pf_addr p)
          then Inl (''wireguard peer '' @ conf_peer.pe_name q @ '' holds '' @ conf_peer.pe_allowed_ips q @ '', not one address'')
          else result_bind (peer_addrs qs) (\<lambda>as. Inr (pf_addr p # as)))"

definition parse_or :: "string \<Rightarrow> string + addr" where
  "parse_or s = (case parse_addr s of None \<Rightarrow> Inl (''ParseAddr('' @ go_quote s @ '')'') | Some a \<Rightarrow> Inr a)"

definition reserved_vpn :: "config \<Rightarrow> string + addr list" where
  "reserved_vpn c =
     result_bind (parse_or (cp_vpn_ip (cf_control_plane c))) (\<lambda>hub.
     result_bind (parse_or (wg_probe_ip (cf_wireguard c))) (\<lambda>probe.
     result_bind (peer_addrs (wg_peers (cf_wireguard c))) (\<lambda>as. Inr (hub # probe # as))))"

definition not_reserved_vpn :: "config \<Rightarrow> string \<Rightarrow> string + unit" where
  "not_reserved_vpn c vpn_ip =
     result_bind (parse_or vpn_ip) (\<lambda>ip.
     result_bind (reserved_vpn c) (\<lambda>reserved.
       if ip \<in> set reserved
       then Inl (''the Worker set gives '' @ vpn_ip @ '', which kluster.yaml reserves for the hub, the probe or an operator peer: node remove refuses'')
       else Inr ()))"

definition next_entry :: "config \<Rightarrow> worker_set \<Rightarrow> string \<Rightarrow> string \<Rightarrow> node_error + worker" where
  "next_entry c set' name st =
     result_bind (map_error (NdAlloc ''workers.privateIPs: '') (parse_pool (wc_private_ips (cf_workers c)))) (\<lambda>private.
     result_bind (map_error (NdAlloc ''workers.vpnIPs: '') (parse_pool (wc_vpn_ips (cf_workers c)))) (\<lambda>vpn.
     result_bind (map_error NdError (reserved_vpn c)) (\<lambda>reserved.
       map_error (NdAlloc []) (next_worker set' name st private vpn reserved))))"

subsection \<open>Writing the Worker set\<close>

definition write_set :: "('w, 'k) node_app \<Rightarrow> path \<Rightarrow> string \<Rightarrow> (worker_set \<Rightarrow> bool) \<Rightarrow> ('w, unit) node_io" where
  "write_set app p updated ok =
     io_bind (nd_call (na_stat app p)) (\<lambda>_.
     io_bind (nd_call (fs_write (bt_fs (na_kit app)) p updated)) (\<lambda>_.
     io_bind (nd_load app p) (\<lambda>back'.
       if \<not> ok back' then io_fail (NdError (''read back: '' @ p @ '' is not the edit kluster wrote'')) else io_return ())))"

definition server_type :: "config \<Rightarrow> string \<Rightarrow> string" where
  "server_type c flag = (if flag \<noteq> [] then flag else wc_server_type (cf_workers c))"

definition check_declared_type :: "worker \<Rightarrow> string \<Rightarrow> path \<Rightarrow> node_error + unit" where
  "check_declared_type wk flag p =
     (if flag \<noteq> [] \<and> flag \<noteq> wk_server_type wk
      then Inl (NdError (p @ '' declares '' @ wk_name wk @ '' as '' @ wk_server_type wk @ '', not '' @ flag @
        '': --server-type only fills a new entry; edit the set (node replace builds the server again)''))
      else Inr ())"

definition check_type :: "('w, 'k) node_app \<Rightarrow> string \<Rightarrow> ('w, unit) node_io" where
  "check_type app st =
     io_bind (nd_server app (cp_name (cp_of app))) (\<lambda>cp.
       if cp = None \<or> sv_location (the cp) = []
       then io_say (NdSay (''not checked that '' @ st @ '' can be had: the project has no '' @ cp_name (cp_of app) @ '' to take the location from''))
       else io_bind (io_map_err (\<lambda>e. NdTold (NdApi e) ''node add declares no Worker it cannot create'')
              (io_call (check_server_type (na_api app) st (sv_location (the cp))))) (\<lambda>_.
            io_say (NdSay (''read back: server type '' @ st @ '' is available in '' @ sv_location (the cp)))))"

text \<open>What is said and shown of an edit before it is written.\<close>

definition declare_worker :: "('w, 'k) node_app \<Rightarrow> worker_set \<Rightarrow> string \<Rightarrow> string \<Rightarrow> ('w, unit) node_io" where
  "declare_worker app set' name st =
     io_bind (commit_gate app (ws_path set')) (\<lambda>_.
     io_bind (check_type app st) (\<lambda>_.
     io_bind (io_result (next_entry (na_cfg app) set' name st)) (\<lambda>wk.
     io_bind (io_map_err NdSet (io_result (with_worker (na_hcl app) set' wk))) (\<lambda>updated.
     io_bind (io_say (NdSay (ws_path set' @ '' declares no worker '' @ name @ '': its entry comes first - private '' @
       wk_private_ip wk @ '', VPN '' @ wk_vpn_ip wk @ '', '' @ wk_server_type wk))) (\<lambda>_.
     io_bind (io_say (NdSay (na_unified app (ws_path set') (ws_src set') updated))) (\<lambda>_.
       if \<not> m_apply (na_mode app) then io_say (NdSay ''Plan Mode: --apply writes the entry'')
       else io_bind (io_map_err (\<lambda>e. NdTold e (''it does not hold the entry written for '' @ name))
              (write_set app (ws_path set') updated (\<lambda>back'. case get_worker back' name of None \<Rightarrow> False
                 | Some got \<Rightarrow> worker_equal got wk))) (\<lambda>_.
            io_bind (io_say (NdSay (''read back: '' @ ws_path set' @ '' declares '' @ name))) (\<lambda>_.
              io_say (NdSay (''commit '' @ ws_path set' @ '', then run kluster node add '' @ name @
                '' again: kluster runs no Terraform on an uncommitted Worker set''))))))))))"

subsection \<open>node remove\<close>

text \<open>A Control Plane that was not reached: its Stages are only previewed.\<close>

definition unreached :: "('w, 'k) node_app \<Rightarrow> 'w cp_host" where
  "unreached app = \<lparr>ch_exec = \<lparr>ex_exec = (\<lambda>_ w. (Inl ([], ''not connected''), w)), ex_write = (\<lambda>_ _ w. (Inl ''not connected'', w))\<rparr>,
     ch_read = (\<lambda>_ w. (Inl ''not connected'', w)),
     ch_json = \<lparr>kj_nodes = (\<lambda>_. Inl []), kj_pods = (\<lambda>_. Inl []), kj_databases = (\<lambda>_. Inl [])\<rparr>,
     ch_stamp = [], ch_unified = na_unified app\<rparr>"

definition retire :: "('w, 'k) node_app \<Rightarrow> 'w cp \<Rightarrow> worker \<Rightarrow> ('w, unit) node_io" where
  "retire app cp wk =
     io_bind (check_retirable app cp (wk_name wk)) (\<lambda>_.
       case cp of
         None \<Rightarrow> nd_stages (plan_new (retire_stages (unreached app) wk) (cp_name (cp_of app)))
       | Some (h, ch) \<Rightarrow> nd_stages (run_stages (m_apply (na_mode app)) h (retire_stages ch wk)))"

definition retire_on_control_plane :: "('w, 'k) node_app \<Rightarrow> worker \<Rightarrow> ('w, unit) node_io" where
  "retire_on_control_plane app wk =
     io_bind (nd_server app (cp_name (cp_of app))) (\<lambda>srv.
       if srv = None
       then io_say (NdSay (''the project has no '' @ cp_name (cp_of app) @ '': no Node and no hub peer of '' @ wk_name wk @ '' to remove''))
       else on_control_plane app (\<lambda>cp. retire app cp wk))"

definition retire_worker :: "('w, 'k) node_app \<Rightarrow> worker_set \<Rightarrow> worker \<Rightarrow> ('w, unit) node_io" where
  "retire_worker app set' wk =
     io_bind (commit_gate app (ws_path set')) (\<lambda>_.
     io_bind (io_map_err NdError (io_result (not_reserved_vpn (na_cfg app) (wk_vpn_ip wk)))) (\<lambda>_.
     io_bind (io_map_err NdSet (io_result (without_worker (na_hcl app) set' (wk_name wk)))) (\<lambda>updated.
     io_bind (io_say (NdSay (ws_path set' @ '' declares '' @ wk_name wk @ '' (private '' @ wk_private_ip wk @ '', VPN '' @
       wk_vpn_ip wk @ ''): run 1 of 2 takes it out of the cluster, the hub and the set''))) (\<lambda>_.
     io_bind (retire_on_control_plane app wk) (\<lambda>_.
     io_bind (if m_apply (na_mode app)
       then io_bind (nd_remove_pin app (wk_vpn_ip wk)) (\<lambda>_.
         io_say (NdSay (''dropped the pin at '' @ wk_name wk @ [CHR 0x27] @ ''s VPN address '' @ wk_vpn_ip wk)))
       else io_say (NdSay (''then: drop the pin at '' @ wk_name wk @ [CHR 0x27] @ ''s VPN address '' @ wk_vpn_ip wk))) (\<lambda>_.
     io_bind (io_say (NdSay (na_unified app (ws_path set') (ws_src set') updated))) (\<lambda>_.
       if \<not> m_apply (na_mode app) then io_say (NdSay ''Plan Mode: --apply runs the Stages above and removes the entry'')
       else io_bind (io_map_err (\<lambda>e. NdTold e (''it still declares '' @ wk_name wk))
              (write_set app (ws_path set') updated (\<lambda>back'. get_worker back' (wk_name wk) = None))) (\<lambda>_.
            io_bind (io_say (NdSay (''read back: '' @ ws_path set' @ '' no longer declares '' @ wk_name wk))) (\<lambda>_.
              io_say (NdSay (''commit '' @ ws_path set' @ '', then run kluster node remove '' @ wk_name wk @
                '' again: it deletes the server'')))))))))))"

definition delete_intent :: "string \<Rightarrow> intent" where
  "delete_intent name = \<lparr>in_description = ''delete Worker '' @ name,
     in_expectations = [\<lparr>ex_address = worker_address name, ex_actions = [Delete], ex_required = True\<rparr>]\<rparr>"

text \<open>After the plan has been decided on: the read-back and the pin.\<close>

definition deleted :: "('w, 'k) node_app \<Rightarrow> string \<Rightarrow> server \<Rightarrow> bool \<Rightarrow> ('w, unit) node_io" where
  "deleted app name srv applied =
     (if \<not> m_apply (na_mode app)
      then io_say (NdSay (''Plan Mode: --apply deletes '' @ name @ '', reads back that it is gone and drops the pin at '' @ sv_public_ip srv))
      else if \<not> applied then io_fail (NdError (''terraform deleted nothing: the workers state does not hold '' @ name))
      else io_bind (nd_server app name) (\<lambda>gone.
        case gone of
          Some g \<Rightarrow> io_fail (NdError (''terraform deleted '' @ name @ '', but the API still has it (id '' @ sv_id g @ '', '' @ sv_status g @ '')''))
        | None \<Rightarrow>
            io_bind (io_say (NdSay (''read back: the project has no server '' @ name))) (\<lambda>_.
            io_bind (nd_remove_pin app (sv_public_ip srv)) (\<lambda>_.
              io_say (NdSay (''dropped the pin at '' @ sv_public_ip srv))))))"

definition delete_worker_server :: "('w, 'k) node_app \<Rightarrow> string \<Rightarrow> server \<Rightarrow> ('w, unit) node_io" where
  "delete_worker_server app name srv =
     io_bind (app_module app module_workers) (\<lambda>workers.
     io_bind (io_say (NdSay (''the Worker set declares no '' @ name @ '', but its server exists at '' @ sv_public_ip srv @ '': run 2 of 2 deletes it''))) (\<lambda>_.
     io_bind (nd_server app (cp_name (cp_of app))) (\<lambda>cp_srv.
     io_bind (if cp_srv = None then io_return () else on_control_plane app (\<lambda>cp. check_node_gone cp name)) (\<lambda>_.
     io_bind (nd_prov (prov_call (dr_plan workers NoVars))) (\<lambda>p.
     io_bind (nd_prov (io_embed PvTfLine PvTf (decide (dr_apply workers) p (delete_intent name) (na_mode app)))) (\<lambda>applied.
       deleted app name srv applied))))))"

definition node_remove :: "('w, 'k) node_app \<Rightarrow> string \<Rightarrow> ('w, unit) node_io" where
  "node_remove app name =
     io_bind (warn_open_ssh app) (\<lambda>_.
     io_bind (io_result (check_worker_name name (cp_name (cp_of app)))) (\<lambda>_.
     io_bind (io_map_err NdError (io_result (worker_set_path app))) (\<lambda>p.
     io_bind (nd_load app p) (\<lambda>set'.
     io_bind (nd_server app name) (\<lambda>srv.
       case get_worker set' name of
         Some wk \<Rightarrow> retire_worker app set' wk
       | None \<Rightarrow> (case srv of
           Some s \<Rightarrow> delete_worker_server app name s
         | None \<Rightarrow> io_say (NdSay (p @ '' declares no worker '' @ name @ '' and the project has no server '' @ name @ '': nothing to remove''))))))))"

subsection \<open>Building a new Worker\<close>

text \<open>The Stages of a new Worker, as the code makes them from its \<open>workerHost\<close>; each is a value of the interface \<open>stage\<close>.\<close>

record worker_host =
  wh_worker :: worker
  wh_server :: server
  wh_cp_server :: server
  wh_hub_key :: string
  wh_worker_key :: string
  wh_subnet_bits :: nat

record 'w worker_build =
  wb_rotate :: "'w cp_host \<Rightarrow> 'w stage"
  wb_pre_join :: "'w cp_host \<Rightarrow> worker_host \<Rightarrow> 'w stage list"
  wb_hub_peer :: "'w cp_host \<Rightarrow> worker_host \<Rightarrow> 'w stage"
  wb_join :: "'w cp_host \<Rightarrow> 'w cp_host \<Rightarrow> 'w stage"
  wb_ready :: "'w cp_host \<Rightarrow> worker_host \<Rightarrow> 'w stage"

definition worker_host_of :: "config \<Rightarrow> worker \<Rightarrow> server \<Rightarrow> server \<Rightarrow> node_error + worker_host" where
  "worker_host_of c wk srv cp_srv =
     (case parse_prefix (wg_subnet (cf_wireguard c)) of None \<Rightarrow> Inl (NdError ''wireguard.subnet: bad prefix'')
      | Some p \<Rightarrow> Inr \<lparr>wh_worker = wk, wh_server = srv, wh_cp_server = cp_srv, wh_hub_key = [], wh_worker_key = [],
          wh_subnet_bits = pf_bits p\<rparr>)"

text \<open>\<open>WireGuardPublicKey\<close> and \<open>pinVPNAddress\<close>.\<close>

definition wireguard_key :: "'w cp_host \<Rightarrow> ('w, string) node_io" where
  "wireguard_key ch = io_bind (nd_call (ex_run (ch_exec ch) ''wg show wg0 public-key'')) (\<lambda>out'. io_return (trim_space out'))"

definition pin_vpn_address :: "('w, 'k) node_app \<Rightarrow> string \<Rightarrow> 'w cp_host \<Rightarrow> string \<Rightarrow> ('w, unit) node_io" where
  "pin_vpn_address app name ch vpn_ip =
     io_bind (nd_call (ex_run (ch_exec ch) ''cat /etc/ssh/ssh_host_ed25519_key.pub'')) (\<lambda>out'.
     io_bind (io_map_err NdError (io_result (na_parse_key app (trim_space out')))) (\<lambda>key.
     io_bind (nd_quiet NdPins (pins_set (bt_fs (na_kit app)) (bt_lib (na_kit app)) (bt_pins (na_kit app)) vpn_ip [key])) (\<lambda>_.
       io_say (NdSay (''['' @ name @ ''] pinned its host key at its VPN address '' @ vpn_ip)))))"

definition minutes :: "int \<Rightarrow> int" where "minutes n = n * 60 * 1000000000"

text \<open>\<open>buildWorker\<close>: the sessions' closes are left out.\<close>

definition build_worker ::
  "('w, 'k) node_app \<Rightarrow> 'w worker_build \<Rightarrow> worker \<Rightarrow> server \<Rightarrow> server \<Rightarrow> 'w cp \<Rightarrow> ('w, unit) node_io" where
  "build_worker app wb wk srv cp_srv cp =
     (let wh = \<lparr>h_name = wk_name wk, h_addr = sv_public_ip srv, h_connected = True\<rparr>; (cph, cpx) = the cp in
     io_bind (io_map_err (\<lambda>e. NdTold e (''first login to '' @ wk_name wk)) (nd_call (na_dial_root app (sv_public_ip srv) (minutes 5)))) (\<lambda>c.
     io_bind (io_say (NdSay (''['' @ wk_name wk @ ''] login as root verified against the pinned host key''))) (\<lambda>_.
     io_bind (nd_stages (run_stages True wh [wb_rotate wb c])) (\<lambda>_.
     io_bind (io_map_err (\<lambda>e. NdTold e ''login after the host key rotation'') (nd_call (na_dial_root app (sv_public_ip srv) (minutes 1)))) (\<lambda>c2.
     io_bind (io_result (worker_host_of (na_cfg app) wk srv cp_srv)) (\<lambda>h0.
     io_bind (wireguard_key cpx) (\<lambda>hub_key.
     io_bind (nd_stages (run_stages True wh (wb_pre_join wb c2 (h0\<lparr>wh_hub_key := hub_key\<rparr>)))) (\<lambda>_.
     io_bind (wireguard_key c2) (\<lambda>worker_key.
     (let h = h0\<lparr>wh_hub_key := hub_key, wh_worker_key := worker_key\<rparr> in
     io_bind (nd_stages (run_stages True cph [wb_hub_peer wb cpx h])) (\<lambda>_.
     io_bind (pin_vpn_address app (wk_name wk) c2 (wk_vpn_ip wk)) (\<lambda>_.
     io_bind (nd_stages (run_stages True wh [wb_join wb c2 cpx])) (\<lambda>_.
       nd_stages (run_stages True cph [wb_ready wb cpx h]))))))))))))))"

text \<open>\<open>planNewWorker\<close>: the previews, with what is not known yet in angle brackets.\<close>

definition new_server :: server where
  "new_server = \<lparr>sv_id = ''<new>'', sv_name = [], sv_status = [], sv_public_ip = [], sv_private_ips = [],
     sv_private_mac = ''<MAC>'', sv_location = [], sv_delete_protected = False, sv_rebuild_protected = False, sv_created = 0\<rparr>"

definition plan_new_worker ::
  "('w, 'k) node_app \<Rightarrow> 'w worker_build \<Rightarrow> worker \<Rightarrow> server \<Rightarrow> 'w cp \<Rightarrow> ('w, unit) node_io" where
  "plan_new_worker app wb wk cp_srv cp =
     io_bind (io_result (worker_host_of (na_cfg app) wk new_server cp_srv)) (\<lambda>h0.
     io_bind (case cp of None \<Rightarrow> io_return ''<hub public key>'' | Some (_, ch) \<Rightarrow> wireguard_key ch) (\<lambda>hub_key.
     (let h = h0\<lparr>wh_hub_key := hub_key, wh_worker_key := ''<worker public key>''\<rparr>; no = unreached app in
     io_bind (nd_stages (plan_new (wb_rotate wb no # wb_pre_join wb no h) (wk_name wk))) (\<lambda>_.
     io_bind (nd_stages (plan_new [wb_hub_peer wb no h] (cp_name (cp_of app)))) (\<lambda>_.
     io_bind (io_say (NdSay (''then: pin the host key of '' @ wk_name wk @ '' at its VPN address '' @ wk_vpn_ip wk))) (\<lambda>_.
     io_bind (nd_stages (plan_new [wb_join wb no no] (wk_name wk))) (\<lambda>_.
       nd_stages (plan_new [wb_ready wb no h] (cp_name (cp_of app))))))))))"

subsection \<open>node add\<close>

definition create_and_build ::
  "('w, 'k) node_app \<Rightarrow> 'w worker_build \<Rightarrow> 'w driver \<Rightarrow> worker \<Rightarrow> server option \<Rightarrow> server \<Rightarrow> 'w cp \<Rightarrow> ('w, unit) node_io" where
  "create_and_build app wb workers wk srv cp_srv cp =
     (let build = (\<lambda>s. io_bind (io_result (check_new_worker s wk)) (\<lambda>_.
          io_bind (io_say (NdSay (''read back: '' @ sv_name s @ '' id '' @ sv_id s))) (\<lambda>_. build_worker app wb wk s cp_srv cp))) in
      case srv of
        Some s \<Rightarrow> build s
      | None \<Rightarrow>
          io_bind (check_no_node cp (wk_name wk)) (\<lambda>_.
          io_bind (nd_prov (create_workers (na_kit app) workers (Some [wk_name wk]) (na_mode app))) (\<lambda>created.
            if created = [] then plan_new_worker app wb wk cp_srv cp
            else io_bind (nd_server app (wk_name wk)) (\<lambda>srv'.
              case srv' of
                None \<Rightarrow> io_fail (NdError (''terraform created '' @ wk_name wk @ '', but the API has no such server''))
              | Some s \<Rightarrow> build s))))"

definition unknown_control_plane :: "('w, 'k) node_app \<Rightarrow> server" where
  "unknown_control_plane app = new_server\<lparr>sv_name := cp_name (cp_of app), sv_private_mac := [],
     sv_public_ip := ''<'' @ cp_name (cp_of app) @ '' public IP>''\<rparr>"

definition plan_without_control_plane ::
  "('w, 'k) node_app \<Rightarrow> 'w worker_build \<Rightarrow> 'w driver \<Rightarrow> worker \<Rightarrow> server option \<Rightarrow> ('w, unit) node_io" where
  "plan_without_control_plane app wb workers wk srv =
     io_bind (io_say (NdSay (''Plan Mode: the project has no '' @ cp_name (cp_of app) @ ''; kluster cp init builds it first''))) (\<lambda>_.
       if srv \<noteq> None then io_return ()
       else io_bind (nd_prov (create_workers (na_kit app) workers (Some [wk_name wk]) (na_mode app))) (\<lambda>_.
         plan_new_worker app wb wk (unknown_control_plane app) None))"

text \<open>What a server that exists must be: one kluster created, because only those are pinned.\<close>

definition check_ours :: "('w, 'k) node_app \<Rightarrow> string \<Rightarrow> server option \<Rightarrow> ('w, unit) node_io" where
  "check_ours app name srv =
     (case srv of None \<Rightarrow> io_return ()
      | Some s \<Rightarrow> io_bind (nd_has_pin app (sv_public_ip s)) (\<lambda>ours.
          if \<not> ours
          then io_fail (NdError (name @ '' exists at '' @ sv_public_ip s @ '' and kluster did not create it: node add refuses; node replace builds it again''))
          else io_say (NdSay (name @ '' exists at '' @ sv_public_ip s @ '' and kluster created it: resuming its build''))))"

definition add_declared ::
  "('w, 'k) node_app \<Rightarrow> 'w worker_build \<Rightarrow> worker \<Rightarrow> server option \<Rightarrow> ('w, unit) node_io" where
  "add_declared app wb wk srv =
     io_bind (app_module app module_workers) (\<lambda>workers.
     io_bind (nd_server app (cp_name (cp_of app))) (\<lambda>cp_srv.
       case cp_srv of
         None \<Rightarrow>
           (if m_apply (na_mode app) then io_fail (NdError (''the project has no '' @ cp_name (cp_of app) @ '': run kluster cp init first''))
            else plan_without_control_plane app wb workers wk srv)
       | Some cps \<Rightarrow>
           io_bind (check_ours app (wk_name wk) srv) (\<lambda>_.
             with_bootstrap_ssh app
               (if srv \<noteq> None \<and> \<not> m_apply (na_mode app)
                then io_say (NdSay ''Plan Mode: --apply opens SSH, logs in and runs every Stage whose Probe says it is not done'')
                else io_bind (reach_control_plane app) (\<lambda>cp. create_and_build app wb workers wk srv cps cp)))))"

definition node_add :: "('w, 'k) node_app \<Rightarrow> 'w worker_build \<Rightarrow> string \<Rightarrow> string \<Rightarrow> ('w, unit) node_io" where
  "node_add app wb name flag =
     io_bind (warn_open_ssh app) (\<lambda>_.
     io_bind (io_result (check_worker_name name (cp_name (cp_of app)))) (\<lambda>_.
     io_bind (io_map_err NdError (io_result (worker_set_path app))) (\<lambda>p.
     io_bind (nd_load app p) (\<lambda>set'.
     io_bind (nd_server app name) (\<lambda>srv.
       case get_worker set' name of
         None \<Rightarrow> (case srv of
             Some s \<Rightarrow> io_fail (NdError (''a server '' @ name @ '' exists at '' @ sv_public_ip s @ '' but '' @ p @
               '' does not declare it: Terraform would refuse the duplicate name, so node add refuses''))
           | None \<Rightarrow> declare_worker app set' name (server_type (na_cfg app) flag))
       | Some wk \<Rightarrow>
           io_bind (io_result (check_declared_type wk flag p)) (\<lambda>_. add_declared app wb wk srv))))))"

subsection \<open>node replace\<close>

fun drop_pins :: "('w, 'k) node_app \<Rightarrow> string \<Rightarrow> string list \<Rightarrow> ('w, unit) node_io" where
  "drop_pins app name [] = io_return ()"
| "drop_pins app name (a # as) =
     io_bind (if \<not> m_apply (na_mode app) then io_say (NdSay (''then: drop the pin of '' @ name @ '' at '' @ a))
       else io_bind (nd_remove_pin app a) (\<lambda>_. io_say (NdSay (''dropped the pin of '' @ name @ '' at '' @ a)))) (\<lambda>_.
     drop_pins app name as)"

text \<open>From the applied plan on.\<close>

definition build_replaced ::
  "('w, 'k) node_app \<Rightarrow> 'w worker_build \<Rightarrow> worker \<Rightarrow> server \<Rightarrow> 'w cp \<Rightarrow> string \<Rightarrow> ('w, unit) node_io" where
  "build_replaced app wb wk cp_srv cp ip =
     (if \<not> m_apply (na_mode app) then plan_new_worker app wb wk cp_srv cp
      else if ip = [] then io_fail (NdError (''terraform replaced nothing: the workers state does not hold '' @ wk_name wk))
      else io_bind (nd_server app (wk_name wk)) (\<lambda>srv.
        case srv of
          None \<Rightarrow> io_fail (NdError (''terraform replaced '' @ wk_name wk @ '', but the API has no such server''))
        | Some s \<Rightarrow>
            io_bind (io_result (check_new_worker s wk)) (\<lambda>_.
            io_bind (io_say (NdSay (''read back: '' @ sv_name s @ '' id '' @ sv_id s))) (\<lambda>_.
              io_map_err (\<lambda>e. NdTold e (''the server '' @ wk_name wk @ '' was replaced: kluster node add '' @ wk_name wk @ '' --apply resumes its build''))
                (build_worker app wb wk s cp_srv cp)))))"

definition replace_worker ::
  "('w, 'k) node_app \<Rightarrow> 'w worker_build \<Rightarrow> 'w driver \<Rightarrow> worker \<Rightarrow> server \<Rightarrow> server \<Rightarrow> 'w cp \<Rightarrow> ('w, unit) node_io" where
  "replace_worker app wb workers wk srv cp_srv cp =
     io_bind (io_say (NdSay (''replace '' @ wk_name wk @ '': server '' @ sv_id srv @ '' at '' @ sv_public_ip srv @ '', private '' @
       wk_private_ip wk @ '', VPN '' @ wk_vpn_ip wk))) (\<lambda>_.
     io_bind (io_map_err NdError (io_result (not_reserved_vpn (na_cfg app) (wk_vpn_ip wk)))) (\<lambda>_.
     io_bind (nd_prov (plan_replacement (na_kit app) workers (wk_name wk) (na_mode app))) (\<lambda>rp.
     io_bind (retire app cp wk) (\<lambda>_.
     io_bind (drop_pins app (wk_name wk) [wk_vpn_ip wk, sv_public_ip srv]) (\<lambda>_.
     io_bind (nd_prov (apply_replacement (na_kit app) workers rp (na_mode app))) (\<lambda>ip.
       build_replaced app wb wk cp_srv cp ip))))))"

definition with_replace_access ::
  "('w, 'k) node_app \<Rightarrow> ('w driver \<Rightarrow> server \<Rightarrow> 'w cp \<Rightarrow> ('w, unit) node_io) \<Rightarrow> ('w, unit) node_io" where
  "with_replace_access app fn =
     io_bind (app_module app module_workers) (\<lambda>workers.
     io_bind (nd_server app (cp_name (cp_of app))) (\<lambda>cp_srv.
       case cp_srv of
         None \<Rightarrow> io_fail (NdError (''the project has no '' @ cp_name (cp_of app) @ '': run kluster cp init first''))
       | Some cps \<Rightarrow> with_bootstrap_ssh app (io_bind (reach_control_plane app) (\<lambda>cp. fn workers cps cp))))"

definition node_replace :: "('w, 'k) node_app \<Rightarrow> 'w worker_build \<Rightarrow> string \<Rightarrow> ('w, unit) node_io" where
  "node_replace app wb name =
     io_bind (warn_open_ssh app) (\<lambda>_.
     io_bind (io_result (check_worker_name name (cp_name (cp_of app)))) (\<lambda>_.
     io_bind (io_map_err NdError (io_result (worker_set_path app))) (\<lambda>p.
     io_bind (nd_load app p) (\<lambda>set'.
       case get_worker set' name of
         None \<Rightarrow> io_fail (NdError (p @ '' declares no worker '' @ name @ '': node replace keeps a declared Worker; node add declares one, node remove deletes a server the set no longer declares''))
       | Some wk \<Rightarrow> io_bind (nd_server app name) (\<lambda>srv.
           case srv of
             None \<Rightarrow> io_fail (NdError (''the project has no server '' @ name @ '': node add builds it''))
           | Some s \<Rightarrow> with_replace_access app (\<lambda>workers cps cp. replace_worker app wb workers wk s cps cp))))))"

end
