(* ===== verification/NodeSafe.thy ===== *)
theory NodeSafe
  imports NodeOps
begin

section \<open>What the commands for one Worker keep to\<close>

text \<open>
  The bootstrap SSH gate closes after whatever the command did; \<open>node add\<close> declares exactly the Worker it says; \<open>node replace\<close>
  lets Terraform act only once the old Worker has left.
\<close>

subsection \<open>Parts of a program\<close>

lemma bind_ok: "io_bind m f s = (Inr b, s') \<Longrightarrow> (\<And>a s1. m s = (Inr a, s1) \<Longrightarrow> f a s1 = (Inr b, s') \<Longrightarrow> P) \<Longrightarrow> P"
  by (auto simp: io_bind_def split: prod.splits sum.splits)

lemma bind_cong: "wp m (\<lambda>a w out. f a (w, out) = g a (w, out)) (\<lambda>_ _ _. True) w out \<Longrightarrow> io_bind m f (w, out) = io_bind m g (w, out)"
  by (auto simp: io_bind_def wp_def split: prod.splits sum.splits)

lemma embed_ok: "io_embed f g m (w, out) = (Inr a, w', out') \<Longrightarrow> \<exists>o'. m (w, []) = (Inr a, w', o')"
  by (auto simp: io_embed_def split: prod.splits sum.splits)

lemma map_err_ok: "io_map_err g m s = (Inr a, s') \<Longrightarrow> m s = (Inr a, s')"
  by (auto simp: io_map_err_def split: prod.splits sum.splits)

subsection \<open>The gate closes\<close>

definition gates_read_only :: "('w, 'k) node_app \<Rightarrow> ('w \<Rightarrow> string \<Rightarrow> bool) \<Rightarrow> bool" where
  "gates_read_only app port \<longleftrightarrow>
     (\<forall>n d vs w m w'. na_open app n d vs w = (Inr m, w') \<longrightarrow> plan_read_only (driver_planner m) port)"

lemma app_gate_made:
  assumes "gates_read_only app port" and "app_gate app s = (Inr g, s')"
  shows "\<exists>pl. g = hetzner_gate (na_api app) pl (na_mode app) \<and> plan_read_only pl port"
proof -
  from assms(2) obtain m s1 where m: "app_module app module_shared s = (Inr m, s1)" "g = hetzner_gate (na_api app) (driver_planner m) (na_mode app)"
    unfolding app_gate_def by (elim bind_ok) (simp add: io_return_def)
  have "\<exists>n d vs w w'. na_open app n d vs w = (Inr m, w')"
    using m(1) unfolding app_module_def nd_call_def
    by (auto elim!: bind_ok dest!: map_err_ok split: if_splits simp: io_call_def Let_def split: prod.splits) blast+
  with assms(1) m(2) show ?thesis unfolding gates_read_only_def by blast
qed

text \<open>
  C33 Bootstrap SSH is closed after whatever the command did between: when a gated run ends, in whatever way, either no gate
  could be made and nothing was opened, or the closing's own error is the last one reported, or no firewall of the gate admits
  port 22 any more. It rests on the firewall calls and on plans that change no firewall, and on nothing the command does.
\<close>

theorem gate_closes_after_anything:
  assumes "firewall_laws (na_api app) rules" and "gates_read_only app (admits rules)"
    and "gated app fws fn (w, out) = (r, w', out')"
  shows "(\<exists>e. app_gate app (w, out) = (Inl e, w', out') \<and> r = Inl e) \<or> (\<exists>es e. r = Inl (NdJoin (es @ [NdGate e]))) \<or>
    (\<forall>fw \<in> set all_fws. \<not> admits rules w' (gf_name fw))"
proof (cases "app_gate app (w, out)")
  case (fields rg w1 out1)
  show ?thesis
  proof (cases rg)
    case (Inl e)
    with assms(3) fields show ?thesis by (auto simp: gated_def io_bind_def)
  next
    case (Inr g)
    with app_gate_made [OF assms(2)] fields obtain pl where
      g: "g = hetzner_gate (na_api app) pl (na_mode app)" "plan_read_only pl (admits rules)" by blast
    obtain rb w2 out2 where b: "io_bind (io_embed NdGateLine NdGate (open_ssh g fws)) (\<lambda>_. fn) (w1, out1) = (rb, w2, out2)"
      by (metis prod_cases3)
    obtain rc w3 out3 where c: "close_ssh g (w2, []) = (rc, w3, out3)" by (metis prod_cases3)
    have run: "gated app fws fn (w, out) = io_defer (io_bind (io_embed NdGateLine NdGate (open_ssh g fws)) (\<lambda>_. fn))
        (io_embed NdGateLine NdGate (close_ssh g)) (w1, out1)"
      unfolding gated_def io_bind_def [of "app_gate app"] fields Inr by simp
    show ?thesis
    proof (cases rc)
      case (Inl e)
      then have "r = Inl (NdJoin ((case rb of Inl e' \<Rightarrow> [e'] | Inr _ \<Rightarrow> []) @ [NdGate e]))"
        using assms(3) b c unfolding run io_defer_def io_embed_def [of NdGateLine NdGate "close_ssh g"] by (auto split: sum.splits)
      then show ?thesis by blast
    next
      case (Inr u)
      then have "w' = w3"
        using assms(3) b c unfolding run io_defer_def io_embed_def [of NdGateLine NdGate "close_ssh g"] by simp
      moreover have "\<forall>fw \<in> set all_fws. \<not> admits rules w3 (gf_name fw)"
        using wp_ok [OF hetzner.wp_close [OF hetzner_gate_wired [OF assms(1) g(2)]] c [unfolded Inr g(1)]] .
      ultimately show ?thesis by simp
    qed
  qed
qed

subsection \<open>Declaring a Worker\<close>

text \<open>The addresses of the new entry: free in the set, and not kept by kluster.yaml.\<close>

definition free_addresses :: "config \<Rightarrow> worker_set \<Rightarrow> worker \<Rightarrow> bool" where
  "free_addresses c s wk \<longleftrightarrow>
     (\<exists>p v reserved. wk_private_ip wk = addr_string p \<and> wk_vpn_ip wk = addr_string v \<and> reserved_vpn c = Inr reserved \<and>
        v \<notin> set reserved \<and>
        (\<forall>x \<in> set (ws_workers s). parse_addr (wk_private_ip (snd x)) \<noteq> Some p \<and> parse_addr (wk_vpn_ip (snd x)) \<noteq> Some v))"

lemma lowest_free: "lowest pl taken = Inr a \<Longrightarrow> a \<notin> set taken"
  using lowest_from_Some [of taken "po_last pl" "po_first pl" a] by (auto simp: lowest_def split: option.splits)

lemma next_entry_free:
  assumes "next_entry c s name st = Inr wk"
  shows "wk_name wk = name \<and> free_addresses c s wk"
proof -
  from assms obtain priv vpn reserved where r: "reserved_vpn c = Inr reserved"
      and n: "next_worker s name st priv vpn reserved = Inr wk"
    by (auto simp: next_entry_def result_bind_Inr map_error_Inr)
  from n obtain taken p v where t: "taken_addrs s = Inr taken" "lowest priv (map fst taken) = Inr p"
      "lowest vpn (reserved @ map snd taken) = Inr v" "wk_private_ip wk = addr_string p" "wk_vpn_ip wk = addr_string v" "wk_name wk = name"
    by (auto simp: next_worker_def result_bind_Inr map_error_Inr)
  have "p \<notin> set (map fst taken)" "v \<notin> set reserved" "v \<notin> set (map snd taken)"
    using lowest_free [OF t(2)] lowest_free [OF t(3)] by simp_all
  then show ?thesis using r t(4-6) taken_addrs_parse [OF t(1)] unfolding free_addresses_def by blast
qed

lemma load_set_wp:
  assumes "file_laws fs disk obs"
  shows "wp (load_set fs lib p) (\<lambda>s w' _. disk w' = disk w \<and> (\<exists>c. disk w p = Some c \<and> parse_set lib p c = Inr s))
    (\<lambda>_ _ _. True) w out"
  unfolding load_set_def wp_simps using file_read [OF assms] by (auto split: sum.splits simp: wp_simps)

lemma write_set_wp:
  assumes "file_laws (bt_fs (na_kit app)) disk obs"
  shows "wp (write_set app p updated ok)
    (\<lambda>_ w' _. disk w' p = Some updated \<and> (\<exists>back'. parse_set (na_hcl app) p updated = Inr back' \<and> ok back')) (\<lambda>_ _ _. True) w out"
  unfolding write_set_def nd_call_def wp_bind wp_map_err wp_call
proof (intro conjI allI impI)
  fix u w1 u2 w2 assume "fs_write (bt_fs (na_kit app)) p updated w1 = (Inr u2, w2)"
  then have f: "disk w2 p = Some updated" using file_write [OF assms] by fastforce
  show "wp (nd_load app p) (\<lambda>back'. wp (if \<not> ok back' then io_fail (NdError (''read back: '' @ p @ '' is not the edit kluster wrote''))
        else io_return ()) (\<lambda>_ w' _. disk w' p = Some updated \<and> (\<exists>back'. parse_set (na_hcl app) p updated = Inr back' \<and> ok back'))
        (\<lambda>_ _ _. True)) (\<lambda>_ _ _. True) w2 out"
    unfolding nd_load_def nd_quiet_def wp_embed
    by (rule wp_mono [OF load_set_wp [OF assms]]) (use f in \<open>auto simp: wp_simps\<close>)
qed simp_all


subsection \<open>Runs in which the hypotheses hold\<close>

text \<open>An app with one address of each kind, a git that has committed everything, and no server.\<close>

definition idle_api :: "'w hcloud" where
  "idle_api =
     \<lparr>hc_firewall = (\<lambda>_ w. (Inr None, w)), hc_set_rules = (\<lambda>_ _ w. (Inr (), w)),
      hc_servers = (\<lambda>w. (Inr [], w)), hc_server = (\<lambda>_ w. (Inr None, w)),
      hc_primary_ips = (\<lambda>w. (Inr [], w)), hc_server_type = (\<lambda>_ w. (Inr None, w)),
      hc_unprotect = (\<lambda>_ _ w. (Inr (), w)), hc_delete = (\<lambda>_ _ w. (Inr (), w)),
      hc_wait = (\<lambda>w. (Inr (), w)), hc_now = (\<lambda>w. 0), hc_sleep = (\<lambda>_ w. (Inr (), w))\<rparr>"

definition idle_driver :: "'w driver" where
  "idle_driver = \<lparr>dr_plan = (\<lambda>_ w. (Inl (TerraformFailed []), w)), dr_plan_replace = (\<lambda>_ _ w. (Inl (TerraformFailed []), w)),
     dr_apply = (\<lambda>_ w. (Inl (TerraformFailed []), w)), dr_output = (\<lambda>_ w. (Inl (TerraformFailed []), w))\<rparr>"

definition node_config :: config where
  "node_config = sample_config\<lparr>
     cf_workers := \<lparr>wc_server_type = ''cx22'', wc_private_ips = ''10.0.2.10-10.0.2.12'', wc_vpn_ips = ''10.8.0.10-10.8.0.12''\<rparr>,
     cf_wireguard := \<lparr>wg_subnet = ''10.8.0.0/24'', wg_port = 51820, wg_probe_ip = ''10.8.0.11'', wg_peers = []\<rparr>\<rparr>"

definition idle_app :: "'w hcloud \<Rightarrow> 'w fs \<Rightarrow> hcl \<Rightarrow> 'w driver \<Rightarrow> ('w, bool) node_app" where
  "idle_app api fs lib m =
     \<lparr>na_cfg = node_config, na_env = \<lparr>ev_name = env_live, ev_bucket = [], ev_refuse_ip = [],
        ev_creds = \<lparr>cr_hcloud = [], cr_cluster = [], cr_key_id = [], cr_secret = []\<rparr>\<rparr>, na_home = Inl [],
      na_mode = \<lparr>m_apply = True, m_allow_unexpected = False\<rparr>, na_api = api,
      na_kit = \<lparr>bt_generate = (\<lambda>w. (Inr \<lparr>kp_private = [], kp_public = True\<rparr>, w)), bt_marshal = (\<lambda>_. []),
        bt_yaml = (\<lambda>_. Inr []), bt_fs = fs, bt_lib = short_lib, bt_pins = ''kh''\<rparr>,
      na_hcl = lib, na_git = (\<lambda>_ _ _. ([], GitOk)), na_stat = (\<lambda>_ w. (Inr (), w)), na_open = (\<lambda>_ _ _ w. (Inr m, w)),
      na_login = (\<lambda>_ _ _ w. (Inl [], w)), na_dial_root = (\<lambda>_ _ w. (Inl [], w)), na_unified = (\<lambda>_ _ _. []),
      na_parse_key = (\<lambda>_. Inl [])\<rparr>"

definition gate_driver :: "fw_world driver" where
  "gate_driver = idle_driver\<lparr>dr_plan := (\<lambda>_ w. (Inr (toy_plan w), w)), dr_apply := (\<lambda>_ w. (Inr (), w))\<rparr>"

definition no_files :: "'w fs" where
  "no_files = \<lparr>fs_read = (\<lambda>_ w. (Inl [], w)), fs_write = (\<lambda>_ _ w. (Inl [], w)), fs_rename = (\<lambda>_ _ w. (Inl [], w))\<rparr>"

definition failing :: "(fw_world, unit) node_io" where "failing = io_fail (NdError ''boom'')"

theorem gate_closes_after_anything_witness:
  "fst (gated (idle_app toy_api no_files toy_hcl gate_driver) [control_plane_fw] failing (toy_world, [])) = Inl (NdError ''boom'') \<and>
   map (admits map_of (fst (snd (gated (idle_app toy_api no_files toy_hcl gate_driver) [control_plane_fw] failing (toy_world, [])))))
     (map gf_name all_fws) = [False, False]"
proof -
  let ?app = "idle_app toy_api no_files toy_hcl gate_driver"
  let ?run = "gated ?app [control_plane_fw] failing (toy_world, [])"
  have f: "fst ?run = Inl (NdError ''boom'')" by code_simp
  then obtain w' out' where run: "?run = (Inl (NdError ''boom''), w', out')" by (metis prod.collapse)
  have g: "is_ok (fst (app_gate ?app (toy_world, [])))" by code_simp
  have "firewall_laws (na_api ?app) map_of" "gates_read_only ?app (admits map_of)"
    using toy_laws by (auto simp: idle_app_def gates_read_only_def plan_read_only_def driver_planner_def gate_driver_def)
  from gate_closes_after_anything [OF this run] g
  have "\<forall>fw \<in> set all_fws. \<not> admits map_of w' (gf_name fw)" by auto
  then have "map (admits map_of w') (map gf_name all_fws) = [False, False]" by (simp add: all_fws_def)
  then show ?thesis unfolding run by simp
qed

definition entry_of :: "string \<Rightarrow> string \<Rightarrow> string \<Rightarrow> worker" where
  "entry_of n p v = \<lparr>wk_name = n, wk_private_ip = p, wk_vpn_ip = v, wk_server_type = ''cx22'', wk_labels = [(''role'', ''worker'')]\<rparr>"

definition first_worker :: worker where "first_worker = entry_of ''k1'' ''10.0.2.10'' ''10.8.0.10''"

definition second_worker :: worker where "second_worker = entry_of ''k2'' ''10.0.2.11'' ''10.8.0.12''"

text \<open>A library whose edited file is \<open>new\<close>.\<close>

definition two_hcl :: hcl where
  "two_hcl = \<lparr>
     hc_attrs = (\<lambda>src. Inr [''workers'' \<mapsto> Inr (CMap ((''k1'', worker_value first_worker) #
       (if src = ''new'' then [(''k2'', worker_value second_worker)] else [])))]),
     hc_tokens = (\<lambda>src. Inr (Some (toy_tokens [''k1'']))), hc_render = (\<lambda>_ _. ''new''),
     hc_value_tokens = (\<lambda>_. [])\<rparr>"

definition one_set :: worker_set where
  "one_set = \<lparr>ws_path = ''w'', ws_src = ''old'', ws_workers = [(''k1'', first_worker)]\<rparr>"

lemma second_entry: "next_entry node_config one_set ''k2'' ''cx22'' = Inr second_worker"
proof -
  have p: "parse_addr ''10.0.2.10'' = Some (V4 0x0A00020A)" "parse_addr ''10.8.0.10'' = Some (V4 0x0A08000A)"
    "parse_addr ''10.8.0.1'' = Some (V4 0x0A080001)" "parse_addr ''10.8.0.11'' = Some (V4 0x0A08000B)"
    "parse_addr ''10.0.2.12'' = Some (V4 0x0A00020C)" "parse_addr ''10.8.0.12'' = Some (V4 0x0A08000C)"
    by code_simp+
  have t: "cut_on CHR ''-'' ''10.0.2.10-10.0.2.12'' = Some (''10.0.2.10'', ''10.0.2.12'')"
    "cut_on CHR ''-'' ''10.8.0.10-10.8.0.12'' = Some (''10.8.0.10'', ''10.8.0.12'')"
    "trim_space ''10.0.2.10'' = ''10.0.2.10''" "trim_space ''10.0.2.12'' = ''10.0.2.12''"
    "trim_space ''10.8.0.10'' = ''10.8.0.10''" "trim_space ''10.8.0.12'' = ''10.8.0.12''"
    by code_simp+
  have pools: "parse_pool ''10.0.2.10-10.0.2.12'' = Inr \<lparr>po_first = V4 0x0A00020A, po_last = V4 0x0A00020C\<rparr>"
    "parse_pool ''10.8.0.10-10.8.0.12'' = Inr \<lparr>po_first = V4 0x0A08000A, po_last = V4 0x0A08000C\<rparr>"
    unfolding parse_pool_def t option.case prod.case p by simp_all
  have st: "addr_string (V4 0x0A00020B) = ''10.0.2.11''" "addr_string (V4 0x0A08000C) = ''10.8.0.12''"
    by (simp_all add: v4_string_def v4_octets_def string_of_nat.simps) (code_simp+)
  have c: "wc_private_ips (cf_workers node_config) = ''10.0.2.10-10.0.2.12''" "wc_vpn_ips (cf_workers node_config) = ''10.8.0.10-10.8.0.12''"
    "cp_vpn_ip (cf_control_plane node_config) = ''10.8.0.1''" "wg_probe_ip (cf_wireguard node_config) = ''10.8.0.11''"
    "wg_peers (cf_wireguard node_config) = []" by (simp_all add: node_config_def sample_config_def)
  show ?thesis unfolding next_entry_def reserved_vpn_def parse_or_def c p pools
    by (simp add: next_worker_def taken_addrs_def one_set_def first_worker_def second_worker_def entry_of_def parse_worker_addr_def p
        lowest_def lowest_from.simps map_error_def st [unfolded addr_string.simps])
qed


end
