(* ===== verification/NodeReplace.thy ===== *)
theory NodeReplace
  imports NodeSafe
begin

section \<open>node replace: Terraform acts only once the Worker has left\<close>

text \<open>
  What a run lets happen at an effect, stated without watching the run: \<open>only_when ok ap other\<close> is the applier \<open>ap\<close> wherever
  \<open>ok\<close> holds, and anything at all elsewhere. A run that is the same with it, whatever \<open>other\<close> is, consults the applier only
  where \<open>ok\<close> holds.
\<close>

definition only_when :: "(tf_plan \<Rightarrow> 'w \<Rightarrow> bool) \<Rightarrow> 'w applier \<Rightarrow> 'w applier \<Rightarrow> 'w applier" where
  "only_when ok ap other p w = (if ok p w then ap p w else other p w)"

lemma bind_cong_wp:
  assumes "wp m R (\<lambda>_ _ _. True) w out" and "\<And>a w' out'. R a w' out' \<Longrightarrow> f a (w', out') = g a (w', out')"
  shows "io_bind m f (w, out) = io_bind m g (w, out)"
  by (rule bind_cong, rule wp_mono [OF assms(1)]) (use assms(2) in auto)

subsection \<open>Another Worker serves\<close>

definition serves :: "node \<Rightarrow> bool" where
  "serves n \<longleftrightarrow> \<not> nd_control_plane n \<and> nd_ready n"

definition other_serves :: "string \<Rightarrow> node list \<Rightarrow> bool" where
  "other_serves name ns \<longleftrightarrow>
     (\<exists>n \<in> set ns. serves n \<and> nd_name n \<noteq> name) \<or> (\<forall>n \<in> set ns. nd_name n = name \<longrightarrow> \<not> serves n)"

lemma last_ready_iff:
  "last_ready_from name b ns \<longleftrightarrow>
     (b \<or> (\<exists>n \<in> set ns. serves n \<and> nd_name n = name)) \<and> \<not> (\<exists>n \<in> set ns. serves n \<and> nd_name n \<noteq> name)"
  by (induction name b ns rule: last_ready_from.induct) (auto simp: serves_def)

lemma not_last_other: "not_last_ready_worker ns name = Inr u \<longleftrightarrow> other_serves name ns"
  by (auto simp: not_last_ready_worker_def last_ready_iff other_serves_def)

text \<open>A cordoned Worker counts as the other one, although it takes no pods.\<close>

lemma cordoned_worker_counts:
  "not_last_ready_worker
     [\<lparr>nd_name = ''k1'', nd_ready = True, nd_internal = [], nd_kubelet = [], nd_control_plane = False, nd_provider = [],
       nd_unschedulable = False, nd_uninitialized = False\<rparr>,
      \<lparr>nd_name = ''k2'', nd_ready = True, nd_internal = [], nd_kubelet = [], nd_control_plane = False, nd_provider = [],
       nd_unschedulable = True, nd_uninitialized = False\<rparr>] ''k1'' = Inr ()"
  by (simp add: not_last_ready_worker_def)

subsection \<open>The steps before the plan is applied\<close>

definition gets_quiet :: "'w cp_host \<Rightarrow> ('w \<Rightarrow> cp_view) \<Rightarrow> bool" where
  "gets_quiet ch obs \<longleftrightarrow> (\<forall>args. quiet obs (kubectl_run (ch_exec ch) (''get'' # args)))"

lemma databases_wp:
  assumes "gets_quiet ch obs"
  shows "wp (databases (ch_exec ch) (ch_json ch)) (\<lambda>_ w' _. obs w' = obs w) (\<lambda>_ w' _. True) w out"
proof -
  have q: "obs w2 = obs w1" if "kubectl_run (ch_exec ch) (''get'' # args) w1 = (r, w2)" for args w1 r w2
    using assms that unfolding gets_quiet_def quiet_def by blast
  show ?thesis unfolding databases_def wp_bind wp_call
    by (auto simp: wp_simps decoded_def split: sum.split dest!: q)
qed

lemma nodes_wp:
  assumes "reads_laws ch obs"
  shows "wp (nodes (ch_exec ch) (ch_json ch)) (\<lambda>ns w' _. obs w' = obs w \<and> ns = cv_nodes (obs w)) (\<lambda>_ w' _. True) w out"
  unfolding nodes_def wp_bind wp_call
  by (auto simp: decoded_def wp_simps split: sum.split dest: reads(1,2) [OF assms])

lemma check_retirable_wp:
  assumes "reads_laws ch obs" and "gets_quiet ch obs"
  shows "wp (check_retirable app (Some (h, ch)) name) (\<lambda>_ w' _. obs w' = obs w \<and> other_serves name (cv_nodes (obs w))) (\<lambda>_ _ _. True) w out"
  unfolding check_retirable_def option.case prod.case
proof (rule wp_seq [where R = "\<lambda>_ w' _. obs w' = obs w" and E' = "\<lambda>_ _ _. True"], goal_cases)
  case 1
  show ?case unfolding wp_map_err by (rule databases_wp [OF assms(2)])
next
  case (2 dbs w1 out1)
  have n: "wp (io_map_err NdError (nodes (ch_exec ch) (ch_json ch))) (\<lambda>ns w' _. obs w' = obs w \<and> ns = cv_nodes (obs w))
      (\<lambda>_ _ _. True) w1 out2" for out2
    unfolding wp_map_err by (rule wp_mono [OF nodes_wp [OF assms(1)]]) (use 2 in auto)
  show ?case unfolding wp_bind [of "io_map_err NdError (io_result _)"] wp_map_err wp_result wp_bind [of "io_say _"] wp_say
  proof (cases "database_gate dbs", goal_cases)
    case (2 msg)
    have "wp (io_bind (io_map_err NdError (nodes (ch_exec ch) (ch_json ch))) (\<lambda>ns. io_map_err NdError (io_result (not_last_ready_worker ns name))))
      (\<lambda>_ w' _. obs w' = obs w \<and> other_serves name (cv_nodes (obs w))) (\<lambda>_ _ _. True) w1 out2" for out2
      by (rule wp_seq [OF n]) (auto simp: wp_map_err wp_result not_last_other split: sum.split)
    then show ?case unfolding 2 by simp
  qed simp
qed simp

lemma retire_wp:
  assumes "reads_laws ch obs" and "writes_laws ch obs" and "gets_quiet ch obs" and "m_apply (na_mode app)"
  shows "wp (retire app (Some (h, ch)) wk)
    (\<lambda>_ w' _. retired (wk_name wk) (wk_vpn_ip wk @ ''/32'') (obs w') \<and> other_serves (wk_name wk) (cv_nodes (obs w))) (\<lambda>_ _ _. True) w out"
  unfolding retire_def
proof (rule wp_seq [OF check_retirable_wp [OF assms(1,3)]], goal_cases)
  case (1 u w1 out1)
  show ?case unfolding option.case prod.case nd_stages_def wp_embed retire_stages_def eqTrueI [OF assms(4)]
    by (rule wp_mono [OF retire_run_wp [OF assms(1,2)]]) (use 1 in auto)
qed simp

definition fs_quiet :: "'w fs \<Rightarrow> ('w \<Rightarrow> 'v) \<Rightarrow> bool" where
  "fs_quiet fs obs \<longleftrightarrow>
     (\<forall>p. quiet obs (fs_read fs p)) \<and> (\<forall>p c. quiet obs (fs_write fs p c)) \<and> (\<forall>p q. quiet obs (fs_rename fs p q))"

lemma pins_rewrite_quiet:
  assumes "fs_quiet fs obs"
  shows "wp (pins_rewrite fs lib p addr ks r) (\<lambda>_ w' _. obs w' = obs w) (\<lambda>_ _ _. True) w out"
proof -
  have q: "obs w2 = obs w1" if "fs_read fs x w1 = (r1, w2) \<or> fs_write fs x c w1 = (r2, w2) \<or> fs_rename fs x y w1 = (r3, w2)"
    for x y c w1 w2 r1 r2 r3
    using that assms unfolding fs_quiet_def quiet_def by blast
  have "wp (case rewrite_text lib r (sl_normalize lib addr) ks old of None \<Rightarrow> io_fail TokenTooLong
        | Some text \<Rightarrow> io_bind (io_map_err PinFile (io_call (fs_write fs (p @ ''.tmp'') text)))
            (\<lambda>_. io_map_err PinFile (io_call (fs_rename fs (p @ ''.tmp'') p)))) (\<lambda>_ w' _. obs w' = obs w) (\<lambda>_ _ _. True) w1 out1"
    if "obs w1 = obs w" for old w1 out1
    using that by (auto simp: wp_simps split: option.split) (metis q)
  then show ?thesis unfolding pins_rewrite_def pin_read_def Let_def wp_bind [of "io_map_err PinFile (io_call (fs_read _ _))"] wp_map_err [of PinFile "io_call (fs_read _ _)"]
      wp_call [of "fs_read _ _"] using q by blast
qed

lemma drop_pins_wp:
  assumes "fs_quiet (bt_fs (na_kit app)) obs"
  shows "wp (drop_pins app name as) (\<lambda>_ w' _. obs w' = obs w) (\<lambda>_ _ _. True) w out"
proof (induction as arbitrary: w out)
  case (Cons a as w out)
  have "wp (nd_remove_pin app a) (\<lambda>_ w' _. obs w' = obs w) (\<lambda>_ _ _. True) w out"
    unfolding nd_remove_pin_def nd_quiet_def pins_remove_def wp_embed by (rule pins_rewrite_quiet [OF assms])
  then have drop: "wp (io_bind (nd_remove_pin app a) (\<lambda>_. io_say x)) (\<lambda>_ w' _. obs w' = obs w) (\<lambda>_ _ _. True) w out" for x
    by (rule wp_seq) (simp_all add: wp_say)
  have one: "wp (if \<not> m_apply (na_mode app) then io_say (NdSay (''then: drop the pin of '' @ name @ '' at '' @ a))
       else io_bind (nd_remove_pin app a) (\<lambda>_. io_say (NdSay (''dropped the pin of '' @ name @ '' at '' @ a))))
      (\<lambda>_ w' _. obs w' = obs w) (\<lambda>_ _ _. True) w out"
    unfolding wp_if wp_say using drop by simp
  show ?case unfolding drop_pins.simps
  proof (rule wp_seq [OF one], goal_cases)
    case (1 u w1 o1)
    show ?case by (rule wp_mono [OF Cons.IH]) (use 1 in auto)
  qed simp
qed (simp add: wp_return)

lemma plan_replacement_wp:
  assumes "quiet obs (bt_generate bt)" and "\<forall>vars as. quiet obs (dr_plan_replace m vars as)"
  shows "wp (plan_replacement bt m name mode) (\<lambda>rp w' _. obs w' = obs w \<and> rp_name rp = name \<and>
      (m_apply mode \<longrightarrow> as_intended (replace_intent name) (p_changes (rp_plan rp)) \<or> m_allow_unexpected mode)) (\<lambda>_ _ _. True) w out"
  unfolding plan_replacement_def
proof (rule wp_seq [where R = "\<lambda>_ w' _. obs w' = obs w" and E' = "\<lambda>_ _ _. True"], goal_cases)
  case 1
  show ?case unfolding seed_key_def wp_bind wp_map_err wp_call wp_result
    by (auto simp: wp_return split: sum.split dest: quietD [OF assms(1)])
next
  case (2 k w1 out1)
  show ?case
  proof (cases k)
    case (Pair kp ud)
    have pass: "wp (check_plan p (replace_intent name) mode)
        (\<lambda>_ w' _. w' = w2 \<and> (m_apply mode \<longrightarrow> as_intended (replace_intent name) (p_changes p) \<or> m_allow_unexpected mode)) (\<lambda>_ _ _. True) w2 o2"
      for p w2 o2 by (auto simp: wp_def check_plan_run check_empty_iff split: if_splits)
    show ?thesis unfolding Pair prod.case prov_call_def wp_bind [of "io_map_err PvTf (io_call _)"] wp_map_err [of PvTf "io_call _"] wp_call
        wp_bind [of "io_embed _ _ _"] wp_embed
    proof (intro conjI allI impI)
      fix p w2 assume "dr_plan_replace m (UserDataOf [name \<mapsto> ud]) [worker_address name] w1 = (Inr p, w2)"
      then have "obs w2 = obs w" using assms(2) 2 unfolding quiet_def by metis
      then show "wp (check_plan p (replace_intent name) mode) (\<lambda>a w' o'. wp (io_return \<lparr>rp_name = name, rp_plan = p, rp_key = kp\<rparr>)
          (\<lambda>rp w' _. obs w' = obs w \<and> rp_name rp = name \<and>
            (m_apply mode \<longrightarrow> as_intended (replace_intent name) (p_changes (rp_plan rp)) \<or> m_allow_unexpected mode)) (\<lambda>_ _ _. True)
          w' (out1 @ map PvTfLine o')) (\<lambda>e w' o'. True) w2 []"
        by (intro wp_mono [OF pass]) (auto simp: wp_return)
    qed simp
  qed
qed simp

subsection \<open>Where the applier is consulted\<close>

definition may_replace :: "('w \<Rightarrow> cp_view) \<Rightarrow> mode \<Rightarrow> worker \<Rightarrow> 'w \<Rightarrow> tf_plan \<Rightarrow> 'w \<Rightarrow> bool" where
  "may_replace obs mode wk w0 p w \<longleftrightarrow>
     m_apply mode \<and> (as_intended (replace_intent (wk_name wk)) (p_changes p) \<or> m_allow_unexpected mode) \<and>
     retired (wk_name wk) (wk_vpn_ip wk @ ''/32'') (obs w) \<and> other_serves (wk_name wk) (cv_nodes (obs w0))"

lemma apply_only_when:
  assumes "m_apply mode \<Longrightarrow> ok (rp_plan rp) w"
  shows "apply_replacement bt (m\<lparr>dr_apply := only_when ok (dr_apply m) other\<rparr>) rp mode (w, out) = apply_replacement bt m rp mode (w, out)"
proof -
  have "apply_checked (only_when ok (dr_apply m) other) (rp_plan rp) mode (w, []) = apply_checked (dr_apply m) (rp_plan rp) mode (w, [])"
  proof (cases "m_apply mode")
    case True
    then have e: "only_when ok (dr_apply m) other (rp_plan rp) w = dr_apply m (rp_plan rp) w" using assms by (simp add: only_when_def)
    show ?thesis unfolding apply_checked_run e ..
  qed (simp add: apply_checked_run)
  moreover have keep: "pin_created bt (m\<lparr>dr_apply := ap\<rparr>) = pin_created bt m" for ap by (simp add: pin_created_def fun_eq_iff)
  ultimately show ?thesis unfolding apply_replacement_def keep by (simp add: io_bind_def io_embed_def)
qed

text \<open>
  C35 \<open>node replace\<close> lets Terraform destroy and create the server only when everything before has held: under \<open>--apply\<close>, for a
  plan that replaces exactly that server (or one the operator allowed), with the Worker's Node gone and its hub peer gone from
  the file and the live table, and only if another Worker was Ready when the command looked (or this one was not). Put
  differently, the run is the same whatever the applier would do anywhere else.
\<close>

theorem replace_applies_after_retiring:
  assumes "reads_laws ch obs" and "writes_laws ch obs" and "gets_quiet ch obs"
    and "fs_quiet (bt_fs (na_kit app)) obs"
    and "quiet obs (bt_generate (na_kit app))" and "\<forall>vars as. quiet obs (dr_plan_replace workers vars as)"
  shows "replace_worker app wb (workers\<lparr>dr_apply := only_when (may_replace obs (na_mode app) wk w) (dr_apply workers) other\<rparr>)
      wk srv cps (Some (h, ch)) (w, out) =
    replace_worker app wb workers wk srv cps (Some (h, ch)) (w, out)"
proof -
  let ?m = "workers\<lparr>dr_apply := only_when (may_replace obs (na_mode app) wk w) (dr_apply workers) other\<rparr>"
  let ?cp = "Some (h, ch)"
  have plan: "plan_replacement bt ?m name mode = plan_replacement bt workers name mode" for bt :: "('a, 'b) boot_kit" and name mode
    by (simp add: plan_replacement_def)
  have "wp (nd_prov (plan_replacement (na_kit app) workers (wk_name wk) (na_mode app))) (\<lambda>rp w' _. obs w' = obs w \<and>
      (m_apply (na_mode app) \<longrightarrow> as_intended (replace_intent (wk_name wk)) (p_changes (rp_plan rp)) \<or> m_allow_unexpected (na_mode app)))
      (\<lambda>_ _ _. True) w o1" for o1
    unfolding nd_prov_def wp_embed by (rule wp_mono [OF plan_replacement_wp [OF assms(5,6)]]) auto
  note planned = this
  have leave: "wp (retire app ?cp wk) (\<lambda>_ w' _. m_apply (na_mode app) \<longrightarrow>
      retired (wk_name wk) (wk_vpn_ip wk @ ''/32'') (obs w') \<and> other_serves (wk_name wk) (cv_nodes (obs w))) (\<lambda>_ _ _. True) w1 o1"
    if "obs w1 = obs w" for w1 o1
  proof (cases "m_apply (na_mode app)")
    case True
    show ?thesis by (rule wp_mono [OF retire_wp [OF assms(1-3) True]]) (use that in auto)
  qed (simp add: wp_def split: prod.split sum.split)
  show ?thesis unfolding replace_worker_def plan
  proof (rule bind_cong_wp [where R = "\<lambda>_ w' _. w' = w"], goal_cases)
    case (2 u w1 o1)
    show ?case
    proof (rule bind_cong_wp [where R = "\<lambda>_ w' _. w' = w"], goal_cases)
      case (2 u w2 o2)
      show ?case unfolding 2
      proof (rule bind_cong_wp [OF planned], goal_cases)
        case p: (1 rp w3 o3)
        show ?case
        proof (rule bind_cong_wp [OF leave [OF p [THEN conjunct1]]], goal_cases)
          case l: (1 u w4 o4)
          show ?case
          proof (rule bind_cong_wp [OF drop_pins_wp [OF assms(4)]], goal_cases)
            case (1 u w5 o5)
            have "may_replace obs (na_mode app) wk w (rp_plan rp) w5" if "m_apply (na_mode app)"
              using that p l 1 by (simp add: may_replace_def)
            then show ?case
              by (simp add: io_bind_def nd_prov_def io_embed_def apply_only_when)
          qed
        qed
      qed
    qed (use 2 in \<open>simp add: wp_simps split: sum.split\<close>)
  qed (simp add: wp_say)
qed

definition replace_plan :: tf_plan where
  "replace_plan = \<lparr>p_module = ''workers'', p_env = ''live'', p_file = ''f'',
     p_changes = [\<lparr>ch_address = worker_address ''wk4'', ch_action = Replace\<rparr>]\<rparr>"

text \<open>Terraform brings the server back; the run then fails at the readback, because the API knows no server.\<close>

definition replace_driver :: "toy_cp driver" where
  "replace_driver = idle_driver\<lparr>dr_plan_replace := (\<lambda>_ _ w. (Inr replace_plan, w)), dr_apply := (\<lambda>_ w. (Inr (), w)),
     dr_output := (\<lambda>_ w. (Inr [''wk4'' \<mapsto> ''10.0.2.6''], w))\<rparr>"

definition idle_build :: "'w worker_build" where
  "idle_build = \<lparr>wb_rotate = (\<lambda>ch. delete_stage ch []), wb_pre_join = (\<lambda>_ _. []), wb_hub_peer = (\<lambda>ch _. delete_stage ch []),
     wb_join = (\<lambda>ch _. delete_stage ch []), wb_ready = (\<lambda>ch _. delete_stage ch [])\<rparr>"

definition replace_app :: "(toy_cp, bool) node_app" where
  "replace_app = idle_app idle_api \<lparr>fs_read = (\<lambda>_ w. (Inr [], w)), fs_write = (\<lambda>_ _ w. (Inr (), w)), fs_rename = (\<lambda>_ _ w. (Inr (), w))\<rparr>
     toy_hcl idle_driver"

lemma toy_gets: "gets_quiet toy_host toy_cp_view"
proof -
  have "quiet toy_cp_view (kubectl_run toy_exec (''get'' # args))" for args
    unfolding quiet_def kubectl_run_def by (auto simp: toy_cp_run(2) kubectl_inj kubectl_other)
  then show ?thesis by (simp add: gets_quiet_def toy_cp_run(1))
qed

text \<open>A file without a line, told to the evaluation.\<close>

lemma scan_no_lines [code]:
  "scan_lines c = (if raw_lines c = [] then Some []
     else if list_ex (\<lambda>l. length l \<ge> max_token) (raw_lines c) then None else Some (map drop_cr (raw_lines c)))"
  by (simp add: scan_lines_def)

abbreviation replace_run :: "toy_cp driver \<Rightarrow> (node_error + unit) \<times> toy_cp \<times> node_line list" where
  "replace_run m \<equiv> replace_worker replace_app idle_build m toy_worker new_server new_server
     (Some (\<lparr>h_name = ''cp'', h_addr = [], h_connected = True\<rparr>, toy_host)) ((True, True, True), [])"

definition guarded_driver :: "toy_cp driver" where
  "guarded_driver = replace_driver\<lparr>dr_apply := only_when (may_replace toy_cp_view (na_mode replace_app) toy_worker (True, True, True))
     (dr_apply replace_driver) (\<lambda>_ w. (Inl (TerraformFailed ''too early''), w))\<rparr>"

theorem replace_applies_after_retiring_witness:
  "fst (replace_run guarded_driver) = Inl (NdError ''terraform replaced wk4, but the API has no such server'')"
proof -
  have "fs_quiet (bt_fs (na_kit replace_app)) toy_cp_view" by (simp add: fs_quiet_def quiet_def replace_app_def idle_app_def)
  moreover have "quiet toy_cp_view (bt_generate (na_kit replace_app))" by (simp add: quiet_def replace_app_def idle_app_def)
  moreover have "\<forall>vars as. quiet toy_cp_view (dr_plan_replace replace_driver vars as)" by (simp add: quiet_def replace_driver_def)
  ultimately have same: "replace_run guarded_driver = replace_run replace_driver"
    unfolding guarded_driver_def by (rule replace_applies_after_retiring [OF toy_reads toy_writes toy_gets])
  have "fst (replace_run replace_driver) = Inl (NdError ''terraform replaced wk4, but the API has no such server'')" by code_simp
  then show ?thesis unfolding same .
qed

end
