(* ===== verification/HostScript.thy ===== *)
theory HostScript
  imports WorkerRemove Provision
begin

section \<open>stages/script.go: Stages that are a script and a list of checks\<close>

text \<open>
  Most Stages on a host write a script and run it, and are proved by checks: shell commands that all ran in one command,
  which prints the names of the ones that fail. The scripts are text here; what a check says of the host is the parameter
  \<open>ok\<close>, and \<open>shell_runs\<close> states what the shell prints for the one command a probe sends.
\<close>

abbreviation SQ :: char where "SQ \<equiv> CHR 0x27"
abbreviation DQ :: char where "DQ \<equiv> CHR 0x22"
abbreviation BS :: char where "BS \<equiv> CHR 0x5C"

definition script_text :: "string list \<Rightarrow> string" where
  "script_text ls = concat (map (\<lambda>l. l @ [NL]) ls)"

definition script_dir :: string where "script_dir = ''/var/lib/kluster/scripts''"
definition admin_kubectl :: string where "admin_kubectl = ''export KUBECONFIG=/etc/kubernetes/admin.conf'' @ [NL]"
definition strict :: string where "strict = script_text [''set -euo pipefail'', ''export DEBIAN_FRONTEND=noninteractive'']"

definition script_path :: "string \<Rightarrow> string" where
  "script_path name = script_dir @ ''/'' @ name @ ''.sh''"

definition run_script :: "'w exec \<Rightarrow> string \<Rightarrow> string \<Rightarrow> ('w, unit, string, string) io" where
  "run_script ex name code =
     io_bind (io_call (ex_run ex (''mkdir -p -m 700 '' @ script_dir))) (\<lambda>_.
     io_bind (io_call (ex_write ex (script_path name) (strict @ code))) (\<lambda>_.
       io_call (ex_run ex (''bash '' @ script_path name))))"

datatype check = Check (ck_name: string) (ck_cmd: string)

definition check_line :: "check \<Rightarrow> string" where
  "check_line c = ''if ! ( '' @ ck_cmd c @ '' ) >/dev/null 2>&1; then echo '' @ go_quote (ck_name c) @ ''; fi'' @ [NL]"

definition probe_text :: "check list \<Rightarrow> string" where
  "probe_text cs = concat (map check_line cs) @ ''true'' @ [NL]"

text \<open>\<open>strings.ReplaceAll\<close> of a newline by a comma.\<close>

definition comma_lines :: "string \<Rightarrow> string" where
  "comma_lines s = concat (map (\<lambda>c. if c = NL then '', '' else [c]) s)"

definition probe_status :: "check list \<Rightarrow> string \<Rightarrow> status" where
  "probe_status cs out' =
     (let failed = trim_space out' in
      if failed \<noteq> [] then \<lparr>st_done = False, st_detail = ''not yet: '' @ comma_lines failed\<rparr>
      else done_with (join_str '', '' (map ck_name cs)))"

definition probe_checks :: "'w exec \<Rightarrow> check list \<Rightarrow> ('w, string, status) call" where
  "probe_checks ex cs = (\<lambda>w. case ex_run ex (probe_text cs) w of (r, w') \<Rightarrow> (map_sum id (probe_status cs) r, w'))"

definition heredoc :: "string \<Rightarrow> string \<Rightarrow> string" where
  "heredoc path content =
     ''cat > '' @ path @ '' <<'' @ [SQ] @ ''EOF'' @ [SQ, NL] @ trim_right (\<lambda>c. c = NL) content @ [NL] @ ''EOF'' @ [NL]"

text \<open>A Stage with checks, a preview that is only text, and an act.\<close>

definition check_stage ::
  "'w exec \<Rightarrow> string \<Rightarrow> string \<Rightarrow> check list \<Rightarrow> string \<Rightarrow> ('w, unit, string, unit) io \<Rightarrow> 'w stage" where
  "check_stage ex name runbook cs preview act = \<lparr>sg_name = name, sg_runbook = runbook,
     sg_probe = (\<lambda>_. probe_checks ex cs), sg_preview = (\<lambda>_ w. (Inr preview, w)), sg_act = (\<lambda>_. io_run act)\<rparr>"

definition script_act :: "'w exec \<Rightarrow> string \<Rightarrow> string \<Rightarrow> ('w, unit, string, unit) io" where
  "script_act ex name code = io_bind (run_script ex name code) (\<lambda>_. io_return ())"

text \<open>\<open>At\<close>\<close>

definition at_runbook :: "string \<Rightarrow> 'w stage \<Rightarrow> 'w stage" where
  "at_runbook runbook s = s\<lparr>sg_runbook := runbook\<rparr>"

subsection \<open>What a probe says\<close>

text \<open>
  A name that \<open>echo\<close> prints as it is between double quotes, and what the shell does with the command of a probe: nothing
  to the host, and each check whose command fails is named on a line. A session returns the output trimmed.
\<close>

definition plain_name :: "string \<Rightarrow> bool" where
  "plain_name s \<longleftrightarrow> s \<noteq> [] \<and> list_all (\<lambda>c. is_digit c \<or> CHR ''a'' \<le> c \<and> c \<le> CHR ''z'' \<or> CHR ''A'' \<le> c \<and> c \<le> CHR ''Z'' \<or> c = CHR ''-'') s"

definition failed_lines :: "(string \<Rightarrow> bool) \<Rightarrow> check list \<Rightarrow> string" where
  "failed_lines ok cs = script_text (map ck_name (filter (\<lambda>c. \<not> ok (ck_cmd c)) cs))"

definition shell_runs :: "'w exec \<Rightarrow> ('w \<Rightarrow> 's) \<Rightarrow> ('s \<Rightarrow> string \<Rightarrow> bool) \<Rightarrow> check list \<Rightarrow> bool" where
  "shell_runs ex obs ok cs \<longleftrightarrow>
     (\<forall>w r w'. ex_run ex (probe_text cs) w = (r, w') \<longrightarrow>
        obs w' = obs w \<and> (\<forall>out'. r = Inr out' \<longrightarrow> trim_space out' = trim_space (failed_lines (ok (obs w)) cs)))"

lemma shell_runsD:
  "shell_runs ex obs ok cs \<Longrightarrow> ex_run ex (probe_text cs) w = (r, w') \<Longrightarrow>
     obs w' = obs w \<and> (\<forall>out'. r = Inr out' \<longrightarrow> trim_space out' = trim_space (failed_lines (ok (obs w)) cs))"
  unfolding shell_runs_def by blast

lemma plain_char:
  "is_digit c \<or> CHR ''a'' \<le> c \<and> c \<le> CHR ''z'' \<or> CHR ''A'' \<le> c \<and> c \<le> CHR ''Z'' \<or> c = CHR ''-'' \<Longrightarrow> \<not> is_space c \<and> c \<noteq> NL"
  by (auto simp: is_space_def is_digit_def less_eq_char_def)

lemma plain_nameD: "plain_name s \<Longrightarrow> s \<noteq> [] \<and> (\<forall>c \<in> set s. \<not> is_space c \<and> c \<noteq> NL)"
  unfolding plain_name_def list_all_iff using plain_char by blast

lemma trim_lines:
  assumes "\<forall>n \<in> set ns. n \<noteq> [] \<and> (\<forall>c \<in> set n. \<not> is_space c \<and> c \<noteq> NL)"
  shows "trim_space (script_text ns) = join_str [NL] ns"
proof (cases "ns = []")
  case False
  have eq: "script_text ns = join_str [NL] ns @ [NL]" if "ns \<noteq> []" for ns
    using that by (induction "[NL]" ns rule: join_str.induct) (auto simp: script_text_def)
  have "hd (join_str [NL] ns) = hd (hd ns) \<and> last (join_str [NL] ns) = last (last ns) \<and> join_str [NL] ns \<noteq> []"
    using assms False by (induction "[NL]" ns rule: join_str.induct) auto
  moreover have "\<not> is_space (hd (hd ns))" "\<not> is_space (last (last ns))"
    using assms False hd_in_set last_in_set by metis+
  ultimately have j: "join_str [NL] ns \<noteq> []" "\<not> is_space (hd (join_str [NL] ns))" "\<not> is_space (last (join_str [NL] ns))" by simp_all
  then have "trim_left is_space (join_str [NL] ns @ [NL]) = join_str [NL] ns @ [NL]" by (simp add: trim_left_id)
  moreover have "trim_right is_space (join_str [NL] ns @ [NL]) = join_str [NL] ns"
    using j(3) by (subst trim_right_append_all) (simp_all add: trim_right_id)
  ultimately show ?thesis unfolding eq [OF False] trim_space_def by simp
qed (simp add: script_text_def)

lemma comma_lines_join:
  assumes "\<forall>n \<in> set ns. \<forall>c \<in> set n. c \<noteq> NL"
  shows "comma_lines (join_str [NL] ns) = join_str '', '' ns"
proof -
  have plain: "comma_lines n = n" if "\<forall>c \<in> set n. c \<noteq> NL" for n
    using that by (induction n) (auto simp: comma_lines_def)
  have app: "comma_lines (a @ b) = comma_lines a @ comma_lines b" for a b by (simp add: comma_lines_def)
  have nl: "comma_lines [NL] = '', ''" "comma_lines [] = []" by (simp_all add: comma_lines_def)
  show ?thesis using assms
  proof (induction ns)
    case (Cons n ns)
    then have "comma_lines n = n" "comma_lines (join_str [NL] ns) = join_str '', '' ns" using plain [of n] by simp_all
    then show ?case by (cases ns) (simp_all only: join_str.simps app nl)
  qed (simp only: join_str.simps nl)
qed


definition half_checks :: "check list" where
  "half_checks = [Check ''user'' ''id cp-dev'', Check ''sudo'' ''sudo -n true'', Check ''runc'' ''runc --version'']"

definition half_exec :: "string list exec" where
  "half_exec = \<lparr>ex_exec = (\<lambda>c w. (Inr (failed_lines (\<lambda>x. x \<in> set w) half_checks), w)), ex_write = (\<lambda>_ _ w. (Inr (), w))\<rparr>"

lemma half_runs: "shell_runs half_exec id (\<lambda>w x. x \<in> set w) half_checks"
  by (simp add: shell_runs_def half_exec_def ex_run_def)


lemma check_stage_reads:
  assumes "shell_runs ex obs ok cs"
  shows "stage_reads obs (check_stage ex name runbook cs preview act)"
  unfolding stage_reads_def check_stage_def
  using shell_runsD [OF assms] by (auto simp: probe_checks_def split: prod.splits)

end
