(* ===== verification/CpStages.thy ===== *)
theory CpStages
  imports HostScript Config
begin

section \<open>stages/cp_*.go, private_network.go: the Stages that build the Control Plane\<close>

text \<open>
  The runbook's steps, each with the checks that prove it and the script that does it, written out as the code builds them
  from the fields of the Stage. A host is its \<open>exec\<close>; a field that comes from kluster.yaml is a string here as there.
\<close>

subsection \<open>The build marker\<close>

definition marker_path :: string where "marker_path = ''/etc/kluster/cp-init''"
definition marker_running :: string where "marker_running = ''running''"
definition marker_complete :: string where "marker_complete = ''complete''"

definition marker_file :: boot_file where
  "marker_file = \<lparr>bf_path = marker_path, bf_content = marker_running @ [NL], bf_permissions = ''0644''\<rparr>"

definition read_marker_line :: string where
  "read_marker_line = ''cat '' @ marker_path @ '' 2>/dev/null || true''"

definition read_marker :: "'w exec \<Rightarrow> ('w, string, string) call" where
  "read_marker ex = (\<lambda>w. case ex_run ex read_marker_line w of (r, w') \<Rightarrow> (map_sum id trim_space r, w'))"

definition write_marker_line :: string where
  "write_marker_line = ''echo '' @ marker_complete @ '' > '' @ marker_path"

definition complete_build :: "'w exec \<Rightarrow> 'w stage" where
  "complete_build ex = \<lparr>sg_name = ''complete-build'', sg_runbook = ''docs/runbook/control-plane.md#how-kluster-carries-this-out'',
     sg_probe = (\<lambda>_ w. case read_marker ex w of (r, w') \<Rightarrow>
       (map_sum id (\<lambda>m. \<lparr>st_done = (m = marker_complete), st_detail = marker_path @ '' = '' @ m\<rparr>) r, w')),
     sg_preview = (\<lambda>_ w. (Inr (write_marker_line @ [NL]), w)),
     sg_act = (\<lambda>_ w. case ex_run ex write_marker_line w of (r, w') \<Rightarrow> (map_sum id (\<lambda>_. ()) r, w'))\<rparr>"

subsection \<open>The private network\<close>

record private_network =
  pn_interface :: string
  pn_mac :: string
  pn_ip :: string

definition private_netplan :: string where "private_netplan = ''/etc/netplan/60-kluster-private.yaml''"

definition pn_netplan :: "private_network \<Rightarrow> string" where
  "pn_netplan p =
     join_str [NL]
       [''network:'',
        ''  version: 2'',
        ''  ethernets:'',
        ''    '' @ (pn_interface p) @ '':'',
        ''      match:'',
        ''        macaddress: '' @ [DQ] @ (pn_mac p) @ [DQ],
        ''      dhcp4: true'',
        ''      set-name: '' @ [DQ] @ (pn_interface p) @ [DQ]]"

definition pn_script :: "private_network \<Rightarrow> string" where
  "pn_script p =
     script_text
      [''# only if cloud-init did not already configure the interface'',
       ''if ! grep -rqi '' @ [SQ] @ (pn_mac p) @ [SQ] @ '' /etc/netplan/; then'',
       ''  umask 077'',
       ''  '' @ (heredoc private_netplan (pn_netplan p)) @ ''fi'',
       ''netplan generate'',
       ''networkctl reload'',
       ''networkctl reconfigure '' @ (pn_interface p),
       ''for i in $(seq 60); do ip -4 -o addr show '' @ (pn_interface p) @ '' | grep -q '' @ [SQ] @ ''inet '' @ (pn_ip p) @ ''/'' @ [SQ] @ '' && break; sleep 1; done'']"

definition pn_checks :: "private_network \<Rightarrow> check list" where
  "pn_checks p =
     [Check ''persistent'' (''grep -rqi '' @ [SQ] @ (pn_mac p) @ [SQ] @ '' /etc/netplan/''),
      Check ''address'' (''ip -4 -o addr show '' @ (pn_interface p) @ '' | grep -q '' @ [SQ] @ ''inet '' @ (pn_ip p) @ ''/'' @ [SQ])]"

definition pn_act :: "'w exec \<Rightarrow> private_network \<Rightarrow> ('w, unit, string, unit) io" where
  "pn_act ex p =
     (if pn_mac p = [] then io_fail (''no MAC address for '' @ pn_interface p @ '' from the API'')
      else script_act ex ''private-network'' (pn_script p))"

definition private_network_stage :: "'w exec \<Rightarrow> private_network \<Rightarrow> 'w stage" where
  "private_network_stage ex p = check_stage ex ''private-network'' ''docs/runbook/control-plane.md#2-base-host-setup''
     (pn_checks p) (pn_script p) (pn_act ex p)"

subsection \<open>The base setup of a host\<close>

record base_host =
  bh_user :: string
  bh_containerd :: string
  bh_runc :: string
  bh_cni_plugins :: string

definition bh_cni_script :: "base_host \<Rightarrow> string" where
  "bh_cni_script b =
     (if bh_cni_plugins b = [] then [] else script_text
      [[],
       ''# CNI plugins '' @ (bh_cni_plugins b),
       ''mkdir -p /opt/cni/bin'',
       ''wget -q https://github.com/containernetworking/plugins/releases/download/v'' @ (bh_cni_plugins b) @ ''/cni-plugins-linux-amd64-v'' @ (bh_cni_plugins b) @ ''.tgz'',
       ''tar -C /opt/cni/bin -xzf cni-plugins-linux-amd64-v'' @ (bh_cni_plugins b) @ ''.tgz''])"

definition sysctl_conf :: "string" where
  "sysctl_conf =
     join_str [NL] [''net.bridge.bridge-nf-call-iptables  = 1'', ''net.bridge.bridge-nf-call-ip6tables = 1'',
       ''net.ipv4.ip_forward                 = 1'']"

definition bh_script :: "base_host \<Rightarrow> string" where
  "bh_script b =
     script_text
      [''# first boot: cloud-init writes the host key and the kluster marker'',
       ''cloud-init status --wait >/dev/null || true'',
       [],
       ''# user'',
       ''id -u '' @ (bh_user b) @ '' >/dev/null 2>&1 || adduser --disabled-password --gecos '' @ [SQ, SQ] @ '' '' @ (bh_user b),
       ''usermod -aG sudo '' @ (bh_user b),
       ''install -d -m 700 -o '' @ (bh_user b) @ '' -g '' @ (bh_user b) @ '' /home/'' @ (bh_user b) @ ''/.ssh'',
       ''install -m 600 -o '' @ (bh_user b) @ '' -g '' @ (bh_user b) @ '' /root/.ssh/authorized_keys /home/'' @ (bh_user b) @ ''/.ssh/authorized_keys'',
       ''echo '' @ [SQ] @ (bh_user b) @ '' ALL=(ALL) NOPASSWD:ALL'' @ [SQ] @ '' > /etc/sudoers.d/'' @ (bh_user b),
       ''chmod 440 /etc/sudoers.d/'' @ (bh_user b),
       ''visudo -c'',
       [],
       ''# kernel modules and sysctl'',
       ''printf '' @ [SQ] @ ''overlay'' @ [BS] @ ''nbr_netfilter'' @ [BS] @ ''n'' @ [SQ] @ '' > /etc/modules-load.d/k8s.conf'',
       ''modprobe overlay'',
       ''modprobe br_netfilter'',
       (heredoc ''/etc/sysctl.d/k8s.conf'' sysctl_conf) @ ''sysctl --system'',
       [],
       ''# swap'',
       ''swapoff -a'',
       ''sed -i '' @ [SQ] @ ''/ swap / s/^#*/#/'' @ [SQ] @ '' /etc/fstab'',
       [],
       ''# packages and time sync'',
       ''apt-get -o DPkg::Lock::Timeout=300 update'',
       ''apt-get -o DPkg::Lock::Timeout=300 install -y chrony curl gpg apt-transport-https ca-certificates wget'',
       ''systemctl enable --now chrony'',
       [],
       ''# containerd '' @ (bh_containerd b),
       ''wget -qO- https://github.com/containerd/containerd/releases/download/v'' @ (bh_containerd b) @ ''/containerd-'' @ (bh_containerd b) @ ''-linux-amd64.tar.gz | tar -C /usr/local -xz'',
       ''mkdir -p /usr/local/lib/systemd/system'',
       ''curl -fsSL https://raw.githubusercontent.com/containerd/containerd/v'' @ (bh_containerd b) @ ''/containerd.service '' @ [BS],
       ''  -o /usr/local/lib/systemd/system/containerd.service'',
       ''mkdir -p /etc/containerd'',
       ''containerd config default > /etc/containerd/config.toml'',
       ''sed -i '' @ [SQ] @ ''s/SystemdCgroup = false/SystemdCgroup = true/'' @ [SQ] @ '' /etc/containerd/config.toml'',
       ''systemctl daemon-reload'',
       ''systemctl enable --now containerd'',
       [],
       ''# runc '' @ (bh_runc b),
       ''cd /tmp'',
       ''wget -q https://github.com/opencontainers/runc/releases/download/v'' @ (bh_runc b) @ ''/runc.amd64'',
       ''install -m 755 runc.amd64 /usr/local/sbin/runc''] @ bh_cni_script b"

definition bh_checks :: "base_host \<Rightarrow> check list" where
  "bh_checks b =
     [Check ''user'' (''id -u '' @ (bh_user b)),
      Check ''sudo'' (''sudo -u '' @ (bh_user b) @ '' sudo -n true''),
      Check ''authorized-keys'' (''cmp -s /root/.ssh/authorized_keys /home/'' @ (bh_user b) @ ''/.ssh/authorized_keys''),
      Check ''modules'' (''lsmod | grep -q '' @ [SQ] @ ''^overlay '' @ [SQ] @ '' && lsmod | grep -q '' @ [SQ] @ ''^br_netfilter '' @ [SQ]),
      Check ''sysctl'' (''[ '' @ [DQ] @ ''$(sysctl -n net.bridge.bridge-nf-call-iptables net.bridge.bridge-nf-call-ip6tables net.ipv4.ip_forward | tr -d '' @ [SQ, BS] @ ''n'' @ [SQ] @ '')'' @ [DQ] @ '' = 111 ]''),
      Check ''no-swap'' (''[ -z '' @ [DQ] @ ''$(swapon --show)'' @ [DQ] @ '' ] && ! grep -qE '' @ [SQ] @ ''^[^#].* swap '' @ [SQ] @ '' /etc/fstab''),
      Check ''chrony'' (''systemctl is-active --quiet chrony''),
      Check ''containerd'' (''containerd --version | grep -qw v'' @ (bh_containerd b) @ '' && systemctl is-active --quiet containerd && systemctl is-enabled --quiet containerd''),
      Check ''systemd-cgroup'' (''grep -q '' @ [SQ] @ ''SystemdCgroup = true'' @ [SQ] @ '' /etc/containerd/config.toml''),
      Check ''runc'' (''runc --version | head -1 | grep -qw '' @ (bh_runc b))] @
     (if bh_cni_plugins b \<noteq> [] then [Check ''cni-plugins'' (''[ -x /opt/cni/bin/bridge ]'')] else [])"

definition base_host_stage :: "'w exec \<Rightarrow> base_host \<Rightarrow> 'w stage" where
  "base_host_stage ex b = check_stage ex ''base-host'' ''docs/runbook/control-plane.md#2-base-host-setup''
     (bh_checks b) (bh_script b) (script_act ex ''base-host'' (bh_script b))"

subsection \<open>The WireGuard hub\<close>

record wireguard_hub =
  wu_address :: string
  wu_port :: int
  wu_peers :: "conf_peer list"

definition wg_public_key_file :: string where "wg_public_key_file = ''/etc/wireguard/public.key''"

definition int_string :: "int \<Rightarrow> string" where
  "int_string i = (if i < 0 then ''-'' else []) @ string_of_nat (nat (abs i))"

definition wu_peer :: "conf_peer \<Rightarrow> string" where
  "wu_peer p =
     script_text
      [[],
       ''[Peer]'',
       ''# '' @ (conf_peer.pe_name p),
       ''PublicKey  = '' @ (conf_peer.pe_public_key p),
       ''AllowedIPs = '' @ (conf_peer.pe_allowed_ips p)]"

definition wu_conf :: "wireguard_hub \<Rightarrow> string" where
  "wu_conf h =
     script_text
      [''[Interface]'',
       ''Address    = '' @ (wu_address h),
       ''ListenPort = '' @ (int_string (wu_port h)),
       ''PrivateKey = $(cat /etc/wireguard/private.key)'',
       [],
       ''# Worker peers are added by kluster node add; their VPN addresses are'',
       ''# declared in infra/workers/terraform.tfvars.''] @ concat (map wu_peer (wu_peers h))"

text \<open>The script of both sides, around the config that the shell completes with the key.\<close>

definition wg_script :: "string \<Rightarrow> string" where
  "wg_script conf =
     script_text
      [''apt-get -o DPkg::Lock::Timeout=300 install -y wireguard'',
       ''mkdir -p /etc/wireguard'',
       ''umask 077'',
       ''[ -s /etc/wireguard/private.key ] || wg genkey > /etc/wireguard/private.key'',
       ''wg pubkey < /etc/wireguard/private.key > '' @ wg_public_key_file,
       ''chmod 600 /etc/wireguard/private.key'',
       [],
       ''cat > /etc/wireguard/wg0.conf <<EOF'',
       conf @ ''EOF'',
       ''chmod 600 /etc/wireguard/wg0.conf'',
       [],
       ''systemctl enable wg-quick@wg0'',
       ''systemctl restart wg-quick@wg0'']"

definition grep_q :: "string \<Rightarrow> string \<Rightarrow> string \<Rightarrow> string \<Rightarrow> string" where
  "grep_q what flags a b = ''wg show wg0 '' @ what @ '' | grep -F '' @ go_quote a @ '' | grep '' @ flags @ '' '' @ go_quote b"

definition wu_checks :: "wireguard_hub \<Rightarrow> check list" where
  "wu_checks h =
     [Check ''wg0-up'' (''systemctl is-active --quiet wg-quick@wg0 && systemctl is-enabled --quiet wg-quick@wg0''),
      Check ''listen-port'' (''[ '' @ [DQ] @ ''$(wg show wg0 listen-port)'' @ [DQ] @ '' = '' @ (int_string (wu_port h)) @ '' ]''),
      Check ''address'' (''ip -4 -o addr show wg0 | grep -qw '' @ (wu_address h)),
      Check ''forwarding'' (''[ '' @ [DQ] @ ''$(sysctl -n net.ipv4.ip_forward)'' @ [DQ] @ '' = 1 ] && iptables -S FORWARD | head -1 | grep -qx -- '' @ [SQ] @ ''-P FORWARD ACCEPT'' @ [SQ])] @
     map (\<lambda>p. Check (''peer-'' @ conf_peer.pe_name p)
       (grep_q ''allowed-ips'' ''-qw'' (conf_peer.pe_public_key p) (conf_peer.pe_allowed_ips p))) (wu_peers h)"

definition wireguard_hub_stage :: "'w exec \<Rightarrow> wireguard_hub \<Rightarrow> 'w stage" where
  "wireguard_hub_stage ex h = check_stage ex ''wireguard-hub'' ''docs/runbook/control-plane.md#3-wireguard-hub''
     (wu_checks h) (wg_script (wu_conf h)) (script_act ex ''wireguard-hub'' (wg_script (wu_conf h)))"

definition hub_public_key :: "'w exec \<Rightarrow> ('w, string, string) call" where
  "hub_public_key ex = (\<lambda>w. case ex_run ex (''cat '' @ wg_public_key_file) w of (r, w') \<Rightarrow> (map_sum id trim_space r, w'))"

subsection \<open>The Kubernetes packages\<close>

text \<open>\<open>kp_minor\<close> is what \<open>semver.MajorMinor\<close> makes of the version.\<close>

record kube_prep =
  kp_version :: string
  kp_minor :: string
  kp_endpoint :: string
  kp_endpoint_ip :: string
  kp_node_ip :: string
  kp_hold_cni :: bool

definition kp_hosts_line :: "kube_prep \<Rightarrow> string" where
  "kp_hosts_line k = kp_endpoint_ip k @ ''  '' @ kp_endpoint k"

definition kp_held :: "kube_prep \<Rightarrow> string list" where
  "kp_held k = [''kubelet'', ''kubeadm'', ''kubectl''] @ (if kp_hold_cni k then [''kubernetes-cni''] else [])"

definition kp_kubelet_args :: "kube_prep \<Rightarrow> string" where
  "kp_kubelet_args k = ''KUBELET_EXTRA_ARGS=--node-ip='' @ kp_node_ip k @ '' --cloud-provider=external''"

definition kp_pkg_version :: "kube_prep \<Rightarrow> string" where
  "kp_pkg_version k = (case cut_prefix ''v'' (kp_version k) of Some r \<Rightarrow> r | None \<Rightarrow> kp_version k) @ ''-*''"

definition kp_repo :: "kube_prep \<Rightarrow> string" where
  "kp_repo k = ''https://pkgs.k8s.io/core:/stable:/'' @ kp_minor k @ ''/deb/''"

definition kp_script :: "kube_prep \<Rightarrow> string" where
  "kp_script k =
     script_text
      [''# Kubernetes '' @ (kp_minor k) @ '' packages'',
       ''mkdir -p /etc/apt/keyrings'',
       ''curl -fsSL '' @ (kp_repo k) @ ''Release.key | gpg --dearmor --yes -o /etc/apt/keyrings/kubernetes-apt-keyring.gpg'',
       ''echo '' @ [SQ] @ ''deb [signed-by=/etc/apt/keyrings/kubernetes-apt-keyring.gpg] '' @ (kp_repo k) @ '' /'' @ [SQ] @ '' '' @ [BS],
       ''  > /etc/apt/sources.list.d/kubernetes.list'',
       ''apt-get -o DPkg::Lock::Timeout=300 update'',
       ''apt-get -o DPkg::Lock::Timeout=300 install -y '' @ [BS],
       ''  kubelet='' @ [SQ] @ (kp_pkg_version k) @ [SQ] @ '' kubeadm='' @ [SQ] @ (kp_pkg_version k) @ [SQ] @ '' kubectl='' @ [SQ] @ (kp_pkg_version k) @ [SQ],
       ''apt-mark hold '' @ (join_str '' '' (kp_held k)),
       [],
       ''# the Control Plane Endpoint (ADR 0006)'',
       ''grep -qxF '' @ [SQ] @ (kp_hosts_line k) @ [SQ] @ '' /etc/hosts || echo '' @ [SQ] @ (kp_hosts_line k) @ [SQ] @ '' >> /etc/hosts'',
       [],
       ''# kubelet: private address, and external cloud provider'',
       ''echo '' @ [SQ] @ (kp_kubelet_args k) @ [SQ] @ '' > /etc/default/kubelet'',
       ''systemctl daemon-reexec'',
       ''systemctl enable kubelet'']"

definition kp_pattern :: "kube_prep \<Rightarrow> string" where
  "kp_pattern k =
     concat (map (\<lambda>c. if c = CHR ''.'' then [BS, c] else [c]) (kp_version k))"

definition kp_checks :: "kube_prep \<Rightarrow> check list" where
  "kp_checks k =
     [Check ''kubeadm'' (''kubeadm version -o short | grep -qx '' @ [SQ] @ (kp_pattern k) @ [SQ]),
      Check ''kubelet'' (''kubelet --version | grep -qx '' @ [SQ] @ ''Kubernetes '' @ (kp_pattern k) @ [SQ]),
      Check ''kubectl'' (''kubectl version --client 2>/dev/null | grep -qx '' @ [SQ] @ ''Client Version: '' @ (kp_pattern k) @ [SQ]),
      Check ''held'' (''[ '' @ [DQ] @ ''$(apt-mark showhold | grep -cxE '' @ [SQ] @ (join_str ''|'' (kp_held k)) @ [SQ] @ '')'' @ [DQ] @ '' = '' @ (string_of_nat (length (kp_held k))) @ '' ]''),
      Check ''endpoint'' (''[ '' @ [DQ] @ ''$(getent hosts '' @ (kp_endpoint k) @ '' | awk '' @ [SQ] @ ''{print $1}'' @ [SQ] @ '')'' @ [DQ] @ '' = '' @ (kp_endpoint_ip k) @ '' ]''),
      Check ''kubelet-args'' (''[ '' @ [DQ] @ ''$(cat /etc/default/kubelet)'' @ [DQ] @ '' = '' @ [SQ] @ (kp_kubelet_args k) @ [SQ] @ '' ]''),
      Check ''kubelet-enabled'' (''systemctl is-enabled --quiet kubelet'')]"

text \<open>The preview on a host that exists; \<open>unified\<close> is the diff of package filediff.\<close>

definition kp_preview ::
  "'w exec \<Rightarrow> (path \<Rightarrow> string \<Rightarrow> string \<Rightarrow> string) \<Rightarrow> kube_prep \<Rightarrow> host \<Rightarrow> ('w, unit, string, string) io" where
  "kp_preview ex unified k h =
     (if \<not> h_connected h then io_return (kp_script k)
      else io_bind (io_call (ex_run ex ''cat /etc/hosts'')) (\<lambda>hosts.
        (let new = (if kp_hosts_line k \<in> set (split_on NL hosts) then hosts else hosts @ [NL] @ kp_hosts_line k) in
         io_bind (io_call (ex_run ex ''cat /etc/default/kubelet 2>/dev/null || true'')) (\<lambda>kubelet.
           io_return (kp_script k @ unified ''/etc/hosts'' hosts new @
             unified ''/etc/default/kubelet'' kubelet (kp_kubelet_args k))))))"

definition kube_prep_stage :: "'w exec \<Rightarrow> (path \<Rightarrow> string \<Rightarrow> string \<Rightarrow> string) \<Rightarrow> kube_prep \<Rightarrow> 'w stage" where
  "kube_prep_stage ex unified k =
     (check_stage ex ''kube-prep'' ''docs/runbook/control-plane.md#4-prepare-for-kubeadm-init''
       (kp_checks k) [] (script_act ex ''kube-prep'' (kp_script k)))\<lparr>sg_preview := (\<lambda>h. io_run (kp_preview ex unified k h))\<rparr>"

subsection \<open>kubeadm init\<close>

record kubeadm_init =
  ki_endpoint :: string
  ki_private_ip :: string
  ki_vpn_ip :: string
  ki_public_ip :: string
  ki_pod_cidr :: string
  ki_service_cidr :: string

definition init_log :: string where "init_log = ''/root/kluster-kubeadm-init.log''"
definition dry_run_log :: string where "dry_run_log = ''/root/kluster-kubeadm-dry-run.log''"
definition reset_log :: string where "reset_log = ''/root/kluster-kubeadm-reset.log''"

definition ki_flags :: "kubeadm_init \<Rightarrow> string" where
  "ki_flags k =
     ''--control-plane-endpoint='' @ (ki_endpoint k) @ '':6443 --apiserver-advertise-address='' @ (ki_private_ip k) @
     '' --pod-network-cidr='' @ (ki_pod_cidr k) @ '' --service-cidr='' @ (ki_service_cidr k) @ '' --apiserver-cert-extra-sans='' @ (ki_vpn_ip k) @ '','' @ (ki_public_ip k)"

definition no_token :: "string \<Rightarrow> string" where
  "no_token log =
     ''grep -v -e '' @ [SQ] @ ''kubeadm join'' @ [SQ] @ '' -e '' @ [SQ] @ ''discovery-token'' @ [SQ] @ '' -e '' @ [SQ] @ ''--token'' @ [SQ] @ '' '' @ log @ '' | tail -n 30''"

definition reset_half_init :: "string" where
  "reset_half_init =
     script_text
      [''if [ -e /etc/kubernetes/manifests/kube-apiserver.yaml ] || [ -e /etc/kubernetes/admin.conf ]; then'',
       ''  if [ '' @ [DQ] @ ''$(cat '' @ marker_path @ '' 2>/dev/null)'' @ [DQ] @ '' != '' @ marker_running @ '' ]; then'',
       ''    echo '' @ [SQ] @ ''a kubeadm init is left, but '' @ marker_path @ '' is not '' @ marker_running @ '': refusing to reset'' @ [SQ],
       ''    exit 1'',
       ''  fi'',
       ''  echo '' @ [SQ] @ ''a cut kubeadm init is left: kubeadm reset -f'' @ [SQ],
       ''  if ! kubeadm reset -f > '' @ reset_log @ '' 2>&1; then'',
       ''    tail -n 30 '' @ reset_log,
       ''    exit 1'',
       ''  fi'',
       ''  rm -f '' @ reset_log,
       ''  # kubeadm reset leaves the CNI configuration; flannel writes it again.'',
       ''  rm -f /etc/cni/net.d/*'',
       ''fi'']"

definition ki_dry_run :: "kubeadm_init \<Rightarrow> string" where
  "ki_dry_run k =
     reset_half_init @ script_text
      [''umask 077'',
       ''if ! kubeadm init --dry-run '' @ (ki_flags k) @ '' > '' @ dry_run_log @ '' 2>&1; then'',
       ''  '' @ (no_token dry_run_log),
       ''  exit 1'',
       ''fi'',
       ''if ! grep '' @ [SQ] @ ''apiserver serving cert is signed for'' @ [SQ] @ '' '' @ dry_run_log @ ''; then'',
       ''  echo '' @ [SQ] @ ''the dry run printed no serving certificate line'' @ [SQ],
       ''  '' @ (no_token dry_run_log),
       ''  exit 1'',
       ''fi'',
       ''rm -f '' @ dry_run_log]"

definition ki_init :: "kubeadm_init \<Rightarrow> string" where
  "ki_init k =
     script_text
      [''rm -rf /etc/kubernetes/tmp'',
       ''umask 077'',
       ''if ! kubeadm init '' @ (ki_flags k) @ '' > '' @ init_log @ '' 2>&1; then'',
       ''  '' @ (no_token init_log),
       ''  exit 1'',
       ''fi'',
       ''rm -f '' @ init_log]"

text \<open>The first service address is the one after the prefix's own; \<open>String\<close> of the last address of a family prints as invalid.\<close>

definition ki_want_sans :: "kubeadm_init \<Rightarrow> string + string list" where
  "ki_want_sans k =
     (case parse_prefix (ki_service_cidr k) of
        None \<Rightarrow> Inl ''service CIDR: bad prefix''
      | Some p \<Rightarrow> Inr [ki_endpoint k,
          (case addr_next (pf_addr p) of Some a \<Rightarrow> addr_string a | None \<Rightarrow> ''invalid IP''),
          ki_private_ip k, ki_vpn_ip k, ki_public_ip k])"

definition missing_sans :: "string \<Rightarrow> string list \<Rightarrow> string list" where
  "missing_sans line want =
     filter (\<lambda>x. x \<notin> set (filter (\<lambda>f. f \<noteq> []) (split_by (\<lambda>c. c = CHR '' '' \<or> c = CHR ''['' \<or> c = CHR '']'') line))) want"

definition kubeadm_config :: "string \<Rightarrow> string" where
  "kubeadm_config line = admin_kubectl @ ''kubectl -n kube-system get cm kubeadm-config -o jsonpath='' @ [SQ] @
     ''{.data.ClusterConfiguration}'' @ [SQ] @ '' | grep -qx '' @ [SQ] @ line @ [SQ]"

definition sans_command :: string where
  "sans_command = ''openssl x509 -in /etc/kubernetes/pki/apiserver.crt -noout -ext subjectAltName''"

definition ki_checks :: "kubeadm_init \<Rightarrow> check list" where
  "ki_checks k =
     [Check ''admin-conf'' (''[ -s /etc/kubernetes/admin.conf ]''),
      Check ''readyz'' (admin_kubectl @ ''[ '' @ [DQ] @ ''$(kubectl get --raw=/readyz)'' @ [DQ] @ '' = ok ]''),
      Check ''endpoint'' ((kubeadm_config (''controlPlaneEndpoint: '' @ ki_endpoint k @ '':6443''))),
      Check ''pod-subnet'' ((kubeadm_config (''  podSubnet: '' @ ki_pod_cidr k))),
      Check ''service-subnet'' ((kubeadm_config (''  serviceSubnet: '' @ ki_service_cidr k))),
      Check ''cert-sans'' (sans_command @ '' | grep -q '' @ [SQ] @ ''IP Address:'' @ (ki_vpn_ip k) @ [SQ] @ '' && '' @ sans_command @ '' | grep -q '' @ [SQ] @ ''IP Address:'' @ (ki_public_ip k) @ [SQ])]"

definition ki_preview :: "kubeadm_init \<Rightarrow> string" where
  "ki_preview k = ''# dry run; the serving certificate must name '' @
     join_str '', '' (case ki_want_sans k of Inl e \<Rightarrow> [e] | Inr s \<Rightarrow> s) @ [NL] @ ki_dry_run k @ ki_init k"

definition ki_act :: "'w exec \<Rightarrow> kubeadm_init \<Rightarrow> ('w, unit, string, unit) io" where
  "ki_act ex k =
     io_bind (io_result (ki_want_sans k)) (\<lambda>want.
     io_bind (io_map_err (\<lambda>e. ''kubeadm init --dry-run: '' @ e) (run_script ex ''kubeadm-init-dry-run'' (ki_dry_run k))) (\<lambda>line.
       if missing_sans line want \<noteq> []
       then io_fail (''the dry run'' @ [SQ] @ ''s serving certificate lacks ['' @ join_str '' '' (missing_sans line want) @ '']: '' @ line)
       else script_act ex ''kubeadm-init'' (ki_init k)))"

definition kubeadm_init_stage :: "'w exec \<Rightarrow> kubeadm_init \<Rightarrow> 'w stage" where
  "kubeadm_init_stage ex k = check_stage ex ''kubeadm-init'' ''docs/runbook/control-plane.md#5-kubeadm-init''
     (ki_checks k) (ki_preview k) (ki_act ex k)"

subsection \<open>The pod network, the cloud controller and the volumes\<close>

definition manifest_dir :: string where "manifest_dir = ''/var/lib/kluster/manifests''"
definition token_file :: string where "token_file = ''/run/kluster/hcloud-token''"

definition write_manifest :: "'w exec \<Rightarrow> string \<Rightarrow> string \<Rightarrow> ('w, unit, string, unit) io" where
  "write_manifest ex name manifest =
     io_bind (io_call (ex_run ex (''mkdir -p -m 700 '' @ manifest_dir))) (\<lambda>_.
       io_call (ex_write ex (manifest_dir @ ''/'' @ name @ ''.yaml'') manifest))"

record flannel =
  fl_manifest :: string
  fl_node :: string
  fl_private_ip :: string
  fl_interface :: string
  fl_pod_mtu :: int

definition fl_script :: "flannel \<Rightarrow> string" where
  "fl_script f =
     admin_kubectl @ script_text
      [''kubectl apply -f '' @ manifest_dir @ ''/flannel.yaml'',
       ''kubectl wait --for=condition=Ready node/'' @ (fl_node f) @ '' --timeout=300s'',
       ''kubectl -n kube-flannel rollout status ds/kube-flannel-ds --timeout=300s'',
       ''for i in $(seq 60); do ip link show flannel.1 >/dev/null 2>&1 && break; sleep 2; done'']"

definition fl_checks :: "flannel \<Rightarrow> check list" where
  "fl_checks f =
     [Check ''node-ready'' (admin_kubectl @ ''[ '' @ [DQ] @ ''$(kubectl get node '' @ (fl_node f) @ '' -o jsonpath='' @ [SQ] @ ''{.status.conditions[?(@.type=='' @ [DQ] @ ''Ready'' @ [DQ] @ '')].status}'' @ [SQ] @ '')'' @ [DQ] @ '' = True ]''),
      Check ''flannel-ds'' (admin_kubectl @ ''kubectl -n kube-flannel rollout status ds/kube-flannel-ds --timeout=5s''),
      Check ''interface-pin'' (''ip -d link show flannel.1 | grep -q '' @ [SQ] @ ''local '' @ (fl_private_ip f) @ '' dev '' @ (fl_interface f) @ [SQ]),
      Check ''mtu'' (''ip link show flannel.1 | grep -qw '' @ [SQ] @ ''mtu '' @ (int_string (fl_pod_mtu f)) @ [SQ])]"

definition flannel_stage :: "'w exec \<Rightarrow> flannel \<Rightarrow> 'w stage" where
  "flannel_stage ex f = check_stage ex ''cni-flannel'' ''docs/runbook/control-plane.md#7-flannel'' (fl_checks f)
     (''# write core/cni/flannel.yaml to '' @ manifest_dir @ ''/flannel.yaml'' @ [NL] @ fl_script f)
     (io_bind (write_manifest ex ''flannel'' (fl_manifest f)) (\<lambda>_. script_act ex ''cni-flannel'' (fl_script f)))"

record cloud_controller =
  cc_token :: string
  cc_network :: string
  cc_manifest :: string
  cc_node :: string
  cc_server_id :: string
  cc_private_ip :: string

definition cc_script :: "cloud_controller \<Rightarrow> string" where
  "cc_script c =
     admin_kubectl @ script_text
      [''trap '' @ [SQ] @ ''rm -f '' @ token_file @ [SQ] @ '' EXIT'',
       ''kubectl -n kube-system create secret generic hcloud '' @ [BS],
       ''  --from-file=token='' @ token_file @ '' --from-literal=network='' @ (cc_network c) @ '' '' @ [BS],
       ''  --dry-run=client -o yaml | kubectl apply -f -'',
       ''kubectl apply -f '' @ manifest_dir @ ''/ccm.yaml'',
       ''kubectl -n kube-system rollout status deploy/hcloud-cloud-controller-manager --timeout=300s'',
       ''for i in $(seq 90); do'',
       ''  [ -n '' @ [DQ] @ ''$(kubectl get node '' @ (cc_node c) @ '' -o jsonpath='' @ [SQ] @ ''{.spec.providerID}'' @ [SQ] @ '')'' @ [DQ] @ '' ] && break'',
       ''  sleep 2'',
       ''done'']"

definition node_path :: "string \<Rightarrow> string \<Rightarrow> string" where
  "node_path node path = ''kubectl get node '' @ node @ '' -o jsonpath='' @ [SQ] @ path @ [SQ]"

definition cc_checks :: "cloud_controller \<Rightarrow> check list" where
  "cc_checks c =
     [Check ''secret-network'' (admin_kubectl @ ''[ '' @ [DQ] @ ''$(kubectl -n kube-system get secret hcloud -o jsonpath='' @ [SQ] @ ''{.data.network}'' @ [SQ] @ '' | base64 -d)'' @ [DQ] @ '' = '' @ (cc_network c) @ '' ]''),
      Check ''secret-token'' (admin_kubectl @ ''[ -n '' @ [DQ] @ ''$(kubectl -n kube-system get secret hcloud -o jsonpath='' @ [SQ] @ ''{.data.token}'' @ [SQ] @ '')'' @ [DQ] @ '' ]''),
      Check ''ccm'' (admin_kubectl @ ''kubectl -n kube-system rollout status deploy/hcloud-cloud-controller-manager --timeout=5s''),
      Check ''provider-id'' (admin_kubectl @ ''[ '' @ [DQ] @ ''$('' @ (node_path (cc_node c) ''{.spec.providerID}'') @ '')'' @ [DQ] @ '' = hcloud://'' @ (cc_server_id c) @ '' ]''),
      Check ''initialized'' (admin_kubectl @ ''! '' @ (node_path (cc_node c) ''{.spec.taints[*].key}'') @ '' | grep -q uninitialized''),
      Check ''internal-ip'' (admin_kubectl @ ''[ '' @ [DQ] @ ''$('' @ (node_path (cc_node c) (''{.status.addresses[?(@.type=='' @ [DQ] @ ''InternalIP'' @ [DQ] @ '')].address}'')) @ '')'' @ [DQ] @ '' = '' @ (cc_private_ip c) @ '' ]'')]"

definition cc_preview :: "cloud_controller \<Rightarrow> string" where
  "cc_preview c =
     ''# write the token of this environment to '' @ token_file @ '' (tmpfs, 0600)'' @ [NL] @
     ''# write core/hcloud/ccm.yaml to '' @ manifest_dir @ ''/ccm.yaml'' @ [NL] @ cc_script c"

definition cc_act :: "'w exec \<Rightarrow> cloud_controller \<Rightarrow> ('w, unit, string, unit) io" where
  "cc_act ex c =
     (if cc_token c = [] then io_fail ''no Hetzner token for the hcloud Secret''
      else io_bind (write_manifest ex ''ccm'' (cc_manifest c)) (\<lambda>_.
        io_bind (io_call (ex_run ex ''mkdir -p -m 700 /run/kluster'')) (\<lambda>_.
        io_bind (io_call (ex_write ex token_file (cc_token c))) (\<lambda>_.
          script_act ex ''cloud-controller'' (cc_script c)))))"

definition cloud_controller_stage :: "'w exec \<Rightarrow> cloud_controller \<Rightarrow> 'w stage" where
  "cloud_controller_stage ex c = check_stage ex ''cloud-controller''
     ''docs/runbook/control-plane.md#8-hcloud-cloud-controller-manager-then-the-csi-driver'' (cc_checks c) (cc_preview c) (cc_act ex c)"

text \<open>The CSI driver, from its manifest.\<close>

definition csi_script :: "string" where
  "csi_script =
     admin_kubectl @ script_text
      [''kubectl apply -f '' @ manifest_dir @ ''/csi.yaml'',
       ''kubectl -n kube-system rollout status ds/hcloud-csi-node --timeout=300s'']"

definition csi_checks :: "check list" where
  "csi_checks =
     [Check ''default-storageclass'' (admin_kubectl @ ''[ '' @ [DQ] @ ''$(kubectl get sc hcloud-volumes -o jsonpath='' @ [SQ] @ ''{.metadata.annotations.storageclass'' @ [BS] @ ''.kubernetes'' @ [BS] @ ''.io/is-default-class}'' @ [SQ] @ '')'' @ [DQ] @ '' = true ]''),
      Check ''csi-node'' (admin_kubectl @ ''kubectl -n kube-system rollout status ds/hcloud-csi-node --timeout=5s'')]"

definition csi_stage :: "'w exec \<Rightarrow> string \<Rightarrow> 'w stage" where
  "csi_stage ex manifest = check_stage ex ''csi'' ''docs/runbook/control-plane.md#8c-the-csi-driver'' csi_checks
     (''# write core/hcloud/csi.yaml to '' @ manifest_dir @ ''/csi.yaml'' @ [NL] @ csi_script)
     (io_bind (write_manifest ex ''csi'' manifest) (\<lambda>_. script_act ex ''csi'' csi_script))"

subsection \<open>The token\<close>

text \<open>
  \<open>watched lines texts secret ex other\<close> is \<open>ex\<close> for the given command lines, for the given files with the given texts, and
  for any text in the one file \<open>secret\<close>; every other call behaves as \<open>other\<close>, which may do anything. \<open>cc_lines\<close> and
  \<open>cc_texts\<close> are what the Stage sends to the host apart from the token.
\<close>

definition watched ::
  "string list \<Rightarrow> (path \<times> string) list \<Rightarrow> path \<Rightarrow> 'w exec \<Rightarrow> 'w exec \<Rightarrow> 'w exec" where
  "watched lines texts secret ex other =
     \<lparr>ex_exec = (\<lambda>c. if c \<in> set lines then ex_exec ex c else ex_exec other c),
      ex_write = (\<lambda>p s. if p = secret \<or> (p, s) \<in> set texts then ex_write ex p s else ex_write other p s)\<rparr>"

definition cc_lines :: "cloud_controller \<Rightarrow> string list" where
  "cc_lines c = [''mkdir -p -m 700 '' @ manifest_dir, ''mkdir -p -m 700 /run/kluster'', ''mkdir -p -m 700 '' @ script_dir,
     ''bash '' @ script_path ''cloud-controller'', probe_text (cc_checks c)]"

definition cc_texts :: "cloud_controller \<Rightarrow> (path \<times> string) list" where
  "cc_texts c = [(manifest_dir @ ''/ccm.yaml'', cc_manifest c), (script_path ''cloud-controller'', strict @ cc_script c)]"

text \<open>The Stage without its token is the same Stage everywhere but in its act.\<close>

lemma token_unread:
  "cc_lines (c\<lparr>cc_token := t\<rparr>) = cc_lines c" "cc_texts (c\<lparr>cc_token := t\<rparr>) = cc_texts c"
  "cc_preview (c\<lparr>cc_token := t\<rparr>) = cc_preview c" "cc_checks (c\<lparr>cc_token := t\<rparr>) = cc_checks c"
  by (simp_all add: cc_lines_def cc_texts_def cc_preview_def cc_checks_def cc_script_def)

lemma watched_run: "c \<in> set ls \<Longrightarrow> ex_run (watched ls fs p ex other) c = ex_run ex c"
  by (simp add: watched_def ex_run_def)

lemma watched_write: "q = p \<or> (q, s) \<in> set fs \<Longrightarrow> ex_write (watched ls fs p ex other) q s = ex_write ex q s"
  by (auto simp: watched_def)

text \<open>The Stage sends these lines and texts, and its token.\<close>

lemma same_act:
  assumes "\<And>x. x \<in> set (cc_lines c) \<Longrightarrow> ex_run ex' x = ex_run ex x"
    and "\<And>p s. p = token_file \<or> (p, s) \<in> set (cc_texts c) \<Longrightarrow> ex_write ex' p s = ex_write ex p s"
  shows "cc_act ex' c = cc_act ex c"
proof -
  have lines: "ex_run ex' (''mkdir -p -m 700 '' @ manifest_dir) = ex_run ex (''mkdir -p -m 700 '' @ manifest_dir)"
    "ex_run ex' ''mkdir -p -m 700 /run/kluster'' = ex_run ex ''mkdir -p -m 700 /run/kluster''"
    "ex_run ex' (''mkdir -p -m 700 '' @ script_dir) = ex_run ex (''mkdir -p -m 700 '' @ script_dir)"
    "ex_run ex' (''bash '' @ script_path ''cloud-controller'') = ex_run ex (''bash '' @ script_path ''cloud-controller'')"
    by (rule assms(1), simp add: cc_lines_def)+
  have ccm: "manifest_dir @ ''/'' @ ''ccm'' @ ''.yaml'' = manifest_dir @ ''/ccm.yaml''" by simp
  have texts: "ex_write ex' (manifest_dir @ ''/ccm.yaml'') (cc_manifest c) = ex_write ex (manifest_dir @ ''/ccm.yaml'') (cc_manifest c)"
    "ex_write ex' token_file (cc_token c) = ex_write ex token_file (cc_token c)"
    "ex_write ex' (script_path ''cloud-controller'') (strict @ cc_script c) = ex_write ex (script_path ''cloud-controller'') (strict @ cc_script c)"
    by (rule assms(2), simp add: cc_texts_def)+
  show ?thesis unfolding cc_act_def write_manifest_def script_act_def run_script_def ccm lines texts ..
qed

lemma same_probe:
  assumes "\<And>x. x \<in> set (cc_lines c) \<Longrightarrow> ex_run ex' x = ex_run ex x"
  shows "probe_checks ex' (cc_checks c) = probe_checks ex (cc_checks c)"
proof -
  have "ex_run ex' (probe_text (cc_checks c)) = ex_run ex (probe_text (cc_checks c))"
    by (rule assms) (simp add: cc_lines_def)
  then show ?thesis unfolding probe_checks_def by simp
qed

text \<open>
  C37 The cluster's Hetzner token reaches the host in one way only: as the content of its file on tmpfs. A run of the Stage sends
  no command line and no other text that depends on the token (they are those of the Stage with another token), in Plan Mode
  and with --apply alike; so it is in no preview, no kept script, no probe and no manifest.
\<close>

theorem token_reaches_one_file:
  "run_stage m h (cloud_controller_stage (watched (cc_lines (c\<lparr>cc_token := t\<rparr>)) (cc_texts (c\<lparr>cc_token := t\<rparr>)) token_file ex other) c) =
   run_stage m h (cloud_controller_stage ex c) \<and>
   sg_preview (cloud_controller_stage ex (c\<lparr>cc_token := t\<rparr>)) = sg_preview (cloud_controller_stage ex c)"
proof -
  define ex' where "ex' = watched (cc_lines (c\<lparr>cc_token := t\<rparr>)) (cc_texts (c\<lparr>cc_token := t\<rparr>)) token_file ex other"
  have run: "ex_run ex' x = ex_run ex x" if "x \<in> set (cc_lines c)" for x
    using that by (simp add: ex'_def watched_run token_unread)
  have wr: "ex_write ex' p s = ex_write ex p s" if "p = token_file \<or> (p, s) \<in> set (cc_texts c)" for p s
    using that by (simp add: ex'_def watched_write token_unread)
  have "cc_act ex' c = cc_act ex c" and "probe_checks ex' (cc_checks c) = probe_checks ex (cc_checks c)"
    using same_act [OF run wr] same_probe [OF run] by simp_all
  then show ?thesis unfolding ex'_def [symmetric] by (simp add: cloud_controller_stage_def check_stage_def token_unread)
qed

end
