(* ===== verification/WorkerStages.thy ===== *)
theory WorkerStages
  imports CpStages NodeSafe
begin

section \<open>stages/worker_wireguard.go, worker_join.go: the Stages that bring a Worker in\<close>

text \<open>
  The Worker becomes a spoke, the hub gets its peer, the Worker joins with a token minted for it, and the Control Plane waits
  for its Node. \<open>worker_build_of\<close> is the list of Stages that \<open>node add\<close> and \<open>node replace\<close> run (\<open>cmd/node_add.go\<close>), the
  record the commands of \<open>NodeOps\<close> take; the rotation of the host key comes first and is a parameter of it.
\<close>

subsection \<open>The spoke\<close>

record wireguard_spoke =
  wk_address :: string
  wk_hub_key :: string
  wk_hub_endpoint :: string
  wk_routes :: string

definition spoke_conf :: "wireguard_spoke \<Rightarrow> string" where
  "spoke_conf s =
     script_text
      [''[Interface]'',
       ''Address    = '' @ (wk_address s),
       ''PrivateKey = $(cat /etc/wireguard/private.key)'',
       [],
       ''[Peer]'',
       ''# the hub and router'',
       ''PublicKey           = '' @ (wk_hub_key s),
       ''AllowedIPs          = '' @ (wk_routes s),
       ''Endpoint            = '' @ (wk_hub_endpoint s),
       ''PersistentKeepalive = 25'']"

definition spoke_checks :: "wireguard_spoke \<Rightarrow> check list" where
  "spoke_checks s =
     [Check ''wg0-up'' (''systemctl is-active --quiet wg-quick@wg0 && systemctl is-enabled --quiet wg-quick@wg0''),
      Check ''address'' (''ip -4 -o addr show wg0 | grep -qw '' @ (wk_address s)),
      Check ''no-listen-port'' (''! grep -qi '' @ [SQ] @ ''^ListenPort'' @ [SQ] @ '' '' @ wg_conf),
      Check ''hub-peer'' ((grep_q ''allowed-ips'' ''-qw'' (wk_hub_key s) (wk_routes s))),
      Check ''hub-endpoint'' ((grep_q ''endpoints'' ''-qF'' (wk_hub_key s) (wk_hub_endpoint s)))]"

definition spoke_act :: "'w exec \<Rightarrow> wireguard_spoke \<Rightarrow> ('w, unit, string, unit) io" where
  "spoke_act ex s =
     (if wk_hub_key s = [] \<or> wk_hub_endpoint s = [] then io_fail ''no hub key or endpoint''
      else script_act ex ''wireguard-spoke'' (wg_script (spoke_conf s)))"

definition spoke_stage :: "'w exec \<Rightarrow> wireguard_spoke \<Rightarrow> 'w stage" where
  "spoke_stage ex s = check_stage ex ''wireguard-spoke'' ''docs/runbook/workers.md#6-wireguard''
     (spoke_checks s) (wg_script (spoke_conf s)) (spoke_act ex s)"

subsection \<open>The peer of the hub\<close>

definition wg_set :: "peer \<Rightarrow> string" where
  "wg_set p = ''wg set wg0 peer '' @ peer.pe_public_key p @ '' allowed-ips '' @ peer.pe_allowed_ips p"

definition add_checks :: "peer \<Rightarrow> check list" where
  "add_checks p =
     [Check ''in-file'' (''grep -qF '' @ go_quote (peer.pe_public_key p) @ '' '' @ wg_conf),
      Check ''live'' (grep_q ''allowed-ips'' ''-qw'' (peer.pe_public_key p) (peer.pe_allowed_ips p))]"

definition add_text :: "wg_error \<Rightarrow> string" where
  "add_text e = (case e of
       KeyHeld k n \<Rightarrow> ''a [Peer] with key '' @ k @ '' exists already ('' @ n @ '')''
     | AllowedIPsHeld n a \<Rightarrow> ''[Peer] '' @ go_quote n @ '' holds AllowedIPs '' @ a @ '' already''
     | _ \<Rightarrow> [])"

text \<open>\<open>edit\<close> on the text of the file.\<close>

definition edit_conf :: "string \<Rightarrow> peer \<Rightarrow> string + string" where
  "edit_conf old p =
     (if list_ex (\<lambda>q. peer.pe_public_key q = peer.pe_public_key p \<and> peer.pe_allowed_ips q = peer.pe_allowed_ips p) (peers old)
      then Inr old
      else (case add_peer old p of Inl e \<Rightarrow> Inl (add_text e) | Inr new \<Rightarrow> Inr new))"

definition add_preview :: "'w cp_host \<Rightarrow> peer \<Rightarrow> host \<Rightarrow> ('w, unit, string, string) io" where
  "add_preview ch p h =
     (let cmds = ''# back up '' @ wg_conf @ '', append the [Peer], then'' @ [NL] @ wg_set p @ [NL] in
      if \<not> h_connected h then io_return cmds
      else io_bind (read_conf ch) (\<lambda>old.
        io_bind (io_result (edit_conf old p)) (\<lambda>new. io_return (cmds @ ch_unified ch wg_conf old new))))"

definition add_act :: "'w cp_host \<Rightarrow> peer \<Rightarrow> ('w, unit, string, unit) io" where
  "add_act ch p =
     io_bind (read_conf ch) (\<lambda>old.
     io_bind (io_result (edit_conf old p)) (\<lambda>new.
     io_bind (if new = old then io_return ()
       else io_bind (io_call (ex_run (ch_exec ch) (backup ch))) (\<lambda>_.
         io_call (ex_write (ch_exec ch) wg_conf (new @ [NL])))) (\<lambda>_.
     io_bind (io_call (ex_run (ch_exec ch) (wg_set p))) (\<lambda>_. io_return ()))))"

definition hub_peer_stage :: "'w cp_host \<Rightarrow> peer \<Rightarrow> 'w stage" where
  "hub_peer_stage ch p = (check_stage (ch_exec ch) ''hub-peer'' ''docs/runbook/workers.md#6-wireguard'' (add_checks p) []
     (add_act ch p))\<lparr>sg_preview := (\<lambda>h. io_run (add_preview ch p h))\<rparr>"

subsection \<open>The join\<close>

definition join_file :: string where "join_file = ''/run/kluster/join''"
definition join_log :: string where "join_log = ''/root/kluster-kubeadm-join.log''"
definition mint_join :: string where "mint_join = ''kubeadm token create --print-join-command --ttl 15m''"

definition join_run :: "string" where
  "join_run =
     script_text
      [''trap '' @ [SQ] @ ''rm -f '' @ join_file @ [SQ] @ '' EXIT'',
       ''umask 077'',
       ''if ! bash '' @ join_file @ '' > '' @ join_log @ '' 2>&1; then'',
       ''  '' @ (no_token join_log),
       ''  exit 1'',
       ''fi'',
       ''rm -f '' @ join_log]"

definition join_checks :: "check list" where
  "join_checks =
     [Check ''kubelet-conf'' (''[ -s /etc/kubernetes/kubelet.conf ]''),
      Check ''kubelet'' (''systemctl is-active --quiet kubelet'')]"

definition join_preview :: string where
  "join_preview = ''# on the Control Plane: '' @ mint_join @ [NL] @ ''# write it to '' @ join_file @ '' (tmpfs, 0700), then'' @ [NL] @ join_run"

text \<open>Whether the minted command is the one expected: one line that joins the endpoint.\<close>

definition join_wanted :: "string \<Rightarrow> string" where
  "join_wanted endpoint = ''kubeadm join '' @ endpoint @ '':6443 ''"

definition is_join :: "string \<Rightarrow> string \<Rightarrow> bool" where
  "is_join endpoint cmd \<longleftrightarrow> cut_prefix (join_wanted endpoint) cmd \<noteq> None \<and> NL \<notin> set cmd"

definition join_act :: "'w exec \<Rightarrow> 'w exec \<Rightarrow> string \<Rightarrow> ('w, unit, string, unit) io" where
  "join_act ex cp endpoint =
     io_bind (io_map_err (\<lambda>_. ''minting a join token on the Control Plane failed'') (io_call (ex_run cp mint_join))) (\<lambda>out'.
     (let cmd = trim_space out' in
      if \<not> is_join endpoint cmd
      then io_fail (''the minted join command does not start '' @ go_quote (join_wanted endpoint))
      else io_bind (io_call (ex_run ex ''mkdir -p -m 700 /run/kluster'')) (\<lambda>_.
        io_bind (io_call (ex_write ex join_file (cmd @ [NL]))) (\<lambda>_.
        io_bind (io_call (ex_run ex join_run)) (\<lambda>_. io_return ())))))"

definition join_stage :: "'w exec \<Rightarrow> 'w exec \<Rightarrow> string \<Rightarrow> 'w stage" where
  "join_stage ex cp endpoint = check_stage ex ''join'' ''docs/runbook/workers.md#7-join-the-cluster''
     join_checks join_preview (join_act ex cp endpoint)"

subsection \<open>The Node\<close>

record node_ready =
  nr_node :: string
  nr_private_ip :: string
  nr_server_id :: string
  nr_every :: int
  nr_timeout :: int

definition nr_missing :: "node_ready \<Rightarrow> node \<Rightarrow> string list" where
  "nr_missing n x =
     (if nd_ready x then [] else [''Ready'']) @
     (if nd_internal x = nr_private_ip n then []
      else [''InternalIP '' @ nr_private_ip n @ '' (is '' @ nd_internal x @ '')'']) @
     (if nd_provider x = ''hcloud://'' @ nr_server_id n then []
      else [''providerID hcloud://'' @ nr_server_id n @ '' (is '' @ nd_provider x @ '')'']) @
     (if nd_uninitialized x then [''initialized''] else [])"

definition nr_status :: "node_ready \<Rightarrow> node \<Rightarrow> status" where
  "nr_status n x =
     (if nr_missing n x \<noteq> [] then not_yet (nr_missing n x)
      else done_with (''Ready, '' @ nr_private_ip n @ '', hcloud://'' @ nr_server_id n))"

definition nr_probe :: "'w exec \<Rightarrow> kube_json \<Rightarrow> node_ready \<Rightarrow> ('w, unit, string, status) io" where
  "nr_probe ex js n =
     io_bind (nodes ex js) (\<lambda>ns. io_return (case find (\<lambda>x. nd_name x = nr_node n) ns of
         Some x \<Rightarrow> nr_status n x
       | None \<Rightarrow> \<lparr>st_done = False, st_detail = ''no Node '' @ nr_node n\<rparr>))"

text \<open>
  The wait of the act, up to a deadline on the clock; a pause ends at the deadline when that comes first. \<open>None\<close> is a wait that
  never ends. (When the poll and the deadline fall together the code may probe once more.)
\<close>

record 'w timer =
  tm_now :: "'w \<Rightarrow> int"
  tm_sleep :: "int \<Rightarrow> 'w \<Rightarrow> 'w"

definition nr_failed :: "node_ready \<Rightarrow> string + status \<Rightarrow> string" where
  "nr_failed n r = ''Node '' @ nr_node n @ '' after '' @ duration_string (nr_timeout n) @ '': '' @
     (case r of Inl e \<Rightarrow> e | Inr st \<Rightarrow> st_detail st)"

definition nr_good :: "string + status \<Rightarrow> bool" where
  "nr_good r = (case r of Inl e \<Rightarrow> False | Inr st \<Rightarrow> st_done st)"

partial_function (option) nr_wait ::
  "'w timer \<Rightarrow> ('w, string, status) call \<Rightarrow> node_ready \<Rightarrow> int \<Rightarrow> 'w \<Rightarrow> ((string + unit) \<times> 'w) option" where
  "nr_wait tm probe n deadline w =
     (case probe w of (r, w1) \<Rightarrow>
        if nr_good r then Some (Inr (), w1)
        else (let w2 = tm_sleep tm (nr_every n) w1 in
          if tm_now tm w2 \<ge> deadline then Some (Inl (nr_failed n r), w2) else nr_wait tm probe n deadline w2))"

declare nr_wait.simps [code]

definition nr_act :: "'w timer \<Rightarrow> ('w, string, status) call \<Rightarrow> node_ready \<Rightarrow> ('w, string, unit) call" where
  "nr_act tm probe n =
     (\<lambda>w. case nr_wait tm probe n (tm_now tm w + nr_timeout n) w of Some x \<Rightarrow> x | None \<Rightarrow> (Inl ''waits for ever'', w))"

definition nr_preview :: "node_ready \<Rightarrow> string" where
  "nr_preview n = ''# wait up to '' @ duration_string (nr_timeout n) @ '' for Node '' @ nr_node n @ '': Ready, InternalIP '' @
     nr_private_ip n @ '', providerID hcloud://'' @ nr_server_id n @ '', no uninitialized taint'' @ [NL]"

definition node_ready_stage :: "'w timer \<Rightarrow> 'w exec \<Rightarrow> kube_json \<Rightarrow> node_ready \<Rightarrow> 'w stage" where
  "node_ready_stage tm ex js n = \<lparr>sg_name = ''node-ready'', sg_runbook = ''docs/runbook/workers.md#8-verify-the-cluster'',
     sg_probe = (\<lambda>_. io_run (nr_probe ex js n)), sg_preview = (\<lambda>_ w. (Inr (nr_preview n), w)),
     sg_act = (\<lambda>_. nr_act tm (io_run (nr_probe ex js n)) n)\<rparr>"

subsection \<open>The Stages of a new Worker\<close>

text \<open>\<open>preJoinStages\<close>, \<open>hubPeer\<close> and \<open>nodeReady\<close>; \<open>minor\<close> is \<open>semver.MajorMinor\<close>.\<close>

definition pre_join_stages ::
  "config \<Rightarrow> (string \<Rightarrow> string) \<Rightarrow> 'w cp_host \<Rightarrow> worker_host \<Rightarrow> 'w stage list" where
  "pre_join_stages c minor ch h =
     (let ex = ch_exec ch; wk = wh_worker h; v = cf_versions c; cp = cf_control_plane c in
     [at_runbook ''docs/runbook/workers.md#3-base-host-setup'' (private_network_stage ex
        \<lparr>pn_interface = nc_interface (cf_node c), pn_mac = sv_private_mac (wh_server h), pn_ip = wk_private_ip wk\<rparr>),
      at_runbook ''docs/runbook/workers.md#3-base-host-setup'' (base_host_stage ex
        \<lparr>bh_user = nc_user (cf_node c), bh_containerd = vs_containerd v, bh_runc = vs_runc v, bh_cni_plugins = []\<rparr>),
      at_runbook ''docs/runbook/workers.md#5-kubernetes-packages-and-pre-join-configuration'' (kube_prep_stage ex (ch_unified ch)
        \<lparr>kp_version = vs_kubernetes v, kp_minor = minor (vs_kubernetes v), kp_endpoint = cp_endpoint cp,
         kp_endpoint_ip = cp_private_ip cp, kp_node_ip = wk_private_ip wk, kp_hold_cni = True\<rparr>),
      spoke_stage ex
        \<lparr>wk_address = wk_vpn_ip wk @ ''/'' @ string_of_nat (wh_subnet_bits h), wk_hub_key = wh_hub_key h,
         wk_hub_endpoint = sv_public_ip (wh_cp_server h) @ '':'' @ int_string (wg_port (cf_wireguard c)),
         wk_routes = wg_subnet (cf_wireguard c)\<rparr>])"

definition worker_peer :: "worker_host \<Rightarrow> peer" where
  "worker_peer h = \<lparr>peer.pe_name = wk_name (wh_worker h), peer.pe_public_key = wh_worker_key h,
     peer.pe_allowed_ips = wk_vpn_ip (wh_worker h) @ ''/32''\<rparr>"

definition node_ready_of :: "worker_host \<Rightarrow> node_ready" where
  "node_ready_of h = \<lparr>nr_node = wk_name (wh_worker h), nr_private_ip = wk_private_ip (wh_worker h),
     nr_server_id = sv_id (wh_server h), nr_every = 5 * 1000000000, nr_timeout = minutes 5\<rparr>"

definition worker_build_of ::
  "config \<Rightarrow> (string \<Rightarrow> string) \<Rightarrow> 'w timer \<Rightarrow> ('w cp_host \<Rightarrow> 'w stage) \<Rightarrow> 'w worker_build" where
  "worker_build_of c minor tm first = \<lparr>wb_rotate = first, wb_pre_join = pre_join_stages c minor,
     wb_hub_peer = (\<lambda>ch h. hub_peer_stage ch (worker_peer h)),
     wb_join = (\<lambda>ch cp. join_stage (ch_exec ch) (ch_exec cp) (cp_endpoint (cf_control_plane c))),
     wb_ready = (\<lambda>ch h. node_ready_stage tm (ch_exec ch) (ch_json ch) (node_ready_of h))\<rparr>"

subsection \<open>The wait ends\<close>

text \<open>With a positive poll on a clock that no probe sets back, the wait for the Node ends at its deadline at the latest.\<close>

lemma nr_wait_returns:
  assumes "0 < nr_every n" and "\<forall>w r w'. probe w = (r, w') \<longrightarrow> tm_now tm w \<le> tm_now tm w'"
    and "\<forall>d w. tm_now tm w + d \<le> tm_now tm (tm_sleep tm d w)"
  shows "\<exists>x. nr_wait tm probe n deadline w = Some x"
proof (induction "nat (deadline - tm_now tm w)" arbitrary: w rule: less_induct)
  case less
  obtain r w1 where p: "probe w = (r, w1)" by (cases "probe w")
  let ?w2 = "tm_sleep tm (nr_every n) w1"
  have t: "tm_now tm w < tm_now tm ?w2" using assms(1) assms(2) [rule_format, OF p] assms(3) [rule_format, of w1 "nr_every n"] by linarith
  show ?case
  proof (cases "nr_good r \<or> tm_now tm ?w2 \<ge> deadline")
    case True
    then show ?thesis by (subst nr_wait.simps) (auto simp: p Let_def)
  next
    case False
    then have "nat (deadline - tm_now tm ?w2) < nat (deadline - tm_now tm w)" using t by linarith
    from less [OF this] False show ?thesis by (subst nr_wait.simps) (simp add: p Let_def)
  qed
qed

subsection \<open>The peer a Worker comes with is the peer it leaves with\<close>

lemma peers_NL: "peers (c @ [NL]) = peers c"
proof -
  have "view (split_on NL c @ replicate 1 []) = view (split_on NL c)"
    using view_blank [of "replicate 1 []" "split_on NL c"] by (simp add: is_blank_def trim_space_def trim_left_def trim_right_def)
  then show ?thesis unfolding peers_view using split_trailing_NL [of "[NL]" c] by simp
qed

lemma found_peers_exact: "\<forall>q \<in> set (holders ip ps). entries q = [ip] \<Longrightarrow> found_peers ip ps = Inr (holders ip ps)"
proof (induction ps)
  case (Cons q ps)
  show ?case
  proof (cases "ip \<in> set (entries q)")
    case True
    then have "holders ip (q # ps) = q # holders ip ps" by (simp only: holders_def filter.simps if_True)
    then show ?thesis using Cons True by simp
  next
    case False
    then have "holders ip (q # ps) = holders ip ps" by (simp only: holders_def filter.simps if_False)
    then show ?thesis using Cons False by simp
  qed
qed (simp add: holders_def)



text \<open>
  The hypothesis is needed: \<open>AddPeer\<close> compares whole \<open>AllowedIPs\<close> values, so an address that a peer routes beside another one is
  given away again, and then the removal refuses both.
\<close>

definition routed_conf :: string where
  "routed_conf = join_str [NL] [''[Interface]'', [], ''[Peer]'', ''# a'', ''PublicKey = ka'', ''AllowedIPs = 10.8.0.11/32, 10.8.0.12/32'', []]"

theorem routed_address_is_given_away:
  "is_ok (add_peer routed_conf sample_peer) \<and> \<not> is_ok (file_peer ''10.8.0.11/32'' (projr (add_peer routed_conf sample_peer) @ [NL]))"
  by code_simp

subsection \<open>The join token\<close>

definition join_lines :: "string list" where
  "join_lines = [''mkdir -p -m 700 /run/kluster'', join_run, probe_text join_checks]"

lemma join_lines_same:
  assumes "\<And>x. x \<in> set join_lines \<Longrightarrow> ex_run ex' x = ex_run ex x" and "\<And>s. ex_write ex' join_file s = ex_write ex join_file s"
  shows "join_act ex' cp endpoint = join_act ex cp endpoint \<and> probe_checks ex' join_checks = probe_checks ex join_checks"
proof -
  have lines: "ex_run ex' ''mkdir -p -m 700 /run/kluster'' = ex_run ex ''mkdir -p -m 700 /run/kluster''"
    "ex_run ex' join_run = ex_run ex join_run" "ex_run ex' (probe_text join_checks) = ex_run ex (probe_text join_checks)"
    by (rule assms(1), simp add: join_lines_def)+
  show ?thesis unfolding join_act_def probe_checks_def Let_def lines assms(2) by (rule conjI; rule refl)
qed

text \<open>
  The join token reaches the Worker only as the content of its file on tmpfs: every command line the Stage sends there is one
  of three fixed ones, whatever the Control Plane minted.
\<close>

theorem join_token_reaches_one_file:
  "run_stage m h (join_stage (watched join_lines [] join_file ex other) cp endpoint) = run_stage m h (join_stage ex cp endpoint)"
proof -
  have "join_act (watched join_lines [] join_file ex other) cp endpoint = join_act ex cp endpoint \<and>
      probe_checks (watched join_lines [] join_file ex other) join_checks = probe_checks ex join_checks"
    by (rule join_lines_same) (simp_all add: watched_run watched_write)
  then show ?thesis by (simp add: join_stage_def check_stage_def)
qed

end
