(* ===== verification/Laptop.thy ===== *)
theory Laptop
  imports CpStages
begin

section \<open>local/local.go, kubeconfig, stages/laptop_*.go: the operator's own machine\<close>

text \<open>
  After a build the operator's WireGuard config and kubeconfig change. The machine is \<open>machine\<close>: a shell, sudo with its output
  and exit code, the file system. \<open>local_exec\<close> is \<open>local.Exec\<close>, with or without sudo; the two Stages take any such
  \<open>laptop_exec\<close>. The YAML package is the record \<open>kube_yaml\<close>.
\<close>

subsection \<open>A machine and its Exec\<close>

datatype read_error = Missing string | ReadFailed string

definition read_text :: "read_error \<Rightarrow> string" where
  "read_text e = (case e of Missing s \<Rightarrow> s | ReadFailed s \<Rightarrow> s)"

record 'w laptop_exec =
  lx_run :: "string \<Rightarrow> ('w, string \<times> string, string) call"
  lx_read :: "path \<Rightarrow> ('w, read_error, string) call"
  lx_write :: "path \<Rightarrow> string \<Rightarrow> ('w, string, unit) call"

text \<open>\<open>mc_sudo\<close> fails only when sudo did not run; otherwise standard output, standard error (trimmed) and the exit code.\<close>

record 'w machine =
  mc_bash :: "string \<Rightarrow> ('w, string \<times> string, string) call"
  mc_sudo :: "string list \<Rightarrow> ('w, string, string \<times> string \<times> int) call"
  mc_terminal :: bool
  mc_read :: "path \<Rightarrow> ('w, read_error, string) call"
  mc_mkdir :: "path \<Rightarrow> ('w, string, unit) call"
  mc_write :: "path \<Rightarrow> string \<Rightarrow> ('w, string, unit) call"
  mc_rename :: "path \<Rightarrow> path \<Rightarrow> ('w, string, unit) call"
  mc_temp :: "path \<Rightarrow> string \<Rightarrow> ('w, string, path) call"
  mc_remove :: "path \<Rightarrow> ('w, string, unit) call"

definition cut_newlines :: "string \<Rightarrow> string" where
  "cut_newlines s = trim_right (\<lambda>c. c = NL) s"

definition head_line :: "string \<Rightarrow> string" where
  "head_line s = hd (split_on NL s)"

definition local_run :: "'w machine \<Rightarrow> string \<Rightarrow> ('w, string \<times> string, string) call" where
  "local_run m cmd = (\<lambda>w. case mc_bash m cmd w of
       (Inl (out, e), w') \<Rightarrow> (Inl (cut_newlines out, ''running '' @ go_quote (head_line cmd) @ '': '' @ e @
          '' (output: '' @ cut_newlines out @ '')''), w')
     | (Inr out, w') \<Rightarrow> (Inr (cut_newlines out), w'))"

definition sudo_ready :: "'w machine \<Rightarrow> ('w, unit, string, unit) io" where
  "sudo_ready m =
     io_bind (io_map_err (\<lambda>e. ''running sudo: '' @ e) (io_call (mc_sudo m [''-n'', ''true'']))) (\<lambda>(_, stderr, code).
       if code = 0 then io_return ()
       else if \<not> mc_terminal m
       then io_fail (''sudo needs a password and there is no terminal to ask on (sudo -n: '' @ stderr @ ''): run kluster in a terminal'')
       else io_bind (io_map_err (\<lambda>e. ''running sudo: '' @ e) (io_call (mc_sudo m [''-v'']))) (\<lambda>(_, stderr2, code2).
         if code2 \<noteq> 0 then io_fail (''sudo failed (exit '' @ int_string code2 @ ''): '' @ stderr2) else io_return ()))"

text \<open>\<open>ReadFile\<close> through sudo.\<close>

definition sudo_read :: "'w machine \<Rightarrow> path \<Rightarrow> ('w, unit, read_error, string) io" where
  "sudo_read m p =
     io_bind (io_map_err (\<lambda>e. ReadFailed (''reading '' @ p @ '': '' @ e)) (sudo_ready m)) (\<lambda>_.
     io_bind (io_map_err (\<lambda>e. ReadFailed (''sudo test -e '' @ p @ '': '' @ e)) (io_call (mc_sudo m [''test'', ''-e'', p]))) (\<lambda>(_, stderr, code).
       if code = 1 \<and> stderr = [] then io_fail (Missing (p @ '': file does not exist''))
       else if code \<noteq> 0 then io_fail (ReadFailed (''sudo test -e '' @ p @ '': exit '' @ int_string code @ '': '' @ stderr))
       else io_bind (io_map_err (\<lambda>e. ReadFailed (''sudo cat '' @ p @ '': '' @ e)) (io_call (mc_sudo m [''cat'', ''--'', p]))) (\<lambda>(out', stderr2, code2).
         if code2 \<noteq> 0 then io_fail (ReadFailed (''sudo cat '' @ p @ '': exit '' @ int_string code2 @ '': '' @ stderr2))
         else io_return out')))"

definition local_read :: "'w machine \<Rightarrow> bool \<Rightarrow> path \<Rightarrow> ('w, read_error, string) call" where
  "local_read m sudo p = (if \<not> sudo then mc_read m p else io_run (sudo_read m p))"

definition octal_mode :: string where "octal_mode = ''600''"

definition tmp_name :: "path \<Rightarrow> path" where "tmp_name p = p @ ''.kluster-tmp''"

text \<open>\<open>filepath.Dir\<close>, up to cleaning: everything before the last slash.\<close>

definition path_dir :: "path \<Rightarrow> path" where
  "path_dir p = rev (drop 1 (dropWhile (\<lambda>c. c \<noteq> CHR ''/'') (rev p)))"

definition plain_write :: "'w machine \<Rightarrow> path \<Rightarrow> string \<Rightarrow> ('w, unit, string, unit) io" where
  "plain_write m p c =
     io_bind (io_call (mc_mkdir m (path_dir p))) (\<lambda>_.
     io_bind (io_call (mc_write m (tmp_name p) c)) (\<lambda>_.
       io_call (mc_rename m (tmp_name p) p)))"

definition sudo_write :: "'w machine \<Rightarrow> path \<Rightarrow> path \<Rightarrow> string \<Rightarrow> ('w, unit, string, unit) io" where
  "sudo_write m dir p c =
     (if dir = [] then io_fail ''sudo write without a run directory''
      else io_bind (io_call (mc_temp m dir c)) (\<lambda>f.
        io_finally
          (io_bind (io_map_err snd (io_call (local_run m (''sudo install -m '' @ octal_mode @ '' -o root -g root '' @ quote_arg f @ '' '' @ quote_arg p))))
            (\<lambda>_. io_return ()))
          (io_call (mc_remove m f))))"

definition local_exec :: "'w machine \<Rightarrow> bool \<Rightarrow> path \<Rightarrow> 'w laptop_exec" where
  "local_exec m sudo dir = \<lparr>lx_run = local_run m, lx_read = local_read m sudo,
     lx_write = (\<lambda>p c. io_run (if \<not> sudo then plain_write m p c else sudo_write m dir p c))\<rparr>"

subsection \<open>A kubeconfig\<close>

record kube_cluster =
  kc_ca :: string
  kc_server :: string

record kube_user =
  ku_cert :: string
  ku_key :: string

record kube_file =
  kf_api_version :: string
  kf_kind :: string
  kf_clusters :: "(string \<times> kube_cluster) list"
  kf_contexts :: "(string \<times> (string \<times> string)) list"
  kf_current :: string
  kf_users :: "(string \<times> kube_user) list"

record kube_yaml =
  ky_parse :: "string \<Rightarrow> string + kube_file"
  ky_print :: "kube_file \<Rightarrow> string + string"

record kube_names =
  kn_cluster :: string
  kn_user :: string
  kn_context :: string

definition names_for :: "string \<Rightarrow> kube_names" where
  "names_for cluster = \<lparr>kn_cluster = cluster, kn_user = cluster @ ''-admin'', kn_context = cluster @ ''-admin@'' @ cluster\<rparr>"

definition parse_kube :: "kube_yaml \<Rightarrow> string \<Rightarrow> string + kube_file" where
  "parse_kube ky data =
     (case ky_parse ky data of Inl e \<Rightarrow> Inl (''parsing kubeconfig: '' @ e)
      | Inr f \<Rightarrow>
          if length (kf_clusters f) \<noteq> 1 \<or> length (kf_users f) \<noteq> 1 \<or> length (kf_contexts f) \<noteq> 1
          then Inl (''want one cluster, user and context, got '' @ string_of_nat (length (kf_clusters f)) @ '', '' @
            string_of_nat (length (kf_users f)) @ '', '' @ string_of_nat (length (kf_contexts f)))
          else Inr f)"

record kube_entries =
  ke_cluster :: "kube_cluster option"
  ke_has_user :: bool
  ke_has_context :: bool
  ke_current :: string

text \<open>\<open>Find\<close>: the last cluster of the name counts.\<close>

definition find_kube :: "kube_yaml \<Rightarrow> string \<Rightarrow> kube_names \<Rightarrow> string + kube_entries" where
  "find_kube ky data n =
     (case ky_parse ky data of Inl e \<Rightarrow> Inl (''parsing kubeconfig: '' @ e)
      | Inr f \<Rightarrow> Inr \<lparr>ke_cluster = map_of (rev (kf_clusters f)) (kn_cluster n),
          ke_has_user = list_ex (\<lambda>u. fst u = kn_user n) (kf_users f),
          ke_has_context = list_ex (\<lambda>c. fst c = kn_context n) (kf_contexts f), ke_current = kf_current f\<rparr>)"

definition for_laptop :: "kube_yaml \<Rightarrow> string \<Rightarrow> kube_names \<Rightarrow> string \<Rightarrow> string + string" where
  "for_laptop ky admin n server =
     result_bind (parse_kube ky admin) (\<lambda>f. ky_print ky (f\<lparr>
       kf_clusters := [(kn_cluster n, (snd (hd (kf_clusters f)))\<lparr>kc_server := server\<rparr>)],
       kf_users := [(kn_user n, snd (hd (kf_users f)))],
       kf_contexts := [(kn_context n, (kn_cluster n, kn_user n))], kf_current := kn_context n\<rparr>))"

subsection \<open>The operator's WireGuard config\<close>

record laptop_wireguard =
  lw_path :: path
  lw_unit :: string
  lw_sudo :: bool
  lw_hub_ip :: addr
  lw_hub :: hub_peer
  lw_seed :: string

definition lw_message :: "wg_error \<Rightarrow> string" where
  "lw_message e = (case e of
       NoHubPeer ip \<Rightarrow> ''no [Peer] has AllowedIPs that hold the hub '' @ addr_string ip
     | ManyHubPeers n ip \<Rightarrow> string_of_nat n @ '' [Peer] sections route the hub '' @ addr_string ip @ ''; kluster edits only one''
     | _ \<Rightarrow> ''the hub [Peer] has no PublicKey line'')"

definition lw_edit :: "laptop_wireguard \<Rightarrow> string \<Rightarrow> string + string" where
  "lw_edit l old = map_sum lw_message id (set_hub old (lw_hub_ip l) (lw_hub l))"

definition lw_current :: "'w laptop_exec \<Rightarrow> laptop_wireguard \<Rightarrow> ('w, string, string \<times> bool) call" where
  "lw_current x l = (\<lambda>w. case lx_read x (lw_path l) w of
       (Inl (Missing e), w') \<Rightarrow> (if lw_seed l \<noteq> [] then Inr (lw_seed l, False) else Inl e, w')
     | (Inl (ReadFailed e), w') \<Rightarrow> (Inl e, w')
     | (Inr s, w') \<Rightarrow> (Inr (s, True), w'))"

definition lw_status :: "laptop_wireguard \<Rightarrow> string \<Rightarrow> string + status" where
  "lw_status l s =
     (case hub s (lw_hub_ip l) of Inl e \<Rightarrow> Inl (lw_message e)
      | Inr got \<Rightarrow> Inr \<lparr>st_done = (got = lw_hub l), st_detail = ''hub peer '' @ hp_public_key got @ '' at '' @ hp_endpoint got\<rparr>)"

definition lw_probe :: "'w laptop_exec \<Rightarrow> laptop_wireguard \<Rightarrow> ('w, string, status) call" where
  "lw_probe x l = (\<lambda>w. case lw_current x l w of
       (Inl e, w') \<Rightarrow> (Inl e, w')
     | (Inr (s, True), w') \<Rightarrow> (lw_status l s, w')
     | (Inr (s, False), w') \<Rightarrow> (Inr \<lparr>st_done = False, st_detail = lw_path l @ '' does not exist yet''\<rparr>, w'))"

definition lw_restart :: "laptop_wireguard \<Rightarrow> string" where
  "lw_restart l =
     (if lw_unit l = [] then []
      else if lw_sudo l then ''sudo systemctl restart '' @ lw_unit l else ''systemctl restart '' @ lw_unit l)"

definition lw_preview ::
  "'w laptop_exec \<Rightarrow> (path \<Rightarrow> string \<Rightarrow> string \<Rightarrow> string) \<Rightarrow> laptop_wireguard \<Rightarrow> host \<Rightarrow> ('w, unit, string, string) io" where
  "lw_preview x unified l h =
     (if \<not> h_connected h
      then io_return (''# set the hub peer in '' @ lw_path l @ '' to the new hub key and '' @ hp_endpoint (lw_hub l) @ [NL] @ lw_restart l @ [NL])
      else io_bind (io_call (lw_current x l)) (\<lambda>(old, there).
        io_bind (io_result (lw_edit l old)) (\<lambda>next'.
          io_return (unified (lw_path l) (if there then old else []) next' @ lw_restart l @ [NL]))))"

definition kept_path :: "path \<Rightarrow> string \<Rightarrow> path" where
  "kept_path p stamp = p @ ''.bak-kluster-'' @ stamp"

definition lw_act :: "'w laptop_exec \<Rightarrow> string \<Rightarrow> laptop_wireguard \<Rightarrow> ('w, unit, string, unit) io" where
  "lw_act x stamp l =
     io_bind (io_call (lw_current x l)) (\<lambda>(old, there).
     io_bind (io_result (lw_edit l old)) (\<lambda>next'.
     io_bind (if there then io_call (lx_write x (kept_path (lw_path l) stamp) old) else io_return ()) (\<lambda>_.
     io_bind (io_call (lx_write x (lw_path l) next')) (\<lambda>_.
       if lw_restart l = [] then io_return ()
       else io_bind (io_map_err snd (io_call (lx_run x (lw_restart l)))) (\<lambda>_. io_return ())))))"

definition laptop_wireguard_stage ::
  "'w laptop_exec \<Rightarrow> string \<Rightarrow> (path \<Rightarrow> string \<Rightarrow> string \<Rightarrow> string) \<Rightarrow> laptop_wireguard \<Rightarrow> 'w stage" where
  "laptop_wireguard_stage x stamp unified l = \<lparr>sg_name = ''laptop-wireguard'',
     sg_runbook = ''docs/runbook/control-plane.md#the-operators-own-config'', sg_probe = (\<lambda>_. lw_probe x l),
     sg_preview = (\<lambda>h. io_run (lw_preview x unified l h)), sg_act = (\<lambda>_. io_run (lw_act x stamp l))\<rparr>"

subsection \<open>The operator's kubeconfig\<close>

text \<open>\<open>lk_write\<close> and \<open>lk_remove\<close> write and remove a file of the run directory (package os).\<close>

record 'w laptop_kubeconfig =
  lk_path :: path
  lk_merge :: bool
  lk_names :: kube_names
  lk_conf :: string
  lk_tmp_dir :: path
  lk_stamp :: string
  lk_yaml :: kube_yaml
  lk_write :: "path \<Rightarrow> string \<Rightarrow> ('w, string, unit) call"
  lk_remove :: "path \<Rightarrow> ('w, string, unit) call"

definition lk_want :: "'w laptop_kubeconfig \<Rightarrow> string + kube_cluster" where
  "lk_want l = result_bind (parse_kube (lk_yaml l) (lk_conf l)) (\<lambda>f. Inr (snd (hd (kf_clusters f))))"

definition lk_status :: "'w laptop_kubeconfig \<Rightarrow> kube_cluster \<Rightarrow> kube_entries \<Rightarrow> status" where
  "lk_status l want e =
     (let n = lk_names l; no = (\<lambda>d. \<lparr>st_done = False, st_detail = d\<rparr>) in
      case ke_cluster e of
        None \<Rightarrow> no (''no '' @ kn_context n @ '' yet'')
      | Some c \<Rightarrow>
          if \<not> ke_has_user e \<or> \<not> ke_has_context e then no (''no '' @ kn_context n @ '' yet'')
          else if kc_ca c \<noteq> kc_ca want then no (kn_cluster n @ '' holds another cluster'' @ [SQ] @ ''s CA'')
          else if kc_server c \<noteq> kc_server want then no (kn_cluster n @ '' points at '' @ kc_server c)
          else if lk_merge l \<and> ke_current e \<noteq> kn_context n then no (''current-context is '' @ ke_current e)
          else done_with (kn_context n @ '' '' @ [CHR 0xE2, CHR 0x86, CHR 0x92] @ '' '' @ kc_server want))"

definition lk_probe :: "'w laptop_exec \<Rightarrow> 'w laptop_kubeconfig \<Rightarrow> ('w, unit, string, status) io" where
  "lk_probe x l =
     io_bind (io_result (lk_want l)) (\<lambda>want.
     io_bind (try_io (io_call (lx_read x (lk_path l)))) (\<lambda>r. case r of
         Inl (Missing e) \<Rightarrow> io_return \<lparr>st_done = False, st_detail = lk_path l @ '' does not exist''\<rparr>
       | Inl (ReadFailed e) \<Rightarrow> io_fail e
       | Inr data \<Rightarrow> io_bind (io_result (find_kube (lk_yaml l) data (lk_names l))) (\<lambda>e. io_return (lk_status l want e))))"

definition kube_command :: "path \<Rightarrow> string" where
  "kube_command p = ''kubectl --kubeconfig '' @ quote_arg p @ '' ''"

definition delete_commands :: "kube_names \<Rightarrow> kube_entries \<Rightarrow> string list" where
  "delete_commands n e =
     (let cmds = (if ke_has_context e then [''config delete-context '' @ kn_context n] else []) @
        (if ke_cluster e \<noteq> None then [''config delete-cluster '' @ kn_cluster n] else []) @
        (if ke_has_user e then [''config delete-user '' @ kn_user n] else []) in
      cmds @ (if ke_current e \<noteq> [] \<and> cmds \<noteq> [] then [''config set current-context '' @ quote_arg (ke_current e)] else []))"

definition delete_old :: "'w laptop_exec \<Rightarrow> kube_names \<Rightarrow> path \<Rightarrow> kube_entries \<Rightarrow> ('w, unit, string, unit) io" where
  "delete_old x n cp e =
     io_each (\<lambda>c. io_bind (io_map_err snd (io_call (lx_run x (kube_command cp @ c)))) (\<lambda>_. io_return ())) (delete_commands n e)"

definition old_copy :: "'w laptop_kubeconfig \<Rightarrow> path" where "old_copy l = lk_tmp_dir l @ ''/old-kubeconfig''"
definition new_copy :: "'w laptop_kubeconfig \<Rightarrow> path" where "new_copy l = lk_tmp_dir l @ ''/new-kubeconfig''"

definition merge_line :: "path list \<Rightarrow> string" where
  "merge_line sources = ''KUBECONFIG='' @ quote_arg (join_str '':'' sources) @ '' kubectl config view --flatten''"

definition ready_line :: "'w laptop_kubeconfig \<Rightarrow> string" where
  "ready_line l = kube_command (lk_path l) @ ''--context '' @ kn_context (lk_names l) @ '' get --raw=/readyz''"

definition use_line :: "'w laptop_kubeconfig \<Rightarrow> string" where
  "use_line l = kube_command (lk_path l) @ ''config use-context '' @ kn_context (lk_names l)"

definition no_answer :: "'w laptop_kubeconfig \<Rightarrow> string \<Rightarrow> (string \<times> string) + string \<Rightarrow> string" where
  "no_answer l current r =
     (let n = kn_context (lk_names l); q = [SQ]; e = (case r of Inl (_, e) \<Rightarrow> e | Inr _ \<Rightarrow> ''<nil>'') in
      ''merged, but '' @ n @ '' does not answer'' @
      (if current = n
       then ''; current-context already named '' @ n @ '', so it now names the new cluster'' @ q @
         ''s entry (the old one was the replaced cluster'' @ q @ ''s)''
       else '', so current-context was not moved'') @
      '' (is the laptop'' @ q @ ''s WireGuard up with the new hub key?): '' @ e)"

text \<open>From the merged sources on: the one write, the question to the new context, and the move of current-context.\<close>

definition lk_switch :: "'w laptop_exec \<Rightarrow> 'w laptop_kubeconfig \<Rightarrow> string \<Rightarrow> path list \<Rightarrow> ('w, unit, string, unit) io" where
  "lk_switch x l current sources =
     io_bind (io_map_err snd (io_call (lx_run x (merge_line sources)))) (\<lambda>merged.
     io_bind (io_call (lx_write x (lk_path l) (merged @ [NL]))) (\<lambda>_.
     io_bind (try_io (io_call (lx_run x (ready_line l)))) (\<lambda>r.
       if r \<noteq> Inr ''ok'' then io_fail (no_answer l current r)
       else io_bind (io_map_err snd (io_call (lx_run x (use_line l)))) (\<lambda>_. io_return ()))))"

definition lk_finish :: "'w laptop_exec \<Rightarrow> 'w laptop_kubeconfig \<Rightarrow> string \<Rightarrow> path list \<Rightarrow> ('w, unit, string, unit) io" where
  "lk_finish x l current sources =
     io_bind (io_call (lk_write l (new_copy l) (lk_conf l))) (\<lambda>_.
       io_finally (lk_switch x l current (sources @ [new_copy l])) (io_call (lk_remove l (new_copy l))))"

definition lk_act :: "'w laptop_exec \<Rightarrow> 'w laptop_kubeconfig \<Rightarrow> ('w, unit, string, unit) io" where
  "lk_act x l =
     (if \<not> lk_merge l then io_call (lx_write x (lk_path l) (lk_conf l))
      else io_bind (try_io (io_call (lx_read x (lk_path l)))) (\<lambda>r. case r of
          Inl (Missing e) \<Rightarrow> lk_finish x l [] []
        | Inl (ReadFailed e) \<Rightarrow> io_fail e
        | Inr old \<Rightarrow>
            io_bind (io_call (lx_write x (kept_path (lk_path l) (lk_stamp l)) old)) (\<lambda>_.
            io_bind (io_result (find_kube (lk_yaml l) old (lk_names l))) (\<lambda>e.
            io_bind (io_call (lk_write l (old_copy l) old)) (\<lambda>_.
              io_finally
                (io_bind (delete_old x (lk_names l) (old_copy l) e) (\<lambda>_. lk_finish x l (ke_current e) [old_copy l]))
                (io_call (lk_remove l (old_copy l))))))))"

definition laptop_kubeconfig_preview :: "'w laptop_kubeconfig \<Rightarrow> kube_cluster \<Rightarrow> string" where
  "laptop_kubeconfig_preview l want =
     (let n = lk_names l; p = lk_path l in
      if \<not> lk_merge l
      then ''# write '' @ p @ '' (0600): cluster '' @ kn_cluster n @ '' at '' @ kc_server want @ '', context '' @ kn_context n @ '', nothing else'' @ [NL]
      else script_text
        [''# back up '' @ p,
         ''# on a copy in the run directory: delete context '' @ kn_context n @ '', cluster '' @ kn_cluster n @ '' and user '' @ kn_user n @ '' if present'',
         ''# merge the copy and the new cluster '' @ kn_cluster n @ '' at '' @ kc_server want @ ''; write the result to '' @ p @ '' in one write'',
         ''kubectl --kubeconfig '' @ p @ '' --context '' @ kn_context n @ '' get --raw=/readyz   # must answer ok'',
         ''kubectl --kubeconfig '' @ p @ '' config use-context '' @ kn_context n])"

definition laptop_kubeconfig_stage :: "'w laptop_exec \<Rightarrow> 'w laptop_kubeconfig \<Rightarrow> 'w stage" where
  "laptop_kubeconfig_stage x l = \<lparr>sg_name = ''laptop-kubeconfig'',
     sg_runbook = ''docs/runbook/control-plane.md#6-kubeconfig-on-the-operator-workstation'',
     sg_probe = (\<lambda>_. io_run (lk_probe x l)),
     sg_preview = (\<lambda>_ w. (map_sum id (laptop_kubeconfig_preview l) (lk_want l), w)),
     sg_act = (\<lambda>_. io_run (lk_act x l))\<rparr>"

subsection \<open>A machine whose files are kept\<close>

text \<open>What the edit of the operator's config leaves: the new hub in the file, and the file that was there in the backup.\<close>

definition pointed :: "('w \<Rightarrow> path \<Rightarrow> string option) \<Rightarrow> string \<Rightarrow> laptop_wireguard \<Rightarrow> 'w \<Rightarrow> 'w \<Rightarrow> bool" where
  "pointed disk stamp l w w' \<longleftrightarrow>
     (\<exists>old next'. set_hub old (lw_hub_ip l) (lw_hub l) = Inr next' \<and> disk w' (lw_path l) = Some next' \<and>
        (case disk w (lw_path l) of Some c \<Rightarrow> old = c \<and> disk w' (kept_path (lw_path l) stamp) = Some c | None \<Rightarrow> old = lw_seed l))"

text \<open>
  The kubeconfig: \<open>merged_in\<close> says the file is what kubectl printed for the merge, in one write, and the file before is in the
  backup. \<open>kubectl_keeps\<close>: of the commands a run sends, only the last one changes the live file, and only when it succeeds.
\<close>

definition merged_in :: "'w laptop_exec \<Rightarrow> ('w \<Rightarrow> path \<Rightarrow> string option) \<Rightarrow> 'w laptop_kubeconfig \<Rightarrow> 'w \<Rightarrow> 'w \<Rightarrow> bool" where
  "merged_in x disk l w w' \<longleftrightarrow>
     (\<exists>sources m w1 w2. lx_run x (merge_line sources) w1 = (Inr m, w2) \<and> disk w' (lk_path l) = Some (m @ [NL])) \<and>
     (\<forall>c. disk w (lk_path l) = Some c \<longrightarrow> disk w' (kept_path (lk_path l) (lk_stamp l)) = Some c)"

definition kube_view :: "('w \<Rightarrow> path \<Rightarrow> string option) \<Rightarrow> 'w laptop_kubeconfig \<Rightarrow> 'w \<Rightarrow> string option \<times> string option" where
  "kube_view disk l w = (disk w (lk_path l), disk w (kept_path (lk_path l) (lk_stamp l)))"

definition kubectl_keeps :: "'w laptop_exec \<Rightarrow> ('w \<Rightarrow> path \<Rightarrow> string option) \<Rightarrow> 'w laptop_kubeconfig \<Rightarrow> bool" where
  "kubectl_keeps x disk l \<longleftrightarrow>
     (\<forall>s. quiet (kube_view disk l) (lx_run x (merge_line s))) \<and> quiet (kube_view disk l) (lx_run x (ready_line l)) \<and>
     (\<forall>c. quiet (kube_view disk l) (lx_run x (kube_command (old_copy l) @ c))) \<and>
     (\<forall>w e w'. lx_run x (use_line l) w = (Inl e, w') \<longrightarrow> kube_view disk l w' = kube_view disk l w) \<and>
     (\<forall>p c. quiet (kube_view disk l) (lk_write l p c)) \<and> (\<forall>p. quiet (kube_view disk l) (lk_remove l p))"

text \<open>
  What a Stage on the laptop relies on: a read tells the truth and changes nothing, and a write puts the whole text in place or
  leaves the file as it was; files the Exec uses for itself (\<open>scratch\<close>) may come and go.
\<close>

locale host_files =
  fixes x :: "'w laptop_exec" and disk :: "'w \<Rightarrow> path \<Rightarrow> string option" and scratch :: "path \<Rightarrow> bool" and laws :: bool
  assumes read_keeps: "laws \<Longrightarrow> lx_read x p w = (r, w') \<Longrightarrow>
      disk w' = disk w \<and> (\<forall>c. r = Inr c \<longrightarrow> disk w p = Some c) \<and> (\<forall>e. r = Inl (Missing e) \<longrightarrow> disk w p = None)"
    and write_whole: "laws \<Longrightarrow> \<not> scratch p \<Longrightarrow> lx_write x p c w = (res, w') \<Longrightarrow>
      (\<forall>q. \<not> scratch q \<longrightarrow> q \<noteq> p \<longrightarrow> disk w' q = disk w q) \<and> disk w' p = (if is_ok res then Some c else disk w p)"
begin

lemma current_reads:
  assumes "laws" and "lw_current x l w = (r, w')"
  shows "disk w' = disk w \<and> (\<forall>old there. r = Inr (old, there) \<longrightarrow>
    (if there then disk w (lw_path l) = Some old else disk w (lw_path l) = None \<and> old = lw_seed l))"
proof (cases "lx_read x (lw_path l) w")
  case (Pair r1 w1)
  show ?thesis
  proof (cases r1)
    case (Inl e)
    then show ?thesis using assms(2) Pair read_keeps [OF assms(1) Pair] by (cases e) (auto simp: lw_current_def split: if_splits)
  next
    case (Inr s)
    then show ?thesis using assms(2) Pair read_keeps [OF assms(1) Pair] by (auto simp: lw_current_def)
  qed
qed

lemma kept_path_differs: "kept_path p stamp \<noteq> p"
  by (simp add: kept_path_def)

lemma wp_write:
  assumes "laws" and "\<not> scratch p" and "\<And>w'. (\<forall>q. \<not> scratch q \<longrightarrow> q \<noteq> p \<longrightarrow> disk w' q = disk w q) \<Longrightarrow> disk w' p = Some c \<Longrightarrow> Q () w' out"
    and "\<And>e w'. (\<forall>q. \<not> scratch q \<longrightarrow> disk w' q = disk w q) \<Longrightarrow> E e w' out"
  shows "wp (io_call (lx_write x p c)) Q E w out"
  unfolding wp_call
proof (intro conjI allI impI)
  fix a w' assume "lx_write x p c w = (Inr a, w')"
  from write_whole [OF assms(1,2) this] show "Q a w' out" using assms(3) [of w'] by simp
next
  fix e w' assume "lx_write x p c w = (Inl e, w')"
  from write_whole [OF assms(1,2) this] show "E e w' out" using assms(4) [of w' e] by (metis is_ok.simps(1))
qed

lemma wp_lw_act:
  assumes "laws" and "\<not> scratch (lw_path l)" and "\<not> scratch (kept_path (lw_path l) stamp)"
    and "\<forall>w r w'. lx_run x (lw_restart l) w = (r, w') \<longrightarrow> disk w' = disk w"
  shows "wp (lw_act x stamp l) (\<lambda>_ w' _. pointed disk stamp l w w')
    (\<lambda>_ w' _. disk w' (lw_path l) = disk w (lw_path l) \<or> pointed disk stamp l w w') w out"
  unfolding lw_act_def
proof (rule wp_seq [where R = "\<lambda>(old, there) w1 _. disk w1 = disk w \<and>
      (if there then disk w (lw_path l) = Some old else disk w (lw_path l) = None \<and> old = lw_seed l)" and E' = "\<lambda>_ w1 _. disk w1 = disk w"], goal_cases)
  case 1
  show ?case unfolding wp_call using current_reads [OF assms(1)] by fastforce
next
  case (2 a w1 out1)
  obtain old there where a: "a = (old, there)" by (cases a)
  with 2 have was: "disk w1 = disk w" "there \<Longrightarrow> disk w (lw_path l) = Some old"
      "\<not> there \<Longrightarrow> disk w (lw_path l) = None \<and> old = lw_seed l" by simp_all
  show ?case
  proof (cases "set_hub old (lw_hub_ip l) (lw_hub l)")
    case (Inl e)
    then show ?thesis using 2 by (simp add: a lw_edit_def wp_simps)
  next
    case (Inr next')
    let ?p = "lw_path l" and ?k = "kept_path (lw_path l) stamp"
    have edit: "lw_edit l old = Inr next'" by (simp add: lw_edit_def Inr)
    show ?thesis unfolding a prod.case edit wp_bind [of "io_result _"] wp_result sum.case
    proof (rule wp_seq [where R = "\<lambda>_ w2 _. disk w2 ?p = disk w ?p \<and> (there \<longrightarrow> disk w2 ?k = Some old)" and E' = "\<lambda>_ w2 _. disk w2 ?p = disk w ?p"], goal_cases)
      case 1
      have k: "?p \<noteq> ?k" using kept_path_differs by metis
      show ?case
      proof (cases there)
        case True
        have "wp (io_call (lx_write x ?k old)) (\<lambda>_ w2 _. disk w2 ?p = disk w ?p \<and> (there \<longrightarrow> disk w2 ?k = Some old))
            (\<lambda>_ w2 _. disk w2 ?p = disk w ?p) w1 out1"
          by (rule wp_write [OF assms(1,3)]) (use was(1) k assms(2) in auto)
        then show ?thesis using True by simp
      next
        case False
        then show ?thesis using was(1) by (simp add: wp_return)
      qed
    next
      case (2 u w2 out2)
      have done': "pointed disk stamp l w w3" if "disk w3 ?p = Some next'" "disk w3 ?k = disk w2 ?k" for w3
      proof (cases there)
        case True
        then have "disk w ?p = Some old" by (rule was(2))
        then show ?thesis unfolding pointed_def using Inr that 2 True by auto
      next
        case False
        then have "disk w ?p = None" "old = lw_seed l" using was(3) by simp_all
        then show ?thesis unfolding pointed_def using Inr that by auto
      qed
      show ?case
      proof (rule wp_seq [where R = "\<lambda>_ w3 _. disk w3 ?p = Some next' \<and> disk w3 ?k = disk w2 ?k" and E' = "\<lambda>_ w3 _. disk w3 ?p = disk w ?p"], goal_cases)
        case 1
        show ?case by (rule wp_write [OF assms(1,2)]) (use 2 assms(2,3) kept_path_differs in auto)
      next
        case (2 u w3 out3)
        then show ?case using done' assms(4) by (auto simp: wp_simps) 
      qed simp
    qed simp
  qed
qed simp

definition switched :: "'w laptop_kubeconfig \<Rightarrow> 'w \<Rightarrow> 'w \<Rightarrow> bool" where
  "switched l w w' \<longleftrightarrow> snd (kube_view disk l w') = snd (kube_view disk l w) \<and>
     (disk w' (lk_path l) = disk w (lk_path l) \<or>
      (\<exists>sources m w1 w2. lx_run x (merge_line sources) w1 = (Inr m, w2) \<and> disk w' (lk_path l) = Some (m @ [NL])))"

lemma switched_quiet: "switched l w w1 \<Longrightarrow> kube_view disk l w' = kube_view disk l w1 \<Longrightarrow> switched l w w'"
  by (simp add: switched_def kube_view_def)

lemma switched_from: "kube_view disk l w1 = kube_view disk l w \<Longrightarrow> switched l w1 w' \<Longrightarrow> switched l w w'"
  by (simp add: switched_def kube_view_def)

lemma switched_refl: "kube_view disk l w' = kube_view disk l w \<Longrightarrow> switched l w w'"
  by (simp add: switched_def kube_view_def)

lemma kubectl_keepsD:
  assumes "kubectl_keeps x disk l"
  shows "lx_run x (merge_line s) w = (r, w') \<Longrightarrow> kube_view disk l w' = kube_view disk l w"
    and "lx_run x (ready_line l) w = (r, w') \<Longrightarrow> kube_view disk l w' = kube_view disk l w"
    and "lx_run x (kube_command (old_copy l) @ c) w = (r, w') \<Longrightarrow> kube_view disk l w' = kube_view disk l w"
    and "lx_run x (use_line l) w = (Inl e, w') \<Longrightarrow> kube_view disk l w' = kube_view disk l w"
    and "lk_write l p d w = (res, w') \<Longrightarrow> kube_view disk l w' = kube_view disk l w"
    and "lk_remove l p w = (res, w') \<Longrightarrow> kube_view disk l w' = kube_view disk l w"
proof -
  have q: "quiet (kube_view disk l) (lx_run x (merge_line s))" "quiet (kube_view disk l) (lx_run x (ready_line l))"
    "quiet (kube_view disk l) (lx_run x (kube_command (old_copy l) @ c))" "quiet (kube_view disk l) (lk_write l p d)" "quiet (kube_view disk l) (lk_remove l p)"
    using assms by (simp_all add: kubectl_keeps_def)
  show "lx_run x (merge_line s) w = (r, w') \<Longrightarrow> kube_view disk l w' = kube_view disk l w"
    and "lx_run x (ready_line l) w = (r, w') \<Longrightarrow> kube_view disk l w' = kube_view disk l w"
    and "lx_run x (kube_command (old_copy l) @ c) w = (r, w') \<Longrightarrow> kube_view disk l w' = kube_view disk l w"
    and "lk_write l p d w = (res, w') \<Longrightarrow> kube_view disk l w' = kube_view disk l w"
    and "lk_remove l p w = (res, w') \<Longrightarrow> kube_view disk l w' = kube_view disk l w"
    by (rule q [THEN quietD], assumption)+
  show "lx_run x (use_line l) w = (Inl e, w') \<Longrightarrow> kube_view disk l w' = kube_view disk l w"
    using assms unfolding kubectl_keeps_def by (elim conjE) blast
qed

lemma wp_lk_switch:
  assumes "laws" and "kubectl_keeps x disk l" and "\<not> scratch (lk_path l)" and "\<not> scratch (kept_path (lk_path l) (lk_stamp l))"
  shows "wp (lk_switch x l current sources) (\<lambda>_ _ _. True) (\<lambda>_ w' _. switched l w w') w out"
  unfolding lk_switch_def wp_bind wp_map_err
proof (rule wp_mono [where Q = "\<lambda>m w1 _. kube_view disk l w1 = kube_view disk l w \<and> (\<exists>w0 w2. lx_run x (merge_line sources) w0 = (Inr m, w2))"
      and E = "\<lambda>_ w1 _. kube_view disk l w1 = kube_view disk l w"], goal_cases)
  case 1
  show ?case unfolding wp_call using kubectl_keepsD(1) [OF assms(2)] by blast
next
  case (2 m w1 out1)
  let ?R = "\<lambda>w2. switched l w w2"
  have late: "wp (if r \<noteq> Inr ''ok'' then io_fail (no_answer l current r)
      else io_bind (io_map_err snd (io_call (lx_run x (use_line l)))) (\<lambda>_. io_return ())) (\<lambda>_ _ _. True) (\<lambda>_ w' _. ?R w') w3 out3"
    if "?R w3" for r w3 out3
    using that switched_quiet [OF that] kubectl_keepsD(4) [OF assms(2)] by (auto simp: wp_simps)
  have ready: "wp (try_io (io_call (lx_run x (ready_line l)))) (\<lambda>_ w3 _. ?R w3) (\<lambda>_ w3 _. ?R w3) w2 out2" if "?R w2" for w2 out2
    unfolding wp_try wp_call using switched_quiet [OF that] kubectl_keepsD(2) [OF assms(2)] by blast
  show ?case
  proof (rule wp_mono [OF wp_write [OF assms(1,3), where Q = "\<lambda>_ w2 _. ?R w2" and E = "\<lambda>_ w2 _. ?R w2"]], goal_cases)
    case (1 w2)
    then show ?case using 2 assms(4) kept_path_differs unfolding switched_def kube_view_def by fastforce
  next
    case (2 e w2)
    then show ?case using \<open>kube_view disk l w1 = kube_view disk l w \<and> _\<close> assms(3,4) by (intro switched_refl) (simp add: kube_view_def)
  next
    case (3 u w2 out2)
    show ?case by (rule wp_mono [OF ready [OF 3]]) (simp_all add: late)
  qed
qed (auto intro: switched_refl)

lemma wp_lk_finish:
  assumes "laws" and "kubectl_keeps x disk l" and "\<not> scratch (lk_path l)" and "\<not> scratch (kept_path (lk_path l) (lk_stamp l))"
  shows "wp (lk_finish x l current sources) (\<lambda>_ _ _. True) (\<lambda>_ w' _. switched l w w') w out"
  unfolding lk_finish_def wp_bind
proof (rule wp_mono [where Q = "\<lambda>_ w1 _. kube_view disk l w1 = kube_view disk l w" and E = "\<lambda>_ w1 _. kube_view disk l w1 = kube_view disk l w"], goal_cases)
  case 1
  show ?case unfolding wp_call using kubectl_keepsD(5) [OF assms(2)] by blast
next
  case (2 u w1 out1)
  show ?case unfolding wp_finally
  proof (rule wp_mono [OF wp_lk_switch [OF assms]], goal_cases)
    case (1 a w2 out2)
    show ?case by (simp add: wp_def split: prod.split sum.split)
  next
    case (2 e w2 out2)
    then have s: "switched l w w2" using \<open>kube_view disk l w1 = kube_view disk l w\<close> by (rule switched_from [rotated])
    show ?case unfolding wp_call using switched_quiet [OF s] kubectl_keepsD(6) [OF assms(2)] by blast
  qed
qed (auto intro: switched_refl)

lemma wp_delete_old:
  assumes "kubectl_keeps x disk l"
  shows "wp (delete_old x n (old_copy l) e) (\<lambda>_ w' _. kube_view disk l w' = kube_view disk l w) (\<lambda>_ w' _. kube_view disk l w' = kube_view disk l w) w out"
  unfolding delete_old_def
proof (rule wp_each)
  fix c w1 out1 assume "kube_view disk l w1 = kube_view disk l w"
  then show "wp (io_bind (io_map_err snd (io_call (lx_run x (kube_command (old_copy l) @ c)))) (\<lambda>_. io_return ()))
      (\<lambda>_ w' _. kube_view disk l w' = kube_view disk l w) (\<lambda>_ w' _. kube_view disk l w' = kube_view disk l w) w1 out1"
    unfolding wp_simps using kubectl_keepsD(3) [OF assms] by metis
qed simp

lemma merged_of_switched:
  assumes "switched l w1 w'" and "disk w1 (lk_path l) = disk w (lk_path l)"
    and "\<forall>c. disk w (lk_path l) = Some c \<longrightarrow> disk w1 (kept_path (lk_path l) (lk_stamp l)) = Some c"
  shows "disk w' (lk_path l) = disk w (lk_path l) \<or> merged_in x disk l w w'"
  using assms unfolding switched_def merged_in_def kube_view_def by auto

lemma wp_lk_act:
  assumes "laws" and "kubectl_keeps x disk l" and "\<not> scratch (lk_path l)" and "\<not> scratch (kept_path (lk_path l) (lk_stamp l))" and "lk_merge l"
  shows "wp (lk_act x l) (\<lambda>_ _ _. True) (\<lambda>_ w' _. disk w' (lk_path l) = disk w (lk_path l) \<or> merged_in x disk l w w') w out"
  unfolding lk_act_def eqTrueI [OF assms(5)] not_True_eq_False if_False wp_bind [of "try_io _"] wp_try
proof (rule wp_mono [where Q = "\<lambda>c w1 _. disk w1 = disk w \<and> disk w (lk_path l) = Some c"
      and E = "\<lambda>e w1 _. disk w1 = disk w \<and> (\<forall>m. e = Missing m \<longrightarrow> disk w (lk_path l) = None)"], goal_cases)
  case 1
  show ?case unfolding wp_call using read_keeps [OF assms(1)] by blast
next
  case (3 e w1 out1)
  show ?case
  proof (cases e)
    case (Missing m)
    have "disk w' (lk_path l) = disk w (lk_path l) \<or> merged_in x disk l w w'" if "switched l w1 w'" for w'
      by (rule merged_of_switched [OF that]) (use 3 Missing in simp_all)
    then show ?thesis unfolding Missing sum.case read_error.case by (intro wp_mono [OF wp_lk_finish [OF assms(1-4)]]) simp_all
  next
    case (ReadFailed m)
    with 3 show ?thesis by (simp add: wp_fail)
  qed
next
  case (2 old w1 out1)
  let ?p = "lk_path l" and ?k = "kept_path (lk_path l) (lk_stamp l)"
  let ?V = "\<lambda>w2. kube_view disk l w2 = (Some old, Some old)"
  have p: "disk w ?p = Some old" "disk w1 = disk w" using 2 by simp_all
  have same: "disk w2 ?p = disk w ?p" if "?V w2" for w2 using that p(1) by (simp add: kube_view_def)
  have ends: "disk w' ?p = disk w ?p \<or> merged_in x disk l w w'" if "?V w2" "switched l w2 w'" for w2 w'
    by (rule merged_of_switched [OF that(2)]) (use that(1) p(1) in \<open>simp_all add: kube_view_def\<close>)
  let ?E = "\<lambda>_ w' _. disk w' ?p = disk w ?p \<or> merged_in x disk l w w'"
  have inner: "wp (io_finally (io_bind (delete_old x (lk_names l) (old_copy l) e) (\<lambda>_. lk_finish x l (ke_current e) [old_copy l]))
      (io_call (lk_remove l (old_copy l)))) (\<lambda>_ _ _. True) ?E w2 out2" if v: "?V w2" for e w2 out2
  proof -
    have "wp (io_bind (delete_old x (lk_names l) (old_copy l) e) (\<lambda>_. lk_finish x l (ke_current e) [old_copy l]))
        (\<lambda>_ _ _. True) (\<lambda>_ w' _. switched l w2 w') w2 out2"
      unfolding wp_bind
      by (rule wp_mono [OF wp_delete_old [OF assms(2)]])
        (auto intro: switched_refl intro!: wp_mono [OF wp_lk_finish [OF assms(1-4)]] elim: switched_from)
    then show ?thesis unfolding wp_finally
    proof (rule wp_mono, goal_cases)
      case (1 a w3 out3)
      show ?case by (simp add: wp_def split: prod.split sum.split)
    next
      case (2 e w3 out3)
      then show ?case unfolding wp_call using switched_quiet [OF 2] kubectl_keepsD(6) [OF assms(2)] ends [OF v] by blast
    qed
  qed
  show ?case unfolding sum.case wp_bind [of "io_call _"]
  proof (rule wp_write [OF assms(1,4)], goal_cases)
    case (1 w2)
    then have v: "?V w2" using p assms(3) kept_path_differs unfolding kube_view_def by metis
    show ?case unfolding wp_bind wp_result
    proof (cases "find_kube (lk_yaml l) old (lk_names l)")
      case (Inr e)
      have "wp (io_call (lk_write l (old_copy l) old)) (\<lambda>_ w3 _. ?V w3) (\<lambda>_ w3 _. ?V w3) w2 out1"
        unfolding wp_call using kubectl_keepsD(5) [OF assms(2)] v by metis
      then show "case find_kube (lk_yaml l) old (lk_names l) of Inl e \<Rightarrow> disk w2 ?p = disk w ?p \<or> merged_in x disk l w w2
        | Inr e \<Rightarrow> wp (io_call (lk_write l (old_copy l) old))
            (\<lambda>_. wp (io_finally (io_bind (delete_old x (lk_names l) (old_copy l) e) (\<lambda>_. lk_finish x l (ke_current e) [old_copy l]))
              (io_call (lk_remove l (old_copy l)))) (\<lambda>_ _ _. True) ?E) ?E w2 out1"
        unfolding Inr sum.case by (rule wp_mono) (simp_all add: inner same)
    qed (simp add: same [OF v])
  next
    case (2 e w2)
    then show ?case using p assms(3) by simp
  qed
qed

end

text \<open>A laptop without sudo is one: it writes beside the file and renames.\<close>

definition machine_files :: "'w machine \<Rightarrow> 'w fs" where
  "machine_files m = \<lparr>fs_read = (\<lambda>p w. case mc_read m p w of (r, w') \<Rightarrow> (map_sum read_text id r, w')),
     fs_write = mc_write m, fs_rename = mc_rename m\<rparr>"

definition machine_laws :: "'w machine \<Rightarrow> ('w \<Rightarrow> path \<Rightarrow> string option) \<Rightarrow> bool" where
  "machine_laws m disk \<longleftrightarrow> file_laws (machine_files m) disk (\<lambda>_. ()) \<and>
     (\<forall>p e w w'. mc_read m p w = (Inl (Missing e), w') \<longrightarrow> disk w p = None) \<and> (\<forall>p. quiet disk (mc_mkdir m p))"

definition scratch_file :: "path \<Rightarrow> bool" where
  "scratch_file p \<longleftrightarrow> suffix ''.kluster-tmp'' p"

lemma plain_write_whole:
  assumes "machine_laws m disk" and "\<not> scratch_file p" and "io_run (plain_write m p c) w = (r, w')"
  shows "(\<forall>q. \<not> scratch_file q \<longrightarrow> q \<noteq> p \<longrightarrow> disk w' q = disk w q) \<and> disk w' p = (if is_ok r then Some c else disk w p)"
proof -
  have t: "scratch_file (tmp_name p)" "tmp_name p \<noteq> p" by (auto simp: scratch_file_def tmp_name_def suffix_def)
  have f: "file_laws (machine_files m) disk (\<lambda>_. ())" and q: "quiet disk (mc_mkdir m d)" for d
    using assms(1) by (simp_all add: machine_laws_def)
  have wr: "(\<forall>q. q \<noteq> tmp_name p \<longrightarrow> disk w2 q = disk w1 q) \<and> (is_ok r1 \<longrightarrow> disk w2 (tmp_name p) = Some c)"
    if "mc_write m (tmp_name p) c w1 = (r1, w2)" for w1 r1 w2
    using file_write [OF f, of "tmp_name p" c w1 r1 w2] that by (simp add: machine_files_def)
  have rn: "if is_ok r1 then disk w2 p = disk w1 (tmp_name p) \<and> (\<forall>x. x \<noteq> tmp_name p \<and> x \<noteq> p \<longrightarrow> disk w2 x = disk w1 x) else disk w2 = disk w1"
    if "mc_rename m (tmp_name p) p w1 = (r1, w2)" for w1 r1 w2
    using file_rename [OF f, of "tmp_name p" p w1 r1 w2] that t(2) by (simp add: machine_files_def)
  have keep: "q \<noteq> tmp_name p" if "\<not> scratch_file q" for q using that t(1) by blast
  define good where "good w' \<longleftrightarrow> (\<forall>q. \<not> scratch_file q \<longrightarrow> q \<noteq> p \<longrightarrow> disk w' q = disk w q) \<and> disk w' p = Some c" for w'
  define same where "same w' \<longleftrightarrow> (\<forall>q. \<not> scratch_file q \<longrightarrow> disk w' q = disk w q)" for w'
  have "wp (plain_write m p c) (\<lambda>_ w' _. good w') (\<lambda>_ w' _. same w') w []"
    unfolding plain_write_def wp_bind
  proof (simp only: wp_call, intro conjI allI impI, goal_cases)
    case (1 a w1 a2 w2 a3 w3)
    have "disk w3 p = disk w2 (tmp_name p)" "\<forall>x. x \<noteq> tmp_name p \<and> x \<noteq> p \<longrightarrow> disk w3 x = disk w2 x" using rn [OF 1(3)] by simp_all
    with wr [OF 1(2)] quietD [OF q 1(1)] keep show ?case unfolding good_def by (metis is_ok.simps(2))
  next
    case (2 a w1 a2 w2 e w3)
    have "disk w3 = disk w2" using rn [OF 2(3)] by simp
    with wr [OF 2(2)] quietD [OF q 2(1)] keep show ?case unfolding same_def by metis
  next
    case (3 a w1 e w2)
    with wr [OF 3(2)] quietD [OF q 3(1)] keep show ?case unfolding same_def by metis
  next
    case (4 e w1)
    then show ?case using quietD [OF q 4(1)] by (simp add: same_def)
  qed
  from io_run_wp [of _ "\<lambda>r w'. if is_ok r then good w' else same w'", OF _ assms(3)] this
  have "if is_ok r then good w' else same w'" by simp
  then show ?thesis using assms(2) by (auto simp: good_def same_def split: if_splits)
qed

interpretation plain_laptop: host_files "local_exec m False dir" disk scratch_file "machine_laws m disk" for m dir disk
proof
  fix p w r w' assume l: "machine_laws m disk" and "lx_read (local_exec m False dir) p w = (r, w')"
  then have r: "mc_read m p w = (r, w')" by (simp add: local_exec_def local_read_def)
  have f: "file_laws (machine_files m) disk (\<lambda>_. ())" and "r = Inl (Missing e) \<Longrightarrow> disk w p = None" for e
    using l r by (auto simp: machine_laws_def)
  moreover have "fs_read (machine_files m) p w = (map_sum read_text id r, w')" by (simp add: machine_files_def r)
  from file_read [OF f this] have "disk w' = disk w" "r = Inr c \<Longrightarrow> disk w p = Some c" for c by auto
  ultimately show "disk w' = disk w \<and> (\<forall>c. r = Inr c \<longrightarrow> disk w p = Some c) \<and> (\<forall>e. r = Inl (Missing e) \<longrightarrow> disk w p = None)"
    by blast
next
  fix p c w res w' assume "machine_laws m disk" "\<not> scratch_file p" "lx_write (local_exec m False dir) p c w = (res, w')"
  then show "(\<forall>q. \<not> scratch_file q \<longrightarrow> q \<noteq> p \<longrightarrow> disk w' q = disk w q) \<and> disk w' p = (if is_ok res then Some c else disk w p)"
    by (intro plain_write_whole) (simp_all add: local_exec_def)
qed

subsection \<open>The operator's files\<close>



text \<open>
  A sudo that cannot run is never taken for a missing file: the read says the file is missing only when sudo was shown to
  run and a quiet \<open>test -e\<close> under it exited 1. So a seed is not written over a file that was only out of reach.
\<close>

theorem missing_is_shown_by_sudo:
  assumes "local_read m True p w = (Inl (Missing e), w')"
  shows "\<exists>w1 out'. mc_sudo m [''test'', ''-e'', p] w1 = (Inr (out', [], 1), w') \<and> (\<exists>w0 u o'. sudo_ready m (w0, []) = (Inr u, w1, o'))"
proof -
  have ready: "wp (sudo_ready m) (\<lambda>_ w1 _. \<exists>w0 u o'. sudo_ready m (w0, []) = (Inr u, w1, o')) (\<lambda>_ _ _. True) w []"
    by (rule wpI) blast+
  let ?P = "\<lambda>r w'. \<forall>e. r = Inl (Missing e) \<longrightarrow>
    (\<exists>w1 out'. mc_sudo m [''test'', ''-e'', p] w1 = (Inr (out', [], 1), w') \<and> (\<exists>w0 u o'. sudo_ready m (w0, []) = (Inr u, w1, o')))"
  have "wp (sudo_read m p) (\<lambda>a w' _. ?P (Inr a) w') (\<lambda>e w' _. ?P (Inl e) w') w []"
    unfolding sudo_read_def wp_bind [of "io_map_err _ (sudo_ready m)"] wp_map_err [of _ "sudo_ready m"]
  proof (rule wp_mono [OF ready], goal_cases)
    case (1 u w1 out1)
    have t: "wp (io_call (mc_sudo m [''test'', ''-e'', p])) (\<lambda>a w2 _. mc_sudo m [''test'', ''-e'', p] w1 = (Inr a, w2)) (\<lambda>_ _ _. True) w1 out1"
      unfolding wp_call by simp
    show ?case unfolding wp_bind [of "io_map_err _ (io_call (mc_sudo m [''test'', ''-e'', p]))"] wp_map_err
      by (rule wp_mono [OF t]) (use 1 in \<open>auto simp: wp_simps split: prod.split\<close>)
  qed simp
  from io_run_wp [of _ ?P, OF this, of "Inl (Missing e)" w'] assms show ?thesis by (simp add: local_read_def)
qed

subsection \<open>A laptop in memory\<close>

definition toy_machine :: "(path \<rightharpoonup> string) machine" where
  "toy_machine = \<lparr>mc_bash = (\<lambda>line w. if suffix ''/readyz'' line then (Inl ([], ''exit status 1''), w) else (Inr ''merged'', w)),
     mc_sudo = (\<lambda>args w. (Inr ([], [], if args = [''-n'', ''true''] then 0 else 1), w)), mc_terminal = False,
     mc_read = (\<lambda>p w. (case w p of None \<Rightarrow> Inl (Missing p) | Some c \<Rightarrow> Inr c, w)), mc_mkdir = (\<lambda>_ w. (Inr (), w)),
     mc_write = (\<lambda>p c w. (Inr (), w(p \<mapsto> c))),
     mc_rename = (\<lambda>p q w. (Inr (), w(q := w p, p := if p = q then w p else None))),
     mc_temp = (\<lambda>_ _ w. (Inr ''tmp'', w)), mc_remove = (\<lambda>_ w. (Inr (), w))\<rparr>"

lemma toy_machine_laws: "machine_laws toy_machine (\<lambda>w. w)"
  by (auto simp: machine_laws_def machine_files_def toy_machine_def file_laws_def quiet_def split: option.splits)

definition toy_laptop :: laptop_wireguard where
  "toy_laptop = \<lparr>lw_path = ''wg0.conf'', lw_unit = [], lw_sudo = False, lw_hub_ip = V4 0x0A080001,
     lw_hub = \<lparr>hp_public_key = ''new='', hp_endpoint = ''1.2.3.4:51820''\<rparr>, lw_seed = []\<rparr>"

abbreviation "toy_lw_run \<equiv> sg_act (laptop_wireguard_stage (local_exec toy_machine False ''run'') ''t'' (\<lambda>_ _ _. []) toy_laptop)
  \<lparr>h_name = ''laptop'', h_addr = [], h_connected = True\<rparr> [''wg0.conf'' \<mapsto> sample_conf ''old='' []]"


definition toy_kubeconfig :: "(path \<rightharpoonup> string) laptop_kubeconfig" where
  "toy_kubeconfig = \<lparr>lk_path = ''config'', lk_merge = True, lk_names = names_for ''k8s'', lk_conf = ''new'', lk_tmp_dir = ''run'',
     lk_stamp = ''t'', lk_yaml = \<lparr>ky_parse = (\<lambda>_. Inr \<lparr>kf_api_version = [], kf_kind = [], kf_clusters = [], kf_contexts = [],
       kf_current = ''old'', kf_users = []\<rparr>), ky_print = (\<lambda>_. Inr [])\<rparr>, lk_write = (\<lambda>_ _ w. (Inr (), w)), lk_remove = (\<lambda>_ w. (Inr (), w))\<rparr>"

abbreviation "toy_lk_run \<equiv> sg_act (laptop_kubeconfig_stage (local_exec toy_machine False ''run'') toy_kubeconfig)
  \<lparr>h_name = ''laptop'', h_addr = [], h_connected = True\<rparr> [''config'' \<mapsto> ''old'']"


theorem missing_is_shown_by_sudo_witness:
  "\<exists>out'. mc_sudo toy_machine [''test'', ''-e'', ''f''] (Map.empty :: path \<rightharpoonup> string) = (Inr (out', [], 1), Map.empty)"
proof -
  have "local_read toy_machine True ''f'' Map.empty = (Inl (Missing ''f: file does not exist''), Map.empty)"
    by (simp add: local_read_def io_run_def sudo_read_def sudo_ready_def toy_machine_def io_defs)
  from missing_is_shown_by_sudo [OF this] show ?thesis by (simp add: toy_machine_def)
qed

end
