(* ===== verification/Spec2Isabelle.thy ===== *)
theory Spec2Isabelle
  imports Intent SshGate StageAll Wgconf Rotation Alloc Nodelist SecretLive SecretFresh SecretList
    Cuts Zone Kube DbOrder Down CoreFresh NodeReplace WorkerStages Laptop
begin

text \<open>
  A verification library for kluster, the command line tool that builds, changes and tears down one Kubernetes cluster
  on Hetzner Cloud (the Go module \<open>src/tools/kluster\<close>). Paths below are relative to that directory and, unless they
  start with \<open>cmd/\<close>, to its \<open>internal/\<close>.

  \<^bold>\<open>The program.\<close> A command resolves where it acts (\<open>config\<close>, \<open>env\<close>, with the credentials of \<open>bitwarden\<close>), and then
  composes parts that each prove what they did. Terraform plans are checked against a declared intent before they are
  applied (\<open>intent\<close>, \<open>tf\<close>); bootstrap SSH is opened and closed around a build (\<open>sshgate\<close> over \<open>cloud\<close>); a host is
  changed by stages that probe, preview, act and probe again (\<open>stage\<close>, \<open>stages\<close>), reached over SSH under pinned host
  keys (\<open>hostkey\<close>, \<open>remote\<close>); records that people also edit are rewritten in place (\<open>wgconf\<close>, \<open>workerset\<close>,
  \<open>pgcluster\<close>); Secrets are planned from a catalog, encrypted, written and applied (\<open>catalog\<close>, \<open>secrets\<close>, \<open>sops\<close>); the
  database and the rehearsal of the whole cluster rest on the same pieces (\<open>db\<close>, \<open>r2\<close>, \<open>seed\<close>, \<open>coreset\<close>, \<open>cloud/down.go\<close>).

  \<^bold>\<open>How it is modelled.\<close> A Go string is a list of characters, a struct a record, a tagged value a datatype, an error a
  value of a sum type. A call of something outside the process (Hetzner, Terraform, a host, kubectl, a decoder of an
  external package) is a field of a record, a function over a world \<open>'w\<close> of any type; what the code relies on it for is a
  named hypothesis such as \<open>firewall_laws\<close>, \<open>file_laws\<close>, \<open>bucket_laws\<close> or \<open>reads_laws\<close>, and each theorem with such a
  hypothesis has a witness on a concrete world. Failing calls are part of the model: a theorem about what a run leaves
  behind holds however the run ends unless it says otherwise.

  \<^bold>\<open>What all parts share.\<close>
  \<^item> \<open>Prelude\<close>: the functions of the Go library the sources call (package strings, sorting, printing of numbers and
    durations), with the laws collected in \<open>str_simps\<close>.
  \<^item> \<open>Io\<close>: computations that change a world, append output lines and may fail, as \<open>io\<close>; their weakest precondition \<open>wp\<close>
    with its rules in \<open>wp_simps\<close>.
  \<^item> \<open>Files\<close>: the system calls on files as a record, and the laws of an atomic write. \<open>Netip\<close>: addresses and prefixes,
    with \<open>addr\<close> an instance of \<open>linorder\<close>. \<open>Exec\<close> (\<open>local/local.go\<close>, \<open>seed/wait.go\<close>): quoting, the words a shell reads
    back, and \<open>Until\<close>.

  \<^bold>\<open>Infrastructure and access.\<close>
  \<^item> \<open>Intent\<close> (\<open>intent/\<close>): the classes of changes, the wildcard match, \<open>check\<close>; it finds nothing exactly when the plan is
    the declared one. \<open>Terraform\<close> (\<open>tf/\<close>): decide, apply, converge; only a checked plan reaches the applier.
  \<^item> \<open>Cloud\<close> (\<open>cloud/\<close>), \<open>SshGate\<close> (\<open>sshgate/\<close>): the reading of firewalls and the gate. The locale \<open>ssh_api\<close> is what the
    gate expects of an API that reads a firewall back; its clients are proved once and it is interpreted (\<open>hetzner\<close>) on
    the model of \<open>cloud/firewall.go\<close>.
  \<^item> \<open>Stage\<close>, \<open>StageAll\<close> (\<open>stage/stage.go\<close>): \<open>run_stage\<close> and its fold over a list, plan mode, and \<open>RunAll\<close> as the
    step relation \<open>ra_step\<close> of one goroutine per host with its reachable states \<open>ra_reach\<close>; every interleaving gives
    each host what \<open>Run\<close> gives it alone.
  \<^item> \<open>Pins\<close> (\<open>hostkey/\<close>), \<open>Rotation\<close> (\<open>stages/hostkey.go\<close>), \<open>Provision\<close> (\<open>provision/\<close>, \<open>hostkey/hostkey.go\<close>): the
    known_hosts file, the rotation of the seeded key, servers created with one. The locale \<open>pin_file\<close> is the contract of
    a file of pins; \<open>known_hosts\<close> interprets it on the file \<open>hostkey\<close> rewrites.

  \<^bold>\<open>Workers.\<close>
  \<^item> \<open>Workerset\<close>, \<open>Alloc\<close> (\<open>workerset/\<close>): the edit of a tfvars file by token spans and its proof by parsing, the free
    addresses of a pool. \<open>Wgconf\<close> (\<open>wgconf/\<close>): the config as its lines. \<open>Nodelist\<close> (\<open>nodelist/\<close>): three records side by side.
  \<^item> \<open>WorkerRemove\<close>, \<open>WorkerGone\<close> (\<open>stages/worker_remove.go\<close>): drain, delete and un-peer, and what they leave.
  \<^item> \<open>HostScript\<close> (\<open>stages/script.go\<close>, \<open>stages/at.go\<close>): scripts, heredocs, and the probe that runs a list of checks in one
    session; it names exactly what fails. \<open>CpStages\<close> (\<open>stages/cp_*.go\<close>, \<open>stages/private_network.go\<close>): every stage of a Control
    Plane with its script; where its token can be seen. \<open>WorkerStages\<close> (\<open>stages/worker_wireguard.go\<close>, \<open>worker_join.go\<close>,
    \<open>cmd/node_add.go\<close>): the stages of a Worker; the peer added is the one a removal finds, and the wait for a Node, a
    \<open>partial_function\<close> over a clock, returns by its deadline when the clock moves.
  \<^item> \<open>Laptop\<close> (\<open>local/local.go\<close>, \<open>kubeconfig/\<close>, \<open>stages/laptop_*.go\<close>): the operator's own machine. The locale \<open>host_files\<close> is
    what the stages rely on of its files, read and replaced whole; \<open>plain_laptop\<close> interprets it on \<open>Exec\<close> without sudo. An
    edit of the WireGuard config or the kubeconfig leaves the file as it was or the whole edit.
  \<^item> \<open>NodeOps\<close>, \<open>NodeSafe\<close>, \<open>NodeReplace\<close> (\<open>cmd/node*.go\<close>, parts of \<open>cmd/commands.go\<close> and \<open>cmd/cp.go\<close>): the three commands
    over all of the above, the gate around them, the declaration of a Worker, and the order of a replacement (\<open>only_when\<close>
    bounds when a run may reach its applier).

  \<^bold>\<open>Secrets.\<close>
  \<^item> \<open>Catalog\<close> (\<open>catalog/\<close>), \<open>Values\<close> and \<open>Store\<close> (\<open>secrets/store.go\<close>, \<open>secrets/manifest.go\<close>), \<open>Sops\<close> (\<open>sops/check.go\<close>),
    \<open>Bitwarden\<close> (\<open>bitwarden/\<close>): reading, well-formedness, encryption before a file is replaced. The locale \<open>vault\<close> is
    what the planner expects of a source of issued values, interpreted on the Bitwarden client.
  \<^item> \<open>SecretPlan\<close>, \<open>SecretCmds\<close> (\<open>secrets/plan.go\<close>, \<open>secrets/vault.go\<close>): the three loops of the planner refine the abstract
    \<open>desired\<close> values; a written plan has nothing left to do. \<open>SecretLive\<close>, \<open>SecretFresh\<close>, \<open>SecretList\<close>: the live cluster,
    a rehearsal, the state of every key.

  \<^bold>\<open>Database, seed, rehearsal.\<close>
  \<^item> \<open>Wal\<close> (\<open>db/wal.go\<close>, \<open>r2/\<close>), \<open>Generation\<close> (\<open>pgcluster/pgcluster.go\<close>), \<open>Kube\<close> (\<open>kube/\<close>), \<open>DbCreate\<close>, \<open>DbSafe\<close>,
    \<open>DbOrder\<close> (\<open>db/\<close>): segments and locks, the generation the repository names, and db create: when it may start, what
    its archive stage shows, that the generation moves last. \<open>keeps_intros\<close> collects what leaves a view of the world alone.
  \<^item> \<open>SeedApply\<close>, \<open>Zone\<close>, \<open>Cuts\<close> (\<open>seed/\<close>): applying a manifest, comparing the zone, cutting a rehearsal off from live.
  \<^item> \<open>Coreset\<close>, \<open>CoreCheck\<close>, \<open>CoreAgree\<close>, \<open>CoreFresh\<close> (\<open>coreset/\<close>): the lists of the repository, the check of the synced
    files, its specification \<open>repo_agrees\<close>, and what a clean check gives the Secrets of a rehearsal.
  \<^item> \<open>Config\<close>, \<open>Env\<close> (\<open>config/\<close>, \<open>env/\<close>), \<open>Teardown\<close>, \<open>Down\<close> (\<open>cloud/down.go\<close>, \<open>cloud/inventory.go\<close>, \<open>cmd/root.go\<close>,
    \<open>cmd/commands.go\<close>): where a command acts, and the deletion of a rehearsal's project.

  \<^bold>\<open>Bounds and loops.\<close> \<open>Until\<close>, the pages of a zone and the retry of a primary IP are \<open>partial_function\<close>s, so that a loop
  that never ends is \<open>None\<close>; \<open>Exec\<close> shows that \<open>Until\<close> always ends, and a retry that waits for ever is an
  error of the model. \<open>build_files\<close>, which follows the bases of kustomizations, takes fuel: \<open>CoreAgree\<close> gives an
  amount that is enough when no base lists itself through others, and shows that none is enough for one that does. Durations and the seconds of a lock are taken at 64 bits
  where they are multiplied.

  \<^bold>\<open>Not modelled.\<close> The packages outside the repository and their decoders are parameters. Of the repository: starting
  processes and the environment of sops (\<open>sops/sops.go\<close>), the SSH client and the user space WireGuard
  tunnel (\<open>remote/\<close>, \<open>vpn/\<close>, \<open>routeproof/\<close>), which are calls of the network; text that is only printed (tables, diffs,
  help, \<open>secrets/report.go\<close>); the commands that compose the stages of a Control Plane (\<open>cmd/cp.go\<close>, \<open>cmd/up.go\<close>) and the
  plan of a seed; the wiring of cobra commands to the functions modelled here. A script that a stage sends to a host is
  modelled as its text: what the shell of the host makes of it is the world's, and what a check says of the host a parameter.
\<close>

end
